(* ===== verification/Prelude.thy ===== *)
theory Prelude
  imports Main "HOL-Library.Word" "HOL-Library.Multiset"
begin

text \<open>
  Shared vocabulary of the development: names for the fixed-width integers of
  \<^verbatim>\<open>src/framework/Platform/Define.h\<close>, the generic lemmas on lists and words that the
  components use, the model of the ordered multimap of the C++ standard library, and the
  locale that lifts a one-step invariant to runs.
\<close>

unbundle bit_operations_syntax

section \<open>Machine integers\<close>

type_synonym u8 = "8 word"
type_synonym u16 = "16 word"
type_synonym u32 = "32 word"
type_synonym u64 = "64 word"

named_theorems model_defs \<open>definitions unfolded when a model is evaluated\<close>
named_theorems frame_simps \<open>fields an operation leaves alone\<close>

lemma bit_low16: "bit (0xFFFF :: int) n \<longleftrightarrow> n < 16"
proof -
  have "bit (mask 16 :: int) n \<longleftrightarrow> n < 16" by (simp add: bit_mask_iff)
  moreover have "mask 16 = (0xFFFF :: int)" by (simp add: mask_eq_exp_minus_1)
  ultimately show ?thesis by metis
qed

lemma unat_less_2p: "unat w < 2 ^ LENGTH('a)" for w :: "'a::len word"
  by (rule unsigned_less)

lemma unat_ucast8_32 [simp]: "unat (ucast a :: u32) = unat a" for a :: u8
  using unat_less_2p [of a] by (simp add: unsigned_ucast_eq take_bit_nat_eq_self)

lemma ucast8_32_eq [simp]: "(ucast a :: u32) = ucast b \<longleftrightarrow> a = b" for a b :: u8
  by (metis unat_ucast8_32 word_unat_eq_iff)

lemma unat_plus_small: "unat a + unat b < 2 ^ 32 \<Longrightarrow> unat (a + b) = unat a + unat b" for a b :: u32
  using unat_add_lem [of a b] by simp

section \<open>Standard-library containers\<close>

text \<open>
  \<^verbatim>\<open>std::multimap\<close> as the list of its entries in iteration order: ascending keys, and an
  insertion goes behind the entries with an equal key.
\<close>

fun mm_insert :: "'k::linorder \<Rightarrow> 'v \<Rightarrow> ('k \<times> 'v) list \<Rightarrow> ('k \<times> 'v) list" where
  "mm_insert k v [] = [(k, v)]"
| "mm_insert k v ((k', v') # m) =
     (if k < k' then (k, v) # (k', v') # m else (k', v') # mm_insert k v m)"

definition mm_insert_all :: "('k::linorder \<times> 'v) list \<Rightarrow> ('k \<times> 'v) list \<Rightarrow> ('k \<times> 'v) list" where
  "mm_insert_all es m = fold (\<lambda>(k, v). mm_insert k v) es m"

text \<open>Storing at an index of a container whose keys are \<open>0, \<dots>, size - 1\<close>.\<close>

definition put_at :: "nat \<Rightarrow> 'a \<Rightarrow> 'a list \<Rightarrow> 'a list" where
  "put_at i x xs = (if i < length xs then xs[i := x] else xs @ [x])"

section \<open>Lemmas on the containers\<close>

lemma set_mm_insert [simp]: "set (mm_insert k v m) = insert (k, v) (set m)"
  by (induction k v m rule: mm_insert.induct) auto

lemma mset_mm_insert [simp]: "mset (mm_insert k v m) = add_mset (k, v) (mset m)"
  by (induction k v m rule: mm_insert.induct) auto

lemma length_mm_insert [simp]: "length (mm_insert k v m) = Suc (length m)"
  by (induction k v m rule: mm_insert.induct) auto

lemma mm_insert_not_Nil [simp]: "mm_insert k v m \<noteq> []"
  by (metis length_mm_insert list.size(3) nat.distinct(1))

lemma sorted_mm_insert [simp]:
  "sorted (map fst (mm_insert k v m)) = sorted (map fst m)"
  by (induction k v m rule: mm_insert.induct) (auto simp: ball_Un intro: less_imp_le order.trans)

lemma set_mm_insert_all [simp]: "set (mm_insert_all es m) = set es \<union> set m"
  unfolding mm_insert_all_def by (induction es arbitrary: m) auto

lemma sorted_mm_insert_all [simp]:
  "sorted (map fst (mm_insert_all es m)) = sorted (map fst m)"
  unfolding mm_insert_all_def by (induction es arbitrary: m) (simp_all add: case_prod_beta)

lemma sorted_map_filter: "sorted (map f xs) \<Longrightarrow> sorted (map f (filter P xs))"
  by (rule sorted_filter)

lemma filter_mm_insert:
  "filter P (mm_insert k v m) =
     (if P (k, v) then mm_insert k v (filter P m) else filter P m)" if "sorted (map fst m)"
  using that
proof (induction k v m rule: mm_insert.induct)
  case (2 k v k' v' m)
  then have *: "\<And>x. x \<in> set m \<Longrightarrow> k' \<le> fst x" by auto
  show ?case
  proof (cases "k < k'")
    case True
    have "mm_insert k v m' = (k, v) # m'" if "set m' \<subseteq> set m" for m'
      using True * that by (cases m') force+
    then show ?thesis using True by simp
  next
    case False
    then show ?thesis using 2 by simp
  qed
qed simp

section \<open>Runs of operations\<close>

text \<open>A state component whose operations each keep an invariant keeps it along every run.\<close>

locale kept_invariant =
  fixes step :: "'op \<Rightarrow> 's \<Rightarrow> 's" and inv :: "'s \<Rightarrow> bool"
  assumes step_keeps: "inv s \<Longrightarrow> inv (step a s)"
begin

lemma run_keeps: "inv s \<Longrightarrow> inv (fold step as s)"
  by (induction as arbitrary: s) (auto intro: step_keeps)

lemma prefix_keeps: "inv s \<Longrightarrow> inv (fold step (take n as) s)"
  by (rule run_keeps)

end

text \<open>A step relation that keeps an invariant and what the state holds does so along every run.\<close>

locale conserving =
  fixes step :: "'s \<Rightarrow> 's \<Rightarrow> bool" and inv :: "'s \<Rightarrow> bool" and held :: "'s \<Rightarrow> 'm"
  assumes step_keeps: "inv s \<Longrightarrow> step s s' \<Longrightarrow> inv s' \<and> held s' = held s"
begin

lemma run_keeps: "step\<^sup>*\<^sup>* s s' \<Longrightarrow> inv s \<Longrightarrow> inv s' \<and> held s' = held s"
  by (induction rule: rtranclp_induct) (auto dest: step_keeps)

end

text \<open>A step relation that keeps an invariant and never raises what the state is worth.\<close>

locale spending =
  fixes step :: "'s \<Rightarrow> 's \<Rightarrow> bool" and inv :: "'s \<Rightarrow> bool" and worth :: "'s \<Rightarrow> 'm::order"
  assumes step_spends: "inv s \<Longrightarrow> step s s' \<Longrightarrow> inv s' \<and> worth s' \<le> worth s"
begin

lemma run_spends: "step\<^sup>*\<^sup>* s s' \<Longrightarrow> inv s \<Longrightarrow> inv s' \<and> worth s' \<le> worth s"
  by (induction rule: rtranclp_induct) (auto dest: step_spends intro: order.trans)

end

end
