(* ===== verification/Event_Map.thy ===== *)
theory Event_Map
  imports Prelude
begin

text \<open>
  The timed event queue of creature scripts, \<^verbatim>\<open>src/framework/Utilities/EventMap.h\<close> and
  \<^verbatim>\<open>EventMap.cpp\<close>. An event is a 32-bit word \<open>0xPPGGEEEE\<close>: the id in the low half, a group
  bit in bits 16 to 23, a phase bit in bits 24 to 31. The store is a multimap from due time to
  event; all arithmetic on times and ids is 32-bit and wraps.
\<close>

section \<open>State and operations\<close>

record event_map =
  em_time :: u32
  em_phase :: u8
  em_store :: "(u32 \<times> u32) list"
  em_last :: u32

definition EventMap :: event_map where
  "EventMap = \<lparr>em_time = 0, em_phase = 0, em_store = [], em_last = 0\<rparr>"

definition Reset :: "event_map \<Rightarrow> event_map" where
  "Reset s = s\<lparr>em_store := [], em_time := 0, em_phase := 0\<rparr>"

definition Update :: "u32 \<Rightarrow> event_map \<Rightarrow> event_map" where
  "Update t s = s\<lparr>em_time := em_time s + t\<rparr>"

definition GetTimer :: "event_map \<Rightarrow> u32" where
  "GetTimer s = em_time s"

definition GetPhaseMask :: "event_map \<Rightarrow> u8" where
  "GetPhaseMask s = em_phase s"

definition Empty :: "event_map \<Rightarrow> bool" where
  "Empty s = (em_store s = [])"

definition SetPhase :: "u8 \<Rightarrow> event_map \<Rightarrow> event_map" where
  "SetPhase phase s =
     (if phase = 0 then s\<lparr>em_phase := 0\<rparr>
      else if phase \<le> 8 then s\<lparr>em_phase := push_bit (unat (phase - 1)) 1\<rparr>
      else s)"

definition AddPhase :: "u8 \<Rightarrow> event_map \<Rightarrow> event_map" where
  "AddPhase phase s =
     (if phase \<noteq> 0 \<and> phase \<le> 8
      then s\<lparr>em_phase := em_phase s OR push_bit (unat (phase - 1)) 1\<rparr> else s)"

definition RemovePhase :: "u8 \<Rightarrow> event_map \<Rightarrow> event_map" where
  "RemovePhase phase s =
     (if phase \<noteq> 0 \<and> phase \<le> 8
      then s\<lparr>em_phase := em_phase s AND NOT (push_bit (unat (phase - 1)) 1)\<rparr> else s)"

definition IsInPhase :: "u8 \<Rightarrow> event_map \<Rightarrow> bool" where
  "IsInPhase phase s =
     (phase \<le> 8 \<and> (phase = 0 \<or> em_phase s AND push_bit (unat (phase - 1)) 1 \<noteq> 0))"

text \<open>The word \<^verbatim>\<open>ScheduleEvent\<close> stores: the id with its group and phase bits.\<close>

definition event_word :: "u32 \<Rightarrow> u32 \<Rightarrow> u8 \<Rightarrow> u32" where
  "event_word eventId grp phase =
     (let e1 = (if grp \<noteq> 0 \<and> grp \<le> 8 then eventId OR push_bit (unat grp + 15) 1 else eventId)
      in if phase \<noteq> 0 \<and> phase \<le> 8 then e1 OR push_bit (unat phase + 23) 1 else e1)"

definition ScheduleEvent :: "u32 \<Rightarrow> u32 \<Rightarrow> u32 \<Rightarrow> u8 \<Rightarrow> event_map \<Rightarrow> event_map" where
  "ScheduleEvent eventId time grp phase s =
     s\<lparr>em_store := mm_insert (em_time s + time) (event_word eventId grp phase) (em_store s)\<rparr>"

definition Repeat :: "u32 \<Rightarrow> event_map \<Rightarrow> event_map" where
  "Repeat time s = s\<lparr>em_store := mm_insert (em_time s + time) (em_last s) (em_store s)\<rparr>"

definition event_id :: "u32 \<Rightarrow> u32" where
  "event_id e = e AND 0x0000FFFF"

definition wrong_phase :: "u8 \<Rightarrow> u32 \<Rightarrow> bool" where
  "wrong_phase phase e =
     (phase \<noteq> 0 \<and> e AND 0xFF000000 \<noteq> 0 \<and> drop_bit 24 e AND ucast phase = 0)"

fun ExecuteEvent_loop :: "(u32 \<times> u32) list \<Rightarrow> event_map \<Rightarrow> u32 \<times> event_map" where
  "ExecuteEvent_loop [] s = (0, s\<lparr>em_store := []\<rparr>)"
| "ExecuteEvent_loop ((t, e) # m) s =
     (if t > em_time s then (0, s\<lparr>em_store := (t, e) # m\<rparr>)
      else if wrong_phase (em_phase s) e then ExecuteEvent_loop m s
      else (event_id e, s\<lparr>em_last := e, em_store := m\<rparr>))"

definition ExecuteEvent :: "event_map \<Rightarrow> u32 \<times> event_map" where
  "ExecuteEvent s = ExecuteEvent_loop (em_store s) s"

definition DelayEvents :: "u32 \<Rightarrow> event_map \<Rightarrow> event_map" where
  "DelayEvents delay s = s\<lparr>em_time := (if delay < em_time s then em_time s - delay else 0)\<rparr>"

definition in_group :: "u32 \<Rightarrow> u32 \<Rightarrow> bool" where
  "in_group grp e = (e AND push_bit (unat grp + 15) 1 \<noteq> 0)"

text \<open>One pass over the store: the delayed entries on one side, the kept ones on the other.\<close>

fun delay_loop :: "u32 \<Rightarrow> u32 \<Rightarrow> (u32 \<times> u32) list \<Rightarrow> (u32 \<times> u32) list \<Rightarrow> (u32 \<times> u32) list
    \<Rightarrow> (u32 \<times> u32) list \<times> (u32 \<times> u32) list" where
  "delay_loop delay grp [] kept delayed = (rev kept, delayed)"
| "delay_loop delay grp ((t, e) # m) kept delayed =
     (if in_group grp e then delay_loop delay grp m kept (mm_insert (t + delay) e delayed)
      else delay_loop delay grp m ((t, e) # kept) delayed)"

definition DelayEventsGroup :: "u32 \<Rightarrow> u32 \<Rightarrow> event_map \<Rightarrow> event_map" where
  "DelayEventsGroup delay grp s =
     (if grp = 0 \<or> grp > 8 \<or> Empty s then s
      else let (kept, delayed) = delay_loop delay grp (em_store s) [] []
           in s\<lparr>em_store := mm_insert_all delayed kept\<rparr>)"

fun erase_if :: "(u32 \<Rightarrow> bool) \<Rightarrow> (u32 \<times> u32) list \<Rightarrow> (u32 \<times> u32) list" where
  "erase_if P [] = []"
| "erase_if P ((t, e) # m) = (if P e then erase_if P m else (t, e) # erase_if P m)"

definition CancelEvent :: "u32 \<Rightarrow> event_map \<Rightarrow> event_map" where
  "CancelEvent eventId s =
     (if Empty s then s else s\<lparr>em_store := erase_if (\<lambda>e. eventId = event_id e) (em_store s)\<rparr>)"

definition RescheduleEvent :: "u32 \<Rightarrow> u32 \<Rightarrow> u32 \<Rightarrow> u8 \<Rightarrow> event_map \<Rightarrow> event_map" where
  "RescheduleEvent eventId time grp phase s =
     ScheduleEvent eventId time grp phase (CancelEvent eventId s)"

definition CancelEventGroup :: "u32 \<Rightarrow> event_map \<Rightarrow> event_map" where
  "CancelEventGroup grp s =
     (if grp = 0 \<or> grp > 8 \<or> Empty s then s
      else s\<lparr>em_store := erase_if (in_group grp) (em_store s)\<rparr>)"

text \<open>
  \<^verbatim>\<open>CancelEventsByGCD\<close> restarts its scan from the beginning after every erasure; the loop
  state is the store and the position of the iterator. The shift is undefined in C++ when
  the count reaches the width, and the model then has no result.
\<close>

function gcd_loop :: "u32 \<Rightarrow> (u32 \<times> u32) list \<Rightarrow> nat \<Rightarrow> (u32 \<times> u32) list" where
  "gcd_loop bits m i =
     (if i < length m
      then if snd (m ! i) AND bits \<noteq> 0
           then gcd_loop bits (take i m @ drop (Suc i) m) 0
           else gcd_loop bits m (Suc i)
      else m)"
  by pat_completeness auto
termination
  by (relation "measures [\<lambda>(bits, m, i). length m, \<lambda>(bits, m, i). length m - i]") auto

definition CancelEventsByGCD :: "u32 \<Rightarrow> event_map \<Rightarrow> event_map option" where
  "CancelEventsByGCD g s =
     (if g + 16 < 32
      then Some (s\<lparr>em_store := gcd_loop (push_bit (unat (g + 16)) 1) (em_store s) 0\<rparr>)
      else None)"

fun find_event :: "u32 \<Rightarrow> (u32 \<times> u32) list \<Rightarrow> u32 option" where
  "find_event eventId [] = None"
| "find_event eventId ((t, e) # m) = (if eventId = event_id e then Some t else find_event eventId m)"

definition GetNextEventTimeOf :: "u32 \<Rightarrow> event_map \<Rightarrow> u32" where
  "GetNextEventTimeOf eventId s =
     (if Empty s then 0 else case find_event eventId (em_store s) of Some t \<Rightarrow> t | None \<Rightarrow> 0)"

definition GetNextEventTime :: "event_map \<Rightarrow> u32" where
  "GetNextEventTime s = (if Empty s then 0 else fst (hd (em_store s)))"

definition GetTimeUntilEvent :: "u32 \<Rightarrow> event_map \<Rightarrow> u32" where
  "GetTimeUntilEvent eventId s =
     (case find_event eventId (em_store s) of Some t \<Rightarrow> t - em_time s | None \<Rightarrow> - 1)"


text \<open>The operations a script performs on its event map, and one step of a run.\<close>

datatype em_op =
    OpReset | OpUpdate u32 | OpSetPhase u8 | OpAddPhase u8 | OpRemovePhase u8
  | OpSchedule u32 u32 u32 u8 | OpReschedule u32 u32 u32 u8 | OpRepeat u32 | OpExecute
  | OpDelay u32 | OpDelayGroup u32 u32 | OpCancel u32 | OpCancelGroup u32 | OpCancelByGCD u32

fun em_step :: "em_op \<Rightarrow> event_map \<Rightarrow> event_map" where
  "em_step OpReset s = Reset s"
| "em_step (OpUpdate t) s = Update t s"
| "em_step (OpSetPhase p) s = SetPhase p s"
| "em_step (OpAddPhase p) s = AddPhase p s"
| "em_step (OpRemovePhase p) s = RemovePhase p s"
| "em_step (OpSchedule i t g p) s = ScheduleEvent i t g p s"
| "em_step (OpReschedule i t g p) s = RescheduleEvent i t g p s"
| "em_step (OpRepeat t) s = Repeat t s"
| "em_step OpExecute s = snd (ExecuteEvent s)"
| "em_step (OpDelay d) s = DelayEvents d s"
| "em_step (OpDelayGroup d g) s = DelayEventsGroup d g s"
| "em_step (OpCancel i) s = CancelEvent i s"
| "em_step (OpCancelGroup g) s = CancelEventGroup g s"
| "em_step (OpCancelByGCD g) s = (case CancelEventsByGCD g s of Some s' \<Rightarrow> s' | None \<Rightarrow> s)"

definition em_sorted :: "event_map \<Rightarrow> bool" where
  "em_sorted s = sorted (map fst (em_store s))"

section \<open>Loops and their closed forms\<close>

declare gcd_loop.simps [simp del]

lemma erase_if_filter: "erase_if P m = filter (\<lambda>x. \<not> P (snd x)) m"
  by (induction P m rule: erase_if.induct) auto

lemma filter_take_drop_Suc:
  "i < length m \<Longrightarrow> \<not> P (m ! i) \<Longrightarrow> filter P (take i m @ drop (Suc i) m) = filter P m"
  by (subst (5) id_take_nth_drop) auto

lemma gcd_loop_filter:
  "(\<forall>x \<in> set (take i m). snd x AND bits = 0) \<Longrightarrow> gcd_loop bits m i = filter (\<lambda>x. snd x AND bits = 0) m"
proof (induction bits m i rule: gcd_loop.induct)
  case (1 bits m i)
  consider "i \<ge> length m" | "i < length m" "snd (m ! i) AND bits \<noteq> 0"
    | "i < length m" "snd (m ! i) AND bits = 0" by linarith
  then show ?case
  proof cases
    case 1
    then show ?thesis using "1.prems" by (simp add: gcd_loop.simps)
  next
    case 2
    then have "gcd_loop bits m i = gcd_loop bits (take i m @ drop (Suc i) m) 0"
      by (simp add: gcd_loop.simps [of bits m i])
    then show ?thesis using "1.IH"(1) 2 filter_take_drop_Suc [of i m] by simp
  next
    case 3
    then have "gcd_loop bits m i = gcd_loop bits m (Suc i)"
      by (simp add: gcd_loop.simps [of bits m i])
    moreover have "\<forall>x \<in> set (take (Suc i) m). snd x AND bits = 0"
      using 3 "1.prems" by (auto simp: take_Suc_conv_app_nth)
    ultimately show ?thesis using "1.IH"(2) 3 by simp
  qed
qed

lemma mset_mm_insert_all [simp]: "mset (mm_insert_all es m) = mset es + mset m"
  unfolding mm_insert_all_def by (induction es arbitrary: m) auto

lemma delay_loop_fst:
  "fst (delay_loop delay grp m kept delayed) = rev kept @ filter (\<lambda>x. \<not> in_group grp (snd x)) m"
  by (induction delay grp m kept delayed rule: delay_loop.induct) auto

lemma delay_loop_snd:
  "mset (snd (delay_loop delay grp m kept delayed)) =
     mset delayed + mset (map (\<lambda>(t, e). (t + delay, e)) (filter (\<lambda>x. in_group grp (snd x)) m))"
  by (induction delay grp m kept delayed rule: delay_loop.induct) auto

section \<open>The store stays sorted\<close>

lemma ExecuteEvent_loop_suffix:
  "\<exists>k. em_store (snd (ExecuteEvent_loop m s)) = drop k m"
proof (induction m s rule: ExecuteEvent_loop.induct)
  case (2 t e m s)
  consider "t > em_time s" | "t \<le> em_time s" "wrong_phase (em_phase s) e"
    | "t \<le> em_time s" "\<not> wrong_phase (em_phase s) e" by force
  then show ?case
  proof cases
    case 1
    then show ?thesis by (auto intro: exI [of _ 0])
  next
    case 2
    with "2.IH" obtain k where "em_store (snd (ExecuteEvent_loop m s)) = drop k m"
      by (auto simp: not_less)
    with 2 show ?thesis by (auto intro: exI [of _ "Suc k"])
  next
    case 3
    then show ?thesis by (auto intro: exI [of _ "Suc 0"])
  qed
qed simp

lemma em_step_sorted: "em_sorted s \<Longrightarrow> em_sorted (em_step a s)"
proof (cases a)
  case OpExecute
  assume *: "em_sorted s"
  obtain k where "em_store (em_step a s) = drop k (em_store s)"
    using ExecuteEvent_loop_suffix OpExecute by (force simp: ExecuteEvent_def)
  with * show ?thesis by (simp add: em_sorted_def drop_map [symmetric] sorted_wrt_drop)
qed (auto simp: em_sorted_def Reset_def Update_def SetPhase_def AddPhase_def RemovePhase_def
      ScheduleEvent_def RescheduleEvent_def Repeat_def DelayEvents_def DelayEventsGroup_def
      CancelEvent_def CancelEventGroup_def CancelEventsByGCD_def erase_if_filter gcd_loop_filter
      sorted_map_filter case_prod_beta delay_loop_fst split: option.splits)

interpretation em: kept_invariant em_step em_sorted
  by unfold_locales (rule em_step_sorted)



section \<open>Executing events\<close>

text \<open>An entry that \<^verbatim>\<open>ExecuteEvent\<close> may hand out now.\<close>

definition runnable :: "event_map \<Rightarrow> u32 \<times> u32 \<Rightarrow> bool" where
  "runnable s x = (fst x \<le> em_time s \<and> \<not> wrong_phase (em_phase s) (snd x))"

lemma ExecuteEvent_loop_none:
  "sorted (map fst m) \<Longrightarrow> \<forall>x \<in> set m. \<not> runnable s x \<Longrightarrow>
   ExecuteEvent_loop m s = (0, s\<lparr>em_store := filter (\<lambda>x. em_time s < fst x) m\<rparr>)"
proof (induction m s rule: ExecuteEvent_loop.induct)
  case (2 t e m s)
  show ?case
  proof (cases "em_time s < t")
    case True
    then have "filter (\<lambda>x. em_time s < fst x) m = m"
      using "2.prems"(1) by (auto simp: filter_id_conv intro: less_le_trans)
    then show ?thesis using True by simp
  next
    case False
    then show ?thesis using 2 by (auto simp: runnable_def)
  qed
qed simp

lemma ExecuteEvent_loop_some:
  "\<forall>x \<in> set pre. fst x \<le> em_time s \<and> wrong_phase (em_phase s) (snd x) \<Longrightarrow> runnable s (t, e) \<Longrightarrow>
   ExecuteEvent_loop (pre @ (t, e) # post) s = (event_id e, s\<lparr>em_last := e, em_store := post\<rparr>)"
  by (induction pre) (auto simp: runnable_def not_less)

lemma sorted_split_runnable:
  assumes "sorted (map fst m)" "\<exists>x \<in> set m. runnable s x"
  obtains pre t e post where "m = pre @ (t, e) # post" "runnable s (t, e)"
    "\<forall>x \<in> set pre. fst x \<le> em_time s \<and> wrong_phase (em_phase s) (snd x)"
    "\<forall>x \<in> set post. t \<le> fst x"
proof -
  obtain pre x post where m: "m = pre @ x # post" and r: "runnable s x"
    and n: "\<forall>y \<in> set pre. \<not> runnable s y"
    using split_list_first_prop [OF assms(2)] by blast
  have "\<forall>y \<in> set pre. fst y \<le> fst x"
    using assms(1) by (simp add: m sorted_append)
  then have "\<forall>y \<in> set pre. fst y \<le> em_time s"
    using r unfolding runnable_def by (blast intro: order.trans)
  then show ?thesis
    using that [of pre "fst x" "snd x" post] m r n assms(1)
    by (auto simp: runnable_def sorted_append)
qed



section \<open>Cancelling and rescheduling\<close>

lemma event_id_event_word: "event_id (event_word i grp phase) = event_id i"
  by (rule bit_word_eqI)
    (auto simp: event_id_def event_word_def bit_and_iff bit_or_iff bit_exp_iff bit_low16
      unat_eq_zero Let_def split: if_splits)


lemma event_id_idem [simp]: "event_id (event_id i) = event_id i"
  by (simp add: event_id_def and.assoc)

text \<open>C33: after \<^verbatim>\<open>CancelEvent\<close> no entry with that id is left, and the entries of every other id
  are untouched.\<close>

theorem CancelEvent_correct:
  "find_event i (em_store (CancelEvent i s)) = None
   \<and> filter (\<lambda>x. event_id (snd x) \<noteq> i) (em_store (CancelEvent i s))
     = filter (\<lambda>x. event_id (snd x) \<noteq> i) (em_store s)"
proof -
  have "find_event i (filter (\<lambda>x. i \<noteq> event_id (snd x)) m) = None" for m
    by (induction m) auto
  then show ?thesis
    by (auto simp: CancelEvent_def Empty_def erase_if_filter intro: filter_cong)
qed

text \<open>C34: rescheduling an id that fits its 16 bits leaves exactly one entry for it, due at the
  current time plus the delay, whatever was queued before.\<close>

theorem RescheduleEvent_single:
  assumes "em_sorted s" and "event_id i = i"
  shows "filter (\<lambda>x. event_id (snd x) = i) (em_store (RescheduleEvent i t grp phase s))
         = [(em_time s + t, event_word i grp phase)]"
proof -
  have "filter (\<lambda>x. event_id (snd x) = i) (em_store (CancelEvent i s)) = []"
    by (auto simp: CancelEvent_def Empty_def erase_if_filter filter_empty_conv)
  moreover have "sorted (map fst (em_store (CancelEvent i s)))"
    using em_step_sorted [OF assms(1), of "OpCancel i"] by (simp add: em_sorted_def)
  moreover have "em_time (CancelEvent i s) = em_time s"
    by (simp add: CancelEvent_def)
  ultimately show ?thesis
    using assms(2)
    by (simp add: RescheduleEvent_def ScheduleEvent_def filter_mm_insert event_id_event_word)
qed

theorem RescheduleEvent_single_witness:
  "filter (\<lambda>x. event_id (snd x) = 7)
     (em_store (RescheduleEvent 7 100 1 2 (ScheduleEvent 7 3 0 0 EventMap)))
   = [(100, event_word 7 1 2)]"
  using RescheduleEvent_single [of "ScheduleEvent 7 3 0 0 EventMap" 7 100 1 2]
  by (simp add: em_sorted_def ScheduleEvent_def EventMap_def event_id_def)

text \<open>C35: for arguments 0 to 7, the scan with restarts of \<^verbatim>\<open>CancelEventsByGCD\<close> computes what
  \<^verbatim>\<open>CancelEventGroup\<close> computes for the group one higher.\<close>

theorem CancelEventsByGCD_eq_group:
  assumes "g < 8"
  shows "CancelEventsByGCD g s = Some (CancelEventGroup (g + 1) s)"
proof -
  have g: "unat g < 8" using assms by (simp add: word_less_nat_alt)
  then have u: "unat (g + 1) = unat g + 1" "unat (g + 16) = unat g + 16"
    by (simp_all add: unat_word_ariths)
  have *: "gcd_loop (push_bit (unat (g + 16)) 1) m 0 = erase_if (in_group (g + 1)) m" for m
    using u by (simp add: gcd_loop_filter erase_if_filter in_group_def add.commute)
  have "g + 16 < 32" "g + 1 \<noteq> 0" "\<not> g + 1 > 8"
    using g u by (auto simp: word_less_nat_alt unat_eq_zero [symmetric])
  then show ?thesis
    using * [of "em_store s"] by (auto simp: CancelEventsByGCD_def CancelEventGroup_def Empty_def)
qed

theorem CancelEventsByGCD_eq_group_witness:
  "CancelEventsByGCD 0 (ScheduleEvent 5 1 1 0 (ScheduleEvent 6 1 2 0 EventMap))
   = Some (ScheduleEvent 6 1 2 0 EventMap)"
  using CancelEventsByGCD_eq_group [of 0 "ScheduleEvent 5 1 1 0 (ScheduleEvent 6 1 2 0 EventMap)"]
  by (simp add: CancelEventGroup_def ScheduleEvent_def EventMap_def event_word_def Empty_def
      in_group_def)

text \<open>C36: delaying a group adds the delay to the due time of every entry of the group, changes
  no other entry and loses none.\<close>

theorem DelayEventsGroup_mset:
  assumes "grp \<noteq> 0" and "grp \<le> 8"
  shows "mset (em_store (DelayEventsGroup d grp s)) =
    mset (map (\<lambda>(t, e). (if in_group grp e then t + d else t, e)) (em_store s))"
proof -
  have "mset (map (\<lambda>(t, e). (t + d, e)) (filter (\<lambda>x. in_group grp (snd x)) m))
      + mset (filter (\<lambda>x. \<not> in_group grp (snd x)) m)
    = mset (map (\<lambda>(t, e). (if in_group grp e then t + d else t, e)) m)" for m
    by (induction m) auto
  then show ?thesis
    using assms delay_loop_fst [of d grp "em_store s" "[]" "[]"]
      delay_loop_snd [of d grp "em_store s" "[]" "[]"]
    by (auto simp: DelayEventsGroup_def Empty_def case_prod_beta)
qed

theorem DelayEventsGroup_mset_witness:
  "mset (em_store (DelayEventsGroup 10 1 (ScheduleEvent 5 1 1 0 (ScheduleEvent 6 2 0 0 EventMap))))
   = {#(11, 0x10005), (2, 6)#}"
  using DelayEventsGroup_mset [of 1 10 "ScheduleEvent 5 1 1 0 (ScheduleEvent 6 2 0 0 EventMap)"]
  by (simp add: ScheduleEvent_def EventMap_def event_word_def in_group_def)

section \<open>Phases\<close>

lemma phase_bit: "p \<noteq> 0 \<Longrightarrow> unat (p - 1) = unat p - 1" for p :: u8
  by (rule unat_minus_one)

lemma IsInPhase_bit:
  "q \<noteq> 0 \<Longrightarrow> q \<le> 8 \<Longrightarrow> IsInPhase q s \<longleftrightarrow> bit (em_phase s) (unat q - 1)"
  by (simp add: IsInPhase_def phase_bit and_exp_eq_0_iff_not_bit)

lemma phase_index_eq:
  "p \<noteq> 0 \<Longrightarrow> q \<noteq> 0 \<Longrightarrow> unat p - 1 = unat q - 1 \<longleftrightarrow> p = q" for p q :: u8
  by (metis diff_0_right phase_bit word_unat_eq_iff diff_add_cancel)

lemma phase_index_less: "p \<noteq> 0 \<Longrightarrow> p \<le> 8 \<Longrightarrow> unat p - 1 < 8" for p :: u8
  by (simp add: word_le_nat_alt unat_gt_0 [symmetric])

text \<open>For phases 1 to 8, \<^verbatim>\<open>SetPhase\<close> makes exactly one phase active, \<^verbatim>\<open>AddPhase\<close> adds one
  and \<^verbatim>\<open>RemovePhase\<close> removes one, and no other phase changes.\<close>

theorem phase_operations:
  assumes "p \<noteq> 0" "p \<le> 8" "q \<noteq> 0" "q \<le> 8"
  shows "IsInPhase q (SetPhase p s) = (q = p)
    \<and> IsInPhase q (AddPhase p s) = (q = p \<or> IsInPhase q s)
    \<and> IsInPhase q (RemovePhase p s) = (q \<noteq> p \<and> IsInPhase q s)"
  using assms phase_index_less [of p] phase_index_less [of q] phase_index_eq [of q p]
  by (auto simp: IsInPhase_bit SetPhase_def AddPhase_def RemovePhase_def phase_bit bit_exp_iff
      bit_or_iff bit_and_iff bit_not_iff)

theorem phase_operations_witness:
  "IsInPhase 3 (AddPhase 3 (SetPhase 8 EventMap)) \<and> \<not> IsInPhase 3 (SetPhase 8 EventMap)"
  using phase_operations [of 3 3 "SetPhase 8 EventMap"] phase_operations [of 8 3 EventMap] by simp

end
