(* ===== verification/Cpp_Strings.thy ===== *)
theory Cpp_Strings
  imports Prelude
begin

text \<open>
  The string routines the server's handlers are written with: the \<^verbatim>\<open>Tokenizer\<close> of
  \<^verbatim>\<open>src/shared/Util.cpp\<close>, and what the code uses of the standard library (\<^verbatim>\<open>std::to_string\<close>,
  \<^verbatim>\<open>strstr\<close>, and \<^verbatim>\<open>strtol\<close>, \<^verbatim>\<open>atol\<close>, \<^verbatim>\<open>atoi\<close>, \<^verbatim>\<open>strtoul\<close> in base 10 with a 64-bit \<^verbatim>\<open>long\<close>, where
  \<^verbatim>\<open>atoi\<close> is \<^verbatim>\<open>strtol\<close> cut to an \<^verbatim>\<open>int\<close>). Strings are byte lists; a C string ends at its first NUL.
\<close>

section \<open>Definitions\<close>

abbreviation NUL :: char where "NUL \<equiv> CHR 0x00"

definition digit_char :: "nat \<Rightarrow> char" where
  "digit_char d = char_of (48 + d)"

fun show_nat :: "nat \<Rightarrow> string" where
  "show_nat n = (if n < 10 then [digit_char n] else show_nat (n div 10) @ [digit_char (n mod 10)])"

declare show_nat.simps [simp del]

definition to_string :: "'a::len word \<Rightarrow> string" where
  "to_string w = show_nat (unat w)"

text \<open>\<^verbatim>\<open>std::to_string\<close> and \<^verbatim>\<open>operator<<\<close> on a signed value.\<close>

definition to_string_s :: "'a::len word \<Rightarrow> string" where
  "to_string_s w = (if sint w < 0 then CHR ''-'' # show_nat (nat (- sint w))
                    else show_nat (nat (sint w)))"

definition is_digit :: "char \<Rightarrow> bool" where
  "is_digit c = (48 \<le> (of_char c :: nat) \<and> (of_char c :: nat) \<le> 57)"

definition is_space :: "char \<Rightarrow> bool" where
  "is_space c = (c = CHR '' '' \<or> (9 \<le> (of_char c :: nat) \<and> (of_char c :: nat) \<le> 13))"

fun read_digits :: "nat \<Rightarrow> string \<Rightarrow> nat" where
  "read_digits acc [] = acc"
| "read_digits acc (c # cs) =
     (if is_digit c then read_digits (10 * acc + (of_char c - 48)) cs else acc)"

definition read_int :: "string \<Rightarrow> int" where
  "read_int s =
     (case dropWhile is_space s of
        [] \<Rightarrow> 0
      | c # cs \<Rightarrow> if c = CHR ''-'' then - int (read_digits 0 cs)
                 else if c = CHR ''+'' then int (read_digits 0 cs)
                 else int (read_digits 0 (c # cs)))"

definition strtol :: "string \<Rightarrow> int" where
  "strtol s = max (- (2 ^ 63)) (min (2 ^ 63 - 1) (read_int s))"

definition atol :: "string \<Rightarrow> u64" where
  "atol s = word_of_int (strtol s)"

definition atoi :: "string \<Rightarrow> u32" where
  "atoi s = word_of_int (strtol s)"

definition strtoul :: "string \<Rightarrow> u64" where
  "strtoul s = (let v = read_int s in if \<bar>v\<bar> < 2 ^ 64 then word_of_int v else - 1)"

fun is_prefix :: "string \<Rightarrow> string \<Rightarrow> bool" where
  "is_prefix [] s = True"
| "is_prefix (c # cs) [] = False"
| "is_prefix (c # cs) (d # ds) = (c = d \<and> is_prefix cs ds)"

fun contains :: "string \<Rightarrow> string \<Rightarrow> bool" where
  "contains needle [] = (needle = [])"
| "contains needle (c # cs) = (is_prefix needle (c # cs) \<or> contains needle cs)"

text \<open>\<^verbatim>\<open>strstr(msg.c_str(), lit)\<close> as a condition.\<close>

definition strstr :: "string \<Rightarrow> string \<Rightarrow> bool" where
  "strstr s needle = contains needle (takeWhile (\<lambda>c. c \<noteq> NUL) s)"

text \<open>The loop of the \<^verbatim>\<open>Tokenizer\<close> constructor; \<open>cur\<close> is the text between \<^verbatim>\<open>posold\<close> and \<^verbatim>\<open>posnew\<close>.\<close>

fun Tokenizer_loop :: "char \<Rightarrow> string \<Rightarrow> string \<Rightarrow> string list" where
  "Tokenizer_loop sep cur [] = (if cur \<noteq> [] then [cur] else [])"
| "Tokenizer_loop sep cur (c # cs) =
     (if c = sep then cur # Tokenizer_loop sep [] cs
      else if c = NUL then (if cur \<noteq> [] then [cur] else [])
      else Tokenizer_loop sep (cur @ [c]) cs)"

definition Tokenizer :: "string \<Rightarrow> char \<Rightarrow> string list" where
  "Tokenizer src sep = Tokenizer_loop sep [] src"

text \<open>The text a client sends for a list of fields.\<close>

fun join :: "char \<Rightarrow> string list \<Rightarrow> string" where
  "join sep [] = []"
| "join sep [p] = p"
| "join sep (p # q # ps) = p @ sep # join sep (q # ps)"

section \<open>Splitting what was joined\<close>

definition plain_field :: "char \<Rightarrow> string \<Rightarrow> bool" where
  "plain_field sep p = (sep \<notin> set p \<and> NUL \<notin> set p)"

lemma Tokenizer_loop_field:
  "plain_field sep p \<Longrightarrow> Tokenizer_loop sep cur (p @ rest) = Tokenizer_loop sep (cur @ p) rest"
  by (induction p arbitrary: cur) (auto simp: plain_field_def)

lemma Tokenizer_join:
  "\<forall>p \<in> set ps. plain_field sep p \<Longrightarrow> ps \<noteq> [] \<Longrightarrow> last ps \<noteq> [] \<Longrightarrow>
   Tokenizer (join sep ps) sep = ps"
proof -
  assume "\<forall>p \<in> set ps. plain_field sep p" "ps \<noteq> []" "last ps \<noteq> []"
  then have "Tokenizer_loop sep [] (join sep ps) = ps"
  proof (induction sep ps rule: join.induct)
    case (2 sep p)
    then show ?case using Tokenizer_loop_field [of sep p "[]" "[]"] by simp
  next
    case (3 sep p q ps)
    then show ?case
      using Tokenizer_loop_field [of sep p "[]" "sep # join sep (q # ps)"] by simp
  qed simp
  then show ?thesis by (simp add: Tokenizer_def)
qed

lemma Tokenizer_join_sep:
  "\<forall>p \<in> set ps. plain_field sep p \<Longrightarrow>
   Tokenizer (concat (map (\<lambda>p. p @ [sep]) ps)) sep = ps"
proof -
  assume "\<forall>p \<in> set ps. plain_field sep p"
  then have "Tokenizer_loop sep [] (concat (map (\<lambda>p. p @ [sep]) ps)) = ps"
    by (induction ps) (simp_all add: Tokenizer_loop_field)
  then show ?thesis by (simp add: Tokenizer_def)
qed

section \<open>Reading what was printed\<close>

lemma of_digit_char: "d < 10 \<Longrightarrow> of_char (digit_char d) = 48 + d"
  by (simp add: digit_char_def)

lemma is_digit_digit_char [simp]: "d < 10 \<Longrightarrow> is_digit (digit_char d)"
  by (simp add: is_digit_def of_digit_char)

lemma show_nat_nonempty [simp]: "show_nat n \<noteq> []"
  by (subst show_nat.simps) simp

lemma show_nat_digits: "c \<in> set (show_nat n) \<Longrightarrow> is_digit c"
proof (induction n rule: show_nat.induct)
  case (1 n)
  then show ?case by (subst (asm) (2) show_nat.simps) (auto split: if_splits)
qed

lemma read_digits_append:
  "\<forall>c \<in> set ds. is_digit c \<Longrightarrow> read_digits acc (ds @ cs) = read_digits (read_digits acc ds) cs"
  by (induction ds arbitrary: acc) auto

lemma read_digits_show_nat: "read_digits 0 (show_nat n) = n"
proof (induction n rule: show_nat.induct)
  case (1 n)
  show ?case
  proof (cases "n < 10")
    case True
    then show ?thesis by (subst show_nat.simps) (simp add: of_digit_char)
  next
    case False
    then show ?thesis
      using 1 by (subst show_nat.simps)
        (simp add: read_digits_append show_nat_digits of_digit_char)
  qed
qed

lemma is_digit_not: "is_digit c \<Longrightarrow> \<not> is_space c \<and> c \<noteq> CHR ''-'' \<and> c \<noteq> CHR ''+''"
  by (auto simp: is_digit_def is_space_def)

lemma read_int_show_nat [simp]: "read_int (show_nat n) = int n"
proof (cases "show_nat n")
  case (Cons c cs)
  then have "is_digit c" using show_nat_digits [of c n] by simp
  then show ?thesis
    using Cons is_digit_not [of c] read_digits_show_nat [of n] by (simp add: read_int_def)
qed simp

lemma read_int_minus_show_nat [simp]: "read_int (CHR ''-'' # show_nat n) = - int n"
  by (simp add: read_int_def is_space_def read_digits_show_nat)

lemma read_int_to_string_s: "read_int (to_string_s w) = sint w"
  by (simp add: to_string_s_def)

text \<open>\<^verbatim>\<open>atoi\<close> reads back every 32-bit signed value that was printed, as the charges of an
  item are written to and read from its database column.\<close>

lemma atoi_to_string_s: "atoi (to_string_s w) = w"
proof -
  have "- (2 ^ 31) \<le> sint w" "sint w < 2 ^ 31"
    using sint_ge [of w] sint_lt [of w] by simp_all
  then have "strtol (to_string_s w) = sint w" by (simp add: strtol_def read_int_to_string_s)
  then show ?thesis by (simp add: atoi_def)
qed

lemma strtol_to_string [simp]: "strtol (to_string w) = uint w" for w :: u32
proof -
  have "- (2 ^ 63) \<le> uint w" by (rule order.trans [OF _ uint_ge_0]) simp
  then show ?thesis using uint_lt2p [of w] by (simp add: strtol_def to_string_def)
qed

lemma atoi_to_string [simp]: "atoi (to_string w) = w" for w :: u32
  by (simp add: atoi_def)

lemma atol_to_string [simp]: "atol (to_string w) = ucast w" for w :: u32
  by (simp add: atol_def)

lemma strtoul_to_string [simp]: "strtoul (to_string w) = ucast w" for w :: u32
  using uint_lt2p [of w] by (simp add: strtoul_def to_string_def)

lemma to_string_nonempty [simp]: "to_string w \<noteq> []"
  by (simp add: to_string_def)

lemma to_string_digits: "c \<in> set (to_string w) \<Longrightarrow> is_digit c"
  by (simp add: to_string_def show_nat_digits)

lemma to_string_s_chars: "c \<in> set (to_string_s w) \<Longrightarrow> is_digit c \<or> c = CHR ''-''"
  by (auto simp: to_string_s_def show_nat_digits split: if_splits)

lemma plain_to_string [simp]:
  "\<not> is_digit sep \<Longrightarrow> plain_field sep (to_string w)"
  using to_string_digits [of NUL w] to_string_digits [of sep w]
  by (auto simp: plain_field_def is_digit_def)

lemma plain_to_string_s [simp]:
  "\<not> is_digit sep \<Longrightarrow> sep \<noteq> CHR ''-'' \<Longrightarrow> plain_field sep (to_string_s w)"
  using to_string_s_chars [of NUL w] to_string_s_chars [of sep w]
  by (auto simp: plain_field_def is_digit_def)



end
