(* ===== verification/Byte_Buffer.thy ===== *)
theory Byte_Buffer
  imports Cpp_Strings
begin

text \<open>
  The packet buffer, \<^verbatim>\<open>src/shared/ByteBuffer.h\<close>: a byte vector with a read and a write
  position. Every operation is a function from a buffer to a result and the buffer it leaves,
  also when it throws. Positions and sizes are natural numbers and every sum the code
  computes in a \<^verbatim>\<open>size_t\<close> is taken modulo \<open>2 ^ 64\<close>; an access outside the vector that passes the
  wrapped check is the result \<open>UndefinedAccess\<close>.
\<close>

section \<open>State and results\<close>

datatype bb_error =
    ByteBufferException bool nat nat nat
  | AssertFailed
  | UndefinedAccess

record byte_buffer =
  bb_rpos :: nat
  bb_wpos :: nat
  bb_storage :: "u8 list"

type_synonym 'a bb_op = "byte_buffer \<Rightarrow> (bb_error + 'a) \<times> byte_buffer"

definition bb_return :: "'a \<Rightarrow> 'a bb_op" where
  "bb_return x b = (Inr x, b)"

definition bb_bind :: "'a bb_op \<Rightarrow> ('a \<Rightarrow> 'b bb_op) \<Rightarrow> 'b bb_op" where
  "bb_bind m f b = (case m b of (Inl e, b') \<Rightarrow> (Inl e, b') | (Inr x, b') \<Rightarrow> f x b')"

definition size_add :: "nat \<Rightarrow> nat \<Rightarrow> nat" where
  "size_add m n = (m + n) mod 2 ^ 64"

section \<open>Bytes of fixed-width values\<close>

text \<open>The object representation of an integer after \<^verbatim>\<open>EndianConvert\<close>: little endian.\<close>

definition to_bytes :: "'a::len word \<Rightarrow> u8 list" where
  "to_bytes w = map (\<lambda>i. ucast (drop_bit (8 * i) w)) [0..<LENGTH('a) div 8]"

primrec of_bytes :: "u8 list \<Rightarrow> 'a::len word" where
  "of_bytes [] = 0"
| "of_bytes (x # xs) = ucast x OR push_bit 8 (of_bytes xs)"

definition byte_of_char :: "char \<Rightarrow> u8" where
  "byte_of_char c = word_of_nat (of_char c)"

definition char_of_byte :: "u8 \<Rightarrow> char" where
  "char_of_byte x = char_of (unat x)"

section \<open>Operations\<close>

definition ByteBuffer :: byte_buffer where
  "ByteBuffer = \<lparr>bb_rpos = 0, bb_wpos = 0, bb_storage = []\<rparr>"

definition bb_size :: "byte_buffer \<Rightarrow> nat" where
  "bb_size b = length (bb_storage b)"

definition bb_empty :: "byte_buffer \<Rightarrow> bool" where
  "bb_empty b = (bb_storage b = [])"

definition bb_clear :: "byte_buffer \<Rightarrow> byte_buffer" where
  "bb_clear b = b\<lparr>bb_storage := [], bb_rpos := 0, bb_wpos := 0\<rparr>"

definition set_rpos :: "nat \<Rightarrow> byte_buffer \<Rightarrow> byte_buffer" where
  "set_rpos p b = b\<lparr>bb_rpos := p\<rparr>"

definition set_wpos :: "nat \<Rightarrow> byte_buffer \<Rightarrow> byte_buffer" where
  "set_wpos p b = b\<lparr>bb_wpos := p\<rparr>"

definition rfinish :: "byte_buffer \<Rightarrow> byte_buffer" where
  "rfinish b = b\<lparr>bb_rpos := bb_wpos b\<rparr>"

text \<open>\<^verbatim>\<open>std::vector::resize\<close>: cut, or extend with value-initialised elements.\<close>

definition vector_resize :: "nat \<Rightarrow> u8 list \<Rightarrow> u8 list" where
  "vector_resize n xs = take n xs @ replicate (n - length xs) 0"

definition bb_resize :: "nat \<Rightarrow> byte_buffer \<Rightarrow> byte_buffer" where
  "bb_resize n b = b\<lparr>bb_storage := vector_resize n (bb_storage b), bb_rpos := 0, bb_wpos := n\<rparr>"

definition write_at :: "nat \<Rightarrow> u8 list \<Rightarrow> u8 list \<Rightarrow> u8 list" where
  "write_at pos src xs = take pos xs @ src @ drop (pos + length src) xs"

definition bb_append :: "u8 list \<Rightarrow> unit bb_op" where
  "bb_append src b =
     (if src = [] then (Inr (), b)
      else if \<not> bb_size b < 10000000 then (Inl AssertFailed, b)
      else let need = size_add (bb_wpos b) (length src);
               st = (if bb_size b < need then vector_resize need (bb_storage b) else bb_storage b)
           in if bb_wpos b + length src > length st
              then (Inl UndefinedAccess, b\<lparr>bb_storage := st\<rparr>)
              else (Inr (), b\<lparr>bb_storage := write_at (bb_wpos b) src st, bb_wpos := need\<rparr>))"

definition bb_put :: "nat \<Rightarrow> u8 list \<Rightarrow> unit bb_op" where
  "bb_put pos src b =
     (if size_add pos (length src) > bb_size b
      then (Inl (ByteBufferException True pos (length src) (bb_size b)), b)
      else if pos + length src > bb_size b then (Inl UndefinedAccess, b)
      else (Inr (), b\<lparr>bb_storage := write_at pos src (bb_storage b)\<rparr>))"

definition put_value :: "nat \<Rightarrow> 'a::len word \<Rightarrow> unit bb_op" where
  "put_value pos v = bb_put pos (to_bytes v)"

definition append_value :: "'a::len word \<Rightarrow> unit bb_op" where
  "append_value v = bb_append (to_bytes v)"

definition string_bytes :: "string \<Rightarrow> u8 list" where
  "string_bytes s = map byte_of_char s"

definition append_string :: "string \<Rightarrow> unit bb_op" where
  "append_string s = bb_bind (bb_append (string_bytes s)) (\<lambda>_. append_value (0 :: u8))"

definition append_bool :: "bool \<Rightarrow> unit bb_op" where
  "append_bool v = bb_append [if v then 1 else 0]"

definition append_buffer :: "byte_buffer \<Rightarrow> unit bb_op" where
  "append_buffer buffer b =
     (if bb_wpos buffer \<noteq> 0
      then if bb_wpos buffer > bb_size buffer then (Inl UndefinedAccess, b)
           else bb_append (take (bb_wpos buffer) (bb_storage buffer)) b
      else (Inr (), b))"

text \<open>\<^verbatim>\<open>read<T>(pos)\<close>, with \<open>n\<close> the size of the type.\<close>

definition read_bytes_at :: "nat \<Rightarrow> nat \<Rightarrow> byte_buffer \<Rightarrow> bb_error + u8 list" where
  "read_bytes_at n pos b =
     (if size_add pos n > bb_size b then Inl (ByteBufferException False pos n (bb_size b))
      else if pos + n > bb_size b then Inl UndefinedAccess
      else Inr (take n (drop pos (bb_storage b))))"

definition read_at :: "nat \<Rightarrow> byte_buffer \<Rightarrow> bb_error + 'a::len word" where
  "read_at pos b = map_sum id of_bytes (read_bytes_at (LENGTH('a) div 8) pos b)"

definition read_value :: "'a::len word bb_op" where
  "read_value b =
     (case read_at (bb_rpos b) b of
        Inl e \<Rightarrow> (Inl e, b)
      | Inr v \<Rightarrow> (Inr v, b\<lparr>bb_rpos := size_add (bb_rpos b) (LENGTH('a) div 8)\<rparr>))"

definition read_block :: "nat \<Rightarrow> u8 list bb_op" where
  "read_block len b =
     (case read_bytes_at len (bb_rpos b) b of
        Inl e \<Rightarrow> (Inl e, b)
      | Inr xs \<Rightarrow> (Inr xs, b\<lparr>bb_rpos := size_add (bb_rpos b) len\<rparr>))"

definition read_bool :: "bool bb_op" where
  "read_bool = bb_bind read_value (\<lambda>c :: u8. bb_return (0 <s c))"

definition read_skip :: "nat \<Rightarrow> unit bb_op" where
  "read_skip skip b =
     (if size_add (bb_rpos b) skip > bb_size b
      then (Inl (ByteBufferException False (bb_rpos b) skip (bb_size b)), b)
      else (Inr (), b\<lparr>bb_rpos := size_add (bb_rpos b) skip\<rparr>))"

text \<open>
  The scan of \<^verbatim>\<open>operator>>(std::string&)\<close>, over the bytes from the read position on; the buffer
  keeps the position of the last byte looked at when the string does not end. The string is
  \<open>None\<close> when the read position is behind the data: the caller's variable keeps its value.
\<close>

fun string_scan :: "u8 list \<Rightarrow> string \<Rightarrow> string bb_op" where
  "string_scan [] acc b = (Inl (ByteBufferException False (bb_rpos b) 1 (bb_size b)), b)"
| "string_scan (x # xs) acc b =
     (if x = 0 then (Inr (rev acc), b\<lparr>bb_rpos := bb_rpos b + 1\<rparr>)
      else string_scan xs (char_of_byte x # acc) (b\<lparr>bb_rpos := bb_rpos b + 1\<rparr>))"

definition read_string :: "string option bb_op" where
  "read_string b =
     (if bb_rpos b < bb_size b
      then apfst (map_sum id Some) (string_scan (drop (bb_rpos b) (bb_storage b)) [] b)
      else (Inr None, b))"

lemma drop_bit_8_less: "guid \<noteq> 0 \<Longrightarrow> unat (drop_bit 8 guid) < unat guid" for guid :: u64
  by (simp add: drop_bit_eq_div unat_div_distrib unat_gt_0)

text \<open>Packed guids: a mask byte, then the non-zero bytes of the guid.\<close>

function pack_loop :: "nat \<Rightarrow> u64 \<Rightarrow> u8 \<Rightarrow> u8 list \<Rightarrow> u8 \<times> u8 list" where
  "pack_loop i guid mark bytes =
     (if guid \<noteq> 0
      then let low = guid AND 0xFF
           in if low \<noteq> 0
              then pack_loop (Suc i) (drop_bit 8 guid) (mark OR push_bit i 1) (bytes @ [ucast low])
              else pack_loop (Suc i) (drop_bit 8 guid) mark bytes
      else (mark, bytes))"
  by pat_completeness auto
termination
  by (relation "measure (\<lambda>(i, guid, mark, bytes). unat guid)") (auto simp: drop_bit_8_less)

definition pack_guid :: "u64 \<Rightarrow> u8 list" where
  "pack_guid guid = (let (mark, bytes) = pack_loop 0 guid 0 [] in mark # bytes)"

definition appendPackGUID :: "u64 \<Rightarrow> unit bb_op" where
  "appendPackGUID guid = bb_append (pack_guid guid)"

fun unpack_loop :: "nat \<Rightarrow> nat \<Rightarrow> u8 \<Rightarrow> u64 \<Rightarrow> u64 bb_op" where
  "unpack_loop 0 i guidmark guid = bb_return guid"
| "unpack_loop (Suc k) i guidmark guid =
     (if guidmark AND push_bit i 1 \<noteq> 0
      then bb_bind read_value (\<lambda>x :: u8.
             unpack_loop k (Suc i) guidmark (guid OR push_bit (i * 8) (ucast x)))
      else unpack_loop k (Suc i) guidmark guid)"

definition readPackGUID :: "u64 bb_op" where
  "readPackGUID = bb_bind read_value (\<lambda>guidmark. unpack_loop 8 0 guidmark 0)"

text \<open>The container templates, for any element type with the two operators.\<close>

primrec write_all :: "('a \<Rightarrow> unit bb_op) \<Rightarrow> 'a list \<Rightarrow> unit bb_op" where
  "write_all wr [] = bb_return ()"
| "write_all wr (x # xs) = bb_bind (wr x) (\<lambda>_. write_all wr xs)"

primrec read_all :: "'a bb_op \<Rightarrow> nat \<Rightarrow> 'a list bb_op" where
  "read_all rd 0 = bb_return []"
| "read_all rd (Suc n) = bb_bind rd (\<lambda>x. bb_bind (read_all rd n) (\<lambda>xs. bb_return (x # xs)))"

definition write_vector :: "('a \<Rightarrow> unit bb_op) \<Rightarrow> 'a list \<Rightarrow> unit bb_op" where
  "write_vector wr v =
     bb_bind (append_value (of_nat (length v) :: u32)) (\<lambda>_. write_all wr v)"

definition read_vector :: "'a bb_op \<Rightarrow> 'a list bb_op" where
  "read_vector rd = bb_bind read_value (\<lambda>vsize :: u32. read_all rd (unat vsize))"

definition write_map :: "('k \<Rightarrow> unit bb_op) \<Rightarrow> ('v \<Rightarrow> unit bb_op) \<Rightarrow> ('k \<times> 'v) list \<Rightarrow> unit bb_op" where
  "write_map wk wv m = write_vector (\<lambda>(k, v). bb_bind (wk k) (\<lambda>_. wv v)) m"

fun insert_new :: "('k \<times> 'v) list \<Rightarrow> ('k::linorder \<times> 'v) list \<Rightarrow> ('k \<times> 'v) list" where
  "insert_new [] m = m"
| "insert_new ((k, v) # es) m =
     insert_new es (if k \<in> fst ` set m then m else mm_insert k v m)"

definition read_map :: "'k bb_op \<Rightarrow> 'v bb_op \<Rightarrow> ('k::linorder \<times> 'v) list bb_op" where
  "read_map rk rv =
     bb_bind (read_vector (bb_bind rk (\<lambda>k. bb_bind rv (\<lambda>v. bb_return (k, v)))))
       (\<lambda>es. bb_return (insert_new es []))"

section \<open>Bytes\<close>

lemma byte_of_char_inverse [simp]: "char_of_byte (byte_of_char c) = c"
proof -
  have "of_char c < (256 :: nat)" by simp
  then have "unat (word_of_nat (of_char c) :: u8) = (of_char c :: nat)"
    by (simp add: unat_of_nat)
  then show ?thesis by (simp add: byte_of_char_def char_of_byte_def)
qed

lemma byte_of_char_0 [simp]: "byte_of_char c = 0 \<longleftrightarrow> c = NUL"
proof
  assume "byte_of_char c = 0"
  then have "char_of_byte (byte_of_char c) = char_of_byte 0" by simp
  then show "c = NUL" by (simp only: byte_of_char_inverse) (simp add: char_of_byte_def char_of_def)
next
  show "c = NUL \<Longrightarrow> byte_of_char c = 0" by (simp add: byte_of_char_def)
qed

lemma length_to_bytes [simp]: "length (to_bytes (w :: 'a::len word)) = LENGTH('a) div 8"
  by (simp add: to_bytes_def)

lemma bit_of_bytes:
  "bit (of_bytes xs :: 'a::len word) n \<longleftrightarrow>
     n < LENGTH('a) \<and> n div 8 < length xs \<and> bit (xs ! (n div 8)) (n mod 8)"
proof (induction xs arbitrary: n)
  case Nil
  then show ?case by simp
next
  case (Cons x xs)
  show ?case
  proof (cases "n < 8")
    case True
    then show ?thesis using Cons by (auto simp: bit_simps)
  next
    case False
    then have "n div 8 = Suc ((n - 8) div 8)" "n mod 8 = (n - 8) mod 8"
      using le_div_geq [of 8 n] le_mod_geq [of 8 n] by simp_all
    moreover have "\<not> bit x n" using False by (auto dest: bit_imp_le_length)
    ultimately show ?thesis using False Cons [of "n - 8"] by (auto simp: bit_simps)
  qed
qed

lemma of_bytes_to_bytes:
  assumes "8 dvd LENGTH('a)"
  shows "of_bytes (to_bytes w) = (w :: 'a::len word)"
proof (rule bit_eqI)
  fix n
  have "n div 8 < LENGTH('a) div 8" if "n < LENGTH('a)"
    using assms that by (auto elim: dvdE)
  then show "bit (of_bytes (to_bytes w) :: 'a word) n = bit w n"
    using bit_imp_le_length [of w n]
    by (cases "n < LENGTH('a)") (auto simp: bit_of_bytes to_bytes_def bit_simps)
qed

section \<open>Writers and readers as codecs\<close>

definition at_end :: "byte_buffer \<Rightarrow> bool" where
  "at_end b = (bb_wpos b = bb_size b)"

definition bb_extend :: "u8 list \<Rightarrow> byte_buffer \<Rightarrow> byte_buffer" where
  "bb_extend xs b = b\<lparr>bb_storage := bb_storage b @ xs, bb_wpos := bb_wpos b + length xs\<rparr>"

definition bb_advance :: "nat \<Rightarrow> byte_buffer \<Rightarrow> byte_buffer" where
  "bb_advance n b = b\<lparr>bb_rpos := bb_rpos b + n\<rparr>"

definition unread :: "byte_buffer \<Rightarrow> u8 list" where
  "unread b = drop (bb_rpos b) (bb_storage b)"

lemma bb_extend_simps [simp]:
  "bb_size (bb_extend xs b) = bb_size b + length xs"
  "at_end b \<Longrightarrow> at_end (bb_extend xs b)"
  "bb_extend [] b = b"
  "bb_extend ys (bb_extend xs b) = bb_extend (xs @ ys) b"
  "bb_rpos (bb_extend xs b) = bb_rpos b"
  "bb_storage (bb_extend xs b) = bb_storage b @ xs"
  "bb_wpos (bb_extend xs b) = bb_wpos b + length xs"
  by (simp_all add: bb_extend_def at_end_def bb_size_def)

lemma bb_advance_simps [simp]:
  "bb_size (bb_advance n b) = bb_size b"
  "bb_advance 0 b = b"
  "bb_advance m (bb_advance n b) = bb_advance (n + m) b"
  "unread (bb_advance n b) = drop n (unread b)"
  "bb_rpos (bb_advance n b) = bb_rpos b + n"
  by (simp_all add: bb_advance_def unread_def bb_size_def add.commute)

lemma bb_append_at_end:
  assumes "at_end b" "bb_size b + length xs < 10000000"
  shows "bb_append xs b = (Inr (), bb_extend xs b)"
proof (cases "xs = []")
  case False
  have "size_add (bb_wpos b) (length xs) = bb_size b + length xs"
    using assms by (simp add: size_add_def at_end_def)
  then show ?thesis
    using assms False
    by (simp add: bb_append_def at_end_def bb_extend_def vector_resize_def write_at_def bb_size_def)
qed (simp add: bb_append_def)

lemma unread_size: "unread b \<noteq> [] \<Longrightarrow> bb_rpos b + length (unread b) = bb_size b"
  by (simp add: unread_def bb_size_def)

text \<open>Reading a value whose bytes come next, and one that is cut short.\<close>

lemma read_value_next:
  fixes w :: "'a::len word"
  assumes "8 dvd LENGTH('a)" "bb_size b < 2 ^ 64" "unread b = to_bytes w @ rest"
  shows "read_value b = (Inr w, bb_advance (LENGTH('a) div 8) b)"
proof -
  let ?n = "LENGTH('a) div 8"
  have "?n > 0" using dvd_imp_le [OF assms(1) len_gt_0] by simp
  then have "to_bytes w \<noteq> []" using length_to_bytes [of w] by fastforce
  then have "unread b \<noteq> []" using assms(3) by simp
  then have len: "bb_rpos b + ?n \<le> bb_size b" using unread_size assms(3) by fastforce
  then have "size_add (bb_rpos b) ?n = bb_rpos b + ?n" using assms(2) by (simp add: size_add_def)
  moreover have "take ?n (drop (bb_rpos b) (bb_storage b)) = to_bytes w"
    using assms(3) by (simp add: unread_def)
  ultimately show ?thesis using len assms(1)
    by (simp add: read_value_def read_at_def read_bytes_at_def bb_advance_def of_bytes_to_bytes)
qed

lemma string_scan_next:
  "NUL \<notin> set s \<Longrightarrow>
   string_scan (string_bytes s @ 0 # rest) acc b = (Inr (rev acc @ s), bb_advance (length s + 1) b)"
  by (induction s arbitrary: acc b) (auto simp: string_bytes_def bb_advance_def)

lemma read_string_next:
  assumes "NUL \<notin> set s" "unread b = (string_bytes s @ [0]) @ rest"
  shows "read_string b = (Inr (Some s), bb_advance (length (string_bytes s @ [0])) b)"
proof -
  have "bb_rpos b < bb_size b" using assms(2) unread_size [of b] by (auto simp: string_bytes_def)
  then show ?thesis using assms string_scan_next [of s rest "[]" b]
    by (simp add: read_string_def unread_def string_bytes_def)
qed

text \<open>
  The contract between a writer and its reader: the writer appends \<open>enc x\<close>, and the reader
  takes exactly these bytes back, for every value the format can carry.
\<close>

locale codec =
  fixes enc :: "'a \<Rightarrow> u8 list" and wr :: "'a \<Rightarrow> unit bb_op" and rd :: "'a bb_op"
    and ok :: "'a \<Rightarrow> bool"
  assumes wr_enc: "at_end b \<Longrightarrow> bb_size b + length (enc x) < 10000000 \<Longrightarrow>
      wr x b = (Inr (), bb_extend (enc x) b)"
    and rd_enc: "ok x \<Longrightarrow> bb_size b < 2 ^ 64 \<Longrightarrow> unread b = enc x @ rest \<Longrightarrow>
      rd b = (Inr x, bb_advance (length (enc x)) b)"
begin

lemma write_all_enc:
  "at_end b \<Longrightarrow> bb_size b + length (concat (map enc xs)) < 10000000 \<Longrightarrow>
   write_all wr xs b = (Inr (), bb_extend (concat (map enc xs)) b)"
  by (induction xs arbitrary: b) (simp_all add: bb_bind_def bb_return_def wr_enc)

lemma read_all_enc:
  "\<forall>x \<in> set xs. ok x \<Longrightarrow> bb_size b < 2 ^ 64 \<Longrightarrow> unread b = concat (map enc xs) @ rest \<Longrightarrow>
   read_all rd (length xs) b = (Inr xs, bb_advance (length (concat (map enc xs))) b)"
proof (induction xs arbitrary: b)
  case (Cons x xs)
  then have "rd b = (Inr x, bb_advance (length (enc x)) b)" by (intro rd_enc) auto
  then show ?case using Cons by (simp add: bb_bind_def bb_return_def)
qed (simp add: bb_return_def)

definition vector_enc :: "'a list \<Rightarrow> u8 list" where
  "vector_enc xs = to_bytes (of_nat (length xs) :: u32) @ concat (map enc xs)"

definition vector_ok :: "'a list \<Rightarrow> bool" where
  "vector_ok xs = (length xs < 2 ^ 32 \<and> (\<forall>x \<in> set xs. ok x))"

lemma vector_codec: "codec vector_enc (write_vector wr) (read_vector rd) vector_ok"
proof
  fix b xs
  assume "at_end b" "bb_size b + length (vector_enc xs) < 10000000"
  then show "write_vector wr xs b = (Inr (), bb_extend (vector_enc xs) b)"
    by (simp add: write_vector_def vector_enc_def append_value_def bb_bind_def bb_append_at_end
        write_all_enc)
next
  fix xs b rest
  assume *: "vector_ok xs" "bb_size b < 2 ^ 64" "unread b = vector_enc xs @ rest"
  have "read_value b = (Inr (of_nat (length xs) :: u32), bb_advance 4 b)"
    using * read_value_next [of b "of_nat (length xs) :: u32" "concat (map enc xs) @ rest"]
    by (simp add: vector_enc_def)
  moreover have "unat (of_nat (length xs) :: u32) = length xs"
    using * by (simp add: vector_ok_def unat_of_nat)
  ultimately show "read_vector rd b = (Inr xs, bb_advance (length (vector_enc xs)) b)"
    using * read_all_enc [of xs "bb_advance 4 b" rest]
    by (simp add: read_vector_def bb_bind_def vector_ok_def vector_enc_def)
qed

lemma round_trip:
  assumes "ok x" "at_end b" "bb_size b + length (enc x) < 10000000" "bb_rpos b = bb_size b"
  shows "fst (bb_bind (wr x) (\<lambda>_. rd) b) = Inr x"
  using assms rd_enc [of x "bb_extend (enc x) b" "[]"] wr_enc [of b x]
  by (simp add: bb_bind_def unread_def bb_size_def)

end

lemma word_codec:
  "8 dvd LENGTH('a) \<Longrightarrow> codec (to_bytes :: 'a::len word \<Rightarrow> u8 list) append_value read_value (\<lambda>_. True)"
  by unfold_locales (simp_all add: append_value_def bb_append_at_end read_value_next)

interpretation u8c: codec "to_bytes :: u8 \<Rightarrow> u8 list" append_value read_value "\<lambda>_. True"
  by (rule word_codec) simp

interpretation u16c: codec "to_bytes :: u16 \<Rightarrow> u8 list" append_value read_value "\<lambda>_. True"
  by (rule word_codec) simp

interpretation u32c: codec "to_bytes :: u32 \<Rightarrow> u8 list" append_value read_value "\<lambda>_. True"
  by (rule word_codec) simp

interpretation u64c: codec "to_bytes :: u64 \<Rightarrow> u8 list" append_value read_value "\<lambda>_. True"
  by (rule word_codec) simp

lemma append_string_at_end:
  assumes "at_end b" "bb_size b + length (string_bytes s @ [0]) < 10000000"
  shows "append_string s b = (Inr (), bb_extend (string_bytes s @ [0]) b)"
proof -
  have "to_bytes (0 :: u8) = [0]" by (simp add: to_bytes_def)
  then show ?thesis using assms
    by (simp add: append_string_def bb_bind_def append_value_def bb_append_at_end)
qed

text \<open>A string read as one field; \<^verbatim>\<open>std::string\<close> variables start empty.\<close>

definition read_std_string :: "string bb_op" where
  "read_std_string = bb_bind read_string (\<lambda>v. bb_return (case v of Some s \<Rightarrow> s | None \<Rightarrow> []))"

interpretation strc: codec "\<lambda>s. string_bytes s @ [0]" append_string read_std_string "\<lambda>s. NUL \<notin> set s"
  by unfold_locales
    (simp_all add: append_string_at_end read_string_next read_std_string_def bb_bind_def bb_return_def)

interpretation boolc: codec "\<lambda>v. [if v then 1 else 0 :: u8]" append_bool read_bool "\<lambda>_. True"
proof
  fix b v
  assume "at_end b" "bb_size b + length [if v then 1 else 0 :: u8] < 10000000"
  then show "append_bool v b = (Inr (), bb_extend [if v then 1 else 0] b)"
    by (simp add: append_bool_def bb_append_at_end)
next
  fix v b rest
  assume *: "bb_size b < 2 ^ 64" "unread b = [if v then 1 else 0 :: u8] @ rest"
  have "to_bytes (w :: u8) = [w]" for w by (simp add: to_bytes_def)
  then have "read_value b = (Inr (if v then 1 else 0 :: u8), bb_advance 1 b)"
    using * read_value_next [of b "if v then 1 else 0 :: u8" rest] by simp
  then show "read_bool b = (Inr v, bb_advance (length [if v then 1 else 0 :: u8]) b)"
    by (simp add: read_bool_def bb_bind_def bb_return_def word_sless_alt)
qed

section \<open>Packed guids\<close>

declare pack_loop.simps [simp del]

lemma unat_drop_byte:
  fixes guid :: u64
  assumes "unat guid < 2 ^ (8 * Suc k)"
  shows "unat (drop_bit 8 guid) < 2 ^ (8 * k)"
proof -
  have "unat guid < 2 ^ (8 * k) * 256" using assms by (simp add: power_add mult.commute)
  then show ?thesis by (simp add: drop_bit_eq_div unat_div_distrib less_mult_imp_div_less)
qed

lemma pack_loop_low_bits:
  "j < i \<Longrightarrow> bit (fst (pack_loop i guid mark bytes)) j = bit mark j"
proof (induction i guid mark bytes rule: pack_loop.induct)
  case (1 i guid mark bytes)
  show ?case
  proof (cases "guid = 0")
    case True
    then show ?thesis by (simp add: pack_loop.simps)
  next
    case False
    then show ?thesis using 1
      by (subst pack_loop.simps) (auto simp: Let_def bit_simps)
  qed
qed

lemma pack_loop_extends: "\<exists>more. snd (pack_loop i guid mark bytes) = bytes @ more"
proof (induction i guid mark bytes rule: pack_loop.induct)
  case (1 i guid mark bytes)
  show ?case
  proof (cases "guid = 0")
    case True
    then show ?thesis by (simp add: pack_loop.simps)
  next
    case False
    then show ?thesis using 1 by (subst pack_loop.simps) (auto simp: Let_def)
  qed
qed

lemma unpack_loop_no_bits:
  "(\<And>j. i \<le> j \<Longrightarrow> \<not> bit mark j) \<Longrightarrow> unpack_loop k i mark guid b = (Inr guid, b)"
  by (induction k arbitrary: i) (simp_all add: bb_return_def and_exp_eq_0_iff_not_bit)

lemma low_byte_ucast: "ucast (ucast (guid AND 0xFF) :: u8) = guid AND 0xFF" for guid :: u64
proof -
  have "guid AND 0xFF = take_bit 8 guid" by (simp add: take_bit_eq_mask mask_eq_exp_minus_1)
  then show ?thesis by (auto intro!: bit_word_eqI simp: bit_simps)
qed

lemma low_byte_join: "(guid AND 0xFF) OR push_bit 8 (drop_bit 8 guid) = guid" for guid :: u64
proof -
  have "guid AND 0xFF = take_bit 8 guid" by (simp add: take_bit_eq_mask mask_eq_exp_minus_1)
  then show ?thesis by (auto intro!: bit_word_eqI simp: bit_simps)
qed

text \<open>Where the unpacking loop ends when it follows the packing loop from the same index.\<close>

lemma unpack_pack_loop:
  assumes "i + k = 8" "unat guid < 2 ^ (8 * k)" "\<And>j. i \<le> j \<Longrightarrow> \<not> bit mark j"
    "pack_loop i guid mark bytes = (mark', bytes @ ext)" "bb_size b < 2 ^ 64"
    "unread b = ext @ rest"
  shows "unpack_loop k i mark' acc b = (Inr (acc OR push_bit (8 * i) guid), bb_advance (length ext) b)"
  using assms
proof (induction k arbitrary: i guid mark bytes ext acc b)
  case 0
  then have "guid = 0" by (simp add: unat_eq_zero)
  with 0 show ?case by (simp add: pack_loop.simps bb_return_def)
next
  case (Suc k)
  show ?case
  proof (cases "guid = 0")
    case True
    with Suc.prems have "mark' = mark" "ext = []" by (simp_all add: pack_loop.simps)
    with True show ?thesis using Suc.prems(3) unpack_loop_no_bits [of i mark]
      by (simp del: unpack_loop.simps)
  next
    case False
    let ?low = "guid AND 0xFF" and ?high = "drop_bit 8 guid"
    have high: "unat ?high < 2 ^ (8 * k)"
      using Suc.prems(2) by (rule unat_drop_byte)
    have join: "acc OR push_bit (8 * i) guid =
        (acc OR push_bit (8 * i) ?low) OR push_bit (8 * Suc i) ?high"
      using arg_cong [OF low_byte_join [of guid], of "push_bit (8 * i)"]
      by (simp add: push_bit_or or.assoc add.commute)
    show ?thesis
    proof (cases "?low = 0")
      case True
      then have step: "pack_loop (Suc i) ?high mark bytes = (mark', bytes @ ext)"
        using Suc.prems(4) False by (subst (asm) pack_loop.simps) (simp add: Let_def)
      have "\<not> bit mark' i"
        using pack_loop_low_bits [of i "Suc i" ?high mark bytes] step Suc.prems(3) by simp
      then show ?thesis
        using Suc.IH [of "Suc i" ?high mark bytes ext b acc] step Suc.prems high True join
        by (simp add: and_exp_eq_0_iff_not_bit)
    next
      case low: False
      then have step: "pack_loop (Suc i) ?high (mark OR push_bit i 1) (bytes @ [ucast ?low])
          = (mark', bytes @ ext)"
        using Suc.prems(4) False by (subst (asm) pack_loop.simps) (simp add: Let_def)
      obtain more where more: "snd (pack_loop (Suc i) ?high (mark OR push_bit i 1) (bytes @ [ucast ?low]))
          = (bytes @ [ucast ?low]) @ more"
        using pack_loop_extends by blast
      then have ext: "ext = ucast ?low # more" using step by simp
      have "bit mark' i"
        using pack_loop_low_bits [of i "Suc i" ?high "mark OR push_bit i 1" "bytes @ [ucast ?low]"]
          step Suc.prems(1) by (simp add: bit_simps)
      moreover have "read_value b = (Inr (ucast ?low :: u8), bb_advance 1 b)"
        using read_value_next [of b "ucast ?low :: u8" "more @ rest"] ext Suc.prems
        by (simp add: to_bytes_def)
      moreover have "unpack_loop k (Suc i) mark' (acc OR push_bit (8 * i) ?low) (bb_advance 1 b) =
          (Inr ((acc OR push_bit (8 * i) ?low) OR push_bit (8 * Suc i) ?high),
           bb_advance (length more) (bb_advance 1 b))"
        using Suc.IH [of "Suc i" ?high "mark OR push_bit i 1" "bytes @ [ucast ?low]" more]
          step ext Suc.prems high by (simp add: bit_simps)
      ultimately show ?thesis
        using ext join by (simp add: bb_bind_def and_exp_eq_0_iff_not_bit low_byte_ucast mult.commute)
    qed
  qed
qed

lemma pack_loop_length:
  "unat guid < 2 ^ (8 * k) \<Longrightarrow> length (snd (pack_loop i guid mark bytes)) \<le> length bytes + k"
proof (induction k arbitrary: i guid mark bytes)
  case 0
  then show ?case by (simp add: unat_eq_zero pack_loop.simps)
next
  case (Suc k)
  note IH = Suc.IH [OF unat_drop_byte [OF Suc.prems]]
  show ?case
    using IH [of "Suc i" mark bytes]
      IH [of "Suc i" "mark OR push_bit i 1" "bytes @ [ucast (guid AND 0xFF)]"]
    by (subst pack_loop.simps) (simp add: Let_def)
qed

lemma readPackGUID_next:
  assumes "bb_size b < 2 ^ 64" "unread b = pack_guid guid @ rest"
  shows "readPackGUID b = (Inr guid, bb_advance (length (pack_guid guid)) b)"
proof -
  obtain mark ext where pl: "pack_loop 0 guid 0 [] = (mark, ext)" by fastforce
  then have pg: "pack_guid guid = mark # ext" by (simp add: pack_guid_def)
  have "read_value b = (Inr mark, bb_advance 1 b)"
    using read_value_next [of b mark "ext @ rest"] assms pg by (simp add: to_bytes_def)
  moreover have "unpack_loop 8 0 mark 0 (bb_advance 1 b) = (Inr guid, bb_advance (length ext) (bb_advance 1 b))"
    using unpack_pack_loop [of 0 8 guid 0 "[]" mark ext "bb_advance 1 b" rest 0] pl pg assms
      unsigned_less [of guid] by simp
  ultimately show ?thesis using pg
    by (simp add: readPackGUID_def bb_bind_def del: unpack_loop.simps)
qed

interpretation guidc: codec pack_guid appendPackGUID readPackGUID "\<lambda>_. True"
  by unfold_locales (simp_all add: appendPackGUID_def bb_append_at_end readPackGUID_next)

interpretation guid_vecc: codec guidc.vector_enc "write_vector appendPackGUID"
    "read_vector readPackGUID" guidc.vector_ok
  by (rule guidc.vector_codec)

section \<open>Packets\<close>

text \<open>The fields a packet is made of, and the operators a handler uses for them in order.\<close>

datatype packet_field =
  F8 u8 | F16 u16 | F32 u32 | F64 u64 | FBool bool | FString string | FPackedGuid u64

fun write_field :: "packet_field \<Rightarrow> unit bb_op" where
  "write_field (F8 v) = append_value v"
| "write_field (F16 v) = append_value v"
| "write_field (F32 v) = append_value v"
| "write_field (F64 v) = append_value v"
| "write_field (FBool v) = append_bool v"
| "write_field (FString v) = append_string v"
| "write_field (FPackedGuid v) = appendPackGUID v"

text \<open>Reading a field of the same type as a given one.\<close>

fun read_field_like :: "packet_field \<Rightarrow> packet_field bb_op" where
  "read_field_like (F8 _) = bb_bind read_value (\<lambda>v. bb_return (F8 v))"
| "read_field_like (F16 _) = bb_bind read_value (\<lambda>v. bb_return (F16 v))"
| "read_field_like (F32 _) = bb_bind read_value (\<lambda>v. bb_return (F32 v))"
| "read_field_like (F64 _) = bb_bind read_value (\<lambda>v. bb_return (F64 v))"
| "read_field_like (FBool _) = bb_bind read_bool (\<lambda>v. bb_return (FBool v))"
| "read_field_like (FString _) = bb_bind read_std_string (\<lambda>v. bb_return (FString v))"
| "read_field_like (FPackedGuid _) = bb_bind readPackGUID (\<lambda>v. bb_return (FPackedGuid v))"

primrec read_fields_like :: "packet_field list \<Rightarrow> packet_field list bb_op" where
  "read_fields_like [] = bb_return []"
| "read_fields_like (x # xs) =
     bb_bind (read_field_like x) (\<lambda>y. bb_bind (read_fields_like xs) (\<lambda>ys. bb_return (y # ys)))"

fun field_bytes :: "packet_field \<Rightarrow> u8 list" where
  "field_bytes (F8 v) = to_bytes v"
| "field_bytes (F16 v) = to_bytes v"
| "field_bytes (F32 v) = to_bytes v"
| "field_bytes (F64 v) = to_bytes v"
| "field_bytes (FBool v) = [if v then 1 else 0]"
| "field_bytes (FString v) = string_bytes v @ [0]"
| "field_bytes (FPackedGuid v) = pack_guid v"

fun field_ok :: "packet_field \<Rightarrow> bool" where
  "field_ok (FString v) = (NUL \<notin> set v)"
| "field_ok _ = True"

lemma write_field_bytes:
  "at_end b \<Longrightarrow> bb_size b + length (field_bytes x) < 10000000 \<Longrightarrow>
   write_field x b = (Inr (), bb_extend (field_bytes x) b)"
  by (cases x) (simp_all add: u8c.wr_enc u16c.wr_enc u32c.wr_enc u64c.wr_enc boolc.wr_enc
      strc.wr_enc guidc.wr_enc)

lemma write_fields_bytes:
  "at_end b \<Longrightarrow> bb_size b + length (concat (map field_bytes xs)) < 10000000 \<Longrightarrow>
   write_all write_field xs b = (Inr (), bb_extend (concat (map field_bytes xs)) b)"
  by (induction xs arbitrary: b) (simp_all add: bb_bind_def bb_return_def write_field_bytes)

lemma read_field_bytes:
  assumes "field_ok x" "bb_size b < 2 ^ 64" "unread b = field_bytes x @ rest"
  shows "read_field_like x b = (Inr x, bb_advance (length (field_bytes x)) b)"
  using assms
  by (cases x) (simp_all add: bb_bind_def bb_return_def u8c.rd_enc [where rest = rest]
      u16c.rd_enc [where rest = rest] u32c.rd_enc [where rest = rest]
      u64c.rd_enc [where rest = rest] boolc.rd_enc [where rest = rest]
      strc.rd_enc [where rest = rest] guidc.rd_enc [where rest = rest])

lemma read_fields_bytes:
  "\<forall>x \<in> set xs. field_ok x \<Longrightarrow> bb_size b < 2 ^ 64 \<Longrightarrow>
   unread b = concat (map field_bytes xs) @ rest \<Longrightarrow>
   read_fields_like xs b = (Inr xs, bb_advance (length (concat (map field_bytes xs))) b)"
proof (induction xs arbitrary: b)
  case (Cons x xs)
  then have "read_field_like x b = (Inr x, bb_advance (length (field_bytes x)) b)"
    by (intro read_field_bytes [where rest = "concat (map field_bytes xs) @ rest"]) auto
  then show ?case using Cons by (simp add: bb_bind_def bb_return_def)
qed (simp add: bb_return_def)

text \<open>C28: whatever sequence of integers, booleans, strings without NUL and packed guids is written
  to the end of a buffer, reading fields of the same types from where the writing began
  returns exactly these values, consumes exactly the bytes written and throws nothing, as
  long as the buffer stays below the size the appends assert.\<close>

theorem packet_round_trip:
  assumes "\<forall>x \<in> set xs. field_ok x" "at_end b" "bb_rpos b = bb_size b"
    "bb_size b + length (concat (map field_bytes xs)) < 10000000"
  shows "\<exists>b'. write_all write_field xs b = (Inr (), b') \<and>
    read_fields_like xs b' = (Inr xs, b'\<lparr>bb_rpos := bb_size b'\<rparr>)"
proof -
  let ?bytes = "concat (map field_bytes xs)"
  have "write_all write_field xs b = (Inr (), bb_extend ?bytes b)"
    using assms by (intro write_fields_bytes)
  moreover have "read_fields_like xs (bb_extend ?bytes b) = (Inr xs, bb_advance (length ?bytes) (bb_extend ?bytes b))"
    using assms by (intro read_fields_bytes [where rest = "[]"]) (simp_all add: unread_def bb_size_def)
  ultimately show ?thesis using assms(3) by (simp add: bb_advance_def bb_size_def)
qed

theorem packet_round_trip_witness:
  "\<exists>b'. write_all write_field [F32 7, FString ''bag'', FPackedGuid 0x00F1300000000102] ByteBuffer = (Inr (), b') \<and>
    read_fields_like [F32 7, FString ''bag'', FPackedGuid 0x00F1300000000102] b'
      = (Inr [F32 7, FString ''bag'', FPackedGuid 0x00F1300000000102], b'\<lparr>bb_rpos := bb_size b'\<rparr>)"
proof (rule packet_round_trip)
  have "length (pack_guid 0x00F1300000000102) \<le> 9"
    using pack_loop_length [of "0x00F1300000000102" 8 0 0 "[]"]
    by (simp add: pack_guid_def case_prod_beta)
  then show "bb_size ByteBuffer + length (concat (map field_bytes
      [F32 7, FString ''bag'', FPackedGuid 0x00F1300000000102])) < 10000000"
    by (simp add: bb_size_def ByteBuffer_def string_bytes_def)
qed (simp_all add: at_end_def bb_size_def ByteBuffer_def)





end
