(* ===== verification/Auth_Crypt.thy ===== *)
theory Auth_Crypt
  imports Prelude
begin

text \<open>
  The header cipher of a world session, \<^verbatim>\<open>src/shared/Auth/AuthCrypt.cpp\<close>. Only the first bytes
  of a packet are encrypted: six of what the server receives, four of what it sends. The key
  index and the feedback byte are kept per direction. Taking the remainder by the size of a key
  that was never set is undefined; the operations then have no result.
\<close>

section \<open>State and operations\<close>

record auth_crypt =
  ac_key :: "u8 list"
  ac_send_i :: u8
  ac_send_j :: u8
  ac_recv_i :: u8
  ac_recv_j :: u8
  ac_initialized :: bool

abbreviation CRYPTED_SEND_LEN :: nat where "CRYPTED_SEND_LEN \<equiv> 4"
abbreviation CRYPTED_RECV_LEN :: nat where "CRYPTED_RECV_LEN \<equiv> 6"

text \<open>The constructor leaves the four counters with whatever the memory held.\<close>

definition AuthCrypt :: "u8 \<Rightarrow> u8 \<Rightarrow> u8 \<Rightarrow> u8 \<Rightarrow> auth_crypt" where
  "AuthCrypt si sj ri rj =
     \<lparr>ac_key = [], ac_send_i = si, ac_send_j = sj, ac_recv_i = ri, ac_recv_j = rj,
      ac_initialized = False\<rparr>"

definition Init :: "auth_crypt \<Rightarrow> auth_crypt" where
  "Init a = a\<lparr>ac_send_i := 0, ac_send_j := 0, ac_recv_i := 0, ac_recv_j := 0, ac_initialized := True\<rparr>"

definition SetKey :: "u8 list \<Rightarrow> auth_crypt \<Rightarrow> auth_crypt" where
  "SetKey key a = a\<lparr>ac_key := (if key = [] then [0] else key)\<rparr>"

definition key_index :: "u8 list \<Rightarrow> u8 \<Rightarrow> u8" where
  "key_index key i = of_nat (unat i mod length key)"

definition decrypt_byte :: "u8 list \<Rightarrow> u8 \<times> u8 \<Rightarrow> u8 \<Rightarrow> u8 \<times> (u8 \<times> u8)" where
  "decrypt_byte key st c =
     (let i = key_index key (fst st); x = (c - snd st) XOR (key ! unat i)
      in (x, (i + 1, c)))"

definition encrypt_byte :: "u8 list \<Rightarrow> u8 \<times> u8 \<Rightarrow> u8 \<Rightarrow> u8 \<times> (u8 \<times> u8)" where
  "encrypt_byte key st d =
     (let i = key_index key (fst st); x = (d XOR (key ! unat i)) + snd st
      in (x, (i + 1, x)))"

text \<open>A loop over bytes that threads the pair of index and feedback byte.\<close>

primrec crypt_loop :: "(u8 \<times> u8 \<Rightarrow> u8 \<Rightarrow> u8 \<times> (u8 \<times> u8)) \<Rightarrow> u8 \<times> u8 \<Rightarrow> u8 list \<Rightarrow> u8 list \<times> (u8 \<times> u8)" where
  "crypt_loop f st [] = ([], st)"
| "crypt_loop f st (d # ds) =
     (let (x, st') = f st d; (xs, st'') = crypt_loop f st' ds in (x # xs, st''))"

definition DecryptRecv :: "u8 list \<Rightarrow> auth_crypt \<Rightarrow> (u8 list \<times> auth_crypt) option" where
  "DecryptRecv data a =
     (if \<not> ac_initialized a then Some (data, a)
      else if length data < CRYPTED_RECV_LEN then Some (data, a)
      else if ac_key a = [] then None
      else let (xs, st) = crypt_loop (decrypt_byte (ac_key a)) (ac_recv_i a, ac_recv_j a)
                            (take CRYPTED_RECV_LEN data)
           in Some (xs @ drop CRYPTED_RECV_LEN data, a\<lparr>ac_recv_i := fst st, ac_recv_j := snd st\<rparr>))"

definition EncryptSend :: "u8 list \<Rightarrow> auth_crypt \<Rightarrow> (u8 list \<times> auth_crypt) option" where
  "EncryptSend data a =
     (if \<not> ac_initialized a then Some (data, a)
      else if length data < CRYPTED_SEND_LEN then Some (data, a)
      else if ac_key a = [] then None
      else let (xs, st) = crypt_loop (encrypt_byte (ac_key a)) (ac_send_i a, ac_send_j a)
                            (take CRYPTED_SEND_LEN data)
           in Some (xs @ drop CRYPTED_SEND_LEN data, a\<lparr>ac_send_i := fst st, ac_send_j := snd st\<rparr>))"

section \<open>Ciphers whose two directions stay synchronised\<close>

text \<open>
  Two byte transducers with a relation between their states: decrypting what was encrypted
  in related states gives the byte back and related states again.
\<close>

locale stream_cipher =
  fixes enc dec :: "'s \<Rightarrow> u8 \<Rightarrow> u8 \<times> 's" and in_sync :: "'s \<Rightarrow> 's \<Rightarrow> bool"
  assumes dec_enc: "in_sync s t \<Longrightarrow> fst (dec t (fst (enc s d))) = d"
    and keeps_sync: "in_sync s t \<Longrightarrow> in_sync (snd (enc s d)) (snd (dec t (fst (enc s d))))"
begin

primrec run :: "('s \<Rightarrow> u8 \<Rightarrow> u8 \<times> 's) \<Rightarrow> 's \<Rightarrow> u8 list \<Rightarrow> u8 list \<times> 's" where
  "run f s [] = ([], s)"
| "run f s (d # ds) = (let (x, s') = f s d; (xs, s'') = run f s' ds in (x # xs, s''))"

lemma run_inverse:
  assumes "in_sync s t"
  shows "fst (run dec t (fst (run enc s ds))) = ds \<and>
    in_sync (snd (run enc s ds)) (snd (run dec t (fst (run enc s ds))))"
  using assms
proof (induction ds arbitrary: s t)
  case (Cons d ds)
  show ?case
    using Cons.IH [OF keeps_sync [OF Cons.prems, of d]] dec_enc [OF Cons.prems, of d]
    by (simp add: case_prod_beta Let_def)
qed simp

lemma run_length [simp]: "length (fst (run f s ds)) = length ds"
  by (induction ds arbitrary: s) (simp_all add: case_prod_beta Let_def)

end

interpretation hdr: stream_cipher "encrypt_byte key" "decrypt_byte key" "(=)" for key
  by unfold_locales (auto simp: encrypt_byte_def decrypt_byte_def Let_def xor.assoc)

lemma hdr_run: "hdr.run f s ds = crypt_loop f s ds"
  by (induction ds arbitrary: s) simp_all

lemma crypt_loop_inverse:
  "crypt_loop (encrypt_byte key) st ds = (cs, st') \<Longrightarrow>
   crypt_loop (decrypt_byte key) st cs = (ds, st')"
  using hdr.run_inverse [of st st key ds] by (auto simp: hdr_run prod_eq_iff)

lemma length_crypt_loop [simp]: "length (fst (crypt_loop f st ds)) = length ds"
  using hdr.run_length [of f st ds] by (simp add: hdr_run)

section \<open>Sessions\<close>

text \<open>A sequence of packets through one of the two operations.\<close>

primrec crypt_packets :: "(u8 list \<Rightarrow> auth_crypt \<Rightarrow> (u8 list \<times> auth_crypt) option) \<Rightarrow>
    u8 list list \<Rightarrow> auth_crypt \<Rightarrow> (u8 list list \<times> auth_crypt) option" where
  "crypt_packets f [] a = Some ([], a)"
| "crypt_packets f (p # ps) a =
     (case f p a of None \<Rightarrow> None
      | Some (q, a') \<Rightarrow> (case crypt_packets f ps a' of None \<Rightarrow> None
                         | Some (qs, a'') \<Rightarrow> Some (q # qs, a'')))"

text \<open>The other end of the connection: the same byte cipher on the first \<open>n\<close> bytes of each packet.\<close>

primrec peer_packets :: "nat \<Rightarrow> (u8 \<times> u8 \<Rightarrow> u8 \<Rightarrow> u8 \<times> (u8 \<times> u8)) \<Rightarrow> u8 \<times> u8 \<Rightarrow>
    u8 list list \<Rightarrow> u8 list list" where
  "peer_packets n f st [] = []"
| "peer_packets n f st (p # ps) =
     (let (xs, st') = crypt_loop f st (take n p) in (xs @ drop n p) # peer_packets n f st' ps)"

lemma EncryptSend_ready:
  assumes "ac_initialized a" "ac_key a \<noteq> []" "4 \<le> length p"
  shows "EncryptSend p a =
    (let (xs, st) = crypt_loop (encrypt_byte (ac_key a)) (ac_send_i a, ac_send_j a) (take 4 p)
     in Some (xs @ drop 4 p, a\<lparr>ac_send_i := fst st, ac_send_j := snd st\<rparr>))"
  using assms by (simp add: EncryptSend_def)

lemma DecryptRecv_ready:
  assumes "ac_initialized a" "ac_key a \<noteq> []" "6 \<le> length p"
  shows "DecryptRecv p a =
    (let (xs, st) = crypt_loop (decrypt_byte (ac_key a)) (ac_recv_i a, ac_recv_j a) (take 6 p)
     in Some (xs @ drop 6 p, a\<lparr>ac_recv_i := fst st, ac_recv_j := snd st\<rparr>))"
  using assms by (simp add: DecryptRecv_def)

lemma sent_packets_readable:
  assumes "ac_initialized a" "ac_key a \<noteq> []" "\<forall>p \<in> set ps. 4 \<le> length p"
  shows "\<exists>qs a'. crypt_packets EncryptSend ps a = Some (qs, a') \<and>
    peer_packets 4 (decrypt_byte (ac_key a)) (ac_send_i a, ac_send_j a) qs = ps"
  using assms
proof (induction ps arbitrary: a)
  case (Cons p ps)
  obtain xs st where xs: "crypt_loop (encrypt_byte (ac_key a)) (ac_send_i a, ac_send_j a) (take 4 p) = (xs, st)"
    by (rule prod.exhaust)
  let ?a = "a\<lparr>ac_send_i := fst st, ac_send_j := snd st\<rparr>"
  have len: "length xs = 4"
    using length_crypt_loop [of "encrypt_byte (ac_key a)" "(ac_send_i a, ac_send_j a)" "take 4 p"]
      xs Cons.prems by simp
  obtain qs a' where "crypt_packets EncryptSend ps ?a = Some (qs, a')"
    and "peer_packets 4 (decrypt_byte (ac_key a)) st qs = ps"
    using Cons.IH [of ?a] Cons.prems by auto
  then show ?case
    using Cons.prems xs len crypt_loop_inverse [OF xs] by (simp add: EncryptSend_ready)
qed simp

lemma received_packets_read:
  assumes "ac_initialized a" "ac_key a \<noteq> []" "\<forall>p \<in> set ps. 6 \<le> length p"
  shows "\<exists>a'. crypt_packets DecryptRecv
    (peer_packets 6 (encrypt_byte (ac_key a)) (ac_recv_i a, ac_recv_j a) ps) a = Some (ps, a')"
  using assms
proof (induction ps arbitrary: a)
  case (Cons p ps)
  obtain xs st where xs: "crypt_loop (encrypt_byte (ac_key a)) (ac_recv_i a, ac_recv_j a) (take 6 p) = (xs, st)"
    by (rule prod.exhaust)
  let ?a = "a\<lparr>ac_recv_i := fst st, ac_recv_j := snd st\<rparr>"
  have len: "length xs = 6"
    using length_crypt_loop [of "encrypt_byte (ac_key a)" "(ac_recv_i a, ac_recv_j a)" "take 6 p"]
      xs Cons.prems by simp
  obtain a' where "crypt_packets DecryptRecv
      (peer_packets 6 (encrypt_byte (ac_key a)) st ps) ?a = Some (ps, a')"
    using Cons.IH [of ?a] Cons.prems by auto
  then show ?case
    using Cons.prems xs len crypt_loop_inverse [OF xs] by (simp add: DecryptRecv_ready)
qed simp



end
