(* ===== verification/Object_Guid.thy ===== *)
theory Object_Guid
  imports Byte_Buffer
begin

text \<open>
  Global object identifiers, \<^verbatim>\<open>src/game/ObjectGuid.h\<close> and \<^verbatim>\<open>ObjectGuid.cpp\<close>: the 64-bit guid with
  its type in the top 16 bits and, for the types that have one, the entry in the 24 bits
  below; the counters that hand out guids; and guids on the wire.
\<close>

section \<open>Guids\<close>

type_synonym guid = u64

definition HIGHGUID_ITEM :: u16 where "HIGHGUID_ITEM = 0x4000"
definition HIGHGUID_PLAYER :: u16 where "HIGHGUID_PLAYER = 0x0000"
definition HIGHGUID_GAMEOBJECT :: u16 where "HIGHGUID_GAMEOBJECT = 0xF110"
definition HIGHGUID_TRANSPORT :: u16 where "HIGHGUID_TRANSPORT = 0xF120"
definition HIGHGUID_UNIT :: u16 where "HIGHGUID_UNIT = 0xF130"
definition HIGHGUID_PET :: u16 where "HIGHGUID_PET = 0xF140"
definition HIGHGUID_DYNAMICOBJECT :: u16 where "HIGHGUID_DYNAMICOBJECT = 0xF100"
definition HIGHGUID_CORPSE :: u16 where "HIGHGUID_CORPSE = 0xF101"
definition HIGHGUID_MO_TRANSPORT :: u16 where "HIGHGUID_MO_TRANSPORT = 0x1FC0"

lemmas HIGHGUID_defs =
  HIGHGUID_ITEM_def HIGHGUID_PLAYER_def HIGHGUID_GAMEOBJECT_def HIGHGUID_TRANSPORT_def
  HIGHGUID_UNIT_def HIGHGUID_PET_def HIGHGUID_DYNAMICOBJECT_def HIGHGUID_CORPSE_def
  HIGHGUID_MO_TRANSPORT_def

datatype TypeID =
    TYPEID_OBJECT | TYPEID_ITEM | TYPEID_CONTAINER | TYPEID_UNIT | TYPEID_PLAYER
  | TYPEID_GAMEOBJECT | TYPEID_DYNAMICOBJECT | TYPEID_CORPSE

definition ObjectGuid3 :: "u16 \<Rightarrow> u32 \<Rightarrow> u32 \<Rightarrow> guid" where
  "ObjectGuid3 hi entry counter =
     (if counter \<noteq> 0
      then ucast counter OR push_bit 24 (ucast entry) OR push_bit 48 (ucast hi) else 0)"

definition ObjectGuid2 :: "u16 \<Rightarrow> u32 \<Rightarrow> guid" where
  "ObjectGuid2 hi counter =
     (if counter \<noteq> 0 then ucast counter OR push_bit 48 (ucast hi) else 0)"

definition GetHigh :: "guid \<Rightarrow> u16" where
  "GetHigh g = ucast (drop_bit 48 g AND 0x0000FFFF)"

definition HasEntryHigh :: "u16 \<Rightarrow> bool" where
  "HasEntryHigh high =
     (\<not> (high = HIGHGUID_ITEM \<or> high = HIGHGUID_PLAYER \<or> high = HIGHGUID_DYNAMICOBJECT
         \<or> high = HIGHGUID_CORPSE \<or> high = HIGHGUID_MO_TRANSPORT))"

definition HasEntry :: "guid \<Rightarrow> bool" where
  "HasEntry g = HasEntryHigh (GetHigh g)"

definition GetEntry :: "guid \<Rightarrow> u32" where
  "GetEntry g = (if HasEntry g then ucast (drop_bit 24 g AND 0x0000000000FFFFFF) else 0)"

definition GetCounterOf :: "guid \<Rightarrow> bool \<Rightarrow> u32" where
  "GetCounterOf g hasEntry =
     (if hasEntry then ucast (g AND 0x0000000000FFFFFF) else ucast (g AND 0x00000000FFFFFFFF))"

definition GetCounter :: "guid \<Rightarrow> u32" where
  "GetCounter g = GetCounterOf g (HasEntry g)"

definition GetMaxCounter :: "u16 \<Rightarrow> u32" where
  "GetMaxCounter high = (if HasEntryHigh high then 0x00FFFFFF else 0xFFFFFFFF)"

definition IsEmpty :: "guid \<Rightarrow> bool" where "IsEmpty g = (g = 0)"
definition IsCreature :: "guid \<Rightarrow> bool" where "IsCreature g = (GetHigh g = HIGHGUID_UNIT)"
definition IsPet :: "guid \<Rightarrow> bool" where "IsPet g = (GetHigh g = HIGHGUID_PET)"
definition IsPlayer :: "guid \<Rightarrow> bool" where
  "IsPlayer g = (\<not> IsEmpty g \<and> GetHigh g = HIGHGUID_PLAYER)"
definition IsUnit :: "guid \<Rightarrow> bool" where
  "IsUnit g = ((IsCreature g \<or> IsPet g) \<or> IsPlayer g)"
definition IsItem :: "guid \<Rightarrow> bool" where "IsItem g = (GetHigh g = HIGHGUID_ITEM)"
definition IsGameObject :: "guid \<Rightarrow> bool" where "IsGameObject g = (GetHigh g = HIGHGUID_GAMEOBJECT)"
definition IsDynamicObject :: "guid \<Rightarrow> bool" where
  "IsDynamicObject g = (GetHigh g = HIGHGUID_DYNAMICOBJECT)"
definition IsCorpse :: "guid \<Rightarrow> bool" where "IsCorpse g = (GetHigh g = HIGHGUID_CORPSE)"
definition IsTransport :: "guid \<Rightarrow> bool" where "IsTransport g = (GetHigh g = HIGHGUID_TRANSPORT)"
definition IsMOTransport :: "guid \<Rightarrow> bool" where "IsMOTransport g = (GetHigh g = HIGHGUID_MO_TRANSPORT)"

definition GetTypeId :: "u16 \<Rightarrow> TypeID" where
  "GetTypeId high =
     (if high = HIGHGUID_ITEM then TYPEID_ITEM
      else if high = HIGHGUID_UNIT then TYPEID_UNIT
      else if high = HIGHGUID_PET then TYPEID_UNIT
      else if high = HIGHGUID_PLAYER then TYPEID_PLAYER
      else if high = HIGHGUID_GAMEOBJECT then TYPEID_GAMEOBJECT
      else if high = HIGHGUID_DYNAMICOBJECT then TYPEID_DYNAMICOBJECT
      else if high = HIGHGUID_CORPSE then TYPEID_CORPSE
      else if high = HIGHGUID_MO_TRANSPORT then TYPEID_GAMEOBJECT
      else TYPEID_OBJECT)"

definition GetTypeName :: "u16 \<Rightarrow> string" where
  "GetTypeName high =
     (if high = HIGHGUID_ITEM then ''Item''
      else if high = HIGHGUID_PLAYER then ''Player''
      else if high = HIGHGUID_GAMEOBJECT then ''Gameobject''
      else if high = HIGHGUID_TRANSPORT then ''Transport''
      else if high = HIGHGUID_UNIT then ''Creature''
      else if high = HIGHGUID_PET then ''Pet''
      else if high = HIGHGUID_DYNAMICOBJECT then ''DynObject''
      else if high = HIGHGUID_CORPSE then ''Corpse''
      else if high = HIGHGUID_MO_TRANSPORT then ''MoTransport''
      else ''<unknown>'')"

text \<open>The printed form; \<open>player_name\<close> stands for \<^verbatim>\<open>ObjectMgr::GetPlayerNameByGUID\<close>.\<close>

definition GetString :: "(guid \<Rightarrow> string option) \<Rightarrow> guid \<Rightarrow> string" where
  "GetString player_name g =
     (if IsEmpty g then ''None'' else GetTypeName (GetHigh g)) @
     (if IsPlayer g then (case player_name g of Some name \<Rightarrow> '' '' @ name | None \<Rightarrow> []) else []) @
     '' ('' @
     (if HasEntry g
      then (if IsPet g then ''Petnumber: '' else ''Entry: '') @ to_string (GetEntry g) @ '' '' else []) @
     ''Guid: '' @ to_string (GetCounter g) @ '')''"

definition ClampPlayerGuid :: "guid \<Rightarrow> guid" where
  "ClampPlayerGuid value =
     (if GetHigh value = HIGHGUID_PLAYER
      then ucast (GetCounterOf value (HasEntryHigh HIGHGUID_PLAYER)) else value)"

section \<open>Guids on the wire\<close>

definition write_guid :: "guid \<Rightarrow> unit bb_op" where
  "write_guid g = append_value g"

definition read_guid :: "guid bb_op" where
  "read_guid = bb_bind read_value (\<lambda>value. bb_return (ClampPlayerGuid value))"

text \<open>\<^verbatim>\<open>PackedGuid\<close> keeps the packed form in a buffer of its own and is rewritten in place by \<^verbatim>\<open>Set\<close>.\<close>

definition PackedGuid :: "guid \<Rightarrow> byte_buffer" where
  "PackedGuid g = snd (appendPackGUID g ByteBuffer)"

definition PackedGuid_Set :: "guid \<Rightarrow> byte_buffer \<Rightarrow> byte_buffer" where
  "PackedGuid_Set g b = snd (appendPackGUID g (set_wpos 0 b))"

definition write_packed :: "byte_buffer \<Rightarrow> unit bb_op" where
  "write_packed pg = append_buffer pg"

definition read_packed :: "guid bb_op" where
  "read_packed = bb_bind readPackGUID (\<lambda>value. bb_return (ClampPlayerGuid value))"

section \<open>Guid counters\<close>

record guid_generator =
  m_nextGuid :: u32
  m_freedGuids :: "u32 list"

definition ObjectGuidGenerator :: "u32 \<Rightarrow> guid_generator" where
  "ObjectGuidGenerator start = \<lparr>m_nextGuid = start, m_freedGuids = []\<rparr>"

definition SetNext :: "u32 \<Rightarrow> guid_generator \<Rightarrow> guid_generator" where
  "SetNext val g = g\<lparr>m_nextGuid := val\<rparr>"

definition FreeGuid :: "u32 \<Rightarrow> guid_generator \<Rightarrow> guid_generator" where
  "FreeGuid x g = g\<lparr>m_freedGuids := m_freedGuids g @ [x]\<rparr>"

text \<open>
  The second component says that \<^verbatim>\<open>World::StopNow\<close> was called; the call only requests the
  shutdown, and the function goes on.
\<close>

definition Generate :: "u16 \<Rightarrow> guid_generator \<Rightarrow> u32 \<times> bool \<times> guid_generator" where
  "Generate high g =
     (case m_freedGuids g of
        x # xs \<Rightarrow> (x, False, g\<lparr>m_freedGuids := xs\<rparr>)
      | [] \<Rightarrow> (m_nextGuid g, m_nextGuid g \<ge> GetMaxCounter high - 1,
               g\<lparr>m_nextGuid := m_nextGuid g + 1\<rparr>))"

definition GenerateRange :: "u16 \<Rightarrow> guid_generator \<Rightarrow> (u32 \<times> u32) \<times> bool \<times> guid_generator" where
  "GenerateRange high g =
     ((m_nextGuid g, m_nextGuid g + 100), m_nextGuid g \<ge> GetMaxCounter high - 100,
      g\<lparr>m_nextGuid := m_nextGuid g + 100\<rparr>)"

text \<open>
  The life of a counter together with the guids in use: loaded from the database, handed out,
  given back, or reserved as a range, as long as no overflow was reported.
\<close>

inductive gen_reach :: "u16 \<Rightarrow> guid_generator \<Rightarrow> u32 set \<Rightarrow> bool" for high where
  gen_start: "1 \<le> start \<Longrightarrow> start \<le> GetMaxCounter high \<Longrightarrow> \<forall>x \<in> used. 1 \<le> x \<and> x < start \<Longrightarrow>
    gen_reach high (ObjectGuidGenerator start) used"
| gen_generate: "gen_reach high g used \<Longrightarrow> Generate high g = (x, False, g') \<Longrightarrow>
    gen_reach high g' (insert x used)"
| gen_free: "gen_reach high g used \<Longrightarrow> x \<in> used \<Longrightarrow> gen_reach high (FreeGuid x g) (used - {x})"
| gen_range: "gen_reach high g used \<Longrightarrow> GenerateRange high g = ((lo, hi), False, g') \<Longrightarrow>
    gen_reach high g' (used \<union> {lo..<hi})"

inductive_cases gen_reachE: "gen_reach high g used"

section \<open>The fields of a guid\<close>

lemma and_low_mask [simp]:
  "g AND 0xFFFF = take_bit 16 g" "g AND 0xFFFFFF = take_bit 24 g" "g AND 0xFFFFFFFF = take_bit 32 g"
  for g :: guid
  by (simp_all add: take_bit_eq_mask mask_eq_exp_minus_1)

lemma bit_small: "bit w n \<Longrightarrow> unat w < 2 ^ k \<Longrightarrow> n < k" for w :: u32
proof -
  assume w: "bit w n" "unat w < 2 ^ k"
  then have "bit (take_bit k (unat w)) n" by (simp add: take_bit_nat_eq_self bit_unsigned_iff)
  then show "n < k" by (simp add: bit_take_bit_iff)
qed

lemma bit_GetHigh: "bit (GetHigh g) n \<longleftrightarrow> n < 16 \<and> bit g (48 + n)"
  by (auto simp: GetHigh_def bit_simps)

lemma GetHigh_ObjectGuid3:
  assumes "counter \<noteq> 0" "unat entry < 2 ^ 24"
  shows "GetHigh (ObjectGuid3 hi entry counter) = hi"
proof (rule bit_word_eqI)
  fix n assume "n < LENGTH(16)"
  moreover have "\<not> bit entry (24 + n)" using bit_small [of entry "24 + n" 24] assms(2) by auto
  moreover have "\<not> bit counter (48 + n)" by (auto dest: bit_imp_le_length)
  ultimately show "bit (GetHigh (ObjectGuid3 hi entry counter)) n = bit hi n"
    using assms(1) by (simp add: bit_GetHigh ObjectGuid3_def bit_simps)
qed

lemma GetHigh_ObjectGuid2: "counter \<noteq> 0 \<Longrightarrow> GetHigh (ObjectGuid2 hi counter) = hi"
proof (rule bit_word_eqI)
  fix n assume "n < LENGTH(16)" "counter \<noteq> 0"
  moreover have "\<not> bit counter (48 + n)" by (auto dest: bit_imp_le_length)
  ultimately show "bit (GetHigh (ObjectGuid2 hi counter)) n = bit hi n"
    by (simp add: bit_GetHigh ObjectGuid2_def bit_simps)
qed

lemma GetEntry_ObjectGuid3:
  assumes "counter \<noteq> 0" "unat entry < 2 ^ 24" "unat counter < 2 ^ 24" "HasEntryHigh hi"
  shows "GetEntry (ObjectGuid3 hi entry counter) = entry"
proof (rule bit_word_eqI)
  fix n assume "n < LENGTH(32)"
  moreover have "\<not> bit counter (24 + n)" using bit_small [of counter "24 + n" 24] assms(3) by auto
  moreover have "bit entry n \<Longrightarrow> n < 24" using bit_small assms(2) by blast
  ultimately show "bit (GetEntry (ObjectGuid3 hi entry counter)) n = bit entry n"
    using assms by (auto simp: GetEntry_def HasEntry_def GetHigh_ObjectGuid3)
      (auto simp: ObjectGuid3_def bit_simps)
qed

lemma GetCounter_ObjectGuid3:
  assumes "counter \<noteq> 0" "unat entry < 2 ^ 24" "unat counter < 2 ^ 24" "HasEntryHigh hi"
  shows "GetCounter (ObjectGuid3 hi entry counter) = counter"
proof (rule bit_word_eqI)
  fix n assume "n < LENGTH(32)"
  moreover have "bit counter n \<Longrightarrow> n < 24" using bit_small assms(3) by blast
  ultimately show "bit (GetCounter (ObjectGuid3 hi entry counter)) n = bit counter n"
    using assms by (auto simp: GetCounter_def GetCounterOf_def HasEntry_def GetHigh_ObjectGuid3)
      (auto simp: ObjectGuid3_def bit_simps)
qed

lemma GetCounter_ObjectGuid2:
  assumes "counter \<noteq> 0" "\<not> HasEntryHigh hi"
  shows "GetCounter (ObjectGuid2 hi counter) = counter"
proof (rule bit_word_eqI)
  fix n assume "n < LENGTH(32)"
  then show "bit (GetCounter (ObjectGuid2 hi counter)) n = bit counter n"
    using assms by (auto simp: GetCounter_def GetCounterOf_def HasEntry_def GetHigh_ObjectGuid2)
      (auto simp: ObjectGuid2_def bit_simps)
qed

text \<open>C40: the constructors and the accessors of a guid are inverse: a type with an entry gives
  back type, entry and counter when both numbers fit in their 24 bits, a type without one gives
  back type and the whole 32-bit counter, and its entry reads as 0.\<close>

theorem ObjectGuid_fields:
  assumes "counter \<noteq> 0"
  shows "(HasEntryHigh hi \<longrightarrow> unat entry < 2 ^ 24 \<longrightarrow> unat counter < 2 ^ 24 \<longrightarrow>
      GetHigh (ObjectGuid3 hi entry counter) = hi \<and>
      GetEntry (ObjectGuid3 hi entry counter) = entry \<and>
      GetCounter (ObjectGuid3 hi entry counter) = counter) \<and>
    (\<not> HasEntryHigh hi \<longrightarrow>
      GetHigh (ObjectGuid2 hi counter) = hi \<and>
      GetEntry (ObjectGuid2 hi counter) = 0 \<and>
      GetCounter (ObjectGuid2 hi counter) = counter)"
  using assms
  by (simp add: GetHigh_ObjectGuid3 GetHigh_ObjectGuid2 GetEntry_ObjectGuid3
      GetCounter_ObjectGuid3 GetCounter_ObjectGuid2 GetEntry_def [of "ObjectGuid2 _ _"] HasEntry_def)

theorem ObjectGuid_fields_witness:
  "GetEntry (ObjectGuid3 0xF130 1234 77) = 1234 \<and> GetCounter (ObjectGuid2 0x4000 77) = 77"
  using ObjectGuid_fields [of 77 "0xF130" 1234] ObjectGuid_fields [of 77 "0x4000" 0]
  by (simp add: HasEntryHigh_def HIGHGUID_defs)

section \<open>Clamping guids from the network\<close>

lemma ucast_take_bit_32: "ucast (ucast (take_bit 32 g) :: u32) = take_bit 32 g" for g :: guid
  by (auto intro!: bit_word_eqI simp: bit_simps)

lemma ClampPlayerGuid_alt:
  "ClampPlayerGuid g = (if GetHigh g = 0 then take_bit 32 g else g)"
  by (simp add: ClampPlayerGuid_def GetCounterOf_def HasEntryHigh_def HIGHGUID_PLAYER_def
      ucast_take_bit_32)

lemma GetHigh_take_bit_32 [simp]: "GetHigh (take_bit 32 g) = 0"
  by (rule bit_word_eqI) (simp add: bit_GetHigh bit_simps)

text \<open>A guid that comes from the network and names a player carries nothing above its
  32-bit counter, so two guids of the same player are equal; guids of other types pass
  unchanged, and clamping again changes nothing.\<close>

theorem read_guids_clamped:
  assumes "read_guid b = (Inr g, b') \<or> read_packed b = (Inr g, b')"
  shows "ClampPlayerGuid g = g \<and>
    (GetHigh g = HIGHGUID_PLAYER \<longrightarrow> g = ucast (GetCounter g))"
proof -
  obtain v where "g = ClampPlayerGuid v"
    using assms
    by (auto simp: read_guid_def read_packed_def bb_bind_def bb_return_def
        split: prod.splits sum.splits)
  then have "ClampPlayerGuid g = g" by (simp add: ClampPlayerGuid_alt)
  moreover have "ClampPlayerGuid g = ucast (GetCounter g)" if "GetHigh g = HIGHGUID_PLAYER"
    using that by (simp add: ClampPlayerGuid_def GetCounter_def HasEntry_def)
  ultimately show ?thesis by metis
qed

theorem read_guids_clamped_witness:
  "ClampPlayerGuid 5 = 5 \<and> fst (read_guid (bb_extend [5, 0, 0, 0, 1, 0, 0, 0] ByteBuffer)) = Inr 5"
proof -
  have "read_value (bb_extend (to_bytes (0x100000005 :: u64)) ByteBuffer) =
      (Inr (0x100000005 :: u64), bb_advance 8 (bb_extend (to_bytes (0x100000005 :: u64)) ByteBuffer))"
    using read_value_next [of "bb_extend (to_bytes (0x100000005 :: u64)) ByteBuffer" "0x100000005 :: u64" "[]"]
    by (simp add: unread_def ByteBuffer_def bb_size_def)
  moreover have "to_bytes (0x100000005 :: u64) = [5, 0, 0, 0, 1, 0, 0, 0]"
    by (simp add: to_bytes_def upt_rec)
  moreover have "ClampPlayerGuid 0x100000005 = 5"
    by (simp add: ClampPlayerGuid_alt GetHigh_def)
  ultimately have *: "read_guid (bb_extend [5, 0, 0, 0, 1, 0, 0, 0] ByteBuffer) =
      (Inr 5, bb_advance 8 (bb_extend [5, 0, 0, 0, 1, 0, 0, 0] ByteBuffer))"
    by (simp add: read_guid_def bb_bind_def bb_return_def)
  show ?thesis
    using read_guids_clamped [OF disjI1, OF *] by (simp add: *)
qed

section \<open>Rewriting a packed guid\<close>

text \<open>What a \<^verbatim>\<open>PackedGuid\<close> buffer holds: the packed form in front, and nine bytes at most.\<close>

definition packed_holds :: "guid \<Rightarrow> byte_buffer \<Rightarrow> bool" where
  "packed_holds g pg =
     (bb_wpos pg = length (pack_guid g) \<and> bb_wpos pg \<le> bb_size pg \<and> bb_size pg \<le> 9 \<and>
      take (bb_wpos pg) (bb_storage pg) = pack_guid g)"

lemma pack_guid_length: "length (pack_guid g) \<le> 9" "pack_guid g \<noteq> []"
  using pack_loop_length [of g 8 0 0 "[]"] unsigned_less [of g]
  by (simp_all add: pack_guid_def case_prod_beta)

lemma appendPackGUID_front:
  assumes "bb_size pg \<le> 9" "bb_wpos pg = 0"
  shows "packed_holds g (snd (appendPackGUID g pg))"
proof -
  have "size_add 0 (length (pack_guid g)) = length (pack_guid g)"
    using pack_guid_length [of g] by (simp add: size_add_def)
  then show ?thesis using assms pack_guid_length [of g]
    by (auto simp: appendPackGUID_def bb_append_def packed_holds_def bb_size_def Let_def
        vector_resize_def write_at_def)
qed

lemma PackedGuid_holds: "packed_holds g (PackedGuid g)"
  unfolding PackedGuid_def by (rule appendPackGUID_front) (simp_all add: ByteBuffer_def bb_size_def)

lemma PackedGuid_Set_holds: "packed_holds g pg \<Longrightarrow> packed_holds h (PackedGuid_Set h pg)"
  unfolding PackedGuid_Set_def
  by (rule appendPackGUID_front) (simp_all add: packed_holds_def set_wpos_def bb_size_def)

lemma write_packed_bytes:
  assumes "packed_holds g pg"
  shows "write_packed pg b = appendPackGUID g b"
  using assms pack_guid_length [of g]
  by (auto simp: write_packed_def append_buffer_def appendPackGUID_def packed_holds_def)

text \<open>A \<^verbatim>\<open>PackedGuid\<close> that was rewritten any number of times with \<^verbatim>\<open>Set\<close>, also by shorter guids
  than it held before, writes exactly the packed form of its last guid.\<close>

theorem PackedGuid_rewritten:
  "write_packed (fold PackedGuid_Set (gs @ [g]) (PackedGuid h)) b = appendPackGUID g b"
proof -
  have "\<exists>k. packed_holds k (fold PackedGuid_Set gs (PackedGuid h))"
    by (induction gs rule: rev_induct) (auto intro: PackedGuid_holds PackedGuid_Set_holds)
  then have "packed_holds g (fold PackedGuid_Set (gs @ [g]) (PackedGuid h))"
    by (auto intro: PackedGuid_Set_holds)
  then show ?thesis by (rule write_packed_bytes)
qed

section \<open>Counters hand out fresh guids\<close>

definition gen_inv :: "u16 \<Rightarrow> guid_generator \<Rightarrow> u32 set \<Rightarrow> bool" where
  "gen_inv high g used =
     (1 \<le> m_nextGuid g \<and> m_nextGuid g \<le> GetMaxCounter high \<and>
      distinct (m_freedGuids g) \<and> set (m_freedGuids g) \<inter> used = {} \<and>
      (\<forall>x \<in> used \<union> set (m_freedGuids g). 1 \<le> x \<and> x < m_nextGuid g))"

lemma add_below:
  fixes n m k :: u32
  assumes "\<not> m - k \<le> n" "k \<le> m"
  shows "n < n + k \<or> k = 0" "n + k \<le> m"
proof -
  have less: "unat n < unat m - unat k"
    using assms by (simp add: not_le word_less_nat_alt unat_sub)
  moreover have "unat m < 2 ^ 32" using unsigned_less [of m] by simp
  ultimately have "unat n + unat k < 2 ^ 32" by simp
  then have sum: "unat (n + k) = unat n + unat k" by (simp add: unat_word_ariths)
  show "n < n + k \<or> k = 0" using sum by (auto simp: word_less_nat_alt unat_gt_0)
  show "n + k \<le> m" using less sum by (simp add: word_le_nat_alt)
qed

lemma GetMaxCounter_large: "100 \<le> GetMaxCounter high" "1 \<le> GetMaxCounter high"
  by (simp_all add: GetMaxCounter_def)

lemma gen_inv_generate:
  assumes "gen_inv high g used" "Generate high g = (x, False, g')"
  shows "gen_inv high g' (insert x used) \<and> x \<notin> used \<and> 1 \<le> x \<and> x < GetMaxCounter high"
proof (cases "m_freedGuids g")
  case Nil
  then have x: "x = m_nextGuid g" "g' = g\<lparr>m_nextGuid := m_nextGuid g + 1\<rparr>"
      "\<not> GetMaxCounter high - 1 \<le> m_nextGuid g"
    using assms(2) by (auto simp: Generate_def)
  then have "m_nextGuid g < m_nextGuid g + 1" "m_nextGuid g + 1 \<le> GetMaxCounter high"
    using add_below [OF x(3) GetMaxCounter_large(2)] by auto
  then show ?thesis using x Nil assms(1) unfolding gen_inv_def
    by (auto intro: order.strict_trans order.trans less_imp_le)
next
  case (Cons y ys)
  then show ?thesis using assms unfolding gen_inv_def by (auto simp: Generate_def)
qed

lemma gen_inv_range:
  assumes "gen_inv high g used" "GenerateRange high g = ((lo, hi), False, g')"
  shows "gen_inv high g' (used \<union> {lo..<hi}) \<and> {lo..<hi} \<inter> used = {}"
proof -
  have x: "lo = m_nextGuid g" "hi = m_nextGuid g + 100" "g' = g\<lparr>m_nextGuid := hi\<rparr>"
      "\<not> GetMaxCounter high - 100 \<le> m_nextGuid g"
    using assms(2) by (auto simp: GenerateRange_def)
  then have "lo < hi" "hi \<le> GetMaxCounter high"
    using add_below [OF x(4) GetMaxCounter_large(1)] by auto
  moreover have "\<forall>y \<in> used \<union> set (m_freedGuids g). \<not> lo \<le> y"
    using assms(1) x(1) by (auto simp: gen_inv_def not_le)
  ultimately show ?thesis using x assms(1) unfolding gen_inv_def
    by (auto intro: order.strict_trans order.trans less_imp_le)
qed

lemma gen_reach_inv: "gen_reach high g used \<Longrightarrow> gen_inv high g used"
proof (induction rule: gen_reach.induct)
  case (gen_start start used)
  then show ?case by (simp add: gen_inv_def ObjectGuidGenerator_def)
next
  case (gen_generate g used x g')
  then show ?case using gen_inv_generate by blast
next
  case (gen_free g used x)
  then show ?case unfolding gen_inv_def by (auto simp: FreeGuid_def)
next
  case (gen_range g used lo hi g')
  then show ?case using gen_inv_range by blast
qed

text \<open>C30: in every history of a guid counter (loaded below its start value, handing out single
  guids and ranges, taking freed guids back), as long as no overflow is reported a generated guid
  is not in use, is not 0 and fits the counter field of its type, and a generated range is free.\<close>

theorem Generate_fresh:
  assumes "gen_reach high g used"
  shows "(Generate high g = (x, False, g') \<longrightarrow> x \<notin> used \<and> x \<noteq> 0 \<and> x < GetMaxCounter high) \<and>
    (GenerateRange high g = ((lo, hi), False, g'') \<longrightarrow> {lo..<hi} \<inter> used = {})"
proof -
  have inv: "gen_inv high g used" using assms by (rule gen_reach_inv)
  have "x \<notin> used \<and> x \<noteq> 0 \<and> x < GetMaxCounter high" if "Generate high g = (x, False, g')"
    using gen_inv_generate [OF inv that] by auto
  moreover have "{lo..<hi} \<inter> used = {}" if "GenerateRange high g = ((lo, hi), False, g'')"
    using gen_inv_range [OF inv that] by blast
  ultimately show ?thesis by blast
qed

theorem Generate_fresh_witness:
  "Generate 0x4000 (ObjectGuidGenerator 5) = (5, False, ObjectGuidGenerator 6) \<and> (5 :: u32) \<notin> {1, 4}"
proof -
  have "gen_reach 0x4000 (ObjectGuidGenerator 5) {1, 4}"
    by (rule gen_reach.gen_start) (simp_all add: GetMaxCounter_def)
  moreover have "Generate 0x4000 (ObjectGuidGenerator 5) = (5, False, ObjectGuidGenerator 6)"
    by (simp add: Generate_def ObjectGuidGenerator_def GetMaxCounter_def HasEntryHigh_def HIGHGUID_defs)
  ultimately show ?thesis using Generate_fresh by blast
qed

end
