(* ===== verification/Inventory.thy ===== *)
theory Inventory
  imports Object_Guid
begin

text \<open>
  Items and the inventory of a player: \<^verbatim>\<open>src/game/Objects/Item.h\<close>, \<^verbatim>\<open>Item.cpp\<close>, \<^verbatim>\<open>Bag.cpp\<close>,
  \<^verbatim>\<open>ItemPrototype.h\<close> and the storage part of \<^verbatim>\<open>Player.cpp\<close>. Items are objects in a store,
  addressed by pointers; the 118 slots of the player and the 36 slots of a bag hold pointers.
  \<^verbatim>\<open>delete\<close> puts the address on a list of freed addresses. The update fields that only mirror
  the slots for the client are not kept; calls into subsystems outside this model (quests,
  enchantment timers, auras, the client) are recorded in order as events.

  A prototype is looked up by the entry of an item; items are only created and loaded with an
  entry that has one, and the accessor that the code dereferences without a check falls back to an empty
  prototype.
\<close>

section \<open>Prototypes and the world\<close>

record item_proto =
  ip_ItemId :: u32
  ip_Class :: u32
  ip_SubClass :: u32
  ip_Name1 :: string
  ip_Quality :: u32
  ip_Flags :: u32
  ip_InventoryType :: u32
  ip_MaxCount :: u32
  ip_Stackable :: u32
  ip_ContainerSlots :: u32
  ip_SpellCharges :: "u32 list"
  ip_Bonding :: u32
  ip_RandomProperty :: u32
  ip_ItemSet :: u32
  ip_MaxDurability :: u32
  ip_Duration :: u32
  ip_BagFamily :: u32
  ip_ExtraFlags :: u32

definition no_proto :: item_proto where
  "no_proto = \<lparr>ip_ItemId = 0, ip_Class = 0, ip_SubClass = 0, ip_Name1 = [], ip_Quality = 0,
     ip_Flags = 0, ip_InventoryType = 0, ip_MaxCount = 0, ip_Stackable = 0, ip_ContainerSlots = 0,
     ip_SpellCharges = replicate 5 0, ip_Bonding = 0, ip_RandomProperty = 0, ip_ItemSet = 0,
     ip_MaxDurability = 0, ip_Duration = 0, ip_BagFamily = 0, ip_ExtraFlags = 0\<rparr>"

definition GetMaxStackSize :: "item_proto \<Rightarrow> u32" where
  "GetMaxStackSize p = ip_Stackable p"

definition IsConjuredConsumable :: "item_proto \<Rightarrow> bool" where
  "IsConjuredConsumable p = (ip_Class p = 0 \<and> ip_Flags p AND 0x00000002 \<noteq> 0)"

record random_property =
  rp_ID :: u32
  rp_enchant_id :: "u32 list"
  rp_nameSuffix :: string

text \<open>
  What the server loaded from its databases, the clock and the hooks: the prototype and random
  property stores, the roll of \<^verbatim>\<open>GetItemEnchantMod\<close>, the amount the registered money hooks leave,
  the names of the players, \<^verbatim>\<open>time(nullptr)\<close> with \<^verbatim>\<open>localtime\<close> and the number of guild ranks.
\<close>

record world =
  w_proto :: "u32 \<Rightarrow> item_proto option"
  w_randprop :: "u32 \<Rightarrow> random_property option"
  w_enchant_mod :: "u32 \<Rightarrow> u32"
  w_money_hook :: "u32 \<Rightarrow> u32"
  w_player_name :: "u32 \<Rightarrow> string option"
  w_now :: int
  w_wday :: int
  w_hour :: int
  w_min :: int
  w_sec :: int
  w_ranks :: nat

section \<open>Items\<close>

type_synonym ptr = nat

datatype ItemUpdateState = ITEM_UNCHANGED | ITEM_CHANGED | ITEM_NEW | ITEM_REMOVED | ITEM_STASHED

datatype ItemLootUpdateState =
    ITEM_LOOT_NONE | ITEM_LOOT_TEMPORARY | ITEM_LOOT_UNCHANGED | ITEM_LOOT_CHANGED
  | ITEM_LOOT_NEW | ITEM_LOOT_REMOVED

text \<open>The results that storing items can have.\<close>

datatype InventoryResult =
    EQUIP_ERR_OK | EQUIP_ERR_ITEM_DOESNT_GO_TO_SLOT | EQUIP_ERR_NONEMPTY_BAG_OVER_OTHER_BAG
  | EQUIP_ERR_ITEM_DOESNT_GO_INTO_BAG | EQUIP_ERR_CANT_CARRY_MORE_OF_THIS
  | EQUIP_ERR_ITEM_CANT_STACK | EQUIP_ERR_ITEMS_CANT_BE_SWAPPED | EQUIP_ERR_ITEM_NOT_FOUND
  | EQUIP_ERR_CAN_ONLY_DO_WITH_EMPTY_BAGS | EQUIP_ERR_DONT_OWN_THAT_ITEM
  | EQUIP_ERR_ALREADY_LOOTED | EQUIP_ERR_INVENTORY_FULL

abbreviation ITEM_DYNFLAG_BINDED :: u32 where "ITEM_DYNFLAG_BINDED \<equiv> 0x00000001"
abbreviation ITEM_DYNFLAG_WRAPPED :: u32 where "ITEM_DYNFLAG_WRAPPED \<equiv> 0x00000008"
abbreviation ITEM_DYNFLAG_UNK6 :: u32 where "ITEM_DYNFLAG_UNK6 \<equiv> 0x00000040"
abbreviation ITEM_DYNFLAG_UNK13 :: u32 where "ITEM_DYNFLAG_UNK13 \<equiv> 0x00002000"
abbreviation ITEM_DYNFLAG_BOA :: u32 where "ITEM_DYNFLAG_BOA \<equiv> 0x00040000"
abbreviation INVTYPE_BAG :: u32 where "INVTYPE_BAG \<equiv> 18"
abbreviation ITEM_CLASS_CONTAINER :: u32 where "ITEM_CLASS_CONTAINER \<equiv> 1"
abbreviation ITEM_CLASS_QUIVER :: u32 where "ITEM_CLASS_QUIVER \<equiv> 11"
abbreviation BAG_FAMILY_KEYS :: u32 where "BAG_FAMILY_KEYS \<equiv> 9"
abbreviation BIND_WHEN_PICKED_UP :: u32 where "BIND_WHEN_PICKED_UP \<equiv> 1"
abbreviation BIND_WHEN_EQUIPPED :: u32 where "BIND_WHEN_EQUIPPED \<equiv> 2"
abbreviation BIND_QUEST_ITEM :: u32 where "BIND_QUEST_ITEM \<equiv> 4"
abbreviation BIND_ACCOUNT :: u32 where "BIND_ACCOUNT \<equiv> 6"
abbreviation MAX_BAG_SIZE :: nat where "MAX_BAG_SIZE \<equiv> 36"
abbreviation MAX_ITEM_PROTO_SPELLS :: nat where "MAX_ITEM_PROTO_SPELLS \<equiv> 5"
abbreviation MAX_ENCHANTMENT_SLOT :: nat where "MAX_ENCHANTMENT_SLOT \<equiv> 7"
abbreviation MAX_ENCHANTMENT_OFFSET :: nat where "MAX_ENCHANTMENT_OFFSET \<equiv> 3"

text \<open>\<open>it_enchants\<close> holds the 21 values id, duration, charges of the seven enchantment slots.\<close>

record item =
  it_entry :: u32
  it_lowguid :: u32
  it_owner :: guid
  it_contained :: guid
  it_creator :: guid
  it_giftcreator :: guid
  it_count :: u32
  it_duration :: u32
  it_charges :: "u32 list"
  it_flags :: u32
  it_enchants :: "u32 list"
  it_randomProp :: u32
  it_text :: u32
  it_durability :: u32
  it_maxdurability :: u32
  it_transmog :: u32
  it_generatedLoot :: bool
  it_slot :: u8
  it_container :: "ptr option"
  it_uState :: ItemUpdateState
  it_queuePos :: u16
  it_in_trade :: bool
  it_loot :: bool
  it_lootState :: ItemLootUpdateState
  it_tradeUntil :: int
  it_bagSize :: u32
  it_bagslot :: "ptr option list"

definition new_item :: item where
  "new_item = \<lparr>it_entry = 0, it_lowguid = 0, it_owner = 0, it_contained = 0, it_creator = 0,
     it_giftcreator = 0, it_count = 0, it_duration = 0, it_charges = replicate 5 0, it_flags = 0,
     it_enchants = replicate 21 0, it_randomProp = 0, it_text = 0, it_durability = 0,
     it_maxdurability = 0, it_transmog = 0, it_generatedLoot = False, it_slot = 0,
     it_container = None, it_uState = ITEM_NEW, it_queuePos = - 1, it_in_trade = False,
     it_loot = False, it_lootState = ITEM_LOOT_NONE, it_tradeUntil = 0, it_bagSize = 0,
     it_bagslot = replicate 36 None\<rparr>"

definition apply_mod_flag :: "u32 \<Rightarrow> bool \<Rightarrow> u32 \<Rightarrow> u32" where
  "apply_mod_flag flag app v = (if app then v OR flag else v AND NOT flag)"

definition GetProto :: "world \<Rightarrow> item \<Rightarrow> item_proto" where
  "GetProto w it = (case w_proto w (it_entry it) of Some p \<Rightarrow> p | None \<Rightarrow> no_proto)"

definition IsSoulBound :: "item \<Rightarrow> bool" where
  "IsSoulBound it =
     (it_flags it AND ITEM_DYNFLAG_BINDED \<noteq> 0 \<or> it_flags it AND ITEM_DYNFLAG_BOA \<noteq> 0)"

definition SetBinding :: "bool \<Rightarrow> item \<Rightarrow> item" where
  "SetBinding val it = it\<lparr>it_flags := apply_mod_flag ITEM_DYNFLAG_BINDED val (it_flags it)\<rparr>"

definition IsBag :: "world \<Rightarrow> item \<Rightarrow> bool" where
  "IsBag w it = (ip_InventoryType (GetProto w it) = INVTYPE_BAG)"

definition HasGeneratedLoot :: "item \<Rightarrow> bool" where
  "HasGeneratedLoot it =
     (it_loot it \<and> it_lootState it \<noteq> ITEM_LOOT_NONE \<and> it_lootState it \<noteq> ITEM_LOOT_REMOVED)"

definition HasTemporaryLoot :: "item \<Rightarrow> bool" where
  "HasTemporaryLoot it = (it_loot it \<and> it_lootState it = ITEM_LOOT_TEMPORARY)"

definition IsInUpdateQueue :: "item \<Rightarrow> bool" where
  "IsInUpdateQueue it = (it_queuePos it \<noteq> - 1)"

definition CanBeTradedEvenIfSoulBound :: "world \<Rightarrow> item \<Rightarrow> bool" where
  "CanBeTradedEvenIfSoulBound w it = (it_tradeUntil it > w_now w)"

definition IsBindedNotWith :: "world \<Rightarrow> guid \<Rightarrow> item \<Rightarrow> bool" where
  "IsBindedNotWith w player_guid it =
     (if it_owner it = player_guid then False
      else if HasGeneratedLoot it then True
      else if \<not> IsSoulBound it \<or> CanBeTradedEvenIfSoulBound w it then False
      else True)"

definition CanBeMergedPartlyWith :: "item \<Rightarrow> item_proto \<Rightarrow> InventoryResult" where
  "CanBeMergedPartlyWith it proto =
     (if it_entry it \<noteq> ip_ItemId proto then EQUIP_ERR_ITEM_CANT_STACK
      else if it_count it \<ge> GetMaxStackSize proto then EQUIP_ERR_ITEM_CANT_STACK
      else if HasGeneratedLoot it then EQUIP_ERR_ALREADY_LOOTED
      else EQUIP_ERR_OK)"

definition ItemCanGoIntoBag :: "item_proto \<Rightarrow> item_proto \<Rightarrow> bool" where
  "ItemCanGoIntoBag pProto pBagProto =
     (if ip_Class pBagProto = ITEM_CLASS_CONTAINER
      then (if ip_SubClass pBagProto = 0 then True
            else if ip_SubClass pBagProto = 1 then ip_BagFamily pProto = 3
            else if ip_SubClass pBagProto = 2 then ip_BagFamily pProto = 6
            else if ip_SubClass pBagProto = 3 then ip_BagFamily pProto = 7
            else if ip_SubClass pBagProto = 4 then ip_BagFamily pProto = 8
            else if ip_SubClass pBagProto = 6 then ip_BagFamily pProto = 13
            else if ip_SubClass pBagProto = 7 then ip_BagFamily pProto = 12
            else if ip_SubClass pBagProto = 8 then ip_BagFamily pProto = 10
            else if ip_SubClass pBagProto = 9 then ip_BagFamily pProto = 11
            else False)
      else if ip_Class pBagProto = ITEM_CLASS_QUIVER
      then (if ip_SubClass pBagProto = 2 then ip_BagFamily pProto = 1
            else if ip_SubClass pBagProto = 3 then ip_BagFamily pProto = 2
            else False)
      else False)"

text \<open>\<^verbatim>\<open>Bag\<close>: slots by number.\<close>

definition Bag_GetItemByPos :: "item \<Rightarrow> u8 \<Rightarrow> ptr option" where
  "Bag_GetItemByPos bag slot =
     (if ucast slot < it_bagSize bag then it_bagslot bag ! unat slot else None)"

definition Bag_IsEmpty :: "item \<Rightarrow> bool" where
  "Bag_IsEmpty bag = (\<forall>i < unat (it_bagSize bag). it_bagslot bag ! i = None)"

definition Bag_GetFreeSlots :: "item \<Rightarrow> u32" where
  "Bag_GetFreeSlots bag =
     of_nat (length (filter (\<lambda>i. it_bagslot bag ! i = None) [0..<unat (it_bagSize bag)]))"

section \<open>The player\<close>

datatype player_event =
    ItemAddedQuestCheck u32 u32
  | ItemRemovedQuestCheck u32 u32
  | AddEnchantmentDurations ptr
  | RemoveEnchantmentDurations ptr
  | AddItemDurations ptr
  | RemoveItemDurations ptr
  | AddToWorld ptr
  | RemoveFromWorld ptr
  | SendCreateUpdateToPlayer ptr
  | DestroyForPlayer ptr
  | DeleteGift u32
  | RemoveItemsSetItem u32
  | RemoveItemMods ptr u8
  | RemoveItemDependentAurasAndCasts ptr
  | ClearVisibleItemSlot u8
  | DeletePetition u32
  | AnticheatAction string
  | MoneyChanged u32
  | ResetExtraAttacks

record player =
  pl_guid :: guid
  pl_name :: string
  pl_rank :: u32
  pl_money :: u32
  pl_inWorld :: bool
  pl_items :: "ptr option list"
  pl_queue :: "ptr option list"
  pl_queueBlocked :: bool
  pl_heap :: "ptr \<Rightarrow> item"
  pl_freed :: "ptr list"
  pl_next :: ptr
  pl_itemGuids :: guid_generator
  pl_events :: "player_event list"

abbreviation INVENTORY_SLOT_BAG_0 :: u8 where "INVENTORY_SLOT_BAG_0 \<equiv> 255"
abbreviation NULL_BAG :: u8 where "NULL_BAG \<equiv> 0"
abbreviation NULL_SLOT :: u8 where "NULL_SLOT \<equiv> 255"
abbreviation EQUIPMENT_SLOT_END :: u8 where "EQUIPMENT_SLOT_END \<equiv> 19"
abbreviation INVENTORY_SLOT_BAG_START :: u8 where "INVENTORY_SLOT_BAG_START \<equiv> 19"
abbreviation INVENTORY_SLOT_BAG_END :: u8 where "INVENTORY_SLOT_BAG_END \<equiv> 23"
abbreviation INVENTORY_SLOT_ITEM_START :: u8 where "INVENTORY_SLOT_ITEM_START \<equiv> 23"
abbreviation INVENTORY_SLOT_ITEM_END :: u8 where "INVENTORY_SLOT_ITEM_END \<equiv> 39"
abbreviation BANK_SLOT_ITEM_START :: u8 where "BANK_SLOT_ITEM_START \<equiv> 39"
abbreviation BANK_SLOT_ITEM_END :: u8 where "BANK_SLOT_ITEM_END \<equiv> 63"
abbreviation BANK_SLOT_BAG_START :: u8 where "BANK_SLOT_BAG_START \<equiv> 63"
abbreviation BANK_SLOT_BAG_END :: u8 where "BANK_SLOT_BAG_END \<equiv> 69"
abbreviation BUYBACK_SLOT_START :: u8 where "BUYBACK_SLOT_START \<equiv> 69"
abbreviation BUYBACK_SLOT_END :: u8 where "BUYBACK_SLOT_END \<equiv> 81"
abbreviation KEYRING_SLOT_START :: u8 where "KEYRING_SLOT_START \<equiv> 81"
abbreviation KEYRING_SLOT_END :: u8 where "KEYRING_SLOT_END \<equiv> 113"
abbreviation PLAYER_SLOT_END :: u8 where "PLAYER_SLOT_END \<equiv> 118"
abbreviation MAX_MONEY_AMOUNT :: u32 where "MAX_MONEY_AMOUNT \<equiv> 0x7FFFFFFE"

definition upd_item :: "ptr \<Rightarrow> (item \<Rightarrow> item) \<Rightarrow> player \<Rightarrow> player" where
  "upd_item p f pl = pl\<lparr>pl_heap := (pl_heap pl)(p := f (pl_heap pl p))\<rparr>"

definition event :: "player_event \<Rightarrow> player \<Rightarrow> player" where
  "event e pl = pl\<lparr>pl_events := pl_events pl @ [e]\<rparr>"

definition live :: "player \<Rightarrow> ptr \<Rightarrow> bool" where
  "live pl p = (p < pl_next pl \<and> p \<notin> set (pl_freed pl))"

text \<open>
  \<^verbatim>\<open>SetMoney\<close> and \<^verbatim>\<open>ModifyMoney\<close>: the comparisons are unsigned, the sum wraps at 32 bits, and
  \<open>MAX_MONEY_AMOUNT - amount\<close> is computed on unsigned values.
\<close>

definition SetMoney :: "u32 \<Rightarrow> player \<Rightarrow> player" where
  "SetMoney v pl = event (MoneyChanged v) (pl\<lparr>pl_money := v\<rparr>)"

definition ModifyMoney :: "world \<Rightarrow> u32 \<Rightarrow> player \<Rightarrow> player" where
  "ModifyMoney w d pl =
     (let amount = w_money_hook w d
      in if amount <s 0
         then SetMoney (if pl_money pl > - amount then pl_money pl + amount else 0) pl
         else SetMoney (if pl_money pl < MAX_MONEY_AMOUNT - amount
                        then pl_money pl + amount else MAX_MONEY_AMOUNT) pl)"

section \<open>Looking items up\<close>

definition GetItemByPos :: "player \<Rightarrow> u8 \<Rightarrow> u8 \<Rightarrow> ptr option" where
  "GetItemByPos pl bag slot =
     (if bag = INVENTORY_SLOT_BAG_0 \<and>
         (slot < BANK_SLOT_BAG_END \<or> (slot \<ge> KEYRING_SLOT_START \<and> slot < KEYRING_SLOT_END))
      then pl_items pl ! unat slot
      else if (bag \<ge> INVENTORY_SLOT_BAG_START \<and> bag < INVENTORY_SLOT_BAG_END) \<or>
              (bag \<ge> BANK_SLOT_BAG_START \<and> bag < BANK_SLOT_BAG_END)
      then (case pl_items pl ! unat bag of
              None \<Rightarrow> None
            | Some pBag \<Rightarrow> Bag_GetItemByPos (pl_heap pl pBag) slot)
      else None)"

definition IsBagPos :: "u8 \<Rightarrow> u8 \<Rightarrow> bool" where
  "IsBagPos bag slot =
     (bag = INVENTORY_SLOT_BAG_0 \<and>
      ((slot \<ge> INVENTORY_SLOT_BAG_START \<and> slot < INVENTORY_SLOT_BAG_END) \<or>
       (slot \<ge> BANK_SLOT_BAG_START \<and> slot < BANK_SLOT_BAG_END)))"

definition IsEquipmentPos :: "u8 \<Rightarrow> u8 \<Rightarrow> bool" where
  "IsEquipmentPos bag slot =
     (bag = INVENTORY_SLOT_BAG_0 \<and>
      (slot < EQUIPMENT_SLOT_END \<or>
       (slot \<ge> INVENTORY_SLOT_BAG_START \<and> slot < INVENTORY_SLOT_BAG_END)))"

definition IsBankPos :: "u8 \<Rightarrow> u8 \<Rightarrow> bool" where
  "IsBankPos bag slot =
     ((bag = INVENTORY_SLOT_BAG_0 \<and>
       ((slot \<ge> BANK_SLOT_ITEM_START \<and> slot < BANK_SLOT_ITEM_END) \<or>
        (slot \<ge> BANK_SLOT_BAG_START \<and> slot < BANK_SLOT_BAG_END))) \<or>
      (bag \<ge> BANK_SLOT_BAG_START \<and> bag < BANK_SLOT_BAG_END))"

definition IsInventoryPos :: "u8 \<Rightarrow> u8 \<Rightarrow> bool" where
  "IsInventoryPos bag slot =
     (bag = INVENTORY_SLOT_BAG_0 \<and> slot = NULL_SLOT \<or>
      bag = INVENTORY_SLOT_BAG_0 \<and> slot \<ge> INVENTORY_SLOT_ITEM_START \<and> slot < INVENTORY_SLOT_ITEM_END \<or>
      bag \<ge> INVENTORY_SLOT_BAG_START \<and> bag < INVENTORY_SLOT_BAG_END \<or>
      bag = INVENTORY_SLOT_BAG_0 \<and> slot \<ge> KEYRING_SLOT_START \<and> slot < KEYRING_SLOT_END)"

definition IsValidPos :: "player \<Rightarrow> u8 \<Rightarrow> u8 \<Rightarrow> bool \<Rightarrow> bool" where
  "IsValidPos pl bag slot explicit_pos =
     (if bag = NULL_BAG \<and> \<not> explicit_pos then True
      else if bag = INVENTORY_SLOT_BAG_0
      then (slot = NULL_SLOT \<and> \<not> explicit_pos) \<or> slot < EQUIPMENT_SLOT_END \<or>
           (slot \<ge> INVENTORY_SLOT_BAG_START \<and> slot < INVENTORY_SLOT_BAG_END) \<or>
           (slot \<ge> INVENTORY_SLOT_ITEM_START \<and> slot < INVENTORY_SLOT_ITEM_END) \<or>
           (slot \<ge> KEYRING_SLOT_START \<and> slot < KEYRING_SLOT_END) \<or>
           (slot \<ge> BANK_SLOT_ITEM_START \<and> slot < BANK_SLOT_ITEM_END) \<or>
           (slot \<ge> BANK_SLOT_BAG_START \<and> slot < BANK_SLOT_BAG_END)
      else if (bag \<ge> INVENTORY_SLOT_BAG_START \<and> bag < INVENTORY_SLOT_BAG_END) \<or>
              (bag \<ge> BANK_SLOT_BAG_START \<and> bag < BANK_SLOT_BAG_END)
      then (case GetItemByPos pl INVENTORY_SLOT_BAG_0 bag of
              None \<Rightarrow> False
            | Some pBag \<Rightarrow> (slot = NULL_SLOT \<and> \<not> explicit_pos) \<or>
                           ucast slot < it_bagSize (pl_heap pl pBag))
      else False)"

text \<open>The pointers \<^verbatim>\<open>ApplyForAllItems\<close> visits, in its order.\<close>

definition slot_items :: "player \<Rightarrow> nat \<Rightarrow> nat \<Rightarrow> ptr list" where
  "slot_items pl i j =
     List.map_filter (\<lambda>k. GetItemByPos pl INVENTORY_SLOT_BAG_0 (of_nat k)) [i..<j]"

definition bag_items :: "item \<Rightarrow> ptr list" where
  "bag_items bag = List.map_filter (\<lambda>i. it_bagslot bag ! i) [0..<unat (it_bagSize bag)]"

definition all_items :: "player \<Rightarrow> bool \<Rightarrow> ptr list" where
  "all_items pl inBank =
     slot_items pl 0 39 @ slot_items pl 81 113 @
     concat (map (\<lambda>b. bag_items (pl_heap pl b)) (slot_items pl 19 23)) @
     (if inBank
      then slot_items pl 39 69 @ concat (map (\<lambda>b. bag_items (pl_heap pl b)) (slot_items pl 63 69))
      else [])"

definition GetItemCount :: "player \<Rightarrow> u32 \<Rightarrow> bool \<Rightarrow> ptr option \<Rightarrow> u32" where
  "GetItemCount pl entry inBankAlso skipItem =
     sum_list (map (\<lambda>p. if Some p \<noteq> skipItem \<and> it_entry (pl_heap pl p) = entry
                        then it_count (pl_heap pl p) else 0) (all_items pl inBankAlso))"

definition GetBagSlot :: "player \<Rightarrow> item \<Rightarrow> u8" where
  "GetBagSlot pl it =
     (case it_container it of Some c \<Rightarrow> it_slot (pl_heap pl c) | None \<Rightarrow> INVENTORY_SLOT_BAG_0)"

definition IsEquipped :: "item \<Rightarrow> bool" where
  "IsEquipped it = (it_container it = None \<and> it_slot it < EQUIPMENT_SLOT_END)"

end
