(* ===== verification/Item_Storage.thy ===== *)
theory Item_Storage
  imports Inventory
begin

text \<open>
  Storing and destroying items: the update queue of \<^verbatim>\<open>Item.cpp\<close>, creation and cloning of items,
  the search of \<^verbatim>\<open>Player::_CanStoreItem\<close> for places that can take a number of items, and
  \<^verbatim>\<open>StoreNewItem\<close>, \<^verbatim>\<open>StoreItem\<close>, \<^verbatim>\<open>_StoreItem\<close>, \<^verbatim>\<open>DestroyItem\<close> of \<^verbatim>\<open>src/game/Objects/Player.cpp\<close>.
\<close>

section \<open>The update queue\<close>

text \<open>
  \<open>owner_known\<close> is whether \<^verbatim>\<open>GetOwner\<close> finds the player (the only one of this model) when no
  player was passed.
\<close>

definition owner_known :: "bool \<Rightarrow> item \<Rightarrow> player \<Rightarrow> bool" where
  "owner_known forplayer it pl = (forplayer \<or> (pl_inWorld pl \<and> it_owner it = pl_guid pl))"

definition AddToUpdateQueueOf :: "ptr \<Rightarrow> bool \<Rightarrow> player \<Rightarrow> player" where
  "AddToUpdateQueueOf p forplayer pl =
     (let it = pl_heap pl p
      in if IsInUpdateQueue it then pl
         else if \<not> owner_known forplayer it pl then pl
         else if pl_guid pl \<noteq> it_owner it then pl
         else if pl_queueBlocked pl then pl
         else upd_item p (\<lambda>it. it\<lparr>it_queuePos := of_nat (length (pl_queue pl))\<rparr>)
                (pl\<lparr>pl_queue := pl_queue pl @ [Some p]\<rparr>))"

definition RemoveFromUpdateQueueOf :: "ptr \<Rightarrow> bool \<Rightarrow> player \<Rightarrow> player" where
  "RemoveFromUpdateQueueOf p forplayer pl =
     (let it = pl_heap pl p
      in if \<not> IsInUpdateQueue it then pl
         else if \<not> owner_known forplayer it pl then pl
         else if pl_guid pl \<noteq> it_owner it then pl
         else if pl_queueBlocked pl then pl
         else upd_item p (\<lambda>it. it\<lparr>it_queuePos := - 1\<rparr>)
                (pl\<lparr>pl_queue := (pl_queue pl)[unat (it_queuePos it) := None]\<rparr>))"

definition delete_item :: "ptr \<Rightarrow> player \<Rightarrow> player" where
  "delete_item p pl = pl\<lparr>pl_freed := p # pl_freed pl\<rparr>"

definition SetState :: "ptr \<Rightarrow> ItemUpdateState \<Rightarrow> bool \<Rightarrow> player \<Rightarrow> player" where
  "SetState p state forplayer pl =
     (if it_uState (pl_heap pl p) = ITEM_NEW \<and> state = ITEM_REMOVED
      then delete_item p (RemoveFromUpdateQueueOf p forplayer pl)
      else if state \<noteq> ITEM_UNCHANGED
      then AddToUpdateQueueOf p forplayer
             (upd_item p (\<lambda>it. it\<lparr>it_uState := (if it_uState it \<noteq> ITEM_NEW then state else it_uState it)\<rparr>) pl)
      else upd_item p (\<lambda>it. it\<lparr>it_queuePos := - 1, it_uState := ITEM_UNCHANGED\<rparr>) pl)"

section \<open>Creating items\<close>

text \<open>\<^verbatim>\<open>NewItemOrBag\<close> with the \<^verbatim>\<open>Create\<close> of the class it chose; \<open>None\<close> when \<^verbatim>\<open>Create\<close> fails.\<close>

definition Item_Create :: "item_proto \<Rightarrow> u32 \<Rightarrow> u32 \<Rightarrow> guid \<Rightarrow> item" where
  "Item_Create proto lowguid itemid owner =
     new_item\<lparr>it_lowguid := lowguid, it_entry := itemid, it_owner := owner, it_contained := 0,
       it_flags := (let f1 = apply_mod_flag ITEM_DYNFLAG_UNK6 (ip_Flags proto AND 0x40 \<noteq> 0) 0;
                        f2 = apply_mod_flag ITEM_DYNFLAG_UNK13 (ip_Flags proto AND 0x2000 \<noteq> 0) f1
                    in if ip_Bonding proto = BIND_ACCOUNT then apply_mod_flag ITEM_DYNFLAG_BOA True f2 else f2),
       it_count := 1, it_maxdurability := ip_MaxDurability proto,
       it_durability := (if ip_ExtraFlags proto AND 0x08 \<noteq> 0 then 0 else ip_MaxDurability proto),
       it_charges := ip_SpellCharges proto, it_duration := ip_Duration proto\<rparr>"

definition Bag_Create :: "item_proto \<Rightarrow> u32 \<Rightarrow> u32 \<Rightarrow> guid \<Rightarrow> item option" where
  "Bag_Create proto lowguid itemid owner =
     (if ip_ContainerSlots proto > 36 then None
      else Some (new_item\<lparr>it_lowguid := lowguid, it_entry := itemid, it_owner := owner,
             it_contained := owner, it_maxdurability := ip_MaxDurability proto,
             it_durability := ip_MaxDurability proto, it_count := 1,
             it_bagSize := ip_ContainerSlots proto\<rparr>))"

definition CreateItem :: "world \<Rightarrow> u32 \<Rightarrow> u32 \<Rightarrow> player \<Rightarrow> ptr option \<times> player" where
  "CreateItem w entry cnt pl =
     (if cnt < 1 then (None, pl)
      else case w_proto w entry of
        None \<Rightarrow> (None, pl)
      | Some proto \<Rightarrow>
          (let cnt' = (if cnt > GetMaxStackSize proto then GetMaxStackSize proto else cnt);
               (lowGuid, stop, gen) = Generate HIGHGUID_ITEM (pl_itemGuids pl);
               p = pl_next pl;
               pl' = pl\<lparr>pl_itemGuids := gen, pl_next := Suc p\<rparr>;
               created = (if ip_InventoryType proto = INVTYPE_BAG
                          then Bag_Create proto lowGuid entry (pl_guid pl)
                          else Some (Item_Create proto lowGuid entry (pl_guid pl)))
           in case created of
                None \<Rightarrow> (None, delete_item p pl')
              | Some it \<Rightarrow> (Some p, pl'\<lparr>pl_heap := (pl_heap pl)(p := it\<lparr>it_count := cnt'\<rparr>)\<rparr>)))"

definition GenerateItemRandomPropertyId :: "world \<Rightarrow> u32 \<Rightarrow> u32" where
  "GenerateItemRandomPropertyId w entry =
     (case w_proto w entry of
        None \<Rightarrow> 0
      | Some proto \<Rightarrow>
          (if ip_RandomProperty proto \<noteq> 0
           then (case w_randprop w (w_enchant_mod w (ip_RandomProperty proto)) of
                   None \<Rightarrow> 0 | Some rp \<Rightarrow> rp_ID rp)
           else 0))"

definition enchant_triple :: "nat \<Rightarrow> item \<Rightarrow> u32 list" where
  "enchant_triple slot it = take 3 (drop (3 * slot) (it_enchants it))"

definition SetEnchantment :: "ptr \<Rightarrow> nat \<Rightarrow> u32 \<Rightarrow> u32 \<Rightarrow> u32 \<Rightarrow> player \<Rightarrow> player" where
  "SetEnchantment p slot eid duration charges pl =
     (if enchant_triple slot (pl_heap pl p) = [eid, duration, charges] then pl
      else SetState p ITEM_CHANGED False
             (upd_item p (\<lambda>it. it\<lparr>it_enchants :=
                (it_enchants it)[3 * slot := eid, 3 * slot + 1 := duration, 3 * slot + 2 := charges]\<rparr>) pl))"

definition SetItemRandomProperties :: "world \<Rightarrow> ptr \<Rightarrow> u32 \<Rightarrow> player \<Rightarrow> player" where
  "SetItemRandomProperties w p randomPropId pl =
     (if randomPropId = 0 then pl
      else if 0 <s randomPropId
      then (case w_randprop w randomPropId of
              None \<Rightarrow> pl
            | Some rp \<Rightarrow>
                (let pl1 = (if it_randomProp (pl_heap pl p) \<noteq> rp_ID rp
                            then SetState p ITEM_CHANGED False
                                   (upd_item p (\<lambda>it. it\<lparr>it_randomProp := rp_ID rp\<rparr>) pl)
                            else pl)
                 in fold (\<lambda>i. SetEnchantment p i (rp_enchant_id rp ! (i - 3)) 0 0) [3, 4, 5] pl1))
      else pl)"

definition CloneItem :: "world \<Rightarrow> ptr \<Rightarrow> u32 \<Rightarrow> player \<Rightarrow> ptr option \<times> player" where
  "CloneItem w src cnt pl =
     (case CreateItem w (it_entry (pl_heap pl src)) cnt pl of
        (None, pl') \<Rightarrow> (None, pl')
      | (Some p, pl') \<Rightarrow>
          (let it0 = pl_heap pl' src;
               pl1 = upd_item p (\<lambda>it. it\<lparr>it_creator := it_creator it0, it_giftcreator := it_giftcreator it0,
                        it_flags := it_flags it0, it_duration := it_duration it0\<rparr>) pl';
               pl2 = SetItemRandomProperties w p (it_randomProp it0) pl1
           in (Some p, upd_item p (\<lambda>it. it\<lparr>it_generatedLoot := it_generatedLoot it0\<rparr>) pl2)))"

section \<open>Searching for places\<close>

type_synonym item_pos = "u16 \<times> u8"

definition mk_pos :: "u8 \<Rightarrow> u8 \<Rightarrow> u16" where
  "mk_pos bag slot = push_bit 8 (ucast bag) OR ucast slot"

definition pos_bag :: "u16 \<Rightarrow> u8" where
  "pos_bag pos = ucast (drop_bit 8 pos)"

definition pos_slot :: "u16 \<Rightarrow> u8" where
  "pos_slot pos = ucast (pos AND 255)"

definition isContainedIn :: "u16 \<Rightarrow> item_pos list \<Rightarrow> bool" where
  "isContainedIn pos dest = (pos \<in> fst ` set dest)"

definition full_bag :: "world \<Rightarrow> player \<Rightarrow> ptr option \<Rightarrow> bool" where
  "full_bag w pl src =
     (case src of None \<Rightarrow> False
      | Some p \<Rightarrow> IsBag w (pl_heap pl p) \<and> \<not> Bag_IsEmpty (pl_heap pl p))"

text \<open>The item that counts as being in a place: the item that is being moved does not.\<close>

definition item_there :: "player \<Rightarrow> ptr option \<Rightarrow> u8 \<Rightarrow> u8 \<Rightarrow> ptr option" where
  "item_there pl src bag slot =
     (let p2 = GetItemByPos pl bag slot in if p2 = src then None else p2)"

definition CanTakeMoreSimilarItems ::
    "world \<Rightarrow> player \<Rightarrow> u32 \<Rightarrow> u32 \<Rightarrow> ptr option \<Rightarrow> u32 \<Rightarrow> InventoryResult \<times> u32" where
  "CanTakeMoreSimilarItems w pl entry cnt src no_space =
     (case w_proto w entry of
        None \<Rightarrow> (EQUIP_ERR_CANT_CARRY_MORE_OF_THIS, cnt)
      | Some proto \<Rightarrow>
          (if ip_MaxCount proto > 0
           then let curcount = GetItemCount pl (ip_ItemId proto) True src
                in if curcount + cnt > ip_MaxCount proto
                   then (EQUIP_ERR_CANT_CARRY_MORE_OF_THIS, cnt + curcount - ip_MaxCount proto)
                   else (EQUIP_ERR_OK, no_space)
           else (EQUIP_ERR_OK, no_space)))"

type_synonym search = "InventoryResult \<times> item_pos list \<times> u32"

definition take_place :: "u16 \<Rightarrow> u32 \<Rightarrow> item_pos list \<Rightarrow> u32 \<Rightarrow> item_pos list \<times> u32" where
  "take_place pos need dest cnt =
     (let need' = (if need > cnt then cnt else need)
      in if isContainedIn pos dest then (dest, cnt)
         else (dest @ [(pos, ucast need')], cnt - need'))"

definition CanStoreItem_InSpecificSlot ::
    "world \<Rightarrow> player \<Rightarrow> u8 \<Rightarrow> u8 \<Rightarrow> item_proto \<Rightarrow> bool \<Rightarrow> ptr option \<Rightarrow> item_pos list \<Rightarrow> u32 \<Rightarrow> search" where
  "CanStoreItem_InSpecificSlot w pl bag slot proto swap src dest cnt =
     (let there = item_there pl src bag slot;
          stored = (\<lambda>need. case take_place (mk_pos bag slot) need dest cnt of (d, c) \<Rightarrow> (EQUIP_ERR_OK, d, c))
      in if full_bag w pl src then (EQUIP_ERR_CAN_ONLY_DO_WITH_EMPTY_BAGS, dest, cnt)
         else if there = None \<or> swap
         then (if bag = INVENTORY_SLOT_BAG_0
               then (if slot \<ge> KEYRING_SLOT_START \<and> slot < KEYRING_SLOT_END \<and> ip_BagFamily proto \<noteq> BAG_FAMILY_KEYS
                     then (EQUIP_ERR_ITEM_DOESNT_GO_INTO_BAG, dest, cnt)
                     else if (slot \<ge> BUYBACK_SLOT_START \<and> slot < BUYBACK_SLOT_END) \<or> slot \<ge> PLAYER_SLOT_END
                     then (EQUIP_ERR_ITEM_DOESNT_GO_INTO_BAG, dest, cnt)
                     else stored (ip_Stackable proto))
               else (case GetItemByPos pl INVENTORY_SLOT_BAG_0 bag of
                       None \<Rightarrow> (EQUIP_ERR_ITEM_DOESNT_GO_INTO_BAG, dest, cnt)
                     | Some pBag \<Rightarrow>
                         (if Some pBag = src then (EQUIP_ERR_ITEM_DOESNT_GO_INTO_BAG, dest, cnt)
                          else if ucast slot \<ge> ip_ContainerSlots (GetProto w (pl_heap pl pBag))
                          then (EQUIP_ERR_ITEM_DOESNT_GO_INTO_BAG, dest, cnt)
                          else if \<not> ItemCanGoIntoBag proto (GetProto w (pl_heap pl pBag))
                          then (EQUIP_ERR_ITEM_DOESNT_GO_INTO_BAG, dest, cnt)
                          else stored (ip_Stackable proto))))
         else (case there of
                 None \<Rightarrow> (EQUIP_ERR_OK, dest, cnt)
               | Some p2 \<Rightarrow>
                   (let res = CanBeMergedPartlyWith (pl_heap pl p2) proto
                    in if res \<noteq> EQUIP_ERR_OK then (res, dest, cnt)
                       else stored (ip_Stackable proto - it_count (pl_heap pl p2)))))"

text \<open>
  The loop over the slots of the backpack, the keyring or one bag. With \<open>merge\<close> it only looks at
  occupied places, without it only at free ones; \<open>skip\<close> is the slot that was handled before.
\<close>

fun store_loop :: "player \<Rightarrow> u8 \<Rightarrow> item_proto \<Rightarrow> bool \<Rightarrow> ptr option \<Rightarrow> (nat \<Rightarrow> bool) \<Rightarrow> nat list \<Rightarrow>
    item_pos list \<Rightarrow> u32 \<Rightarrow> item_pos list \<times> u32" where
  "store_loop pl bag proto merge src skip [] dest cnt = (dest, cnt)"
| "store_loop pl bag proto merge src skip (j # js) dest cnt =
     (if skip j then store_loop pl bag proto merge src skip js dest cnt
      else let there = item_there pl src bag (of_nat j)
      in if (there \<noteq> None) \<noteq> merge then store_loop pl bag proto merge src skip js dest cnt
      else if (case there of Some p2 \<Rightarrow> CanBeMergedPartlyWith (pl_heap pl p2) proto \<noteq> EQUIP_ERR_OK | None \<Rightarrow> False)
      then store_loop pl bag proto merge src skip js dest cnt
      else let need = (case there of Some p2 \<Rightarrow> GetMaxStackSize proto - it_count (pl_heap pl p2)
                       | None \<Rightarrow> GetMaxStackSize proto);
               pos = mk_pos bag (of_nat j);
               (dest', cnt') = take_place pos need dest cnt
      in if \<not> isContainedIn pos dest \<and> cnt' = 0 then (dest', cnt')
         else store_loop pl bag proto merge src skip js dest' cnt')"

definition CanStoreItem_InBag ::
    "world \<Rightarrow> player \<Rightarrow> u8 \<Rightarrow> item_proto \<Rightarrow> bool \<Rightarrow> bool \<Rightarrow> ptr option \<Rightarrow> u8 \<Rightarrow> u8 \<Rightarrow>
     item_pos list \<Rightarrow> u32 \<Rightarrow> search" where
  "CanStoreItem_InBag w pl bag proto merge non_specialized src skip_bag skip_slot dest cnt =
     (if bag = skip_bag then (EQUIP_ERR_ITEM_DOESNT_GO_INTO_BAG, dest, cnt)
      else case GetItemByPos pl INVENTORY_SLOT_BAG_0 bag of
        None \<Rightarrow> (EQUIP_ERR_ITEM_DOESNT_GO_INTO_BAG, dest, cnt)
      | Some pBag \<Rightarrow>
          (let bagProto = GetProto w (pl_heap pl pBag)
           in if Some pBag = src then (EQUIP_ERR_ITEM_DOESNT_GO_INTO_BAG, dest, cnt)
              else if full_bag w pl src then (EQUIP_ERR_CAN_ONLY_DO_WITH_EMPTY_BAGS, dest, cnt)
              else if non_specialized \<noteq> (ip_Class bagProto = ITEM_CLASS_CONTAINER \<and> ip_SubClass bagProto = 0)
              then (EQUIP_ERR_ITEM_DOESNT_GO_INTO_BAG, dest, cnt)
              else if \<not> ItemCanGoIntoBag proto bagProto then (EQUIP_ERR_ITEM_DOESNT_GO_INTO_BAG, dest, cnt)
              else (EQUIP_ERR_OK,
                    store_loop pl bag proto merge src (\<lambda>j. j = unat skip_slot)
                      [0..<unat (it_bagSize (pl_heap pl pBag))] dest cnt)))"

definition CanStoreItem_InInventorySlots ::
    "world \<Rightarrow> player \<Rightarrow> u8 \<Rightarrow> u8 \<Rightarrow> item_proto \<Rightarrow> bool \<Rightarrow> ptr option \<Rightarrow> u8 \<Rightarrow> u8 \<Rightarrow>
     item_pos list \<Rightarrow> u32 \<Rightarrow> search" where
  "CanStoreItem_InInventorySlots w pl slot_begin slot_end proto merge src skip_bag skip_slot dest cnt =
     (if full_bag w pl src then (EQUIP_ERR_CAN_ONLY_DO_WITH_EMPTY_BAGS, dest, cnt)
      else (EQUIP_ERR_OK,
            store_loop pl INVENTORY_SLOT_BAG_0 proto merge src
              (\<lambda>j. INVENTORY_SLOT_BAG_0 = skip_bag \<and> j = unat skip_slot)
              [unat slot_begin..<unat slot_end] dest cnt))"

text \<open>
  The answer of the whole search: the result, the places found and, where the code stores
  one, the number of items without a place.
\<close>

type_synonym store_answer = "InventoryResult \<times> item_pos list \<times> u32 option"

definition search_done :: "u32 \<Rightarrow> item_pos list \<Rightarrow> u32 \<Rightarrow> store_answer" where
  "search_done no_similar dest cnt =
     (if no_similar = 0 then (EQUIP_ERR_OK, dest, None)
      else (EQUIP_ERR_CANT_CARRY_MORE_OF_THIS, dest, Some (cnt + no_similar)))"

text \<open>What follows each search: an error ends the function, so does having placed everything.\<close>

definition searched :: "u32 \<Rightarrow> search \<Rightarrow> (item_pos list \<Rightarrow> u32 \<Rightarrow> store_answer) \<Rightarrow> store_answer" where
  "searched no_similar s k =
     (case s of (res, dest, cnt) \<Rightarrow>
        if res \<noteq> EQUIP_ERR_OK then (res, dest, Some (cnt + no_similar))
        else if cnt = 0 then search_done no_similar dest cnt
        else k dest cnt)"

text \<open>In the loops over the four bags an error moves on to the next bag.\<close>

fun bags_search :: "u32 \<Rightarrow> (u8 \<Rightarrow> item_pos list \<Rightarrow> u32 \<Rightarrow> search) \<Rightarrow> u8 list \<Rightarrow>
    (item_pos list \<Rightarrow> u32 \<Rightarrow> store_answer) \<Rightarrow> item_pos list \<Rightarrow> u32 \<Rightarrow> store_answer" where
  "bags_search no_similar f [] k dest cnt = k dest cnt"
| "bags_search no_similar f (i # is) k dest cnt =
     (case f i dest cnt of (res, dest', cnt') \<Rightarrow>
        if res \<noteq> EQUIP_ERR_OK then bags_search no_similar f is k dest' cnt'
        else if cnt' = 0 then search_done no_similar dest' cnt'
        else bags_search no_similar f is k dest' cnt')"

text \<open>Searching a bag first as a specialised one and, if that fails, as a normal one.\<close>

definition either_bag :: "(bool \<Rightarrow> item_pos list \<Rightarrow> u32 \<Rightarrow> search) \<Rightarrow> item_pos list \<Rightarrow> u32 \<Rightarrow> search" where
  "either_bag f dest cnt =
     (case f False dest cnt of (res, dest', cnt') \<Rightarrow>
        if res \<noteq> EQUIP_ERR_OK then f True dest' cnt' else (res, dest', cnt'))"

abbreviation backpack_bags :: "u8 list" where "backpack_bags \<equiv> [19, 20, 21, 22]"

text \<open>The part of the search after a specific bag was tried or none was asked for.\<close>

definition search_everywhere ::
    "world \<Rightarrow> player \<Rightarrow> u8 \<Rightarrow> u8 \<Rightarrow> item_proto \<Rightarrow> ptr option \<Rightarrow> u32 \<Rightarrow> item_pos list \<Rightarrow> u32 \<Rightarrow> store_answer" where
  "search_everywhere w pl bag slot proto src no_similar dest0 cnt0 =
     (let inv = (\<lambda>a b merge dest cnt. CanStoreItem_InInventorySlots w pl a b proto merge src bag slot dest cnt);
          in_bag = (\<lambda>merge non_spec i dest cnt.
                      CanStoreItem_InBag w pl i proto merge non_spec src bag slot dest cnt);
          bags = (\<lambda>merge non_spec k dest cnt.
                      bags_search no_similar (in_bag merge non_spec) backpack_bags k dest cnt);
          full = (\<lambda>dest cnt. (EQUIP_ERR_INVENTORY_FULL, dest, Some (cnt + no_similar)));
          free = (\<lambda>dest cnt.
             if full_bag w pl src then (EQUIP_ERR_NONEMPTY_BAG_OVER_OTHER_BAG, dest, None)
             else searched no_similar (inv INVENTORY_SLOT_ITEM_START INVENTORY_SLOT_ITEM_END False dest cnt)
                    (bags False True full));
          special = (\<lambda>dest cnt.
             if ip_BagFamily proto \<noteq> 0
             then if ip_BagFamily proto = BAG_FAMILY_KEYS
                  then searched no_similar (inv KEYRING_SLOT_START KEYRING_SLOT_END False dest cnt)
                         (bags False False free)
                  else bags False False free dest cnt
             else free dest cnt);
          normal_stacks = (\<lambda>dest cnt. bags True True special dest cnt);
          stacks = (\<lambda>dest cnt.
             if ip_BagFamily proto \<noteq> 0 then bags True False normal_stacks dest cnt
             else normal_stacks dest cnt)
      in if ip_Stackable proto > 1
         then searched no_similar (inv KEYRING_SLOT_START KEYRING_SLOT_END True dest0 cnt0)
                (\<lambda>d c. searched no_similar (inv INVENTORY_SLOT_ITEM_START INVENTORY_SLOT_ITEM_END True d c) stacks)
         else special dest0 cnt0)"

text \<open>The search in the bag that was asked for: stacks to fill up, then free slots.\<close>

definition search_bag ::
    "world \<Rightarrow> player \<Rightarrow> u8 \<Rightarrow> u8 \<Rightarrow> item_proto \<Rightarrow> ptr option \<Rightarrow> u32 \<Rightarrow>
     (item_pos list \<Rightarrow> u32 \<Rightarrow> store_answer) \<Rightarrow> item_pos list \<Rightarrow> u32 \<Rightarrow> store_answer" where
  "search_bag w pl bag slot proto src no_similar k dest0 cnt0 =
     (let inv = (\<lambda>a b merge dest cnt. CanStoreItem_InInventorySlots w pl a b proto merge src bag slot dest cnt);
          this_bag = (\<lambda>merge dest cnt. either_bag (\<lambda>non_spec dest cnt.
                        CanStoreItem_InBag w pl bag proto merge non_spec src NULL_BAG slot dest cnt) dest cnt);
          backpack = (\<lambda>dest cnt.
             searched no_similar (inv INVENTORY_SLOT_ITEM_START INVENTORY_SLOT_ITEM_END False dest cnt) k);
          free = (\<lambda>dest cnt.
             if bag = INVENTORY_SLOT_BAG_0
             then if ip_BagFamily proto = BAG_FAMILY_KEYS
                  then searched no_similar (inv KEYRING_SLOT_START KEYRING_SLOT_END False dest cnt) backpack
                  else backpack dest cnt
             else searched no_similar (this_bag False dest cnt) k)
      in if ip_Stackable proto > 1
         then if bag = INVENTORY_SLOT_BAG_0
              then searched no_similar (inv KEYRING_SLOT_START KEYRING_SLOT_END True dest0 cnt0)
                     (\<lambda>d c. searched no_similar (inv INVENTORY_SLOT_ITEM_START INVENTORY_SLOT_ITEM_END True d c) free)
              else searched no_similar (this_bag True dest0 cnt0) free
         else free dest0 cnt0)"

definition CanStoreItem ::
    "world \<Rightarrow> player \<Rightarrow> u8 \<Rightarrow> u8 \<Rightarrow> u32 \<Rightarrow> u32 \<Rightarrow> ptr option \<Rightarrow> bool \<Rightarrow> store_answer" where
  "CanStoreItem w pl bag slot entry cnt src swap =
     (case w_proto w entry of
        None \<Rightarrow> (if swap then EQUIP_ERR_ITEMS_CANT_BE_SWAPPED else EQUIP_ERR_ITEM_NOT_FOUND, [], Some cnt)
      | Some proto \<Rightarrow>
          (if (case src of Some p \<Rightarrow> HasTemporaryLoot (pl_heap pl p) | None \<Rightarrow> False)
           then (EQUIP_ERR_ALREADY_LOOTED, [], Some cnt)
           else if (case src of Some p \<Rightarrow> IsBindedNotWith w (pl_guid pl) (pl_heap pl p) | None \<Rightarrow> False)
           then (EQUIP_ERR_DONT_OWN_THAT_ITEM, [], Some cnt)
           else let (res, no_similar) = CanTakeMoreSimilarItems w pl entry cnt src 0
           in if res \<noteq> EQUIP_ERR_OK \<and> cnt = no_similar then (res, [], Some no_similar)
           else let cnt1 = (if res \<noteq> EQUIP_ERR_OK then cnt - no_similar else cnt);
                    rest = search_everywhere w pl bag slot proto src no_similar;
                    in_bag = (\<lambda>dest c. if bag \<noteq> NULL_BAG
                                then search_bag w pl bag slot proto src no_similar rest dest c
                                else rest dest c)
           in if bag \<noteq> NULL_BAG \<and> slot \<noteq> NULL_SLOT
              then if bag = INVENTORY_SLOT_BAG_0 \<and> unat slot * 2 > 224
                   then (EQUIP_ERR_ITEM_DOESNT_GO_TO_SLOT, [], None)
                   else searched no_similar
                          (CanStoreItem_InSpecificSlot w pl bag slot proto swap src [] cnt1) in_bag
              else in_bag [] cnt1))"

definition CanStoreNewItem :: "world \<Rightarrow> player \<Rightarrow> u8 \<Rightarrow> u8 \<Rightarrow> u32 \<Rightarrow> u32 \<Rightarrow> store_answer" where
  "CanStoreNewItem w pl bag slot entry cnt = CanStoreItem w pl bag slot entry cnt None False"

definition CanStoreItemPtr :: "world \<Rightarrow> player \<Rightarrow> u8 \<Rightarrow> u8 \<Rightarrow> ptr option \<Rightarrow> bool \<Rightarrow> store_answer" where
  "CanStoreItemPtr w pl bag slot src swap =
     (case src of
        None \<Rightarrow> (EQUIP_ERR_ITEM_NOT_FOUND, [], None)
      | Some p \<Rightarrow> (case CanStoreItem w pl bag slot (it_entry (pl_heap pl p)) (it_count (pl_heap pl p)) src swap
                    of (res, dest, _) \<Rightarrow> (res, dest, None)))"

section \<open>Storing\<close>

definition bind_on_store :: "item_proto \<Rightarrow> u8 \<Rightarrow> u8 \<Rightarrow> item \<Rightarrow> item" where
  "bind_on_store proto bag slot it =
     (let it1 = (if ip_Bonding proto = BIND_WHEN_PICKED_UP \<or> ip_Bonding proto = BIND_QUEST_ITEM \<or>
                    (ip_Bonding proto = BIND_WHEN_EQUIPPED \<and> IsBagPos bag slot)
                 then SetBinding True it else it)
      in if ip_Bonding proto = BIND_ACCOUNT
         then it1\<lparr>it_flags := apply_mod_flag ITEM_DYNFLAG_BOA True (it_flags it1)\<rparr> else it1)"

definition Bag_StoreItem :: "ptr \<Rightarrow> u8 \<Rightarrow> ptr \<Rightarrow> player \<Rightarrow> player" where
  "Bag_StoreItem pBag slot p pl =
     (let bag = pl_heap pl pBag
      in upd_item p (\<lambda>it. it\<lparr>it_contained := ObjectGuid2 HIGHGUID_ITEM (it_lowguid bag), it_owner := it_owner bag,
                       it_container := Some pBag, it_slot := slot\<rparr>)
           (upd_item pBag (\<lambda>b. b\<lparr>it_bagslot := (it_bagslot b)[unat slot := Some p]\<rparr>) pl))"

definition Bag_RemoveItem :: "ptr \<Rightarrow> u8 \<Rightarrow> player \<Rightarrow> player" where
  "Bag_RemoveItem pBag slot pl =
     (let pl1 = (case it_bagslot (pl_heap pl pBag) ! unat slot of
                   Some p \<Rightarrow> upd_item p (\<lambda>it. it\<lparr>it_container := None\<rparr>) pl
                 | None \<Rightarrow> pl)
      in upd_item pBag (\<lambda>b. b\<lparr>it_bagslot := (it_bagslot b)[unat slot := None]\<rparr>) pl1)"

definition in_world_update :: "bool \<Rightarrow> player_event list \<Rightarrow> player \<Rightarrow> player" where
  "in_world_update update es pl = (if pl_inWorld pl \<and> update then fold event es pl else pl)"

text \<open>Putting an item into a free place, and adding to the item that is there.\<close>

definition store_free :: "world \<Rightarrow> u8 \<Rightarrow> u8 \<Rightarrow> ptr \<Rightarrow> bool \<Rightarrow> player \<Rightarrow> player" where
  "store_free w bag slot p update pl =
     (let pl1 = upd_item p (bind_on_store (GetProto w (pl_heap pl p)) bag slot) pl;
          pl2 = (if bag = INVENTORY_SLOT_BAG_0
                 then SetState p ITEM_CHANGED True
                   (in_world_update update [AddToWorld p, SendCreateUpdateToPlayer p]
                     (upd_item p (\<lambda>it. it\<lparr>it_contained := pl_guid pl, it_owner := pl_guid pl,
                                       it_slot := slot, it_container := None\<rparr>)
                       (pl1\<lparr>pl_items := (pl_items pl1)[unat slot := Some p]\<rparr>)))
                 else (case GetItemByPos pl1 INVENTORY_SLOT_BAG_0 bag of
                         None \<Rightarrow> pl1
                       | Some pBag \<Rightarrow>
                           SetState pBag ITEM_CHANGED True (SetState p ITEM_CHANGED True
                             (in_world_update update [AddToWorld p, SendCreateUpdateToPlayer p]
                               (Bag_StoreItem pBag slot p pl1)))))
      in event (AddItemDurations p) (event (AddEnchantmentDurations p) pl2))"

definition store_merge :: "world \<Rightarrow> u8 \<Rightarrow> u8 \<Rightarrow> ptr \<Rightarrow> ptr \<Rightarrow> u32 \<Rightarrow> bool \<Rightarrow> bool \<Rightarrow> player \<Rightarrow> player" where
  "store_merge w bag slot p p2 cnt clone update pl =
     (let pl1 = upd_item p2 (bind_on_store (GetProto w (pl_heap pl p2)) bag slot) pl;
          pl2 = in_world_update update [SendCreateUpdateToPlayer p2]
                  (upd_item p2 (\<lambda>it. it\<lparr>it_count := it_count it + cnt\<rparr>) pl1);
          pl3 = (if \<not> clone
                 then SetState p ITEM_REMOVED True
                   (upd_item p (\<lambda>it. it\<lparr>it_owner := pl_guid pl\<rparr>)
                     (event (RemoveItemDurations p) (event (RemoveEnchantmentDurations p)
                       (in_world_update update [RemoveFromWorld p, DestroyForPlayer p] pl2))))
                 else pl2)
      in SetState p2 ITEM_CHANGED True (event (AddEnchantmentDurations p2) pl3))"

definition StoreItem1 :: "world \<Rightarrow> u16 \<Rightarrow> ptr \<Rightarrow> u32 \<Rightarrow> bool \<Rightarrow> bool \<Rightarrow> player \<Rightarrow> ptr option \<times> player" where
  "StoreItem1 w pos p cnt clone update pl =
     (let bag = pos_bag pos; slot = pos_slot pos
      in case GetItemByPos pl bag slot of
           None \<Rightarrow>
             (case (if clone then CloneItem w p cnt pl
                    else (Some p, upd_item p (\<lambda>it. it\<lparr>it_count := cnt\<rparr>) pl)) of
                (None, pl1) \<Rightarrow> (None, pl1)
              | (Some q, pl1) \<Rightarrow> (Some q, store_free w bag slot q update pl1))
         | Some p2 \<Rightarrow> (Some p2, store_merge w bag slot p p2 cnt clone update pl))"

fun StoreItem_loop :: "world \<Rightarrow> item_pos list \<Rightarrow> ptr \<Rightarrow> bool \<Rightarrow> ptr option \<Rightarrow> player \<Rightarrow> ptr option \<times> player" where
  "StoreItem_loop w [] p update lastItem pl = (lastItem, pl)"
| "StoreItem_loop w [(pos, c)] p update lastItem pl = StoreItem1 w pos p (ucast c) False update pl"
| "StoreItem_loop w ((pos, c) # d # dest) p update lastItem pl =
     (case StoreItem1 w pos p (ucast c) True update pl of
        (q, pl') \<Rightarrow> StoreItem_loop w (d # dest) p update q pl')"

definition StoreItem :: "world \<Rightarrow> item_pos list \<Rightarrow> ptr \<Rightarrow> bool \<Rightarrow> player \<Rightarrow> ptr option \<times> player" where
  "StoreItem w dest p update pl = StoreItem_loop w dest p update (Some p) pl"

definition StoreNewItem :: "world \<Rightarrow> item_pos list \<Rightarrow> u32 \<Rightarrow> bool \<Rightarrow> u32 \<Rightarrow> player \<Rightarrow> ptr option \<times> player" where
  "StoreNewItem w dest entry update randomPropertyId pl =
     (let cnt = sum_list (map (\<lambda>(pos, c). ucast c) dest)
      in case CreateItem w entry cnt pl of
           (None, pl1) \<Rightarrow> (None, pl1)
         | (Some p, pl1) \<Rightarrow>
             (let pl2 = event (ItemAddedQuestCheck entry cnt) pl1;
                  pl3 = (if randomPropertyId \<noteq> 0 then SetItemRandomProperties w p randomPropertyId pl2 else pl2)
              in StoreItem w dest p update pl3))"

section \<open>Destroying\<close>

text \<open>Taking an item out of its slot, and what follows when its contents were dealt with.\<close>

definition unlink_item :: "item_proto \<Rightarrow> u8 \<Rightarrow> u8 \<Rightarrow> ptr \<Rightarrow> player \<Rightarrow> player" where
  "unlink_item proto bag slot p pl =
     (if bag = INVENTORY_SLOT_BAG_0
      then (let a = (if slot < INVENTORY_SLOT_BAG_END
                     then event (RemoveItemMods p slot)
                       (if ip_ItemSet proto \<noteq> 0 then event (RemoveItemsSetItem (ip_ItemSet proto)) pl else pl)
                     else pl);
                b = (if slot < EQUIPMENT_SLOT_END
                     then event (ClearVisibleItemSlot slot) (event (RemoveItemDependentAurasAndCasts p) a)
                     else a)
            in b\<lparr>pl_items := (pl_items b)[unat slot := None]\<rparr>)
      else (case GetItemByPos pl INVENTORY_SLOT_BAG_0 bag of
              None \<Rightarrow> pl | Some pBag \<Rightarrow> Bag_RemoveItem pBag slot pl))"

definition destroy_rest :: "world \<Rightarrow> u8 \<Rightarrow> u8 \<Rightarrow> bool \<Rightarrow> ptr \<Rightarrow> item \<Rightarrow> player \<Rightarrow> player" where
  "destroy_rest w bag slot update p it pl1 =
     (let pl2 = (if it_flags it AND ITEM_DYNFLAG_WRAPPED \<noteq> 0 then event (DeleteGift (it_lowguid it)) pl1 else pl1);
          pl3 = event (ItemRemovedQuestCheck (it_entry it) (it_count it))
                  (event (RemoveItemDurations p) (event (RemoveEnchantmentDurations p) pl2));
          pl4 = unlink_item (GetProto w it) bag slot p pl3;
          pl5 = in_world_update update [RemoveFromWorld p, DestroyForPlayer p] pl4;
          pl6 = (if it_entry it = 5863 then event (DeletePetition (it_enchants it ! 0)) pl5 else pl5)
      in SetState p ITEM_REMOVED True
           (upd_item p (\<lambda>it. it\<lparr>it_contained := 0, it_slot := NULL_SLOT\<rparr>) pl6))"

text \<open>
  \<^verbatim>\<open>DestroyItem\<close> calls itself for the contents of an equipped bag. The first argument bounds
  the depth of these calls: the inner calls name a bag below 19, where no item is found.
\<close>

fun DestroyItem_depth :: "nat \<Rightarrow> world \<Rightarrow> u8 \<Rightarrow> u8 \<Rightarrow> bool \<Rightarrow> player \<Rightarrow> player" where
  "DestroyItem_depth 0 w bag slot update pl = pl"
| "DestroyItem_depth (Suc n) w bag slot update pl =
     (case GetItemByPos pl bag slot of
        None \<Rightarrow> pl
      | Some p \<Rightarrow>
          (let it = pl_heap pl p
           in destroy_rest w bag slot update p it
                (if IsBag w it
                 then if IsEquipped it
                      then fold (\<lambda>i. DestroyItem_depth n w slot (of_nat i) update) [0..<MAX_BAG_SIZE] pl
                      else if \<not> Bag_IsEmpty it
                      then event (AnticheatAction ''Player::DestroyItem: destroying non equipped bag with items inside!'') pl
                      else pl
                 else pl)))"

definition DestroyItem :: "world \<Rightarrow> u8 \<Rightarrow> u8 \<Rightarrow> bool \<Rightarrow> player \<Rightarrow> player" where
  "DestroyItem w bag slot update pl = DestroyItem_depth 2 w bag slot update pl"

end
