(* ===== verification/Item_Storage_Props.thy ===== *)
theory Item_Storage_Props
  imports Item_Storage
begin

text \<open>
  What the storage operations promise: the places \<^verbatim>\<open>CanStoreNewItem\<close> answers with take all the
  items and overfill no stack, money stays in its bounds.
\<close>

section \<open>Positions\<close>

lemma pos_bag_mk_pos [simp]: "pos_bag (mk_pos bag slot) = bag"
proof (rule bit_word_eqI)
  fix n assume "n < LENGTH(8)"
  moreover have "\<not> bit slot (8 + n)" by (auto dest: bit_imp_le_length)
  ultimately show "bit (pos_bag (mk_pos bag slot)) n = bit bag n"
    by (simp add: pos_bag_def mk_pos_def bit_simps)
qed

lemma and_255: "w AND 255 = take_bit 8 w" for w :: u16
  by (simp add: take_bit_eq_mask mask_eq_exp_minus_1)

lemma pos_slot_mk_pos [simp]: "pos_slot (mk_pos bag slot) = slot"
proof (rule bit_word_eqI)
  fix n assume "n < LENGTH(8)"
  then show "bit (pos_slot (mk_pos bag slot)) n = bit slot n"
    by (simp add: pos_slot_def mk_pos_def and_255 bit_simps)
qed

section \<open>The plan of a search\<close>

text \<open>A place exists: a slot of the player outside the buyback range, or a slot of a bag.\<close>

definition place_exists :: "world \<Rightarrow> player \<Rightarrow> u16 \<Rightarrow> bool" where
  "place_exists w pl pos =
     (let bag = pos_bag pos; slot = pos_slot pos
      in if bag = INVENTORY_SLOT_BAG_0
         then slot < BANK_SLOT_BAG_END \<or> (slot \<ge> KEYRING_SLOT_START \<and> slot < KEYRING_SLOT_END)
         else (case GetItemByPos pl INVENTORY_SLOT_BAG_0 bag of
                 None \<Rightarrow> False
               | Some pBag \<Rightarrow> ucast slot < ip_ContainerSlots (GetProto w (pl_heap pl pBag)) \<or>
                              ucast slot < it_bagSize (pl_heap pl pBag)))"

text \<open>A number of items fits at a place: a free place, or the same item with room on its stack.\<close>

definition fits :: "world \<Rightarrow> player \<Rightarrow> item_proto \<Rightarrow> item_pos \<Rightarrow> bool" where
  "fits w pl proto x =
     (case GetItemByPos pl (pos_bag (fst x)) (pos_slot (fst x)) of
        None \<Rightarrow> place_exists w pl (fst x) \<and> unat (snd x) \<le> unat (ip_Stackable proto)
      | Some p \<Rightarrow> it_entry (pl_heap pl p) = ip_ItemId proto \<and>
                  unat (it_count (pl_heap pl p)) + unat (snd x) \<le> unat (ip_Stackable proto))"

text \<open>Stack sizes that fit the 8-bit count of \<^verbatim>\<open>ItemPosCount\<close>.\<close>

definition stack_size_ok :: "item_proto \<Rightarrow> bool" where
  "stack_size_ok proto = (ip_Stackable proto \<noteq> 0 \<and> unat (ip_Stackable proto) \<le> 255)"

text \<open>
  A plan uses a slot for bags only where it was asked to use that slot, and a bag other than the four
  equipped ones only where it was asked to use that bag.
\<close>

definition place_asked :: "u16 \<Rightarrow> u16 \<Rightarrow> bool" where
  "place_asked r pos = ((IsBagPos (pos_bag pos) (pos_slot pos) \<longrightarrow> pos = r) \<and>
     (pos_bag pos = INVENTORY_SLOT_BAG_0 \<or> pos_bag pos \<in> set backpack_bags \<or>
      (pos_bag pos = pos_bag r \<and> pos_bag r \<noteq> NULL_BAG)))"

definition plan_inv :: "u16 \<Rightarrow> world \<Rightarrow> player \<Rightarrow> item_proto \<Rightarrow> u32 \<Rightarrow> item_pos list \<Rightarrow> u32 \<Rightarrow> bool" where
  "plan_inv r w pl proto n0 dest cnt =
     (distinct (map fst dest) \<and> sum_list (map (unat \<circ> snd) dest) + unat cnt = unat n0 \<and>
      (\<forall>x \<in> set dest. fits w pl proto x \<and> place_asked r (fst x)) \<and>
      (n0 \<noteq> 0 \<longrightarrow> (\<forall>x \<in> set dest. snd x \<noteq> 0)))"

text \<open>A plan that still has items to place.\<close>

definition plan_open :: "u16 \<Rightarrow> world \<Rightarrow> player \<Rightarrow> item_proto \<Rightarrow> u32 \<Rightarrow> item_pos list \<Rightarrow> u32 \<Rightarrow> bool" where
  "plan_open r w pl proto n0 dest cnt = (plan_inv r w pl proto n0 dest cnt \<and> (n0 \<noteq> 0 \<longrightarrow> cnt \<noteq> 0))"

definition answer_ok :: "u16 \<Rightarrow> world \<Rightarrow> player \<Rightarrow> item_proto \<Rightarrow> u32 \<Rightarrow> u32 \<Rightarrow> store_answer \<Rightarrow> bool" where
  "answer_ok r w pl proto n0 no_similar a =
     (fst a = EQUIP_ERR_OK \<longrightarrow> no_similar = 0 \<and> plan_inv r w pl proto n0 (fst (snd a)) 0)"

lemma unat_ucast_small:
  fixes n :: u32
  assumes "unat n \<le> 255"
  shows "unat (ucast n :: u8) = unat n"
  using assms by (simp add: unsigned_ucast_eq unsigned_take_bit_eq take_bit_nat_eq_self)

lemma take_place_inv:
  assumes "plan_open r w pl proto n0 dest cnt" "unat need \<le> 255" "need \<noteq> 0"
    and fit: "\<And>c. unat c \<le> unat need \<Longrightarrow> fits w pl proto (pos, c)"
    and "take_place pos need dest cnt = (dest', cnt')" and "place_asked r pos"
  shows "plan_inv r w pl proto n0 dest' cnt'"
proof (cases "isContainedIn pos dest")
  case True
  then show ?thesis using assms by (simp add: take_place_def plan_open_def)
next
  case False
  let ?need = "if need > cnt then cnt else need"
  have le: "unat ?need \<le> unat need" "unat ?need \<le> unat cnt"
    by (auto simp: word_less_nat_alt word_le_nat_alt not_less)
  then have small: "unat (ucast ?need :: u8) = unat ?need"
    using assms(2) by (intro unat_ucast_small) simp
  have d: "dest' = dest @ [(pos, ucast ?need)]" "cnt' = cnt - ?need"
    using False assms(5) by (auto simp: take_place_def Let_def split: if_splits)
  have "unat cnt' = unat cnt - unat ?need"
    using le d by (simp add: unat_sub word_le_nat_alt)
  moreover have "fits w pl proto (pos, ucast ?need)"
    using fit [of "ucast ?need"] small le by simp
  moreover have "ucast ?need \<noteq> (0 :: u8)" if "n0 \<noteq> 0"
  proof
    assume "ucast ?need = (0 :: u8)"
    then have "unat ?need = 0" using small by simp
    then show False using that assms(1, 3) by (simp add: plan_open_def unat_eq_0 split: if_splits)
  qed
  ultimately show ?thesis
    using assms(1, 6) False small le d unfolding plan_open_def plan_inv_def isContainedIn_def by auto
qed

text \<open>Room at a place, as the searches establish it before they take the place.\<close>

lemma fits_free:
  "GetItemByPos pl bag slot = None \<Longrightarrow> place_exists w pl (mk_pos bag slot) \<Longrightarrow>
   unat c \<le> unat (ip_Stackable proto) \<Longrightarrow> fits w pl proto (mk_pos bag slot, c)"
  by (simp add: fits_def)

lemma mergeable_room:
  assumes "CanBeMergedPartlyWith it proto = EQUIP_ERR_OK"
  shows "it_entry it = ip_ItemId proto \<and>
    unat (ip_Stackable proto - it_count it) = unat (ip_Stackable proto) - unat (it_count it) \<and>
    unat (it_count it) \<le> unat (ip_Stackable proto)"
proof -
  have "it_entry it = ip_ItemId proto" "it_count it \<le> ip_Stackable proto"
    using assms by (auto simp: CanBeMergedPartlyWith_def GetMaxStackSize_def split: if_splits)
  then show ?thesis by (simp add: unat_sub word_le_nat_alt)
qed

lemma mergeable_need:
  assumes "CanBeMergedPartlyWith it proto = EQUIP_ERR_OK" "stack_size_ok proto"
  shows "unat (ip_Stackable proto - it_count it) \<le> 255 \<and> ip_Stackable proto - it_count it \<noteq> 0"
  using mergeable_room [OF assms(1)] assms
  by (auto simp: stack_size_ok_def CanBeMergedPartlyWith_def GetMaxStackSize_def split: if_splits)

lemma fits_merge:
  assumes "GetItemByPos pl bag slot = Some p"
    "CanBeMergedPartlyWith (pl_heap pl p) proto = EQUIP_ERR_OK"
    "unat c \<le> unat (ip_Stackable proto - it_count (pl_heap pl p))"
  shows "fits w pl proto (mk_pos bag slot, c)"
  using assms mergeable_room [OF assms(2)] by (auto simp: fits_def)

lemma item_there_None [simp]: "item_there pl None bag slot = GetItemByPos pl bag slot"
  by (simp add: item_there_def)

lemma store_loop_inv:
  assumes "plan_open r w pl proto n0 dest cnt" "stack_size_ok proto"
    "\<forall>j \<in> set js. place_exists w pl (mk_pos bag (of_nat j)) \<and> place_asked r (mk_pos bag (of_nat j))"
    "store_loop pl bag proto merge None skip js dest cnt = (dest', cnt')"
  shows "plan_inv r w pl proto n0 dest' cnt'"
  using assms
proof (induction js arbitrary: dest cnt)
  case Nil
  then show ?case by (simp add: plan_open_def)
next
  case (Cons j js)
  let ?slot = "of_nat j :: u8"
  let ?there = "GetItemByPos pl bag ?slot"
  let ?need = "case ?there of Some p2 \<Rightarrow> ip_Stackable proto - it_count (pl_heap pl p2)
      | None \<Rightarrow> ip_Stackable proto"
  let ?merge_fails = "case ?there of Some p2 \<Rightarrow> CanBeMergedPartlyWith (pl_heap pl p2) proto \<noteq> EQUIP_ERR_OK
      | None \<Rightarrow> False"
  obtain dest1 cnt1 where tp: "take_place (mk_pos bag ?slot) ?need dest cnt = (dest1, cnt1)"
    by (rule prod.exhaust)
  show ?case
  proof (cases "skip j \<or> (?there \<noteq> None) \<noteq> merge \<or> ?merge_fails")
    case True
    then have "store_loop pl bag proto merge None skip js dest cnt = (dest', cnt')"
      using Cons.prems(4) by (auto simp: Let_def split: if_splits)
    then show ?thesis using Cons by simp
  next
    case False
    have inv: "plan_inv r w pl proto n0 dest1 cnt1"
    proof (rule take_place_inv [OF Cons.prems(1) _ _ _ tp])
      show "unat ?need \<le> 255" "?need \<noteq> 0"
        using False Cons.prems(2) mergeable_need
        by (cases ?there; force simp: stack_size_ok_def)+
      show "fits w pl proto (mk_pos bag ?slot, c)" if "unat c \<le> unat ?need" for c
        using False that Cons.prems(3)
        by (cases ?there) (simp_all add: fits_free fits_merge)
      show "place_asked r (mk_pos bag ?slot)" using Cons.prems(3) by simp
    qed
    moreover have "store_loop pl bag proto merge None skip (j # js) dest cnt =
        (if \<not> isContainedIn (mk_pos bag ?slot) dest \<and> cnt1 = 0 then (dest1, cnt1)
         else store_loop pl bag proto merge None skip js dest1 cnt1)"
      using False tp by (auto simp: Let_def GetMaxStackSize_def)
    moreover have "plan_open r w pl proto n0 dest1 cnt1"
      if "isContainedIn (mk_pos bag ?slot) dest \<or> cnt1 \<noteq> 0"
      using that inv tp Cons.prems(1) by (auto simp: plan_open_def take_place_def Let_def)
    ultimately show ?thesis using inv Cons by (auto split: if_splits)
  qed
qed

section \<open>The answer of a search\<close>

lemma searched_ok:
  assumes "res = EQUIP_ERR_OK \<Longrightarrow> plan_inv r w pl proto n0 dest cnt"
    and "\<And>d c. plan_open r w pl proto n0 d c \<Longrightarrow> answer_ok r w pl proto n0 ns (k d c)"
  shows "answer_ok r w pl proto n0 ns (searched ns (res, dest, cnt) k)"
  using assms by (auto simp: searched_def search_done_def answer_ok_def plan_open_def)

lemma bags_search_ok:
  assumes "plan_open r w pl proto n0 dest cnt"
    and "\<And>i d c. i \<in> set is \<Longrightarrow> plan_open r w pl proto n0 d c \<Longrightarrow>
      case f i d c of (res, d', c') \<Rightarrow> plan_inv r w pl proto n0 d' c' \<and> (res \<noteq> EQUIP_ERR_OK \<longrightarrow> plan_open r w pl proto n0 d' c')"
    and "\<And>d c. plan_open r w pl proto n0 d c \<Longrightarrow> answer_ok r w pl proto n0 ns (k d c)"
  shows "answer_ok r w pl proto n0 ns (bags_search ns f is k dest cnt)"
  using assms
proof (induction "is" arbitrary: dest cnt)
  case (Cons i "is")
  obtain res d' c' where f: "f i dest cnt = (res, d', c')" by (rule prod_cases3)
  then have inv: "plan_inv r w pl proto n0 d' c'" "res \<noteq> EQUIP_ERR_OK \<longrightarrow> plan_open r w pl proto n0 d' c'"
    using Cons.prems(1, 2) by fastforce+
  then have "answer_ok r w pl proto n0 ns (bags_search ns f is k d' c')" if "res \<noteq> EQUIP_ERR_OK \<or> c' \<noteq> 0"
    using Cons that by (intro Cons.IH) (auto simp: plan_open_def)
  then show ?case using inv f by (auto simp: search_done_def answer_ok_def)
qed simp

lemma InInventorySlots_ok:
  assumes "plan_open r w pl proto n0 dest cnt" "stack_size_ok proto"
    "(23 \<le> unat a \<and> unat b \<le> 39) \<or> (81 \<le> unat a \<and> unat b \<le> 113)"
    "CanStoreItem_InInventorySlots w pl a b proto merge None skb sks dest cnt = (res, dest', cnt')"
  shows "plan_inv r w pl proto n0 dest' cnt'"
proof -
  have "place_exists w pl (mk_pos 255 (of_nat j)) \<and> place_asked r (mk_pos 255 (of_nat j))"
    if "unat a \<le> j" "j < unat b" for j
  proof -
    have "unat (of_nat j :: u8) = j" using that unat_less_2p [of b] by (simp add: unat_of_nat)
    then show ?thesis using that assms(3)
      by (auto simp: place_exists_def place_asked_def IsBagPos_def word_less_nat_alt word_le_nat_alt)
  qed
  then have "\<forall>j \<in> set [unat a..<unat b].
      place_exists w pl (mk_pos 255 (of_nat j)) \<and> place_asked r (mk_pos 255 (of_nat j))" by simp
  moreover have "store_loop pl 255 proto merge None (\<lambda>j. 255 = skb \<and> j = unat sks)
      [unat a..<unat b] dest cnt = (dest', cnt')"
    using assms(4) by (simp add: CanStoreItem_InInventorySlots_def full_bag_def)
  ultimately show ?thesis using store_loop_inv [OF assms(1, 2)] by blast
qed

lemma InBag_error:
  assumes "CanStoreItem_InBag w pl bag proto merge spec src skb sks dest cnt = (res, dest', cnt')"
    "res \<noteq> EQUIP_ERR_OK"
  shows "dest' = dest \<and> cnt' = cnt"
  using assms by (auto simp: CanStoreItem_InBag_def Let_def split: if_splits option.splits)

lemma InBag_ok:
  assumes "plan_open r w pl proto n0 dest cnt" "stack_size_ok proto" "bag \<noteq> 255"
    "bag \<in> set backpack_bags \<or> (bag = pos_bag r \<and> bag \<noteq> NULL_BAG)"
    "\<And>p. GetItemByPos pl 255 bag = Some p \<Longrightarrow> unat (it_bagSize (pl_heap pl p)) \<le> 36"
    "CanStoreItem_InBag w pl bag proto merge spec None skb sks dest cnt = (res, dest', cnt')"
  shows "plan_inv r w pl proto n0 dest' cnt'"
proof (cases "res = EQUIP_ERR_OK")
  case False
  then show ?thesis using InBag_error [OF assms(6)] assms(1) by (simp add: plan_open_def)
next
  case True
  then obtain p where p: "GetItemByPos pl 255 bag = Some p"
    and l: "store_loop pl bag proto merge None (\<lambda>j. j = unat sks)
      [0..<unat (it_bagSize (pl_heap pl p))] dest cnt = (dest', cnt')"
    using assms(6) by (auto simp: CanStoreItem_InBag_def Let_def split: if_splits option.splits)
  have "place_exists w pl (mk_pos bag (of_nat j))" if "j < unat (it_bagSize (pl_heap pl p))" for j
  proof -
    have j: "j < 256" using that assms(5) [OF p] by simp
    then have "unat (ucast (of_nat j :: u8) :: u32) = j"
      by (simp add: unsigned_ucast_eq unat_of_nat take_bit_nat_eq_self)
    then show ?thesis using that p assms(3)
      by (simp add: place_exists_def word_less_nat_alt)
  qed
  moreover have "place_asked r (mk_pos bag s)" for s
    using assms(3, 4) by (auto simp: place_asked_def IsBagPos_def)
  ultimately show ?thesis using store_loop_inv [OF assms(1, 2) _ l] by simp
qed

lemma InSpecificSlot_ok:
  assumes "plan_open r w pl proto n0 dest cnt" "stack_size_ok proto"
    "bag = 255 \<Longrightarrow> unat slot \<le> 112" "r = mk_pos bag slot \<and> bag \<noteq> NULL_BAG"
    "CanStoreItem_InSpecificSlot w pl bag slot proto False None dest cnt = (res, dest', cnt')"
    "res = EQUIP_ERR_OK"
  shows "plan_inv r w pl proto n0 dest' cnt'"
proof (cases "GetItemByPos pl bag slot")
  case None
  then have tp: "take_place (mk_pos bag slot) (ip_Stackable proto) dest cnt = (dest', cnt')"
    and "place_exists w pl (mk_pos bag slot)"
    using assms(3, 5, 6)
    by (auto simp: CanStoreItem_InSpecificSlot_def Let_def full_bag_def place_exists_def not_less
        word_less_nat_alt word_le_nat_alt split: if_splits option.splits prod.splits)
  then show ?thesis
    using take_place_inv [OF assms(1) _ _ _ tp, unfolded place_asked_def] fits_free [OF None] assms(2, 4)
    by (simp add: stack_size_ok_def)
next
  case (Some p)
  then have tp: "take_place (mk_pos bag slot) (ip_Stackable proto - it_count (pl_heap pl p)) dest cnt = (dest', cnt')"
    and m: "CanBeMergedPartlyWith (pl_heap pl p) proto = EQUIP_ERR_OK"
    using assms(5, 6)
    by (auto simp: CanStoreItem_InSpecificSlot_def Let_def full_bag_def
        split: if_splits option.splits prod.splits)
  show ?thesis
    using mergeable_need [OF m assms(2)] assms(4)
    by (intro take_place_inv [OF assms(1) _ _ _ tp, unfolded place_asked_def] fits_merge [OF Some m]) simp_all
qed

text \<open>\<^verbatim>\<open>Bag::Create\<close> refuses larger bags.\<close>

definition bags_small :: "player \<Rightarrow> bool" where
  "bags_small pl =
     (\<forall>bag p. GetItemByPos pl INVENTORY_SLOT_BAG_0 bag = Some p \<longrightarrow> unat (it_bagSize (pl_heap pl p)) \<le> 36)"

lemma bags_small_D:
  "bags_small pl \<Longrightarrow> GetItemByPos pl 255 bag = Some p \<Longrightarrow> unat (it_bagSize (pl_heap pl p)) \<le> 36"
  by (simp add: bags_small_def)

lemma searched_inv_ok:
  assumes "plan_open r w pl proto n0 dest cnt" "stack_size_ok proto"
    "(23 \<le> unat a \<and> unat b \<le> 39) \<or> (81 \<le> unat a \<and> unat b \<le> 113)"
    and "\<And>d c. plan_open r w pl proto n0 d c \<Longrightarrow> answer_ok r w pl proto n0 ns (k d c)"
  shows "answer_ok r w pl proto n0 ns
    (searched ns (CanStoreItem_InInventorySlots w pl a b proto merge None skb sks dest cnt) k)"
proof -
  obtain res d c where s: "CanStoreItem_InInventorySlots w pl a b proto merge None skb sks dest cnt = (res, d, c)"
    by (rule prod_cases3)
  show ?thesis unfolding s
    by (rule searched_ok [OF InInventorySlots_ok [OF assms(1-3) s] assms(4)])
qed

lemma searched_bags_ok:
  assumes "plan_open r w pl proto n0 dest cnt" "stack_size_ok proto" "bags_small pl"
    and "\<And>d c. plan_open r w pl proto n0 d c \<Longrightarrow> answer_ok r w pl proto n0 ns (k d c)"
  shows "answer_ok r w pl proto n0 ns
    (bags_search ns (\<lambda>i d c. CanStoreItem_InBag w pl i proto merge spec None skb sks d c) backpack_bags k dest cnt)"
proof (rule bags_search_ok [OF assms(1) _ assms(4)])
  fix i d c
  assume i: "i \<in> set backpack_bags" and inv: "plan_open r w pl proto n0 d c"
  obtain res d' c' where s: "CanStoreItem_InBag w pl i proto merge spec None skb sks d c = (res, d', c')"
    by (rule prod_cases3)
  have "i \<noteq> 255" using i by auto
  then show "case CanStoreItem_InBag w pl i proto merge spec None skb sks d c of
      (res, d', c') \<Rightarrow> plan_inv r w pl proto n0 d' c' \<and> (res \<noteq> EQUIP_ERR_OK \<longrightarrow> plan_open r w pl proto n0 d' c')"
    unfolding s
    using InBag_ok [OF inv assms(2) _ _ bags_small_D [OF assms(3)] s] InBag_error [OF s] i inv by auto
qed

lemma searched_either_ok:
  assumes "plan_open r w pl proto n0 dest cnt" "stack_size_ok proto" "bags_small pl" "bag \<noteq> 255" "bag = pos_bag r \<and> bag \<noteq> NULL_BAG"
    and "\<And>d c. plan_open r w pl proto n0 d c \<Longrightarrow> answer_ok r w pl proto n0 ns (k d c)"
  shows "answer_ok r w pl proto n0 ns
    (searched ns (either_bag (\<lambda>spec d c. CanStoreItem_InBag w pl bag proto merge spec None skb sks d c) dest cnt) k)"
proof -
  have bag_ok: "plan_inv r w pl proto n0 d' c'"
    if "CanStoreItem_InBag w pl bag proto merge spec None skb sks dest cnt = (res, d', c')" for spec res d' c'
    using InBag_ok [OF assms(1, 2, 4) _ _ that] assms(5) bags_small_D [OF assms(3)] by blast
  obtain res d c where s: "CanStoreItem_InBag w pl bag proto merge False None skb sks dest cnt = (res, d, c)"
    by (rule prod_cases3)
  obtain res2 d2 c2 where s2: "CanStoreItem_InBag w pl bag proto merge True None skb sks dest cnt = (res2, d2, c2)"
    by (rule prod_cases3)
  show ?thesis
    using s s2 bag_ok [OF s] bag_ok [OF s2] InBag_error [OF s] assms(6)
    by (simp add: either_bag_def searched_ok)
qed

lemma search_everywhere_ok:
  assumes "plan_open r w pl proto n0 dest cnt" "stack_size_ok proto" "bags_small pl"
  shows "answer_ok r w pl proto n0 ns (search_everywhere w pl bag slot proto None ns dest cnt)"
proof -
  note inv_ok = searched_inv_ok [OF _ assms(2)] and bags_ok = searched_bags_ok [OF _ assms(2, 3)]
  have full: "answer_ok r w pl proto n0 ns (EQUIP_ERR_INVENTORY_FULL, d, x)" for d x
    by (simp add: answer_ok_def)
  show ?thesis
    unfolding search_everywhere_def Let_def
    using assms(1)
    by (auto intro!: inv_ok bags_ok full simp: full_bag_def simp del: bags_search.simps)
qed

lemma search_bag_ok:
  assumes "plan_open r w pl proto n0 dest cnt" "stack_size_ok proto" "bags_small pl" "bag = pos_bag r \<and> bag \<noteq> NULL_BAG"
    and "\<And>d c. plan_open r w pl proto n0 d c \<Longrightarrow> answer_ok r w pl proto n0 ns (k d c)"
  shows "answer_ok r w pl proto n0 ns (search_bag w pl bag slot proto None ns k dest cnt)"
proof -
  note inv_ok = searched_inv_ok [OF _ assms(2)] and either_ok = searched_either_ok [OF _ assms(2, 3)]
  show ?thesis
    unfolding search_bag_def Let_def
    using assms(1)
    using assms(4) by (auto intro!: inv_ok either_ok assms(5))
qed

lemma similar_limit:
  assumes "CanTakeMoreSimilarItems w pl entry cnt None 0 = (res, ns)" "w_proto w entry = Some proto"
  shows "(res = EQUIP_ERR_OK \<longrightarrow> ns = 0 \<and>
      (ip_MaxCount proto > 0 \<longrightarrow> GetItemCount pl (ip_ItemId proto) True None + cnt \<le> ip_MaxCount proto)) \<and>
    (res \<noteq> EQUIP_ERR_OK \<longrightarrow> ns \<noteq> 0)"
  using assms
  by (auto simp: CanTakeMoreSimilarItems_def Let_def not_less algebra_simps split: if_splits)

lemma CanStoreNewItem_answer:
  assumes proto: "w_proto w entry = Some proto" and "stack_size_ok proto" "bags_small pl"
    and ok: "CanStoreNewItem w pl bag slot entry cnt = (EQUIP_ERR_OK, dest, left)"
  shows "plan_inv (mk_pos bag slot) w pl proto cnt dest 0 \<and>
    (ip_MaxCount proto > 0 \<longrightarrow> GetItemCount pl (ip_ItemId proto) True None + cnt \<le> ip_MaxCount proto)"
proof -
  obtain res ns where sim: "CanTakeMoreSimilarItems w pl entry cnt None 0 = (res, ns)"
    by (rule prod.exhaust)
  let ?n = "if res \<noteq> EQUIP_ERR_OK then cnt - ns else cnt"
  let ?rest = "search_everywhere w pl bag slot proto None ns"
  let ?in_bag = "\<lambda>dest c. if bag \<noteq> NULL_BAG
      then search_bag w pl bag slot proto None ns ?rest dest c else ?rest dest c"
  have start: "plan_open (mk_pos bag slot) w pl proto ?n [] ?n" by (simp add: plan_inv_def plan_open_def)
  have in_bag: "answer_ok (mk_pos bag slot) w pl proto ?n ns (?in_bag d c)" if "plan_open (mk_pos bag slot) w pl proto ?n d c" for d c
    using that assms(2, 3) by (auto intro!: search_bag_ok search_everywhere_ok)
  obtain sres d c where slot: "CanStoreItem_InSpecificSlot w pl bag slot proto False None [] ?n = (sres, d, c)"
    by (rule prod_cases3)
  have spec: "answer_ok (mk_pos bag slot) w pl proto ?n ns (searched ns (sres, d, c) ?in_bag)"
    if "bag = 255 \<Longrightarrow> unat slot * 2 \<le> 224" "bag \<noteq> NULL_BAG"
    using InSpecificSlot_ok [OF start assms(2) _ _ slot] that in_bag by (intro searched_ok) auto
  have "answer_ok (mk_pos bag slot) w pl proto ?n ns (CanStoreNewItem w pl bag slot entry cnt)"
    using spec in_bag [OF start] proto sim slot
    by (auto simp: CanStoreNewItem_def CanStoreItem_def Let_def answer_ok_def not_less)
  then have "ns = 0" "plan_inv (mk_pos bag slot) w pl proto ?n dest 0" using ok by (auto simp: answer_ok_def)
  then show ?thesis using similar_limit [OF sim proto] by (auto split: if_splits)
qed

text \<open>C17: when \<^verbatim>\<open>CanStoreNewItem\<close> says that a number of new items can be stored, the places it
  answers with are distinct, together take exactly that number, none of them none at all, each is either a free place
  or the
  same item with room, no stack becomes larger than the prototype allows, and the limit on
  how many of the item one may carry is respected. This needs the stack size to fit the 8-bit
  count of \<^verbatim>\<open>ItemPosCount\<close>. A slot for bags, or a bag that is not equipped, is used only where
  the caller asked for it.\<close>

theorem CanStoreNewItem_plan:
  assumes "w_proto w entry = Some proto" "stack_size_ok proto" "bags_small pl"
    "CanStoreNewItem w pl bag slot entry cnt = (EQUIP_ERR_OK, dest, left)"
  shows "distinct (map fst dest) \<and> sum_list (map (unat \<circ> snd) dest) = unat cnt \<and>
    (\<forall>x \<in> set dest. fits w pl proto x \<and> place_asked (mk_pos bag slot) (fst x)) \<and>
    (cnt \<noteq> 0 \<longrightarrow> (\<forall>x \<in> set dest. snd x \<noteq> 0)) \<and>
    (ip_MaxCount proto > 0 \<longrightarrow> GetItemCount pl (ip_ItemId proto) True None + cnt \<le> ip_MaxCount proto)"
  using CanStoreNewItem_answer [OF assms] by (simp add: plan_inv_def)

text \<open>A small world and a player with a backpack for the examples.\<close>

definition cloth_proto :: item_proto where
  "cloth_proto = no_proto\<lparr>ip_ItemId := 2589, ip_Class := 7, ip_Name1 := ''Linen Cloth'',
     ip_Quality := 1, ip_Stackable := 20\<rparr>"

definition sample_world :: world where
  "sample_world = \<lparr>w_proto = (\<lambda>e. if e = 2589 then Some cloth_proto else None),
     w_randprop = (\<lambda>_. None), w_enchant_mod = (\<lambda>_. 0), w_money_hook = (\<lambda>d. d),
     w_player_name = (\<lambda>g. if g = 7 then Some ''Ann'' else None), w_now = 1700000000, w_wday = 2,
     w_hour = 22, w_min = 13, w_sec = 20, w_ranks = 5\<rparr>"

definition cloth_stack :: item where
  "cloth_stack = new_item\<lparr>it_entry := 2589, it_lowguid := 1, it_owner := 7, it_contained := 7,
     it_count := 18, it_slot := 23, it_uState := ITEM_UNCHANGED\<rparr>"

definition sample_player :: player where
  "sample_player = \<lparr>pl_guid = 7, pl_name = ''Ann'', pl_rank = 0, pl_money = 30000000, pl_inWorld = True,
     pl_items = (replicate 118 None)[23 := Some 0], pl_queue = [], pl_queueBlocked = False,
     pl_heap = (\<lambda>p. if p = 0 then cloth_stack else new_item), pl_freed = [], pl_next = 1,
     pl_itemGuids = ObjectGuidGenerator 2, pl_events = []\<rparr>"

lemma sample_plan:
  "CanStoreNewItem sample_world sample_player 0 255 2589 25 =
     (EQUIP_ERR_OK, [(0xFF17, 2), (0xFF18, 20), (0xFF19, 3)], None)"
  by code_simp

lemma bags_small_sample: "bags_small sample_player"
proof -
  have "it_bagSize (pl_heap sample_player p) = 0" for p
    by (simp add: sample_player_def cloth_stack_def new_item_def)
  then show ?thesis by (simp add: bags_small_def)
qed

theorem CanStoreNewItem_plan_witness:
  "sum_list (map (unat \<circ> snd) [(0xFF17 :: u16, 2 :: u8), (0xFF18, 20), (0xFF19, 3)]) = unat (25 :: u32) \<and>
   list_all (fits sample_world sample_player cloth_proto) [(0xFF17, 2), (0xFF18, 20), (0xFF19, 3)]"
  using CanStoreNewItem_plan [OF _ _ bags_small_sample sample_plan, of cloth_proto]
  by (simp add: sample_world_def cloth_proto_def stack_size_ok_def)

section \<open>Money\<close>

text \<open>A purse changes like an integer clipped to the interval from 0 to the cap.\<close>

lemma uint_add_sint:
  fixes m d :: u32
  assumes "0 \<le> uint m + sint d" "uint m + sint d < 2 ^ 32"
  shows "uint (m + d) = uint m + sint d"
proof -
  have "m + d = word_of_int (uint m + sint d)" by simp
  then show ?thesis using assms by (simp only: uint_word_of_int) simp
qed

lemma uint_minus_sint:
  fixes d :: u32
  assumes "sint d < 0"
  shows "uint (- d) = - sint d"
proof -
  have "- d = word_of_int (- sint d)" by simp
  moreover have "- sint d < 2 ^ 32" using sint_ge [of d] by simp
  ultimately show ?thesis using assms by (simp only: uint_word_of_int) simp
qed

lemma SetMoney_money [simp]: "pl_money (SetMoney v pl) = v"
  by (simp add: SetMoney_def event_def)

lemma uint_cap_minus:
  fixes d :: u32
  assumes "0 \<le> sint d" "sint d \<le> 0x7FFFFFFE"
  shows "uint (MAX_MONEY_AMOUNT - d) = 0x7FFFFFFE - sint d"
proof -
  have "MAX_MONEY_AMOUNT - d = word_of_int (0x7FFFFFFE - sint d)" by simp
  then show ?thesis using assms by (simp only: uint_word_of_int) simp
qed

lemma ModifyMoney_clips:
  assumes "w_money_hook w d = d" "sint d \<le> 0x7FFFFFFE" "uint (pl_money pl) \<le> 0x7FFFFFFE"
  shows "uint (pl_money (ModifyMoney w d pl)) =
    max 0 (min 0x7FFFFFFE (uint (pl_money pl) + sint d))"
proof (cases "sint d < 0")
  case True
  then have "pl_money pl > - d \<longleftrightarrow> uint (pl_money pl) > - sint d"
    by (simp add: word_less_alt uint_minus_sint)
  then show ?thesis
    using True assms uint_add_sint [of "pl_money pl" d]
    by (auto simp: ModifyMoney_def word_sless_alt Let_def)
next
  case False
  then have "pl_money pl < MAX_MONEY_AMOUNT - d \<longleftrightarrow> uint (pl_money pl) < 0x7FFFFFFE - sint d"
    using assms(2) uint_cap_minus [of d] by (simp add: word_less_alt)
  then show ?thesis
    using False assms uint_add_sint [of "pl_money pl" d] uint_ge_0 [of "pl_money pl"]
    by (auto simp: ModifyMoney_def word_sless_alt Let_def)
qed



end
