(* ===== verification/Inventory_View.thy ===== *)
theory Inventory_View
  imports Item_Storage_Props
begin

text \<open>
  The inventory of a player as a map from places to items, and as a map from places to an entry and a
  count. The update queue, events, bindings and the other fields of items are shown
  not to matter for it, and storing and destroying items are shown to be updates of the map.
\<close>

section \<open>The map of places\<close>

type_synonym place = "u8 \<times> u8"

definition items_at :: "player \<Rightarrow> place \<Rightarrow> ptr option" where
  "items_at pl x = GetItemByPos pl (fst x) (snd x)"

definition stacks :: "player \<Rightarrow> place \<Rightarrow> (u32 \<times> u32) option" where
  "stacks pl x = map_option (\<lambda>p. (it_entry (pl_heap pl p), it_count (pl_heap pl p))) (items_at pl x)"

definition bag_index :: "u8 \<Rightarrow> bool" where
  "bag_index b =
     ((INVENTORY_SLOT_BAG_START \<le> b \<and> b < INVENTORY_SLOT_BAG_END) \<or> (BANK_SLOT_BAG_START \<le> b \<and> b < BANK_SLOT_BAG_END))"

text \<open>
  A well-formed inventory: 118 slots, bags of at most 36 slots, no item in two places or at an
  address that was not allocated, and every item knows its place.
\<close>

definition knows_place :: "player \<Rightarrow> place \<Rightarrow> ptr \<Rightarrow> bool" where
  "knows_place pl x p =
     (it_slot (pl_heap pl p) = snd x \<and>
      it_container (pl_heap pl p) = (if fst x = INVENTORY_SLOT_BAG_0 then None else pl_items pl ! unat (fst x)))"

definition bag_body :: "item \<Rightarrow> bool" where
  "bag_body it = (length (it_bagslot it) = 36 \<and> it_bagSize it \<le> 36)"

definition pl_ok :: "player \<Rightarrow> bool" where
  "pl_ok pl =
     (length (pl_items pl) = 118 \<and>
      (\<forall>x p. items_at pl x = Some p \<longrightarrow> p < pl_next pl \<and> knows_place pl x p \<and> bag_body (pl_heap pl p)) \<and>
      (\<forall>x y p. items_at pl x = Some p \<and> items_at pl y = Some p \<longrightarrow> x = y))"

text \<open>Two players with the same items in the same places, with the same bags, entries and counts.\<close>

definition same_body :: "item \<Rightarrow> item \<Rightarrow> bool" where
  "same_body it it' =
     (it_entry it' = it_entry it \<and> it_count it' = it_count it \<and> it_bagSize it' = it_bagSize it \<and>
      it_bagslot it' = it_bagslot it \<and> it_slot it' = it_slot it \<and> it_container it' = it_container it)"

definition same_shape :: "player \<Rightarrow> player \<Rightarrow> bool" where
  "same_shape pl pl' =
     (pl_items pl' = pl_items pl \<and> pl_next pl' = pl_next pl \<and> (\<forall>p. same_body (pl_heap pl p) (pl_heap pl' p)))"

lemma same_body_refl [simp]: "same_body it it"
  by (simp add: same_body_def)

lemma same_shape_refl [simp]: "same_shape pl pl"
  by (simp add: same_shape_def)

lemma same_shape_trans: "same_shape pl pl' \<Longrightarrow> same_shape pl' pl'' \<Longrightarrow> same_shape pl pl''"
  by (simp add: same_shape_def same_body_def)

lemma same_shape_items: "same_shape pl pl' \<Longrightarrow> items_at pl' = items_at pl"
  by (auto simp: same_shape_def same_body_def items_at_def GetItemByPos_def Bag_GetItemByPos_def fun_eq_iff split: option.splits)

lemma same_shape_stacks: "same_shape pl pl' \<Longrightarrow> stacks pl' = stacks pl"
  using same_shape_items [of pl pl'] by (auto simp: stacks_def same_shape_def same_body_def fun_eq_iff)

lemma same_shape_ok: "same_shape pl pl' \<Longrightarrow> pl_ok pl \<Longrightarrow> pl_ok pl'"
  using same_shape_items [of pl pl'] by (simp add: pl_ok_def same_shape_def same_body_def knows_place_def bag_body_def)

section \<open>Operations that keep the shape\<close>

lemma same_shape_event [simp]: "same_shape pl pl' \<Longrightarrow> same_shape pl (event e pl')"
  by (simp add: same_shape_def event_def)

lemma same_shape_events: "same_shape pl pl' \<Longrightarrow> same_shape pl (fold event es pl')"
  by (induction es arbitrary: pl') auto

lemma same_shape_in_world [simp]: "same_shape pl pl' \<Longrightarrow> same_shape pl (in_world_update u es pl')"
  by (simp add: in_world_update_def same_shape_events)

lemma same_shape_upd:
  assumes "same_shape pl pl'" "\<And>it. same_body it (f it)"
  shows "same_shape pl (upd_item p f pl')"
  using assms by (simp add: same_shape_def upd_item_def same_body_def)

lemma same_shape_queue [simp]:
  "same_shape pl pl' \<Longrightarrow> same_shape pl (AddToUpdateQueueOf p f pl')"
  "same_shape pl pl' \<Longrightarrow> same_shape pl (RemoveFromUpdateQueueOf p f pl')"
  by (auto simp: AddToUpdateQueueOf_def RemoveFromUpdateQueueOf_def Let_def same_shape_def same_body_def upd_item_def)

lemma same_shape_SetState [simp]: "same_shape pl pl' \<Longrightarrow> same_shape pl (SetState p st f pl')"
  by (auto simp: SetState_def delete_item_def same_body_def same_shape_upd intro!: same_shape_queue)
     (simp add: same_shape_def same_body_def RemoveFromUpdateQueueOf_def Let_def upd_item_def)

lemma same_shape_SetEnchantment [simp]: "same_shape pl pl' \<Longrightarrow> same_shape pl (SetEnchantment p i a b c pl')"
  by (simp add: SetEnchantment_def same_shape_upd same_body_def)

lemma same_shape_enchant_fold:
  "same_shape pl pl' \<Longrightarrow> same_shape pl (fold (\<lambda>i. SetEnchantment p i (g i) 0 0) is pl')"
  by (induction "is" arbitrary: pl') auto

lemma same_shape_SetItemRandomProperties [simp]:
  "same_shape pl pl' \<Longrightarrow> same_shape pl (SetItemRandomProperties w p r pl')"
  by (auto simp: SetItemRandomProperties_def Let_def same_shape_upd same_body_def
      intro!: same_shape_enchant_fold same_shape_SetEnchantment split: option.splits)


section \<open>Destroying\<close>

text \<open>Taking an item out of its place.\<close>

definition take_out :: "u8 \<Rightarrow> u8 \<Rightarrow> ptr \<Rightarrow> player \<Rightarrow> player" where
  "take_out bag slot p pl =
     upd_item p (\<lambda>it. it\<lparr>it_slot := NULL_SLOT\<rparr>)
       (if bag = INVENTORY_SLOT_BAG_0 then pl\<lparr>pl_items := (pl_items pl)[unat slot := None]\<rparr>
        else (case GetItemByPos pl INVENTORY_SLOT_BAG_0 bag of
                None \<Rightarrow> pl | Some pBag \<Rightarrow> Bag_RemoveItem pBag slot pl))"

lemma DestroyItem_no_bag: "bag < 19 \<Longrightarrow> DestroyItem_depth n w bag slot u pl = pl"
  by (cases n) (auto simp: GetItemByPos_def word_less_nat_alt word_le_nat_alt)

lemma DestroyItem_contents: "slot < 19 \<Longrightarrow> fold (\<lambda>i. DestroyItem_depth n w slot (of_nat i) u) is pl = pl"
  by (induction "is" arbitrary: pl) (auto simp: DestroyItem_no_bag)

lemma same_shape_take_out_cong:
  assumes "same_shape pl pl'"
  shows "same_shape (upd_item p (\<lambda>it. it\<lparr>it_slot := NULL_SLOT\<rparr>) pl) (upd_item p (\<lambda>it. it\<lparr>it_contained := 0, it_slot := NULL_SLOT\<rparr>) pl')"
  using assms by (auto simp: same_shape_def same_body_def upd_item_def)

lemma unlink_take_out:
  obtains pl0 where "same_shape pl pl0"
    "upd_item p (\<lambda>it. it\<lparr>it_slot := NULL_SLOT\<rparr>) (unlink_item proto bag slot p pl) = take_out bag slot p pl0"
proof (cases "bag = INVENTORY_SLOT_BAG_0")
  case True
  let ?a = "if slot < INVENTORY_SLOT_BAG_END
     then event (RemoveItemMods p slot) (if ip_ItemSet proto \<noteq> 0 then event (RemoveItemsSetItem (ip_ItemSet proto)) pl else pl) else pl"
  let ?b = "if slot < EQUIPMENT_SLOT_END
     then event (ClearVisibleItemSlot slot) (event (RemoveItemDependentAurasAndCasts p) ?a) else ?a"
  show ?thesis by (rule that [of ?b]) (simp_all add: True unlink_item_def take_out_def Let_def)
next
  case False
  then show ?thesis using that [of pl] by (simp add: unlink_item_def take_out_def)
qed

text \<open>Up to the shape, \<^verbatim>\<open>DestroyItem\<close> is taking the item out.\<close>

lemma destroy_rest_take_out:
  assumes "same_shape pl pl1"
  obtains pl0 where "same_shape pl pl0" "same_shape (take_out bag slot p pl0) (destroy_rest w bag slot u p it pl1)"
proof -
  define pl3 where "pl3 = event (ItemRemovedQuestCheck (it_entry it) (it_count it))
     (event (RemoveItemDurations p) (event (RemoveEnchantmentDurations p)
       (if it_flags it AND ITEM_DYNFLAG_WRAPPED \<noteq> 0 then event (DeleteGift (it_lowguid it)) pl1 else pl1)))"
  obtain pl0 where pl0: "same_shape pl3 pl0"
    "upd_item p (\<lambda>it. it\<lparr>it_slot := NULL_SLOT\<rparr>) (unlink_item (GetProto w it) bag slot p pl3) = take_out bag slot p pl0"
    by (rule unlink_take_out)
  have "same_shape pl pl3" using assms by (simp add: pl3_def)
  moreover have "same_shape (take_out bag slot p pl0) (destroy_rest w bag slot u p it pl1)"
    unfolding destroy_rest_def Let_def pl3_def [symmetric] pl0(2) [symmetric]
    by (intro same_shape_SetState same_shape_take_out_cong) simp
  ultimately show thesis using that pl0(1) same_shape_trans by blast
qed

lemma DestroyItem_take_out:
  assumes "GetItemByPos pl bag slot = Some p" "it_slot (pl_heap pl p) = slot"
  obtains pl0 where "same_shape pl pl0" "same_shape (take_out bag slot p pl0) (DestroyItem w bag slot u pl)"
proof -
  let ?it = "pl_heap pl p"
  obtain pl1 where "same_shape pl pl1" "DestroyItem w bag slot u pl = destroy_rest w bag slot u p ?it pl1"
  proof (cases "IsBag w ?it \<and> IsEquipped ?it")
    case True
    then have "slot < 19" using assms(2) by (simp add: IsEquipped_def)
    then show ?thesis
      using that [of pl] True assms(1) DestroyItem_contents [of slot "Suc 0" w u "[0..<MAX_BAG_SIZE]" pl]
      unfolding DestroyItem_def numeral_2_eq_2 DestroyItem_depth.simps(2) [of "Suc 0"] Let_def by simp
  next
    case False
    show ?thesis
      by (rule that [of "if IsBag w ?it \<and> \<not> Bag_IsEmpty ?it
            then event (AnticheatAction ''Player::DestroyItem: destroying non equipped bag with items inside!'') pl else pl"])
         (use False assms(1) in \<open>simp_all add: DestroyItem_def numeral_2_eq_2 Let_def\<close>)
  qed
  then show thesis using that destroy_rest_take_out [of pl pl1 bag slot p w u ?it] by metis
qed


lemma bag_index_not_backpack [simp]: "\<not> bag_index INVENTORY_SLOT_BAG_0"
  by (simp add: bag_index_def)

lemma items_at_cases:
  "items_at pl (bag, slot) =
     (if bag = INVENTORY_SLOT_BAG_0
      then (if slot < BANK_SLOT_BAG_END \<or> (slot \<ge> KEYRING_SLOT_START \<and> slot < KEYRING_SLOT_END) then pl_items pl ! unat slot else None)
      else if bag_index bag
      then (case pl_items pl ! unat bag of None \<Rightarrow> None | Some pBag \<Rightarrow> Bag_GetItemByPos (pl_heap pl pBag) slot)
      else None)"
  by (simp add: items_at_def GetItemByPos_def bag_index_def)

lemma bag_at_own_slot: "bag_index b \<Longrightarrow> items_at pl (INVENTORY_SLOT_BAG_0, b) = pl_items pl ! unat b"
  by (auto simp: items_at_cases bag_index_def word_less_nat_alt word_le_nat_alt)

lemma pl_okD:
  assumes "pl_ok pl"
  shows "length (pl_items pl) = 118" "items_at pl x = Some p \<Longrightarrow> p < pl_next pl" "items_at pl x = Some p \<Longrightarrow> knows_place pl x p"
    "items_at pl x = Some p \<Longrightarrow> items_at pl y = Some p \<Longrightarrow> x = y"
    "bag_index b \<Longrightarrow> pl_items pl ! unat b = Some p \<Longrightarrow> length (it_bagslot (pl_heap pl p)) = 36 \<and> it_bagSize (pl_heap pl p) \<le> 36"
    "items_at pl x = Some p \<Longrightarrow> bag_body (pl_heap pl p)"
proof -
  show "bag_index b \<Longrightarrow> pl_items pl ! unat b = Some p \<Longrightarrow> length (it_bagslot (pl_heap pl p)) = 36 \<and> it_bagSize (pl_heap pl p) \<le> 36"
    using assms unfolding pl_ok_def bag_body_def by (metis bag_at_own_slot)
qed (use assms in \<open>unfold pl_ok_def, blast+\<close>)

lemma bag_slot_bound:
  assumes "pl_ok pl" "bag_index b" "pl_items pl ! unat b = Some p" "Bag_GetItemByPos (pl_heap pl p) slot = Some q"
  shows "unat slot < 36"
  using pl_okD(5) [OF assms(1-3)] assms(4)
  by (auto simp: Bag_GetItemByPos_def word_less_nat_alt word_le_nat_alt split: if_splits)

text \<open>Replacing the content of a slot of the player, and of a slot of one of the bags.\<close>

lemma items_at_set_slot:
  assumes "length (pl_items pl) = 118" "slot < BANK_SLOT_BAG_END \<or> (slot \<ge> KEYRING_SLOT_START \<and> slot < KEYRING_SLOT_END)"
    "\<not> bag_index slot" "pl_items pl' = (pl_items pl)[unat slot := v]"
    "\<And>q j. Bag_GetItemByPos (pl_heap pl' q) j = Bag_GetItemByPos (pl_heap pl q) j \<or> q \<notin> ran (items_at pl)"
  shows "items_at pl' = (items_at pl)((INVENTORY_SLOT_BAG_0, slot) := v)"
proof (rule ext)
  fix x :: place
  obtain b i where x: "x = (b, i)" by (cases x)
  have len: "unat slot < length (pl_items pl)" using assms(1,2) by (auto simp: word_less_nat_alt)
  show "items_at pl' x = ((items_at pl)((INVENTORY_SLOT_BAG_0, slot) := v)) x"
  proof (cases "b = INVENTORY_SLOT_BAG_0")
    case True
    then show ?thesis using assms(2,4) len by (auto simp: x items_at_cases nth_list_update simp flip: word_unat_eq_iff)
  next
    case False
    show ?thesis
    proof (cases "bag_index b")
      case bi: True
      then have "b \<noteq> slot" using assms(3) by auto
      then have "pl_items pl' ! unat b = pl_items pl ! unat b" using assms(4) by (simp add: word_unat_eq_iff)
      moreover have "Bag_GetItemByPos (pl_heap pl' q) i = Bag_GetItemByPos (pl_heap pl q) i" if "pl_items pl ! unat b = Some q" for q
        using assms(5) [of q i] that bag_at_own_slot [OF bi, of pl] by (auto simp: ran_def)
      ultimately show ?thesis using False bi by (auto simp: x items_at_cases split: option.splits)
    next
      case nb: False
      then show ?thesis using False by (simp add: x items_at_cases)
    qed
  qed
qed

lemma items_at_set_bag_slot:
  assumes ok: "pl_ok pl" and bag: "bag_index bag" "pl_items pl ! unat bag = Some pBag" "ucast slot < it_bagSize (pl_heap pl pBag)"
    and upd: "pl_items pl' = pl_items pl" "it_bagSize (pl_heap pl' pBag) = it_bagSize (pl_heap pl pBag)"
      "it_bagslot (pl_heap pl' pBag) = (it_bagslot (pl_heap pl pBag))[unat slot := v]"
      "\<And>q j. q \<noteq> pBag \<Longrightarrow> Bag_GetItemByPos (pl_heap pl' q) j = Bag_GetItemByPos (pl_heap pl q) j \<or> q \<notin> ran (items_at pl)"
  shows "items_at pl' = (items_at pl)((bag, slot) := v)"
proof (rule ext)
  fix x :: place
  obtain b i where x: "x = (b, i)" by (cases x)
  have len: "unat slot < length (it_bagslot (pl_heap pl pBag))"
    using pl_okD(5) [OF ok bag(1,2)] bag(3) by (auto simp: word_less_nat_alt word_le_nat_alt)
  have uniq: "b' = bag" if "bag_index b'" "pl_items pl ! unat b' = Some pBag" for b'
    using pl_okD(4) [OF ok, of "(INVENTORY_SLOT_BAG_0, b')" pBag "(INVENTORY_SLOT_BAG_0, bag)"] that bag
    by (simp add: bag_at_own_slot)
  have nz: "bag \<noteq> INVENTORY_SLOT_BAG_0" using bag(1) by auto
  show "items_at pl' x = ((items_at pl)((bag, slot) := v)) x"
  proof (cases "bag_index b")
    case bi: True
    show ?thesis
    proof (cases "pl_items pl ! unat b")
      case None
      then show ?thesis using bi upd(1) bag(2) by (auto simp: x items_at_cases)
    next
      case (Some q)
      show ?thesis
      proof (cases "q = pBag")
        case True
        then have "b = bag" using uniq bi Some by simp
        then show ?thesis
          using True Some bi nz upd(1-3) bag(3) len
          by (auto simp: x items_at_cases Bag_GetItemByPos_def nth_list_update simp flip: word_unat_eq_iff)
      next
        case False
        then have "b \<noteq> bag" using Some bag(2) by auto
        moreover have "q \<in> ran (items_at pl)" using Some bag_at_own_slot [OF bi, of pl] by (auto simp: ran_def)
        ultimately show ?thesis using False Some bi upd(1) upd(4) [of q i] by (auto simp: x items_at_cases)
      qed
    qed
  next
    case False
    then show ?thesis using bag(1) nz upd(1) by (auto simp: x items_at_cases)
  qed
qed

lemma take_out_items:
  assumes ok: "pl_ok pl" and at: "items_at pl (bag, slot) = Some p" and nb: "\<not> IsBagPos bag slot"
  shows "items_at (take_out bag slot p pl) = (items_at pl)((bag, slot) := None)"
proof (cases "bag = INVENTORY_SLOT_BAG_0")
  case True
  then show ?thesis
    using at nb pl_okD(1) [OF ok]
    by (simp, intro items_at_set_slot)
       (auto simp: items_at_cases take_out_def upd_item_def Bag_GetItemByPos_def IsBagPos_def bag_index_def split: if_splits)
next
  case False
  then have bi: "bag_index bag" using at by (auto simp: items_at_cases split: if_splits)
  obtain pBag where pb: "pl_items pl ! unat bag = Some pBag" "Bag_GetItemByPos (pl_heap pl pBag) slot = Some p"
    using at False bi by (auto simp: items_at_cases split: option.splits)
  then have "GetItemByPos pl INVENTORY_SLOT_BAG_0 bag = Some pBag" using bag_at_own_slot [OF bi, of pl] by (simp add: items_at_def)
  then show ?thesis
    using False pb
    by (intro items_at_set_bag_slot [OF ok bi pb(1)])
       (auto simp: take_out_def Bag_RemoveItem_def upd_item_def Bag_GetItemByPos_def Let_def split: option.splits if_splits)
qed

text \<open>A player whose map of places changed at one place stays well formed.\<close>

lemma pl_ok_update:
  assumes ok: "pl_ok pl" and at: "items_at pl' = (items_at pl)(x := v)"
    and size: "length (pl_items pl') = 118" "pl_next pl \<le> pl_next pl'"
    and new: "\<And>p. v = Some p \<Longrightarrow> p < pl_next pl' \<and> knows_place pl' x p \<and> bag_body (pl_heap pl' p) \<and>
      (\<forall>y. y \<noteq> x \<longrightarrow> items_at pl y \<noteq> Some p)"
    and bags: "\<And>b. bag_index b \<Longrightarrow> pl_items pl' ! unat b = pl_items pl ! unat b"
    and others: "\<And>y q. y \<noteq> x \<Longrightarrow> items_at pl y = Some q \<Longrightarrow>
      it_slot (pl_heap pl' q) = it_slot (pl_heap pl q) \<and> it_container (pl_heap pl' q) = it_container (pl_heap pl q) \<and>
      length (it_bagslot (pl_heap pl' q)) = length (it_bagslot (pl_heap pl q)) \<and>
      it_bagSize (pl_heap pl' q) = it_bagSize (pl_heap pl q)"
  shows "pl_ok pl'"
proof -
  have known: "q < pl_next pl' \<and> knows_place pl' y q \<and> bag_body (pl_heap pl' q)" if "items_at pl' y = Some q" for y q
  proof (cases "y = x")
    case True
    then show ?thesis using that new at by simp
  next
    case False
    then have y: "items_at pl y = Some q" using that at by simp
    then have "fst y \<noteq> INVENTORY_SLOT_BAG_0 \<Longrightarrow> bag_index (fst y)"
      by (cases y) (auto simp: items_at_cases split: if_splits)
    then show ?thesis
      using pl_okD(2, 3, 6) [OF ok y] others [OF False y] bags size(2) by (auto simp: knows_place_def bag_body_def)
  qed
  have uniq: "y = z" if "items_at pl' y = Some q" "items_at pl' z = Some q" for y z q
    using that at new [of q] pl_okD(4) [OF ok, of y q z] by (cases "y = x"; cases "z = x") fastforce+
  show ?thesis unfolding pl_ok_def using known uniq size(1) by blast
qed

lemma stacks_update:
  assumes "items_at pl' = (items_at pl)(x := v)"
    and "\<And>y q. y \<noteq> x \<Longrightarrow> items_at pl y = Some q \<Longrightarrow>
      it_entry (pl_heap pl' q) = it_entry (pl_heap pl q) \<and> it_count (pl_heap pl' q) = it_count (pl_heap pl q)"
  shows "stacks pl' = (stacks pl)(x := map_option (\<lambda>p. (it_entry (pl_heap pl' p), it_count (pl_heap pl' p))) v)"
proof (rule ext)
  fix y
  show "stacks pl' y = ((stacks pl)(x := map_option (\<lambda>p. (it_entry (pl_heap pl' p), it_count (pl_heap pl' p))) v)) y"
    using assms by (cases "y = x"; cases "items_at pl y") (simp_all add: stacks_def)
qed

lemma take_out_frame:
  assumes "pl_ok pl" "items_at pl (bag, slot) = Some p" "\<not> IsBagPos bag slot"
  shows "length (pl_items (take_out bag slot p pl)) = 118" "pl_next (take_out bag slot p pl) = pl_next pl"
    "bag_index b \<Longrightarrow> pl_items (take_out bag slot p pl) ! unat b = pl_items pl ! unat b"
    "length (it_bagslot (pl_heap (take_out bag slot p pl) q)) = length (it_bagslot (pl_heap pl q)) \<and>
     it_bagSize (pl_heap (take_out bag slot p pl) q) = it_bagSize (pl_heap pl q) \<and>
     it_entry (pl_heap (take_out bag slot p pl) q) = it_entry (pl_heap pl q) \<and>
     it_count (pl_heap (take_out bag slot p pl) q) = it_count (pl_heap pl q)"
    "q \<noteq> p \<Longrightarrow> it_slot (pl_heap (take_out bag slot p pl) q) = it_slot (pl_heap pl q) \<and>
     it_container (pl_heap (take_out bag slot p pl) q) = it_container (pl_heap pl q)"
proof -
  have there: "it_bagslot (pl_heap pl pBag) ! unat slot = Some p"
    if "bag \<noteq> INVENTORY_SLOT_BAG_0" "GetItemByPos pl INVENTORY_SLOT_BAG_0 bag = Some pBag" for pBag
    using assms(2) that by (auto simp: items_at_def GetItemByPos_def Bag_GetItemByPos_def split: if_splits option.splits)
  note defs = take_out_def Bag_RemoveItem_def upd_item_def Let_def
  show "length (pl_items (take_out bag slot p pl)) = 118" "pl_next (take_out bag slot p pl) = pl_next pl"
    using pl_okD(1) [OF assms(1)] by (auto simp: defs split: option.split)
  show "pl_items (take_out bag slot p pl) ! unat b = pl_items pl ! unat b" if "bag_index b"
    using assms(3) that
    by (auto simp: defs nth_list_update IsBagPos_def bag_index_def simp flip: word_unat_eq_iff split: option.split)
  show "length (it_bagslot (pl_heap (take_out bag slot p pl) q)) = length (it_bagslot (pl_heap pl q)) \<and>
     it_bagSize (pl_heap (take_out bag slot p pl) q) = it_bagSize (pl_heap pl q) \<and>
     it_entry (pl_heap (take_out bag slot p pl) q) = it_entry (pl_heap pl q) \<and>
     it_count (pl_heap (take_out bag slot p pl) q) = it_count (pl_heap pl q)"
    by (auto simp: defs split: option.split)
  show "it_slot (pl_heap (take_out bag slot p pl) q) = it_slot (pl_heap pl q) \<and>
     it_container (pl_heap (take_out bag slot p pl) q) = it_container (pl_heap pl q)" if "q \<noteq> p"
    using that there by (auto simp: defs split: option.split)
qed

lemma take_out_refines:
  assumes "pl_ok pl" "items_at pl (bag, slot) = Some p" "\<not> IsBagPos bag slot"
  shows "pl_ok (take_out bag slot p pl) \<and> stacks (take_out bag slot p pl) = (stacks pl)((bag, slot) := None)"
proof
  note items = take_out_items [OF assms] and frame = take_out_frame [OF assms]
  have "q \<noteq> p" if "y \<noteq> (bag, slot)" "items_at pl y = Some q" for y q
    using that pl_okD(4) [OF assms(1, 2), of y] by auto
  then show "pl_ok (take_out bag slot p pl)"
    using frame by (intro pl_ok_update [OF assms(1) items]) auto
  show "stacks (take_out bag slot p pl) = (stacks pl)((bag, slot) := None)"
    using stacks_update [OF items] frame(4) by simp
qed

text \<open>The player of the examples is well formed.\<close>

lemma items_at_sample: "items_at sample_player x = (if x = (INVENTORY_SLOT_BAG_0, 23) then Some 0 else None)"
proof -
  obtain b s where x: "x = (b, s)" by (cases x)
  have "pl_items sample_player ! unat i = (if i = 23 then Some 0 else None)" if "unat i < 118" for i :: u8
    using that by (auto simp: sample_player_def nth_list_update word_unat_eq_iff)
  moreover have "pl_items sample_player ! 23 = Some 0" by (simp add: sample_player_def)
  ultimately show ?thesis
    by (auto simp: x items_at_cases bag_index_def word_less_nat_alt word_le_nat_alt)
qed

lemma sample_player_ok: "pl_ok sample_player"
  by (auto simp: pl_ok_def items_at_sample split: if_splits)
     (simp_all add: sample_player_def knows_place_def bag_body_def cloth_stack_def new_item_def)

lemma DestroyItem_stacks:
  assumes "pl_ok pl" "items_at pl (bag, slot) = Some p" "\<not> IsBagPos bag slot"
  shows "pl_ok (DestroyItem w bag slot update pl) \<and>
    stacks (DestroyItem w bag slot update pl) = (stacks pl)((bag, slot) := None)"
proof -
  have "it_slot (pl_heap pl p) = slot" using pl_okD(3) [OF assms(1, 2)] by (simp add: knows_place_def)
  then obtain pl0 where pl0: "same_shape pl pl0"
    "same_shape (take_out bag slot p pl0) (DestroyItem w bag slot update pl)"
    using DestroyItem_take_out assms(2) by (metis fst_conv items_at_def snd_conv)
  have "pl_ok pl0" "items_at pl0 (bag, slot) = Some p"
    using pl0(1) assms(1, 2) same_shape_ok same_shape_items by auto
  then have "pl_ok (take_out bag slot p pl0) \<and> stacks (take_out bag slot p pl0) = (stacks pl0)((bag, slot) := None)"
    using assms(3) by (rule take_out_refines)
  then show ?thesis using pl0 by (simp add: same_shape_stacks same_shape_ok)
qed

text \<open>C16: \<^verbatim>\<open>DestroyItem\<close> on an occupied place of a well-formed inventory, other than one of the slots
  for bags, is the removal of that place from the map of stacks: no other place changes, and
  the inventory stays well formed.\<close>

theorem DestroyItem_refines:
  assumes "pl_ok pl" "items_at pl (bag, slot) = Some p" "\<not> IsBagPos bag slot"
  shows "pl_ok (DestroyItem w bag slot update pl) \<and>
    stacks (DestroyItem w bag slot update pl) = (stacks pl)((bag, slot) := None)"
  using DestroyItem_stacks [OF assms] .

theorem DestroyItem_refines_witness:
  "pl_ok (DestroyItem sample_world INVENTORY_SLOT_BAG_0 23 True sample_player) \<and>
   stacks (DestroyItem sample_world INVENTORY_SLOT_BAG_0 23 True sample_player) (INVENTORY_SLOT_BAG_0, 23) = None"
  using DestroyItem_refines [OF sample_player_ok, of INVENTORY_SLOT_BAG_0 23 0 sample_world True]
  by (simp add: items_at_sample IsBagPos_def)

section \<open>Storing\<close>

text \<open>A free place an item can be put into without changing the bags.\<close>

definition free_place :: "player \<Rightarrow> place \<Rightarrow> bool" where
  "free_place pl x =
     (items_at pl x = None \<and>
      (if fst x = INVENTORY_SLOT_BAG_0
       then (snd x < BANK_SLOT_BAG_END \<or> (snd x \<ge> KEYRING_SLOT_START \<and> snd x < KEYRING_SLOT_END)) \<and> \<not> bag_index (snd x)
       else bag_index (fst x) \<and> (\<exists>pBag. pl_items pl ! unat (fst x) = Some pBag \<and>
              ucast (snd x) < it_bagSize (pl_heap pl pBag))))"

definition put_in :: "place \<Rightarrow> ptr \<Rightarrow> player \<Rightarrow> player" where
  "put_in x p pl =
     upd_item p (\<lambda>it. it\<lparr>it_slot := snd x,
         it_container := (if fst x = INVENTORY_SLOT_BAG_0 then None else pl_items pl ! unat (fst x))\<rparr>)
       (if fst x = INVENTORY_SLOT_BAG_0 then pl\<lparr>pl_items := (pl_items pl)[unat (snd x) := Some p]\<rparr>
        else (case pl_items pl ! unat (fst x) of
                None \<Rightarrow> pl
              | Some pBag \<Rightarrow> upd_item pBag (\<lambda>b. b\<lparr>it_bagslot := (it_bagslot b)[unat (snd x) := Some p]\<rparr>) pl))"

text \<open>An item that is in no place: a new one, or one that was taken out.\<close>

definition loose :: "player \<Rightarrow> ptr \<Rightarrow> bool" where
  "loose pl p = (p < pl_next pl \<and> bag_body (pl_heap pl p) \<and> p \<notin> ran (items_at pl))"

lemma put_in_items:
  assumes ok: "pl_ok pl" and free: "free_place pl x" and "loose pl p"
  shows "items_at (put_in x p pl) = (items_at pl)(x := Some p)"
proof (cases "fst x = INVENTORY_SLOT_BAG_0")
  case True
  then show ?thesis
    using free pl_okD(1) [OF ok]
    by (cases x, simp only: fst_conv, intro items_at_set_slot)
       (auto simp: free_place_def put_in_def upd_item_def Bag_GetItemByPos_def)
next
  case False
  then obtain pBag where bag: "bag_index (fst x)" "pl_items pl ! unat (fst x) = Some pBag"
      "ucast (snd x) < it_bagSize (pl_heap pl pBag)"
    using free by (auto simp: free_place_def)
  have "p \<noteq> pBag" using bag bag_at_own_slot [of "fst x" pl] assms(3) by (auto simp: loose_def ran_def)
  then show ?thesis
    using False bag items_at_set_bag_slot [OF ok bag, of "put_in x p pl" "Some p"]
    by (auto simp: put_in_def upd_item_def Bag_GetItemByPos_def)
qed

lemma put_in_bags:
  assumes "free_place pl x" "bag_index b"
  shows "pl_items (put_in x p pl) ! unat b = pl_items pl ! unat b"
proof -
  have "unat (snd x) \<noteq> unat b" if "fst x = INVENTORY_SLOT_BAG_0"
    using assms that by (auto simp: free_place_def simp flip: word_unat_eq_iff)
  then show ?thesis by (simp add: put_in_def upd_item_def split: option.split)
qed

lemma put_in_refines:
  assumes ok: "pl_ok pl" and free: "free_place pl x" and loose: "loose pl p"
  shows "pl_ok (put_in x p pl) \<and> items_at (put_in x p pl) = (items_at pl)(x := Some p) \<and>
    stacks (put_in x p pl) = (stacks pl)(x := Some (it_entry (pl_heap pl p), it_count (pl_heap pl p)))"
proof (intro conjI)
  show items: "items_at (put_in x p pl) = (items_at pl)(x := Some p)" by (rule put_in_items [OF assms])
  have not_p: "q \<noteq> p" if "items_at pl y = Some q" for y q using that loose ranI unfolding loose_def by fast
  note bags = put_in_bags [OF free]
  show "stacks (put_in x p pl) = (stacks pl)(x := Some (it_entry (pl_heap pl p), it_count (pl_heap pl p)))"
    using stacks_update [OF items] by (simp add: put_in_def upd_item_def split: option.split)
  have "it_slot (pl_heap (put_in x p pl) p) = snd x" "bag_body (pl_heap (put_in x p pl) p)"
    "it_container (pl_heap (put_in x p pl) p) = (if fst x = INVENTORY_SLOT_BAG_0 then None else pl_items pl ! unat (fst x))"
    using loose by (auto simp: put_in_def upd_item_def loose_def bag_body_def split: option.split)
  then have "knows_place (put_in x p pl) x p \<and> bag_body (pl_heap (put_in x p pl) p)"
    using free bags [of "fst x"] by (auto simp: knows_place_def free_place_def)
  moreover have "p < pl_next (put_in x p pl)" "pl_next pl \<le> pl_next (put_in x p pl)"
    "length (pl_items (put_in x p pl)) = 118"
    using loose pl_okD(1) [OF ok] by (auto simp: put_in_def upd_item_def loose_def split: option.split)
  moreover have "\<forall>y. y \<noteq> x \<longrightarrow> items_at pl y \<noteq> Some p" using not_p by blast
  moreover have "it_slot (pl_heap (put_in x p pl) q) = it_slot (pl_heap pl q) \<and>
      it_container (pl_heap (put_in x p pl) q) = it_container (pl_heap pl q) \<and>
      length (it_bagslot (pl_heap (put_in x p pl) q)) = length (it_bagslot (pl_heap pl q)) \<and>
      it_bagSize (pl_heap (put_in x p pl) q) = it_bagSize (pl_heap pl q)" if "items_at pl y = Some q" for y q
    using not_p [OF that] by (simp add: put_in_def upd_item_def split: option.split)
  ultimately show "pl_ok (put_in x p pl)"
    using bags by (intro pl_ok_update [OF ok items]) simp_all
qed

lemma free_place_kept:
  assumes "free_place pl y" "y \<noteq> x" "items_at pl' = (items_at pl)(x := v)"
    and "\<And>b. bag_index b \<Longrightarrow> pl_items pl' ! unat b = pl_items pl ! unat b"
    and "\<And>b q. bag_index b \<Longrightarrow> pl_items pl ! unat b = Some q \<Longrightarrow> it_bagSize (pl_heap pl' q) = it_bagSize (pl_heap pl q)"
  shows "free_place pl' y"
  using assms unfolding free_place_def by (cases "fst y = INVENTORY_SLOT_BAG_0") auto

lemma put_in_free_place:
  assumes "free_place pl x" "free_place pl y" "y \<noteq> x" "items_at (put_in x p pl) = (items_at pl)(x := Some p)"
  shows "free_place (put_in x p pl) y"
  using put_in_bags [OF assms(1)]
  by (intro free_place_kept [OF assms(2-4)]) (auto simp: put_in_def upd_item_def split: option.split)

lemma same_shape_upd_cong:
  assumes "same_shape pl pl'" "\<And>it it'. same_body it it' \<Longrightarrow> same_body (f it) (g it')"
  shows "same_shape (upd_item p f pl) (upd_item p g pl')"
  using assms by (simp add: same_shape_def upd_item_def)

lemma same_shape_free: "same_shape pl pl' \<Longrightarrow> free_place pl' = free_place pl"
  using same_shape_items [of pl pl'] by (auto simp: free_place_def fun_eq_iff same_shape_def same_body_def)

lemma same_shape_loose: "same_shape pl pl' \<Longrightarrow> loose pl' = loose pl"
  using same_shape_items [of pl pl'] by (intro ext) (simp add: loose_def same_shape_def same_body_def bag_body_def)

lemma same_body_bind [simp]: "same_body it (bind_on_store proto bag slot it)"
  by (simp add: bind_on_store_def SetBinding_def Let_def same_body_def)

lemma store_free_put_in:
  assumes "free_place pl (bag, slot)" "loose pl p"
  obtains pl0 where "same_shape pl pl0" "same_shape (put_in (bag, slot) p pl0) (store_free w bag slot p u pl)"
proof -
  let ?pl1 = "upd_item p (bind_on_store (GetProto w (pl_heap pl p)) bag slot) pl"
  have shape: "same_shape pl ?pl1" by (simp add: same_shape_upd)
  have "same_shape (put_in (bag, slot) p ?pl1) (store_free w bag slot p u pl)"
  proof (cases "bag = INVENTORY_SLOT_BAG_0")
    case True
    then show ?thesis
      unfolding store_free_def Let_def put_in_def
      by (simp, intro same_shape_event same_shape_SetState same_shape_in_world same_shape_upd_cong)
         (simp_all add: same_body_def)
  next
    case False
    then obtain pBag where bag: "bag_index bag" "pl_items pl ! unat bag = Some pBag"
      using assms(1) by (auto simp: free_place_def)
    then have at: "GetItemByPos ?pl1 INVENTORY_SLOT_BAG_0 bag = Some pBag" "pl_items ?pl1 ! unat bag = Some pBag"
      using bag_at_own_slot [OF bag(1), of ?pl1] shape by (simp_all add: items_at_def same_shape_def)
    then show ?thesis
      using False
      unfolding store_free_def Let_def put_in_def Bag_StoreItem_def
      by (simp, intro same_shape_event same_shape_SetState same_shape_in_world same_shape_upd_cong same_shape_refl)
         (simp_all add: same_body_def)
  qed
  then show thesis using that shape by blast
qed

text \<open>An item in no place stays as it is when another one is stored.\<close>

definition still_loose :: "player \<Rightarrow> player \<Rightarrow> ptr \<Rightarrow> bool" where
  "still_loose pl pl' p = (loose pl' p \<and> it_entry (pl_heap pl' p) = it_entry (pl_heap pl p))"

lemma still_looseI:
  assumes "loose pl p" "pl_next pl' = pl_next pl" "p \<notin> ran (items_at pl')"
    "it_entry (pl_heap pl' p) = it_entry (pl_heap pl p)" "bag_body (pl_heap pl p) \<Longrightarrow> bag_body (pl_heap pl' p)"
  shows "still_loose pl pl' p"
  using assms by (simp add: still_loose_def loose_def)

lemma still_loose_shape: "still_loose pl pl' p \<Longrightarrow> same_shape pl' pl'' \<Longrightarrow> still_loose pl pl'' p"
  by (simp add: still_loose_def same_shape_loose) (simp add: same_shape_def same_body_def)

lemma same_shape_still_loose: "same_shape pl pl0 \<Longrightarrow> still_loose pl0 pl' p \<Longrightarrow> still_loose pl pl' p"
  by (simp add: still_loose_def same_shape_def same_body_def)

lemma put_in_still_loose:
  assumes "loose pl p" "p \<noteq> q" "items_at (put_in x q pl) = (items_at pl)(x := Some q)"
  shows "still_loose pl (put_in x q pl) p"
proof (rule still_looseI [OF assms(1)])
  show "p \<notin> ran (items_at (put_in x q pl))"
    using assms by (auto simp: loose_def ran_def split: if_splits)
qed (auto simp: put_in_def upd_item_def bag_body_def split: option.split)

lemma store_free_refines:
  assumes ok: "pl_ok pl" and free: "free_place pl (bag, slot)" and loose: "loose pl p"
  shows "pl_ok (store_free w bag slot p u pl) \<and>
    items_at (store_free w bag slot p u pl) = (items_at pl)((bag, slot) := Some p) \<and>
    stacks (store_free w bag slot p u pl) = (stacks pl)((bag, slot) := Some (it_entry (pl_heap pl p), it_count (pl_heap pl p))) \<and>
    (\<forall>y. y \<noteq> (bag, slot) \<longrightarrow> free_place pl y \<longrightarrow> free_place (store_free w bag slot p u pl) y) \<and>
    (\<forall>q. q \<noteq> p \<longrightarrow> loose pl q \<longrightarrow> still_loose pl (store_free w bag slot p u pl) q)"
proof -
  obtain pl0 where pl0: "same_shape pl pl0" "same_shape (put_in (bag, slot) p pl0) (store_free w bag slot p u pl)"
    using store_free_put_in [OF free loose] .
  have "pl_ok pl0" "free_place pl0 (bag, slot)" "loose pl0 p"
    using pl0(1) assms same_shape_ok same_shape_free same_shape_loose by auto
  then have "pl_ok (put_in (bag, slot) p pl0) \<and> items_at (put_in (bag, slot) p pl0) = (items_at pl0)((bag, slot) := Some p) \<and>
    stacks (put_in (bag, slot) p pl0) = (stacks pl0)((bag, slot) := Some (it_entry (pl_heap pl0 p), it_count (pl_heap pl0 p)))"
    and "free_place pl0 y \<Longrightarrow> y \<noteq> (bag, slot) \<Longrightarrow> free_place (put_in (bag, slot) p pl0) y"
    and "q \<noteq> p \<Longrightarrow> loose pl0 q \<Longrightarrow> still_loose pl0 (put_in (bag, slot) p pl0) q" for y q
    using put_in_refines put_in_free_place put_in_still_loose by blast+
  moreover have "still_loose pl (store_free w bag slot p u pl) q" if "still_loose pl0 (put_in (bag, slot) p pl0) q" for q
    using that pl0 still_loose_shape same_shape_still_loose by blast
  ultimately show ?thesis
    using pl0 same_shape_loose [OF pl0(1)] same_shape_stacks [OF pl0(1)] same_shape_items [OF pl0(1)] same_shape_free [OF pl0(1)]
      same_shape_stacks [OF pl0(2)] same_shape_items [OF pl0(2)] same_shape_ok [OF pl0(2)] same_shape_free [OF pl0(2)]
    by (simp add: same_shape_def same_body_def)
qed

text \<open>Changing a count, of an item in a place and of one in no place.\<close>

lemma set_count_frame:
  assumes "pl' = upd_item p (\<lambda>it. it\<lparr>it_count := n\<rparr>) pl"
  shows "items_at pl' = items_at pl" "pl_ok pl \<Longrightarrow> pl_ok pl'" "free_place pl' = free_place pl" "loose pl' = loose pl"
proof -
  have "items_at pl' y = items_at pl y" for y
    by (cases y) (auto simp: assms items_at_cases upd_item_def Bag_GetItemByPos_def split: option.split)
  then show items: "items_at pl' = items_at pl" by blast
  have frame: "pl_items pl' = pl_items pl" "pl_next pl' = pl_next pl"
    "\<And>q. it_slot (pl_heap pl' q) = it_slot (pl_heap pl q)" "\<And>q. it_container (pl_heap pl' q) = it_container (pl_heap pl q)"
    "\<And>q. it_bagslot (pl_heap pl' q) = it_bagslot (pl_heap pl q)" "\<And>q. it_bagSize (pl_heap pl' q) = it_bagSize (pl_heap pl q)"
    by (simp_all add: assms upd_item_def)
  show "pl_ok pl \<Longrightarrow> pl_ok pl'"
    by (simp add: pl_ok_def items frame knows_place_def bag_body_def)
  show "free_place pl' = free_place pl" "loose pl' = loose pl"
    by (intro ext; simp add: free_place_def loose_def bag_body_def items frame)+
qed

lemma add_count_refines:
  assumes ok: "pl_ok pl" and at: "items_at pl x = Some p" and "pl' = upd_item p (\<lambda>it. it\<lparr>it_count := n\<rparr>) pl"
  shows "stacks pl' = (stacks pl)(x := Some (it_entry (pl_heap pl p), n))"
proof -
  have "items_at pl' = (items_at pl)(x := Some p)" using at set_count_frame(1) [OF assms(3)] by (simp add: fun_upd_idem)
  moreover have "q \<noteq> p" if "y \<noteq> x" "items_at pl y = Some q" for y q
    using that pl_okD(4) [OF ok at, of y] by auto
  ultimately show ?thesis
    by (subst stacks_update [where x = x and v = "Some p"]) (auto simp: assms(3) upd_item_def)
qed

lemma loose_count_refines:
  assumes "loose pl p" "pl' = upd_item p (\<lambda>it. it\<lparr>it_count := n\<rparr>) pl"
  shows "stacks pl' = stacks pl"
proof (rule ext)
  fix x
  have "q \<noteq> p" if "items_at pl x = Some q" for q
    using that assms(1) ranI unfolding loose_def by fast
  then show "stacks pl' x = stacks pl x"
    using set_count_frame(1) [OF assms(2)] by (cases "items_at pl x") (auto simp: stacks_def assms(2) upd_item_def)
qed

lemma store_merge_shape:
  obtains pl0 where "same_shape pl pl0"
    "same_shape (upd_item p2 (\<lambda>it. it\<lparr>it_count := it_count (pl_heap pl p2) + c\<rparr>) pl0) (store_merge w bag slot p p2 c clone u pl)"
proof -
  let ?pl1 = "upd_item p2 (bind_on_store (GetProto w (pl_heap pl p2)) bag slot) pl"
  have shape: "same_shape pl ?pl1" by (simp add: same_shape_upd)
  have "it_count (bind_on_store (GetProto w (pl_heap pl p2)) bag slot (pl_heap pl p2)) = it_count (pl_heap pl p2)"
    using same_body_bind unfolding same_body_def by blast
  then obtain pl2 where pl2: "upd_item p2 (\<lambda>it. it\<lparr>it_count := it_count (pl_heap pl p2) + c\<rparr>) ?pl1 = pl2"
    "upd_item p2 (\<lambda>it. it\<lparr>it_count := it_count it + c\<rparr>) ?pl1 = pl2"
    by (simp add: upd_item_def)
  have "same_shape pl2 (store_merge w bag slot p p2 c clone u pl)"
    unfolding store_merge_def Let_def pl2(2)
    by (auto simp: same_body_def intro!: same_shape_SetState same_shape_upd same_shape_event same_shape_in_world)
  then show thesis using that shape pl2(1) by blast
qed

lemma store_merge_refines:
  assumes ok: "pl_ok pl" and at: "items_at pl x = Some p2"
  shows "pl_ok (store_merge w bag slot p p2 c clone u pl) \<and> items_at (store_merge w bag slot p p2 c clone u pl) = items_at pl \<and>
    stacks (store_merge w bag slot p p2 c clone u pl) = (stacks pl)(x := Some (it_entry (pl_heap pl p2), it_count (pl_heap pl p2) + c)) \<and>
    free_place (store_merge w bag slot p p2 c clone u pl) = free_place pl \<and>
    (\<forall>q. loose pl q \<longrightarrow> still_loose pl (store_merge w bag slot p p2 c clone u pl) q)"
proof -
  obtain pl0 where pl0: "same_shape pl pl0"
    "same_shape (upd_item p2 (\<lambda>it. it\<lparr>it_count := it_count (pl_heap pl p2) + c\<rparr>) pl0) (store_merge w bag slot p p2 c clone u pl)"
    using store_merge_shape .
  have "pl_ok pl0" "items_at pl0 x = Some p2" using pl0(1) assms same_shape_ok same_shape_items by auto
  note upd = add_count_refines [OF this refl, of "it_count (pl_heap pl p2) + c"]
    set_count_frame [where p = p2 and n = "it_count (pl_heap pl p2) + c" and pl = pl0, OF refl] \<open>pl_ok pl0\<close>
  have "still_loose pl0 (upd_item p2 (\<lambda>it. it\<lparr>it_count := it_count (pl_heap pl p2) + c\<rparr>) pl0) q" if "loose pl0 q" for q
    using that upd by (intro still_looseI) (auto simp: loose_def upd_item_def bag_body_def)
  then have "still_loose pl (store_merge w bag slot p p2 c clone u pl) q" if "loose pl q" for q
    using that still_loose_shape [OF _ pl0(2)] same_shape_still_loose [OF pl0(1)] same_shape_loose [OF pl0(1)] by simp
  then show ?thesis
    using upd same_shape_stacks [OF pl0(1)] same_shape_items [OF pl0(1)] same_shape_free [OF pl0(1)] pl0
      same_shape_stacks [OF pl0(2)] same_shape_items [OF pl0(2)] same_shape_ok [OF pl0(2)] same_shape_free [OF pl0(2)]
    by (simp add: same_shape_def same_body_def upd_item_def)
qed

section \<open>New items\<close>

text \<open>Allocating an item changes nothing that was there.\<close>

definition allocated :: "player \<Rightarrow> player \<Rightarrow> bool" where
  "allocated pl pl' =
     (pl_items pl' = pl_items pl \<and> pl_next pl' = Suc (pl_next pl) \<and>
      (\<forall>p < pl_next pl. same_body (pl_heap pl p) (pl_heap pl' p)) \<and> bag_body (pl_heap pl' (pl_next pl)))"

lemma allocated_shape: "allocated pl pl' \<Longrightarrow> same_shape pl' pl'' \<Longrightarrow> allocated pl pl''"
  by (auto simp: allocated_def same_shape_def same_body_def bag_body_def)

lemma allocated_refines:
  assumes ok: "pl_ok pl" and new: "allocated pl pl'"
  shows "pl_ok pl'" "items_at pl' = items_at pl" "stacks pl' = stacks pl" "free_place pl' = free_place pl"
    "loose pl' (pl_next pl)" "loose pl p \<Longrightarrow> loose pl' p"
proof -
  have old: "same_body (pl_heap pl q) (pl_heap pl' q)" if "items_at pl x = Some q" for x q
    using pl_okD(2) [OF ok that] new by (simp add: allocated_def)
  have bag: "same_body (pl_heap pl q) (pl_heap pl' q)" if "bag_index b" "pl_items pl ! unat b = Some q" for b q
    using old [of "(INVENTORY_SLOT_BAG_0, b)"] that by (simp add: bag_at_own_slot)
  have items_eq: "pl_items pl' = pl_items pl" using new by (simp add: allocated_def)
  have "items_at pl' x = items_at pl x" for x
    using bag by (cases x) (auto simp: items_at_cases items_eq same_body_def Bag_GetItemByPos_def split: option.split)
  then show items: "items_at pl' = items_at pl" by blast
  show "pl_ok pl'"
    using new ok old unfolding pl_ok_def items
    by (auto simp: allocated_def knows_place_def same_body_def bag_body_def less_SucI)
  have "stacks pl' x = stacks pl x" for x
    using old by (cases "items_at pl x") (auto simp: stacks_def items same_body_def)
  then show "stacks pl' = stacks pl" by blast
  have "free_place pl' x = free_place pl x" for x
    using bag by (auto simp: free_place_def items items_eq same_body_def)
  then show "free_place pl' = free_place pl" by blast
  have "pl_next pl \<notin> ran (items_at pl)" using pl_okD(2) [OF ok] by (fastforce simp: ran_def)
  then show "loose pl' (pl_next pl)" using new by (simp add: loose_def items allocated_def)
  show "loose pl p \<Longrightarrow> loose pl' p"
    using new by (auto simp: loose_def items allocated_def same_body_def bag_body_def)
qed

text \<open>Prototypes the server can make items of: the bag, if it is one, has at most 36 slots.\<close>

definition proto_ok :: "u32 \<Rightarrow> item_proto \<Rightarrow> bool" where
  "proto_ok entry proto =
     (ip_ItemId proto = entry \<and> stack_size_ok proto \<and> (ip_InventoryType proto = INVTYPE_BAG \<longrightarrow> ip_ContainerSlots proto \<le> 36))"

lemma CreateItem_allocates:
  assumes "w_proto w entry = Some proto" "proto_ok entry proto" "cnt \<noteq> 0"
  obtains pl' where "CreateItem w entry cnt pl = (Some (pl_next pl), pl')" "allocated pl pl'"
    "it_entry (pl_heap pl' (pl_next pl)) = entry"
    "it_count (pl_heap pl' (pl_next pl)) = (if cnt > ip_Stackable proto then ip_Stackable proto else cnt)"
proof -
  have cnt: "\<not> cnt < 1" using assms(3) by (simp add: word_less_1)
  obtain low stop gen where g: "Generate HIGHGUID_ITEM (pl_itemGuids pl) = (low, stop, gen)" by (rule prod_cases3)
  obtain it where it: "(if ip_InventoryType proto = INVTYPE_BAG then Bag_Create proto low entry (pl_guid pl)
      else Some (Item_Create proto low entry (pl_guid pl))) = Some it" "it_entry it = entry" "bag_body it"
    using assms(2)
    by (cases "ip_InventoryType proto = INVTYPE_BAG")
       (auto simp: Bag_Create_def Item_Create_def proto_ok_def bag_body_def new_item_def not_less)
  let ?n = "if cnt > ip_Stackable proto then ip_Stackable proto else cnt"
  show thesis
  proof (rule that)
    show "CreateItem w entry cnt pl = (Some (pl_next pl), pl\<lparr>pl_itemGuids := gen, pl_next := Suc (pl_next pl),
        pl_heap := (pl_heap pl)(pl_next pl := it\<lparr>it_count := ?n\<rparr>)\<rparr>)"
      unfolding CreateItem_def Let_def GetMaxStackSize_def using cnt by (simp only: assms(1) g it(1) option.case prod.case) simp
  qed (use it in \<open>simp_all add: allocated_def bag_body_def\<close>)
qed

lemma CloneItem_allocates:
  assumes "w_proto w entry = Some proto" "proto_ok entry proto" "cnt \<noteq> 0" "it_entry (pl_heap pl src) = entry"
    "cnt \<le> ip_Stackable proto" "src < pl_next pl"
  obtains pl' where "CloneItem w src cnt pl = (Some (pl_next pl), pl')" "allocated pl pl'"
    "it_entry (pl_heap pl' (pl_next pl)) = entry" "it_count (pl_heap pl' (pl_next pl)) = cnt"
proof -
  obtain pl1 where pl1: "CreateItem w entry cnt pl = (Some (pl_next pl), pl1)" "allocated pl pl1"
    "it_entry (pl_heap pl1 (pl_next pl)) = entry" "it_count (pl_heap pl1 (pl_next pl)) = cnt"
    using CreateItem_allocates [OF assms(1-3), of pl thesis] assms(5) by (simp add: leD)
  define pl2 where "pl2 = snd (CloneItem w src cnt pl)"
  have "same_shape pl1 pl2"
    unfolding pl2_def CloneItem_def assms(4) pl1(1) Let_def
    by (auto intro!: same_shape_upd same_shape_SetItemRandomProperties) (simp_all add: same_body_def)
  moreover have "CloneItem w src cnt pl = (Some (pl_next pl), pl2)"
    unfolding pl2_def CloneItem_def assms(4) pl1(1) Let_def by simp
  ultimately show thesis
    using that pl1 allocated_shape by (auto simp: same_shape_def same_body_def)
qed

end
