(* ===== verification/Inventory_Store.thy ===== *)
theory Inventory_Store
  imports Inventory_View
begin

text \<open>
  Storing new items by a plan is adding the counts of the plan to the map of stacks, and
  a plan found by \<^verbatim>\<open>CanStoreNewItem\<close> can always be stored: no item is lost and none is made up.
\<close>

section \<open>Plans on the map of stacks\<close>

definition place_of :: "u16 \<Rightarrow> place" where
  "place_of pos = (pos_bag pos, pos_slot pos)"

definition add_at :: "u32 \<Rightarrow> item_pos \<Rightarrow> (place \<rightharpoonup> u32 \<times> u32) \<Rightarrow> (place \<rightharpoonup> u32 \<times> u32)" where
  "add_at entry x st =
     st(place_of (fst x) \<mapsto> (entry, (case st (place_of (fst x)) of None \<Rightarrow> 0 | Some (e, n) \<Rightarrow> n) + ucast (snd x)))"

definition add_plan :: "u32 \<Rightarrow> item_pos list \<Rightarrow> (place \<rightharpoonup> u32 \<times> u32) \<Rightarrow> (place \<rightharpoonup> u32 \<times> u32)" where
  "add_plan entry dest st = fold (add_at entry) dest st"

text \<open>A place of a plan: free, or with the same item and room for more.\<close>

definition place_ok :: "item_proto \<Rightarrow> player \<Rightarrow> item_pos \<Rightarrow> bool" where
  "place_ok proto pl x =
     (snd x \<noteq> 0 \<and> unat (snd x) \<le> unat (ip_Stackable proto) \<and>
      (case stacks pl (place_of (fst x)) of
         None \<Rightarrow> free_place pl (place_of (fst x))
       | Some (e, n) \<Rightarrow> e = ip_ItemId proto \<and> unat n + unat (snd x) \<le> unat (ip_Stackable proto)))"

lemma place_ok_kept:
  assumes "place_ok proto pl x" "stacks pl' (place_of (fst x)) = stacks pl (place_of (fst x))"
    "free_place pl (place_of (fst x)) \<Longrightarrow> free_place pl' (place_of (fst x))"
  shows "place_ok proto pl' x"
  using assms by (auto simp: place_ok_def split: option.splits)

lemma ucast_place: "place_ok proto pl (pos, c) \<Longrightarrow> (ucast c :: u32) \<noteq> 0 \<and> ucast c \<le> ip_Stackable proto"
  by (simp add: place_ok_def word_le_nat_alt) (metis ucast8_32_eq unsigned_0)

lemma StoreItem1_refines:
  assumes ok: "pl_ok pl" and loose: "loose pl p" "it_entry (pl_heap pl p) = entry"
    and proto: "w_proto w entry = Some proto" "proto_ok entry proto" and place: "place_ok proto pl (pos, c)"
  obtains q pl' where "StoreItem1 w pos p (ucast c) clone u pl = (Some q, pl')" "pl_ok pl'"
    "stacks pl' = add_at entry (pos, c) (stacks pl)"
    "\<And>x. place_of (fst x) \<noteq> place_of pos \<Longrightarrow> place_ok proto pl x \<Longrightarrow> place_ok proto pl' x"
    "clone \<Longrightarrow> loose pl' p \<and> it_entry (pl_heap pl' p) = entry"
proof (cases "items_at pl (place_of pos)")
  case (Some p2)
  then have there: "GetItemByPos pl (pos_bag pos) (pos_slot pos) = Some p2" by (simp add: items_at_def place_of_def)
  have st: "stacks pl (place_of pos) = Some (it_entry (pl_heap pl p2), it_count (pl_heap pl p2))"
    using Some by (simp add: stacks_def)
  then have "it_entry (pl_heap pl p2) = entry" using place proto(2) by (simp add: place_ok_def proto_ok_def)
  note merged = store_merge_refines [OF ok Some, of w "pos_bag pos" "pos_slot pos" p "ucast c" clone u]
  show thesis
  proof (rule that)
    show "StoreItem1 w pos p (ucast c) clone u pl =
        (Some p2, store_merge w (pos_bag pos) (pos_slot pos) p p2 (ucast c) clone u pl)"
      by (simp add: StoreItem1_def Let_def there)
    show "place_ok proto (store_merge w (pos_bag pos) (pos_slot pos) p p2 (ucast c) clone u pl) x"
      if "place_of (fst x) \<noteq> place_of pos" "place_ok proto pl x" for x
      by (rule place_ok_kept [OF that(2)]) (use that(1) merged in simp_all)
  qed (use merged st \<open>it_entry (pl_heap pl p2) = entry\<close> loose in \<open>auto simp: add_at_def still_loose_def\<close>)
next
  case None
  then have there: "GetItemByPos pl (pos_bag pos) (pos_slot pos) = None" by (simp add: items_at_def place_of_def)
  have st: "stacks pl (place_of pos) = None" using None by (simp add: stacks_def)
  then have free: "free_place pl (place_of pos)" using place by (simp add: place_ok_def)
  obtain q pl1 where new: "(if clone then CloneItem w p (ucast c) pl else (Some p, upd_item p (\<lambda>it. it\<lparr>it_count := ucast c\<rparr>) pl)) = (Some q, pl1)"
    "pl_ok pl1" "stacks pl1 = stacks pl" "free_place pl1 = free_place pl" "loose pl1 q"
    "it_entry (pl_heap pl1 q) = entry" "it_count (pl_heap pl1 q) = ucast c"
    "clone \<longrightarrow> q \<noteq> p \<and> loose pl1 p \<and> it_entry (pl_heap pl1 p) = entry"
  proof (cases clone)
    case True
    have "p < pl_next pl" using loose(1) by (simp add: loose_def)
    then obtain pl1 where pl1: "CloneItem w p (ucast c) pl = (Some (pl_next pl), pl1)" "allocated pl pl1"
        "it_entry (pl_heap pl1 (pl_next pl)) = entry" "it_count (pl_heap pl1 (pl_next pl)) = ucast c"
      using CloneItem_allocates [OF proto _ loose(2)] ucast_place [OF place] by metis
    note ref = allocated_refines [OF ok pl1(2)]
    have "it_entry (pl_heap pl1 p) = entry" "pl_next pl \<noteq> p"
      using pl1(2) \<open>p < pl_next pl\<close> loose(2) by (auto simp: allocated_def same_body_def)
    then show ?thesis using that [of "pl_next pl" pl1] True pl1 ref loose(1) by simp
  next
    case False
    then show ?thesis
      using that [of p "upd_item p (\<lambda>it. it\<lparr>it_count := ucast c\<rparr>) pl"] ok loose
        set_count_frame [where p = p and n = "ucast c" and pl = pl, OF refl] loose_count_refines [OF loose(1) refl, of "ucast c"]
      by (simp add: upd_item_def)
  qed
  note stored = store_free_refines [OF new(2), of "pos_bag pos" "pos_slot pos" q w u, folded place_of_def]
  show thesis
  proof (rule that)
    show "StoreItem1 w pos p (ucast c) clone u pl = (Some q, store_free w (pos_bag pos) (pos_slot pos) q u pl1)"
      unfolding StoreItem1_def Let_def there option.case new(1) by simp
    show "place_ok proto (store_free w (pos_bag pos) (pos_slot pos) q u pl1) x"
      if "place_of (fst x) \<noteq> place_of pos" "place_ok proto pl x" for x
      by (rule place_ok_kept [OF that(2)]) (use that(1) stored new free in \<open>auto simp: place_of_def\<close>)
  qed (use stored new st free in \<open>auto simp: add_at_def still_loose_def\<close>)
qed

lemma mk_pos_parts: "mk_pos (pos_bag pos) (pos_slot pos) = pos"
proof (rule bit_word_eqI)
  fix n assume "n < LENGTH(16)"
  then show "bit (mk_pos (pos_bag pos) (pos_slot pos)) n = bit pos n"
    by (cases "n < 8") (auto simp: mk_pos_def pos_bag_def pos_slot_def and_255 bit_simps)
qed

lemma place_of_inj [simp]: "place_of a = place_of b \<longleftrightarrow> a = b"
  by (metis mk_pos_parts place_of_def prod.inject)

lemma StoreItem_loop_refines:
  assumes "pl_ok pl" "loose pl p" "it_entry (pl_heap pl p) = entry"
    "w_proto w entry = Some proto" "proto_ok entry proto" "list_all (place_ok proto pl) dest" "distinct (map fst dest)" "dest \<noteq> []"
  shows "\<exists>q pl'. StoreItem_loop w dest p u l pl = (Some q, pl') \<and> pl_ok pl' \<and> stacks pl' = add_plan entry dest (stacks pl)"
  using assms
proof (induction dest arbitrary: pl l)
  case (Cons x dest)
  obtain pos c where x: "x = (pos, c)" by (cases x)
  obtain q pl' where st: "StoreItem1 w pos p (ucast c) (dest \<noteq> []) u pl = (Some q, pl')" "pl_ok pl'"
    "stacks pl' = add_at entry (pos, c) (stacks pl)"
    "\<And>x. place_of (fst x) \<noteq> place_of pos \<Longrightarrow> place_ok proto pl x \<Longrightarrow> place_ok proto pl' x"
    "dest \<noteq> [] \<Longrightarrow> loose pl' p \<and> it_entry (pl_heap pl' p) = entry"
    using StoreItem1_refines [OF Cons.prems(1-5), of pos c "dest \<noteq> []" u] Cons.prems(6) by (auto simp: x)
  show ?case
  proof (cases dest)
    case Nil
    then show ?thesis using st by (simp add: x add_plan_def)
  next
    case (Cons d ds)
    have "list_all (place_ok proto pl') dest"
      using Cons.prems(6, 7) st(4) unfolding x by (force simp: list_all_iff)
    then have "\<exists>q' pl''. StoreItem_loop w dest p u (Some q) pl' = (Some q', pl'') \<and> pl_ok pl'' \<and>
        stacks pl'' = add_plan entry dest (stacks pl')"
      using st Cons Cons.prems(4, 5, 7) by (intro Cons.IH) auto
    then show ?thesis using st Cons by (simp add: x add_plan_def)
  qed
qed simp

section \<open>What a player carries\<close>

definition in_cell :: "u32 \<Rightarrow> (u32 \<times> u32) option \<Rightarrow> nat" where
  "in_cell e c = (case c of None \<Rightarrow> 0 | Some (e', n) \<Rightarrow> if e' = e then unat n else 0)"

definition carried :: "u32 \<Rightarrow> (place \<rightharpoonup> u32 \<times> u32) \<Rightarrow> nat" where
  "carried e st = (\<Sum>x\<in>UNIV. in_cell e (st x))"

lemma carried_upd: "carried e (st(x := v)) + in_cell e (st x) = carried e st + in_cell e v"
proof -
  have "carried e st = in_cell e (st x) + (\<Sum>y\<in>UNIV - {x}. in_cell e (st y))"
    "carried e (st(x := v)) = in_cell e v + (\<Sum>y\<in>UNIV - {x}. in_cell e ((st(x := v)) y))"
    unfolding carried_def by (subst sum.remove [of UNIV x]; simp)+
  moreover have "(\<Sum>y\<in>UNIV - {x}. in_cell e ((st(x := v)) y)) = (\<Sum>y\<in>UNIV - {x}. in_cell e (st y))"
    by (rule sum.cong) auto
  ultimately show ?thesis by simp
qed

definition room_at :: "u32 \<Rightarrow> (place \<rightharpoonup> u32 \<times> u32) \<Rightarrow> item_pos \<Rightarrow> bool" where
  "room_at entry st x =
     (case st (place_of (fst x)) of None \<Rightarrow> True | Some (e, n) \<Rightarrow> e = entry \<and> unat n + unat (snd x) < 2 ^ 32)"

lemma carried_add_at:
  assumes "room_at entry st x"
  shows "carried e (add_at entry x st) = carried e st + (if e = entry then unat (snd x) else 0)"
proof -
  have "unat (n + ucast (snd x) :: u32) = unat n + unat (snd x)" if "st (place_of (fst x)) = Some (e, n)" for e n
    using assms that unat_plus_small [of n "ucast (snd x)"] by (simp add: room_at_def)
  then show ?thesis
    using assms carried_upd [of e st "place_of (fst x)" "add_at entry x st (place_of (fst x))"]
    by (cases "st (place_of (fst x))")
       (auto simp: add_at_def in_cell_def room_at_def split: if_splits)
qed

lemma carried_add_plan:
  assumes "list_all (room_at entry st) dest" "distinct (map fst dest)"
  shows "carried e (add_plan entry dest st) = carried e st + (if e = entry then sum_list (map (unat \<circ> snd) dest) else 0)"
  using assms
proof (induction dest arbitrary: st)
  case Nil
  then show ?case by (simp add: add_plan_def)
next
  case (Cons x dest)
  have "room_at entry (add_at entry x st) y" if "y \<in> set dest" for y
  proof -
    have "place_of (fst y) \<noteq> place_of (fst x)" using Cons.prems(2) that by (auto simp: image_iff)
    then show ?thesis using Cons.prems(1) that by (simp add: room_at_def add_at_def list_all_iff)
  qed
  then have "carried e (add_plan entry dest (add_at entry x st)) =
      carried e (add_at entry x st) + (if e = entry then sum_list (map (unat \<circ> snd) dest) else 0)"
    using Cons.prems(2) by (intro Cons.IH) (simp_all add: list_all_iff)
  then show ?case using carried_add_at [of entry st x e] Cons.prems(1) by (simp add: add_plan_def)
qed

section \<open>Storing what fits\<close>

lemma sum_counts:
  fixes dest :: "item_pos list"
  assumes "sum_list (map (unat \<circ> snd) dest) < 2 ^ 32"
  shows "unat (sum_list (map (\<lambda>(pos, c). ucast c :: u32) dest)) = sum_list (map (unat \<circ> snd) dest)"
  using assms
proof (induction dest)
  case (Cons x dest)
  then show ?case using unat_plus_small [of "ucast (snd x)" "sum_list (map (\<lambda>y. ucast (snd y)) dest)"]
    by (simp add: case_prod_beta)
qed simp

lemma StoreNewItem_refines:
  assumes ok: "pl_ok pl" and proto: "w_proto w entry = Some proto" "proto_ok entry proto"
    and plan: "list_all (place_ok proto pl) dest" "distinct (map fst dest)" "dest \<noteq> []"
      "sum_list (map (unat \<circ> snd) dest) < 2 ^ 32"
  shows "\<exists>q pl'. StoreNewItem w dest entry u r pl = (Some q, pl') \<and> pl_ok pl' \<and> stacks pl' = add_plan entry dest (stacks pl)"
proof -
  let ?cnt = "sum_list (map (\<lambda>(pos, c). ucast c :: u32) dest)"
  obtain x dest' where "dest = x # dest'" using plan(3) by (cases dest) auto
  then have "sum_list (map (unat \<circ> snd) dest) \<noteq> 0" using plan(1) by (auto simp: place_ok_def unat_eq_0)
  then have "?cnt \<noteq> 0" using sum_counts [OF plan(4)] by (metis unat_0)
  then obtain pl1 where pl1: "CreateItem w entry ?cnt pl = (Some (pl_next pl), pl1)" "allocated pl pl1"
      "it_entry (pl_heap pl1 (pl_next pl)) = entry"
    using CreateItem_allocates [OF proto] by metis
  define pl3 where "pl3 = (let pl2 = event (ItemAddedQuestCheck entry ?cnt) pl1
      in if r \<noteq> 0 then SetItemRandomProperties w (pl_next pl) r pl2 else pl2)"
  have "same_shape pl1 pl3" by (simp add: pl3_def Let_def)
  then have new: "allocated pl pl3" "it_entry (pl_heap pl3 (pl_next pl)) = entry"
    using allocated_shape [OF pl1(2)] pl1(3) by (simp_all add: same_shape_def same_body_def)
  note ref = allocated_refines [OF ok new(1)]
  have "list_all (place_ok proto pl3) dest" using plan(1) ref(3, 4) place_ok_kept [of proto pl _ pl3] by (auto simp: list_all_iff)
  then have "\<exists>q pl'. StoreItem_loop w dest (pl_next pl) u (Some (pl_next pl)) pl3 = (Some q, pl') \<and> pl_ok pl' \<and>
      stacks pl' = add_plan entry dest (stacks pl3)"
    using StoreItem_loop_refines [OF ref(1, 5) new(2) proto] plan(2, 3) by blast
  then show ?thesis
    unfolding StoreNewItem_def Let_def pl1(1) StoreItem_def ref(3) by (simp add: pl3_def Let_def)
qed

text \<open>The bags have as many slots as their prototypes say.\<close>

definition bags_sized :: "world \<Rightarrow> player \<Rightarrow> bool" where
  "bags_sized w pl =
     (\<forall>b p. bag_index b \<and> pl_items pl ! unat b = Some p \<longrightarrow>
        it_bagSize (pl_heap pl p) = ip_ContainerSlots (GetProto w (pl_heap pl p)))"

text \<open>A request for a place that is no slot for bags and no bag outside of the slots for bags.\<close>

definition place_requested :: "u8 \<Rightarrow> u8 \<Rightarrow> bool" where
  "place_requested bag slot =
     ((bag = NULL_BAG \<or> bag = INVENTORY_SLOT_BAG_0 \<or> bag_index bag) \<and> \<not> IsBagPos bag slot)"

lemma pl_ok_bags_small: "pl_ok pl \<Longrightarrow> bags_small pl"
  using pl_okD(6) [of pl "(INVENTORY_SLOT_BAG_0, b)" for b]
  by (auto simp: bags_small_def items_at_def bag_body_def word_le_nat_alt)

lemma plan_place_ok:
  assumes ok: "pl_ok pl" "bags_sized w pl" "place_requested bag slot" "proto_ok entry proto"
    and fits: "fits w pl proto x" "place_asked (mk_pos bag slot) (fst x)" "snd x \<noteq> 0"
  shows "place_ok proto pl x"
proof (cases "items_at pl (place_of (fst x))")
  case (Some p)
  then show ?thesis using fits by (auto simp: place_ok_def fits_def stacks_def items_at_def place_of_def)
next
  case None
  let ?b = "pos_bag (fst x)" and ?s = "pos_slot (fst x)"
  have there: "place_exists w pl (fst x)" "unat (snd x) \<le> unat (ip_Stackable proto)"
    using fits(1) None by (simp_all add: fits_def items_at_def place_of_def)
  have "\<not> IsBagPos ?b ?s" using fits(2) ok(3) by (metis place_asked_def place_requested_def pos_bag_mk_pos pos_slot_mk_pos)
  moreover have bag: "bag_index ?b" if "?b \<noteq> INVENTORY_SLOT_BAG_0"
    using fits(2) ok(3) that there(1)
    by (auto simp: place_asked_def place_requested_def bag_index_def)
  ultimately have "free_place pl (place_of (fst x))"
  proof (cases "?b = INVENTORY_SLOT_BAG_0")
    case True
    then show ?thesis
      using None there(1) \<open>\<not> IsBagPos ?b ?s\<close>
      by (auto simp: free_place_def place_of_def place_exists_def Let_def IsBagPos_def bag_index_def)
  next
    case False
    then obtain pBag where pb: "GetItemByPos pl INVENTORY_SLOT_BAG_0 ?b = Some pBag"
      "ucast ?s < ip_ContainerSlots (GetProto w (pl_heap pl pBag)) \<or> ucast ?s < it_bagSize (pl_heap pl pBag)"
      using there(1) by (auto simp: place_exists_def Let_def split: option.splits)
    then have "pl_items pl ! unat ?b = Some pBag"
      using bag_at_own_slot [OF bag [OF False], of pl] by (simp add: items_at_def)
    then show ?thesis
      using None False pb(2) bag [OF False] ok(2) by (auto simp: free_place_def place_of_def bags_sized_def)
  qed
  then show ?thesis using None there(2) fits(3) by (simp add: place_ok_def stacks_def)
qed

lemma place_ok_room:
  assumes "place_ok proto pl x" "proto_ok entry proto"
  shows "room_at entry (stacks pl) x"
  using assms unat_less_2p [of "ip_Stackable proto"]
  by (auto simp: place_ok_def room_at_def proto_ok_def split: option.splits)

lemma store_planned:
  assumes "pl_ok pl" "bags_sized w pl" "w_proto w entry = Some proto" "proto_ok entry proto"
    "place_requested bag slot" "cnt \<noteq> 0"
    "CanStoreNewItem w pl bag slot entry cnt = (EQUIP_ERR_OK, dest, left)"
  shows "\<exists>q pl'. StoreNewItem w dest entry update randomPropertyId pl = (Some q, pl') \<and> pl_ok pl' \<and>
    stacks pl' = add_plan entry dest (stacks pl) \<and>
    (\<forall>e. carried e (stacks pl') = carried e (stacks pl) + (if e = entry then unat cnt else 0))"
proof -
  have "stack_size_ok proto" using assms(4) by (simp add: proto_ok_def)
  from CanStoreNewItem_answer [OF assms(3) this pl_ok_bags_small [OF assms(1)] assms(7)]
  have plan: "distinct (map fst dest)" "sum_list (map (unat \<circ> snd) dest) = unat cnt"
    "\<forall>x \<in> set dest. fits w pl proto x \<and> place_asked (mk_pos bag slot) (fst x) \<and> snd x \<noteq> 0"
    using assms(6) by (simp_all add: plan_inv_def)
  have places: "list_all (place_ok proto pl) dest"
    using plan(3) plan_place_ok [OF assms(1, 2, 5, 4)] by (simp add: list_all_iff)
  moreover have "dest \<noteq> []" using plan(2) assms(6) by (auto simp: unat_eq_0)
  moreover have "sum_list (map (unat \<circ> snd) dest) < 2 ^ 32" using plan(2) unat_less_2p [of cnt] by simp
  ultimately obtain q pl' where stored: "StoreNewItem w dest entry update randomPropertyId pl = (Some q, pl')"
    "pl_ok pl'" "stacks pl' = add_plan entry dest (stacks pl)"
    using StoreNewItem_refines [OF assms(1, 3, 4) _ plan(1)] by blast
  have "list_all (room_at entry (stacks pl)) dest"
    using places place_ok_room [OF _ assms(4)] by (auto simp: list_all_iff)
  then have "carried e (stacks pl') = carried e (stacks pl) + (if e = entry then unat cnt else 0)" for e
    using carried_add_plan [OF _ plan(1)] plan(2) stored(3) by simp
  then show ?thesis using stored by blast
qed

text \<open>C12: when \<^verbatim>\<open>CanStoreNewItem\<close> answers that a positive number of items fits into a well-formed
  inventory, \<^verbatim>\<open>StoreNewItem\<close> with its plan succeeds: the stacks become those the plan describes, the
  inventory stays well formed, the player carries exactly that many more of the item, and the
  number of every other item is unchanged.\<close>

theorem CanStoreNewItem_then_StoreNewItem:
  assumes "pl_ok pl" "bags_sized w pl" "w_proto w entry = Some proto" "proto_ok entry proto"
    "place_requested bag slot" "cnt \<noteq> 0"
    "CanStoreNewItem w pl bag slot entry cnt = (EQUIP_ERR_OK, dest, left)"
  shows "\<exists>q pl'. StoreNewItem w dest entry update randomPropertyId pl = (Some q, pl') \<and> pl_ok pl' \<and>
    stacks pl' = add_plan entry dest (stacks pl) \<and>
    (\<forall>e. carried e (stacks pl') = carried e (stacks pl) + (if e = entry then unat cnt else 0))"
  using store_planned [OF assms] .

lemma sample_bags_sized: "bags_sized w sample_player"
proof -
  have "pl_items sample_player ! unat b = None" if "bag_index b" for b
  proof -
    have "b \<noteq> 23" using that by (auto simp: bag_index_def)
    then show ?thesis using bag_at_own_slot [OF that, of sample_player] by (simp add: items_at_sample)
  qed
  then show ?thesis by (auto simp: bags_sized_def)
qed

lemma cloth_proto_ok: "proto_ok 2589 cloth_proto"
  by (simp add: proto_ok_def stack_size_ok_def cloth_proto_def no_proto_def)

theorem CanStoreNewItem_then_StoreNewItem_witness:
  "\<exists>q pl'. StoreNewItem sample_world [(0xFF17, 2), (0xFF18, 20), (0xFF19, 3)] 2589 True 0 sample_player = (Some q, pl') \<and>
     pl_ok pl' \<and> carried 2589 (stacks pl') = carried 2589 (stacks sample_player) + 25"
  using CanStoreNewItem_then_StoreNewItem
    [OF sample_player_ok sample_bags_sized _ cloth_proto_ok _ _ sample_plan, of True 0]
  by (force simp: sample_world_def place_requested_def IsBagPos_def)

end
