(* ===== verification/Bank_Data.thy ===== *)
theory Bank_Data
  imports Item_Storage
begin

text \<open>
  The data of the guild bank, \<^verbatim>\<open>src/game/GuildBank/GuildBank.h\<close>, with the tables it is saved in:
  bank items as objects in a store, tabs, logs, and the rows and statements of the database.
  A row keeps the numbers and texts the statements print. A transaction runs its statements in
  order and is rolled back when one of them fails, as \<^verbatim>\<open>SqlTransaction::Execute\<close> does; what can fail is
  the unique key \<open>(guildid, guid, isInferno)\<close> of the table \<open>guild_bank\<close>.
\<close>

section \<open>Items, logs and tabs\<close>

record bank_item =
  bi_guildid :: u32
  bi_guid :: u32
  bi_Name :: string
  bi_tab :: u32
  bi_slot :: u32
  bi_item_template :: u32
  bi_creatorGuid :: u32
  bi_giftCreatorGuid :: u32
  bi_count :: u32
  bi_maxStackSize :: u32
  bi_duration :: u32
  bi_charges :: string
  bi_flags :: u8
  bi_enchantments :: string
  bi_enchant :: u32
  bi_randomPropertyId :: u32
  bi_transmogrifyId :: u32
  bi_durability :: u8
  bi_text :: u32
  bi_generated_loot :: u8
  bi_is_inferno :: bool
  bi_quality :: u32
  bi_state :: ItemUpdateState

record bank_log =
  lg_player :: u32
  lg_action :: u8
  lg_tab :: u8
  lg_item :: u32
  lg_enchant :: u32
  lg_randomPropertyId :: u32
  lg_count :: u8
  lg_stamp :: u32
  lg_playerName :: string
  lg_itemName :: string
  lg_itemQuality :: string
  lg_state :: ItemUpdateState

record money_log =
  ml_player :: u32
  ml_action :: u8
  ml_money :: u32
  ml_stamp :: u32
  ml_playerName :: string
  ml_state :: ItemUpdateState

record bank_tab =
  tb_name :: string
  tb_icon :: string
  tb_withdrawals :: u8
  tb_minrank :: u8

text \<open>What \<^verbatim>\<open>operator[]\<close> of the map of tabs inserts for a key it does not have.\<close>

definition empty_tab :: bank_tab where
  "empty_tab = \<lparr>tb_name = [], tb_icon = [], tb_withdrawals = 0, tb_minrank = 0\<rparr>"

abbreviation ACTION_WITHDRAW_ITEM :: u8 where "ACTION_WITHDRAW_ITEM \<equiv> 0"
abbreviation ACTION_DEPOSIT_ITEM :: u8 where "ACTION_DEPOSIT_ITEM \<equiv> 1"
abbreviation ACTION_UNLOCK_GUILD_BANK :: u8 where "ACTION_UNLOCK_GUILD_BANK \<equiv> 2"
abbreviation ACTION_UNLOCK_TAB_PERSONAL_MONEY :: u8 where "ACTION_UNLOCK_TAB_PERSONAL_MONEY \<equiv> 3"
abbreviation ACTION_WITHDRAW_MONEY :: u8 where "ACTION_WITHDRAW_MONEY \<equiv> 4"
abbreviation ACTION_DEPOSIT_MONEY :: u8 where "ACTION_DEPOSIT_MONEY \<equiv> 5"
abbreviation ACTION_UNLOCK_TAB_GUILD_MONEY :: u8 where "ACTION_UNLOCK_TAB_GUILD_MONEY \<equiv> 6"
abbreviation ACTION_DESTROY_ITEM :: u8 where "ACTION_DESTROY_ITEM \<equiv> 7"
abbreviation ACTION_SPLIT_ITEM :: u8 where "ACTION_SPLIT_ITEM \<equiv> 8"
abbreviation ACTION_MOVE_ITEM :: u8 where "ACTION_MOVE_ITEM \<equiv> 9"

abbreviation GOLD :: u32 where "GOLD \<equiv> 10000"
abbreviation GUILD_BANK_COST :: u32 where "GUILD_BANK_COST \<equiv> 20000000"
abbreviation TAB_2_COST :: u32 where "TAB_2_COST \<equiv> 5000000"
abbreviation TAB_3_COST :: u32 where "TAB_3_COST \<equiv> 10000000"
abbreviation TAB_4_COST :: u32 where "TAB_4_COST \<equiv> 15000000"
abbreviation TAB_5_COST :: u32 where "TAB_5_COST \<equiv> 20000000"
abbreviation MAX_TABS :: nat where "MAX_TABS \<equiv> 5"
abbreviation BANK_TAB_SIZE :: nat where "BANK_TAB_SIZE \<equiv> 98"
abbreviation LOG_LINES_LIMIT :: nat where "LOG_LINES_LIMIT \<equiv> 50"
abbreviation ADDON_MAX_PACKET_SIZE :: nat where "ADDON_MAX_PACKET_SIZE \<equiv> 2096"

definition DESTROY_ITEM_ALLOWED :: bool where
  "DESTROY_ITEM_ALLOWED = False"

section \<open>The database\<close>

record bank_row =
  br_guildid :: u32
  br_guid :: u32
  br_isInferno :: u32
  br_tab :: u32
  br_slot :: u32
  br_item_template :: u32
  br_creatorGuid :: u32
  br_giftCreatorGuid :: u32
  br_count :: u32
  br_duration :: u32
  br_charges :: string
  br_flags :: u32
  br_enchantments :: string
  br_randomPropertyId :: u32
  br_transmogrifyId :: u32
  br_durability :: u32
  br_text :: u32
  br_generated_loot :: u32

record tabs_row =
  tr_guildid :: u32
  tr_isInferno :: u32
  tr_tabs :: u32
  tr_names :: "string list"
  tr_icons :: "string list"
  tr_withdrawals :: "u32 list"
  tr_minranks :: "u32 list"

record money_row =
  mr_guildid :: u32
  mr_isInferno :: u32
  mr_money :: u32

record log_row =
  lr_guildid :: u32
  lr_isInferno :: u32
  lr_player :: u32
  lr_action :: u32
  lr_tab :: u32
  lr_item :: u32
  lr_randomPropertyId :: u32
  lr_enchant :: u32
  lr_count :: u32
  lr_stamp :: u32

record tables =
  t_bank :: "bank_row list"
  t_tabs :: "tabs_row list"
  t_money :: "money_row list"
  t_log :: "log_row list"

definition inferno_flag :: "bool \<Rightarrow> u32" where
  "inferno_flag b = (if b then 1 else 0)"

text \<open>The values \<^verbatim>\<open>BankItem::AddToDB\<close> and \<^verbatim>\<open>BankItem::SaveToDB\<close> print.\<close>

definition row_of :: "bank_item \<Rightarrow> bank_row" where
  "row_of b =
     \<lparr>br_guildid = bi_guildid b, br_guid = bi_guid b, br_isInferno = inferno_flag (bi_is_inferno b),
      br_tab = bi_tab b, br_slot = bi_slot b, br_item_template = bi_item_template b,
      br_creatorGuid = bi_creatorGuid b, br_giftCreatorGuid = bi_giftCreatorGuid b,
      br_count = bi_count b, br_duration = bi_duration b, br_charges = bi_charges b,
      br_flags = ucast (bi_flags b), br_enchantments = bi_enchantments b,
      br_randomPropertyId = bi_randomPropertyId b, br_transmogrifyId = bi_transmogrifyId b,
      br_durability = ucast (bi_durability b), br_text = bi_text b,
      br_generated_loot = scast (bi_generated_loot b)\<rparr>"

definition row_key :: "bank_row \<Rightarrow> u32 \<times> u32 \<times> u32" where
  "row_key r = (br_guildid r, br_guid r, br_isInferno r)"

datatype sql =
    InsertBank bank_row
  | UpdateBank bank_row
  | DeleteBankItem u32 u32 u32
  | UpdateMoney u32 u32 u32
  | UpdateTabs tabs_row
  | InsertLog log_row
  | InsertTabs u32 u32 u32
  | InsertMoney u32 u32 u32
  | DeleteBank u32 u32
  | DeleteLog u32 u32
  | DeleteMoney u32 u32
  | DeleteTabs u32 u32

text \<open>The column defaults of the table \<open>guild_bank_tabs\<close>.\<close>

definition default_tabs_row :: "u32 \<Rightarrow> u32 \<Rightarrow> u32 \<Rightarrow> tabs_row" where
  "default_tabs_row guildid inferno tabs =
     \<lparr>tr_guildid = guildid, tr_isInferno = inferno, tr_tabs = tabs,
      tr_names = [''Tab1'', ''Tab2'', ''Tab3'', ''Tab4'', ''Tab5''],
      tr_icons = [''inv_misc_bag_08'', ''inv_misc_bag_05'', ''inv_misc_bag_03'', ''inv_misc_bag_06'',
                  ''inv_misc_bag_02''],
      tr_withdrawals = [0, 0, 0, 0, 0], tr_minranks = [0, 0, 0, 0, 0]\<rparr>"

definition update_rows :: "bank_row \<Rightarrow> bank_row list \<Rightarrow> bank_row list" where
  "update_rows r rows =
     map (\<lambda>x. if br_guildid x = br_guildid r \<and> br_guid x = br_guid r then r else x) rows"

fun exec_sql :: "sql \<Rightarrow> tables \<Rightarrow> tables option" where
  "exec_sql (InsertBank r) db =
     (if row_key r \<in> row_key ` set (t_bank db) then None
      else Some (db\<lparr>t_bank := t_bank db @ [r]\<rparr>))"
| "exec_sql (UpdateBank r) db =
     (let rows = update_rows r (t_bank db)
      in if distinct (map row_key rows) then Some (db\<lparr>t_bank := rows\<rparr>) else None)"
| "exec_sql (DeleteBankItem gid g inferno) db =
     Some (db\<lparr>t_bank := filter (\<lambda>x. row_key x \<noteq> (gid, g, inferno)) (t_bank db)\<rparr>)"
| "exec_sql (UpdateMoney m gid inferno) db =
     Some (db\<lparr>t_money := map (\<lambda>x. if mr_guildid x = gid \<and> mr_isInferno x = inferno
                                   then x\<lparr>mr_money := m\<rparr> else x) (t_money db)\<rparr>)"
| "exec_sql (UpdateTabs r) db =
     Some (db\<lparr>t_tabs := map (\<lambda>x. if tr_guildid x = tr_guildid r \<and> tr_isInferno x = tr_isInferno r
                                  then r else x) (t_tabs db)\<rparr>)"
| "exec_sql (InsertLog r) db = Some (db\<lparr>t_log := t_log db @ [r]\<rparr>)"
| "exec_sql (InsertTabs gid inferno tabs) db =
     Some (db\<lparr>t_tabs := t_tabs db @ [default_tabs_row gid inferno tabs]\<rparr>)"
| "exec_sql (InsertMoney gid inferno m) db =
     (if (gid, inferno) \<in> (\<lambda>x. (mr_guildid x, mr_isInferno x)) ` set (t_money db) then None
      else Some (db\<lparr>t_money := t_money db @ [\<lparr>mr_guildid = gid, mr_isInferno = inferno, mr_money = m\<rparr>]\<rparr>))"
| "exec_sql (DeleteBank gid inferno) db =
     Some (db\<lparr>t_bank := filter (\<lambda>x. \<not> (br_guildid x = gid \<and> br_isInferno x = inferno)) (t_bank db)\<rparr>)"
| "exec_sql (DeleteLog gid inferno) db =
     Some (db\<lparr>t_log := filter (\<lambda>x. \<not> (lr_guildid x = gid \<and> lr_isInferno x = inferno)) (t_log db)\<rparr>)"
| "exec_sql (DeleteMoney gid inferno) db =
     Some (db\<lparr>t_money := filter (\<lambda>x. \<not> (mr_guildid x = gid \<and> mr_isInferno x = inferno)) (t_money db)\<rparr>)"
| "exec_sql (DeleteTabs gid inferno) db =
     Some (db\<lparr>t_tabs := filter (\<lambda>x. \<not> (tr_guildid x = gid \<and> tr_isInferno x = inferno)) (t_tabs db)\<rparr>)"

fun exec_all :: "sql list \<Rightarrow> tables \<Rightarrow> tables option" where
  "exec_all [] db = Some db"
| "exec_all (q # qs) db = (case exec_sql q db of None \<Rightarrow> None | Some db' \<Rightarrow> exec_all qs db')"

definition run_transaction :: "sql list \<Rightarrow> tables \<Rightarrow> tables" where
  "run_transaction qs db = (case exec_all qs db of None \<Rightarrow> db | Some db' \<Rightarrow> db')"

text \<open>A single statement outside a transaction; a failure leaves the tables as they are.\<close>

definition run_direct :: "sql \<Rightarrow> tables \<Rightarrow> tables" where
  "run_direct q db = (case exec_sql q db of None \<Rightarrow> db | Some db' \<Rightarrow> db')"

definition AddToDB :: "bank_item \<Rightarrow> sql" where
  "AddToDB b = InsertBank (row_of b)"

definition BankItem_SaveToDB :: "bank_item \<Rightarrow> sql" where
  "BankItem_SaveToDB b = UpdateBank (row_of b)"

definition BankItem_DeleteFromDB :: "bank_item \<Rightarrow> sql" where
  "BankItem_DeleteFromDB b =
     DeleteBankItem (bi_guildid b) (bi_guid b) (inferno_flag (bi_is_inferno b))"

text \<open>
  \<^verbatim>\<open>BankItem::LoadFromDB\<close> into a freshly allocated object, whose other fields hold what the
  memory held. The conversions are those of \<^verbatim>\<open>Field\<close>: the number cut to the width asked for.
\<close>

definition LoadFromDB :: "bank_row \<Rightarrow> bank_item \<Rightarrow> bank_item" where
  "LoadFromDB r raw =
     (let params = Tokenizer (br_enchantments r) (CHR '' '')
      in raw\<lparr>bi_guildid := br_guildid r, bi_guid := br_guid r, bi_is_inferno := (0 <s br_isInferno r),
           bi_tab := ucast (ucast (br_tab r) :: u8), bi_slot := ucast (ucast (br_slot r) :: u8),
           bi_item_template := br_item_template r, bi_creatorGuid := br_creatorGuid r,
           bi_giftCreatorGuid := br_giftCreatorGuid r, bi_count := br_count r,
           bi_duration := br_duration r, bi_charges := br_charges r, bi_flags := ucast (br_flags r),
           bi_enchantments := br_enchantments r,
           bi_enchant := (if length params = MAX_ENCHANTMENT_SLOT * MAX_ENCHANTMENT_OFFSET
                          then atoi (params ! 0) else 0),
           bi_randomPropertyId := scast (ucast (br_randomPropertyId r) :: u16),
           bi_transmogrifyId := br_transmogrifyId r,
           bi_durability := ucast (ucast (br_durability r) :: u16), bi_text := br_text r,
           bi_generated_loot := ucast (ucast (br_generated_loot r) :: u16)\<rparr>)"

end
