(* ===== verification/Guild_Bank.thy ===== *)
theory Guild_Bank
  imports Bank_Data
begin

text \<open>
  The guild bank, \<^verbatim>\<open>src/game/GuildBank/GuildBank.cpp\<close>: its state, the helpers, the log, money and
  tabs, and saving and loading. The state holds the bank's own fields, the player the
  operation is for, the database and, in order, everything sent to clients. An operation whose C++
  code dereferences a null or freed pointer has no result.
\<close>

section \<open>State\<close>

datatype bank_out =
    AddonMessage string
  | GuildMessage string
  | Notification string
  | BuyErrorNotEnoughMoney
  | EquipError InventoryResult
  | SendNewItem ptr u32

text \<open>
  \<open>gb_heap\<close> is the store of bank items and \<open>gb_items\<close> the vector of pointers; \<open>gb_raw\<close> is what fresh
  memory holds before a constructor or an assignment writes it.
\<close>

record bank =
  gb_guildid :: u32
  gb_inferno :: bool
  gb_tabs :: u32
  gb_money :: u32
  gb_heap :: "ptr \<Rightarrow> bank_item"
  gb_items :: "ptr list"
  gb_next :: ptr
  gb_tabInfo :: "u32 \<Rightarrow> bank_tab"
  gb_log :: "u32 \<Rightarrow> bank_log list"
  gb_moneyLog :: "money_log list"
  gb_queue :: "bank_item list"
  gb_saveLock :: bool
  gb_tabs_changed :: bool
  gb_money_changed :: bool
  gb_moneyLog_changed :: bool
  gb_log_changed :: bool
  gb_playerGuid :: u32
  gb_playerRankIndex :: u32
  gb_player :: player
  gb_db :: tables
  gb_out :: "bank_out list"
  gb_raw :: bank_item

section \<open>Helpers\<close>

definition send :: "bank_out \<Rightarrow> bank \<Rightarrow> bank" where
  "send m s = s\<lparr>gb_out := gb_out s @ [m]\<rparr>"

definition SendAddonMessage :: "string \<Rightarrow> bank \<Rightarrow> bank" where
  "SendAddonMessage m s = send (AddonMessage m) s"

definition SendNotification :: "string \<Rightarrow> bank \<Rightarrow> bank" where
  "SendNotification m s = send (Notification m) s"

definition SendGuildMessage :: "string \<Rightarrow> bank \<Rightarrow> bank" where
  "SendGuildMessage m s = send (GuildMessage (''TW_GUILDBANK'' @ [CHR 0x09] @ m)) s"

definition upd_bank_item :: "ptr \<Rightarrow> (bank_item \<Rightarrow> bank_item) \<Rightarrow> bank \<Rightarrow> bank" where
  "upd_bank_item p f s = s\<lparr>gb_heap := (gb_heap s)(p := f (gb_heap s p))\<rparr>"

definition upd_player :: "(player \<Rightarrow> player) \<Rightarrow> bank \<Rightarrow> bank" where
  "upd_player f s = s\<lparr>gb_player := f (gb_player s)\<rparr>"

definition push_queue :: "ptr \<Rightarrow> bank \<Rightarrow> bank" where
  "push_queue p s = s\<lparr>gb_queue := gb_queue s @ [gb_heap s p]\<rparr>"

text \<open>\<^verbatim>\<open>new BankItem\<close>: fresh memory, only the strings and \<^verbatim>\<open>is_inferno\<close> are initialised.\<close>

definition new_bank_item :: "bank \<Rightarrow> ptr \<times> bank" where
  "new_bank_item s =
     (gb_next s, s\<lparr>gb_next := Suc (gb_next s),
        gb_heap := (gb_heap s)(gb_next s := (gb_raw s)\<lparr>bi_Name := [], bi_charges := [],
          bi_enchantments := [], bi_is_inferno := False\<rparr>)\<rparr>)"

fun max_guid :: "(ptr \<Rightarrow> bank_item) \<Rightarrow> ptr list \<Rightarrow> u32 \<Rightarrow> u32" where
  "max_guid h [] g = g"
| "max_guid h (p # ps) g = max_guid h ps (if bi_guid (h p) > g then bi_guid (h p) else g)"

definition GetNewGuid :: "bank \<Rightarrow> u32" where
  "GetNewGuid s = max_guid (gb_heap s) (gb_items s) 0 + 1"

definition AddItem :: "ptr \<Rightarrow> bank \<Rightarrow> bank" where
  "AddItem p s = s\<lparr>gb_items := gb_items s @ [p]\<rparr>"

definition DeleteItem :: "ptr \<Rightarrow> bank \<Rightarrow> bank" where
  "DeleteItem p s = s\<lparr>gb_items := remove1 p (gb_items s)\<rparr>"

fun find_item :: "(ptr \<Rightarrow> bank_item) \<Rightarrow> ptr list \<Rightarrow> u32 \<Rightarrow> u32 \<Rightarrow> ptr option" where
  "find_item h [] tab slot = None"
| "find_item h (p # ps) tab slot =
     (if bi_tab (h p) = tab \<and> bi_slot (h p) = slot then Some p else find_item h ps tab slot)"

definition GetItem :: "bank \<Rightarrow> u32 \<Rightarrow> u32 \<Rightarrow> ptr option" where
  "GetItem s tab slot = find_item (gb_heap s) (gb_items s) tab slot"

definition CloneBankItem :: "ptr \<Rightarrow> bank \<Rightarrow> ptr \<times> bank" where
  "CloneBankItem p s =
     (let g = GetNewGuid s; b = gb_heap s p; (q, s1) = new_bank_item s
      in (q, upd_bank_item q (\<lambda>c. c\<lparr>bi_guildid := gb_guildid s, bi_guid := g, bi_tab := bi_tab b,
            bi_slot := bi_slot b, bi_item_template := bi_item_template b,
            bi_creatorGuid := bi_creatorGuid b, bi_giftCreatorGuid := bi_giftCreatorGuid b,
            bi_count := bi_count b, bi_maxStackSize := bi_maxStackSize b, bi_duration := bi_duration b,
            bi_charges := bi_charges b, bi_flags := bi_flags b, bi_enchantments := bi_enchantments b,
            bi_randomPropertyId := bi_randomPropertyId b, bi_enchant := bi_enchant b,
            bi_transmogrifyId := bi_transmogrifyId b, bi_durability := bi_durability b,
            bi_text := bi_text b, bi_generated_loot := bi_generated_loot b,
            bi_is_inferno := bi_is_inferno b\<rparr>) s1))"

definition sep :: "string list \<Rightarrow> string" where
  "sep fs = join (CHR '':'') fs"

text \<open>The fields most messages describe an item with.\<close>

definition item_fields :: "bank_item \<Rightarrow> string list" where
  "item_fields b =
     [to_string (bi_tab b), to_string (bi_slot b), to_string (bi_guid b),
      to_string (bi_item_template b), to_string (bi_count b),
      (if 0 <s bi_randomPropertyId b then bi_Name b else ''0''),
      to_string_s (bi_randomPropertyId b), to_string (bi_enchant b)]"

definition short_fields :: "bank_item \<Rightarrow> string list" where
  "short_fields b =
     [to_string (bi_tab b), to_string (bi_slot b), to_string (bi_guid b),
      to_string (bi_item_template b), to_string (bi_count b)]"

section \<open>Items from the bag into the bank and back\<close>

text \<open>\<^verbatim>\<open>CloneItem(BankItem*, Item*)\<close>; the lookup of a positive random property must find an entry.\<close>

definition CloneItem_to_bank :: "world \<Rightarrow> bool \<Rightarrow> item \<Rightarrow> bank_item \<Rightarrow> bank_item option" where
  "CloneItem_to_bank w inferno it b =
     (let proto = GetProto w it;
          b1 = b\<lparr>bi_Name := ip_Name1 proto, bi_item_template := ip_ItemId proto,
                 bi_creatorGuid := GetCounter (it_creator it),
                 bi_giftCreatorGuid := GetCounter (it_giftcreator it),
                 bi_maxStackSize := GetMaxStackSize proto, bi_duration := it_duration it,
                 bi_is_inferno := inferno,
                 bi_charges := concat (map (\<lambda>i. to_string_s (it_charges it ! i) @ '' '')
                                         [0..<MAX_ITEM_PROTO_SPELLS]),
                 bi_flags := ucast (it_flags it),
                 bi_enchantments := concat (map (\<lambda>i.
                    to_string (it_enchants it ! (3 * i)) @ '' '' @ to_string (it_enchants it ! (3 * i + 1)) @ '' '' @
                    to_string (it_enchants it ! (3 * i + 2)) @ '' '') [0..<MAX_ENCHANTMENT_SLOT]),
                 bi_enchant := it_enchants it ! 0,
                 bi_randomPropertyId := it_randomProp it\<rparr>;
          tail = (\<lambda>b. b\<lparr>bi_transmogrifyId := it_transmog it, bi_durability := ucast (it_durability it),
                        bi_text := it_text it, bi_generated_loot := (if it_generatedLoot it then 1 else 0),
                        bi_quality := ip_Quality proto\<rparr>)
      in if 0 <s it_randomProp it
         then (case w_randprop w (it_randomProp it) of
                 None \<Rightarrow> None
               | Some rp \<Rightarrow> Some (tail (b1\<lparr>bi_Name := bi_Name b1 @ '' '' @ rp_nameSuffix rp\<rparr>)))
         else Some (tail b1))"

text \<open>
  \<^verbatim>\<open>CloneItem(Item*, BankItem*)\<close>; the 21 tokens of the enchantments are read without a check.
  \<^verbatim>\<open>SetGuidValue\<close> with a low guid stores that number.
\<close>

definition CloneItem_to_item :: "u32 \<Rightarrow> bank_item \<Rightarrow> item \<Rightarrow> item option" where
  "CloneItem_to_item playerGuid b it =
     (let chr = Tokenizer (bi_charges b) (CHR '' ''); ench = Tokenizer (bi_enchantments b) (CHR '' '')
      in if length ench < MAX_ENCHANTMENT_SLOT * MAX_ENCHANTMENT_OFFSET then None
         else Some (it\<lparr>it_owner := ucast playerGuid, it_creator := ucast (bi_creatorGuid b),
                it_giftcreator := ucast (bi_giftCreatorGuid b), it_duration := bi_duration b,
                it_charges := (if length chr = MAX_ITEM_PROTO_SPELLS then map atoi chr else it_charges it),
                it_flags := ucast (bi_flags b),
                it_enchants := map (\<lambda>i. ucast (strtoul (ench ! i)))
                                 [0..<MAX_ENCHANTMENT_SLOT * MAX_ENCHANTMENT_OFFSET],
                it_randomProp := bi_randomPropertyId b, it_transmog := bi_transmogrifyId b,
                it_durability := ucast (bi_durability b), it_text := bi_text b,
                it_generatedLoot := (bi_generated_loot b = 1)\<rparr>))"

section \<open>The log\<close>

definition LogAction :: "world \<Rightarrow> u8 \<Rightarrow> u32 \<Rightarrow> u32 \<Rightarrow> u32 \<Rightarrow> ptr option \<Rightarrow> bank \<Rightarrow> bank" where
  "LogAction w action tab itemID cnt bItem s =
     (if tab > 5 then s
      else let name = pl_name (gb_player s); stamp = word_of_int (w_now w) :: u32
      in if tab = 0
         then (let n = length (gb_moneyLog s);
                   e = \<lparr>ml_player = gb_playerGuid s, ml_action = action, ml_money = cnt, ml_stamp = stamp,
                        ml_playerName = name, ml_state = ITEM_NEW\<rparr>;
                   s1 = s\<lparr>gb_moneyLog := gb_moneyLog s @ [e]\<rparr>;
                   s2 = SendGuildMessage (''GMoneyLog:0:'' @ join (CHR '';'')
                          [to_string stamp, name, to_string action, to_string cnt, show_nat n]) s1
               in s2\<lparr>gb_moneyLog_changed := True\<rparr>)
         else (let known = (action = ACTION_WITHDRAW_ITEM \<or> action = ACTION_DEPOSIT_ITEM \<or> action = ACTION_DESTROY_ITEM);
                   itemName = (case bItem of Some p \<Rightarrow> if known then bi_Name (gb_heap s p) else ''Unknown''
                               | None \<Rightarrow> ''Unknown'');
                   itemQuality = (case bItem of Some p \<Rightarrow> if known then to_string (bi_quality (gb_heap s p)) else ''1''
                                  | None \<Rightarrow> ''1'');
                   e = \<lparr>lg_player = gb_playerGuid s, lg_action = action, lg_tab = ucast tab, lg_item = itemID,
                        lg_enchant = (case bItem of Some p \<Rightarrow> bi_enchant (gb_heap s p) | None \<Rightarrow> 0),
                        lg_randomPropertyId = (case bItem of Some p \<Rightarrow> bi_randomPropertyId (gb_heap s p) | None \<Rightarrow> 0),
                        lg_count = ucast cnt, lg_stamp = stamp, lg_playerName = name, lg_itemName = itemName,
                        lg_itemQuality = itemQuality, lg_state = ITEM_NEW\<rparr>;
                   s1 = s\<lparr>gb_log := (gb_log s)(tab := gb_log s tab @ [e])\<rparr>;
                   s2 = SendGuildMessage (''GTabLog:'' @ to_string tab @ '':'' @ join (CHR '';'')
                          [to_string stamp, name, to_string action, to_string itemID, itemName, itemQuality,
                           to_string cnt, to_string (lg_randomPropertyId e), to_string (lg_enchant e)]) s1
               in s2\<lparr>gb_log_changed := True\<rparr>))"

definition wrong_syntax :: "string \<Rightarrow> string \<Rightarrow> bank \<Rightarrow> bank" where
  "wrong_syntax what msg s = SendAddonMessage (what @ '':Error:WrongSyntax('' @ msg @ '')'') s"

text \<open>
  The loop that collects lines into messages of limited size: a message that has grown over the
  limit is cut of its last separator and sent, and a new one is begun.
\<close>

fun chunk_loop :: "string \<Rightarrow> string list \<Rightarrow> string \<Rightarrow> string list \<Rightarrow> string \<times> string list" where
  "chunk_loop header [] message messages = (message, messages)"
| "chunk_loop header (l # ls) message messages =
     (let m = message @ l
      in if length m > ADDON_MAX_PACKET_SIZE
         then chunk_loop header ls header (messages @ [butlast m])
         else chunk_loop header ls m messages)"

definition chunk_messages :: "string \<Rightarrow> string list \<Rightarrow> string list" where
  "chunk_messages header ls =
     (let (message, messages) = chunk_loop header ls header []
      in if message = header then messages @ [message @ ''end'']
         else messages @ [butlast message, header @ ''end''])"

definition last_lines :: "'a list \<Rightarrow> 'a list" where
  "last_lines l = (if length l > LOG_LINES_LIMIT then drop (length l - LOG_LINES_LIMIT) l else l)"

definition log_line :: "bank_log \<Rightarrow> string" where
  "log_line e =
     join (CHR '';'') [to_string (lg_stamp e), lg_playerName e, to_string (lg_action e), to_string (lg_item e),
       lg_itemName e, lg_itemQuality e, to_string (lg_count e), to_string (lg_randomPropertyId e),
       to_string (lg_enchant e)] @ ''=''"

definition money_line :: "money_log \<Rightarrow> string" where
  "money_line e =
     join (CHR '';'') [to_string (ml_stamp e), ml_playerName e, to_string (ml_action e), to_string (ml_money e)] @ ''=''"

definition SendTabLog :: "string \<Rightarrow> bank \<Rightarrow> bank" where
  "SendTabLog msg s =
     (let params = Tokenizer msg (CHR '':'')
      in if length params = 2
         then (let tab = ucast (atoi (params ! 1)) :: u8
               in if tab = 0 \<or> tab > 5 then SendAddonMessage ''SendTabLog:Error:ParamsOutOfRange'' s
                  else fold SendAddonMessage
                         (chunk_messages (''TabLog:'' @ to_string tab @ '':'')
                           (map log_line (last_lines (gb_log s (ucast tab))))) s)
         else wrong_syntax ''SendTabLog'' msg s)"

definition SendMoneyLog :: "string \<Rightarrow> bank \<Rightarrow> bank" where
  "SendMoneyLog msg s =
     fold SendAddonMessage
       (chunk_messages ''MoneyLog:'' (map money_line (last_lines (gb_moneyLog s)))) s"

section \<open>Weekly withdrawals and access\<close>

definition weekstart :: "world \<Rightarrow> int" where
  "weekstart w =
     (let wday = (if w_wday w - 1 = - 1 then 6 else w_wday w - 1)
      in w_now w - wday * 86400 - (w_sec w + 60 * w_min w + 3600 * w_hour w))"

definition withdrawal_this_week :: "world \<Rightarrow> bank \<Rightarrow> u8 \<Rightarrow> bank_log \<Rightarrow> bool" where
  "withdrawal_this_week w s tab e =
     (lg_action e = ACTION_WITHDRAW_ITEM \<and> lg_player e = gb_playerGuid s \<and> lg_tab e = tab \<and>
      int (unat (lg_stamp e)) \<ge> weekstart w)"

definition GetTabWithdrawalsLeft :: "world \<Rightarrow> u8 \<Rightarrow> bank \<Rightarrow> u8 \<times> bank" where
  "GetTabWithdrawalsLeft w tab s =
     (if tab = 0 \<or> tab > 5
      then (0, SendAddonMessage ''GetTabWithdrawalsLeft:Error:ParamsOutOfRange'' s)
      else let week = of_nat (length (filter (withdrawal_this_week w s tab) (gb_log s (ucast tab)))) :: u8;
               limit = tb_withdrawals (gb_tabInfo s (ucast tab))
      in if week \<ge> limit then (0, s) else (limit - week, s))"

definition SendTabWithdrawalsLeft :: "world \<Rightarrow> u8 \<Rightarrow> bank \<Rightarrow> bank" where
  "SendTabWithdrawalsLeft w tab s =
     (if tab = 0 \<or> tab > 5 then SendAddonMessage ''SendTabWithdrawalsLeft:Error:ParamsOutOfRange'' s
      else let t = gb_tabInfo s (ucast tab)
      in if tb_withdrawals t = 0 \<or> gb_playerRankIndex s < ucast (tb_minrank t) \<or> gb_playerRankIndex s = 0
         then SendAddonMessage (''TabWithdrawalsLeft:'' @ to_string tab @ '':Unlimited'') s
         else (case GetTabWithdrawalsLeft w tab s of (n, s') \<Rightarrow>
                 SendAddonMessage (''TabWithdrawalsLeft:'' @ to_string tab @ '':'' @ to_string n) s'))"

definition SendTabWithdrawalsLeft_msg :: "world \<Rightarrow> string \<Rightarrow> bank \<Rightarrow> bank" where
  "SendTabWithdrawalsLeft_msg w msg s =
     (let params = Tokenizer msg (CHR '':'')
      in if length params = 2 then SendTabWithdrawalsLeft w (ucast (atoi (params ! 1))) s
         else wrong_syntax ''SendTabWithdrawalsLeft'' msg s)"

definition CanAccessTab :: "world \<Rightarrow> u8 \<Rightarrow> u8 \<Rightarrow> bank \<Rightarrow> bool \<times> bank" where
  "CanAccessTab w tab action s =
     (let t = gb_tabInfo s (ucast tab); rank = gb_playerRankIndex s;
          last_check = (\<lambda>s. (\<not> rank > ucast (tb_minrank t), s))
      in if action = ACTION_WITHDRAW_MONEY then (rank \<le> 1, s)
         else if (action = ACTION_SPLIT_ITEM \<or> action = ACTION_DESTROY_ITEM) \<and> rank > ucast (tb_minrank t)
         then (False, s)
         else if (action = ACTION_WITHDRAW_ITEM \<or> action = ACTION_DEPOSIT_ITEM) \<and>
                 tb_withdrawals t > 0 \<and> rank = ucast (tb_minrank t)
         then (case GetTabWithdrawalsLeft w tab s of (n, s') \<Rightarrow>
                 if n = 0 then (False, s') else last_check s')
         else last_check s)"

definition IsItemBankable :: "world \<Rightarrow> item \<Rightarrow> bank \<Rightarrow> bool \<times> bank" where
  "IsItemBankable w it s =
     (if IsSoulBound it
      then (False, SendAddonMessage ''Error:ItemSoulBound''
                     (SendNotification ''You cannot deposit soulbound items.'' s))
      else if IsConjuredConsumable (GetProto w it)
      then (False, SendAddonMessage ''Error:ItemConjured''
                     (SendNotification ''You cannot deposit conjured items.'' s))
      else if ip_Duration (GetProto w it) > 0
      then (False, SendAddonMessage ''Error:ItemTemporary''
                     (SendNotification ''You cannot deposit temporary items.'' s))
      else (True, s))"

section \<open>Saving\<close>

definition tabs_row_of :: "bank \<Rightarrow> tabs_row" where
  "tabs_row_of s =
     (let t = (\<lambda>i. gb_tabInfo s (of_nat i))
      in \<lparr>tr_guildid = gb_guildid s, tr_isInferno = inferno_flag (gb_inferno s), tr_tabs = gb_tabs s,
          tr_names = map (tb_name \<circ> t) [1..<6], tr_icons = map (tb_icon \<circ> t) [1..<6],
          tr_withdrawals = map (ucast \<circ> tb_withdrawals \<circ> t) [1..<6],
          tr_minranks = map (ucast \<circ> tb_minrank \<circ> t) [1..<6]\<rparr>)"

definition money_log_row :: "bank \<Rightarrow> money_log \<Rightarrow> log_row" where
  "money_log_row s e =
     \<lparr>lr_guildid = gb_guildid s, lr_isInferno = inferno_flag (gb_inferno s), lr_player = ml_player e,
      lr_action = ucast (ml_action e), lr_tab = 0, lr_item = 0, lr_randomPropertyId = 0, lr_enchant = 0,
      lr_count = ml_money e, lr_stamp = ml_stamp e\<rparr>"

definition item_log_row :: "bank \<Rightarrow> bank_log \<Rightarrow> log_row" where
  "item_log_row s e =
     \<lparr>lr_guildid = gb_guildid s, lr_isInferno = inferno_flag (gb_inferno s), lr_player = lg_player e,
      lr_action = ucast (lg_action e), lr_tab = ucast (lg_tab e), lr_item = lg_item e,
      lr_randomPropertyId = lg_randomPropertyId e, lr_enchant = lg_enchant e,
      lr_count = ucast (lg_count e), lr_stamp = lg_stamp e\<rparr>"

fun queue_sql :: "bank_item list \<Rightarrow> sql list" where
  "queue_sql [] = []"
| "queue_sql (b # bs) =
     (case bi_state b of
        ITEM_NEW \<Rightarrow> [AddToDB b]
      | ITEM_CHANGED \<Rightarrow> [BankItem_SaveToDB b]
      | ITEM_REMOVED \<Rightarrow> [BankItem_DeleteFromDB b]
      | ITEM_UNCHANGED \<Rightarrow> []
      | ITEM_STASHED \<Rightarrow> []) @ queue_sql bs"

definition new_money_logs :: "bank \<Rightarrow> money_log list" where
  "new_money_logs s = filter (\<lambda>e. ml_state e = ITEM_NEW) (gb_moneyLog s)"

definition new_item_logs :: "bank \<Rightarrow> bank_log list" where
  "new_item_logs s =
     concat (map (\<lambda>i. filter (\<lambda>e. lg_state e = ITEM_NEW) (gb_log s (of_nat i))) [1..<6])"

text \<open>The statements of one save, in the order they are issued.\<close>

definition save_statements :: "bank \<Rightarrow> sql list" where
  "save_statements s =
     (if gb_money_changed s then [UpdateMoney (gb_money s) (gb_guildid s) (inferno_flag (gb_inferno s))] else []) @
     (if gb_tabs_changed s then [UpdateTabs (tabs_row_of s)] else []) @
     (if gb_moneyLog_changed s then map (InsertLog \<circ> money_log_row s) (new_money_logs s) else []) @
     (if gb_log_changed s then map (InsertLog \<circ> item_log_row s) (new_item_logs s) else []) @
     queue_sql (gb_queue s)"

definition SaveToDB :: "bank \<Rightarrow> bank" where
  "SaveToDB s =
     (if gb_saveLock s then s
      else if \<not> gb_moneyLog_changed s \<and> \<not> gb_tabs_changed s \<and> \<not> gb_money_changed s \<and> \<not> gb_log_changed s
              \<and> gb_queue s = [] then s
      else s\<lparr>gb_db := run_transaction (save_statements s) (gb_db s),
             gb_money_changed := False, gb_tabs_changed := False,
             gb_moneyLog := (if gb_moneyLog_changed s
                             then map (\<lambda>e. if ml_state e = ITEM_NEW then e\<lparr>ml_state := ITEM_UNCHANGED\<rparr> else e) (gb_moneyLog s)
                             else gb_moneyLog s),
             gb_moneyLog_changed := False,
             gb_log := (if gb_log_changed s
                        then (\<lambda>t. if 1 \<le> t \<and> t \<le> 5
                                  then map (\<lambda>e. if lg_state e = ITEM_NEW then e\<lparr>lg_state := ITEM_UNCHANGED\<rparr> else e) (gb_log s t)
                                  else gb_log s t)
                        else gb_log s),
             gb_log_changed := False,
             gb_heap := (if gb_queue s \<noteq> []
                         then (\<lambda>p. if p \<in> set (gb_items s) then (gb_heap s p)\<lparr>bi_state := ITEM_UNCHANGED\<rparr> else gb_heap s p)
                         else gb_heap s),
             gb_queue := [], gb_saveLock := False\<rparr>)"

definition Bank_DeleteFromDB :: "bank \<Rightarrow> bank" where
  "Bank_DeleteFromDB s =
     (let g = gb_guildid s; i = inferno_flag (gb_inferno s)
      in s\<lparr>gb_saveLock := True,
           gb_db := run_transaction [DeleteBank g i, DeleteLog g i, DeleteMoney g i, DeleteTabs g i] (gb_db s)\<rparr>)"

end
