(* ===== verification/Bank_Admin.thy ===== *)
theory Bank_Admin
  imports Guild_Bank
begin

text \<open>
  Loading the guild bank and its log, unlocking the bank and its tabs, tab settings and money
  (\<^verbatim>\<open>src/game/GuildBank/GuildBank.cpp\<close>). Loading has no result when the code dereferences
  the missing entry of a random property.
\<close>

section \<open>Loading\<close>

definition bank_suffix :: "world \<Rightarrow> u32 \<Rightarrow> string \<Rightarrow> string option" where
  "bank_suffix w rp name =
     (case w_randprop w rp of None \<Rightarrow> None | Some e \<Rightarrow> Some (name @ '' '' @ rp_nameSuffix e))"

definition load_item :: "world \<Rightarrow> bank_row \<Rightarrow> bank_item \<Rightarrow> bank_item option" where
  "load_item w r fresh =
     (let b = LoadFromDB r fresh
      in case w_proto w (bi_item_template b) of
           None \<Rightarrow> Some (b\<lparr>bi_state := ITEM_UNCHANGED\<rparr>)
         | Some proto \<Rightarrow>
             Option.bind (if 0 <s bi_randomPropertyId b then bank_suffix w (bi_randomPropertyId b) (ip_Name1 proto)
                          else Some (ip_Name1 proto))
               (\<lambda>name. Some (b\<lparr>bi_Name := name, bi_quality := ip_Quality proto,
                               bi_maxStackSize := GetMaxStackSize proto, bi_state := ITEM_UNCHANGED\<rparr>)))"

fun load_items :: "world \<Rightarrow> bank_row list \<Rightarrow> bank \<Rightarrow> bank option" where
  "load_items w [] s = Some s"
| "load_items w (r # rs) s =
     (let (p, s1) = new_bank_item s
      in Option.bind (load_item w r (gb_heap s1 p))
           (\<lambda>b. load_items w rs (AddItem p (upd_bank_item p (\<lambda>_. b) s1))))"

text \<open>The rows of the join of tabs and money for this bank.\<close>

definition joined_rows :: "bank \<Rightarrow> (tabs_row \<times> money_row) list" where
  "joined_rows s =
     [(t, m). t \<leftarrow> t_tabs (gb_db s), m \<leftarrow> t_money (gb_db s),
       tr_guildid t = mr_guildid m \<and> tr_isInferno t = mr_isInferno m \<and>
       tr_guildid t = gb_guildid s \<and> tr_isInferno t = inferno_flag (gb_inferno s)]"

definition load_tabs_row :: "tabs_row \<times> money_row \<Rightarrow> bank \<Rightarrow> bank" where
  "load_tabs_row tm s =
     s\<lparr>gb_tabs := tr_tabs (fst tm), gb_money := mr_money (snd tm),
       gb_tabInfo := (\<lambda>i. if 1 \<le> i \<and> i \<le> 5
          then (let k = unat i - 1 in
                \<lparr>tb_name = tr_names (fst tm) ! k, tb_icon = tr_icons (fst tm) ! k,
                 tb_withdrawals = ucast (tr_withdrawals (fst tm) ! k), tb_minrank = ucast (tr_minranks (fst tm) ! k)\<rparr>)
          else gb_tabInfo s i)\<rparr>"

definition bank_rows :: "bank \<Rightarrow> bank_row list" where
  "bank_rows s =
     filter (\<lambda>r. br_guildid r = gb_guildid s \<and> br_isInferno r = inferno_flag (gb_inferno s)) (t_bank (gb_db s))"

definition LoadBank :: "world \<Rightarrow> bank \<Rightarrow> bank option" where
  "LoadBank w s =
     (if joined_rows s = [] then Some s
      else let s1 = fold load_tabs_row (joined_rows s) (s\<lparr>gb_tabs := 0\<rparr>);
               s2 = s1\<lparr>gb_tabInfo := (gb_tabInfo s1)(0 := (gb_tabInfo s1 0)\<lparr>tb_minrank := 1\<rparr>)\<rparr>
      in load_items w (bank_rows s2) s2)"

definition empty_log :: bank_log where
  "empty_log = \<lparr>lg_player = 0, lg_action = 0, lg_tab = 0, lg_item = 0, lg_enchant = 0, lg_randomPropertyId = 0,
     lg_count = 0, lg_stamp = 0, lg_playerName = [], lg_itemName = [], lg_itemQuality = [],
     lg_state = ITEM_UNCHANGED\<rparr>"

text \<open>\<^verbatim>\<open>AppendLog\<close> at an index of the log of a tab; the enchantment it reads is not stored.\<close>

definition AppendLog :: "world \<Rightarrow> nat \<Rightarrow> u32 \<Rightarrow> log_row \<Rightarrow> ItemUpdateState \<Rightarrow> bank \<Rightarrow> bank option" where
  "AppendLog w i tab r state s =
     (let name = (case w_player_name w (lr_player r) of Some n \<Rightarrow> n | None \<Rightarrow> ''Unknown'')
      in if tab = 0
         then Some (s\<lparr>gb_moneyLog := put_at i \<lparr>ml_player = lr_player r, ml_action = ucast (lr_action r),
                ml_money = lr_count r, ml_stamp = lr_stamp r, ml_playerName = name, ml_state = state\<rparr> (gb_moneyLog s)\<rparr>)
         else (let rp = lr_randomPropertyId r;
                   old = (if i < length (gb_log s tab) then gb_log s tab ! i else empty_log);
                   store = (\<lambda>itemName itemQuality. s\<lparr>gb_log := (gb_log s)(tab := put_at i
                      (old\<lparr>lg_player := lr_player r, lg_action := ucast (lr_action r), lg_tab := ucast tab,
                           lg_item := lr_item r, lg_count := ucast (lr_count r), lg_randomPropertyId := rp,
                           lg_stamp := lr_stamp r, lg_playerName := name, lg_itemName := itemName,
                           lg_itemQuality := itemQuality, lg_state := state\<rparr>) (gb_log s tab))\<rparr>)
               in case w_proto w (lr_item r) of
                    None \<Rightarrow> Some (store ''Unknown'' ''1'')
                  | Some proto \<Rightarrow>
                      Option.bind (if rp > 0 then bank_suffix w rp (ip_Name1 proto) else Some (ip_Name1 proto))
                        (\<lambda>itemName. Some (store itemName (to_string (ip_Quality proto))))))"

fun append_logs :: "world \<Rightarrow> (u32 \<Rightarrow> nat) \<Rightarrow> log_row list \<Rightarrow> bank \<Rightarrow> bank option" where
  "append_logs w index [] s = Some s"
| "append_logs w index (r # rs) s =
     (let tab = ucast (ucast (lr_tab r) :: u8) :: u32
      in Option.bind (AppendLog w (index tab) tab r ITEM_UNCHANGED s)
           (append_logs w (index(tab := Suc (index tab))) rs))"

definition log_rows :: "world \<Rightarrow> bank \<Rightarrow> log_row list" where
  "log_rows w s =
     sort_key (unat \<circ> lr_stamp)
       (filter (\<lambda>r. lr_guildid r = gb_guildid s \<and> lr_isInferno r = inferno_flag (gb_inferno s) \<and>
                    lr_stamp r \<ge> word_of_int (w_now w - 604800)) (t_log (gb_db s)))"

definition LoadLog :: "world \<Rightarrow> bank \<Rightarrow> bank option" where
  "LoadLog w s =
     (if log_rows w s = [] then Some s
      else Option.bind (append_logs w (\<lambda>_. 0) (log_rows w s) s)
             (\<lambda>s'. Some (s'\<lparr>gb_moneyLog_changed := False, gb_log_changed := False\<rparr>)))"

definition SetGuild :: "world \<Rightarrow> u32 \<Rightarrow> bank \<Rightarrow> bank option" where
  "SetGuild w gid s =
     Option.bind (LoadBank w (s\<lparr>gb_guildid := gid, gb_tabs := 0\<rparr>)) (\<lambda>s1.
     Option.bind (LoadLog w s1) (\<lambda>s2.
       Some (s2\<lparr>gb_tabs_changed := False, gb_money_changed := False, gb_moneyLog_changed := False,
                gb_log_changed := False, gb_queue := []\<rparr>)))"

definition SetPlayer :: "player \<Rightarrow> bank \<Rightarrow> bank" where
  "SetPlayer pl s =
     s\<lparr>gb_player := pl, gb_playerGuid := ucast (pl_guid pl), gb_playerRankIndex := pl_rank pl\<rparr>"

section \<open>Tabs\<close>

definition tab_message :: "u32 \<Rightarrow> bank \<Rightarrow> string" where
  "tab_message tab s =
     (let t = gb_tabInfo s tab
      in ''GUpdateTab:'' @ sep [to_string tab, tb_name t, tb_icon t, to_string (tb_withdrawals t), to_string (tb_minrank t)])"

definition UpdateMinranks :: "u32 \<Rightarrow> bank \<Rightarrow> bank" where
  "UpdateMinranks rank s =
     fold (\<lambda>i s. let tab = of_nat i :: u32; t = gb_tabInfo s tab
                 in if ucast (tb_minrank t) = rank
                    then let s1 = s\<lparr>gb_tabInfo := (gb_tabInfo s)(tab := t\<lparr>tb_minrank := tb_minrank t - 1\<rparr>),
                                    gb_tabs_changed := True\<rparr>
                         in SendGuildMessage (tab_message tab s1) s1
                    else s) [1..<6] s"

definition SendBankMoney :: "bank \<Rightarrow> bank" where
  "SendBankMoney s = SendAddonMessage (''BankInfo:money:'' @ to_string (gb_money s)) s"

definition SendBankInfo :: "bank \<Rightarrow> bank" where
  "SendBankInfo s =
     (let s1 = SendBankMoney s; t = (\<lambda>i. gb_tabInfo s (of_nat i));
          info = ''BankInfo:Tabs:'' @ to_string (gb_tabs s) @ '':'' @
            concat (map (\<lambda>i. tb_name (t i) @ '':'') [1..<6]) @
            concat (map (\<lambda>i. tb_icon (t i) @ '':'') [1..<6]) @
            concat (map (\<lambda>i. to_string (tb_withdrawals (t i)) @ '':'') [1..<6]) @
            concat (map (\<lambda>i. to_string (tb_minrank (t i)) @ '':'') [1..<6])
      in SendAddonMessage (butlast info) s1)"

definition UnlockGuildBank :: "world \<Rightarrow> string \<Rightarrow> bank \<Rightarrow> bank option" where
  "UnlockGuildBank w msg s =
     (if gb_playerRankIndex s \<noteq> 0 then Some (SendAddonMessage ''UnlockGuildBank:Error:NotGM'' s)
      else let params = Tokenizer msg (CHR '':'')
      in if length params \<noteq> 2 then Some (wrong_syntax ''UnlockGuildBank'' msg s)
      else if params ! 1 = ''Cost''
      then Some (SendAddonMessage (''UnlockGuildBank:Cost:'' @ to_string (GUILD_BANK_COST div GOLD)) s)
      else if params ! 1 = ''Ok''
      then if pl_money (gb_player s) < GUILD_BANK_COST then Some (send BuyErrorNotEnoughMoney s)
           else let g = gb_guildid s; i = inferno_flag (gb_inferno s);
                    s1 = s\<lparr>gb_db := run_direct (InsertMoney g i 0) (run_direct (InsertTabs g i 1) (gb_db s)),
                           gb_tabs := 1\<rparr>;
                    s2 = upd_player (ModifyMoney w (- GUILD_BANK_COST)) s1
                in Option.bind (LoadBank w s2) (\<lambda>s3. Option.bind (LoadLog w s3) (\<lambda>s4.
                     let s5 = SendBankInfo (SendGuildMessage ''GUnlock:GuildBank:Ok'' s4)
                     in Some (s5\<lparr>gb_moneyLog := gb_moneyLog s5 @
                          [\<lparr>ml_player = gb_playerGuid s5, ml_action = ACTION_UNLOCK_GUILD_BANK,
                            ml_money = GUILD_BANK_COST, ml_stamp = word_of_int (w_now w),
                            ml_playerName = pl_name (gb_player s5), ml_state = ITEM_NEW\<rparr>]\<rparr>)))
      else Some (SendAddonMessage ''UnlockGuildBank:Error:UnknownAction'' s))"

definition tab_cost :: "u8 \<Rightarrow> u32" where
  "tab_cost tab =
     (if tab = 2 then TAB_2_COST else if tab = 3 then TAB_3_COST
      else if tab = 4 then TAB_4_COST else if tab = 5 then TAB_5_COST else 0)"

definition UnlockTab :: "world \<Rightarrow> string \<Rightarrow> bank \<Rightarrow> bank" where
  "UnlockTab w msg s =
     (if gb_playerRankIndex s \<noteq> 0 then SendAddonMessage ''UnlockTab:Error:NotGM'' s
      else let params = Tokenizer msg (CHR '':'')
      in if length params \<noteq> 3 then wrong_syntax ''UnlockTab'' msg s
      else let tab = ucast (atoi (params ! 1)) :: u8; moneySource = ucast (atoi (params ! 2)) :: u8;
               cost = tab_cost tab;
               unlocked = (\<lambda>action s1. SaveToDB
                 ((LogAction w action 0 (ucast tab) cost None
                    (SendGuildMessage (''GUnlock:Tab:'' @ to_string tab @ '':Ok'') (s1\<lparr>gb_tabs := ucast tab\<rparr>)))
                  \<lparr>gb_tabs_changed := True\<rparr>))
      in if tab \<le> 1 \<or> tab > 5 then SendAddonMessage ''UnlockTab:Error:ParamsOutOfRange'' s
      else if cost = 0 then SendAddonMessage ''UnlockTab:Error:CantFindPrice'' s
      else if moneySource = 0
      then if gb_money s < cost
           then SendAddonMessage ''UnlockTab:Error:Player:NotEnoughMoney''
                  (SendNotification ''Your guild bank does not have enough money.'' s)
           else unlocked ACTION_UNLOCK_TAB_GUILD_MONEY
                  (s\<lparr>gb_money := gb_money s - cost, gb_money_changed := True\<rparr>)
      else if pl_money (gb_player s) < cost
      then SendAddonMessage ''UnlockTab:Error:Bank:NotEnoughMoney'' (send BuyErrorNotEnoughMoney s)
      else unlocked ACTION_UNLOCK_TAB_PERSONAL_MONEY (upd_player (ModifyMoney w (- cost)) s))"

definition UnlockTabCost :: "string \<Rightarrow> bank \<Rightarrow> bank" where
  "UnlockTabCost msg s =
     (if gb_playerRankIndex s \<noteq> 0 then SendAddonMessage ''UnlockTabCost:Error:NotGM'' s
      else let params = Tokenizer msg (CHR '':'')
      in if length params \<noteq> 2 then wrong_syntax ''UnlockTabCost'' msg s
      else let tab = ucast (atoi (params ! 1)) :: u8; cost = tab_cost tab
      in if tab \<le> 1 \<or> tab > 5 then SendAddonMessage ''UnlockTabCost:Error:WrongTab'' s
      else if cost = 0 then SendAddonMessage ''UnlockTabCost:Error:Cost0'' s
      else SendAddonMessage (''Unlock:Tab:'' @ to_string tab @ '':Cost:'' @ to_string (cost div GOLD)) s)"

definition UpdateTab :: "world \<Rightarrow> string \<Rightarrow> bank \<Rightarrow> bank" where
  "UpdateTab w msg s =
     (if gb_playerRankIndex s \<noteq> 0 then SendAddonMessage ''UpdateTab:Error:NotGM'' s
      else let params = Tokenizer msg (CHR '':'')
      in if length params \<noteq> 6 then wrong_syntax ''UpdateTab'' msg s
      else let tab = ucast (atoi (params ! 1)) :: u8; name = params ! 2; icon = params ! 3;
               withdrawals = ucast (atoi (params ! 4)) :: u8; minrank = ucast (atoi (params ! 5)) :: u8
      in if name = [] \<or> length name > 30 then SendAddonMessage ''UpdateTab:Error:WrongName'' s
      else if icon = [] \<or> length icon > 63 then SendAddonMessage ''UpdateTab:Error:WrongIcon'' s
      else if withdrawals > 5 then SendAddonMessage ''UpdateTab:Error:WrongWithdrawals'' s
      else if unat minrank > w_ranks w then SendAddonMessage ''UpdateTab:Error:WrongMinRank'' s
      else let s1 = s\<lparr>gb_tabInfo := (gb_tabInfo s)(ucast tab :=
                        \<lparr>tb_name = name, tb_icon = icon, tb_withdrawals = withdrawals, tb_minrank = minrank\<rparr>)\<rparr>;
               s2 = SendGuildMessage (''GUpdateTab:'' @
                      sep [to_string tab, name, icon, to_string withdrawals, to_string minrank]) s1
      in SaveToDB (s2\<lparr>gb_tabs_changed := True\<rparr>))"

section \<open>Money\<close>

definition DepositMoney :: "world \<Rightarrow> string \<Rightarrow> bank \<Rightarrow> bank" where
  "DepositMoney w msg s =
     (let params = Tokenizer msg (CHR '':'')
      in if length params \<noteq> 2 then wrong_syntax ''DepositMoney'' msg s
      else let money = atoi (params ! 1)
      in if pl_money (gb_player s) < money
         then SendAddonMessage ''DepositMoney:Error:NotEnoughMoney'' (send BuyErrorNotEnoughMoney s)
         else let s1 = upd_player (ModifyMoney w (- money)) s;
                  s2 = s1\<lparr>gb_money := gb_money s1 + money\<rparr>;
                  s3 = LogAction w ACTION_DEPOSIT_MONEY 0 0 money None s2;
                  s4 = SendGuildMessage (''GMoney:'' @ to_string (gb_money s3)) s3
              in SaveToDB (s4\<lparr>gb_money_changed := True\<rparr>))"

definition WithdrawMoney :: "world \<Rightarrow> string \<Rightarrow> bank \<Rightarrow> bank" where
  "WithdrawMoney w msg s =
     (let params = Tokenizer msg (CHR '':'')
      in if length params \<noteq> 2 then wrong_syntax ''WithdrawMoney'' msg s
      else let money = ucast (atol (params ! 1)) :: u32; (access, s0) = CanAccessTab w 0 ACTION_WITHDRAW_MONEY s
      in if \<not> access
         then SendAddonMessage ''WithdrawMoney:Error:NoAccess''
                (SendNotification ''You dont have access to guild money.'' s0)
         else if money > gb_money s0
         then SendAddonMessage ''WithdrawMoney:Error:NotEnoug''
                (SendNotification ''Your guild bank does not have enough money.'' s0)
         else let s1 = s0\<lparr>gb_money := gb_money s0 - money\<rparr>;
                  s2 = upd_player (ModifyMoney w money) s1;
                  s3 = LogAction w ACTION_WITHDRAW_MONEY 0 0 money None s2;
                  s4 = SendGuildMessage (''GMoney:'' @ to_string (gb_money s3)) s3
              in SaveToDB (s4\<lparr>gb_money_changed := True\<rparr>))"

definition SendTabItems :: "world \<Rightarrow> string \<Rightarrow> bank \<Rightarrow> bank" where
  "SendTabItems w msg s =
     (let params = Tokenizer msg (CHR '':'')
      in if length params \<noteq> 2 then wrong_syntax ''TabItems'' msg s
      else let tab = ucast (atoi (params ! 1)) :: u8; s1 = SendTabWithdrawalsLeft w tab s;
               items = List.map_filter (\<lambda>i. GetItem s1 (ucast tab) (of_nat i)) [1..<Suc BANK_TAB_SIZE];
               ls = map (\<lambda>p. sep (item_fields (gb_heap s1 p)) @ '';'') items
      in fold SendAddonMessage (chunk_messages (''TabItems:'' @ to_string tab @ '':'') ls) s1)"

end
