(* ===== verification/Bank_Items.thy ===== *)
theory Bank_Items
  imports Bank_Admin
begin

text \<open>
  The item operations of the guild bank and the handler of addon messages,
  \<^verbatim>\<open>src/game/GuildBank/GuildBank.cpp\<close>. An operation has no result when its C++ code dereferences a
  missing random property, reads past the enchantments of an item, or uses a player item after it
  was deleted.
\<close>

section \<open>Depositing\<close>

text \<open>The bank item a deposit goes to: a new one, or the one in the slot with its new count.\<close>

definition deposit_target :: "u32 \<Rightarrow> u32 \<Rightarrow> u32 \<Rightarrow> ItemUpdateState \<Rightarrow> bool \<Rightarrow> bank \<Rightarrow> (ptr \<times> bank) option" where
  "deposit_target bankTab bankSlot cnt state stack s =
     (if state = ITEM_NEW
      then (let (q, s1) = new_bank_item s
            in Some (q, upd_bank_item q (\<lambda>b. b\<lparr>bi_is_inferno := gb_inferno s, bi_guid := GetNewGuid s,
                       bi_guildid := gb_guildid s, bi_count := cnt, bi_tab := bankTab, bi_slot := bankSlot\<rparr>) s1))
      else (case GetItem s bankTab bankSlot of
              None \<Rightarrow> None
            | Some q \<Rightarrow> Some (q, upd_bank_item q
                 (\<lambda>b. b\<lparr>bi_count := (if stack then bi_count b + cnt else cnt)\<rparr>) s)))"

text \<open>Filling it from the player's item, queueing it, and adding a new one to the items.\<close>

definition deposit_fill :: "world \<Rightarrow> item \<Rightarrow> ItemUpdateState \<Rightarrow> ptr \<Rightarrow> bank \<Rightarrow> bank option" where
  "deposit_fill w it state q s =
     (case CloneItem_to_bank w (gb_inferno s) it ((gb_heap s q)\<lparr>bi_state := state\<rparr>) of
        None \<Rightarrow> None
      | Some b \<Rightarrow>
          (let s1 = push_queue q (upd_bank_item q (\<lambda>_. b) s)
           in Some (if state = ITEM_NEW then AddItem q s1 else s1)))"

text \<open>Taking items from a stack of the player, and what ends a deposit.\<close>

definition set_player_count :: "ptr \<Rightarrow> u32 \<Rightarrow> player \<Rightarrow> player" where
  "set_player_count p n pl =
     SetState p ITEM_CHANGED True (event (SendCreateUpdateToPlayer p) (upd_item p (\<lambda>it. it\<lparr>it_count := n\<rparr>) pl))"

definition deposit_end :: "world \<Rightarrow> ptr \<Rightarrow> u32 \<Rightarrow> bank \<Rightarrow> bank" where
  "deposit_end w q cnt s =
     (let b = gb_heap s q
      in SaveToDB (LogAction w ACTION_DEPOSIT_ITEM (bi_tab b) (bi_item_template b) cnt (Some q)
           (SendGuildMessage (''GDeposit:'' @ sep (item_fields b)) s)))"

definition DepositInternal :: "world \<Rightarrow> u32 \<Rightarrow> item \<Rightarrow> bank \<Rightarrow> bank option" where
  "DepositInternal w bankTab it s =
     (case find (\<lambda>i. GetItem s bankTab (of_nat i) = None) [1..<Suc BANK_TAB_SIZE] of
        None \<Rightarrow> Some s
      | Some i \<Rightarrow>
          (case deposit_target bankTab (of_nat i) (it_count it) ITEM_NEW False s of
             None \<Rightarrow> None
           | Some (q, s1) \<Rightarrow> deposit_fill w it ITEM_NEW q s1))"

text \<open>The first slot of the tab with a stack of the item that is not full.\<close>

fun find_stack :: "bank \<Rightarrow> u32 \<Rightarrow> u32 \<Rightarrow> nat list \<Rightarrow> (u32 \<times> bank_item) option" where
  "find_stack s bankTab itemId [] = None"
| "find_stack s bankTab itemId (i # is) =
     (case GetItem s bankTab (of_nat i) of
        None \<Rightarrow> find_stack s bankTab itemId is
      | Some q \<Rightarrow>
          (let b = gb_heap s q
           in if bi_item_template b = itemId \<and> bi_count b < bi_maxStackSize b then Some (of_nat i, b)
              else find_stack s bankTab itemId is))"

lemma find_stack_not_full: "find_stack s tab k is = Some (i, b) \<Longrightarrow> bi_count b < bi_maxStackSize b"
  by (induction s tab k "is" rule: find_stack.induct) (auto simp: Let_def split: option.splits if_splits)

lemma AddToUpdateQueueOf_heap [frame_simps]:
  "it_count (pl_heap (AddToUpdateQueueOf p f pl) x) = it_count (pl_heap pl x)"
  by (simp add: AddToUpdateQueueOf_def upd_item_def Let_def)

lemma SetState_count [frame_simps]: "it_count (pl_heap (SetState p st f pl) x) = it_count (pl_heap pl x)"
  by (simp add: SetState_def RemoveFromUpdateQueueOf_def delete_item_def upd_item_def Let_def frame_simps)

lemma set_player_count_count [simp]:
  "it_count (pl_heap (set_player_count p n pl) x) = (if x = p then n else it_count (pl_heap pl x))"
  by (simp add: set_player_count_def event_def upd_item_def frame_simps)

lemma deposit_target_player: "deposit_target tab slot n st stack s = Some (q, s1) \<Longrightarrow> gb_player s1 = gb_player s"
  by (auto simp: deposit_target_def new_bank_item_def upd_bank_item_def Let_def split: if_splits option.splits)

lemma deposit_fill_player: "deposit_fill w it st q s = Some s1 \<Longrightarrow> gb_player s1 = gb_player s"
  by (auto simp: deposit_fill_def push_queue_def upd_bank_item_def AddItem_def Let_def split: option.splits)

lemma remainder_smaller:
  fixes n b m :: u32
  assumes "b < m" "\<not> n + b \<le> m"
  shows "unat (n - (m - b)) < unat n"
proof -
  have "unat (m - b) = unat m - unat b" "unat m - unat b > 0"
    using assms(1) by (simp_all add: unat_sub word_less_nat_alt order_less_imp_le)
  moreover have "unat m - unat b \<le> unat n"
    using assms unat_less_2p[of n] unat_less_2p[of b] unat_less_2p[of m]
    by (auto simp: word_le_nat_alt word_less_nat_alt unat_word_ariths split: if_splits)
  ultimately show ?thesis by (simp add: unat_sub_if_size)
qed

text \<open>
  \<^verbatim>\<open>DepositItemInFreeSlot\<close> and \<^verbatim>\<open>DepositItemInSlot\<close> call each other until the whole stack of the player is
  deposited or the tab is full: every round takes at least one item from the stack. The state
  passed to the second is \<open>ITEM_NEW\<close> or \<open>ITEM_CHANGED\<close>; with another one its pointer is not initialised.
\<close>

function DepositItemInFreeSlot :: "world \<Rightarrow> u32 \<Rightarrow> ptr \<Rightarrow> bank \<Rightarrow> bank option"
  and DepositItemInSlot ::
    "world \<Rightarrow> u32 \<Rightarrow> u32 \<Rightarrow> ptr \<Rightarrow> u32 \<Rightarrow> u32 \<Rightarrow> ItemUpdateState \<Rightarrow> bool \<Rightarrow> bank \<Rightarrow> bank option" where
  "DepositItemInFreeSlot w bankTab p s =
     (let it = pl_heap (gb_player s) p; proto = GetProto w it
      in case (if GetMaxStackSize proto > 1
               then find_stack s bankTab (ip_ItemId proto) [1..<Suc BANK_TAB_SIZE] else None) of
           Some (i, b) \<Rightarrow>
             (if it_count it + bi_count b \<le> bi_maxStackSize b
              then DepositItemInSlot w bankTab i p (it_count it) 0 ITEM_CHANGED True s
              else DepositItemInSlot w bankTab i p (bi_maxStackSize b - bi_count b)
                     (it_count it - (bi_maxStackSize b - bi_count b)) ITEM_CHANGED True s)
         | None \<Rightarrow>
             (case find (\<lambda>i. GetItem s bankTab (of_nat i) = None) [1..<Suc BANK_TAB_SIZE] of
                Some i \<Rightarrow> DepositItemInSlot w bankTab (of_nat i) p (it_count it) 0 ITEM_NEW False s
              | None \<Rightarrow> Some (SendAddonMessage ''DepositItem:Error:BankTabFullAdd''
                               (SendNotification ''Your bank tab is full.'' s))))"
| "DepositItemInSlot w bankTab bankSlot p cnt remainer state stack s =
     (if state \<noteq> ITEM_NEW \<and> state \<noteq> ITEM_CHANGED then None
      else case deposit_target bankTab bankSlot cnt state stack s of
        None \<Rightarrow> Some (SendAddonMessage (''DepositItem:Error:CantFindStackDestinationItemAt:'' @
                       to_string bankTab @ '':'' @ to_string bankSlot) s)
      | Some (q, s1) \<Rightarrow>
          (case deposit_fill w (pl_heap (gb_player s1) p) state q s1 of
             None \<Rightarrow> None
           | Some s2 \<Rightarrow>
               (let it = pl_heap (gb_player s2) p
                in if remainer = 0
                   then (if cnt = it_count it
                         then Some (deposit_end w q cnt
                                (upd_player (\<lambda>pl. Item_Storage.DestroyItem w (GetBagSlot pl it) (it_slot it) True pl) s2))
                         else Some (deposit_end w q cnt (upd_player (set_player_count p (it_count it - cnt)) s2)))
                   else (case DepositItemInFreeSlot w bankTab p
                                (upd_player (set_player_count p (it_count it - cnt)) s2) of
                           None \<Rightarrow> None
                         | Some s3 \<Rightarrow> Some (deposit_end w q cnt s3)))))"
  by pat_completeness auto
termination
  apply (relation "measure (\<lambda>x. case x of
      Inl (w, tab, p, s) \<Rightarrow> 2 * unat (it_count (pl_heap (gb_player s) p)) + 1
    | Inr (w, tab, slot, p, n, rem, st, stack, s) \<Rightarrow>
        if rem = 0 then 0 else 2 * unat (it_count (pl_heap (gb_player s) p) - n) + 2)")
  by (auto simp: upd_player_def dest!: deposit_target_player deposit_fill_player
    dest: find_stack_not_full split: if_splits) (use remainder_smaller find_stack_not_full in fastforce)


section \<open>Withdrawing and swapping\<close>

text \<open>
  What happens to the bank item: its new state and count and the message for the guild's
  views. With an item in the bag the count is decreased, without one it becomes the remainder.
\<close>

definition withdraw_from_bank :: "u32 \<Rightarrow> u32 \<Rightarrow> u32 \<Rightarrow> ptr \<Rightarrow> bool \<Rightarrow> u32 \<Rightarrow> bool \<Rightarrow> bank \<Rightarrow> bank" where
  "withdraw_from_bank bankTab bankSlot cnt q over remainer swap s =
     (if remainer = 0
      then (let s1 = upd_bank_item q (\<lambda>b. b\<lparr>bi_state := ITEM_REMOVED\<rparr>) s
            in if \<not> swap then SendGuildMessage (''GWithdraw:'' @ to_string bankTab @ '':'' @ to_string bankSlot) s1
               else s1)
      else (let s1 = upd_bank_item q (\<lambda>b. b\<lparr>bi_count := (if over then bi_count b - cnt else remainer),
                        bi_state := ITEM_CHANGED\<rparr>) s
            in SendGuildMessage (''GPartialWithdraw:'' @ sep (short_fields (gb_heap s1 q) @ [''0'', ''0'', ''0''])) s1))"

definition withdraw_end :: "world \<Rightarrow> u32 \<Rightarrow> u32 \<Rightarrow> ptr \<Rightarrow> bank \<Rightarrow> bank" where
  "withdraw_end w bankTab cnt q s =
     (let b = gb_heap s q;
          s1 = LogAction w ACTION_WITHDRAW_ITEM (bi_tab b) (bi_item_template b) cnt (Some q) s;
          s2 = (if bi_state (gb_heap s1 q) = ITEM_REMOVED then DeleteItem q s1 else s1)
      in SendTabWithdrawalsLeft w (ucast bankTab) s2)"

definition WithdrawItem ::
    "world \<Rightarrow> u32 \<Rightarrow> u32 \<Rightarrow> u32 \<Rightarrow> u32 \<Rightarrow> u32 \<Rightarrow> ptr \<Rightarrow> ptr option \<Rightarrow> u32 \<Rightarrow> bool \<Rightarrow> bank \<Rightarrow> bank option" where
  "WithdrawItem w bankTab bankSlot cnt playerBag playerSlot q pItem remainer swap s =
     (let template = bi_item_template (gb_heap s q)
      in case CanStoreNewItem w (gb_player s) (ucast playerBag) (ucast playerSlot) template cnt of
        (msg, dest, noSpaceForCount) \<Rightarrow>
          (if msg \<noteq> EQUIP_ERR_OK then Some (send (EquipError msg) s)
           else case pItem of
             Some p \<Rightarrow>
               (let s1 = push_queue q (withdraw_from_bank bankTab bankSlot cnt q True remainer swap s);
                    s2 = upd_player (\<lambda>pl. set_player_count p (it_count (pl_heap pl p) + cnt) pl) s1
                in Some (SaveToDB (withdraw_end w bankTab cnt q s2)))
           | None \<Rightarrow>
               (case StoreNewItem w dest template True (GenerateItemRandomPropertyId w template) (gb_player s) of
                  (None, pl1) \<Rightarrow> Some (SaveToDB (s\<lparr>gb_player := pl1\<rparr>))
                | (Some p, pl1) \<Rightarrow>
                    (case CloneItem_to_item (gb_playerGuid s) (gb_heap s q) (pl_heap pl1 p) of
                       None \<Rightarrow> None
                     | Some it \<Rightarrow>
                         (let s1 = s\<lparr>gb_player := upd_item p (\<lambda>_. it) pl1\<rparr>;
                              s2 = push_queue q (withdraw_from_bank bankTab bankSlot cnt q False remainer swap s1);
                              s3 = send (SendNewItem p cnt) s2
                          in Some (SaveToDB (withdraw_end w bankTab cnt q s3)))))))"

text \<open>
  \<^verbatim>\<open>SwapItems\<close>: the copy \<^verbatim>\<open>aux\<close> of the bank item is an object of its own, outside the items.
  The bag item is read again after the deposit, which destroyed it.
\<close>

definition SwapItems :: "world \<Rightarrow> ptr \<Rightarrow> ptr \<Rightarrow> bank \<Rightarrow> bank option" where
  "SwapItems w p q s =
     (let b = gb_heap s q
      in case CanStoreNewItem w (gb_player s) NULL_BAG NULL_SLOT (bi_item_template b) (bi_count b) of
        (msg, dest, noSpaceForCount) \<Rightarrow>
          (if msg \<noteq> EQUIP_ERR_OK \<and> msg \<noteq> EQUIP_ERR_INVENTORY_FULL then Some (send (EquipError msg) s)
           else let aux = gb_next s;
                    s1 = s\<lparr>gb_next := Suc aux, gb_heap := (gb_heap s)(aux := b)\<rparr>
           in case DepositItemInSlot w (bi_tab b) (bi_slot b) p (it_count (pl_heap (gb_player s) p)) 0
                     ITEM_CHANGED False s1 of
                None \<Rightarrow> None
              | Some s2 \<Rightarrow>
                  (let pl = gb_player s2; it = pl_heap pl p
                   in if \<not> live pl p then None
                      else WithdrawItem w (bi_tab (gb_heap s2 q)) (bi_slot (gb_heap s2 q)) (bi_count (gb_heap s2 aux))
                             (ucast (GetBagSlot pl it)) (ucast (it_slot it)) aux None 0 True s2)))"

definition no_access :: "string \<Rightarrow> string \<Rightarrow> bank \<Rightarrow> bank" where
  "no_access notification message s = SendAddonMessage message (SendNotification notification s)"

definition DepositItem_at :: "world \<Rightarrow> u8 \<Rightarrow> u8 \<Rightarrow> u8 \<Rightarrow> ptr \<Rightarrow> bank \<Rightarrow> bank option" where
  "DepositItem_at w bankTab bankSlot cnt p s =
     (let it = pl_heap (gb_player s) p; proto = GetProto w it; n = ucast cnt :: u32;
          tab = ucast bankTab :: u32; slot = ucast bankSlot :: u32
      in case GetItem s tab slot of
           None \<Rightarrow> DepositItemInSlot w tab slot p n 0 ITEM_NEW False s
         | Some d \<Rightarrow>
             (let b = gb_heap s d
              in if bi_item_template b = ip_ItemId proto \<and> bi_count b = it_count it \<and>
                    bi_count b = bi_maxStackSize b \<and> bi_randomPropertyId b = it_randomProp it
                 then Some (SendAddonMessage ''DepositItem:Swap:Error:SameItemSameCount'' s)
                 else if bi_item_template b = ip_ItemId proto \<and> bi_maxStackSize b > 1
                 then if bi_count b + n \<le> bi_maxStackSize b
                      then DepositItemInSlot w tab slot p n 0 ITEM_CHANGED True s
                      else if n < bi_count b \<and> bi_count b = bi_maxStackSize b
                      then (let withdrawCount = bi_maxStackSize b - n
                            in WithdrawItem w tab slot withdrawCount
                                 (ucast (GetBagSlot (gb_player s) it)) (ucast (it_slot it)) d (Some p)
                                 (bi_maxStackSize b - withdrawCount) False s)
                      else DepositItemInSlot w tab slot p (bi_maxStackSize b - bi_count b) 0 ITEM_CHANGED True s
                 else SwapItems w p d s))"

definition DepositItem :: "world \<Rightarrow> string \<Rightarrow> bank \<Rightarrow> bank option" where
  "DepositItem w msg s =
     (let params = Tokenizer msg (CHR '':'')
      in if length params \<noteq> 6 then Some (wrong_syntax ''DepositItem'' msg s)
      else let num = (\<lambda>i. ucast (atoi (params ! i)) :: u8);
               bankTab = num 3; bankSlot = num 4; cnt = num 5
      in if bankTab = 0 \<or> unat bankTab > MAX_TABS \<or> unat bankSlot > BANK_TAB_SIZE
         then Some (SendAddonMessage ''DepositItem:Error:ParamsOutOfRange'' s)
         else case CanAccessTab w bankTab ACTION_DEPOSIT_ITEM s of
           (access, s0) \<Rightarrow>
             (if \<not> access
              then Some (no_access ''You dont have access to this tab.'' ''DepositItem:Error:NoRights'' s0)
              else let playerBag = (if num 1 = 0 then INVENTORY_SLOT_BAG_0 else num 1 + INVENTORY_SLOT_BAG_START - 1);
                       playerSlot = (if num 1 = 0 then num 2 + INVENTORY_SLOT_ITEM_START - 1 else num 2 - 1)
              in case GetItemByPos (gb_player s0) playerBag playerSlot of
                   None \<Rightarrow> Some (SendAddonMessage (''DepositItem:Error:CantGetPlayerItem:'' @
                                   to_string playerBag @ '':'' @ to_string playerSlot) s0)
                 | Some p \<Rightarrow>
                     (let it = pl_heap (gb_player s0) p
                      in case IsItemBankable w it s0 of
                        (bankable, s1) \<Rightarrow>
                          (if \<not> bankable then Some s1
                           else if ucast cnt > GetMaxStackSize (GetProto w it)
                           then Some (SendAddonMessage ''DepositItem:Error:Count>GetMaxStackCount'' s1)
                           else if bankSlot = 0 then DepositItemInFreeSlot w (ucast bankTab) p s1
                           else DepositItem_at w bankTab bankSlot cnt p s1))))"

text \<open>A withdrawal to a place in the player's bags, occupied or not.\<close>

definition WithdrawItem_to :: "world \<Rightarrow> u32 \<Rightarrow> u32 \<Rightarrow> u32 \<Rightarrow> u32 \<Rightarrow> u32 \<Rightarrow> ptr \<Rightarrow> bank \<Rightarrow> bank option" where
  "WithdrawItem_to w bankTab bankSlot bag0 slot0 withdrawCount q s =
     (let playerBag = (if bag0 = 0 then 255 else bag0 + 18);
          playerSlot = (if playerBag = 255 then slot0 + 22 else slot0 - 1);
          b = gb_heap s q
      in case GetItemByPos (gb_player s) (ucast playerBag) (ucast playerSlot) of
           None \<Rightarrow> WithdrawItem w bankTab bankSlot withdrawCount playerBag playerSlot q None
                     (bi_count b - withdrawCount) False s
         | Some p \<Rightarrow>
             (let it = pl_heap (gb_player s) p; proto = GetProto w it
              in case IsItemBankable w it s of
                (bankable, s1) \<Rightarrow>
                  (if \<not> bankable then Some s1
                   else if ip_ItemId proto = bi_item_template b \<and> bi_maxStackSize b > 1
                   then (let cnt = (if withdrawCount + it_count it > GetMaxStackSize proto
                                    then GetMaxStackSize proto - it_count it else withdrawCount)
                         in WithdrawItem w bankTab bankSlot cnt playerBag playerSlot q (Some p)
                              (bi_count b - cnt) False s1)
                   else SwapItems w p q s1)))"

definition WithdrawItem_msg :: "world \<Rightarrow> string \<Rightarrow> bank \<Rightarrow> bank option" where
  "WithdrawItem_msg w msg s =
     (let params = Tokenizer msg (CHR '':'')
      in if length params \<noteq> 6 then Some (wrong_syntax ''WithdrawItem'' msg s)
      else let num = (\<lambda>i. atoi (params ! i)); bankTab = num 1; bankSlot = num 2; withdrawCount = num 5
      in if bankTab = 0 \<or> unat bankTab > MAX_TABS \<or> bankSlot = 0 \<or> unat bankSlot > BANK_TAB_SIZE
         then Some (SendAddonMessage ''WithdrawItem:Error:ParamsOutOfRange'' s)
         else case CanAccessTab w (ucast bankTab) ACTION_WITHDRAW_ITEM s of
           (access, s0) \<Rightarrow>
             (if \<not> access
              then Some (no_access ''You dont have access to this tab.'' ''WithdrawItem:Error:NoRights'' s0)
              else case GetItem s0 bankTab bankSlot of
                None \<Rightarrow> Some (SendAddonMessage ''WithdrawItem:Error:CantFindBankItem'' s0)
              | Some q \<Rightarrow>
                  (let b = gb_heap s0 q
                   in if withdrawCount > bi_count b
                      then Some (SendAddonMessage ''WithdrawItem:Error:CantWithdrawMoreThanCount'' s0)
                      else if num 3 = 0 \<and> num 4 = 0
                      then (if bi_count b = withdrawCount
                            then WithdrawItem w bankTab bankSlot (bi_count b) (ucast NULL_BAG) (ucast NULL_SLOT)
                                   q None 0 False s0
                            else Some (SendAddonMessage ''WithdrawItem:Error:CantAutoWithdrawDifferentCount'' s0))
                      else WithdrawItem_to w bankTab bankSlot (num 3) (num 4) withdrawCount q s0)))"

end
