(* ===== verification/Bank_Moves.thy ===== *)
theory Bank_Moves
  imports Bank_Items
begin

text \<open>
  Moving, splitting and destroying items of the guild bank, and the handler of the addon's
  messages with its guards (\<^verbatim>\<open>src/game/GuildBank/GuildBank.cpp\<close>).
\<close>

section \<open>Moving\<close>

definition move_message :: "string list \<Rightarrow> string list \<Rightarrow> string" where
  "move_message from to = ''GMoveItem:from:'' @ sep (from @ [''to''] @ to)"

definition zeros :: "nat \<Rightarrow> string list" where
  "zeros n = replicate n ''0''"

text \<open>Writing a field of a bank item, marking it changed and queueing it.\<close>

definition change_item :: "ptr \<Rightarrow> (bank_item \<Rightarrow> bank_item) \<Rightarrow> bank \<Rightarrow> bank" where
  "change_item q f s = push_queue q (upd_bank_item q (\<lambda>b. (f b)\<lparr>bi_state := ITEM_CHANGED\<rparr>) s)"

definition swap_slots :: "ptr \<Rightarrow> ptr \<Rightarrow> u8 \<Rightarrow> u8 \<Rightarrow> bank \<Rightarrow> bank" where
  "swap_slots sItem dItem fromSlot toSlot s =
     (let s1 = change_item dItem (\<lambda>b. b\<lparr>bi_slot := ucast fromSlot\<rparr>)
                 (change_item sItem (\<lambda>b. b\<lparr>bi_slot := ucast toSlot\<rparr>) s)
      in SaveToDB (SendGuildMessage (move_message (item_fields (gb_heap s1 sItem)) (item_fields (gb_heap s1 dItem))) s1))"

definition MoveItem :: "ptr option \<Rightarrow> ptr option \<Rightarrow> u8 \<Rightarrow> u8 \<Rightarrow> u8 \<Rightarrow> bank \<Rightarrow> bank" where
  "MoveItem sp dp bankTab fromSlot toSlot s =
     (case sp of
        None \<Rightarrow> SendAddonMessage ''MoveItem:Error:CantGetSource'' s
      | Some p \<Rightarrow>
          (let gone = [to_string bankTab, to_string fromSlot] @ zeros 6
           in case dp of
             None \<Rightarrow>
               (let s1 = change_item p (\<lambda>b. b\<lparr>bi_slot := ucast toSlot\<rparr>) s
                in SendGuildMessage (move_message gone (item_fields (gb_heap s1 p))) s1)
           | Some q \<Rightarrow>
               (let a = gb_heap s p; b = gb_heap s q
                in if bi_item_template a \<noteq> bi_item_template b \<or>
                      bi_count a = bi_maxStackSize a \<or> bi_count b = bi_maxStackSize b
                   then swap_slots p q fromSlot toSlot s
                   else if bi_count a + bi_count b \<le> bi_maxStackSize a
                   then (let s1 = change_item q (\<lambda>d. d\<lparr>bi_count := bi_count a + bi_count b\<rparr>) s;
                             s2 = push_queue p (upd_bank_item p (\<lambda>b. b\<lparr>bi_state := ITEM_REMOVED\<rparr>) s1);
                             s3 = (if bi_state (gb_heap s2 p) = ITEM_REMOVED then DeleteItem p s2 else s2)
                         in SendGuildMessage (move_message gone (item_fields (gb_heap s3 q))) s3)
                   else (let s1 = change_item p (\<lambda>c. c\<lparr>bi_count := bi_count a - (bi_maxStackSize a - bi_count b)\<rparr>) s;
                             s2 = change_item q (\<lambda>d. d\<lparr>bi_count := bi_maxStackSize b\<rparr>) s1
                         in SendGuildMessage
                              (move_message (item_fields (gb_heap s2 p)) (item_fields (gb_heap s2 q))) s2))))"

definition MoveItem_msg :: "world \<Rightarrow> string \<Rightarrow> bank \<Rightarrow> bank" where
  "MoveItem_msg w msg s =
     (let params = Tokenizer msg (CHR '':'')
      in if length params \<noteq> 4 then wrong_syntax ''MoveItem'' msg s
      else let num = (\<lambda>i. ucast (atoi (params ! i)) :: u8);
               bankTab = num 1; fromSlot = num 2; toSlot = num 3;
               (access, s0) = CanAccessTab w bankTab ACTION_MOVE_ITEM s
      in if \<not> access then no_access ''You dont have access in this tab.'' ''MoveItem:Error:NoRights'' s0
         else if fromSlot = toSlot then SendAddonMessage ''MoveItem:Error:SameSourceDest'' s0
         else if bankTab = 0 \<or> unat bankTab > MAX_TABS \<or> fromSlot = 0 \<or> unat fromSlot > BANK_TAB_SIZE \<or>
                 toSlot = 0 \<or> unat toSlot > BANK_TAB_SIZE
         then SendAddonMessage ''MoveItem:Error:ParamsOutOfRange'' s0
         else MoveItem (GetItem s0 (ucast bankTab) (ucast fromSlot)) (GetItem s0 (ucast bankTab) (ucast toSlot))
                bankTab fromSlot toSlot s0)"

section \<open>Splitting\<close>

definition split_message :: "bank_item \<Rightarrow> bank_item \<Rightarrow> string" where
  "split_message a b = ''GSplitItem:from:'' @ sep (short_fields a @ zeros 3 @ [''to''] @ short_fields b @ zeros 3)"

definition split_to_free :: "ptr \<Rightarrow> u8 \<Rightarrow> u32 \<Rightarrow> bank \<Rightarrow> bank" where
  "split_to_free p toSlot split s =
     (let a = gb_heap s p; sourceNewCount = bi_count a - split
      in if split \<ge> bi_maxStackSize a then SendAddonMessage ''SplitItem:Error:DestinationCountTooBig'' s
         else if sourceNewCount \<le>s 0 then SendAddonMessage ''SplitItem:Error:SourceLeftCount0'' s
         else let s1 = change_item p (\<lambda>b. b\<lparr>bi_count := sourceNewCount\<rparr>) s;
                  (q, s2) = CloneBankItem p s1;
                  s3 = push_queue q (upd_bank_item q
                         (\<lambda>b. b\<lparr>bi_slot := ucast toSlot, bi_count := split, bi_state := ITEM_NEW\<rparr>) s2);
                  s4 = AddItem q s3
              in SaveToDB (SendGuildMessage (split_message (gb_heap s4 p) (gb_heap s4 q)) s4))"

definition split_to_stack :: "ptr \<Rightarrow> ptr \<Rightarrow> u32 \<Rightarrow> bank \<Rightarrow> bank" where
  "split_to_stack p q split s =
     (let a = gb_heap s p; b = gb_heap s q;
          sourceNewCount = bi_count a - split; destNewCount = bi_count b + split
      in if bi_item_template a \<noteq> bi_item_template b then SendAddonMessage ''SplitItem:destinationItemDifferent'' s
         else if \<not> destNewCount \<le> bi_maxStackSize b then SendAddonMessage ''SplitItem:cantStackOnTarget'' s
         else if sourceNewCount = 0 then SendAddonMessage ''SplitItem:Error:SourceCount0'' s
         else if sourceNewCount > bi_maxStackSize a then SendAddonMessage ''SplitItem:Error:BadSourceCount'' s
         else if destNewCount = 0 then SendAddonMessage ''SplitItem:Error:DestCount0'' s
         else if destNewCount > bi_maxStackSize a then SendAddonMessage ''SplitItem:Error:BadDestCount'' s
         else let s1 = change_item p (\<lambda>b. b\<lparr>bi_count := sourceNewCount\<rparr>) s;
                  s2 = change_item q (\<lambda>b. b\<lparr>bi_count := destNewCount\<rparr>) s1
              in SendGuildMessage (split_message (gb_heap s2 p) (gb_heap s2 q)) s2)"

definition SplitItem :: "world \<Rightarrow> string \<Rightarrow> bank \<Rightarrow> bank" where
  "SplitItem w msg s =
     (let params = Tokenizer msg (CHR '':'')
      in if length params \<noteq> 5 then wrong_syntax ''SplitItem'' msg s
      else let num = (\<lambda>i. ucast (atoi (params ! i)) :: u8);
               bankTab = num 1; fromSlot = num 2; toSlot = num 3; split = num 4;
               (access, s0) = CanAccessTab w bankTab ACTION_SPLIT_ITEM s
      in if \<not> access then no_access ''You dont have access to this tab.'' ''SplitItem:Error:NoRights'' s0
         else if fromSlot = toSlot then SendAddonMessage ''SplitItem:Error:fromSlot=toSlot'' s0
         else if bankTab = 0 \<or> unat bankTab > MAX_TABS \<or> fromSlot = 0 \<or> unat fromSlot > BANK_TAB_SIZE \<or>
                 toSlot = 0 \<or> unat toSlot > BANK_TAB_SIZE
         then SendAddonMessage ''SplitItem:Error:ParamsOutOfRange'' s0
         else case GetItem s0 (ucast bankTab) (ucast fromSlot) of
           None \<Rightarrow> s0
         | Some p \<Rightarrow>
             (case GetItem s0 (ucast bankTab) (ucast toSlot) of
                None \<Rightarrow> split_to_free p toSlot (ucast split) s0
              | Some q \<Rightarrow> split_to_stack p q (ucast split) s0))"

section \<open>Destroying\<close>

definition Bank_DestroyItem :: "world \<Rightarrow> string \<Rightarrow> bank \<Rightarrow> bank" where
  "Bank_DestroyItem w msg s =
     (let params = Tokenizer msg (CHR '':'')
      in if length params \<noteq> 4 then wrong_syntax ''DestroyItem'' msg s
      else let num = (\<lambda>i. ucast (atoi (params ! i)) :: u8);
               bankTab = num 1; bankSlot = num 2; cnt = ucast (num 3) :: u32;
               (access, s0) = CanAccessTab w bankTab ACTION_DESTROY_ITEM s
      in if \<not> access then no_access ''You dont have access to this tab.'' ''DestroyItem:Error:NoRights'' s0
         else if bankTab = 0 \<or> unat bankTab > MAX_TABS \<or> bankSlot = 0 \<or> unat bankSlot > BANK_TAB_SIZE
         then SendAddonMessage ''DestroyItem:Error:ParamsOutOfRange'' s0
         else case GetItem s0 (ucast bankTab) (ucast bankSlot) of
           None \<Rightarrow> s0
         | Some p \<Rightarrow>
             (let b = gb_heap s0 p
              in if cnt > bi_maxStackSize b \<or> cnt > bi_count b
                 then SendAddonMessage ''DestroyItem:Error:CountTooBig'' s0
                 else let s1 = (if cnt = 0 \<or> cnt = bi_count b
                        then LogAction w ACTION_DESTROY_ITEM (ucast bankTab) (bi_item_template b) (bi_count b) (Some p)
                               (SendGuildMessage (''GDestroy:'' @ sep [to_string bankTab, to_string bankSlot, ''0'',
                                  to_string (bi_item_template b), to_string (bi_count b)])
                                 (push_queue p (upd_bank_item p (\<lambda>b. b\<lparr>bi_state := ITEM_REMOVED\<rparr>) s0)))
                        else (let a = upd_bank_item p (\<lambda>b. b\<lparr>bi_count := bi_count b - cnt, bi_state := ITEM_CHANGED\<rparr>) s0
                              in LogAction w ACTION_DESTROY_ITEM (ucast bankTab) (bi_item_template b) cnt (Some p)
                                   (SendGuildMessage (''GPartialDestroy:'' @ sep (short_fields (gb_heap a p))) a)))
                 in if bi_state (gb_heap s1 p) = ITEM_REMOVED then DeleteItem p s1 else s1))"

section \<open>The handler\<close>

text \<open>
  The creature the player has selected, as \<^verbatim>\<open>GetNPCIfCanInteractWith\<close> found it, and the options of
  the gossip menus, pairs of option id and required flags.
\<close>

record npc =
  npc_entry :: u32
  npc_flags :: u32
  npc_gossip_menu :: u32

abbreviation UNIT_NPC_FLAG_GOSSIP :: u32 where "UNIT_NPC_FLAG_GOSSIP \<equiv> 1"
abbreviation GOSSIP_OPTION_GUILD_BANKER :: u32 where "GOSSIP_OPTION_GUILD_BANKER \<equiv> 18"

definition CanUseGuildBank :: "(u32 \<Rightarrow> (u32 \<times> u32) list) \<Rightarrow> npc \<Rightarrow> bool" where
  "CanUseGuildBank menus c =
     (npc_entry c \<in> {62008, 62009, 62010, 62011, 62012, 80917, 80918} \<or>
      (npc_flags c AND UNIT_NPC_FLAG_GOSSIP \<noteq> 0 \<and>
       (let items = menus (npc_gossip_menu c)
        in list_ex (\<lambda>(option_id, npcflag). option_id = GOSSIP_OPTION_GUILD_BANKER \<and> npcflag AND npc_flags c \<noteq> 0)
             (if items = [] then menus 0 else items))))"

text \<open>The calls of the handler, each guarded by a search of its name in the message.\<close>

definition on_message :: "string \<Rightarrow> string \<Rightarrow> (bank \<Rightarrow> bank option) \<Rightarrow> bank option \<Rightarrow> bank option" where
  "on_message msg lit f r = (if strstr msg lit then Option.bind r f else r)"

definition dispatch :: "world \<Rightarrow> string \<Rightarrow> bank \<Rightarrow> bank option" where
  "dispatch w msg s =
     (let on = on_message msg;
          r1 = on ''UnlockTab:'' (Some \<circ> UnlockTab w msg) (Some s);
          r2 = on ''UnlockTabCost:'' (Some \<circ> UnlockTabCost msg) r1;
          r3 = on ''GetBankInfo:'' (Some \<circ> SendBankInfo) r2;
          r4 = on ''GetTabItems:'' (Some \<circ> SendTabItems w msg) r3;
          r5 = on ''GetTabWithdrawalsLeft:'' (Some \<circ> SendTabWithdrawalsLeft_msg w msg) r4;
          r6 = on ''GetTabLog:'' (Some \<circ> SendTabLog msg) r5;
          r7 = on ''GetMoneyLog:'' (Some \<circ> SendMoneyLog msg) r6;
          r8 = on ''DepositItem:'' (DepositItem w msg) r7;
          r9 = on ''WithdrawItem:'' (WithdrawItem_msg w msg) r8;
          r10 = on ''MoveItem:'' (Some \<circ> MoveItem_msg w msg) r9;
          r11 = on ''SplitItem:'' (Some \<circ> SplitItem w msg) r10;
          r12 = (if DESTROY_ITEM_ALLOWED then on ''DestroyItem:'' (Some \<circ> Bank_DestroyItem w msg) r11 else r11);
          r13 = on ''UpdateTab:'' (Some \<circ> UpdateTab w msg) r12;
          r14 = on ''DepositMoney:'' (Some \<circ> DepositMoney w msg) r13
      in on ''WithdrawMoney:'' (Some \<circ> WithdrawMoney w msg) r14)"

definition HandleAddonMessages ::
    "world \<Rightarrow> (u32 \<Rightarrow> (u32 \<times> u32) list) \<Rightarrow> npc option \<Rightarrow> string \<Rightarrow> player \<Rightarrow> bank \<Rightarrow> bank option" where
  "HandleAddonMessages w menus creature msg pl s =
     (let s0 = SetPlayer pl s
      in case creature of
           None \<Rightarrow> Some s0
         | Some c \<Rightarrow>
             (if \<not> CanUseGuildBank menus c then Some s0
              else if gb_saveLock s0 then Some (SendAddonMessage ''ActionBlockedBySaveLock'' s0)
              else if strstr msg ''UnlockGuildBank:'' then UnlockGuildBank w msg s0
              else if gb_tabs s0 = 0 then Some (SendAddonMessage ''BankInfo:NoGuildBank'' s0)
              else dispatch w msg s0))"

end
