(* ===== verification/Bank_Stock.thy ===== *)
theory Bank_Stock
  imports Bank_Moves Item_Storage_Props
begin

text \<open>
  The stock of a guild bank, the list of its items without their save states, as the abstract view of
  the pointers, the store of objects and the save states. The operations of
  \<^verbatim>\<open>GuildBank.cpp\<close> are shown to act on it, and the invariant of the bank (guids and places are unique,
  every item belongs to the bank) is stated on it.
\<close>

section \<open>The abstract view\<close>

definition view :: "bank \<Rightarrow> ptr \<Rightarrow> bank_item" where
  "view s p = (gb_heap s p)\<lparr>bi_state := ITEM_UNCHANGED\<rparr>"

definition stock :: "bank \<Rightarrow> bank_item list" where
  "stock s = map (view s) (gb_items s)"

definition place :: "bank_item \<Rightarrow> u32 \<times> u32" where
  "place b = (bi_tab b, bi_slot b)"

definition stock_ok :: "u32 \<Rightarrow> bool \<Rightarrow> bank_item list \<Rightarrow> bool" where
  "stock_ok gid inferno l =
     (distinct (map bi_guid l) \<and> distinct (map place l) \<and>
      (\<forall>b \<in> set l. bi_guildid b = gid \<and> bi_is_inferno b = inferno \<and>
         1 \<le> bi_tab b \<and> bi_tab b \<le> 5 \<and> 1 \<le> bi_slot b \<and> bi_slot b \<le> 98))"

definition bank_ok :: "bank \<Rightarrow> bool" where
  "bank_ok s =
     (distinct (gb_items s) \<and> (\<forall>p \<in> set (gb_items s). p < gb_next s) \<and>
      stock_ok (gb_guildid s) (gb_inferno s) (stock s))"

text \<open>How many items of an entry the bank holds.\<close>

definition amount :: "u32 \<Rightarrow> bank_item list \<Rightarrow> nat" where
  "amount e l = sum_list (map (\<lambda>b. if bi_item_template b = e then unat (bi_count b) else 0) l)"

lemma amount_append [simp]: "amount e (xs @ ys) = amount e xs + amount e ys"
  by (simp add: amount_def)

lemma amount_Cons [simp]:
  "amount e (b # l) = (if bi_item_template b = e then unat (bi_count b) else 0) + amount e l"
  by (simp add: amount_def)

lemma amount_Nil [simp]: "amount e [] = 0"
  by (simp add: amount_def)

section \<open>What each operation leaves alone\<close>

text \<open>Two states with the same items and the same stock, up to save states.\<close>

definition same_items :: "bank \<Rightarrow> bank \<Rightarrow> bool" where
  "same_items s s' =
     (gb_items s' = gb_items s \<and> view s' = view s \<and> gb_next s' = gb_next s \<and>
      gb_guildid s' = gb_guildid s \<and> gb_inferno s' = gb_inferno s)"

lemma same_items_refl [simp]: "same_items s s"
  by (simp add: same_items_def)

lemma same_items_trans [trans]: "same_items s s' \<Longrightarrow> same_items s' s'' \<Longrightarrow> same_items s s''"
  by (simp add: same_items_def)

lemma same_items_stock: "same_items s s' \<Longrightarrow> stock s' = stock s"
  by (simp add: same_items_def stock_def)

lemma same_items_ok: "same_items s s' \<Longrightarrow> bank_ok s \<Longrightarrow> bank_ok s'"
  by (simp add: same_items_def bank_ok_def stock_def)

text \<open>The parts of the state that saving reads and writes.\<close>

lemma send_frame [simp]:
  "gb_items (send m s) = gb_items s" "gb_heap (send m s) = gb_heap s" "gb_next (send m s) = gb_next s"
  "gb_guildid (send m s) = gb_guildid s" "gb_inferno (send m s) = gb_inferno s"
  "gb_queue (send m s) = gb_queue s" "gb_db (send m s) = gb_db s" "gb_player (send m s) = gb_player s"
  "gb_money (send m s) = gb_money s" "gb_tabs (send m s) = gb_tabs s" "gb_tabInfo (send m s) = gb_tabInfo s"
  "gb_saveLock (send m s) = gb_saveLock s" "gb_log (send m s) = gb_log s"
  "gb_moneyLog (send m s) = gb_moneyLog s" "gb_playerGuid (send m s) = gb_playerGuid s"
  "gb_playerRankIndex (send m s) = gb_playerRankIndex s" "gb_out (send m s) = gb_out s @ [m]"
  "gb_raw (send m s) = gb_raw s" "gb_tabs_changed (send m s) = gb_tabs_changed s"
  "gb_money_changed (send m s) = gb_money_changed s" "gb_log_changed (send m s) = gb_log_changed s"
  "gb_moneyLog_changed (send m s) = gb_moneyLog_changed s"
  by (simp_all add: send_def)

lemmas message_defs = SendAddonMessage_def SendGuildMessage_def SendNotification_def no_access_def wrong_syntax_def

text \<open>What a log entry changes: the log, its flag and the messages.\<close>

definition log_only :: "bank \<Rightarrow> bank \<Rightarrow> bool" where
  "log_only s s' =
     (\<exists>out lg mlg lc mlc. s' = s\<lparr>gb_out := out, gb_log := lg, gb_moneyLog := mlg, gb_log_changed := lc,
        gb_moneyLog_changed := mlc\<rparr>)"

lemma log_only_LogAction: "log_only s (LogAction w action tab item cnt b s)"
  unfolding log_only_def LogAction_def Let_def message_defs send_def
  by (cases s) (auto split: if_splits)

lemma LogAction_frame [simp]:
  "gb_items (LogAction w a t i n b s) = gb_items s" "gb_heap (LogAction w a t i n b s) = gb_heap s"
  "gb_next (LogAction w a t i n b s) = gb_next s" "gb_guildid (LogAction w a t i n b s) = gb_guildid s"
  "gb_inferno (LogAction w a t i n b s) = gb_inferno s" "gb_queue (LogAction w a t i n b s) = gb_queue s"
  "gb_db (LogAction w a t i n b s) = gb_db s" "gb_player (LogAction w a t i n b s) = gb_player s"
  "gb_money (LogAction w a t i n b s) = gb_money s" "gb_tabs (LogAction w a t i n b s) = gb_tabs s"
  "gb_tabInfo (LogAction w a t i n b s) = gb_tabInfo s" "gb_saveLock (LogAction w a t i n b s) = gb_saveLock s"
  "gb_playerGuid (LogAction w a t i n b s) = gb_playerGuid s"
  "gb_playerRankIndex (LogAction w a t i n b s) = gb_playerRankIndex s"
  "gb_raw (LogAction w a t i n b s) = gb_raw s" "gb_money_changed (LogAction w a t i n b s) = gb_money_changed s"
  "gb_tabs_changed (LogAction w a t i n b s) = gb_tabs_changed s"
  using log_only_LogAction [of s w a t i n b] by (auto simp: log_only_def)

lemma SaveToDB_frame [simp]:
  "gb_items (SaveToDB s) = gb_items s" "gb_next (SaveToDB s) = gb_next s"
  "gb_guildid (SaveToDB s) = gb_guildid s" "gb_inferno (SaveToDB s) = gb_inferno s"
  "gb_player (SaveToDB s) = gb_player s" "gb_money (SaveToDB s) = gb_money s" "gb_tabs (SaveToDB s) = gb_tabs s"
  "gb_tabInfo (SaveToDB s) = gb_tabInfo s" "gb_saveLock (SaveToDB s) = gb_saveLock s"
  "gb_playerGuid (SaveToDB s) = gb_playerGuid s" "gb_playerRankIndex (SaveToDB s) = gb_playerRankIndex s"
  "gb_raw (SaveToDB s) = gb_raw s" "gb_out (SaveToDB s) = gb_out s" "view (SaveToDB s) = view s"
  by (auto simp: SaveToDB_def view_def fun_eq_iff)

lemma same_items_SaveToDB [simp]: "same_items s (SaveToDB s') \<longleftrightarrow> same_items s s'"
  by (simp add: same_items_def)

text \<open>Operations that only send messages.\<close>

definition out_only :: "bank \<Rightarrow> bank \<Rightarrow> bool" where
  "out_only s s' = (\<exists>out. s' = s\<lparr>gb_out := out\<rparr>)"

lemma out_only_refl [simp]: "out_only s s"
  unfolding out_only_def by (rule exI [of _ "gb_out s"]) simp

lemma out_only_send [simp]: "out_only s (send m s)"
  by (auto simp: out_only_def send_def)

lemma out_only_trans: "out_only s s' \<Longrightarrow> out_only s' s'' \<Longrightarrow> out_only s s''"
  by (auto simp: out_only_def)

lemma out_only_messages [simp]:
  "out_only s s' \<Longrightarrow> out_only s (send e s')"
  "out_only s s' \<Longrightarrow> out_only s (SendAddonMessage m s')" "out_only s s' \<Longrightarrow> out_only s (SendGuildMessage m s')"
  "out_only s s' \<Longrightarrow> out_only s (SendNotification m s')" "out_only s s' \<Longrightarrow> out_only s (wrong_syntax a m s')"
  "out_only s s' \<Longrightarrow> out_only s (no_access n m s')"
  by (auto simp: message_defs out_only_def send_def)

lemma out_only_fold: "out_only s s' \<Longrightarrow> out_only s (fold SendAddonMessage ms s')"
  by (induction ms arbitrary: s') auto

lemma out_only_same_items: "out_only s s' \<Longrightarrow> same_items s s'"
  by (auto simp: out_only_def same_items_def view_def fun_eq_iff)

lemma out_only_withdrawals_left: "out_only s (snd (GetTabWithdrawalsLeft w tab s))"
  by (simp add: GetTabWithdrawalsLeft_def Let_def)

lemma out_only_SendTabWithdrawalsLeft [simp]: "out_only s (SendTabWithdrawalsLeft w tab s)"
  using out_only_withdrawals_left [of s w tab]
  by (auto simp: SendTabWithdrawalsLeft_def Let_def split: prod.splits)

lemma out_only_CanAccessTab: "CanAccessTab w tab action s = (ok, s') \<Longrightarrow> out_only s s'"
  using out_only_withdrawals_left [of s w tab]
  by (auto simp: CanAccessTab_def Let_def split: if_splits prod.splits)

lemma out_only_IsItemBankable: "IsItemBankable w it s = (ok, s') \<Longrightarrow> out_only s s'"
  by (auto simp: IsItemBankable_def split: if_splits)

lemma out_only_queries:
  "out_only s (SendTabWithdrawalsLeft_msg w msg s)" "out_only s (SendTabLog msg s)" "out_only s (SendMoneyLog msg s)"
  "out_only s (SendBankInfo s)" "out_only s (SendTabItems w msg s)" "out_only s (UnlockTabCost msg s)"
  by (auto simp: SendTabWithdrawalsLeft_msg_def SendTabLog_def SendMoneyLog_def SendBankInfo_def SendBankMoney_def
      SendTabItems_def UnlockTabCost_def Let_def out_only_fold)

section \<open>Pointers and places\<close>

lemma find_item_Some:
  "find_item h ps tab slot = Some p \<Longrightarrow> p \<in> set ps \<and> bi_tab (h p) = tab \<and> bi_slot (h p) = slot"
  by (induction h ps tab slot rule: find_item.induct) (auto split: if_splits)

lemma find_item_None:
  "find_item h ps tab slot = None \<longleftrightarrow> (\<forall>p \<in> set ps. \<not> (bi_tab (h p) = tab \<and> bi_slot (h p) = slot))"
  by (induction h ps tab slot rule: find_item.induct) auto

lemma view_fields [simp]:
  "bi_tab (view s p) = bi_tab (gb_heap s p)" "bi_slot (view s p) = bi_slot (gb_heap s p)"
  "bi_guid (view s p) = bi_guid (gb_heap s p)" "bi_count (view s p) = bi_count (gb_heap s p)"
  "bi_item_template (view s p) = bi_item_template (gb_heap s p)"
  "bi_guildid (view s p) = bi_guildid (gb_heap s p)" "bi_is_inferno (view s p) = bi_is_inferno (gb_heap s p)"
  "bi_maxStackSize (view s p) = bi_maxStackSize (gb_heap s p)" "row_of (view s p) = row_of (gb_heap s p)"
  by (simp_all add: view_def row_of_def)

lemma GetItem_None: "GetItem s tab slot = None \<longleftrightarrow> (tab, slot) \<notin> place ` set (stock s)"
  by (auto simp: GetItem_def find_item_None stock_def place_def image_iff)

lemma GetItem_Some: "GetItem s tab slot = Some p \<Longrightarrow> p \<in> set (gb_items s) \<and> place (view s p) = (tab, slot)"
  by (auto simp: GetItem_def place_def dest: find_item_Some)

lemma max_guid_ge: "g \<le> max_guid h ps g"
proof (induction h ps g rule: max_guid.induct)
  case (2 h p ps g)
  then show ?case by (cases "g < bi_guid (h p)") (auto intro: order_trans less_imp_le)
qed simp

lemma max_guid_bound: "p \<in> set ps \<Longrightarrow> bi_guid (h p) \<le> max_guid h ps g"
proof (induction h ps g rule: max_guid.induct)
  case (2 h q ps g)
  then show ?case using max_guid_ge [of "if g < bi_guid (h q) then bi_guid (h q) else g" h ps]
    by (auto simp: not_less split: if_splits intro: order_trans)
qed simp

text \<open>A new guid is fresh unless the counter wrapped to 0.\<close>

lemma GetNewGuid_fresh:
  assumes "GetNewGuid s \<noteq> 0" "p \<in> set (gb_items s)"
  shows "bi_guid (gb_heap s p) < GetNewGuid s"
proof -
  let ?m = "max_guid (gb_heap s) (gb_items s) 0"
  have "unat (1 + ?m) = Suc (unat ?m)" using assms(1) by (intro unatSuc) (simp add: GetNewGuid_def add.commute)
  then have "?m < ?m + 1" by (simp add: word_less_nat_alt add.commute)
  then show ?thesis using max_guid_bound [OF assms(2), of "gb_heap s" 0] by (simp add: GetNewGuid_def)
qed

section \<open>The invariant, on pointers\<close>

definition owned :: "bank \<Rightarrow> bank_item \<Rightarrow> bool" where
  "owned s b = (bi_guildid b = gb_guildid s \<and> bi_is_inferno b = gb_inferno s)"

definition in_range :: "u32 \<times> u32 \<Rightarrow> bool" where
  "in_range x = (1 \<le> fst x \<and> fst x \<le> 5 \<and> 1 \<le> snd x \<and> snd x \<le> 98)"

text \<open>The part of the invariant that does not speak of places, and the part that does.\<close>

definition guids_ok :: "bank \<Rightarrow> bool" where
  "guids_ok s =
     (distinct (gb_items s) \<and> (\<forall>p \<in> set (gb_items s). p < gb_next s \<and> owned s (view s p)) \<and>
      inj_on (\<lambda>p. bi_guid (view s p)) (set (gb_items s)))"

definition places_ok :: "bank \<Rightarrow> bool" where
  "places_ok s =
     (inj_on (\<lambda>p. place (view s p)) (set (gb_items s)) \<and> (\<forall>p \<in> set (gb_items s). in_range (place (view s p))))"

lemma bank_ok_iff: "bank_ok s \<longleftrightarrow> guids_ok s \<and> places_ok s"
  by (auto simp: bank_ok_def guids_ok_def places_ok_def stock_ok_def stock_def distinct_map owned_def in_range_def
      place_def inj_on_def)

lemma guids_okD:
  assumes "guids_ok s"
  shows "distinct (gb_items s)" "p \<in> set (gb_items s) \<Longrightarrow> p < gb_next s" "gb_next s \<notin> set (gb_items s)"
    "p \<in> set (gb_items s) \<Longrightarrow> owned s (view s p)"
    "p \<in> set (gb_items s) \<Longrightarrow> q \<in> set (gb_items s) \<Longrightarrow> bi_guid (gb_heap s p) = bi_guid (gb_heap s q) \<Longrightarrow> p = q"
  using assms by (auto simp: guids_ok_def inj_on_def)

lemma GetItem_unique:
  assumes "bank_ok s" "GetItem s tab slot = Some p" "q \<in> set (gb_items s)" "place (view s q) = (tab, slot)"
  shows "q = p"
  using assms GetItem_Some [OF assms(2)] by (auto simp: bank_ok_iff places_ok_def inj_on_def)

section \<open>Primitive steps\<close>

text \<open>Storing an item at an address, adding the address, and removing it.\<close>

lemma view_upd [simp]:
  "view (upd_bank_item q f s) = (view s)(q := (f (gb_heap s q))\<lparr>bi_state := ITEM_UNCHANGED\<rparr>)"
  by (auto simp: view_def upd_bank_item_def fun_eq_iff)

lemma upd_bank_item_frame [simp]:
  "gb_items (upd_bank_item q f s) = gb_items s" "gb_next (upd_bank_item q f s) = gb_next s"
  "gb_guildid (upd_bank_item q f s) = gb_guildid s" "gb_inferno (upd_bank_item q f s) = gb_inferno s"
  "gb_queue (upd_bank_item q f s) = gb_queue s" "gb_db (upd_bank_item q f s) = gb_db s"
  "gb_player (upd_bank_item q f s) = gb_player s" "gb_saveLock (upd_bank_item q f s) = gb_saveLock s"
  "gb_heap (upd_bank_item q f s) = (gb_heap s)(q := f (gb_heap s q))"
  by (simp_all add: upd_bank_item_def)

lemma push_queue_frame [simp]:
  "gb_items (push_queue q s) = gb_items s" "gb_next (push_queue q s) = gb_next s"
  "gb_guildid (push_queue q s) = gb_guildid s" "gb_inferno (push_queue q s) = gb_inferno s"
  "gb_queue (push_queue q s) = gb_queue s @ [gb_heap s q]" "gb_db (push_queue q s) = gb_db s"
  "gb_player (push_queue q s) = gb_player s" "gb_heap (push_queue q s) = gb_heap s" "view (push_queue q s) = view s"
  "gb_saveLock (push_queue q s) = gb_saveLock s"
  by (auto simp: push_queue_def view_def)

lemma AddItem_frame [simp]:
  "gb_items (AddItem q s) = gb_items s @ [q]" "gb_next (AddItem q s) = gb_next s"
  "gb_guildid (AddItem q s) = gb_guildid s" "gb_inferno (AddItem q s) = gb_inferno s"
  "gb_queue (AddItem q s) = gb_queue s" "gb_db (AddItem q s) = gb_db s"
  "gb_player (AddItem q s) = gb_player s" "gb_heap (AddItem q s) = gb_heap s" "view (AddItem q s) = view s"
  "gb_saveLock (AddItem q s) = gb_saveLock s"
  by (auto simp: AddItem_def view_def)

lemma DeleteItem_frame [simp]:
  "gb_items (DeleteItem q s) = remove1 q (gb_items s)" "gb_next (DeleteItem q s) = gb_next s"
  "gb_guildid (DeleteItem q s) = gb_guildid s" "gb_inferno (DeleteItem q s) = gb_inferno s"
  "gb_queue (DeleteItem q s) = gb_queue s" "gb_db (DeleteItem q s) = gb_db s"
  "gb_player (DeleteItem q s) = gb_player s" "gb_heap (DeleteItem q s) = gb_heap s" "view (DeleteItem q s) = view s"
  "gb_saveLock (DeleteItem q s) = gb_saveLock s"
  by (auto simp: DeleteItem_def view_def)

lemma message_frame [simp]:
  "gb_items (SendAddonMessage m s) = gb_items s" "gb_heap (SendAddonMessage m s) = gb_heap s"
  "gb_next (SendAddonMessage m s) = gb_next s" "gb_guildid (SendAddonMessage m s) = gb_guildid s"
  "gb_inferno (SendAddonMessage m s) = gb_inferno s" "gb_queue (SendAddonMessage m s) = gb_queue s"
  "gb_db (SendAddonMessage m s) = gb_db s" "gb_player (SendAddonMessage m s) = gb_player s"
  "gb_money (SendAddonMessage m s) = gb_money s"
  "gb_items (SendGuildMessage m s) = gb_items s" "gb_heap (SendGuildMessage m s) = gb_heap s"
  "gb_next (SendGuildMessage m s) = gb_next s" "gb_guildid (SendGuildMessage m s) = gb_guildid s"
  "gb_inferno (SendGuildMessage m s) = gb_inferno s" "gb_queue (SendGuildMessage m s) = gb_queue s"
  "gb_db (SendGuildMessage m s) = gb_db s" "gb_player (SendGuildMessage m s) = gb_player s"
  "gb_money (SendGuildMessage m s) = gb_money s"
  "gb_saveLock (SendGuildMessage m s) = gb_saveLock s" "gb_saveLock (SendAddonMessage m s) = gb_saveLock s"
  by (simp_all add: message_defs)

lemma view_message [simp]:
  "view (send e s) = view s" "view (SendAddonMessage m s) = view s" "view (SendGuildMessage m s) = view s"
  "view (LogAction w a t i n b s) = view s"
  by (simp_all add: view_def fun_eq_iff)

text \<open>The total of a stock after one of its items was changed, added or removed.\<close>

lemma map_unaffected: "q \<notin> set ps \<Longrightarrow> map (\<lambda>a. if a = q then b else v a) ps = map v ps"
  by (induction ps) auto

lemma sum_list_upd:
  fixes g :: "'b \<Rightarrow> nat"
  assumes "distinct ps" "q \<in> set ps"
  shows "sum_list (map g (map (v(q := b)) ps)) + g (v q) = sum_list (map g (map v ps)) + g b"
  using assms
proof (induction ps)
  case (Cons p ps)
  then show ?case by (cases "p = q") (simp_all del: map_map add: fun_upd_def map_unaffected)
qed simp

lemma sum_list_remove1:
  fixes g :: "'b \<Rightarrow> nat"
  assumes "q \<in> set ps"
  shows "sum_list (map g (map v (remove1 q ps))) + g (v q) = sum_list (map g (map v ps))"
  using assms
proof (induction ps)
  case (Cons p ps)
  then show ?case by (cases "p = q") auto
qed simp

lemma amount_view_upd:
  "distinct ps \<Longrightarrow> q \<in> set ps \<Longrightarrow>
   amount e (map (v(q := b)) ps) + amount e [v q] = amount e (map v ps) + amount e [b]"
  unfolding amount_def
  using sum_list_upd [of ps q "\<lambda>b. if bi_item_template b = e then unat (bi_count b) else 0" v b] by simp

lemma amount_remove1:
  "q \<in> set ps \<Longrightarrow> amount e (map v (remove1 q ps)) + amount e [v q] = amount e (map v ps)"
  unfolding amount_def
  using sum_list_remove1 [of q ps "\<lambda>b. if bi_item_template b = e then unat (bi_count b) else 0" v] by simp

section \<open>An example\<close>

text \<open>A bank of guild 3 with two stacks of cloth in tab 1, in agreement with its tables.\<close>

definition cloth_item :: "u32 \<Rightarrow> u32 \<Rightarrow> u32 \<Rightarrow> bank_item" where
  "cloth_item guid slot cnt =
     \<lparr>bi_guildid = 3, bi_guid = guid, bi_Name = ''Linen Cloth'', bi_tab = 1, bi_slot = slot,
      bi_item_template = 2589, bi_creatorGuid = 0, bi_giftCreatorGuid = 0, bi_count = cnt, bi_maxStackSize = 20,
      bi_duration = 0, bi_charges = ''0 0 0 0 0 '', bi_flags = 0,
      bi_enchantments = concat (replicate 21 ''0 ''), bi_enchant = 0, bi_randomPropertyId = 0,
      bi_transmogrifyId = 0, bi_durability = 0, bi_text = 0, bi_generated_loot = 0, bi_is_inferno = False,
      bi_quality = 1, bi_state = ITEM_UNCHANGED\<rparr>"

definition sample_tab :: bank_tab where
  "sample_tab = \<lparr>tb_name = ''Tab1'', tb_icon = ''inv_misc_bag_08'', tb_withdrawals = 0, tb_minrank = 2\<rparr>"

definition sample_bank :: bank where
  "sample_bank =
     \<lparr>gb_guildid = 3, gb_inferno = False, gb_tabs = 1, gb_money = 500000,
      gb_heap = (\<lambda>p. if p = 0 then cloth_item 1 1 5 else cloth_item 2 2 18), gb_items = [0, 1], gb_next = 2,
      gb_tabInfo = (\<lambda>i. if i = 1 then sample_tab else empty_tab), gb_log = (\<lambda>_. []), gb_moneyLog = [], gb_queue = [],
      gb_saveLock = False, gb_tabs_changed = False, gb_money_changed = False, gb_moneyLog_changed = False,
      gb_log_changed = False, gb_playerGuid = 7, gb_playerRankIndex = 0, gb_player = sample_player,
      gb_db = \<lparr>t_bank = [row_of (cloth_item 1 1 5), row_of (cloth_item 2 2 18)],
               t_tabs = [(default_tabs_row 3 0 1)\<lparr>tr_minranks := [2, 0, 0, 0, 0]\<rparr>],
               t_money = [\<lparr>mr_guildid = 3, mr_isInferno = 0, mr_money = 500000\<rparr>], t_log = []\<rparr>,
      gb_out = [], gb_raw = cloth_item 0 0 0\<rparr>"

end
