(* ===== verification/Bank_Sync.thy ===== *)
theory Bank_Sync
  imports Bank_Stock
begin

text \<open>
  The bank and its tables: replaying the queue of pending item changes on the table \<open>guild_bank\<close>
  gives exactly the stock in memory. The primitive steps keep this; saving makes the table itself
  agree with memory.
\<close>

section \<open>Replaying the queue\<close>

definition apply_item :: "bank_item \<Rightarrow> bank_row list \<Rightarrow> bank_row list option" where
  "apply_item b rows =
     (case bi_state b of
        ITEM_NEW \<Rightarrow> if row_key (row_of b) \<in> row_key ` set rows then None else Some (rows @ [row_of b])
      | ITEM_CHANGED \<Rightarrow> if distinct (map row_key (update_rows (row_of b) rows)) then Some (update_rows (row_of b) rows) else None
      | ITEM_REMOVED \<Rightarrow> Some (filter (\<lambda>x. row_key x \<noteq> row_key (row_of b)) rows)
      | _ \<Rightarrow> Some rows)"

fun apply_queue :: "bank_item list \<Rightarrow> bank_row list \<Rightarrow> bank_row list option" where
  "apply_queue [] rows = Some rows"
| "apply_queue (b # bs) rows = Option.bind (apply_item b rows) (apply_queue bs)"

lemma apply_queue_snoc: "apply_queue (bs @ [b]) rows = Option.bind (apply_queue bs rows) (apply_item b)"
  by (induction bs arbitrary: rows) (auto split: Option.bind_splits)

lemma exec_queue:
  "exec_all (queue_sql bs) db = map_option (\<lambda>rows. db\<lparr>t_bank := rows\<rparr>) (apply_queue bs (t_bank db))"
proof (induction bs arbitrary: db)
  case (Cons b bs)
  show ?case
    by (cases "bi_state b") (auto simp: Cons apply_item_def AddToDB_def BankItem_SaveToDB_def BankItem_DeleteFromDB_def
        row_key_def row_of_def Let_def image_iff)
qed simp

definition own_rows :: "u32 \<Rightarrow> bank_row list \<Rightarrow> bank_row list" where
  "own_rows gid rows = filter (\<lambda>r. br_guildid r = gid) rows"

lemma own_rows_filter: "own_rows gid (filter P rows) = filter P (own_rows gid rows)"
  by (induction rows) (auto simp: own_rows_def)

text \<open>
  Memory and table agree up to the queue. The rows of the guild are those of this bank: the
  other bank of the guild, the one with the other \<open>isInferno\<close>, has no rows.
\<close>

definition rows_match :: "bank \<Rightarrow> bank_row list \<Rightarrow> bool" where
  "rows_match s rows = (distinct (map row_key rows) \<and> own_rows (gb_guildid s) rows = map row_of (stock s))"

definition synced :: "bank \<Rightarrow> bool" where
  "synced s =
     (case exec_all (queue_sql (gb_queue s)) (gb_db s) of
        None \<Rightarrow> False
      | Some db \<Rightarrow> rows_match s (t_bank db))"

lemma synced_iff:
  "synced s \<longleftrightarrow> (\<exists>rows. apply_queue (gb_queue s) (t_bank (gb_db s)) = Some rows \<and> rows_match s rows)"
  by (auto simp: synced_def exec_queue split: option.splits)

lemma synced_cong:
  assumes "synced s" "gb_queue s' = gb_queue s" "t_bank (gb_db s') = t_bank (gb_db s)"
    "gb_guildid s' = gb_guildid s" "stock s' = stock s"
  shows "synced s'"
  using assms by (auto simp: synced_iff rows_match_def)

section \<open>Primitive steps\<close>

lemma row_of_fields [simp]:
  "br_guildid (row_of b) = bi_guildid b" "br_guid (row_of b) = bi_guid b"
  "br_isInferno (row_of b) = inferno_flag (bi_is_inferno b)"
  by (simp_all add: row_of_def)

lemma row_of_state [simp]: "row_of (b\<lparr>bi_state := x\<rparr>) = row_of b"
  by (simp add: row_of_def)

lemma own_row_in_stock:
  assumes "rows_match s rows" "r \<in> set rows" "br_guildid r = gb_guildid s"
  obtains p where "p \<in> set (gb_items s)" "r = row_of (gb_heap s p)"
proof -
  have "r \<in> set (own_rows (gb_guildid s) rows)" using assms by (simp add: own_rows_def)
  then show ?thesis using assms(1) that by (auto simp: rows_match_def stock_def)
qed

lemma match_new:
  assumes m: "rows_match s rows" and new: "bi_state b = ITEM_NEW" "owned s b"
    "\<And>p. p \<in> set (gb_items s) \<Longrightarrow> bi_guid (gb_heap s p) \<noteq> bi_guid b"
    and s': "stock s' = stock s @ [b\<lparr>bi_state := ITEM_UNCHANGED\<rparr>]" "gb_guildid s' = gb_guildid s"
  shows "\<exists>rows'. apply_item b rows = Some rows' \<and> rows_match s' rows'"
proof -
  have fresh: "row_key (row_of b) \<notin> row_key ` set rows"
  proof
    assume "row_key (row_of b) \<in> row_key ` set rows"
    then obtain r where r: "r \<in> set rows" "row_key r = row_key (row_of b)" by auto
    then have "br_guildid r = gb_guildid s" "br_guid r = bi_guid b"
      using new(2) by (auto simp: row_key_def owned_def)
    then show False using own_row_in_stock [OF m r(1)] new(3) by (metis row_of_fields(2))
  qed
  show ?thesis
    using m new fresh s' by (auto simp: apply_item_def rows_match_def own_rows_def owned_def)
qed

lemma match_changed:
  assumes g: "guids_ok s" and m: "rows_match s rows" and q: "q \<in> set (gb_items s)"
    and b: "bi_state b = ITEM_CHANGED" "owned s b" "bi_guid b = bi_guid (gb_heap s q)"
    and s': "gb_items s' = gb_items s" "gb_guildid s' = gb_guildid s"
      "view s' = (view s)(q := b\<lparr>bi_state := ITEM_UNCHANGED\<rparr>)"
  shows "\<exists>rows'. apply_item b rows = Some rows' \<and> rows_match s' rows'"
proof -
  let ?hit = "\<lambda>x. br_guildid x = gb_guildid s \<and> br_guid x = bi_guid b"
  let ?rows = "map (\<lambda>x. if ?hit x then row_of b else x) rows"
  have upd: "update_rows (row_of b) rows = ?rows" using b(2) by (simp add: update_rows_def owned_def)
  have "row_key (row_of b) = row_key x" if "x \<in> set rows" "?hit x" for x
  proof -
    from own_row_in_stock [OF m that(1)] that(2)
    obtain p where p: "p \<in> set (gb_items s)" "x = row_of (gb_heap s p)" by blast
    then have "p = q" using guids_okD(5) [OF g p(1) q] that(2) b(3) by simp
    then show ?thesis using p b(2,3) guids_okD(4) [OF g q] by (simp add: row_key_def owned_def)
  qed
  then have keys: "map row_key ?rows = map row_key rows" unfolding map_map comp_def by (intro map_cong) simp_all
  have "own_rows (gb_guildid s) ?rows = map (\<lambda>x. if ?hit x then row_of b else x) (own_rows (gb_guildid s) rows)"
    using b(2) by (auto simp: own_rows_def filter_map comp_def owned_def intro!: arg_cong [where f = "map _"] filter_cong)
  also have "\<dots> = map (\<lambda>p. if p = q then row_of b else row_of (gb_heap s p)) (gb_items s)"
    using m g q b(3) guids_okD [OF g] by (auto simp: rows_match_def stock_def owned_def)
  also have "\<dots> = map row_of (stock s')" by (auto simp: stock_def s')
  finally have "rows_match s' ?rows" "distinct (map row_key ?rows)"
    unfolding rows_match_def keys using m s'(2) by (simp_all add: rows_match_def)
  then show ?thesis unfolding apply_item_def b(1) upd by auto
qed

lemma match_removed:
  assumes g: "guids_ok s" and m: "rows_match s rows" and q: "q \<in> set (gb_items s)"
    and b: "bi_state b = ITEM_REMOVED" "owned s b" "bi_guid b = bi_guid (gb_heap s q)"
    and s': "gb_items s' = remove1 q (gb_items s)" "gb_guildid s' = gb_guildid s"
      "\<And>p. p \<in> set (gb_items s) \<Longrightarrow> p \<noteq> q \<Longrightarrow> view s' p = view s p"
  shows "\<exists>rows'. apply_item b rows = Some rows' \<and> rows_match s' rows'"
proof -
  let ?rows = "filter (\<lambda>x. row_key x \<noteq> row_key (row_of b)) rows"
  have "own_rows (gb_guildid s) ?rows = filter (\<lambda>x. row_key x \<noteq> row_key (row_of b)) (map (\<lambda>p. row_of (gb_heap s p)) (gb_items s))"
    using m by (simp add: own_rows_filter rows_match_def stock_def comp_def)
  also have "\<dots> = map (\<lambda>p. row_of (gb_heap s p)) (filter (\<lambda>p. p \<noteq> q) (gb_items s))"
    using g q b(2,3) guids_okD [OF g]
    by (auto simp: filter_map comp_def row_key_def owned_def intro!: arg_cong [where f = "map _"] filter_cong)
  also have "filter (\<lambda>p. p \<noteq> q) (gb_items s) = remove1 q (gb_items s)"
    using guids_okD(1) [OF g] by (simp add: distinct_remove1_removeAll removeAll_filter_not_eq eq_commute)
  also have "map (\<lambda>p. row_of (gb_heap s p)) (remove1 q (gb_items s)) = map row_of (stock s')"
    using s'(3) guids_okD(1) [OF g] by (auto simp: stock_def s'(1) dest: notin_set_remove1 simp flip: view_fields(9))
  finally show ?thesis
    using m b(1) s' by (auto simp: apply_item_def rows_match_def distinct_map_filter)
qed


text \<open>The same for whole states: a change, a new item and a removed item that are queued.\<close>

lemma synced_push:
  assumes "synced s" "gb_queue s' = gb_queue s @ [b]" "t_bank (gb_db s') = t_bank (gb_db s)"
    and "\<And>rows. rows_match s rows \<Longrightarrow> \<exists>rows'. apply_item b rows = Some rows' \<and> rows_match s' rows'"
  shows "synced s'"
proof -
  obtain rows where "apply_queue (gb_queue s) (t_bank (gb_db s)) = Some rows" "rows_match s rows"
    using assms(1) by (auto simp: synced_iff)
  then show ?thesis using assms(2-4) by (auto simp: synced_iff apply_queue_snoc)
qed

definition bank_inv :: "bank \<Rightarrow> bool" where
  "bank_inv s = (guids_ok s \<and> synced s)"

lemma bank_inv_cong:
  assumes "bank_inv s" "same_items s s'" "gb_queue s' = gb_queue s" "t_bank (gb_db s') = t_bank (gb_db s)"
  shows "bank_inv s'"
  using assms synced_cong [of s s'] same_items_stock [of s s']
  by (auto simp: bank_inv_def guids_ok_def same_items_def owned_def)

lemma bank_inv_changed:
  assumes "bank_inv s" "q \<in> set (gb_items s)"
    "gb_items s' = gb_items s" "gb_next s' = gb_next s" "gb_guildid s' = gb_guildid s" "gb_inferno s' = gb_inferno s"
    "view s' = (view s)(q := b\<lparr>bi_state := ITEM_UNCHANGED\<rparr>)"
    "gb_queue s' = gb_queue s @ [b]" "t_bank (gb_db s') = t_bank (gb_db s)"
    "bi_state b = ITEM_CHANGED" "owned s b" "bi_guid b = bi_guid (gb_heap s q)"
  shows "bank_inv s'"
proof -
  have g: "guids_ok s" "synced s" using assms(1) by (simp_all add: bank_inv_def)
  have "synced s'"
    by (rule synced_push [OF g(2) assms(8,9)], rule match_changed [OF g(1) _ assms(2)]) (use assms in simp_all)
  moreover have "(\<lambda>p. bi_guid (view s' p)) = (\<lambda>p. bi_guid (view s p))" by (simp add: fun_eq_iff assms(7,12))
  then have "guids_ok s'" using g(1) assms(3-7,11) by (auto simp: guids_ok_def owned_def)
  ultimately show ?thesis by (simp add: bank_inv_def)
qed

lemma bank_inv_new:
  assumes "bank_inv s" "q = gb_next s"
    "gb_items s' = gb_items s @ [q]" "gb_next s' = Suc q" "gb_guildid s' = gb_guildid s" "gb_inferno s' = gb_inferno s"
    "view s' = (view s)(q := b\<lparr>bi_state := ITEM_UNCHANGED\<rparr>)"
    "gb_queue s' = gb_queue s @ [b]" "t_bank (gb_db s') = t_bank (gb_db s)"
    "bi_state b = ITEM_NEW" "owned s b" "bi_guid b = GetNewGuid s" "GetNewGuid s \<noteq> 0"
  shows "bank_inv s'"
proof -
  have g: "guids_ok s" "synced s" using assms(1) by (simp_all add: bank_inv_def)
  have fresh: "\<forall>p \<in> set (gb_items s). bi_guid (view s p) \<noteq> bi_guid b"
    using GetNewGuid_fresh [OF assms(13)] assms(12) by fastforce
  have "stock s' = stock s @ [b\<lparr>bi_state := ITEM_UNCHANGED\<rparr>]"
    using assms(2,3,7) guids_okD(3) [OF g(1)] by (simp add: stock_def)
  then have "synced s'"
    by (intro synced_push [OF g(2) assms(8,9)] match_new) (use assms fresh in simp_all)
  moreover have "guids_ok s'"
    using g(1) assms(2-7,11) fresh guids_okD(3) [OF g(1)]
    by (auto simp: guids_ok_def owned_def inj_on_def simp del: view_fields)
  ultimately show ?thesis by (simp add: bank_inv_def)
qed

lemma bank_inv_removed:
  assumes "bank_inv s" "q \<in> set (gb_items s)"
    "gb_items s' = remove1 q (gb_items s)" "gb_next s' = gb_next s" "gb_guildid s' = gb_guildid s"
    "gb_inferno s' = gb_inferno s" "\<And>p. p \<in> set (gb_items s) \<Longrightarrow> p \<noteq> q \<Longrightarrow> view s' p = view s p"
    "gb_queue s' = gb_queue s @ [b]" "t_bank (gb_db s') = t_bank (gb_db s)"
    "bi_state b = ITEM_REMOVED" "owned s b" "bi_guid b = bi_guid (gb_heap s q)"
  shows "bank_inv s'"
proof -
  have g: "guids_ok s" "synced s" using assms(1) by (simp_all add: bank_inv_def)
  have "synced s'"
    by (rule synced_push [OF g(2) assms(8,9)], rule match_removed [OF g(1) _ assms(2)]) (use assms in simp_all)
  moreover have "guids_ok s'"
    using g(1) assms(3-7) guids_okD(1) [OF g(1)]
    by (auto simp: guids_ok_def owned_def inj_on_def simp del: view_fields)
  ultimately show ?thesis by (simp add: bank_inv_def)
qed

section \<open>Saving\<close>

lemma exec_all_append: "exec_all (xs @ ys) db = Option.bind (exec_all xs db) (exec_all ys)"
  by (induction xs arbitrary: db) (auto split: option.splits)

lemma exec_logs: "exec_all (map (InsertLog \<circ> f) es) db = Some (db\<lparr>t_log := t_log db @ map f es\<rparr>)"
  by (induction es arbitrary: db) auto

text \<open>The tables a save writes when its item changes go through.\<close>

definition saved_tables :: "bank \<Rightarrow> bank_row list \<Rightarrow> tables" where
  "saved_tables s rows =
     (let db = gb_db s in
      db\<lparr>t_bank := rows,
         t_money := (if gb_money_changed s
                     then map (\<lambda>x. if mr_guildid x = gb_guildid s \<and> mr_isInferno x = inferno_flag (gb_inferno s)
                                   then x\<lparr>mr_money := gb_money s\<rparr> else x) (t_money db)
                     else t_money db),
         t_tabs := (if gb_tabs_changed s
                    then map (\<lambda>x. if tr_guildid x = gb_guildid s \<and> tr_isInferno x = inferno_flag (gb_inferno s)
                                  then tabs_row_of s else x) (t_tabs db)
                    else t_tabs db),
         t_log := t_log db @
            (if gb_moneyLog_changed s then map (money_log_row s) (new_money_logs s) else []) @
            (if gb_log_changed s then map (item_log_row s) (new_item_logs s) else [])\<rparr>)"

lemma exec_save:
  "exec_all (save_statements s) (gb_db s) = map_option (saved_tables s) (apply_queue (gb_queue s) (t_bank (gb_db s)))"
proof -
  have "tr_guildid (tabs_row_of s) = gb_guildid s" "tr_isInferno (tabs_row_of s) = inferno_flag (gb_inferno s)"
    by (simp_all add: tabs_row_of_def Let_def)
  then show ?thesis
    unfolding save_statements_def saved_tables_def Let_def
    by (cases "gb_db s"; cases "apply_queue (gb_queue s) (t_bank (gb_db s))")
       (simp_all add: exec_all_append exec_logs exec_queue)
qed

lemma synced_saved:
  assumes "synced s"
  obtains rows where "apply_queue (gb_queue s) (t_bank (gb_db s)) = Some rows" "rows_match s rows"
    "run_transaction (save_statements s) (gb_db s) = saved_tables s rows"
  using assms by (auto simp: synced_iff run_transaction_def exec_save)

lemma t_bank_saved [simp]: "t_bank (saved_tables s rows) = rows"
  by (simp add: saved_tables_def Let_def)

definition unsaved :: "bank \<Rightarrow> bool" where
  "unsaved s = (gb_moneyLog_changed s \<or> gb_tabs_changed s \<or> gb_money_changed s \<or> gb_log_changed s \<or> gb_queue s \<noteq> [])"

lemma SaveToDB_queue: "\<not> gb_saveLock s \<Longrightarrow> gb_queue (SaveToDB s) = []"
  by (auto simp: SaveToDB_def)

lemma SaveToDB_db:
  "\<not> gb_saveLock s \<Longrightarrow> gb_db (SaveToDB s) = (if unsaved s then run_transaction (save_statements s) (gb_db s) else gb_db s)"
  by (auto simp: SaveToDB_def unsaved_def)

lemma stock_SaveToDB [simp]: "stock (SaveToDB s) = stock s"
  by (simp add: stock_def)

lemma rows_match_SaveToDB [simp]: "rows_match (SaveToDB s) rows \<longleftrightarrow> rows_match s rows"
  by (simp add: rows_match_def)

lemma SaveToDB_match:
  assumes "synced s" "\<not> gb_saveLock s"
  shows "rows_match s (t_bank (gb_db (SaveToDB s)))"
proof (cases "unsaved s")
  case True
  obtain rows where "rows_match s rows" "run_transaction (save_statements s) (gb_db s) = saved_tables s rows"
    using synced_saved [OF assms(1)] by metis
  then show ?thesis using True by (simp add: SaveToDB_db [OF assms(2)])
next
  case False
  then show ?thesis using assms by (auto simp: SaveToDB_db [OF assms(2)] unsaved_def synced_iff)
qed

lemma synced_SaveToDB:
  assumes "synced s"
  shows "synced (SaveToDB s)"
proof (cases "gb_saveLock s")
  case True
  then show ?thesis using assms by (simp add: SaveToDB_def)
next
  case False
  then show ?thesis using SaveToDB_match [OF assms False] by (simp add: synced_iff SaveToDB_queue)
qed

lemma bank_inv_SaveToDB: "bank_inv s \<Longrightarrow> bank_inv (SaveToDB s)"
  by (auto simp: bank_inv_def synced_SaveToDB guids_ok_def owned_def simp del: view_fields)

text \<open>C8: a save of a bank that agrees with its tables up to the pending changes makes them agree: the rows
  of the guild become exactly the rows of the items in memory, in the same order, the new log
  entries are appended, money and tabs are written if they changed, the queue is empty and every flag is
  cleared; memory itself keeps its items.\<close>

theorem SaveToDB_correct:
  assumes "synced s" "\<not> gb_saveLock s" "unsaved s"
  shows "own_rows (gb_guildid s) (t_bank (gb_db (SaveToDB s))) = map row_of (stock s) \<and>
    distinct (map row_key (t_bank (gb_db (SaveToDB s)))) \<and>
    gb_db (SaveToDB s) = saved_tables s (t_bank (gb_db (SaveToDB s))) \<and>
    stock (SaveToDB s) = stock s \<and> \<not> unsaved (SaveToDB s) \<and> \<not> gb_saveLock (SaveToDB s)"
proof -
  obtain rows where "run_transaction (save_statements s) (gb_db s) = saved_tables s rows"
    using synced_saved [OF assms(1)] by metis
  then have "gb_db (SaveToDB s) = saved_tables s (t_bank (gb_db (SaveToDB s)))"
    using assms(3) by (simp add: SaveToDB_db [OF assms(2)])
  moreover have "\<not> unsaved (SaveToDB s)" using assms(2) by (auto simp: unsaved_def SaveToDB_def)
  ultimately show ?thesis using SaveToDB_match [OF assms(1,2)] assms(2) by (simp add: rows_match_def)
qed

text \<open>The example bank with one stack moved to another slot, before it is saved.\<close>

definition moved_bank :: bank where
  "moved_bank = change_item 0 (\<lambda>b. b\<lparr>bi_slot := 7\<rparr>) sample_bank"

theorem SaveToDB_correct_witness:
  "own_rows 3 (t_bank (gb_db (SaveToDB moved_bank))) = [row_of (cloth_item 1 7 5), row_of (cloth_item 2 2 18)]"
proof -
  have "synced moved_bank" "\<not> gb_saveLock moved_bank" "unsaved moved_bank" by code_simp+
  then have "own_rows (gb_guildid moved_bank) (t_bank (gb_db (SaveToDB moved_bank))) = map row_of (stock moved_bank)"
    using SaveToDB_correct [of moved_bank] by simp
  moreover have "gb_guildid moved_bank = 3 \<and>
      map row_of (stock moved_bank) = [row_of (cloth_item 1 7 5), row_of (cloth_item 2 2 18)]" by code_simp
  ultimately show ?thesis by simp
qed

end
