(* ===== verification/Bank_Move_Props.thy ===== *)
theory Bank_Move_Props
  imports Bank_Sync
begin

text \<open>
  Moving and splitting items inside the bank: guids and places stay unique, the pending changes still
  lead to the stock in memory, nothing is lost or duplicated, and no other slot is touched.
\<close>

section \<open>Stacks\<close>

text \<open>Every item has the stack size of its prototype and is not above it.\<close>

definition stack_ok :: "world \<Rightarrow> bank_item \<Rightarrow> bool" where
  "stack_ok w b =
     (case w_proto w (bi_item_template b) of
        None \<Rightarrow> False
      | Some proto \<Rightarrow> bi_maxStackSize b = GetMaxStackSize proto \<and> bi_count b \<le> GetMaxStackSize proto \<and>
                      GetMaxStackSize proto < 0x80000000)"

definition stacks_ok :: "world \<Rightarrow> bank \<Rightarrow> bool" where
  "stacks_ok w s = list_all (stack_ok w) (stock s)"

lemma stack_ok_other [simp]:
  "stack_ok w (b\<lparr>bi_slot := j\<rparr>) = stack_ok w b" "stack_ok w (b\<lparr>bi_state := x\<rparr>) = stack_ok w b"
  "stack_ok w (view s p) = stack_ok w (gb_heap s p)"
  by (simp_all add: stack_ok_def split: option.splits)

lemma stacks_okD: "stacks_ok w s \<Longrightarrow> p \<in> set (gb_items s) \<Longrightarrow> stack_ok w (gb_heap s p)"
  by (auto simp: stacks_ok_def stock_def list_all_iff)

lemma stack_ok_same_max:
  "stack_ok w a \<Longrightarrow> stack_ok w b \<Longrightarrow> bi_item_template a = bi_item_template b \<Longrightarrow>
   bi_maxStackSize a = bi_maxStackSize b"
  by (auto simp: stack_ok_def split: option.splits)

lemma stack_ok_bounds:
  "stack_ok w b \<Longrightarrow> unat (bi_count b) \<le> unat (bi_maxStackSize b) \<and> unat (bi_maxStackSize b) < 2 ^ 31"
  by (auto simp: stack_ok_def word_le_nat_alt word_less_nat_alt split: option.splits)

lemma stack_ok_count:
  "stack_ok w b \<Longrightarrow> n \<le> bi_maxStackSize b \<Longrightarrow> stack_ok w (b\<lparr>bi_count := n\<rparr>)"
  by (auto simp: stack_ok_def split: option.splits)

section \<open>The change of one item\<close>

lemma change_item_frame [simp]:
  "gb_items (change_item q f s) = gb_items s" "gb_next (change_item q f s) = gb_next s"
  "gb_guildid (change_item q f s) = gb_guildid s" "gb_inferno (change_item q f s) = gb_inferno s"
  "gb_db (change_item q f s) = gb_db s" "gb_player (change_item q f s) = gb_player s"
  "gb_saveLock (change_item q f s) = gb_saveLock s"
  "gb_queue (change_item q f s) = gb_queue s @ [(f (gb_heap s q))\<lparr>bi_state := ITEM_CHANGED\<rparr>]"
  "gb_heap (change_item q f s) = (gb_heap s)(q := (f (gb_heap s q))\<lparr>bi_state := ITEM_CHANGED\<rparr>)"
  "view (change_item q f s) = (view s)(q := (f (gb_heap s q))\<lparr>bi_state := ITEM_UNCHANGED\<rparr>)"
  by (simp_all add: change_item_def)

lemma bank_inv_change_item:
  assumes "bank_inv s" "q \<in> set (gb_items s)"
    "\<And>b. bi_guildid (f b) = bi_guildid b" "\<And>b. bi_is_inferno (f b) = bi_is_inferno b" "\<And>b. bi_guid (f b) = bi_guid b"
  shows "bank_inv (change_item q f s)"
proof -
  have "owned s (view s q)" using assms(1,2) guids_okD(4) by (auto simp: bank_inv_def)
  then show ?thesis
    by (intro bank_inv_changed [OF assms(1,2), of _ "(f (gb_heap s q))\<lparr>bi_state := ITEM_CHANGED\<rparr>"])
       (simp_all add: assms(3-5) owned_def)
qed

text \<open>Messages and log entries keep all parts of the invariant.\<close>

lemma bank_inv_send [simp]:
  "bank_inv s \<Longrightarrow> bank_inv (send e s)" "bank_inv s \<Longrightarrow> bank_inv (SendGuildMessage m s)"
  "bank_inv s \<Longrightarrow> bank_inv (SendAddonMessage m s)" "bank_inv s \<Longrightarrow> bank_inv (LogAction w a t i n b s)"
  by (auto elim!: bank_inv_cong simp: same_items_def)

lemma places_ok_cong: "places_ok s \<Longrightarrow> gb_items s' = gb_items s \<Longrightarrow> view s' = view s \<Longrightarrow> places_ok s'"
  by (simp add: places_ok_def)

lemma bank_ok_synced: "bank_ok s \<and> synced s \<longleftrightarrow> bank_inv s \<and> places_ok s"
  by (auto simp: bank_ok_iff bank_inv_def)

text \<open>What the bank operations promise of the items: the invariant and the slots left alone.\<close>

definition others_kept :: "bank \<Rightarrow> bank \<Rightarrow> (u32 \<times> u32) set \<Rightarrow> bool" where
  "others_kept s s' P =
     (\<forall>b. place b \<notin> P \<longrightarrow> (b \<in> set (stock s') \<longleftrightarrow> b \<in> set (stock s)))"

lemma others_kept_refl [simp]: "others_kept s s P"
  by (simp add: others_kept_def)

lemma others_kept_stock: "stock s' = stock s \<Longrightarrow> others_kept s s' P"
  by (simp add: others_kept_def)

lemma others_kept_mono: "others_kept s s' P \<Longrightarrow> P \<subseteq> Q \<Longrightarrow> others_kept s s' Q"
  by (auto simp: others_kept_def)

lemma others_kept_view:
  assumes "gb_items s' = gb_items s" "\<And>p. p \<in> set (gb_items s) \<Longrightarrow> p \<notin> A \<Longrightarrow> view s' p = view s p"
    "\<And>p. p \<in> A \<Longrightarrow> p \<in> set (gb_items s) \<Longrightarrow> place (view s p) \<in> P \<and> place (view s' p) \<in> P"
  shows "others_kept s s' P"
  unfolding others_kept_def stock_def assms(1)
proof (intro allI impI)
  fix b assume "place b \<notin> P"
  then show "b \<in> set (map (view s') (gb_items s)) \<longleftrightarrow> b \<in> set (map (view s) (gb_items s))"
    using assms(2,3) by (auto simp: image_iff) metis+
qed


text \<open>The contract of moving and splitting.\<close>

definition consistent :: "world \<Rightarrow> bank \<Rightarrow> bool" where
  "consistent w s = (bank_ok s \<and> synced s \<and> stacks_ok w s)"

definition rearranged :: "world \<Rightarrow> (u32 \<times> u32) set \<Rightarrow> bank \<Rightarrow> bank \<Rightarrow> bool" where
  "rearranged w P s s' =
     (consistent w s' \<and> (\<forall>e. amount e (stock s') = amount e (stock s)) \<and> others_kept s s' P \<and>
      gb_player s' = gb_player s)"

lemma rearranged_refl: "consistent w s \<Longrightarrow> rearranged w P s s"
  by (simp add: rearranged_def)

lemma consistent_cong:
  assumes "consistent w s" "same_items s s'" "gb_queue s' = gb_queue s" "t_bank (gb_db s') = t_bank (gb_db s)"
  shows "consistent w s'"
proof -
  have "gb_guildid s' = gb_guildid s" using assms(2) by (simp add: same_items_def)
  then show ?thesis
    using assms same_items_ok [OF assms(2)] same_items_stock [OF assms(2)] synced_cong [of s s']
    by (auto simp: consistent_def stacks_ok_def)
qed

lemma rearranged_cong:
  assumes "rearranged w P s s'" "same_items s' s''" "gb_queue s'' = gb_queue s'"
    "t_bank (gb_db s'') = t_bank (gb_db s')" "gb_player s'' = gb_player s'"
  shows "rearranged w P s s''"
  using assms consistent_cong [of w s' s''] same_items_stock [OF assms(2)]
  by (auto simp: rearranged_def others_kept_def)

lemma rearranged_message [simp]: "rearranged w P s s' \<Longrightarrow> rearranged w P s (SendGuildMessage m s')"
  by (erule rearranged_cong) (simp_all add: same_items_def)

lemma bank_ok_SaveToDB: "bank_ok s \<Longrightarrow> bank_ok (SaveToDB s)"
  by (rule same_items_ok [of s]) simp_all

lemma consistent_SaveToDB: "consistent w s \<Longrightarrow> consistent w (SaveToDB s)"
  by (simp add: consistent_def bank_ok_SaveToDB synced_SaveToDB stacks_ok_def)

lemma rearranged_SaveToDB [simp]: "rearranged w P s s' \<Longrightarrow> rearranged w P s (SaveToDB s')"
  by (simp add: rearranged_def consistent_SaveToDB others_kept_def)

lemma rearranged_out_only: "consistent w s \<Longrightarrow> out_only s s' \<Longrightarrow> rearranged w P s s'"
  by (rule rearranged_cong [OF rearranged_refl, of w s s' P])
     (auto simp: out_only_def same_items_def view_def fun_eq_iff)

text \<open>
  States whose items are those of \<open>s\<close> with two of them changed, both keeping their identity, together
  their count, and taking the two places of \<open>P\<close> between them.
\<close>

lemma stacks_ok_view:
  assumes "stacks_ok w s" "gb_items s' = gb_items s"
    "\<And>p. p \<in> set (gb_items s) \<Longrightarrow> view s' p = view s p \<or> stack_ok w (view s' p)"
  shows "stacks_ok w s'"
  using assms(2,3) stacks_okD [OF assms(1)]
  by (auto simp: stacks_ok_def stock_def list_all_iff simp del: stack_ok_other) (metis stack_ok_other(3))

lemma amount_two:
  assumes "distinct ps" "p \<in> set ps" "q \<in> set ps" "p \<noteq> q"
    "amount e [a] + amount e [b] = amount e [v p] + amount e [v q]"
  shows "amount e (map (v(p := a, q := b)) ps) = amount e (map v ps)"
  using amount_view_upd [OF assms(1,2), of e v a] amount_view_upd [OF assms(1,3), of e "v(p := a)" b] assms(4,5)
  by simp

lemma amount_one:
  assumes "distinct ps" "p \<in> set ps" "amount e [a] = amount e [v p]"
  shows "amount e (map (v(p := a)) ps) = amount e (map v ps)"
  using amount_view_upd [OF assms(1,2), of e v a] assms(3) by simp

lemma GetItem_two:
  assumes "bank_ok s" "GetItem s t i = Some p" "GetItem s t j = Some q" "i \<noteq> j"
  shows "p \<in> set (gb_items s)" "q \<in> set (gb_items s)" "p \<noteq> q"
    "place (view s p) = (t, i)" "place (view s q) = (t, j)"
  using GetItem_Some [OF assms(2)] GetItem_Some [OF assms(3)] assms(4) by auto

lemma places_ok_fun:
  assumes "gb_items s' = gb_items s" "(\<lambda>x. place (view s' x)) = g" "inj_on g (set (gb_items s))"
    "\<And>x. x \<in> set (gb_items s) \<Longrightarrow> in_range (g x)"
  shows "places_ok s'"
  using assms by (simp add: places_ok_def) metis

text \<open>Moving an item to a free place.\<close>

lemma move_to_free:
  assumes c: "consistent w s" and p: "p \<in> set (gb_items s)" "place (view s p) = (t, i)"
    and free: "(t, j) \<notin> place ` set (stock s)" and range: "in_range (t, j)"
  shows "rearranged w {(t, i), (t, j)} s (change_item p (\<lambda>b. b\<lparr>bi_slot := j\<rparr>) s)" (is "rearranged _ _ _ ?s")
proof -
  have ok: "bank_inv s" "places_ok s" using c bank_ok_synced [of s] by (auto simp: consistent_def)
  then have "bank_inv ?s" using p by (simp add: bank_inv_change_item)
  moreover have "places_ok ?s"
  proof (rule places_ok_fun [of _ s "(\<lambda>x. place (view s x))(p := (t, j))"])
    show "inj_on ((\<lambda>x. place (view s x))(p := (t, j))) (set (gb_items s))"
      using ok(2) free by (intro inj_on_fun_updI) (auto simp: places_ok_def stock_def image_image)
  qed (use ok(2) range p in \<open>auto simp: places_ok_def place_def fun_eq_iff\<close>)
  moreover have "stacks_ok w ?s"
    by (rule stacks_ok_view [of w s]) (use c stacks_okD [OF _ p(1)] in \<open>simp_all add: consistent_def\<close>)
  moreover have "amount e (stock ?s) = amount e (stock s)" for e
    unfolding stock_def using ok(1) p(1)
    by (simp add: amount_one guids_okD(1) bank_inv_def view_def)
  moreover have "others_kept s ?s {(t, i), (t, j)}"
    by (rule others_kept_view [of _ _ "{p}"]) (use p in \<open>auto simp: place_def\<close>)
  ultimately show ?thesis using bank_ok_synced [of ?s] by (simp add: rearranged_def consistent_def)
qed


text \<open>Exchanging the places of two items.\<close>

lemma swap_places:
  assumes c: "consistent w s" and pq: "p \<in> set (gb_items s)" "q \<in> set (gb_items s)" "p \<noteq> q"
    and at: "place (view s p) = (t, i)" "place (view s q) = (t, j)"
  shows "rearranged w {(t, i), (t, j)} s
    (change_item q (\<lambda>b. b\<lparr>bi_slot := i\<rparr>) (change_item p (\<lambda>b. b\<lparr>bi_slot := j\<rparr>) s))" (is "rearranged _ _ _ ?s")
proof -
  have ok: "bank_inv s" "places_ok s" using c bank_ok_synced [of s] by (auto simp: consistent_def)
  then have "bank_inv ?s" using pq by (simp add: bank_inv_change_item)
  moreover have "places_ok ?s"
  proof (rule places_ok_fun [of _ s "\<lambda>x. place (view s (if x = p then q else if x = q then p else x))"])
    show "inj_on (\<lambda>x. place (view s (if x = p then q else if x = q then p else x))) (set (gb_items s))"
      using ok(2) pq by (auto simp: places_ok_def inj_on_def)
  qed (use ok(2) pq at in \<open>auto simp: places_ok_def place_def fun_eq_iff\<close>)
  moreover have "stacks_ok w ?s"
    by (rule stacks_ok_view [of w s])
       (use c stacks_okD [OF _ pq(1)] stacks_okD [OF _ pq(2)] pq(3) in \<open>simp_all add: consistent_def\<close>)
  moreover have "amount e (stock ?s) = amount e (stock s)" for e
    unfolding stock_def using ok(1) pq
    by (simp add: amount_two guids_okD(1) bank_inv_def view_def)
  moreover have "others_kept s ?s {(t, i), (t, j)}"
    by (rule others_kept_view [of _ _ "{p, q}"]) (use at pq in \<open>auto simp: place_def\<close>)
  ultimately show ?thesis using bank_ok_synced [of ?s] by (simp add: rearranged_def consistent_def)
qed

text \<open>Moving a part of one stack onto another.\<close>

lemma move_counts:
  assumes c: "consistent w s" and pq: "p \<in> set (gb_items s)" "q \<in> set (gb_items s)" "p \<noteq> q"
    and at: "place (view s p) = (t, i)" "place (view s q) = (t, j)"
    and n: "bi_item_template (gb_heap s p) = bi_item_template (gb_heap s q)"
      "unat m + unat n = unat (bi_count (gb_heap s p)) + unat (bi_count (gb_heap s q))"
      "m \<le> bi_maxStackSize (gb_heap s p)" "n \<le> bi_maxStackSize (gb_heap s q)"
  shows "rearranged w {(t, i), (t, j)} s
    (change_item q (\<lambda>b. b\<lparr>bi_count := n\<rparr>) (change_item p (\<lambda>b. b\<lparr>bi_count := m\<rparr>) s))" (is "rearranged _ _ _ ?s")
proof -
  have ok: "bank_inv s" "places_ok s" using c bank_ok_synced [of s] by (auto simp: consistent_def)
  then have "bank_inv ?s" using pq by (simp add: bank_inv_change_item)
  moreover have "places_ok ?s"
    by (rule places_ok_fun [of _ s "\<lambda>x. place (view s x)"])
       (use ok(2) in \<open>auto simp: places_ok_def place_def fun_eq_iff\<close>)
  moreover have "stacks_ok w ?s"
    by (rule stacks_ok_view [of w s])
       (use c stacks_okD [OF _ pq(1)] stacks_okD [OF _ pq(2)] pq(3) n(3,4) in \<open>auto simp: consistent_def stack_ok_count\<close>)
  moreover have "amount e (stock ?s) = amount e (stock s)" for e
    unfolding stock_def using ok(1) pq n(1,2)
    by (simp add: amount_two guids_okD(1) bank_inv_def)
  moreover have "others_kept s ?s {(t, i), (t, j)}"
    by (rule others_kept_view [of _ _ "{p, q}"]) (use at pq in \<open>auto simp: place_def\<close>)
  ultimately show ?thesis using bank_ok_synced [of ?s] by (simp add: rearranged_def consistent_def)
qed

text \<open>Removing an item whose change is queued.\<close>

definition remove_item :: "ptr \<Rightarrow> bank \<Rightarrow> bank" where
  "remove_item p s = DeleteItem p (push_queue p (upd_bank_item p (\<lambda>b. b\<lparr>bi_state := ITEM_REMOVED\<rparr>) s))"

lemma bank_inv_remove_item:
  assumes "bank_inv s" "p \<in> set (gb_items s)"
  shows "bank_inv (remove_item p s)"
proof -
  have "owned s (view s p)" using assms guids_okD(4) by (auto simp: bank_inv_def)
  then show ?thesis
    unfolding remove_item_def
    by (intro bank_inv_removed [OF assms, of _ "(gb_heap s p)\<lparr>bi_state := ITEM_REMOVED\<rparr>"])
       (simp_all add: owned_def)
qed

lemma remove_item_frame:
  "gb_items (remove_item p s) = remove1 p (gb_items s)" "view (remove_item p s) = view s"
  "gb_player (remove_item p s) = gb_player s"
  by (simp_all add: remove_item_def) (simp add: view_def fun_eq_iff)

lemma remove_item_places: "places_ok s \<Longrightarrow> places_ok (remove_item p s)"
  by (auto simp: places_ok_def remove_item_frame inj_on_def dest: notin_set_remove1)

lemma remove_item_stacks: "stacks_ok w s \<Longrightarrow> stacks_ok w (remove_item p s)"
  by (auto simp: stacks_ok_def stock_def remove_item_frame list_all_iff dest: notin_set_remove1)


lemma merge_stacks:
  assumes c: "consistent w s" and pq: "p \<in> set (gb_items s)" "q \<in> set (gb_items s)" "p \<noteq> q"
    and at: "place (view s p) = (t, i)" "place (view s q) = (t, j)"
    and n: "bi_item_template (gb_heap s p) = bi_item_template (gb_heap s q)"
      "unat n = unat (bi_count (gb_heap s p)) + unat (bi_count (gb_heap s q))" "n \<le> bi_maxStackSize (gb_heap s q)"
  shows "rearranged w {(t, i), (t, j)} s (remove_item p (change_item q (\<lambda>b. b\<lparr>bi_count := n\<rparr>) s))"
    (is "rearranged _ _ _ (remove_item p ?s)")
proof -
  have ok: "bank_inv s" "places_ok s" "distinct (gb_items s)"
    using c bank_ok_synced [of s] guids_okD(1) by (auto simp: consistent_def bank_inv_def)
  have "places_ok ?s"
    by (rule places_ok_fun [of _ s "\<lambda>x. place (view s x)"])
       (use ok(2) in \<open>auto simp: places_ok_def place_def fun_eq_iff\<close>)
  moreover have "stacks_ok w ?s"
    by (rule stacks_ok_view [of w s])
       (use c stacks_okD [OF _ pq(2)] n(3) in \<open>auto simp: consistent_def stack_ok_count\<close>)
  moreover have "bank_inv ?s" using ok pq by (simp add: bank_inv_change_item)
  ultimately have "consistent w (remove_item p ?s)"
    using pq bank_ok_synced [of "remove_item p ?s"] bank_inv_remove_item [of ?s p] remove_item_places remove_item_stacks
    by (auto simp: consistent_def)
  moreover have "amount e (stock (remove_item p ?s)) = amount e (stock s)" for e
    using amount_view_upd [OF ok(3) pq(2), of e "view s" "(gb_heap s q)\<lparr>bi_count := n, bi_state := ITEM_UNCHANGED\<rparr>"]
      amount_remove1 [OF pq(1), of e "(view s)(q := (gb_heap s q)\<lparr>bi_count := n, bi_state := ITEM_UNCHANGED\<rparr>)"] pq(3) n(1,2)
    by (simp add: stock_def remove_item_frame split: if_splits)
  moreover have "others_kept s (remove_item p ?s) {(t, i), (t, j)}"
    unfolding others_kept_def stock_def remove_item_frame
    using at pq ok(3) by (auto simp: image_iff place_def)
  ultimately show ?thesis by (simp add: rearranged_def remove_item_frame)
qed

section \<open>Moving\<close>

lemma MoveItem_rearranges:
  assumes c: "consistent w s" and ne: "fromSlot \<noteq> toSlot"
    and range: "in_range (ucast bankTab, ucast toSlot)"
  shows "rearranged w {(ucast bankTab, ucast fromSlot), (ucast bankTab, ucast toSlot)} s
    (MoveItem (GetItem s (ucast bankTab) (ucast fromSlot)) (GetItem s (ucast bankTab) (ucast toSlot))
      bankTab fromSlot toSlot s)" (is "rearranged w ?P s (MoveItem ?sp ?dp _ _ _ _)")
proof -
  consider "?sp = None" | p where "?sp = Some p" "?dp = None" | p q where "?sp = Some p" "?dp = Some q"
    by (cases ?sp; cases ?dp) auto
  then show ?thesis
  proof cases
    case 1
    then show ?thesis by (simp add: MoveItem_def rearranged_out_only [OF c])
  next
    case 2
    have "rearranged w ?P s (change_item p (\<lambda>b. b\<lparr>bi_slot := ucast toSlot\<rparr>) s)"
      using GetItem_Some [OF 2(1)] 2(2) range by (intro move_to_free [OF c]) (simp_all add: GetItem_None)
    then show ?thesis using 2 by (simp add: MoveItem_def Let_def)
  next
    case 3
    have at: "p \<in> set (gb_items s)" "q \<in> set (gb_items s)" "p \<noteq> q"
      "place (view s p) = (ucast bankTab, ucast fromSlot)" "place (view s q) = (ucast bankTab, ucast toSlot)"
      using GetItem_two [of s "ucast bankTab" "ucast fromSlot" p "ucast toSlot" q] 3 c ne by (auto simp: consistent_def)
    let ?a = "gb_heap s p" and ?b = "gb_heap s q"
    have st: "stack_ok w ?a" "stack_ok w ?b" using c at stacks_okD by (auto simp: consistent_def)
    note small = stack_ok_bounds [OF st(1)] stack_ok_bounds [OF st(2)]
    consider (swap) "bi_item_template ?a \<noteq> bi_item_template ?b \<or> bi_count ?a = bi_maxStackSize ?a \<or> bi_count ?b = bi_maxStackSize ?b"
      | (merge) "bi_item_template ?a = bi_item_template ?b" "bi_count ?a \<noteq> bi_maxStackSize ?a" "bi_count ?b \<noteq> bi_maxStackSize ?b"
          "bi_count ?a + bi_count ?b \<le> bi_maxStackSize ?a"
      | (part) "bi_item_template ?a = bi_item_template ?b" "bi_count ?a \<noteq> bi_maxStackSize ?a" "bi_count ?b \<noteq> bi_maxStackSize ?b"
          "\<not> bi_count ?a + bi_count ?b \<le> bi_maxStackSize ?a"
      by blast
    then show ?thesis
    proof cases
      case swap
      then show ?thesis using 3 swap_places [OF c at] by (auto simp: MoveItem_def swap_slots_def Let_def)
    next
      case merge
      have "rearranged w ?P s (remove_item p (change_item q (\<lambda>b. b\<lparr>bi_count := bi_count ?a + bi_count ?b\<rparr>) s))"
        using small merge stack_ok_same_max [OF st] by (intro merge_stacks [OF c at]) (auto simp: unat_plus_small)
      then show ?thesis using 3 merge at(3) by (simp add: MoveItem_def remove_item_def Let_def)
    next
      case part
      have max: "bi_maxStackSize ?b = bi_maxStackSize ?a" using stack_ok_same_max [OF st part(1)] by simp
      have "unat (bi_maxStackSize ?a - bi_count ?b) = unat (bi_maxStackSize ?a) - unat (bi_count ?b)"
        using small max by (intro unat_sub) (simp add: word_le_nat_alt)
      moreover have "unat (bi_maxStackSize ?a) - unat (bi_count ?b) \<le> unat (bi_count ?a)"
        using part(4) small by (auto simp: word_le_nat_alt unat_plus_small)
      ultimately have "unat (bi_count ?a - (bi_maxStackSize ?a - bi_count ?b)) =
          unat (bi_count ?a) - (unat (bi_maxStackSize ?a) - unat (bi_count ?b))"
        by (simp add: unat_sub word_le_nat_alt)
      then have "rearranged w ?P s (change_item q (\<lambda>b. b\<lparr>bi_count := bi_maxStackSize ?b\<rparr>)
          (change_item p (\<lambda>b. b\<lparr>bi_count := bi_count ?a - (bi_maxStackSize ?a - bi_count ?b)\<rparr>) s))"
        using small part max \<open>unat (bi_maxStackSize ?a) - unat (bi_count ?b) \<le> unat (bi_count ?a)\<close>
        by (intro move_counts [OF c at]) (auto simp: word_le_nat_alt)
      then show ?thesis using 3 part at(3) by (simp add: MoveItem_def Let_def)
    qed
  qed
qed


section \<open>Splitting\<close>

lemma sint_diff_small:
  fixes a b :: u32
  assumes "unat a < 2 ^ 31" "unat b < 2 ^ 31"
  shows "sint (a - b) = int (unat a) - int (unat b)"
proof -
  have "int (unat a) < int (2 ^ 31)" "int (unat b) < int (2 ^ 31)" using assms by (simp_all only: of_nat_less_iff)
  then have u: "uint a < 2 ^ 31" "uint b < 2 ^ 31" by simp_all
  have "a - b = word_of_int (uint a - uint b)" by simp
  then have "sint (a - b) = signed_take_bit 31 (uint a - uint b)" by (simp only: sint_sbintrunc') simp
  also have "\<dots> = uint a - uint b"
    using u uint_ge_0 [of a] uint_ge_0 [of b] by (intro signed_take_bit_int_eq_self) linarith+
  finally show ?thesis by simp
qed

text \<open>The part of a new item that splitting adds.\<close>

lemma max_guid_cong: "(\<And>p. p \<in> set ps \<Longrightarrow> bi_guid (h' p) = bi_guid (h p)) \<Longrightarrow> max_guid h' ps g = max_guid h ps g"
  by (induction h ps g rule: max_guid.induct) auto

lemma GetNewGuid_cong:
  assumes "gb_items s' = gb_items s" "\<And>p. bi_guid (gb_heap s' p) = bi_guid (gb_heap s p)"
  shows "GetNewGuid s' = GetNewGuid s"
  using assms max_guid_cong [of "gb_items s" "gb_heap s'" "gb_heap s"] by (simp add: GetNewGuid_def)

text \<open>A stack with a part taken off into a new item at a free place.\<close>

definition split_off :: "ptr \<Rightarrow> u32 \<Rightarrow> u32 \<Rightarrow> bank \<Rightarrow> bank" where
  "split_off p j n s =
     (let s1 = change_item p (\<lambda>b. b\<lparr>bi_count := bi_count (gb_heap s p) - n\<rparr>) s; (q, s2) = CloneBankItem p s1
      in AddItem q (push_queue q (upd_bank_item q (\<lambda>b. b\<lparr>bi_slot := j, bi_count := n, bi_state := ITEM_NEW\<rparr>) s2)))"

lemma CloneBankItem_result:
  assumes "CloneBankItem p s = (q, s')"
  shows "q = gb_next s" "gb_next s' = Suc q" "gb_items s' = gb_items s" "gb_queue s' = gb_queue s" "gb_db s' = gb_db s"
    "gb_guildid s' = gb_guildid s" "gb_inferno s' = gb_inferno s" "gb_player s' = gb_player s"
    "\<And>x. x \<noteq> q \<Longrightarrow> gb_heap s' x = gb_heap s x" "gb_saveLock s' = gb_saveLock s"
    "bi_guid (gb_heap s' q) = GetNewGuid s" "bi_guildid (gb_heap s' q) = gb_guildid s"
    "bi_is_inferno (gb_heap s' q) = bi_is_inferno (gb_heap s p)" "bi_tab (gb_heap s' q) = bi_tab (gb_heap s p)"
    "bi_item_template (gb_heap s' q) = bi_item_template (gb_heap s p)"
    "bi_maxStackSize (gb_heap s' q) = bi_maxStackSize (gb_heap s p)"
  using assms by (auto simp: CloneBankItem_def new_bank_item_def upd_bank_item_def Let_def)

lemma split_off_rearranges:
  assumes c: "consistent w s" and p: "p \<in> set (gb_items s)" "place (view s p) = (t, i)"
    and free: "(t, j) \<notin> place ` set (stock s)" and range: "in_range (t, j)"
    and n: "n \<le> bi_count (gb_heap s p)" and guid: "GetNewGuid s \<noteq> 0"
  shows "rearranged w {(t, i), (t, j)} s (split_off p j n s)"
proof -
  define s1 where "s1 = change_item p (\<lambda>b. b\<lparr>bi_count := bi_count (gb_heap s p) - n\<rparr>) s"
  obtain q s2 where cl: "CloneBankItem p s1 = (q, s2)" by (metis surj_pair)
  note r = CloneBankItem_result [OF cl]
  define b where "b = (gb_heap s2 q)\<lparr>bi_slot := j, bi_count := n, bi_state := ITEM_NEW\<rparr>"
  define s3 where "s3 = split_off p j n s"
  have ok: "bank_inv s" "places_ok s" "stacks_ok w s" using c bank_ok_synced [of s] by (auto simp: consistent_def)
  have inv1: "bank_inv s1" using ok p(1) by (simp add: s1_def bank_inv_change_item)
  have q: "q \<notin> set (gb_items s)" "q \<noteq> p" using guids_okD(3) [of s] ok(1) p(1) r(1) by (auto simp: bank_inv_def s1_def)
  have items: "gb_items s3 = gb_items s @ [q]" and queue: "gb_queue s3 = gb_queue s1 @ [b]"
    and rest: "gb_next s3 = Suc q" "gb_db s3 = gb_db s1" "gb_guildid s3 = gb_guildid s1" "gb_inferno s3 = gb_inferno s1"
      "gb_player s3 = gb_player s"
    and vw: "view s3 = (view s1)(q := b\<lparr>bi_state := ITEM_UNCHANGED\<rparr>)"
    using cl r by (auto simp: s3_def split_off_def s1_def [symmetric] b_def Let_def fun_eq_iff view_def)
      (simp_all add: s1_def)
  have own: "owned s (view s p)" using ok(1) p(1) guids_okD(4) by (auto simp: bank_inv_def)
  have "GetNewGuid s1 = GetNewGuid s" by (rule GetNewGuid_cong) (simp_all add: s1_def)
  then have inv3: "bank_inv s3"
    using guid own r items queue rest vw
    by (intro bank_inv_new [OF inv1 r(1), of s3 b]) (simp_all add: b_def owned_def s1_def)
  have places: "place (view s3 x) = (if x = q then (t, j) else place (view s x))" for x
    using p(2) r vw by (auto simp: place_def b_def s1_def)
  then have pl3: "places_ok s3"
    using ok(2) items free range q(1) by (auto simp: places_ok_def inj_on_def stock_def image_iff)
  have st: "stack_ok w (gb_heap s p)" using ok(3) p(1) stacks_okD by blast
  have stock3: "stock s3 = stock s1 @ [b\<lparr>bi_state := ITEM_UNCHANGED\<rparr>]"
    using items q(1) vw by (simp add: stock_def s1_def)
  have bd: "bi_item_template b = bi_item_template (gb_heap s p)" "bi_maxStackSize b = bi_maxStackSize (gb_heap s p)"
    "bi_count b = n" using r q(2) by (simp_all add: b_def s1_def)
  have le: "bi_count (gb_heap s p) - n \<le> bi_count (gb_heap s p)" and
    un: "unat (bi_count (gb_heap s p) - n) + unat n = unat (bi_count (gb_heap s p))"
    using n by (simp_all add: word_le_nat_alt unat_sub)
  have "stack_ok w b" using st n bd by (auto simp: stack_ok_def split: option.splits intro: order_trans)
  moreover have "stacks_ok w s1"
    by (rule stacks_ok_view [OF ok(3)])
       (use st le in \<open>auto simp: s1_def stack_ok_def split: option.splits intro: order_trans\<close>)
  ultimately have "stacks_ok w s3" by (simp add: stacks_ok_def stock3)
  moreover have "amount e (stock s3) = amount e (stock s)" for e
    using amount_view_upd [OF guids_okD(1) p(1), of e "view s" "(gb_heap s p)\<lparr>bi_count := bi_count (gb_heap s p) - n, bi_state := ITEM_UNCHANGED\<rparr>"]
      ok(1) bd un unfolding stock3 stock_def [of s] stock_def [of s1] by (simp add: bank_inv_def s1_def split: if_splits)
  moreover have "others_kept s s3 {(t, i), (t, j)}"
  proof -
    have "others_kept s s1 {(t, i)}"
      by (rule others_kept_view [of _ _ "{p}"]) (use p in \<open>auto simp: place_def s1_def\<close>)
    moreover have "place b = (t, j)" using p(2) r q(2) by (simp add: b_def place_def s1_def)
    ultimately show ?thesis by (auto simp: others_kept_def stock3 place_def)
  qed
  ultimately have "rearranged w {(t, i), (t, j)} s s3"
    using bank_ok_synced [of s3] rest(5) inv3 pl3 by (simp add: rearranged_def consistent_def)
  then show ?thesis by (simp add: s3_def)
qed


lemma split_to_free_rearranges:
  assumes c: "consistent w s" and p: "p \<in> set (gb_items s)" "place (view s p) = (t, i)"
    and free: "(t, ucast j) \<notin> place ` set (stock s)" and range: "in_range (t, ucast j)"
    and small: "unat n < 2 ^ 31" and guid: "GetNewGuid s \<noteq> 0"
  shows "rearranged w {(t, i), (t, ucast j)} s (split_to_free p j n s)"
proof (cases "n \<ge> bi_maxStackSize (gb_heap s p) \<or> bi_count (gb_heap s p) - n \<le>s 0")
  case True
  then show ?thesis by (auto simp: split_to_free_def Let_def intro!: rearranged_out_only [OF c])
next
  case False
  have "stack_ok w (gb_heap s p)" using c p(1) stacks_okD by (auto simp: consistent_def)
  then have "sint (bi_count (gb_heap s p) - n) = int (unat (bi_count (gb_heap s p))) - int (unat n)"
    using stack_ok_bounds small by (intro sint_diff_small) (auto dest: stack_ok_bounds intro: le_less_trans)
  then have "n \<le> bi_count (gb_heap s p)" using False by (simp add: word_sle_eq word_le_def)
  then have "rearranged w {(t, i), (t, ucast j)} s (split_off p (ucast j) n s)"
    by (rule split_off_rearranges [OF c p free range _ guid])
  moreover have "split_to_free p j n s = SaveToDB (SendGuildMessage m (split_off p (ucast j) n s))"
    if "m = (let s4 = split_off p (ucast j) n s in
             split_message (gb_heap s4 p) (gb_heap s4 (fst (CloneBankItem p (change_item p (\<lambda>b. b\<lparr>bi_count := bi_count (gb_heap s p) - n\<rparr>) s)))))" for m
    using False that by (simp add: split_to_free_def split_off_def Let_def case_prod_beta)
  ultimately show ?thesis by simp
qed

lemma split_to_stack_rearranges:
  assumes c: "consistent w s" and pq: "p \<in> set (gb_items s)" "q \<in> set (gb_items s)" "p \<noteq> q"
    and at: "place (view s p) = (t, i)" "place (view s q) = (t, j)" and small: "unat n < 2 ^ 31"
  shows "rearranged w {(t, i), (t, j)} s (split_to_stack p q n s)"
proof -
  let ?a = "gb_heap s p" and ?b = "gb_heap s q"
  have st: "stack_ok w ?a" "stack_ok w ?b" using c pq stacks_okD by (auto simp: consistent_def)
  note bounds = stack_ok_bounds [OF st(1)] stack_ok_bounds [OF st(2)]
  show ?thesis
  proof (cases "bi_item_template ?a = bi_item_template ?b \<and> bi_count ?b + n \<le> bi_maxStackSize ?b \<and>
      bi_count ?a - n \<noteq> 0 \<and> bi_count ?a - n \<le> bi_maxStackSize ?a \<and> bi_count ?b + n \<noteq> 0 \<and> bi_count ?b + n \<le> bi_maxStackSize ?a")
    case True
    have "n \<le> bi_count ?a"
    proof (rule ccontr)
      assume "\<not> n \<le> bi_count ?a"
      then have "unat (bi_count ?a - n) = unat (bi_count ?a) + 2 ^ 32 - unat n"
        by (simp add: word_le_nat_alt unat_sub_if' not_le)
      moreover have "unat (bi_count ?a - n) \<le> unat (bi_maxStackSize ?a)" using True by (simp add: word_le_nat_alt)
      ultimately have "unat (bi_count ?a) + 2 ^ 32 - unat n \<le> unat (bi_maxStackSize ?a)" by simp
      then show False using conjunct2 [OF bounds(1)] small by simp
    qed
    then have "unat (bi_count ?a - n) + unat (bi_count ?b + n) = unat (bi_count ?a) + unat (bi_count ?b)"
      using bounds small by (simp add: unat_plus_small unat_sub word_le_nat_alt)
    then have "rearranged w {(t, i), (t, j)} s (change_item q (\<lambda>b. b\<lparr>bi_count := bi_count ?b + n\<rparr>)
        (change_item p (\<lambda>b. b\<lparr>bi_count := bi_count ?a - n\<rparr>) s))"
      using True by (intro move_counts [OF c pq at]) auto
    then show ?thesis using True by (simp add: split_to_stack_def Let_def leD)
  next
    case False
    then have "out_only s (split_to_stack p q n s)" by (auto simp: split_to_stack_def Let_def not_less)
    then show ?thesis by (rule rearranged_out_only [OF c])
  qed
qed


section \<open>The messages\<close>

lemma in_range_ucast:
  fixes t j :: u8
  shows "in_range (ucast t, ucast j) \<longleftrightarrow> t \<noteq> 0 \<and> unat t \<le> 5 \<and> j \<noteq> 0 \<and> unat j \<le> 98"
proof -
  have "1 \<le> unat x \<longleftrightarrow> x \<noteq> 0" for x :: u8 by (simp add: Suc_le_eq unat_gt_0)
  then show ?thesis by (auto simp: in_range_def word_le_nat_alt)
qed

lemma consistent_out_only: "consistent w s \<Longrightarrow> out_only s s' \<Longrightarrow> consistent w s'"
  using consistent_cong [of w s s'] out_only_same_items [of s s'] by (auto simp: out_only_def)

lemma rearranged_after_out:
  assumes "out_only s s0" "rearranged w P s0 s'"
  shows "rearranged w P s s'"
proof -
  have "stock s0 = stock s" "gb_player s0 = gb_player s"
    using assms(1) by (auto simp: out_only_def stock_def view_def)
  then show ?thesis using assms(2) by (simp add: rearranged_def others_kept_def)
qed

text \<open>The tab and the two slots a move or a split names.\<close>

definition named_slots :: "string \<Rightarrow> (u32 \<times> u32) set" where
  "named_slots msg =
     (let params = Tokenizer msg (CHR '':''); num = (\<lambda>i. ucast (ucast (atoi (params ! i)) :: u8) :: u32)
      in {(num 1, num 2), (num 1, num 3)})"

lemma move_message_rearranged:
  assumes "consistent w s"
  shows "rearranged w (named_slots msg) s (MoveItem_msg w msg s)"
proof -
  define num where "num = (\<lambda>i. ucast (atoi (Tokenizer msg (CHR '':'') ! i)) :: u8)"
  obtain access s0 where a: "CanAccessTab w (num 1) ACTION_MOVE_ITEM s = (access, s0)" by (metis surj_pair)
  note o = out_only_CanAccessTab [OF a]
  have c0: "consistent w s0" by (rule consistent_out_only [OF assms o])
  show ?thesis
  proof (cases "length (Tokenizer msg (CHR '':'')) = 4 \<and> access \<and> num 2 \<noteq> num 3 \<and>
      in_range (ucast (num 1), ucast (num 2)) \<and> in_range (ucast (num 1), ucast (num 3))")
    case True
    then have "MoveItem_msg w msg s = MoveItem (GetItem s0 (ucast (num 1)) (ucast (num 2)))
        (GetItem s0 (ucast (num 1)) (ucast (num 3))) (num 1) (num 2) (num 3) s0"
      using a by (auto simp: MoveItem_msg_def Let_def num_def in_range_ucast)
    then show ?thesis
      using True MoveItem_rearranges [OF c0, of "num 2" "num 3" "num 1"] rearranged_after_out [OF o]
      by (simp add: named_slots_def num_def Let_def)
  next
    case False
    then have "out_only s (MoveItem_msg w msg s)"
      using a o by (auto simp: MoveItem_msg_def Let_def num_def in_range_ucast)
    then show ?thesis by (rule rearranged_out_only [OF assms])
  qed
qed

text \<open>C13: a move message leaves a consistent bank consistent (guids and places unique, pending
  changes complete, no stack above its size), keeps the number of items of every entry, touches no slot but the two
  it names, and never touches the player.\<close>

theorem MoveItem_msg_rearranges:
  assumes "consistent w s"
  shows "rearranged w (named_slots msg) s (MoveItem_msg w msg s)"
  using move_message_rearranged [OF assms] .

lemma sample_bank_consistent: "consistent sample_world sample_bank"
  by code_simp

theorem MoveItem_msg_rearranges_witness:
  "rearranged sample_world {(1, 1), (1, 2)} sample_bank (MoveItem_msg sample_world ''MoveItem:1:1:2'' sample_bank) \<and>
   map bi_count (stock (MoveItem_msg sample_world ''MoveItem:1:1:2'' sample_bank)) = [3, 20]"
proof
  have "named_slots ''MoveItem:1:1:2'' = {(1, 1), (1, 2)}" by code_simp
  then show "rearranged sample_world {(1, 1), (1, 2)} sample_bank (MoveItem_msg sample_world ''MoveItem:1:1:2'' sample_bank)"
    using MoveItem_msg_rearranges [OF sample_bank_consistent, of "''MoveItem:1:1:2''"] by simp
qed code_simp

lemma split_message_rearranged:
  assumes "consistent w s" "GetNewGuid s \<noteq> 0"
  shows "rearranged w (named_slots msg) s (SplitItem w msg s)"
proof -
  define num where "num = (\<lambda>i. ucast (atoi (Tokenizer msg (CHR '':'') ! i)) :: u8)"
  obtain access s0 where a: "CanAccessTab w (num 1) ACTION_SPLIT_ITEM s = (access, s0)" by (metis surj_pair)
  note o = out_only_CanAccessTab [OF a]
  have c0: "consistent w s0" by (rule consistent_out_only [OF assms(1) o])
  have g0: "GetNewGuid s0 \<noteq> 0" using assms(2) o by (auto simp: out_only_def GetNewGuid_def)
  have small: "unat (ucast (num 4) :: u32) < 2 ^ 31" using unat_less_2p [of "num 4"] by simp
  let ?sp = "GetItem s0 (ucast (num 1)) (ucast (num 2))" and ?dp = "GetItem s0 (ucast (num 1)) (ucast (num 3))"
  show ?thesis
  proof (cases "length (Tokenizer msg (CHR '':'')) = 5 \<and> access \<and> num 2 \<noteq> num 3 \<and>
      in_range (ucast (num 1), ucast (num 2)) \<and> in_range (ucast (num 1), ucast (num 3)) \<and> ?sp \<noteq> None")
    case True
    then obtain p where p: "?sp = Some p" by auto
    note at = GetItem_Some [OF p]
    have "rearranged w (named_slots msg) s0 (SplitItem w msg s)"
    proof (cases ?dp)
      case None
      then have "SplitItem w msg s = split_to_free p (num 3) (ucast (num 4)) s0"
        using a True p by (auto simp: SplitItem_def Let_def num_def in_range_ucast)
      moreover have "rearranged w {(ucast (num 1), ucast (num 2)), (ucast (num 1), ucast (num 3))} s0
          (split_to_free p (num 3) (ucast (num 4)) s0)"
        using at None True by (intro split_to_free_rearranges [OF c0 _ _ _ _ small g0]) (simp_all add: GetItem_None)
      ultimately show ?thesis by (simp add: named_slots_def num_def Let_def)
    next
      case (Some q)
      then have "SplitItem w msg s = split_to_stack p q (ucast (num 4)) s0"
        using a True p by (auto simp: SplitItem_def Let_def num_def in_range_ucast)
      moreover have "rearranged w {(ucast (num 1), ucast (num 2)), (ucast (num 1), ucast (num 3))} s0
          (split_to_stack p q (ucast (num 4)) s0)"
        using GetItem_two [OF _ p Some] True c0
        by (intro split_to_stack_rearranges [OF c0 _ _ _ _ _ small]) (simp_all add: consistent_def)
      ultimately show ?thesis by (simp add: named_slots_def num_def Let_def)
    qed
    then show ?thesis by (rule rearranged_after_out [OF o])
  next
    case False
    then have "out_only s (SplitItem w msg s)"
      using a o by (auto simp: SplitItem_def Let_def num_def in_range_ucast)
    then show ?thesis by (rule rearranged_out_only [OF assms(1)])
  qed
qed

text \<open>C14: a split message does the same, as long as the counter of item guids has not reached its end.\<close>

theorem SplitItem_rearranges:
  assumes "consistent w s" "GetNewGuid s \<noteq> 0"
  shows "rearranged w (named_slots msg) s (SplitItem w msg s)"
  using split_message_rearranged [OF assms] .


theorem SplitItem_rearranges_witness:
  "rearranged sample_world {(1, 2), (1, 9)} sample_bank (SplitItem sample_world ''SplitItem:1:2:9:8'' sample_bank)"
proof -
  have "named_slots ''SplitItem:1:2:9:8'' = {(1, 2), (1, 9)}" "GetNewGuid sample_bank \<noteq> 0" by code_simp+
  then show ?thesis using SplitItem_rearranges [OF sample_bank_consistent, of "''SplitItem:1:2:9:8''"] by simp
qed

end
