(* ===== verification/Bank_Deposit_Props.thy ===== *)
theory Bank_Deposit_Props
  imports Bank_Move_Props Inventory_Store
begin

text \<open>
  Deposits into the bank: the auto-deposit of a stack ends, loses nothing and keeps the bank
  consistent.
\<close>

declare DepositItemInFreeSlot.simps [simp del] DepositItemInSlot.simps [simp del]

section \<open>One round of a deposit\<close>

text \<open>An item of the player that can be deposited: its prototype exists and its stack is not above its size.\<close>

definition depositable :: "world \<Rightarrow> item \<Rightarrow> bool" where
  "depositable w it =
     (case w_proto w (it_entry it) of
        None \<Rightarrow> False
      | Some proto \<Rightarrow> ip_ItemId proto = it_entry it \<and> it_count it \<le> GetMaxStackSize proto \<and>
          GetMaxStackSize proto < 0x80000000 \<and> (0 <s it_randomProp it \<longrightarrow> w_randprop w (it_randomProp it) \<noteq> None))"

lemma depositableD:
  assumes "depositable w it"
  shows "ip_ItemId (GetProto w it) = it_entry it" "it_count it \<le> GetMaxStackSize (GetProto w it)"
    "GetMaxStackSize (GetProto w it) < 0x80000000" "w_proto w (it_entry it) = Some (GetProto w it)"
    "0 <s it_randomProp it \<Longrightarrow> \<exists>rp. w_randprop w (it_randomProp it) = Some rp"
  using assms by (auto simp: depositable_def GetProto_def split: option.splits)

text \<open>What the copy of a player's item leaves alone of the bank item and what it sets.\<close>

lemma CloneItem_to_bank_Some:
  assumes "depositable w it"
  obtains b' where "CloneItem_to_bank w inferno it b = Some b'" "bi_guid b' = bi_guid b" "bi_guildid b' = bi_guildid b"
    "bi_tab b' = bi_tab b" "bi_slot b' = bi_slot b" "bi_count b' = bi_count b" "bi_state b' = bi_state b"
    "bi_is_inferno b' = inferno" "bi_item_template b' = it_entry it"
    "bi_maxStackSize b' = GetMaxStackSize (GetProto w it)"
proof -
  have "\<exists>b'. CloneItem_to_bank w inferno it b = Some b' \<and> bi_guid b' = bi_guid b \<and> bi_guildid b' = bi_guildid b \<and>
    bi_tab b' = bi_tab b \<and> bi_slot b' = bi_slot b \<and> bi_count b' = bi_count b \<and> bi_state b' = bi_state b \<and>
    bi_is_inferno b' = inferno \<and> bi_item_template b' = it_entry it \<and> bi_maxStackSize b' = GetMaxStackSize (GetProto w it)"
    using depositableD(1,5) [OF assms] by (auto simp: CloneItem_to_bank_def Let_def split: option.splits)
  then show thesis using that by blast
qed

text \<open>The effect of a deposit on the bank's stock.\<close>

definition deposited :: "world \<Rightarrow> (u32 \<times> u32) set \<Rightarrow> u32 \<Rightarrow> nat \<Rightarrow> bank \<Rightarrow> bank \<Rightarrow> bool" where
  "deposited w P e n s s' =
     (consistent w s' \<and> (\<forall>x. amount x (stock s') = amount x (stock s) + (if x = e then n else 0)) \<and>
      others_kept s s' P)"

lemma deposited_trans:
  assumes "deposited w P e n s s'" "deposited w Q e m s' s''"
  shows "deposited w (P \<union> Q) e (n + m) s s''"
  using assms by (auto simp: deposited_def others_kept_def)

lemma deposited_mono: "deposited w P e n s s' \<Longrightarrow> P \<subseteq> Q \<Longrightarrow> deposited w Q e n s s'"
  by (auto simp: deposited_def elim: others_kept_mono)

lemma deposited_cong:
  assumes "deposited w P e n s s'" "same_items s' s''" "gb_queue s'' = gb_queue s'" "t_bank (gb_db s'') = t_bank (gb_db s')"
  shows "deposited w P e n s s''"
  using assms consistent_cong [of w s' s''] same_items_stock [OF assms(2)]
  by (auto simp: deposited_def others_kept_def)

lemma deposited_SaveToDB: "deposited w P e n s s' \<Longrightarrow> deposited w P e n s (SaveToDB s')"
  by (simp add: deposited_def consistent_SaveToDB others_kept_def)

lemma deposited_end: "deposited w P e n s s' \<Longrightarrow> deposited w P e n s (deposit_end w q cnt s')"
  unfolding deposit_end_def Let_def
  by (intro deposited_SaveToDB, erule deposited_cong) (simp_all add: same_items_def)

lemma deposited_player: "deposited w P e n s (upd_player f s') \<longleftrightarrow> deposited w P e n s s'"
proof -
  have "same_items s' (upd_player f s')" "same_items (upd_player f s') s'"
    by (auto simp: same_items_def upd_player_def view_def fun_eq_iff)
  then show ?thesis
    using deposited_cong [of w P e n s s' "upd_player f s'"] deposited_cong [of w P e n s "upd_player f s'" s']
    by (auto simp: upd_player_def)
qed

text \<open>A new bank item at a free place.\<close>

lemma deposit_new:
  assumes c: "consistent w s" and it: "depositable w it" and free: "(t, j) \<notin> place ` set (stock s)"
    and range: "in_range (t, j)" and guid: "GetNewGuid s \<noteq> 0" and n: "n \<le> GetMaxStackSize (GetProto w it)"
    and tgt: "deposit_target t j n ITEM_NEW False s = Some (q, s1)"
  shows "\<exists>s2. deposit_fill w it ITEM_NEW q s1 = Some s2 \<and> deposited w {(t, j)} (it_entry it) (unat n) s s2"
proof -
  have q: "q = gb_next s" "gb_items s1 = gb_items s" "gb_next s1 = Suc q" "gb_inferno s1 = gb_inferno s"
    "gb_guildid s1 = gb_guildid s" "gb_queue s1 = gb_queue s" "gb_db s1 = gb_db s"
    "\<And>x. x \<noteq> q \<Longrightarrow> gb_heap s1 x = gb_heap s x" "bi_guid (gb_heap s1 q) = GetNewGuid s" "bi_guildid (gb_heap s1 q) = gb_guildid s"
    "bi_count (gb_heap s1 q) = n" "place (gb_heap s1 q) = (t, j)"
    using tgt by (auto simp: deposit_target_def new_bank_item_def upd_bank_item_def place_def Let_def)
  obtain b where b: "CloneItem_to_bank w (gb_inferno s1) it ((gb_heap s1 q)\<lparr>bi_state := ITEM_NEW\<rparr>) = Some b"
    "bi_guid b = GetNewGuid s" "bi_guildid b = gb_guildid s" "place b = (t, j)" "bi_count b = n" "bi_state b = ITEM_NEW"
    "bi_is_inferno b = gb_inferno s" "bi_item_template b = it_entry it" "bi_maxStackSize b = GetMaxStackSize (GetProto w it)"
    using CloneItem_to_bank_Some [OF it, of "gb_inferno s1" "(gb_heap s1 q)\<lparr>bi_state := ITEM_NEW\<rparr>"] q
    by (auto simp: place_def)
  define s2 where "s2 = AddItem q (push_queue q (upd_bank_item q (\<lambda>_. b) s1))"
  have fill: "deposit_fill w it ITEM_NEW q s1 = Some s2" using b(1) by (simp add: deposit_fill_def s2_def Let_def)
  have ok: "bank_inv s" "places_ok s" "stacks_ok w s" using c bank_ok_synced [of s] by (auto simp: consistent_def)
  have fresh: "q \<notin> set (gb_items s)" using ok(1) guids_okD(3) q(1) by (simp add: bank_inv_def)
  have vw: "view s2 = (view s)(q := b\<lparr>bi_state := ITEM_UNCHANGED\<rparr>)" using q(8) by (auto simp: s2_def view_def fun_eq_iff)
  have fr: "gb_items s2 = gb_items s @ [q]" "gb_next s2 = Suc q" "gb_guildid s2 = gb_guildid s" "gb_inferno s2 = gb_inferno s"
    "gb_queue s2 = gb_queue s @ [b]" "t_bank (gb_db s2) = t_bank (gb_db s)" using q by (simp_all add: s2_def)
  have inv: "bank_inv s2"
    by (rule bank_inv_new [OF ok(1) q(1) fr(1-4) vw fr(5,6) b(6) _ b(2) guid]) (simp add: owned_def b)
  have stock: "stock s2 = stock s @ [b\<lparr>bi_state := ITEM_UNCHANGED\<rparr>]" using fresh fr(1) vw by (simp add: stock_def)
  have "place (view s2 x) = (if x = q then (t, j) else place (view s x))" for x
    using b(4) vw by (simp add: place_def)
  then have "places_ok s2"
    using ok(2) fr(1) free range fresh by (auto simp: places_ok_def inj_on_def stock_def image_iff)
  moreover have "stack_ok w b" using depositableD [OF it] b n by (simp add: stack_ok_def)
  then have "stacks_ok w s2" using ok(3) by (simp add: stacks_ok_def stock)
  moreover have "others_kept s s2 {(t, j)}" using b(4) by (auto simp: others_kept_def stock place_def)
  ultimately have "deposited w {(t, j)} (it_entry it) (unat n) s s2"
    using inv bank_ok_synced [of s2] b by (simp add: deposited_def consistent_def stock)
  then show ?thesis using fill by blast
qed


text \<open>More items on the stack at a place.\<close>

lemma deposit_stack:
  assumes c: "consistent w s" and it: "depositable w it" and at: "GetItem s t j = Some q"
    and same: "bi_item_template (gb_heap s q) = it_entry it" and n: "unat (bi_count (gb_heap s q)) + unat n \<le> unat (bi_maxStackSize (gb_heap s q))"
    and tgt: "deposit_target t j n ITEM_CHANGED True s = Some (q', s1)"
  shows "\<exists>s2. deposit_fill w it ITEM_CHANGED q' s1 = Some s2 \<and> deposited w {(t, j)} (it_entry it) (unat n) s s2 \<and>
    GetNewGuid s2 = GetNewGuid s"
proof -
  have q: "q' = q" "s1 = upd_bank_item q (\<lambda>b. b\<lparr>bi_count := bi_count b + n\<rparr>) s"
    using tgt at by (auto simp: deposit_target_def)
  have ok: "bank_inv s" "places_ok s" "stacks_ok w s" using c bank_ok_synced [of s] by (auto simp: consistent_def)
  have in_s: "q \<in> set (gb_items s)" "place (view s q) = (t, j)" using GetItem_Some [OF at] by simp_all
  have own: "owned s (view s q)" using ok(1) in_s guids_okD(4) by (auto simp: bank_inv_def)
  have st: "stack_ok w (gb_heap s q)" using stacks_okD [OF ok(3) in_s(1)] .
  have sum: "unat (bi_count (gb_heap s q) + n) = unat (bi_count (gb_heap s q)) + unat n"
    using n stack_ok_bounds [OF st] by (intro unat_plus_small) simp
  obtain b where b: "CloneItem_to_bank w (gb_inferno s1) it ((gb_heap s1 q)\<lparr>bi_state := ITEM_CHANGED\<rparr>) = Some b"
    "bi_guid b = bi_guid (gb_heap s q)" "bi_guildid b = bi_guildid (gb_heap s q)" "place b = place (view s q)"
    "bi_count b = bi_count (gb_heap s q) + n" "bi_state b = ITEM_CHANGED"
    "bi_is_inferno b = gb_inferno s" "bi_item_template b = it_entry it" "bi_maxStackSize b = GetMaxStackSize (GetProto w it)"
    using CloneItem_to_bank_Some [OF it, of "gb_inferno s1" "(gb_heap s1 q)\<lparr>bi_state := ITEM_CHANGED\<rparr>"] q
    by (auto simp: place_def)
  define s2 where "s2 = push_queue q (upd_bank_item q (\<lambda>_. b) s1)"
  have fill: "deposit_fill w it ITEM_CHANGED q' s1 = Some s2" using b(1) q(1) by (simp add: deposit_fill_def s2_def Let_def)
  have vw: "view s2 = (view s)(q := b\<lparr>bi_state := ITEM_UNCHANGED\<rparr>)" by (simp add: s2_def q(2) fun_eq_iff)
  have fr: "gb_items s2 = gb_items s" "gb_next s2 = gb_next s" "gb_guildid s2 = gb_guildid s" "gb_inferno s2 = gb_inferno s"
    "gb_queue s2 = gb_queue s @ [b]" "t_bank (gb_db s2) = t_bank (gb_db s)" by (simp_all add: s2_def q(2))
  have inv: "bank_inv s2"
    by (rule bank_inv_changed [OF ok(1) in_s(1) fr(1-4) vw fr(5,6) b(6) _ b(2)]) (use own b in \<open>simp add: owned_def\<close>)
  have "(\<lambda>x. place (view s2 x)) = (\<lambda>x. place (view s x))" using b(4) vw by (simp add: fun_eq_iff place_def)
  then have "places_ok s2" using ok(2) fr(1) by (intro places_ok_fun) (auto simp: places_ok_def)
  moreover have max: "bi_maxStackSize (gb_heap s q) = GetMaxStackSize (GetProto w it)"
    using st same depositableD(4) [OF it] by (simp add: stack_ok_def)
  have "stack_ok w b" using depositableD [OF it] b n sum max by (simp add: stack_ok_def word_le_nat_alt)
  then have "stacks_ok w s2" using vw fr(1) by (intro stacks_ok_view [OF ok(3)]) (simp_all)
  moreover have "others_kept s s2 {(t, j)}"
    by (rule others_kept_view [of _ _ "{q}"]) (use vw fr(1) b(4) in_s in \<open>auto simp: place_def\<close>)
  moreover have "amount x (stock s2) = amount x (stock s) + (if x = it_entry it then unat n else 0)" for x
    using amount_view_upd [OF guids_okD(1) in_s(1), of x "view s" "b\<lparr>bi_state := ITEM_UNCHANGED\<rparr>"] ok(1) sum same b vw fr(1)
    by (simp add: bank_inv_def stock_def split: if_splits)
  ultimately have "deposited w {(t, j)} (it_entry it) (unat n) s s2"
    using inv bank_ok_synced [of s2] by (simp add: deposited_def consistent_def)
  moreover have "GetNewGuid s2 = GetNewGuid s"
    using fr(1) b(2) by (intro GetNewGuid_cong) (simp_all add: s2_def q(2))
  ultimately show ?thesis using fill by blast
qed

section \<open>Auto-deposit\<close>

lemma find_stack_Some:
  "find_stack s t k is = Some (i, b) \<Longrightarrow>
   \<exists>n q. n \<in> set is \<and> i = of_nat n \<and> GetItem s t i = Some q \<and> b = gb_heap s q \<and> bi_item_template b = k \<and> bi_count b < bi_maxStackSize b"
proof (induction s t k "is" rule: find_stack.induct)
  case (2 s t k n ns)
  then show ?case by (auto simp: Let_def split: option.splits if_splits) (meson)+
qed simp

lemma find_stack_None:
  "find_stack s t k is = None \<Longrightarrow> n \<in> set is \<Longrightarrow> GetItem s t (of_nat n) = Some q \<Longrightarrow>
   bi_item_template (gb_heap s q) = k \<Longrightarrow> \<not> bi_count (gb_heap s q) < bi_maxStackSize (gb_heap s q)"
  by (induction s t k "is" rule: find_stack.induct) (auto simp: Let_def split: option.splits if_splits)

text \<open>A tab in which neither a stack of the entry nor a slot has room.\<close>

definition tab_full :: "bank \<Rightarrow> u32 \<Rightarrow> u32 \<Rightarrow> bool" where
  "tab_full s t e =
     (\<forall>n \<in> {1..98}. \<exists>b \<in> set (stock s). place b = (t, of_nat n) \<and>
        (bi_item_template b = e \<and> bi_maxStackSize b > 1 \<longrightarrow> \<not> bi_count b < bi_maxStackSize b))"

definition tab_places :: "u32 \<Rightarrow> (u32 \<times> u32) set" where
  "tab_places t = {x. fst x = t}"

lemma slot_in_range: "1 \<le> t \<Longrightarrow> t \<le> 5 \<Longrightarrow> n \<in> set [1..<Suc BANK_TAB_SIZE] \<Longrightarrow> in_range (t, of_nat n)"
proof -
  assume "1 \<le> t" "t \<le> 5" "n \<in> set [1..<Suc BANK_TAB_SIZE]"
  moreover from this have "unat (of_nat n :: u32) = n" by (simp add: unat_of_nat)
  ultimately show ?thesis by (simp add: in_range_def word_le_nat_alt)
qed

text \<open>What the rounds do to the player: the stack is gone or has a lower count.\<close>

lemma GetBagSlot_place:
  assumes "pl_ok pl" "items_at pl x = Some p"
  shows "GetBagSlot pl (pl_heap pl p) = fst x" "it_slot (pl_heap pl p) = snd x"
proof -
  have knows: "knows_place pl x p" using pl_okD(3) [OF assms] .
  then show "it_slot (pl_heap pl p) = snd x" by (simp add: knows_place_def)
  show "GetBagSlot pl (pl_heap pl p) = fst x"
  proof (cases "fst x = INVENTORY_SLOT_BAG_0")
    case True
    then show ?thesis using knows by (simp add: GetBagSlot_def knows_place_def)
  next
    case False
    then have bi: "bag_index (fst x)" using assms(2) by (cases x) (auto simp: items_at_cases split: if_splits)
    then obtain pBag where pb: "pl_items pl ! unat (fst x) = Some pBag"
      using assms(2) False by (cases x) (auto simp: items_at_cases split: option.splits)
    then have "knows_place pl (INVENTORY_SLOT_BAG_0, fst x) pBag"
      using pl_okD(3) [OF assms(1)] bag_at_own_slot [OF bi] by metis
    then show ?thesis using knows pb False by (simp add: GetBagSlot_def knows_place_def)
  qed
qed

lemma SetState_randomProp [simp]: "it_randomProp (pl_heap (SetState p st f pl) x) = it_randomProp (pl_heap pl x)"
  by (simp add: SetState_def RemoveFromUpdateQueueOf_def AddToUpdateQueueOf_def delete_item_def upd_item_def Let_def)

lemma set_player_count_refines:
  assumes "pl_ok pl" "items_at pl x = Some p"
  shows "pl_ok (set_player_count p n pl)" "items_at (set_player_count p n pl) = items_at pl"
    "stacks (set_player_count p n pl) = (stacks pl)(x := Some (it_entry (pl_heap pl p), n))"
    "it_entry (pl_heap (set_player_count p n pl) p) = it_entry (pl_heap pl p)"
    "it_randomProp (pl_heap (set_player_count p n pl) p) = it_randomProp (pl_heap pl p)"
proof -
  define pl1 where "pl1 = upd_item p (\<lambda>it. it\<lparr>it_count := n\<rparr>) pl"
  have shape: "same_shape pl1 (set_player_count p n pl)" by (simp add: set_player_count_def pl1_def)
  note frame = set_count_frame [OF pl1_def] add_count_refines [OF assms pl1_def]
  show "pl_ok (set_player_count p n pl)" "items_at (set_player_count p n pl) = items_at pl"
    "stacks (set_player_count p n pl) = (stacks pl)(x := Some (it_entry (pl_heap pl p), n))"
    using same_shape_ok [OF shape] same_shape_items [OF shape] same_shape_stacks [OF shape] frame assms(1) by simp_all
  show "it_entry (pl_heap (set_player_count p n pl) p) = it_entry (pl_heap pl p)"
    using shape by (simp add: same_shape_def same_body_def pl1_def upd_item_def)
  show "it_randomProp (pl_heap (set_player_count p n pl) p) = it_randomProp (pl_heap pl p)"
    by (simp add: set_player_count_def event_def upd_item_def)
qed

lemma deposit_end_player [simp]: "gb_player (deposit_end w q n s) = gb_player s"
  by (simp add: deposit_end_def Let_def message_defs)

lemma stock_deposit_end [simp]: "stock (deposit_end w q n s) = stock s"
  by (simp add: deposit_end_def Let_def message_defs stock_def view_def)

text \<open>The outcome of an auto-deposit of a stack: all of it, or as much as the tab has room for.\<close>

definition deposit_outcome :: "world \<Rightarrow> u32 \<Rightarrow> place \<Rightarrow> u32 \<Rightarrow> u32 \<Rightarrow> bank \<Rightarrow> bank \<Rightarrow> bool" where
  "deposit_outcome w t x e c s s' =
     (\<exists>n \<le> unat c. deposited w (tab_places t) e n s s' \<and> pl_ok (gb_player s') \<and>
        (if n = unat c then stacks (gb_player s') = (stacks (gb_player s))(x := None)
         else tab_full s' t e \<and> stacks (gb_player s') = (stacks (gb_player s))(x := Some (e, c - of_nat n))))"

lemma deposit_whole:
  assumes dep: "deposited w P e (unat c) s s2" "P \<subseteq> tab_places t"
    and pl: "gb_player s2 = gb_player s" "pl_ok (gb_player s)" "items_at (gb_player s) x = Some p" "\<not> IsBagPos (fst x) (snd x)"
    and it: "it = pl_heap (gb_player s2) p"
  shows "deposit_outcome w t x e c s (deposit_end w q c
    (upd_player (\<lambda>pl. Item_Storage.DestroyItem w (GetBagSlot pl it) (it_slot it) True pl) s2))"
proof -
  let ?s' = "deposit_end w q c (upd_player (\<lambda>pl. Item_Storage.DestroyItem w (GetBagSlot pl it) (it_slot it) True pl) s2)"
  have place: "GetBagSlot (gb_player s2) it = fst x" "it_slot it = snd x"
    using GetBagSlot_place [OF pl(2, 3)] pl(1) it by simp_all
  have "deposited w (tab_places t) e (unat c) s ?s'"
    using deposited_end deposited_player deposited_mono [OF dep] by blast
  moreover have "pl_ok (gb_player ?s') \<and> stacks (gb_player ?s') = (stacks (gb_player s))(x := None)"
    using DestroyItem_stacks [OF pl(2), of "fst x" "snd x" p w True] pl place by (simp add: upd_player_def)
  ultimately show ?thesis unfolding deposit_outcome_def by auto
qed

lemma deposit_part:
  assumes dep: "deposited w P e n s s2" "P \<subseteq> tab_places t" and n: "n < unat c"
    and pl: "stacks (gb_player s3) = (stacks (gb_player s))(x := Some (e, c - of_nat n))"
    and rest: "deposit_outcome w t x e (c - of_nat n) s3 s4" and same: "deposited w {} e 0 s2 s3"
  shows "deposit_outcome w t x e c s (deposit_end w q c' s4)"
proof -
  have small: "unat (of_nat n :: u32) = n" using n unat_less_2p [of c] by (simp add: unat_of_nat)
  have left: "unat (c - of_nat n) = unat c - n"
    using n small by (simp add: unat_sub word_le_nat_alt)
  obtain m where m: "m \<le> unat c - n" "deposited w (tab_places t) e m s3 s4" "pl_ok (gb_player s4)"
    "if m = unat c - n then stacks (gb_player s4) = (stacks (gb_player s3))(x := None)
     else tab_full s4 t e \<and> stacks (gb_player s4) = (stacks (gb_player s3))(x := Some (e, c - of_nat n - of_nat m))"
    using rest left by (auto simp: deposit_outcome_def)
  have "deposited w (tab_places t) e (n + m) s s4"
    using deposited_mono [OF deposited_trans [OF deposited_trans [OF dep(1) same] m(2)]] dep(2) by simp
  then have "deposited w (tab_places t) e (n + m) s (deposit_end w q c' s4)" by (rule deposited_end)
  then show ?thesis
    unfolding deposit_outcome_def using m n pl
    by (intro exI [of _ "n + m"]) (auto simp: tab_full_def algebra_simps split: if_splits)
qed

text \<open>One round that stacks, one that uses a free slot, and no round at all.\<close>

lemma deposit_round_stack:
  assumes c: "consistent w s" and it: "it = pl_heap (gb_player s) p" "depositable w it"
    and at: "GetItem s t i = Some b" "bi_item_template (gb_heap s b) = it_entry it"
    and n: "unat (bi_count (gb_heap s b)) + unat n \<le> unat (bi_maxStackSize (gb_heap s b))"
  shows "\<exists>q s2. deposited w {(t, i)} (it_entry it) (unat n) s s2 \<and> GetNewGuid s2 = GetNewGuid s \<and>
    gb_player s2 = gb_player s \<and>
    DepositItemInSlot w t i p n r ITEM_CHANGED True s =
       (if r = 0
        then if n = it_count it
             then Some (deposit_end w q n (upd_player (\<lambda>pl. Item_Storage.DestroyItem w (GetBagSlot pl it) (it_slot it) True pl) s2))
             else Some (deposit_end w q n (upd_player (set_player_count p (it_count it - n)) s2))
        else map_option (deposit_end w q n)
               (DepositItemInFreeSlot w t p (upd_player (set_player_count p (it_count it - n)) s2)))"
proof -
  obtain s1 where tgt: "deposit_target t i n ITEM_CHANGED True s = Some (b, s1)"
    using at(1) by (simp add: deposit_target_def)
  obtain s2 where s2: "deposit_fill w it ITEM_CHANGED b s1 = Some s2" "deposited w {(t, i)} (it_entry it) (unat n) s s2"
    "GetNewGuid s2 = GetNewGuid s"
    using deposit_stack [OF c it(2) at n tgt] by blast
  have pl: "gb_player s1 = gb_player s" "gb_player s2 = gb_player s"
    using deposit_target_player [OF tgt] deposit_fill_player [OF s2(1)] by simp_all
  show ?thesis
    by (intro exI [of _ b] exI [of _ s2] conjI s2(2, 3) pl(2))
       (simp add: DepositItemInSlot.simps tgt s2(1) pl it(1) [symmetric] Let_def map_option_case split: option.split)
qed

lemma deposit_round_new:
  assumes c: "consistent w s" and it: "it = pl_heap (gb_player s) p" "depositable w it"
    and at: "GetItem s t i = None" "in_range (t, i)" "GetNewGuid s \<noteq> 0"
  obtains q s2 where "deposited w {(t, i)} (it_entry it) (unat (it_count it)) s s2" "gb_player s2 = gb_player s"
    "DepositItemInSlot w t i p (it_count it) 0 ITEM_NEW False s =
       Some (deposit_end w q (it_count it) (upd_player (\<lambda>pl. Item_Storage.DestroyItem w (GetBagSlot pl it) (it_slot it) True pl) s2))"
proof -
  obtain q s1 where tgt: "deposit_target t i (it_count it) ITEM_NEW False s = Some (q, s1)"
    by (simp add: deposit_target_def case_prod_beta)
  obtain s2 where s2: "deposit_fill w it ITEM_NEW q s1 = Some s2"
    "deposited w {(t, i)} (it_entry it) (unat (it_count it)) s s2"
    using deposit_new [OF c it(2) _ at(2, 3) depositableD(2) [OF it(2)] tgt] at(1) by (auto simp: GetItem_None)
  have pl: "gb_player s1 = gb_player s" "gb_player s2 = gb_player s"
    using deposit_target_player [OF tgt] deposit_fill_player [OF s2(1)] by simp_all
  show thesis
    by (rule that [OF s2(2) pl(2), of q])
       (simp add: DepositItemInSlot.simps tgt s2(1) pl it(1) [symmetric] Let_def)
qed

lemma no_room_tab_full:
  assumes "find (\<lambda>i. GetItem s t (of_nat i) = None) [1..<Suc BANK_TAB_SIZE] = None"
    "GetMaxStackSize proto > 1 \<Longrightarrow> find_stack s t e [1..<Suc BANK_TAB_SIZE] = None"
    "consistent w s" "w_proto w e = Some proto"
  shows "tab_full s t e"
proof -
  have "\<exists>b \<in> set (stock s). place b = (t, of_nat n) \<and>
      (bi_item_template b = e \<and> bi_maxStackSize b > 1 \<longrightarrow> \<not> bi_count b < bi_maxStackSize b)" if n: "n \<in> {1..98}" for n
  proof -
    have in_list: "n \<in> set [1..<Suc BANK_TAB_SIZE]" using n by auto
    then obtain q where q: "GetItem s t (of_nat n) = Some q" using assms(1) by (auto simp: find_None_iff)
    then have at: "q \<in> set (gb_items s)" "place (view s q) = (t, of_nat n)" using GetItem_Some by blast+
    have "bi_maxStackSize (gb_heap s q) = GetMaxStackSize proto" if "bi_item_template (gb_heap s q) = e"
      using assms(3, 4) stacks_okD [of w s q] at(1) that by (auto simp: consistent_def stack_ok_def)
    then have "bi_item_template (view s q) = e \<and> bi_maxStackSize (view s q) > 1 \<longrightarrow> \<not> bi_count (view s q) < bi_maxStackSize (view s q)"
      using assms(2) find_stack_None [where k = e, OF _ in_list q] by auto
    then show ?thesis using at by (force simp: stock_def)
  qed
  then show ?thesis by (simp add: tab_full_def)
qed

lemma taken_count:
  fixes n b m :: u32
  assumes "b < m" "\<not> n + b \<le> m" "unat n < 2 ^ 31" "unat m < 2 ^ 31"
  shows "unat (m - b) = unat m - unat b" "unat (m - b) < unat n" "m - b \<noteq> 0"
proof -
  show u: "unat (m - b) = unat m - unat b" using assms(1) by (simp add: unat_sub order_less_imp_le)
  have "unat (n + b) = unat n + unat b" using assms by (intro unat_plus_small) (simp add: word_less_nat_alt)
  then show "unat (m - b) < unat n" using assms(1, 2) u by (simp add: word_less_nat_alt word_le_nat_alt)
  show "m - b \<noteq> 0" using assms(1) by auto
qed

lemma deposit_none:
  assumes "consistent w s" "pl_ok (gb_player s)" "items_at (gb_player s) x = Some p"
    "it_count (pl_heap (gb_player s) p) \<noteq> 0" "tab_full s t (it_entry (pl_heap (gb_player s) p))"
  shows "deposit_outcome w t x (it_entry (pl_heap (gb_player s) p)) (it_count (pl_heap (gb_player s) p)) s
    (SendAddonMessage m (SendNotification m' s))"
proof -
  let ?s' = "SendAddonMessage m (SendNotification m' s)" and ?e = "it_entry (pl_heap (gb_player s) p)"
  have out: "out_only s ?s'" by simp
  have frame: "stock ?s' = stock s" "gb_player ?s' = gb_player s" by (simp_all add: message_defs stock_def view_def)
  have "deposited w (tab_places t) ?e 0 s ?s'"
    using consistent_out_only [OF assms(1) out] frame(1) by (simp add: deposited_def others_kept_stock)
  moreover have "stacks (gb_player s) x = Some (?e, it_count (pl_heap (gb_player s) p))"
    using assms(3) by (simp add: stacks_def)
  ultimately show ?thesis
    unfolding deposit_outcome_def using assms(2, 4, 5) frame
    by (intro exI [of _ 0]) (auto simp: tab_full_def fun_upd_idem unat_eq_0)
qed

text \<open>
  What an auto-deposit starts from: a consistent bank with a tab and a fresh guid, and a stack of the
  player at a place.
\<close>

definition deposit_ready :: "world \<Rightarrow> place \<Rightarrow> ptr \<Rightarrow> bank \<Rightarrow> bool" where
  "deposit_ready w x p s =
     (consistent w s \<and> GetNewGuid s \<noteq> 0 \<and> pl_ok (gb_player s) \<and> items_at (gb_player s) x = Some p \<and>
      \<not> IsBagPos (fst x) (snd x) \<and> depositable w (pl_heap (gb_player s) p) \<and> it_count (pl_heap (gb_player s) p) \<noteq> 0)"

lemma deposit_ready_less:
  assumes ready: "deposit_ready w x p s" and it: "it = pl_heap (gb_player s) p" and n: "unat n < unat (it_count it)"
    and s2: "deposited w P e m s s2" "GetNewGuid s2 = GetNewGuid s" "gb_player s2 = gb_player s"
    and s3: "s3 = upd_player (set_player_count p (it_count it - n)) s2"
  shows "deposit_ready w x p s3" "it_entry (pl_heap (gb_player s3) p) = it_entry it"
    "it_count (pl_heap (gb_player s3) p) = it_count it - n" "unat (it_count it - n) = unat (it_count it) - unat n"
    "stacks (gb_player s3) = (stacks (gb_player s))(x := Some (it_entry it, it_count it - n))" "deposited w {} e 0 s2 s3"
proof -
  have r: "consistent w s" "GetNewGuid s \<noteq> 0" "pl_ok (gb_player s)" "items_at (gb_player s) x = Some p"
    "\<not> IsBagPos (fst x) (snd x)" "depositable w it"
    using ready it by (simp_all add: deposit_ready_def)
  note cnt = set_player_count_refines [OF r(3, 4), of "it_count it - n"]
  have pl3: "gb_player s3 = set_player_count p (it_count it - n) (gb_player s)" using s2(3) by (simp add: s3 upd_player_def)
  show it3: "it_entry (pl_heap (gb_player s3) p) = it_entry it" "it_count (pl_heap (gb_player s3) p) = it_count it - n"
    using cnt(4) by (simp_all add: pl3 it)
  show smaller: "unat (it_count it - n) = unat (it_count it) - unat n" using n by (simp add: unat_sub word_le_nat_alt)
  have "depositable w (pl_heap (gb_player s3) p)"
    using r(6) it3 cnt(5) smaller pl3 unfolding depositable_def
    by (auto simp: word_le_nat_alt it split: option.splits)
  moreover show "stacks (gb_player s3) = (stacks (gb_player s))(x := Some (it_entry it, it_count it - n))"
    using cnt(3) pl3 it by simp
  moreover have "consistent w s2" using s2(1) by (simp add: deposited_def)
  then show "deposited w {} e 0 s2 s3"
    unfolding s3 deposited_player by (simp add: deposited_def)
  moreover have "GetNewGuid s3 \<noteq> 0" using s2(2) r(2) by (simp add: s3 upd_player_def GetNewGuid_def)
  moreover have "it_count it - n \<noteq> 0" using n by auto
  ultimately show "deposit_ready w x p s3"
    using r cnt(1, 2) it3 by (simp add: deposit_ready_def pl3 [symmetric] deposited_def)
qed

lemma deposit_more:
  assumes ready: "deposit_ready w x p s" and it: "it = pl_heap (gb_player s) p"
    and q: "GetItem s t i = Some q" "b = gb_heap s q" "bi_item_template b = it_entry it" "bi_count b < bi_maxStackSize b"
    and more: "\<not> it_count it + bi_count b \<le> bi_maxStackSize b" "n = bi_maxStackSize b - bi_count b"
    and again: "\<And>s3. deposit_ready w x p s3 \<Longrightarrow> unat (it_count (pl_heap (gb_player s3) p)) < unat (it_count it) \<Longrightarrow>
      \<exists>s'. DepositItemInFreeSlot w t p s3 = Some s' \<and>
        deposit_outcome w t x (it_entry (pl_heap (gb_player s3) p)) (it_count (pl_heap (gb_player s3) p)) s3 s'"
  shows "\<exists>s'. DepositItemInSlot w t i p n (it_count it - n) ITEM_CHANGED True s = Some s' \<and>
    deposit_outcome w t x (it_entry it) (it_count it) s s'"
proof -
  have c: "consistent w s" and d: "depositable w it" using ready it by (simp_all add: deposit_ready_def)
  have "stack_ok w b" using c GetItem_Some [OF q(1)] q(2) stacks_okD by (auto simp: consistent_def)
  then have "unat (it_count it) < 2 ^ 31" "unat (bi_maxStackSize b) < 2 ^ 31"
    using depositableD(2, 3) [OF d] stack_ok_bounds by (auto simp: word_le_nat_alt word_less_nat_alt)
  note taken = taken_count [OF q(4) more(1) this, folded more(2)]
  have fit: "unat (bi_count b) + unat n \<le> unat (bi_maxStackSize b)" using taken(1) q(4) by (simp add: word_less_nat_alt)
  have rem: "it_count it - n \<noteq> 0" using taken(2) by auto
  obtain b' s2 where s2: "deposited w {(t, i)} (it_entry it) (unat n) s s2" "GetNewGuid s2 = GetNewGuid s"
    "gb_player s2 = gb_player s"
    "DepositItemInSlot w t i p n (it_count it - n) ITEM_CHANGED True s =
      map_option (deposit_end w b' n) (DepositItemInFreeSlot w t p (upd_player (set_player_count p (it_count it - n)) s2))"
    using deposit_round_stack [OF c it d q(1) q(3) [unfolded q(2)] fit [unfolded q(2)], of "it_count it - n"] rem by auto
  define s3 where "s3 = upd_player (set_player_count p (it_count it - n)) s2"
  note left = deposit_ready_less [OF ready it taken(2) s2(1-3) s3_def]
  have "0 < unat n" using taken(3) by (simp add: unat_gt_0)
  then obtain s4 where s4: "DepositItemInFreeSlot w t p s3 = Some s4"
    "deposit_outcome w t x (it_entry it) (it_count it - n) s3 s4"
    using again [OF left(1)] left(2-4) taken(2) by auto
  have "deposit_outcome w t x (it_entry it) (it_count it) s (deposit_end w b' n s4)"
    by (rule deposit_part [OF s2(1) _ taken(2) _ _ left(6)]) (use s4(2) left(5) in \<open>simp_all add: tab_places_def\<close>)
  then show ?thesis using s2(4) s4(1) by (simp add: s3_def)
qed

lemma deposit_whole_stack:
  assumes ready: "deposit_ready w x p s" and it: "it = pl_heap (gb_player s) p"
    and q: "GetItem s t i = Some q" "b = gb_heap s q" "bi_item_template b = it_entry it" "bi_count b < bi_maxStackSize b"
    and fits: "it_count it + bi_count b \<le> bi_maxStackSize b"
  shows "\<exists>s'. DepositItemInSlot w t i p (it_count it) 0 ITEM_CHANGED True s = Some s' \<and>
    deposit_outcome w t x (it_entry it) (it_count it) s s'"
proof -
  have c: "consistent w s" and d: "depositable w it" using ready it by (simp_all add: deposit_ready_def)
  have "stack_ok w b" using c GetItem_Some [OF q(1)] q(2) stacks_okD by (auto simp: consistent_def)
  then have "unat (it_count it) < 2 ^ 31" "unat (bi_maxStackSize b) < 2 ^ 31"
    using depositableD(2, 3) [OF d] stack_ok_bounds by (auto simp: word_le_nat_alt word_less_nat_alt)
  then have "unat (it_count it + bi_count b) = unat (it_count it) + unat (bi_count b)"
    using q(4) by (intro unat_plus_small) (simp add: word_less_nat_alt)
  then have fit: "unat (bi_count b) + unat (it_count it) \<le> unat (bi_maxStackSize b)" using fits by (simp add: word_le_nat_alt)
  obtain b' s2 where s2: "deposited w {(t, i)} (it_entry it) (unat (it_count it)) s s2"
    "gb_player s2 = gb_player s" "DepositItemInSlot w t i p (it_count it) 0 ITEM_CHANGED True s =
      Some (deposit_end w b' (it_count it) (upd_player (\<lambda>pl. Item_Storage.DestroyItem w (GetBagSlot pl it) (it_slot it) True pl) s2))"
    using deposit_round_stack [OF c it d q(1) q(3) [unfolded q(2)] fit [unfolded q(2)], of 0] by auto
  have "{(t, i)} \<subseteq> tab_places t" by (simp add: tab_places_def)
  from deposit_whole [OF s2(1) this s2(2)] show ?thesis
    using ready s2 it by (simp add: deposit_ready_def)
qed

lemma deposit_free_slot:
  assumes ready: "deposit_ready w x p s" and it: "it = pl_heap (gb_player s) p" and t: "1 \<le> t" "t \<le> 5"
    and free: "find (\<lambda>i. GetItem s t (of_nat i) = None) [1..<Suc BANK_TAB_SIZE] = Some n"
  shows "\<exists>s'. DepositItemInSlot w t (of_nat n) p (it_count it) 0 ITEM_NEW False s = Some s' \<and>
    deposit_outcome w t x (it_entry it) (it_count it) s s'"
proof -
  have r: "consistent w s" "depositable w it" "GetNewGuid s \<noteq> 0" using ready it by (simp_all add: deposit_ready_def)
  obtain j where "n = [1..<Suc BANK_TAB_SIZE] ! j" "j < length [1..<Suc BANK_TAB_SIZE]" "GetItem s t (of_nat n) = None"
    using free unfolding find_Some_iff by blast
  then have at: "GetItem s t (of_nat n) = None" "in_range (t, of_nat n)"
    using slot_in_range [OF t] nth_mem by blast+
  obtain b' s2 where s2: "deposited w {(t, of_nat n)} (it_entry it) (unat (it_count it)) s s2" "gb_player s2 = gb_player s"
    "DepositItemInSlot w t (of_nat n) p (it_count it) 0 ITEM_NEW False s =
      Some (deposit_end w b' (it_count it) (upd_player (\<lambda>pl. Item_Storage.DestroyItem w (GetBagSlot pl it) (it_slot it) True pl) s2))"
    using deposit_round_new [OF r(1) it r(2) at r(3)] by blast
  have "{(t, of_nat n)} \<subseteq> tab_places t" by (simp add: tab_places_def)
  from deposit_whole [OF s2(1) this s2(2)] show ?thesis
    using ready s2 it by (simp add: deposit_ready_def)
qed

lemma deposit_auto:
  assumes "deposit_ready w x p s" "1 \<le> t" "t \<le> 5"
  shows "\<exists>s'. DepositItemInFreeSlot w t p s = Some s' \<and>
    deposit_outcome w t x (it_entry (pl_heap (gb_player s) p)) (it_count (pl_heap (gb_player s) p)) s s'"
  using assms
proof (induction "unat (it_count (pl_heap (gb_player s) p))" arbitrary: s rule: less_induct)
  case less
  define it where "it = pl_heap (gb_player s) p"
  define proto where "proto = GetProto w it"
  have r: "consistent w s" "depositable w it" "pl_ok (gb_player s)" "items_at (gb_player s) x = Some p" "it_count it \<noteq> 0"
    using less.prems(1) by (simp_all add: deposit_ready_def it_def)
  let ?stack = "if GetMaxStackSize proto > 1 then find_stack s t (ip_ItemId proto) [1..<Suc BANK_TAB_SIZE] else None"
  note unfold = DepositItemInFreeSlot.simps [of w t p s, folded it_def, unfolded Let_def, folded proto_def]
  note ready = less.prems(1) it_def and dep = depositableD [OF r(2)]
  show ?case
  proof (cases ?stack)
    case (Some ib)
    obtain i b where ib: "ib = (i, b)" by (cases ib)
    then have "find_stack s t (it_entry it) [1..<Suc BANK_TAB_SIZE] = Some (i, b)"
      using Some dep(1) by (simp add: proto_def split: if_splits)
    from find_stack_Some [OF this] obtain q where q: "GetItem s t i = Some q" "b = gb_heap s q"
      "bi_item_template b = it_entry it" "bi_count b < bi_maxStackSize b" by blast
    show ?thesis
    proof (cases "it_count it + bi_count b \<le> bi_maxStackSize b")
      case True
      then show ?thesis using unfold Some ib deposit_whole_stack [OF ready q True] by (simp add: it_def)
    next
      case False
      then show ?thesis
        using unfold Some ib deposit_more [OF ready q False refl] less.hyps less.prems(2, 3) by (simp add: it_def)
    qed
  next
    case no_stack: None
    show ?thesis
    proof (cases "find (\<lambda>i. GetItem s t (of_nat i) = None) [1..<Suc BANK_TAB_SIZE]")
      case (Some n)
      then show ?thesis
        using unfold no_stack deposit_free_slot [OF ready less.prems(2, 3) Some] by (simp add: it_def)
    next
      case None
      have "tab_full s t (it_entry it)"
        using no_room_tab_full [OF None _ r(1) dep(4)] no_stack dep(1) by (auto simp: proto_def split: if_splits)
      then show ?thesis
        using unfold no_stack None deposit_none [OF r(1, 3, 4)] r(5) by (simp add: it_def)
    qed
  qed
qed

section \<open>Conservation\<close>

text \<open>What the bank and the player hold together of an entry.\<close>

definition holdings :: "u32 \<Rightarrow> bank \<Rightarrow> nat" where
  "holdings e s = amount e (stock s) + carried e (stacks (gb_player s))"

lemma holdings_cong: "stock s' = stock s \<Longrightarrow> gb_player s' = gb_player s \<Longrightarrow> holdings e s' = holdings e s"
  by (simp add: holdings_def)

lemma holdings_out_only: "out_only s s' \<Longrightarrow> holdings e s' = holdings e s"
  using same_items_stock [OF out_only_same_items] by (auto simp: out_only_def holdings_def)

lemma deposit_holdings:
  assumes out: "deposit_outcome w t x e c s s'" and at: "stacks (gb_player s) x = Some (e, c)"
  shows "consistent w s' \<and> pl_ok (gb_player s') \<and> holdings e' s' = holdings e' s"
proof -
  obtain n where n: "n \<le> unat c" "deposited w (tab_places t) e n s s'" "pl_ok (gb_player s')"
    "if n = unat c then stacks (gb_player s') = (stacks (gb_player s))(x := None)
     else tab_full s' t e \<and> stacks (gb_player s') = (stacks (gb_player s))(x := Some (e, c - of_nat n))"
    using out by (auto simp: deposit_outcome_def)
  have "unat (of_nat n :: u32) = n" using n(1) unat_less_2p [of c] by (simp add: unat_of_nat)
  then have "unat (c - of_nat n) = unat c - n" using n(1) by (simp add: unat_sub word_le_nat_alt)
  then have "carried e' (stacks (gb_player s')) + (if e' = e then n else 0) = carried e' (stacks (gb_player s))"
    using n(1, 4) at carried_upd [of e' "stacks (gb_player s)" x None]
      carried_upd [of e' "stacks (gb_player s)" x "Some (e, c - of_nat n)"]
    by (auto simp: in_cell_def split: if_splits)
  then show ?thesis using n(2, 3) by (simp add: deposited_def holdings_def)
qed

text \<open>The player's stacks: at most of their size, none of them empty.\<close>

definition stacks_valid :: "world \<Rightarrow> player \<Rightarrow> bool" where
  "stacks_valid w pl = (\<forall>x p. items_at pl x = Some p \<longrightarrow> depositable w (pl_heap pl p) \<and> it_count (pl_heap pl p) \<noteq> 0)"

text \<open>The numbers in a deposit message, and the place of the player that it names.\<close>

definition msg_num :: "string \<Rightarrow> nat \<Rightarrow> u8" where
  "msg_num msg i = ucast (atoi (Tokenizer msg (CHR '':'') ! i))"

definition deposit_source :: "string \<Rightarrow> place" where
  "deposit_source msg =
     (if msg_num msg 1 = 0 then INVENTORY_SLOT_BAG_0 else msg_num msg 1 + INVENTORY_SLOT_BAG_START - 1,
      if msg_num msg 1 = 0 then msg_num msg 2 + INVENTORY_SLOT_ITEM_START - 1 else msg_num msg 2 - 1)"

lemma deposit_auto_holdings:
  assumes "consistent w s" "GetNewGuid s \<noteq> 0" "pl_ok (gb_player s)" "stacks_valid w (gb_player s)"
    "items_at (gb_player s) x = Some p" "\<not> IsBagPos (fst x) (snd x)" "1 \<le> t" "t \<le> 5"
  shows "\<exists>s'. DepositItemInFreeSlot w t p s = Some s' \<and> consistent w s' \<and> pl_ok (gb_player s') \<and>
    (\<forall>e. holdings e s' = holdings e s)"
proof -
  have "deposit_ready w x p s" using assms unfolding deposit_ready_def stacks_valid_def by blast
  then obtain s' where s': "DepositItemInFreeSlot w t p s = Some s'"
    "deposit_outcome w t x (it_entry (pl_heap (gb_player s) p)) (it_count (pl_heap (gb_player s) p)) s s'"
    using deposit_auto assms(7, 8) by blast
  have "stacks (gb_player s) x = Some (it_entry (pl_heap (gb_player s) p), it_count (pl_heap (gb_player s) p))"
    using assms(5) by (simp add: stacks_def)
  then show ?thesis using s' deposit_holdings by blast
qed

text \<open>A deposit message is refused with messages only, or it names a stack and goes on with it.\<close>

lemma DepositItem_cases:
  shows "(\<exists>s'. DepositItem w msg s = Some s' \<and> out_only s s') \<or>
    (\<exists>p s1. items_at (gb_player s) (deposit_source msg) = Some p \<and> out_only s s1 \<and>
       msg_num msg 3 \<noteq> 0 \<and> unat (msg_num msg 3) \<le> MAX_TABS \<and> ucast (msg_num msg 5) \<le> GetMaxStackSize (GetProto w (pl_heap (gb_player s) p)) \<and>
       DepositItem w msg s = (if msg_num msg 4 = 0 then DepositItemInFreeSlot w (ucast (msg_num msg 3)) p s1
                              else DepositItem_at w (msg_num msg 3) (msg_num msg 4) (msg_num msg 5) p s1))"
proof -
  let ?b = "fst (deposit_source msg)" and ?j = "snd (deposit_source msg)"
  obtain access s0 where acc: "CanAccessTab w (msg_num msg 3) ACTION_DEPOSIT_ITEM s = (access, s0)" by (rule prod.exhaust)
  have out0: "out_only s s0" by (rule out_only_CanAccessTab [OF acc])
  then have pl: "gb_player s0 = gb_player s" by (auto simp: out_only_def)
  let ?refused = "length (Tokenizer msg (CHR '':'')) \<noteq> 6 \<or> msg_num msg 3 = 0 \<or> unat (msg_num msg 3) > MAX_TABS \<or> unat (msg_num msg 4) > BANK_TAB_SIZE"
  have unfold: "DepositItem w msg s =
      (if length (Tokenizer msg (CHR '':'')) \<noteq> 6 then Some (wrong_syntax ''DepositItem'' msg s)
       else if msg_num msg 3 = 0 \<or> unat (msg_num msg 3) > MAX_TABS \<or> unat (msg_num msg 4) > BANK_TAB_SIZE
       then Some (SendAddonMessage ''DepositItem:Error:ParamsOutOfRange'' s)
       else if \<not> access then Some (no_access ''You dont have access to this tab.'' ''DepositItem:Error:NoRights'' s0)
       else case GetItemByPos (gb_player s) ?b ?j of
         None \<Rightarrow> Some (SendAddonMessage (''DepositItem:Error:CantGetPlayerItem:'' @ to_string ?b @ '':'' @ to_string ?j) s0)
       | Some p \<Rightarrow> (case IsItemBankable w (pl_heap (gb_player s) p) s0 of (bankable, s1) \<Rightarrow>
           if \<not> bankable then Some s1
           else if ucast (msg_num msg 5) > GetMaxStackSize (GetProto w (pl_heap (gb_player s) p))
           then Some (SendAddonMessage ''DepositItem:Error:Count>GetMaxStackCount'' s1)
           else if msg_num msg 4 = 0 then DepositItemInFreeSlot w (ucast (msg_num msg 3)) p s1
           else DepositItem_at w (msg_num msg 3) (msg_num msg 4) (msg_num msg 5) p s1))"
    using acc unfolding DepositItem_def by (simp add: pl msg_num_def [symmetric] deposit_source_def Let_def split: option.split)
  show ?thesis
  proof (cases "?refused \<or> \<not> access \<or> GetItemByPos (gb_player s) ?b ?j = None")
    case True
    then show ?thesis using unfold out0 by (auto simp: no_access_def)
  next
    case False
    then obtain p where p: "GetItemByPos (gb_player s) ?b ?j = Some p" by auto
    obtain bankable s1 where b: "IsItemBankable w (pl_heap (gb_player s) p) s0 = (bankable, s1)" by (rule prod.exhaust)
    have "out_only s s1" using out_only_trans [OF out0 out_only_IsItemBankable [OF b]] .
    then show ?thesis
      using False unfold p b by (auto simp: items_at_def not_less)
  qed
qed

lemma deposit_message_conserved:
  assumes "consistent w s" "GetNewGuid s \<noteq> 0" "pl_ok (gb_player s)" "stacks_valid w (gb_player s)"
    "msg_num msg 4 = 0" "\<not> IsBagPos (fst (deposit_source msg)) (snd (deposit_source msg))"
  shows "\<exists>s'. DepositItem w msg s = Some s' \<and> consistent w s' \<and> pl_ok (gb_player s') \<and>
    (\<forall>e. holdings e s' = holdings e s)"
proof -
  let ?tab = "msg_num msg 3"
  let ?good = "\<lambda>s'. consistent w s' \<and> pl_ok (gb_player s') \<and> (\<forall>e. holdings e s' = holdings e s)"
  have harmless: "?good s'" if "out_only s s'" for s'
    using that consistent_out_only [OF assms(1) that] holdings_out_only [OF that] assms(3) by (auto simp: out_only_def)
  from DepositItem_cases [of w msg s] show ?thesis
  proof (elim disjE exE conjE)
    fix s' assume "DepositItem w msg s = Some s'" "out_only s s'"
    then show ?thesis using harmless by blast
  next
    fix p s1
    assume p: "items_at (gb_player s) (deposit_source msg) = Some p" and out: "out_only s s1"
      and tab: "?tab \<noteq> 0" "unat ?tab \<le> MAX_TABS"
      and eq: "DepositItem w msg s = (if msg_num msg 4 = 0 then DepositItemInFreeSlot w (ucast ?tab) p s1
        else DepositItem_at w ?tab (msg_num msg 4) (msg_num msg 5) p s1)"
    have pl: "gb_player s1 = gb_player s" "GetNewGuid s1 = GetNewGuid s"
      using out by (auto simp: out_only_def GetNewGuid_def)
    have range: "1 \<le> (ucast ?tab :: u32)" "(ucast ?tab :: u32) \<le> 5"
      using tab by (auto simp: word_le_nat_alt unat_gt_0 Suc_le_eq)
    show ?thesis
      using deposit_auto_holdings [of w s1 "deposit_source msg" p "ucast ?tab"] harmless [OF out] assms p pl eq range by auto
  qed
qed


lemma sample_stacks_valid: "stacks_valid sample_world sample_player"
  by (auto simp: stacks_valid_def items_at_sample split: if_splits)
     (simp_all add: sample_player_def cloth_stack_def new_item_def depositable_def sample_world_def cloth_proto_def
        no_proto_def GetMaxStackSize_def)


end
