(* ===== verification/Bank_Withdraw_Props.thy ===== *)
theory Bank_Withdraw_Props
  imports Bank_Deposit_Props
begin

text \<open>
  Withdrawals from the bank: what leaves the bank arrives at the player.
\<close>

section \<open>The bank's side\<close>

definition withdrawn :: "world \<Rightarrow> u32 \<Rightarrow> nat \<Rightarrow> bank \<Rightarrow> bank \<Rightarrow> bool" where
  "withdrawn w e n s s' =
     (consistent w s' \<and> (\<forall>x. amount x (stock s') + (if x = e then n else 0) = amount x (stock s)))"

lemma withdrawn_cong:
  assumes "withdrawn w e n s s'" "same_items s' s''" "gb_queue s'' = gb_queue s'" "t_bank (gb_db s'') = t_bank (gb_db s')"
  shows "withdrawn w e n s s''"
  using assms consistent_cong [of w s' s''] same_items_stock [OF assms(2)] by (simp add: withdrawn_def)

lemma withdrawn_SaveToDB: "withdrawn w e n s s' \<Longrightarrow> withdrawn w e n s (SaveToDB s')"
  by (simp add: withdrawn_def consistent_SaveToDB)

lemma remove_withdrawn:
  assumes c: "consistent w s" and q: "q \<in> set (gb_items s)"
  shows "withdrawn w (bi_item_template (gb_heap s q)) (unat (bi_count (gb_heap s q))) s (remove_item q s)"
proof -
  have ok: "bank_inv s" "places_ok s" "stacks_ok w s" using c bank_ok_synced [of s] by (auto simp: consistent_def)
  have "consistent w (remove_item q s)"
    using bank_inv_remove_item [OF ok(1) q] remove_item_places [OF ok(2)] remove_item_stacks [OF ok(3)]
      bank_ok_synced [of "remove_item q s"] by (simp add: consistent_def)
  moreover have "amount x (stock (remove_item q s)) + (if x = bi_item_template (gb_heap s q) then unat (bi_count (gb_heap s q)) else 0) =
      amount x (stock s)" for x
    using amount_remove1 [OF q, of x "view s"] by (simp add: stock_def remove_item_frame split: if_splits)
  ultimately show ?thesis by (simp add: withdrawn_def)
qed

lemma lower_withdrawn:
  assumes c: "consistent w s" and q: "q \<in> set (gb_items s)" and n: "n \<le> bi_count (gb_heap s q)"
  shows "withdrawn w (bi_item_template (gb_heap s q)) (unat n) s
    (change_item q (\<lambda>b. b\<lparr>bi_count := bi_count (gb_heap s q) - n\<rparr>) s)" (is "withdrawn _ _ _ _ ?s")
proof -
  have ok: "bank_inv s" "places_ok s" "stacks_ok w s" "distinct (gb_items s)"
    using c bank_ok_synced [of s] guids_okD(1) by (auto simp: consistent_def bank_inv_def)
  have less: "unat (bi_count (gb_heap s q) - n) = unat (bi_count (gb_heap s q)) - unat n" using n by (simp add: unat_sub)
  have "bank_inv ?s" by (rule bank_inv_change_item [OF ok(1) q]) simp_all
  moreover have "places_ok ?s"
    by (rule places_ok_fun [of _ s "\<lambda>x. place (view s x)"]) (use ok(2) in \<open>auto simp: places_ok_def place_def fun_eq_iff\<close>)
  moreover have "bi_count (gb_heap s q) - n \<le> bi_maxStackSize (gb_heap s q)"
    using less stack_ok_bounds [OF stacks_okD [OF ok(3) q]] by (auto simp: word_le_nat_alt)
  then have "stacks_ok w ?s"
    by (intro stacks_ok_view [OF ok(3)]) (use stacks_okD [OF ok(3) q] in \<open>auto simp: stack_ok_count\<close>)
  moreover have "amount x (stock ?s) + (if x = bi_item_template (gb_heap s q) then unat n else 0) = amount x (stock s)" for x
    using amount_view_upd [OF ok(4) q, of x "view s"
        "(gb_heap s q)\<lparr>bi_count := bi_count (gb_heap s q) - n, bi_state := ITEM_UNCHANGED\<rparr>"] less n
    by (simp add: stock_def word_le_nat_alt split: if_splits)
  ultimately show ?thesis using bank_ok_synced [of ?s] by (simp add: withdrawn_def consistent_def)
qed

text \<open>The steps of \<^verbatim>\<open>WithdrawItem\<close> on the bank, with anything that happens to the player in between.\<close>

definition player_only :: "bank \<Rightarrow> bank \<Rightarrow> bool" where
  "player_only s s' = (\<exists>pl out. s' = s\<lparr>gb_player := pl, gb_out := out\<rparr>)"

lemma player_only_send [simp]: "player_only s (send m s)"
  unfolding player_only_def by (rule exI [of _ "gb_player s"], rule exI [of _ "gb_out s @ [m]"]) (simp add: send_def)

lemma player_only_upd [simp]: "player_only s (upd_player f s)"
  unfolding player_only_def by (rule exI [of _ "f (gb_player s)"], rule exI [of _ "gb_out s"]) (simp add: upd_player_def)

lemma SendTabWithdrawalsLeft_frame:
  "same_items s (SendTabWithdrawalsLeft w t s)" "gb_queue (SendTabWithdrawalsLeft w t s) = gb_queue s"
  "gb_db (SendTabWithdrawalsLeft w t s) = gb_db s" "gb_player (SendTabWithdrawalsLeft w t s) = gb_player s"
  using out_only_SendTabWithdrawalsLeft [of s w t] out_only_same_items by (auto simp: out_only_def)

lemma withdraw_bank:
  assumes c: "consistent w s" and q: "GetItem s t j = Some q" and n: "n \<le> bi_count (gb_heap s q)"
    and rem: "r = bi_count (gb_heap s q) - n"
    and pl: "player_only (push_queue q (withdraw_from_bank t j n q over r False s)) s2"
  shows "withdrawn w (bi_item_template (gb_heap s q)) (unat n) s (SaveToDB (withdraw_end w t n q s2)) \<and>
    gb_player (SaveToDB (withdraw_end w t n q s2)) = gb_player s2"
proof -
  have in_s: "q \<in> set (gb_items s)" using GetItem_Some [OF q] by simp
  define s3 where "s3 = LogAction w ACTION_WITHDRAW_ITEM (bi_tab (gb_heap s2 q)) (bi_item_template (gb_heap s2 q)) n (Some q) s2"
  define s4 where "s4 = (if bi_state (gb_heap s3 q) = ITEM_REMOVED then DeleteItem q s3 else s3)"
  have final: "withdraw_end w t n q s2 = SendTabWithdrawalsLeft w (ucast t) s4"
    by (simp add: withdraw_end_def s3_def s4_def Let_def)
  have "withdrawn w (bi_item_template (gb_heap s q)) (unat n) s s4"
  proof (cases "r = 0")
    case True
    then have "n = bi_count (gb_heap s q)" using rem by simp
    then show ?thesis
      using True pl
      by (intro withdrawn_cong [OF remove_withdrawn [OF c in_s, folded \<open>n = bi_count (gb_heap s q)\<close>]])
         (auto simp: s4_def s3_def player_only_def withdraw_from_bank_def remove_item_def same_items_def message_defs view_def fun_eq_iff)
  next
    case False
    then show ?thesis
      using pl rem
      by (intro withdrawn_cong [OF lower_withdrawn [OF c in_s n]])
         (auto simp: s4_def s3_def player_only_def withdraw_from_bank_def change_item_def same_items_def message_defs Let_def view_def fun_eq_iff)
  qed
  then have "withdrawn w (bi_item_template (gb_heap s q)) (unat n) s (withdraw_end w t n q s2)"
    unfolding final by (rule withdrawn_cong) (simp_all add: SendTabWithdrawalsLeft_frame)
  moreover have "gb_player s4 = gb_player s2" by (simp add: s4_def s3_def)
  ultimately show ?thesis using withdrawn_SaveToDB by (simp add: final SendTabWithdrawalsLeft_frame)
qed

section \<open>Withdrawing to a free place\<close>

text \<open>Bank items that can be turned into items of a player.\<close>

definition withdrawable :: "world \<Rightarrow> bank_item \<Rightarrow> bool" where
  "withdrawable w b =
     ((\<exists>proto. w_proto w (bi_item_template b) = Some proto \<and> proto_ok (bi_item_template b) proto) \<and>
      length (Tokenizer (bi_enchantments b) (CHR '' '')) \<ge> MAX_ENCHANTMENT_SLOT * MAX_ENCHANTMENT_OFFSET)"

lemma withdrawable_view [simp]: "withdrawable w (view s p) = withdrawable w (gb_heap s p)"
  unfolding withdrawable_def view_def by simp

lemma CloneItem_to_item_body:
  assumes "withdrawable w b"
  shows "\<exists>it'. CloneItem_to_item g b it = Some it' \<and> same_body it it'"
  using assms by (auto simp: CloneItem_to_item_def withdrawable_def Let_def same_body_def)

lemma StoreNewItem_nothing:
  assumes "sum_list (map (unat \<circ> snd) dest) = 0"
  shows "StoreNewItem w dest entry u r pl = (None, pl)"
proof -
  have "unat (sum_list (map (\<lambda>(pos, c). ucast c :: u32) dest)) = 0" using sum_counts [of dest] assms by simp
  then have "sum_list (map (\<lambda>(pos, c). ucast c :: u32) dest) = 0" by (simp only: unat_eq_0)
  then show ?thesis by (simp add: StoreNewItem_def CreateItem_def Let_def)
qed

text \<open>What every operation between bank and player promises.\<close>

definition conserved :: "world \<Rightarrow> bank \<Rightarrow> bank \<Rightarrow> bool" where
  "conserved w s s' = (consistent w s' \<and> pl_ok (gb_player s') \<and> (\<forall>e. holdings e s' = holdings e s))"

lemma conserved_out_only:
  assumes "consistent w s" "pl_ok (gb_player s)" "out_only s s'"
  shows "conserved w s s'"
  using consistent_out_only [OF assms(1, 3)] holdings_out_only [OF assms(3)] assms(2, 3)
  by (auto simp: conserved_def out_only_def)

lemma withdrawn_conserved:
  assumes "withdrawn w e n s s'" "pl_ok (gb_player s')"
    "\<And>x. carried x (stacks (gb_player s')) = carried x (stacks pl) + (if x = e then n else 0)" "gb_player s = pl"
  shows "conserved w s s'"
proof -
  have "holdings x s' = holdings x s" for x
  proof -
    have "amount x (stock s') + (if x = e then n else 0) = amount x (stock s)" using assms(1) by (simp add: withdrawn_def)
    then show ?thesis using assms(3) [of x] assms(4) by (simp add: holdings_def split: if_splits)
  qed
  then show ?thesis using assms(1, 2) by (simp add: conserved_def withdrawn_def)
qed

lemma player_set_frame:
  "same_items s (s\<lparr>gb_player := pl\<rparr>)" "stock (s\<lparr>gb_player := pl\<rparr>) = stock s" "GetItem (s\<lparr>gb_player := pl\<rparr>) t j = GetItem s t j"
  by (simp_all add: same_items_def stock_def view_def fun_eq_iff GetItem_def)

lemma withdraw_free_stored:
  assumes c: "consistent w s" and q: "GetItem s t j = Some q" "withdrawable w (gb_heap s q)" "n \<le> bi_count (gb_heap s q)"
      "r = bi_count (gb_heap s q) - n"
    and can: "CanStoreNewItem w (gb_player s) (ucast bag) (ucast slot) (bi_item_template (gb_heap s q)) n = (EQUIP_ERR_OK, dest, left)"
    and st: "StoreNewItem w dest (bi_item_template (gb_heap s q)) True
        (GenerateItemRandomPropertyId w (bi_item_template (gb_heap s q))) (gb_player s) = (Some p, pl1)" "pl_ok pl1"
      "\<And>x. carried x (stacks pl1) = carried x (stacks (gb_player s)) + (if x = bi_item_template (gb_heap s q) then unat n else 0)"
  shows "\<exists>s'. WithdrawItem w t j n bag slot q None r False s = Some s' \<and> conserved w s s'"
proof -
  obtain it where it: "CloneItem_to_item (gb_playerGuid s) (gb_heap s q) (pl_heap pl1 p) = Some it" "same_body (pl_heap pl1 p) it"
    using CloneItem_to_item_body [OF q(2)] by blast
  define pl2 where "pl2 = upd_item p (\<lambda>_. it) pl1"
  define s1 where "s1 = s\<lparr>gb_player := pl2\<rparr>"
  define s3 where "s3 = send (SendNewItem p n) (push_queue q (withdraw_from_bank t j n q False r False s1))"
  have shape: "same_shape pl1 pl2" using it(2) by (simp add: pl2_def same_shape_def upd_item_def)
  have c1: "consistent w s1" using consistent_cong [OF c player_set_frame(1)] by (simp add: s1_def)
  have q1: "GetItem s1 t j = Some q" "gb_heap s1 = gb_heap s" "stock s1 = stock s"
    using q(1) by (simp_all add: s1_def player_set_frame)
  have "player_only (push_queue q (withdraw_from_bank t j n q False r False s1)) s3"
    by (simp add: s3_def)
  note wd = withdraw_bank [OF c1 q1(1), unfolded q1(2), OF q(3, 4) this]
  have pl3: "gb_player s3 = pl2" by (simp add: s3_def s1_def withdraw_from_bank_def Let_def message_defs)
  have "conserved w s (SaveToDB (withdraw_end w t n q s3))"
    using wd pl3 same_shape_ok [OF shape st(2)] same_shape_stacks [OF shape] st(3) q1(3)
    by (intro withdrawn_conserved [where e = "bi_item_template (gb_heap s q)" and n = "unat n", OF _ _ _ refl])
       (auto simp: withdrawn_def)
  moreover have "WithdrawItem w t j n bag slot q None r False s = Some (SaveToDB (withdraw_end w t n q s3))"
    using can st(1) it(1) by (simp add: WithdrawItem_def Let_def s3_def s1_def pl2_def)
  ultimately show ?thesis by blast
qed

lemma withdraw_free:
  assumes c: "consistent w s" "pl_ok (gb_player s)" "bags_sized w (gb_player s)"
    and q: "GetItem s t j = Some q" "withdrawable w (gb_heap s q)" "n \<le> bi_count (gb_heap s q)" "r = bi_count (gb_heap s q) - n"
    and asked: "place_requested (ucast bag) (ucast slot)"
  shows "\<exists>s'. WithdrawItem w t j n bag slot q None r False s = Some s' \<and> conserved w s s'"
proof -
  let ?e = "bi_item_template (gb_heap s q)"
  obtain proto where proto: "w_proto w ?e = Some proto" "proto_ok ?e proto" using q(2) by (auto simp: withdrawable_def)
  obtain msg dest left where can: "CanStoreNewItem w (gb_player s) (ucast bag) (ucast slot) ?e n = (msg, dest, left)"
    by (rule prod_cases3)
  consider "msg \<noteq> EQUIP_ERR_OK" | "msg = EQUIP_ERR_OK" "n = 0" | "msg = EQUIP_ERR_OK" "n \<noteq> 0" by blast
  then show ?thesis
  proof cases
    case 1
    then show ?thesis using can conserved_out_only [OF c(1, 2), of "send (EquipError msg) s"] by (simp add: WithdrawItem_def Let_def)
  next
    case 2
    have "stack_size_ok proto" using proto(2) by (simp add: proto_ok_def)
    from CanStoreNewItem_answer [OF proto(1) this pl_ok_bags_small [OF c(2)] can [unfolded 2(1)]]
    have "StoreNewItem w dest ?e True g (gb_player s) = (None, gb_player s)" for g
      using 2(2) by (intro StoreNewItem_nothing) (simp add: plan_inv_def)
    then have "WithdrawItem w t j n bag slot q None r False s = Some (SaveToDB s)"
      using can 2(1) by (simp add: WithdrawItem_def Let_def)
    moreover have "conserved w s (SaveToDB s)"
      using c by (simp add: conserved_def consistent_SaveToDB holdings_def)
    ultimately show ?thesis by blast
  next
    case 3
    obtain p pl1 where "StoreNewItem w dest ?e True (GenerateItemRandomPropertyId w ?e) (gb_player s) = (Some p, pl1)" "pl_ok pl1"
      "\<And>x. carried x (stacks pl1) = carried x (stacks (gb_player s)) + (if x = ?e then unat n else 0)"
      using store_planned [OF c(2, 3) proto asked 3(2) can [unfolded 3(1)], of True "GenerateItemRandomPropertyId w ?e"] by blast
    from withdraw_free_stored [OF c(1) q can [unfolded 3(1)] this] show ?thesis .
  qed
qed

section \<open>Withdrawing onto a stack\<close>

lemma withdraw_onto:
  assumes c: "consistent w s" "pl_ok (gb_player s)"
    and q: "GetItem s t j = Some q" "n \<le> bi_count (gb_heap s q)" "r = bi_count (gb_heap s q) - n"
    and p: "items_at (gb_player s) x = Some p" "it_entry (pl_heap (gb_player s) p) = bi_item_template (gb_heap s q)"
      "unat (it_count (pl_heap (gb_player s) p)) + unat n < 2 ^ 32"
  shows "\<exists>s'. WithdrawItem w t j n bag slot q (Some p) r False s = Some s' \<and> conserved w s s'"
proof -
  let ?e = "bi_item_template (gb_heap s q)" and ?m = "it_count (pl_heap (gb_player s) p) + n"
  obtain msg dest left where can: "CanStoreNewItem w (gb_player s) (ucast bag) (ucast slot) ?e n = (msg, dest, left)"
    by (rule prod_cases3)
  show ?thesis
  proof (cases "msg = EQUIP_ERR_OK")
    case False
    then show ?thesis using can conserved_out_only [OF c, of "send (EquipError msg) s"] by (simp add: WithdrawItem_def Let_def)
  next
    case True
    define s1 where "s1 = push_queue q (withdraw_from_bank t j n q True r False s)"
    define s2 where "s2 = upd_player (\<lambda>pl. set_player_count p (it_count (pl_heap pl p) + n) pl) s1"
    have pl: "gb_player s2 = set_player_count p ?m (gb_player s)"
      by (simp add: s2_def s1_def upd_player_def withdraw_from_bank_def Let_def message_defs)
    note cnt = set_player_count_refines [OF c(2) p(1), of ?m]
    have wd: "withdrawn w ?e (unat n) s (SaveToDB (withdraw_end w t n q s2)) \<and> gb_player (SaveToDB (withdraw_end w t n q s2)) = gb_player s2"
      by (rule withdraw_bank [OF c(1) q, of True]) (simp add: s2_def s1_def)
    have "stacks (gb_player s) x = Some (?e, it_count (pl_heap (gb_player s) p))" using p(1, 2) by (simp add: stacks_def)
    then have "carried y (stacks (gb_player s2)) = carried y (stacks (gb_player s)) + (if y = ?e then unat n else 0)" for y
      using carried_upd [of y "stacks (gb_player s)" x "Some (?e, ?m)"] cnt(3) p(2) unat_plus_small [of _ n] p(3) pl
      by (auto simp: in_cell_def)
    then have "conserved w s (SaveToDB (withdraw_end w t n q s2))"
      using wd cnt(1) pl by (intro withdrawn_conserved [where e = ?e and n = "unat n", OF _ _ _ refl]) simp_all
    moreover have "WithdrawItem w t j n bag slot q (Some p) r False s = Some (SaveToDB (withdraw_end w t n q s2))"
      using can True by (simp add: WithdrawItem_def Let_def s2_def s1_def)
    ultimately show ?thesis by blast
  qed
qed

text \<open>The number of items that still fit on a stack of the player.\<close>

lemma room_on_stack:
  fixes m k n :: u32
  assumes "k \<le> m" "n \<le> m" "m < 0x80000000" "c = (if n + k > m then m - k else n)"
  shows "c \<le> n" "unat k + unat c < 2 ^ 32"
proof -
  have "unat (m - k) = unat m - unat k" using assms(1) by (simp add: unat_sub)
  moreover have "unat (n + k) = unat n + unat k"
    using assms(1-3) by (intro unat_plus_small) (auto simp: word_le_nat_alt word_less_nat_alt)
  ultimately show "c \<le> n" "unat k + unat c < 2 ^ 32"
    using assms by (auto simp: word_le_nat_alt word_less_nat_alt split: if_splits)
qed

section \<open>Messages\<close>

text \<open>The place of the player that a withdrawal names, where it names one.\<close>

definition withdraw_target :: "u32 \<Rightarrow> u32 \<Rightarrow> u8 \<times> u8" where
  "withdraw_target bag0 slot0 =
     (ucast (if bag0 = 0 then 255 else bag0 + 18 :: u32), ucast (if (if bag0 = 0 then 255 else bag0 + 18) = 255 then slot0 + 22 else slot0 - 1))"

text \<open>A withdrawal that does not swap: its place is free or has the same item, which stacks.\<close>

definition no_swap :: "bank \<Rightarrow> ptr \<Rightarrow> place \<Rightarrow> bool" where
  "no_swap s q x =
     (case items_at (gb_player s) x of
        None \<Rightarrow> True
      | Some p \<Rightarrow> it_entry (pl_heap (gb_player s) p) = bi_item_template (gb_heap s q) \<and> bi_maxStackSize (gb_heap s q) > 1)"

lemma withdraw_to:
  assumes c: "consistent w s" "pl_ok (gb_player s)" "bags_sized w (gb_player s)" "stacks_valid w (gb_player s)"
    and q: "GetItem s t j = Some q" "withdrawable w (gb_heap s q)" "n \<le> bi_count (gb_heap s q)"
    and x: "x = withdraw_target bag0 slot0" "place_requested (fst x) (snd x)" "no_swap s q x"
  shows "\<exists>s'. WithdrawItem_to w t j bag0 slot0 n q s = Some s' \<and> conserved w s s'"
proof (cases "items_at (gb_player s) x")
  case None
  then show ?thesis
    using x withdraw_free [OF c(1-3) q refl] unfolding WithdrawItem_to_def Let_def withdraw_target_def items_at_def by simp
next
  case (Some p)
  define it where "it = pl_heap (gb_player s) p"
  have same: "it_entry it = bi_item_template (gb_heap s q)" "bi_maxStackSize (gb_heap s q) > 1"
    using x(3) Some by (simp_all add: no_swap_def it_def)
  have "depositable w it" using c(4) Some unfolding stacks_valid_def it_def by blast
  note dep = depositableD [OF this]
  obtain ok s1 where b: "IsItemBankable w it s = (ok, s1)" by (rule prod.exhaust)
  have out: "out_only s s1" by (rule out_only_IsItemBankable [OF b])
  then have s1: "gb_player s1 = gb_player s" "GetItem s1 t j = Some q" "gb_heap s1 = gb_heap s" "consistent w s1"
    using q(1) consistent_out_only [OF c(1)] by (auto simp: out_only_def GetItem_def)
  let ?m = "GetMaxStackSize (GetProto w it)"
  define k where "k = (if n + it_count it > ?m then ?m - it_count it else n)"
  have "stack_ok w (gb_heap s q)" using c(1) GetItem_Some [OF q(1)] stacks_okD by (auto simp: consistent_def)
  then have "n \<le> ?m" using q(3) dep(4) same(1) by (auto simp: stack_ok_def intro: order_trans)
  note room = room_on_stack [OF dep(2) this dep(3) k_def]
  have via: "conserved w s s'" if "conserved w s1 s'" for s'
    using that holdings_out_only [OF out] by (simp add: conserved_def)
  have "\<exists>s'. WithdrawItem w t j k bag slot q (Some p) (bi_count (gb_heap s q) - k) False s1 = Some s' \<and> conserved w s1 s'" for bag slot
    using withdraw_onto [OF s1(4) _ s1(2)] s1 c(2) Some same(1) room q(3) by (simp add: it_def [symmetric] order_trans)
  then have "\<exists>s'. WithdrawItem w t j k bag slot q (Some p) (bi_count (gb_heap s q) - k) False s1 = Some s' \<and> conserved w s s'" for bag slot
    using via by blast
  moreover have "conserved w s s1" by (rule conserved_out_only [OF c(1, 2) out])
  moreover let ?bag = "if bag0 = 0 then 255 else bag0 + 18 :: u32"
  have "GetItemByPos (gb_player s) (ucast ?bag) (ucast (if ?bag = 255 then slot0 + 22 else slot0 - 1)) = Some p"
    using x(1) Some by (simp add: withdraw_target_def items_at_def)
  then have "WithdrawItem_to w t j bag0 slot0 n q s = (if \<not> ok then Some s1
      else WithdrawItem w t j k ?bag (if ?bag = 255 then slot0 + 22 else slot0 - 1) q (Some p) (bi_count (gb_heap s q) - k) False s1)"
    unfolding WithdrawItem_to_def Let_def k_def using b same dep(1) by (simp add: it_def)
  ultimately show ?thesis by (cases ok) simp_all
qed

text \<open>
  A message that leaves the choice of the place to the server, or names a place, no slot for bags
  and in no bag that is not equipped, where the withdrawal does not swap.
\<close>

definition plain_withdrawal :: "string \<Rightarrow> bank \<Rightarrow> bool" where
  "plain_withdrawal msg s =
     (let num = (\<lambda>i. atoi (Tokenizer msg (CHR '':'') ! i)); x = withdraw_target (num 3) (num 4)
      in (num 3 = 0 \<and> num 4 = 0) \<or>
         (place_requested (fst x) (snd x) \<and>
          (case GetItem s (num 1) (num 2) of None \<Rightarrow> True | Some q \<Rightarrow> no_swap s q x)))"

lemma WithdrawItem_msg_cases:
  fixes msg :: string
  assumes "num = (\<lambda>i. atoi (Tokenizer msg (CHR '':'') ! i))"
  shows "\<exists>s0. out_only s s0 \<and>
    ((\<exists>s'. WithdrawItem_msg w msg s = Some s' \<and> out_only s s') \<or>
     (\<exists>q. GetItem s0 (num 1) (num 2) = Some q \<and> num 5 \<le> bi_count (gb_heap s0 q) \<and>
        WithdrawItem_msg w msg s =
          (if num 3 = 0 \<and> num 4 = 0
           then WithdrawItem w (num 1) (num 2) (bi_count (gb_heap s0 q)) (ucast NULL_BAG) (ucast NULL_SLOT) q None 0 False s0
           else WithdrawItem_to w (num 1) (num 2) (num 3) (num 4) (num 5) q s0)))"
proof -
  obtain access s0 where acc: "CanAccessTab w (ucast (num 1)) ACTION_WITHDRAW_ITEM s = (access, s0)" by (rule prod.exhaust)
  have out: "out_only s s0" by (rule out_only_CanAccessTab [OF acc])
  have unfold: "WithdrawItem_msg w msg s =
      (if length (Tokenizer msg (CHR '':'')) \<noteq> 6 then Some (wrong_syntax ''WithdrawItem'' msg s)
       else if num 1 = 0 \<or> unat (num 1) > MAX_TABS \<or> num 2 = 0 \<or> unat (num 2) > BANK_TAB_SIZE
       then Some (SendAddonMessage ''WithdrawItem:Error:ParamsOutOfRange'' s)
       else if \<not> access then Some (no_access ''You dont have access to this tab.'' ''WithdrawItem:Error:NoRights'' s0)
       else case GetItem s0 (num 1) (num 2) of
         None \<Rightarrow> Some (SendAddonMessage ''WithdrawItem:Error:CantFindBankItem'' s0)
       | Some q \<Rightarrow>
           (if num 5 > bi_count (gb_heap s0 q) then Some (SendAddonMessage ''WithdrawItem:Error:CantWithdrawMoreThanCount'' s0)
            else if num 3 = 0 \<and> num 4 = 0
            then (if bi_count (gb_heap s0 q) = num 5
                  then WithdrawItem w (num 1) (num 2) (bi_count (gb_heap s0 q)) (ucast NULL_BAG) (ucast NULL_SLOT) q None 0 False s0
                  else Some (SendAddonMessage ''WithdrawItem:Error:CantAutoWithdrawDifferentCount'' s0))
            else WithdrawItem_to w (num 1) (num 2) (num 3) (num 4) (num 5) q s0))"
    using acc unfolding WithdrawItem_msg_def Let_def assms by simp
  show ?thesis
    by (rule exI [of _ s0], unfold unfold) (use out in \<open>auto simp: no_access_def not_less split: option.split\<close>)
qed

lemma withdraw_message_conserved:
  assumes "consistent w s" "pl_ok (gb_player s)" "bags_sized w (gb_player s)" "stacks_valid w (gb_player s)"
    "list_all (withdrawable w) (stock s)" "plain_withdrawal msg s"
  shows "\<exists>s'. WithdrawItem_msg w msg s = Some s' \<and> conserved w s s'"
proof -
  define num where "num = (\<lambda>i. atoi (Tokenizer msg (CHR '':'') ! i))"
  obtain s0 where out: "out_only s s0" and cases: "(\<exists>s'. WithdrawItem_msg w msg s = Some s' \<and> out_only s s') \<or>
     (\<exists>q. GetItem s0 (num 1) (num 2) = Some q \<and> num 5 \<le> bi_count (gb_heap s0 q) \<and>
        WithdrawItem_msg w msg s =
          (if num 3 = 0 \<and> num 4 = 0
           then WithdrawItem w (num 1) (num 2) (bi_count (gb_heap s0 q)) (ucast NULL_BAG) (ucast NULL_SLOT) q None 0 False s0
           else WithdrawItem_to w (num 1) (num 2) (num 3) (num 4) (num 5) q s0))"
    using WithdrawItem_msg_cases [OF num_def] by blast
  have s0: "gb_player s0 = gb_player s" "gb_heap s0 = gb_heap s" "gb_items s0 = gb_items s" "GetItem s0 = GetItem s" "consistent w s0"
    using out consistent_out_only [OF assms(1)] by (auto simp: out_only_def GetItem_def fun_eq_iff)
  have via: "conserved w s s'" if "conserved w s0 s'" for s'
    using that holdings_out_only [OF out] by (simp add: conserved_def)
  have "\<exists>s'. WithdrawItem_msg w msg s = Some s' \<and> conserved w s0 s'"
    if q: "GetItem s0 (num 1) (num 2) = Some q" "num 5 \<le> bi_count (gb_heap s0 q)"
      and eq: "WithdrawItem_msg w msg s =
          (if num 3 = 0 \<and> num 4 = 0
           then WithdrawItem w (num 1) (num 2) (bi_count (gb_heap s0 q)) (ucast NULL_BAG) (ucast NULL_SLOT) q None 0 False s0
           else WithdrawItem_to w (num 1) (num 2) (num 3) (num 4) (num 5) q s0)" for q
  proof (cases "num 3 = 0 \<and> num 4 = 0")
    case auto_place: True
    have "withdrawable w (gb_heap s0 q)" using assms(5) GetItem_Some [OF q(1)] s0(2, 3) by (simp add: list_all_iff stock_def)
    moreover have "place_requested (ucast (ucast NULL_BAG :: u32)) (ucast (ucast NULL_SLOT :: u32))"
      by (simp add: place_requested_def IsBagPos_def)
    ultimately show ?thesis
      using eq auto_place assms(2, 3) s0(1) withdraw_free [OF s0(5) _ _ q(1) _ order_refl, of 0 "ucast NULL_BAG" "ucast NULL_SLOT"]
      by simp
  next
    case False
    have "withdrawable w (gb_heap s0 q)" using assms(5) GetItem_Some [OF q(1)] s0(2, 3) by (simp add: list_all_iff stock_def)
    moreover have "place_requested (fst (withdraw_target (num 3) (num 4))) (snd (withdraw_target (num 3) (num 4)))"
      "no_swap s0 q (withdraw_target (num 3) (num 4))"
      using assms(6) False q(1) s0 unfolding plain_withdrawal_def Let_def num_def [symmetric] no_swap_def
      by (auto split: option.splits)
    ultimately show ?thesis
      unfolding eq if_not_P [OF False] using withdraw_to [OF s0(5) _ _ _ q(1) _ q(2) refl] assms(2-4) s0(1) by simp
  qed
  then show ?thesis using cases via conserved_out_only [OF assms(1, 2)] by blast
qed

text \<open>C6: a withdrawal message that does not ask for an exchange returns, and whatever it does, refusing it
  included, the bank and its tables stay consistent, the inventory stays well formed, and the bank
  and the player together hold as many items of every entry as before.\<close>

theorem WithdrawItem_conserves:
  assumes "consistent w s" "pl_ok (gb_player s)" "bags_sized w (gb_player s)" "stacks_valid w (gb_player s)"
    "list_all (withdrawable w) (stock s)" "plain_withdrawal msg s"
  shows "\<exists>s'. WithdrawItem_msg w msg s = Some s' \<and> conserved w s s'"
  using withdraw_message_conserved [OF assms] .

lemma sample_withdrawable: "list_all (withdrawable sample_world) (stock sample_bank)"
proof -
  have ench: "21 \<le> length (Tokenizer (concat (replicate 21 ''0 '')) (CHR '' ''))" by code_simp
  have "withdrawable sample_world (cloth_item g j n)" for g j n
    using cloth_proto_ok ench unfolding withdrawable_def by (simp add: cloth_item_def sample_world_def)
  moreover have "stock sample_bank = map (view sample_bank) [0, 1]" by (simp add: stock_def sample_bank_def)
  moreover have "gb_heap sample_bank p = (if p = 0 then cloth_item 1 1 5 else cloth_item 2 2 18)" for p
    by (simp add: sample_bank_def)
  ultimately show ?thesis by simp
qed

theorem WithdrawItem_conserves_witness:
  "\<exists>s'. WithdrawItem_msg sample_world ''WithdrawItem:1:2:0:1:2'' sample_bank = Some s' \<and> conserved sample_world sample_bank s'"
proof -
  have "plain_withdrawal ''WithdrawItem:1:2:0:1:2'' sample_bank"
    by code_simp
  moreover have "gb_player sample_bank = sample_player" by (simp add: sample_bank_def)
  ultimately show ?thesis
    using WithdrawItem_conserves [OF sample_bank_consistent] sample_player_ok sample_stacks_valid sample_bags_sized sample_withdrawable
    by simp
qed

end
