(* ===== verification/Bank_Run.thy ===== *)
theory Bank_Run
  imports Bank_Withdraw_Props
begin

text \<open>
  The bank over time: messages in any order, from any consistent state. Items and money are conserved
  between the bank and the player along every run.
\<close>

section \<open>Money\<close>

definition total_money :: "bank \<Rightarrow> int" where
  "total_money s = uint (gb_money s) + uint (pl_money (gb_player s))"

lemma sint_small: "uint d < 2 ^ 31 \<Longrightarrow> sint d = uint d" for d :: u32
  by (simp add: sint_uint signed_take_bit_eq_if_positive bit_iff_odd_drop_bit drop_bit_eq_div take_bit_int_eq_self)

lemma sint_minus_small:
  fixes d :: u32
  assumes "uint d < 2 ^ 31"
  shows "sint (- d) = - uint d"
proof -
  have "- d = word_of_int (- uint d)" by simp
  then have "sint (- d) = signed_take_bit 31 (- uint d)" by (simp only: sint_sbintrunc') simp
  moreover have "- (2 ^ 31) \<le> - uint d" "- uint d < 2 ^ 31" using assms uint_ge_0 [of d] by linarith+
  ultimately show ?thesis by (simp add: signed_take_bit_int_eq_self)
qed

text \<open>With the hook of the money script passing amounts through.\<close>

definition no_money_hook :: "world \<Rightarrow> bool" where
  "no_money_hook w = (\<forall>d. w_money_hook w d = d)"

lemma pay:
  assumes "no_money_hook w" "m \<le> pl_money pl" "uint (pl_money pl) \<le> 0x7FFFFFFE"
  shows "uint (pl_money (ModifyMoney w (- m) pl)) = uint (pl_money pl) - uint m"
proof -
  have m: "uint m \<le> uint (pl_money pl)" using assms(2) by (simp add: word_le_def)
  then have "sint (- m) = - uint m" using assms(3) by (intro sint_minus_small) simp
  then show ?thesis
    using ModifyMoney_clips [of w "- m" pl] assms(1, 3) m uint_ge_0 [of m] by (simp add: no_money_hook_def)
qed

lemma earn:
  assumes "no_money_hook w" "uint (pl_money pl) + uint m \<le> 0x7FFFFFFE"
  shows "uint (pl_money (ModifyMoney w m pl)) = uint (pl_money pl) + uint m"
proof -
  have "uint m < 0x80000000" using assms(2) uint_ge_0 [of "pl_money pl"] by linarith
  then have "sint m = uint m" by (intro sint_small) simp
  then show ?thesis
    using ModifyMoney_clips [of w m pl] assms uint_ge_0 [of m] uint_ge_0 [of "pl_money pl"] by (simp add: no_money_hook_def)
qed

lemma same_shape_ModifyMoney [simp]: "same_shape pl (ModifyMoney w d pl)"
  by (simp add: ModifyMoney_def SetMoney_def Let_def event_def same_shape_def)

text \<open>An operation on money leaves the items and what is queued for them alone.\<close>

definition money_only :: "bank \<Rightarrow> bank \<Rightarrow> bool" where
  "money_only s s' =
     (same_items s s' \<and> gb_queue s' = gb_queue s \<and> t_bank (gb_db s') = t_bank (gb_db s) \<and>
      same_shape (gb_player s) (gb_player s'))"

lemma money_only_conserved:
  assumes "consistent w s" "pl_ok (gb_player s)" "money_only s s'"
  shows "conserved w s s'" "conserved w s (SaveToDB s')"
proof -
  have "consistent w s'" using assms consistent_cong by (auto simp: money_only_def)
  moreover have "stock s' = stock s" "stacks (gb_player s') = stacks (gb_player s)" "pl_ok (gb_player s')"
    using assms same_items_stock same_shape_stacks same_shape_ok by (auto simp: money_only_def)
  ultimately show "conserved w s s'" "conserved w s (SaveToDB s')"
    by (simp_all add: conserved_def consistent_SaveToDB holdings_def)
qed

lemma total_money_out: "out_only s s' \<Longrightarrow> total_money s' = total_money s"
  by (auto simp: out_only_def total_money_def)

lemma total_money_SaveToDB [simp]: "total_money (SaveToDB s) = total_money s"
  by (simp add: total_money_def)

text \<open>A money message is refused with messages only, or moves an amount and saves.\<close>

lemma DepositMoney_cases:
  assumes "m = atoi (Tokenizer msg (CHR '':'') ! 1)"
  shows "out_only s (DepositMoney w msg s) \<or>
    (\<exists>s4. m \<le> pl_money (gb_player s) \<and> DepositMoney w msg s = SaveToDB s4 \<and> money_only s s4 \<and>
       gb_player s4 = ModifyMoney w (- m) (gb_player s) \<and> gb_money s4 = gb_money s + m)"
proof (cases "length (Tokenizer msg (CHR '':'')) = 2 \<and> m \<le> pl_money (gb_player s)")
  case False
  then show ?thesis by (auto simp: DepositMoney_def Let_def assms not_le)
next
  case True
  define s4 where "s4 = (SendGuildMessage (''GMoney:'' @ to_string (gb_money s + m))
    (LogAction w ACTION_DEPOSIT_MONEY 0 0 m None
      ((upd_player (ModifyMoney w (- m)) s)\<lparr>gb_money := gb_money s + m\<rparr>)))\<lparr>gb_money_changed := True\<rparr>"
  have "DepositMoney w msg s = SaveToDB s4"
    using True by (simp add: DepositMoney_def Let_def assms s4_def leD upd_player_def)
  moreover have pl: "gb_player s4 = ModifyMoney w (- m) (gb_player s)" "gb_money s4 = gb_money s + m"
    by (simp_all add: s4_def message_defs upd_player_def)
  moreover have "money_only s s4"
    by (simp add: money_only_def pl(1)) (simp add: s4_def message_defs upd_player_def same_items_def view_def fun_eq_iff)
  ultimately show ?thesis using True by blast
qed

lemma WithdrawMoney_cases:
  assumes "m = (ucast (atol (Tokenizer msg (CHR '':'') ! 1)) :: u32)"
  shows "out_only s (WithdrawMoney w msg s) \<or>
    (\<exists>s4. m \<le> gb_money s \<and> gb_playerRankIndex s \<le> 1 \<and> WithdrawMoney w msg s = SaveToDB s4 \<and> money_only s s4 \<and>
       gb_player s4 = ModifyMoney w m (gb_player s) \<and> gb_money s4 = gb_money s - m)"
proof -
  have acc: "CanAccessTab w 0 ACTION_WITHDRAW_MONEY s = (gb_playerRankIndex s \<le> 1, s)" by (simp add: CanAccessTab_def Let_def)
  show ?thesis
  proof (cases "length (Tokenizer msg (CHR '':'')) = 2 \<and> gb_playerRankIndex s \<le> 1 \<and> m \<le> gb_money s")
    case False
    then show ?thesis unfolding WithdrawMoney_def Let_def acc by (auto simp: assms not_le)
  next
    case True
    define s4 where "s4 = (SendGuildMessage (''GMoney:'' @ to_string (gb_money s - m))
      (LogAction w ACTION_WITHDRAW_MONEY 0 0 m None
        (upd_player (ModifyMoney w m) (s\<lparr>gb_money := gb_money s - m\<rparr>))))\<lparr>gb_money_changed := True\<rparr>"
    have "WithdrawMoney w msg s = SaveToDB s4"
      using True unfolding WithdrawMoney_def Let_def acc by (simp add: assms s4_def leD upd_player_def)
    moreover have pl: "gb_player s4 = ModifyMoney w m (gb_player s)" "gb_money s4 = gb_money s - m"
      by (simp_all add: s4_def message_defs upd_player_def)
    moreover have "money_only s s4"
      by (simp add: money_only_def pl(1)) (simp add: s4_def message_defs upd_player_def same_items_def view_def fun_eq_iff)
    ultimately show ?thesis using True by blast
  qed
qed

lemma money_messages_conserved:
  assumes "consistent w s" "pl_ok (gb_player s)"
  shows "conserved w s (DepositMoney w msg s)" "conserved w s (WithdrawMoney w msg s)"
  using DepositMoney_cases [OF refl, of s w msg] WithdrawMoney_cases [OF refl, of s w msg]
    conserved_out_only [OF assms] money_only_conserved(2) [OF assms] by auto

lemma DepositMoney_total:
  assumes "no_money_hook w" "total_money s \<le> 0x7FFFFFFE"
  shows "total_money (DepositMoney w msg s) = total_money s"
proof -
  let ?m = "atoi (Tokenizer msg (CHR '':'') ! 1)"
  have cap: "uint (pl_money (gb_player s)) \<le> 0x7FFFFFFE"
    using assms(2) uint_ge_0 [of "gb_money s"] unfolding total_money_def by linarith
  from DepositMoney_cases [OF refl, of s w msg] show ?thesis
  proof (elim disjE exE conjE)
    fix s4 assume s4: "?m \<le> pl_money (gb_player s)" "DepositMoney w msg s = SaveToDB s4"
      "gb_player s4 = ModifyMoney w (- ?m) (gb_player s)" "gb_money s4 = gb_money s + ?m"
    have "uint ?m \<le> uint (pl_money (gb_player s))" using s4(1) by (simp add: word_le_def)
    then have "uint (gb_money s + ?m) = uint (gb_money s) + uint ?m"
      using assms(2) by (simp add: total_money_def uint_word_ariths)
    then show ?thesis using pay [OF assms(1) s4(1) cap] by (simp add: s4(2-4) total_money_def)
  qed (rule total_money_out)
qed

lemma WithdrawMoney_total:
  assumes "no_money_hook w" "total_money s \<le> 0x7FFFFFFE"
  shows "total_money (WithdrawMoney w msg s) = total_money s"
proof -
  let ?m = "ucast (atol (Tokenizer msg (CHR '':'') ! 1)) :: u32"
  from WithdrawMoney_cases [OF refl, of s w msg] show ?thesis
  proof (elim disjE exE conjE)
    fix s4 assume s4: "?m \<le> gb_money s" "WithdrawMoney w msg s = SaveToDB s4"
      "gb_player s4 = ModifyMoney w ?m (gb_player s)" "gb_money s4 = gb_money s - ?m"
    have le: "uint ?m \<le> uint (gb_money s)" using s4(1) by (simp add: word_le_def)
    have "uint (gb_money s - ?m) = uint (gb_money s) - uint ?m" using s4(1) by (intro uint_minus_simple_alt [THEN iffD1]) simp
    moreover have "uint (pl_money (gb_player s)) + uint ?m \<le> 0x7FFFFFFE"
      using le assms(2) unfolding total_money_def by linarith
    ultimately show ?thesis using earn [OF assms(1)] by (simp add: s4(2-4) total_money_def)
  qed (rule total_money_out)
qed

text \<open>C15: deposits and withdrawals of money conserve it: as long as the bank and the purse together stay below the
  cap of a purse, no message changes their sum, and only the two highest ranks of the guild can
  take money out. The items, the pending changes and the inventory are left alone.\<close>

theorem money_conserved:
  assumes "consistent w s" "pl_ok (gb_player s)" "no_money_hook w" "total_money s \<le> 0x7FFFFFFE"
  shows "total_money (DepositMoney w msg s) = total_money s \<and> conserved w s (DepositMoney w msg s) \<and>
    total_money (WithdrawMoney w msg s) = total_money s \<and> conserved w s (WithdrawMoney w msg s) \<and>
    (gb_playerRankIndex s > 1 \<longrightarrow> out_only s (WithdrawMoney w msg s))"
  using DepositMoney_total [OF assms(3, 4)] WithdrawMoney_total [OF assms(3, 4)] money_messages_conserved [OF assms(1, 2)]
    WithdrawMoney_cases [OF refl, of s w msg] by (auto simp: not_less)

theorem money_conserved_witness:
  "total_money (DepositMoney sample_world ''DepositMoney:20000'' sample_bank) = 30500000 \<and>
   total_money (WithdrawMoney sample_world ''WithdrawMoney:20000'' sample_bank) = 30500000"
proof -
  have "no_money_hook sample_world" by (simp add: no_money_hook_def sample_world_def)
  moreover have "total_money sample_bank = 30500000" by (simp add: total_money_def sample_bank_def sample_player_def)
  moreover have "gb_player sample_bank = sample_player" by (simp add: sample_bank_def)
  ultimately show ?thesis
    using money_conserved [OF sample_bank_consistent] sample_player_ok by simp
qed

section \<open>Buying a tab\<close>

lemma unlocked_money_only:
  fixes s1 :: bank
  assumes "s2 = (LogAction w action 0 x cost None (SendGuildMessage m (s1\<lparr>gb_tabs := n\<rparr>)))\<lparr>gb_tabs_changed := True\<rparr>"
    "money_only s s1"
  shows "money_only s s2" "gb_tabs s2 = n" "total_money s2 = total_money s1"
  using assms by (simp_all add: money_only_def message_defs same_items_def view_def fun_eq_iff total_money_def)



section \<open>Runs\<close>

text \<open>
  One message of a player, or a save in between. The guards are what the code relies on: the
  counter of item guids is not used up, and the stacks and prototypes are valid.
\<close>

inductive bank_step :: "world \<Rightarrow> bank \<Rightarrow> bank \<Rightarrow> bool" for w where
  move: "bank_step w s (MoveItem_msg w m s)"
| split: "GetNewGuid s \<noteq> 0 \<Longrightarrow> bank_step w s (SplitItem w m s)"
| deposit: "GetNewGuid s \<noteq> 0 \<Longrightarrow> stacks_valid w (gb_player s) \<Longrightarrow> msg_num m 4 = 0 \<Longrightarrow>
    \<not> IsBagPos (fst (deposit_source m)) (snd (deposit_source m)) \<Longrightarrow> DepositItem w m s = Some s' \<Longrightarrow> bank_step w s s'"
| withdraw: "bags_sized w (gb_player s) \<Longrightarrow> stacks_valid w (gb_player s) \<Longrightarrow> list_all (withdrawable w) (stock s) \<Longrightarrow>
    plain_withdrawal m s \<Longrightarrow> WithdrawItem_msg w m s = Some s' \<Longrightarrow> bank_step w s s'"
| money_in: "bank_step w s (DepositMoney w m s)"
| money_out: "bank_step w s (WithdrawMoney w m s)"
| tab_items: "bank_step w s (SendTabItems w m s)"
| tab_log: "bank_step w s (SendTabLog m s)"
| money_log: "bank_step w s (SendMoneyLog m s)"
| bank_info: "bank_step w s (SendBankInfo s)"
| withdrawals_left: "bank_step w s (SendTabWithdrawalsLeft_msg w m s)"
| save: "bank_step w s (SaveToDB s)"

inductive_cases bank_stepE: "bank_step w s s'"

definition bank_good :: "world \<Rightarrow> bank \<Rightarrow> bool" where
  "bank_good w s = (consistent w s \<and> pl_ok (gb_player s))"

lemma conserved_good: "conserved w s s' \<Longrightarrow> bank_good w s' \<and> (\<lambda>e. holdings e s') = (\<lambda>e. holdings e s)"
  by (simp add: conserved_def bank_good_def)

lemma rearranged_conserved: "rearranged w P s s' \<Longrightarrow> pl_ok (gb_player s) \<Longrightarrow> conserved w s s'"
  by (simp add: rearranged_def conserved_def holdings_def)

lemma bank_step_conserved:
  assumes "bank_good w s" "bank_step w s s'"
  shows "conserved w s s'"
proof -
  have g: "consistent w s" "pl_ok (gb_player s)" using assms(1) by (simp_all add: bank_good_def)
  note query = conserved_out_only [OF g]
  from assms(2) show ?thesis
  proof cases
    case (move m)
    then show ?thesis using rearranged_conserved [OF move_message_rearranged [OF g(1)] g(2)] by simp
  next
    case (split m)
    then show ?thesis using rearranged_conserved [OF split_message_rearranged [OF g(1)] g(2)] by simp
  next
    case (deposit m)
    then show ?thesis using deposit_message_conserved [OF g(1) deposit(1) g(2) deposit(2-4)] by (auto simp: conserved_def)
  next
    case (withdraw m)
    then show ?thesis using withdraw_message_conserved [OF g withdraw(1-4)] by auto
  next
    case save
    then show ?thesis using g by (simp add: conserved_def consistent_SaveToDB holdings_def)
  qed (use g in \<open>simp_all add: money_messages_conserved query out_only_queries\<close>)
qed

interpretation bank: conserving "bank_step w" "bank_good w" "\<lambda>s e. holdings e s" for w
  by unfold_locales (rule conserved_good [OF bank_step_conserved])



end
