(* ===== verification/Utf8.thy ===== *)
theory Utf8
  imports Byte_Buffer
begin

text \<open>
  Text in packets is UTF-8; the server compares and changes names as sequences of 16-bit units. This
  theory holds the conversions of \<^verbatim>\<open>src/dep/include/utf8cpp\<close> (checked version), the letter case of
  \<^verbatim>\<open>src/src/shared/Util.h\<close> and \<^verbatim>\<open>normalizePlayerName\<close> of \<^verbatim>\<open>src/src/game/ObjectMgr.cpp\<close>. A wide
  character is a 32-bit word (\<^verbatim>\<open>wchar_t\<close>); an exception of the library is \<open>None\<close>, or the error code inside
  of it.
\<close>

section \<open>Code points\<close>

datatype utf_error =
    NOT_ENOUGH_ROOM | INVALID_LEAD | INCOMPLETE_SEQUENCE | OVERLONG_SEQUENCE | INVALID_CODE_POINT

abbreviation LEAD_SURROGATE_MIN :: u32 where "LEAD_SURROGATE_MIN \<equiv> 0xd800"
abbreviation LEAD_SURROGATE_MAX :: u32 where "LEAD_SURROGATE_MAX \<equiv> 0xdbff"
abbreviation TRAIL_SURROGATE_MIN :: u32 where "TRAIL_SURROGATE_MIN \<equiv> 0xdc00"
abbreviation TRAIL_SURROGATE_MAX :: u32 where "TRAIL_SURROGATE_MAX \<equiv> 0xdfff"
abbreviation LEAD_OFFSET :: u32 where "LEAD_OFFSET \<equiv> 0xd7c0"
abbreviation CODE_POINT_MAX :: u32 where "CODE_POINT_MAX \<equiv> 0x10ffff"

definition SURROGATE_OFFSET :: u32 where
  "SURROGATE_OFFSET = 0x10000 - push_bit 10 LEAD_SURROGATE_MIN - TRAIL_SURROGATE_MIN"

definition is_trail :: "u8 \<Rightarrow> bool" where
  "is_trail oc = (drop_bit 6 oc = 2)"

definition is_lead_surrogate :: "u32 \<Rightarrow> bool" where
  "is_lead_surrogate cp = (LEAD_SURROGATE_MIN \<le> cp \<and> cp \<le> LEAD_SURROGATE_MAX)"

definition is_trail_surrogate :: "u32 \<Rightarrow> bool" where
  "is_trail_surrogate cp = (TRAIL_SURROGATE_MIN \<le> cp \<and> cp \<le> TRAIL_SURROGATE_MAX)"

definition is_surrogate :: "u32 \<Rightarrow> bool" where
  "is_surrogate cp = (LEAD_SURROGATE_MIN \<le> cp \<and> cp \<le> TRAIL_SURROGATE_MAX)"

definition is_code_point_valid :: "u32 \<Rightarrow> bool" where
  "is_code_point_valid cp = (cp \<le> CODE_POINT_MAX \<and> \<not> is_surrogate cp \<and> cp \<noteq> 0xfffe \<and> cp \<noteq> 0xffff)"

definition sequence_length :: "u8 \<Rightarrow> nat" where
  "sequence_length lead =
     (if lead < 0x80 then 1
      else if drop_bit 5 lead = 0x6 then 2
      else if drop_bit 4 lead = 0xe then 3
      else if drop_bit 3 lead = 0x1e then 4
      else 0)"

definition is_overlong_sequence :: "u32 \<Rightarrow> nat \<Rightarrow> bool" where
  "is_overlong_sequence cp len =
     (if cp < 0x80 then len \<noteq> 1
      else if cp < 0x800 then len \<noteq> 2
      else if cp < 0x10000 then len \<noteq> 3
      else False)"

section \<open>Decoding\<close>

text \<open>The octets from the iterator to the end; the result is the code point.\<close>

fun get_sequence_1 :: "u8 list \<Rightarrow> utf_error + u32" where
  "get_sequence_1 (a # _) = Inr (ucast a)"
| "get_sequence_1 [] = Inl NOT_ENOUGH_ROOM"

fun get_sequence_2 :: "u8 list \<Rightarrow> utf_error + u32" where
  "get_sequence_2 (a # b # _) =
     (if is_trail b then Inr ((push_bit 6 (ucast a) AND 0x7ff) + (ucast b AND 0x3f))
      else Inl INCOMPLETE_SEQUENCE)"
| "get_sequence_2 _ = Inl NOT_ENOUGH_ROOM"

fun get_sequence_3 :: "u8 list \<Rightarrow> utf_error + u32" where
  "get_sequence_3 (a # b # rest) =
     (if is_trail b then
        (case rest of
           c # _ \<Rightarrow>
             if is_trail c
             then Inr ((push_bit 12 (ucast a) AND 0xffff) + (push_bit 6 (ucast b) AND 0xfff)
                       + (ucast c AND 0x3f))
             else Inl INCOMPLETE_SEQUENCE
         | [] \<Rightarrow> Inl NOT_ENOUGH_ROOM)
      else Inl INCOMPLETE_SEQUENCE)"
| "get_sequence_3 _ = Inl NOT_ENOUGH_ROOM"

fun get_sequence_4 :: "u8 list \<Rightarrow> utf_error + u32" where
  "get_sequence_4 (a # b # rest) =
     (if is_trail b then
        (case rest of
           c # rest' \<Rightarrow>
             if is_trail c then
               (case rest' of
                  d # _ \<Rightarrow>
                    if is_trail d
                    then Inr ((push_bit 18 (ucast a) AND 0x1fffff) + (push_bit 12 (ucast b) AND 0x3ffff)
                              + (push_bit 6 (ucast c) AND 0xfff) + (ucast d AND 0x3f))
                    else Inl INCOMPLETE_SEQUENCE
                | [] \<Rightarrow> Inl NOT_ENOUGH_ROOM)
             else Inl INCOMPLETE_SEQUENCE
         | [] \<Rightarrow> Inl NOT_ENOUGH_ROOM)
      else Inl INCOMPLETE_SEQUENCE)"
| "get_sequence_4 _ = Inl NOT_ENOUGH_ROOM"

definition get_sequence :: "nat \<Rightarrow> u8 list \<Rightarrow> utf_error + u32" where
  "get_sequence len bs =
     (if len = 1 then get_sequence_1 bs else if len = 2 then get_sequence_2 bs
      else if len = 3 then get_sequence_3 bs else get_sequence_4 bs)"

text \<open>The caller has checked that there is an octet; the rest is what the iterator then points to.\<close>

definition validate_next :: "u8 list \<Rightarrow> utf_error + (u32 \<times> u8 list)" where
  "validate_next bs =
     (let len = sequence_length (hd bs)
      in if len = 0 then Inl INVALID_LEAD
         else case get_sequence len bs of
                Inl e \<Rightarrow> Inl e
              | Inr cp \<Rightarrow>
                  if \<not> is_code_point_valid cp then Inl INVALID_CODE_POINT
                  else if is_overlong_sequence cp len then Inl OVERLONG_SEQUENCE
                  else Inr (cp, drop len bs))"

section \<open>Encoding\<close>

definition utf8_append :: "u32 \<Rightarrow> u8 list option" where
  "utf8_append cp =
     (if \<not> is_code_point_valid cp then None
      else Some
       (if cp < 0x80 then [ucast cp]
        else if cp < 0x800 then [ucast (drop_bit 6 cp OR 0xc0), ucast ((cp AND 0x3f) OR 0x80)]
        else if cp < 0x10000
        then [ucast (drop_bit 12 cp OR 0xe0), ucast ((drop_bit 6 cp AND 0x3f) OR 0x80),
              ucast ((cp AND 0x3f) OR 0x80)]
        else [ucast (drop_bit 18 cp OR 0xf0), ucast ((drop_bit 12 cp AND 0x3f) OR 0x80),
              ucast ((drop_bit 6 cp AND 0x3f) OR 0x80), ucast ((cp AND 0x3f) OR 0x80)]))"

section \<open>Strings\<close>

definition utf16_units :: "u32 \<Rightarrow> u32 list" where
  "utf16_units cp =
     (if cp > 0xffff
      then [(drop_bit 10 cp + LEAD_OFFSET) AND 0xffff, ((cp AND 0x3ff) + TRAIL_SURROGATE_MIN) AND 0xffff]
      else [cp AND 0xffff])"

lemma validate_next_shorter: "validate_next bs = Inr (cp, rest) \<Longrightarrow> bs \<noteq> [] \<Longrightarrow> length rest < length bs"
  by (auto simp: validate_next_def Let_def split: sum.splits if_splits)

function utf8to16 :: "u8 list \<Rightarrow> u32 list option" where
  "utf8to16 bs =
     (if bs = [] then Some []
      else case validate_next bs of
             Inl _ \<Rightarrow> None
           | Inr (cp, rest) \<Rightarrow> map_option ((@) (utf16_units cp)) (utf8to16 rest))"
  by pat_completeness auto
termination by (relation "measure length") (auto dest: validate_next_shorter)

declare utf8to16.simps [simp del]

fun utf16to8 :: "u32 list \<Rightarrow> u8 list option" where
  "utf16to8 [] = Some []"
| "utf16to8 (u # us) =
     (let cp = u AND 0xffff
      in if is_lead_surrogate cp then
           (case us of
              [] \<Rightarrow> None
            | t # us' \<Rightarrow>
                let trail = t AND 0xffff
                in if is_trail_surrogate trail
                   then Option.bind (utf8_append (push_bit 10 cp + trail + SURROGATE_OFFSET))
                          (\<lambda>bs. map_option ((@) bs) (utf16to8 us'))
                   else None)
         else if is_trail_surrogate cp then None
         else Option.bind (utf8_append cp) (\<lambda>bs. map_option ((@) bs) (utf16to8 us)))"

definition Utf8toWStr :: "string \<Rightarrow> u32 list option" where
  "Utf8toWStr s = utf8to16 (string_bytes s)"

definition WStrToUtf8 :: "u32 list \<Rightarrow> string option" where
  "WStrToUtf8 w = map_option (map char_of_byte) (utf16to8 w)"

section \<open>Letter case\<close>

definition wcharToUpper :: "u32 \<Rightarrow> u32" where
  "wcharToUpper c =
     (if 0x61 \<le> c \<and> c \<le> 0x7a then (c AND 0xffff) - 0x20
      else if c = 0xDF then 0x1E9E
      else if 0xE0 \<le> c \<and> c \<le> 0xF6 then (c AND 0xffff) - 0x20
      else if 0xF8 \<le> c \<and> c \<le> 0xFE then (c AND 0xffff) - 0x20
      else if 0x101 \<le> c \<and> c \<le> 0x12F \<and> c mod 2 = 1 then (c AND 0xffff) - 1
      else if 0x430 \<le> c \<and> c \<le> 0x44F then (c AND 0xffff) - 0x20
      else if c = 0x451 then 0x401
      else c)"

definition wcharToLower :: "u32 \<Rightarrow> u32" where
  "wcharToLower c =
     (if 0x41 \<le> c \<and> c \<le> 0x5A then (c AND 0xffff) + 0x20
      else if 0xC0 \<le> c \<and> c \<le> 0xD6 then (c AND 0xffff) + 0x20
      else if 0xD8 \<le> c \<and> c \<le> 0xDE then (c AND 0xffff) + 0x20
      else if 0x100 \<le> c \<and> c \<le> 0x12E \<and> c mod 2 = 0 then (c AND 0xffff) + 1
      else if c = 0x1E9E then 0xDF
      else if c = 0x401 then 0x451
      else if 0x410 \<le> c \<and> c \<le> 0x42F then (c AND 0xffff) + 0x20
      else c)"

text \<open>A name of one octet has the terminating zero behind it.\<close>

definition second_byte :: "string \<Rightarrow> u8" where
  "second_byte s = (case s of _ # c # _ \<Rightarrow> byte_of_char c | _ \<Rightarrow> 0)"

definition recase :: "u32 list \<Rightarrow> u32 list" where
  "recase w = (case w of [] \<Rightarrow> [] | c # cs \<Rightarrow> wcharToUpper c # map wcharToLower cs)"

definition normalizePlayerName :: "nat \<Rightarrow> bool \<Rightarrow> string \<Rightarrow> string option" where
  "normalizePlayerName max_len checkCaps name =
     (if name = [] then None
      else if byte_of_char (hd name) = 0xC3 \<and> second_byte name = 0x9F then None
      else case Utf8toWStr name of
             None \<Rightarrow> None
           | Some w \<Rightarrow>
               if length w > max_len then None
               else WStrToUtf8 (if checkCaps then recase w else w))"


section \<open>Arithmetic of the encoding\<close>

text \<open>Masks and shifts as division and remainder of the numbers.\<close>

lemma unat_and_mask:
  "unat (w AND 0x3f) = unat w mod 64" "unat (w AND 0x7ff) = unat w mod 2048"
  "unat (w AND 0xfff) = unat w mod 4096" "unat (w AND 0xffff) = unat w mod 65536"
  "unat (w AND 0x3ffff) = unat w mod 262144" "unat (w AND 0x1fffff) = unat w mod 2097152"
  "unat (w AND 0x3ff) = unat w mod 1024" for w :: u32
proof -
  have *: "unat (w AND mask n) = unat w mod 2 ^ n" for n
    by (metis take_bit_eq_mask take_bit_eq_mod unsigned_take_bit_eq)
  show "unat (w AND 0x3f) = unat w mod 64" using * [of 6] by (simp add: mask_eq_exp_minus_1)
  show "unat (w AND 0x7ff) = unat w mod 2048" using * [of 11] by (simp add: mask_eq_exp_minus_1)
  show "unat (w AND 0xfff) = unat w mod 4096" using * [of 12] by (simp add: mask_eq_exp_minus_1)
  show "unat (w AND 0xffff) = unat w mod 65536" using * [of 16] by (simp add: mask_eq_exp_minus_1)
  show "unat (w AND 0x3ffff) = unat w mod 262144" using * [of 18] by (simp add: mask_eq_exp_minus_1)
  show "unat (w AND 0x1fffff) = unat w mod 2097152" using * [of 21] by (simp add: mask_eq_exp_minus_1)
  show "unat (w AND 0x3ff) = unat w mod 1024" using * [of 10] by (simp add: mask_eq_exp_minus_1)
qed

lemma unat_shift_up: "unat (push_bit n (ucast b :: u32)) = unat b * 2 ^ n" if "n \<le> 24" for b :: u8
proof -
  have "(2 :: nat) ^ n \<le> 2 ^ 24" using that by (rule power_increasing) simp
  then have "unat b * 2 ^ n < 2 ^ 8 * 2 ^ 24"
    using unat_less_2p [of b] by (intro mult_less_le_imp_less) simp_all
  then show ?thesis
    by (simp add: unsigned_push_bit_eq take_bit_nat_eq_self flip: push_bit_eq_mult)
qed

lemma and_zero_of_small:
  "w < 0x40 \<Longrightarrow> w AND 0x80 = 0" "w < 0x20 \<Longrightarrow> w AND 0xc0 = 0"
  "w < 0x10 \<Longrightarrow> w AND 0xe0 = 0" "w < 0x8 \<Longrightarrow> w AND 0xf0 = 0" for w :: u32
proof -
  have *: "w = w AND mask n" if "unat w < 2 ^ n" for n
    using that by (metis take_bit_eq_mask take_bit_nat_eq_self unsigned_take_bit_eq word_unat_eq_iff)
  show "w AND 0x80 = 0" if "w < 0x40"
  proof -
    have "w = w AND 0x3f" using * [of 6] that by (simp add: mask_eq_exp_minus_1 word_less_nat_alt)
    then have "w AND 0x80 = w AND (0x3f AND 0x80)" by (metis and.assoc)
    then show ?thesis by simp
  qed
  show "w AND 0xc0 = 0" if "w < 0x20"
  proof -
    have "w = w AND 0x1f" using * [of 5] that by (simp add: mask_eq_exp_minus_1 word_less_nat_alt)
    then have "w AND 0xc0 = w AND (0x1f AND 0xc0)" by (metis and.assoc)
    then show ?thesis by simp
  qed
  show "w AND 0xe0 = 0" if "w < 0x10"
  proof -
    have "w = w AND 0xf" using * [of 4] that by (simp add: mask_eq_exp_minus_1 word_less_nat_alt)
    then have "w AND 0xe0 = w AND (0xf AND 0xe0)" by (metis and.assoc)
    then show ?thesis by simp
  qed
  show "w AND 0xf0 = 0" if "w < 0x8"
  proof -
    have "w = w AND 0x7" using * [of 3] that by (simp add: mask_eq_exp_minus_1 word_less_nat_alt)
    then have "w AND 0xf0 = w AND (0x7 AND 0xf0)" by (metis and.assoc)
    then show ?thesis by simp
  qed
qed

lemma unat_octet: "unat (ucast (w OR c) :: u8) = unat w + unat c"
  if "w AND c = 0" "unat w + unat c < 256" for w c :: u32
proof -
  have "w OR c = w + c" using that(1) by (metis disjunctive_add_eq_or)
  moreover have "unat (w + c) = unat w + unat c" using that(2) by (intro unat_plus_small) simp
  ultimately show ?thesis using that(2) by (simp add: unsigned_ucast_eq take_bit_nat_eq_self)
qed

text \<open>The octets of an encoding, as numbers.\<close>

lemma trail_octet:
  "unat (ucast ((w AND 0x3f) OR 0x80) :: u8) = 128 + unat w mod 64" for w :: u32
proof -
  have "w AND 0x3f < 0x40" by (simp add: word_less_nat_alt unat_and_mask)
  moreover have "unat w mod 64 + 128 < 256" using pos_mod_bound [of 64 "int (unat w)"] by linarith
  ultimately show ?thesis
    by (simp add: unat_octet and_zero_of_small unat_and_mask del: and_numerals)
qed

lemma lead_octets:
  "unat cp < 2048 \<Longrightarrow> unat (ucast (drop_bit 6 cp OR 0xc0) :: u8) = 192 + unat cp div 64"
  "unat cp < 65536 \<Longrightarrow> unat (ucast (drop_bit 12 cp OR 0xe0) :: u8) = 224 + unat cp div 4096"
  "unat cp < 2097152 \<Longrightarrow> unat (ucast (drop_bit 18 cp OR 0xf0) :: u8) = 240 + unat cp div 262144"
  for cp :: u32
proof -
  have d: "unat (drop_bit n cp) = unat cp div 2 ^ n" for n by (metis drop_bit_eq_div unat_drop_bit_eq)
  show "unat (ucast (drop_bit 6 cp OR 0xc0) :: u8) = 192 + unat cp div 64" if "unat cp < 2048"
    using that d [of 6] unat_octet [of "drop_bit 6 cp" "0xc0"] and_zero_of_small(2) [of "drop_bit 6 cp"]
    by (simp add: word_less_nat_alt less_mult_imp_div_less)
  show "unat (ucast (drop_bit 12 cp OR 0xe0) :: u8) = 224 + unat cp div 4096" if "unat cp < 65536"
    using that d [of 12] unat_octet [of "drop_bit 12 cp" "0xe0"] and_zero_of_small(3) [of "drop_bit 12 cp"]
    by (simp add: word_less_nat_alt less_mult_imp_div_less)
  show "unat (ucast (drop_bit 18 cp OR 0xf0) :: u8) = 240 + unat cp div 262144" if "unat cp < 2097152"
    using that d [of 18] unat_octet [of "drop_bit 18 cp" "0xf0"] and_zero_of_small(4) [of "drop_bit 18 cp"]
    by (simp add: word_less_nat_alt less_mult_imp_div_less)
qed


text \<open>The classes of octets and the code points that the sequences give, as numbers.\<close>

lemma unat_octet_less: "unat b < 256" for b :: u8
  using unat_less_2p [of b] by simp

lemma unat_drop_octet: "unat (drop_bit n b) = unat b div 2 ^ n" for b :: u8
  by (metis drop_bit_eq_div unat_drop_bit_eq)

lemma is_trail_nat: "is_trail b \<longleftrightarrow> unat b div 64 = 2"
  using unat_drop_octet [of 6 b] by (simp add: is_trail_def word_unat_eq_iff)

lemma sequence_length_nat:
  "sequence_length b =
     (if unat b < 128 then 1 else if unat b div 32 = 6 then 2 else if unat b div 16 = 14 then 3
      else if unat b div 8 = 30 then 4 else 0)"
  using unat_drop_octet [of 5 b] unat_drop_octet [of 4 b] unat_drop_octet [of 3 b]
  by (simp add: sequence_length_def word_unat_eq_iff word_less_nat_alt)

lemma digit_shift:
  "k * 64 mod 2048 = k mod 32 * 64" "k * 64 mod 4096 = k mod 64 * 64" "k * 4096 mod 65536 = k mod 16 * 4096"
  "k * 4096 mod 262144 = k mod 64 * 4096" "k * 262144 mod 2097152 = k mod 8 * 262144" for k :: nat
  using mod_mult_mult2 [of k 64 32] mod_mult_mult2 [of k 64 64] mod_mult_mult2 [of k 4096 16]
    mod_mult_mult2 [of k 4096 64] mod_mult_mult2 [of k 262144 8] by simp_all

lemma sequence_value_2:
  "unat ((push_bit 6 (ucast a) AND 0x7ff) + (ucast b AND 0x3f) :: u32) = unat a mod 32 * 64 + unat b mod 64"
  for a b :: u8
  using mod_less_divisor [of 32 "unat a"] mod_less_divisor [of 64 "unat b"]
  by (subst unat_plus_small) (simp_all add: unat_and_mask unat_shift_up digit_shift)

lemma sequence_value_3:
  "unat ((push_bit 12 (ucast a) AND 0xffff) + (push_bit 6 (ucast b) AND 0xfff) + (ucast c AND 0x3f) :: u32) =
     unat a mod 16 * 4096 + unat b mod 64 * 64 + unat c mod 64" for a b c :: u8
proof -
  note bounds = mod_less_divisor [of 16 "unat a"] mod_less_divisor [of 64 "unat b"] mod_less_divisor [of 64 "unat c"]
  have "unat ((push_bit 12 (ucast a) AND 0xffff) + (push_bit 6 (ucast b) AND 0xfff) :: u32) =
     unat a mod 16 * 4096 + unat b mod 64 * 64"
    using bounds by (subst unat_plus_small) (simp_all add: unat_and_mask unat_shift_up digit_shift)
  then show ?thesis
    using bounds by (subst unat_plus_small) (simp_all add: unat_and_mask unat_shift_up digit_shift)
qed

lemma sequence_value_4:
  "unat ((push_bit 18 (ucast a) AND 0x1fffff) + (push_bit 12 (ucast b) AND 0x3ffff)
         + (push_bit 6 (ucast c) AND 0xfff) + (ucast d AND 0x3f) :: u32) =
     unat a mod 8 * 262144 + unat b mod 64 * 4096 + unat c mod 64 * 64 + unat d mod 64" for a b c d :: u8
proof -
  note bounds = mod_less_divisor [of 8 "unat a"] mod_less_divisor [of 64 "unat b"]
    mod_less_divisor [of 64 "unat c"] mod_less_divisor [of 64 "unat d"]
  have 1: "unat ((push_bit 18 (ucast a) AND 0x1fffff) + (push_bit 12 (ucast b) AND 0x3ffff) :: u32) =
     unat a mod 8 * 262144 + unat b mod 64 * 4096"
    using bounds by (subst unat_plus_small) (simp_all add: unat_and_mask unat_shift_up digit_shift)
  have "unat ((push_bit 18 (ucast a) AND 0x1fffff) + (push_bit 12 (ucast b) AND 0x3ffff)
        + (push_bit 6 (ucast c) AND 0xfff) :: u32) =
     unat a mod 8 * 262144 + unat b mod 64 * 4096 + unat c mod 64 * 64"
    using bounds by (subst unat_plus_small) (simp_all add: 1 unat_and_mask unat_shift_up digit_shift)
  then show ?thesis
    using bounds by (subst unat_plus_small) (simp_all add: unat_and_mask unat_shift_up digit_shift)
qed

lemma valid_less: "is_code_point_valid cp \<Longrightarrow> unat cp < 1114112"
  by (simp add: is_code_point_valid_def word_le_nat_alt)

section \<open>Encoding and decoding are inverse\<close>

text \<open>The encoding of a number, written without words.\<close>

definition octets :: "nat \<Rightarrow> nat list" where
  "octets n =
     (if n < 128 then [n]
      else if n < 2048 then [192 + n div 64, 128 + n mod 64]
      else if n < 65536 then [224 + n div 4096, 128 + n div 64 mod 64, 128 + n mod 64]
      else [240 + n div 262144, 128 + n div 4096 mod 64, 128 + n div 64 mod 64, 128 + n mod 64])"

lemma utf8_append_octets:
  "utf8_append cp = Some bs \<longleftrightarrow> is_code_point_valid cp \<and> map unat bs = octets (unat cp)"
proof (cases "is_code_point_valid cp")
  case True
  then obtain bs' where bs': "utf8_append cp = Some bs'" by (simp add: utf8_append_def)
  have d: "unat (drop_bit n cp) = unat cp div 2 ^ n" for n by (metis drop_bit_eq_div unat_drop_bit_eq)
  have "unat (ucast cp :: u8) = unat cp" if "unat cp < 128"
    using that by (simp add: unsigned_ucast_eq take_bit_nat_eq_self)
  then have "map unat bs' = octets (unat cp)"
    using bs' True valid_less [OF True] d [of 6] d [of 12]
    by (auto simp: utf8_append_def octets_def trail_octet lead_octets word_less_nat_alt split: if_splits)
  moreover have "inj (unat :: u8 \<Rightarrow> nat)" by (auto simp: inj_def word_unat_eq_iff)
  then have "map unat bs = map unat bs' \<longleftrightarrow> bs = bs'" by (rule inj_map_eq_map)
  ultimately show ?thesis using True bs' by auto
qed (simp add: utf8_append_def)


lemma lead_octet_nat:
  "sequence_length a = 1 \<Longrightarrow> unat a < 128"
  "sequence_length a = 2 \<Longrightarrow> unat a = 192 + unat a mod 32"
  "sequence_length a = 3 \<Longrightarrow> unat a = 224 + unat a mod 16"
  "sequence_length a = 4 \<Longrightarrow> unat a = 240 + unat a mod 8"
proof -
  have *: "unat a div m = q \<Longrightarrow> unat a = m * q + unat a mod m" for m q by (metis mult_div_mod_eq)
  show "sequence_length a = 1 \<Longrightarrow> unat a < 128" by (auto simp: sequence_length_nat split: if_splits)
  show "sequence_length a = 2 \<Longrightarrow> unat a = 192 + unat a mod 32" using * [of 32 6]
    by (auto simp: sequence_length_nat split: if_splits)
  show "sequence_length a = 3 \<Longrightarrow> unat a = 224 + unat a mod 16" using * [of 16 14]
    by (auto simp: sequence_length_nat split: if_splits)
  show "sequence_length a = 4 \<Longrightarrow> unat a = 240 + unat a mod 8" using * [of 8 30]
    by (auto simp: sequence_length_nat split: if_splits)
qed

lemma trail_octet_nat: "is_trail b \<Longrightarrow> unat b = 128 + unat b mod 64"
  using div_mult_mod_eq [of "unat b" 64] by (simp add: is_trail_nat)

text \<open>Octets with the digits of a number are its encoding.\<close>

lemma octets_digits:
  "y < 64 \<Longrightarrow> x < 32 \<Longrightarrow> 128 \<le> x * 64 + y \<Longrightarrow> octets (x * 64 + y) = [192 + x, 128 + y]"
  "z < 64 \<Longrightarrow> y < 64 \<Longrightarrow> x < 16 \<Longrightarrow> 2048 \<le> x * 4096 + y * 64 + z \<Longrightarrow>
     octets (x * 4096 + y * 64 + z) = [224 + x, 128 + y, 128 + z]"
  "v < 64 \<Longrightarrow> z < 64 \<Longrightarrow> y < 64 \<Longrightarrow> x < 8 \<Longrightarrow> 65536 \<le> x * 262144 + y * 4096 + z * 64 + v \<Longrightarrow>
     octets (x * 262144 + y * 4096 + z * 64 + v) = [240 + x, 128 + y, 128 + z, 128 + v]"
proof -
  have d3: "(x * 4096 + y * 64 + z) div 64 = x * 64 + y" if "z < 64" for x y z :: nat
    using that div_mult_self3 [of 64 "x * 64 + y" z] by (simp add: algebra_simps)
  have d4: "(x * 64 + y) div 64 = x" "(x * 64 + y) mod 64 = y" if "y < 64" for x y :: nat using that by simp_all
  show "octets (x * 64 + y) = [192 + x, 128 + y]" if "y < 64" "x < 32" "128 \<le> x * 64 + y" for x y
    using that by (simp add: octets_def d4)
  show "octets (x * 4096 + y * 64 + z) = [224 + x, 128 + y, 128 + z]"
    if "z < 64" "y < 64" "x < 16" "2048 \<le> x * 4096 + y * 64 + z" for x y z
  proof -
    have "(x * 4096 + y * 64 + z) div 4096 = x" using that by linarith
    moreover have "(x * 4096 + y * 64 + z) mod 64 = z"
      using that d4(2) [of z "x * 64 + y"] by (simp add: algebra_simps)
    ultimately show ?thesis using that by (simp add: octets_def d3 d4)
  qed
  show "octets (x * 262144 + y * 4096 + z * 64 + v) = [240 + x, 128 + y, 128 + z, 128 + v]"
    if "v < 64" "z < 64" "y < 64" "x < 8" "65536 \<le> x * 262144 + y * 4096 + z * 64 + v" for x y z v
  proof -
    have 1: "x * 262144 + y * 4096 + z * 64 + v = (x * 64 + y) * 4096 + z * 64 + v"
      and 2: "x * 262144 + y * 4096 + z * 64 + v = (x * 4096 + y * 64 + z) * 64 + v" by simp_all
    have "(x * 262144 + y * 4096 + z * 64 + v) div 262144 = x" using that by linarith
    moreover have "(x * 262144 + y * 4096 + z * 64 + v) div 4096 = x * 64 + y" using that by linarith
    moreover have "(x * 262144 + y * 4096 + z * 64 + v) div 64 = (x * 64 + y) * 64 + z"
      unfolding 2 using that by (simp add: d4)
    then have "(x * 262144 + y * 4096 + z * 64 + v) div 64 mod 64 = z" using d4(2) [OF that(2)] by metis
    moreover have "(x * 262144 + y * 4096 + z * 64 + v) mod 64 = v"
      unfolding 2 using that(1) by (rule d4)
    ultimately show ?thesis using that by (simp add: octets_def d4)
  qed
qed


lemma decode_is_encoding:
  assumes "validate_next bs = Inr (cp, rest)" and "bs \<noteq> []"
  shows "\<exists>pre. bs = pre @ rest \<and> utf8_append cp = Some pre"
proof -
  obtain a bs' where bs: "bs = a # bs'" using assms(2) by (cases bs) simp
  have ok: "get_sequence (sequence_length a) bs = Inr cp" "is_code_point_valid cp"
    "\<not> is_overlong_sequence cp (sequence_length a)" "rest = drop (sequence_length a) bs"
    using assms(1) bs by (auto simp: validate_next_def Let_def split: if_splits sum.splits)
  have "sequence_length a \<noteq> 0"
    using assms(1) bs by (auto simp: validate_next_def Let_def split: if_splits)
  then consider "sequence_length a = 1" | "sequence_length a = 2" | "sequence_length a = 3" | "sequence_length a = 4"
    by (auto simp: sequence_length_def split: if_splits)
  then show ?thesis
  proof cases
    case 1
    then have "unat cp = unat a" using ok bs by (auto simp: get_sequence_def)
    then have "map unat [a] = octets (unat cp)" using lead_octet_nat(1) [OF 1] by (simp add: octets_def)
    then show ?thesis using 1 ok bs by (auto simp: utf8_append_octets)
  next
    case 2
    then obtain b bs'' where b: "bs' = b # bs''" "is_trail b"
      "unat cp = unat a mod 32 * 64 + unat b mod 64"
      using ok bs by (cases bs') (auto simp: get_sequence_def sequence_value_2 split: if_splits)
    have "128 \<le> unat cp" using ok(3) 2 by (auto simp: is_overlong_sequence_def word_less_nat_alt split: if_splits)
    then have "map unat [a, b] = octets (unat cp)"
      using b octets_digits(1) [of "unat b mod 64" "unat a mod 32"] lead_octet_nat(2) [OF 2] trail_octet_nat [of b]
      by simp
    then show ?thesis using 2 ok bs b by (auto simp: utf8_append_octets)
  next
    case 3
    then obtain b c bs'' where b: "bs' = b # c # bs''" "is_trail b" "is_trail c"
      "unat cp = unat a mod 16 * 4096 + unat b mod 64 * 64 + unat c mod 64"
      using ok bs by (cases bs'; cases "tl bs'") (auto simp: get_sequence_def sequence_value_3 split: if_splits)
    have "2048 \<le> unat cp" using ok(3) 3 by (auto simp: is_overlong_sequence_def word_less_nat_alt split: if_splits)
    then have "map unat [a, b, c] = octets (unat cp)"
      using b octets_digits(2) [of "unat c mod 64" "unat b mod 64" "unat a mod 16"] lead_octet_nat(3) [OF 3]
        trail_octet_nat [of b] trail_octet_nat [of c] by simp
    then show ?thesis using 3 ok bs b by (auto simp: utf8_append_octets)
  next
    case 4
    then obtain b c d bs'' where b: "bs' = b # c # d # bs''" "is_trail b" "is_trail c" "is_trail d"
      "unat cp = unat a mod 8 * 262144 + unat b mod 64 * 4096 + unat c mod 64 * 64 + unat d mod 64"
      using ok bs by (cases bs'; cases "tl bs'"; cases "tl (tl bs')")
        (auto simp: get_sequence_def sequence_value_4 split: if_splits)
    have "65536 \<le> unat cp" using ok(3) 4 by (auto simp: is_overlong_sequence_def word_less_nat_alt split: if_splits)
    then have "map unat [a, b, c, d] = octets (unat cp)"
      using b octets_digits(3) [of "unat d mod 64" "unat c mod 64" "unat b mod 64" "unat a mod 8"]
        lead_octet_nat(4) [OF 4] trail_octet_nat [of b] trail_octet_nat [of c] trail_octet_nat [of d] by simp
    then show ?thesis using 4 ok bs b by (auto simp: utf8_append_octets)
  qed
qed


lemma validate_nextI:
  assumes "sequence_length a = len" "len \<noteq> 0" "get_sequence len (a # bs) = Inr cp" "is_code_point_valid cp"
    and "\<not> is_overlong_sequence cp len"
  shows "validate_next (a # bs) = Inr (cp, drop len (a # bs))"
  using assms by (simp add: validate_next_def)

lemma digits_back:
  "n = n div 64 * 64 + n mod 64" "n = n div 4096 * 4096 + n div 64 mod 64 * 64 + n mod 64"
  "n = n div 262144 * 262144 + n div 4096 mod 64 * 4096 + n div 64 mod 64 * 64 + n mod 64" for n :: nat
proof -
  have *: "k = k div 64 * 64 + k mod 64" for k :: nat by simp
  have **: "n div 4096 = n div 64 div 64" "n div 262144 = n div 4096 div 64" by (simp_all flip: div_mult2_eq)
  show "n = n div 64 * 64 + n mod 64" by (rule *)
  show "n = n div 4096 * 4096 + n div 64 mod 64 * 64 + n mod 64"
    using * [of n] * [of "n div 64"] ** by linarith
  then show "n = n div 262144 * 262144 + n div 4096 mod 64 * 4096 + n div 64 mod 64 * 64 + n mod 64"
    using * [of "n div 4096"] ** by linarith
qed

lemma digit_mods:
  "x < 32 \<Longrightarrow> (192 + x) mod 32 = x" "x < 16 \<Longrightarrow> (224 + x) mod 16 = x" "x < 8 \<Longrightarrow> (240 + x) mod 8 = x"
  "(128 + k mod 64) mod 64 = k mod 64" for x k :: nat
  using mod_mult_self2 [of x 32 6] mod_mult_self2 [of x 16 14] mod_mult_self2 [of x 8 30]
    mod_mult_self2 [of "k mod 64" 64 2] by (simp_all add: add.commute)

lemma octet_classes:
  "unat a = 192 + x \<Longrightarrow> x < 32 \<Longrightarrow> sequence_length a = 2" "unat a = 224 + x \<Longrightarrow> x < 16 \<Longrightarrow> sequence_length a = 3"
  "unat a = 240 + x \<Longrightarrow> x < 8 \<Longrightarrow> sequence_length a = 4" "unat a = 128 + k mod 64 \<Longrightarrow> is_trail a"
proof -
  show "sequence_length a = 2" if "unat a = 192 + x" "x < 32"
  proof -
    have "unat a div 32 = 6" using that by linarith
    then show ?thesis using that by (simp add: sequence_length_nat)
  qed
  show "sequence_length a = 3" if "unat a = 224 + x" "x < 16"
  proof -
    have "unat a div 16 = 14" "unat a div 32 = 7" using that by linarith+
    then show ?thesis using that by (simp add: sequence_length_nat)
  qed
  show "sequence_length a = 4" if "unat a = 240 + x" "x < 8"
  proof -
    have "unat a div 8 = 30" "unat a div 16 = 15" "unat a div 32 = 7" using that by linarith+
    then show ?thesis using that by (simp add: sequence_length_nat)
  qed
  show "is_trail a" if "unat a = 128 + k mod 64"
  proof -
    have "unat a div 64 = 2" using that mod_less_divisor [of 64 k] by linarith
    then show ?thesis by (simp add: is_trail_nat)
  qed
qed

lemma encoding_decodes:
  assumes "utf8_append cp = Some bs"
  shows "validate_next (bs @ rest) = Inr (cp, rest)"
proof -
  have v: "is_code_point_valid cp" and o: "map unat bs = octets (unat cp)"
    using assms by (simp_all add: utf8_append_octets)
  note over = is_overlong_sequence_def word_less_nat_alt
  consider "unat cp < 128" | "128 \<le> unat cp" "unat cp < 2048" | "2048 \<le> unat cp" "unat cp < 65536"
    | "65536 \<le> unat cp" "unat cp < 1114112"
    using valid_less [OF v] by linarith
  then show ?thesis
  proof cases
    case 1
    then obtain a where a: "bs = [a]" "unat a = unat cp" using o by (auto simp: octets_def)
    then have "(ucast a :: u32) = cp" by (simp add: word_unat_eq_iff)
    then show ?thesis
      using v 1 a validate_nextI [of a 1 rest cp] by (simp add: sequence_length_nat get_sequence_def over)
  next
    case 2
    then obtain a b where ab: "bs = [a, b]" "unat a = 192 + unat cp div 64" "unat b = 128 + unat cp mod 64"
      using o by (auto simp: octets_def)
    moreover have "unat cp div 64 < 32" using 2 by linarith
    ultimately have "(push_bit 6 (ucast a) AND 0x7ff) + (ucast b AND 0x3f) = cp"
      using digits_back(1) [of "unat cp"]
      by (simp only: word_unat_eq_iff sequence_value_2 digit_mods)
    then show ?thesis
      using v 2 ab octet_classes(1) [OF ab(2)] octet_classes(4) [OF ab(3)] validate_nextI [of a 2 "b # rest" cp]
      by (simp add: get_sequence_def over)
  next
    case 3
    then obtain a b c where abc: "bs = [a, b, c]" "unat a = 224 + unat cp div 4096"
      "unat b = 128 + unat cp div 64 mod 64" "unat c = 128 + unat cp mod 64" using o by (auto simp: octets_def)
    moreover have x: "unat cp div 4096 < 16" using 3 by linarith
    ultimately have "(push_bit 12 (ucast a) AND 0xffff) + (push_bit 6 (ucast b) AND 0xfff) + (ucast c AND 0x3f) = cp"
      using digits_back(2) [of "unat cp"]
      by (simp only: word_unat_eq_iff sequence_value_3 digit_mods)
    then show ?thesis
      using v 3 abc octet_classes(2) [OF abc(2) x] octet_classes(4) [OF abc(3)] octet_classes(4) [OF abc(4)]
        validate_nextI [of a 3 "b # c # rest" cp]
      by (simp add: get_sequence_def over)
  next
    case 4
    then obtain a b c d where abcd: "bs = [a, b, c, d]" "unat a = 240 + unat cp div 262144"
      "unat b = 128 + unat cp div 4096 mod 64" "unat c = 128 + unat cp div 64 mod 64"
      "unat d = 128 + unat cp mod 64" using o by (auto simp: octets_def)
    moreover have x: "unat cp div 262144 < 8" using 4 by linarith
    ultimately have "(push_bit 18 (ucast a) AND 0x1fffff) + (push_bit 12 (ucast b) AND 0x3ffff)
         + (push_bit 6 (ucast c) AND 0xfff) + (ucast d AND 0x3f) = cp"
      using digits_back(3) [of "unat cp"]
      by (simp only: word_unat_eq_iff sequence_value_4 digit_mods)
    then show ?thesis
      using v 4 abcd octet_classes(3) [OF abcd(2) x] octet_classes(4) [OF abcd(3)] octet_classes(4) [OF abcd(4)]
        octet_classes(4) [OF abcd(5)] validate_nextI [of a 4 "b # c # d # rest" cp]
      by (simp add: get_sequence_def over)
  qed
qed


section \<open>Surrogate pairs\<close>

definition is_unit :: "u32 \<Rightarrow> bool" where
  "is_unit u = (unat u < 65536)"

lemma unit_and: "is_unit u \<Longrightarrow> u AND 0xffff = u"
  by (simp add: is_unit_def word_unat_eq_iff unat_and_mask)

lemma surrogate_nat:
  "is_lead_surrogate u \<longleftrightarrow> 0xd800 \<le> unat u \<and> unat u < 0xdc00"
  "is_trail_surrogate u \<longleftrightarrow> 0xdc00 \<le> unat u \<and> unat u < 0xe000"
  by (auto simp: is_lead_surrogate_def is_trail_surrogate_def word_le_nat_alt)

lemma pair_units_nat:
  assumes "unat cp < 1114112" and "65536 \<le> unat cp"
  shows "unat ((drop_bit 10 cp + LEAD_OFFSET) AND 0xffff) = unat cp div 1024 + 0xd7c0" (is ?lead)
    and "unat (((cp AND 0x3ff) + TRAIL_SURROGATE_MIN) AND 0xffff) = unat cp mod 1024 + 0xdc00" (is ?trail)
proof -
  have d: "unat (drop_bit 10 cp) = unat cp div 1024" using unat_drop_bit_eq [of 10 cp] by (simp add: drop_bit_eq_div)
  have "unat cp div 1024 < 1088" using assms(1) by linarith
  then show ?lead by (simp add: unat_and_mask unat_plus_small d)
  have "unat cp mod 1024 < 1024" by simp
  then show ?trail by (simp add: unat_and_mask unat_plus_small)
qed

lemma pair_value_nat:
  assumes "is_lead_surrogate l" and "is_trail_surrogate t"
  shows "unat (push_bit 10 l + t + SURROGATE_OFFSET) = (unat l - 0xd800) * 1024 + (unat t - 0xdc00) + 0x10000"
proof -
  define n where "n = (unat l - 0xd800) * 1024 + (unat t - 0xdc00) + 0x10000"
  have n: "n < 2 ^ 32" "n = unat l * 1024 + unat t + 0x10000 - 0xd800 * 1024 - 0xdc00"
    using assms by (auto simp: n_def surrogate_nat)
  have l: "l = word_of_nat (unat l)" and t: "t = word_of_nat (unat t)" by simp_all
  have "n + 0xd800 * 1024 + 0xdc00 = unat l * 1024 + unat t + 0x10000"
    using assms unfolding n_def surrogate_nat by linarith
  then have "(word_of_nat (n + 0xd800 * 1024 + 0xdc00) :: u32) = word_of_nat (unat l * 1024 + unat t + 0x10000)"
    by (rule arg_cong)
  then have "word_of_nat n + 0x360DC00 = l * 1024 + t + (0x10000 :: u32)" by simp
  then have "word_of_nat n = l * 1024 + t + 0x10000 - (0x360DC00 :: u32)" by (rule eq_diff_eq [THEN iffD2])
  moreover have "SURROGATE_OFFSET = 0x10000 - 0x360DC00" "push_bit 10 l = l * 1024"
    by (simp_all add: SURROGATE_OFFSET_def push_bit_eq_mult)
  ultimately have "word_of_nat n = push_bit 10 l + t + SURROGATE_OFFSET" by (metis add_diff_eq)
  then have "unat (push_bit 10 l + t + SURROGATE_OFFSET) = unat (word_of_nat n :: u32)" by simp
  also have "\<dots> = n" using n(1) by (simp add: unsigned_of_nat take_bit_nat_eq_self)
  finally show ?thesis by (simp add: n_def)
qed


text \<open>The units of a code point, and the code point of units.\<close>

lemma units_are_units: "is_code_point_valid cp \<Longrightarrow> u \<in> set (utf16_units cp) \<Longrightarrow> is_unit u"
  by (auto simp: utf16_units_def is_unit_def unat_and_mask split: if_splits)

lemma utf16to8_units:
  assumes "is_code_point_valid cp"
  shows "utf16to8 (utf16_units cp @ us) = Option.bind (utf8_append cp) (\<lambda>bs. map_option ((@) bs) (utf16to8 us))"
proof (cases "65536 \<le> unat cp")
  case True
  define l t where "l = (drop_bit 10 cp + LEAD_OFFSET) AND 0xffff" and "t = ((cp AND 0x3ff) + TRAIL_SURROGATE_MIN) AND 0xffff"
  note n = pair_units_nat [OF valid_less [OF assms] True, folded l_def t_def]
  have x: "unat cp div 1024 < 1088" "64 \<le> unat cp div 1024" "unat cp mod 1024 < 1024"
    using valid_less [OF assms] True by linarith+
  have s: "is_lead_surrogate l" "is_trail_surrogate t" using n x by (simp_all add: surrogate_nat)
  have "unat (push_bit 10 l + t + SURROGATE_OFFSET) = unat cp"
    using pair_value_nat [OF s] n x mult_div_mod_eq [of 1024 "unat cp"] by linarith
  then have "push_bit 10 l + t + SURROGATE_OFFSET = cp" by (simp add: word_unat_eq_iff)
  moreover have "l AND 0xffff = l" "t AND 0xffff = t" by (simp_all add: l_def t_def and.assoc)
  moreover have "utf16_units cp = [l, t]" using True by (simp add: utf16_units_def word_less_nat_alt l_def t_def)
  ultimately show ?thesis using s by simp
next
  case False
  then have "cp AND 0xffff = cp" by (simp add: unit_and is_unit_def)
  moreover have "utf16_units cp = [cp AND 0xffff]" using False by (simp add: utf16_units_def word_less_nat_alt)
  moreover have "\<not> is_lead_surrogate cp" "\<not> is_trail_surrogate cp"
    using assms by (auto simp: is_code_point_valid_def is_surrogate_def is_lead_surrogate_def is_trail_surrogate_def word_le_nat_alt)
  ultimately show ?thesis by simp
qed

lemma units_of_pair:
  assumes "is_lead_surrogate l" and "is_trail_surrogate t"
  shows "utf16_units (push_bit 10 l + t + SURROGATE_OFFSET) = [l, t]"
proof -
  define cp where "cp = push_bit 10 l + t + SURROGATE_OFFSET"
  have n: "unat cp = (unat l - 0xd800) * 1024 + (unat t - 0xdc00) + 0x10000"
    unfolding cp_def using assms by (rule pair_value_nat)
  have r: "0xd800 \<le> unat l" "unat l < 0xdc00" "0xdc00 \<le> unat t" "unat t < 0xe000"
    using assms by (simp_all add: surrogate_nat)
  have b: "unat cp < 1114112" "65536 \<le> unat cp" using n r by linarith+
  have "unat cp = (unat l - 0xd800 + 64) * 1024 + (unat t - 0xdc00)" using n by simp
  moreover have "unat t - 0xdc00 < 1024" using r by linarith
  ultimately have d: "unat cp div 1024 = unat l - 0xd800 + 64" "unat cp mod 1024 = unat t - 0xdc00"
    by (metis div_mult_self3 div_less add_0_right zero_neq_numeral, metis mod_mult_self3 mod_less)
  have "utf16_units cp = [(drop_bit 10 cp + LEAD_OFFSET) AND 0xffff, ((cp AND 0x3ff) + TRAIL_SURROGATE_MIN) AND 0xffff]"
    using b by (simp add: utf16_units_def word_less_nat_alt)
  also have "\<dots> = [l, t]"
    using pair_units_nat [OF b] d r by (simp add: word_unat_eq_iff)
  finally show ?thesis unfolding cp_def .
qed

section \<open>Strings are converted without loss\<close>

lemma utf8to16_Cons:
  "utf8_append cp = Some pre \<Longrightarrow> utf8to16 (pre @ rest) = map_option ((@) (utf16_units cp)) (utf8to16 rest)"
  using encoding_decodes [of cp pre rest] utf8to16.simps [of "pre @ rest"]
  by (auto simp: utf8_append_octets octets_def split: if_splits)

lemma utf8to16_decodes: "utf8to16 bs = Some w \<Longrightarrow> utf16to8 w = Some bs \<and> (\<forall>u\<in>set w. is_unit u)"
proof (induction bs arbitrary: w rule: utf8to16.induct)
  case (1 bs)
  show ?case
  proof (cases "bs = []")
    case True
    then show ?thesis using 1(2) by (simp add: utf8to16.simps)
  next
    case False
    then obtain cp rest w' where v: "validate_next bs = Inr (cp, rest)" and w': "utf8to16 rest = Some w'" "w = utf16_units cp @ w'"
      using 1(2) utf8to16.simps [of bs] by (auto split: sum.splits)
    obtain pre where pre: "bs = pre @ rest" "utf8_append cp = Some pre" using decode_is_encoding [OF v False] by blast
    have ih: "utf16to8 w' = Some rest \<and> (\<forall>u\<in>set w'. is_unit u)" using 1(1) [OF False v] w' by simp
    have "is_code_point_valid cp" using pre(2) by (simp add: utf8_append_octets)
    then show ?thesis using pre w' ih utf16to8_units [of cp w'] units_are_units [of cp] by auto
  qed
qed

lemma utf16to8_encodes: "utf16to8 w = Some bs \<Longrightarrow> \<forall>u\<in>set w. is_unit u \<Longrightarrow> utf8to16 bs = Some w"
proof (induction w arbitrary: bs rule: utf16to8.induct)
  case 1
  then show ?case by (simp add: utf8to16.simps)
next
  case (2 u us)
  have u: "u AND 0xffff = u" using 2(4) by (simp add: unit_and)
  show ?case
  proof (cases "is_lead_surrogate u")
    case True
    obtain t us' where us: "us = t # us'" using 2(3) True u by (cases us) simp_all
    have t: "t AND 0xffff = t" "is_trail_surrogate t"
      using 2(3,4) True u us by (auto simp: unit_and split: if_splits)
    obtain pre bs' where "utf8_append (push_bit 10 u + t + SURROGATE_OFFSET) = Some pre" "utf16to8 us' = Some bs'"
      "bs = pre @ bs'" using 2(3) True u us t by (auto simp: bind_eq_Some_conv)
    then show ?thesis
      using 2(1) [OF refl] 2(4) True u us t utf8to16_Cons units_of_pair [OF True t(2)] by simp
  next
    case False
    then have nt: "\<not> is_trail_surrogate u" using 2(3) u by (auto split: if_splits)
    then obtain pre bs' where pre: "utf8_append u = Some pre" "utf16to8 us = Some bs'" "bs = pre @ bs'"
      using 2(3) u False by (auto simp: bind_eq_Some_conv)
    have "utf16_units u = [u]" using 2(4) u by (simp add: utf16_units_def is_unit_def word_less_nat_alt)
    then show ?thesis using pre 2(2) [OF refl] 2(4) False nt u utf8to16_Cons by simp
  qed
qed


section \<open>Letter case, as numbers\<close>

definition upper_nat :: "nat \<Rightarrow> nat" where
  "upper_nat n =
     (if 0x61 \<le> n \<and> n \<le> 0x7a then n - 0x20
      else if n = 0xDF then 0x1E9E
      else if 0xE0 \<le> n \<and> n \<le> 0xF6 then n - 0x20
      else if 0xF8 \<le> n \<and> n \<le> 0xFE then n - 0x20
      else if 0x101 \<le> n \<and> n \<le> 0x12F \<and> odd n then n - 1
      else if 0x430 \<le> n \<and> n \<le> 0x44F then n - 0x20
      else if n = 0x451 then 0x401
      else n)"

definition lower_nat :: "nat \<Rightarrow> nat" where
  "lower_nat n =
     (if 0x41 \<le> n \<and> n \<le> 0x5A then n + 0x20
      else if 0xC0 \<le> n \<and> n \<le> 0xD6 then n + 0x20
      else if 0xD8 \<le> n \<and> n \<le> 0xDE then n + 0x20
      else if 0x100 \<le> n \<and> n \<le> 0x12E \<and> even n then n + 1
      else if n = 0x1E9E then 0xDF
      else if n = 0x401 then 0x451
      else if 0x410 \<le> n \<and> n \<le> 0x42F then n + 0x20
      else n)"

lemma unat_minus_small: "unat b \<le> unat a \<Longrightarrow> unat (a - b) = unat a - unat b" for a b :: u32
  by (simp add: unat_sub word_le_nat_alt)

lemma unat_wcharToUpper: "unat (wcharToUpper c) = upper_nat (unat c)"
  by (simp add: wcharToUpper_def upper_nat_def unat_mod odd_iff_mod_2_eq_one even_iff_mod_2_eq_zero word_le_nat_alt word_unat_eq_iff unat_and_mask unat_minus_small)

lemma unat_wcharToLower: "unat (wcharToLower c) = lower_nat (unat c)"
  by (simp add: wcharToLower_def lower_nat_def unat_mod odd_iff_mod_2_eq_one even_iff_mod_2_eq_zero word_le_nat_alt word_unat_eq_iff unat_and_mask unat_plus_small)

lemma upper_nat_idem: "upper_nat (upper_nat n) = upper_nat n"
proof -
  define small where "small k \<longleftrightarrow> k \<in> {0x61..0x7a} \<or> k = 0xDF \<or> k \<in> {0xE0..0xF6} \<or> k \<in> {0xF8..0xFE}
    \<or> k \<in> {0x101..0x12F} \<and> odd k \<or> k \<in> {0x430..0x44F} \<or> k = 0x451" for k :: nat
  have "\<not> small (upper_nat n)" unfolding small_def upper_nat_def by (simp split: if_split) presburger
  moreover have "upper_nat k = k" if "\<not> small k" for k using that unfolding small_def upper_nat_def by simp blast
  ultimately show ?thesis by blast
qed

lemma lower_nat_idem: "lower_nat (lower_nat n) = lower_nat n"
proof -
  define big where "big k \<longleftrightarrow> k \<in> {0x41..0x5A} \<or> k = 0x1E9E \<or> k \<in> {0xC0..0xD6} \<or> k \<in> {0xD8..0xDE}
    \<or> k \<in> {0x100..0x12E} \<and> even k \<or> k \<in> {0x410..0x42F} \<or> k = 0x401" for k :: nat
  have "\<not> big (lower_nat n)" unfolding big_def lower_nat_def by (simp split: if_split)
  moreover have "lower_nat k = k" if "\<not> big k" for k using that unfolding big_def lower_nat_def by simp
  ultimately show ?thesis by blast
qed

lemma case_idem [simp]:
  "wcharToUpper (wcharToUpper c) = wcharToUpper c" "wcharToLower (wcharToLower c) = wcharToLower c"
  by (simp_all add: word_unat_eq_iff unat_wcharToUpper unat_wcharToLower upper_nat_idem lower_nat_idem)

lemma recase_idem: "recase (recase w) = recase w"
  by (simp add: recase_def split: list.split)

lemma recase_units: "list_all is_unit w \<Longrightarrow> list_all is_unit (recase w)"
  by (cases w) (auto simp: recase_def is_unit_def unat_wcharToUpper unat_wcharToLower upper_nat_def lower_nat_def list_all_iff)


section \<open>Names\<close>

lemma string_bytes_of_bytes [simp]: "string_bytes (map char_of_byte bs) = bs"
proof -
  have "byte_of_char (char_of_byte b) = b" for b
    using unat_octet_less [of b] by (simp add: byte_of_char_def char_of_byte_def)
  then show ?thesis by (simp add: string_bytes_def comp_def)
qed

lemma WStrToUtf8_iff:
  "list_all is_unit w \<Longrightarrow> WStrToUtf8 w = Some s \<longleftrightarrow> Utf8toWStr s = Some w"
proof -
  assume w: "list_all is_unit w"
  have "map char_of_byte (string_bytes s) = s" by (simp add: string_bytes_def comp_def)
  then have "WStrToUtf8 w = Some s \<longleftrightarrow> utf16to8 w = Some (string_bytes s)"
    by (metis (no_types, lifting) WStrToUtf8_def map_option_eq_Some string_bytes_of_bytes)
  also have "\<dots> \<longleftrightarrow> Utf8toWStr s = Some w"
    using w utf8to16_decodes utf16to8_encodes unfolding Utf8toWStr_def list_all_iff by blast
  finally show ?thesis .
qed

lemma Utf8toWStr_units: "Utf8toWStr s = Some w \<Longrightarrow> list_all is_unit w"
  unfolding Utf8toWStr_def list_all_iff by (blast dest: utf8to16_decodes)

text \<open>The two octets the check refuses are the sharp s.\<close>

lemma sharp_s_start:
  assumes "Utf8toWStr s = Some w" "s \<noteq> []" "byte_of_char (hd s) = 0xC3" "second_byte s = 0x9F"
  shows "hd w = 0xDF"
proof -
  obtain a b bs where bs: "string_bytes s = a # b # bs" "a = 0xC3" "b = 0x9F"
    using assms(2-4) by (cases s; cases "tl s") (auto simp: second_byte_def string_bytes_def)
  have e: "utf8_append 0xDF = Some [0xC3, 0x9F]"
    by (simp add: utf8_append_def is_code_point_valid_def is_surrogate_def)
  have "utf8to16 ([0xC3, 0x9F] @ bs) = Some w" using assms(1) bs by (simp add: Utf8toWStr_def)
  then show ?thesis using utf8to16_Cons [OF e, of bs] by (cases "utf8to16 bs") (auto simp: utf16_units_def)
qed


lemma upper_not_sharp_s: "wcharToUpper c \<noteq> 0xDF"
proof
  assume "wcharToUpper c = 0xDF"
  then have "unat (wcharToUpper c) = 0xDF" by simp
  then show False by (simp add: unat_wcharToUpper upper_nat_def split: if_splits)
qed

lemma Utf8toWStr_Nil: "Utf8toWStr s = Some [] \<longleftrightarrow> s = []"
  using WStrToUtf8_iff [of "[]" s] by (auto simp: WStrToUtf8_def)

lemma normalize_result:
  assumes "normalizePlayerName m caps s = Some t"
  obtains w where "Utf8toWStr s = Some w" "Utf8toWStr t = Some (if caps then recase w else w)" "length w \<le> m" "s \<noteq> []"
proof -
  obtain w where w: "Utf8toWStr s = Some w" "length w \<le> m" "WStrToUtf8 (if caps then recase w else w) = Some t" "s \<noteq> []"
    using assms by (auto simp: normalizePlayerName_def split: option.splits if_splits)
  have "list_all is_unit (if caps then recase w else w)" using Utf8toWStr_units [OF w(1)] recase_units by simp
  then show thesis using w WStrToUtf8_iff that by blast
qed

lemma normalized_is_fixed:
  assumes "normalizePlayerName m caps s = Some t"
  shows "normalizePlayerName m caps t = Some t"
proof -
  obtain w where w: "Utf8toWStr s = Some w" "Utf8toWStr t = Some (if caps then recase w else w)" "length w \<le> m" "s \<noteq> []"
    using assms by (rule normalize_result)
  have ne: "t \<noteq> []" using w Utf8toWStr_Nil [of s] Utf8toWStr_Nil [of t] by (auto simp: recase_def split: list.splits if_splits)
  have "\<not> (byte_of_char (hd t) = 0xC3 \<and> second_byte t = 0x9F)"
  proof (cases caps)
    case True
    obtain c cs where "w = c # cs" using w(1,4) Utf8toWStr_Nil [of s] by (cases w) auto
    then have "hd (recase w) \<noteq> 0xDF" by (simp add: recase_def upper_not_sharp_s)
    then show ?thesis using sharp_s_start [OF w(2) ne] True by auto
  next
    case False
    then have "t = s" using w WStrToUtf8_iff [OF Utf8toWStr_units [OF w(1)], of s]
        WStrToUtf8_iff [OF Utf8toWStr_units [OF w(1)], of t] by simp
    then show ?thesis using assms by (auto simp: normalizePlayerName_def split: if_splits)
  qed
  moreover have "WStrToUtf8 (if caps then recase w else w) = Some t"
    using w(2) WStrToUtf8_iff [OF Utf8toWStr_units [OF w(2)]] by simp
  moreover have "length (recase w) = length w" by (simp add: recase_def split: list.split)
  ultimately show ?thesis using ne w by (auto simp: normalizePlayerName_def recase_idem)
qed

text \<open>C25: \<^verbatim>\<open>utf8to16\<close> and \<^verbatim>\<open>utf16to8\<close> are inverse to each other: what one of them accepts is exactly what
  the other gives, so overlong forms, encoded surrogates and lone surrogates are refused and no text has two
  encodings.\<close>

theorem utf8_utf16_inverse:
  "utf8to16 bs = Some w \<longleftrightarrow> utf16to8 w = Some bs \<and> list_all is_unit w"
  using utf8to16_decodes utf16to8_encodes unfolding list_all_iff by blast

text \<open>C26: A name that \<^verbatim>\<open>normalizePlayerName\<close> gives is at most as long as asked for and stays as it is when it
  is normalised again, so a name has one normal form and looking names up by it is consistent.\<close>

theorem normalizePlayerName_fixed:
  assumes "normalizePlayerName m caps s = Some t"
  shows "normalizePlayerName m caps t = Some t \<and> (\<exists>w. Utf8toWStr t = Some w \<and> length w \<le> m \<and> w \<noteq> [])"
proof -
  have fixed: "normalizePlayerName m caps t = Some t" using assms by (rule normalized_is_fixed)
  then obtain w where w: "Utf8toWStr t = Some w" "length w \<le> m" "t \<noteq> []" by (rule normalize_result)
  then have "w \<noteq> []" using Utf8toWStr_Nil by auto
  then show ?thesis using fixed w by blast
qed

theorem normalizePlayerName_fixed_witness:
  "normalizePlayerName 15 True ''aNN'' = Some ''Ann'' \<and> normalizePlayerName 15 True ''Ann'' = Some ''Ann''"
proof -
  have *: "normalizePlayerName 15 True ''aNN'' = Some ''Ann''" by code_simp
  show ?thesis using * normalizePlayerName_fixed [OF *] by blast
qed

end
