(* ===== verification/Guild_Data.thy ===== *)
theory Guild_Data
  imports Bank_Admin Utf8
begin

text \<open>
  The data of guilds (\<^verbatim>\<open>src/src/game/Guild/Guild.h\<close>, \<^verbatim>\<open>GuildMgr.h\<close>): members, ranks, the event log, the tables
  \<^verbatim>\<open>guild\<close>, \<^verbatim>\<open>guild_member\<close>, \<^verbatim>\<open>guild_rank\<close>, \<^verbatim>\<open>guild_eventlog\<close>, the charters with their two tables, the players that are
  connected, and the server state that the operations share. An operation of the class \<^verbatim>\<open>Guild\<close> runs on the
  object \<open>s_this\<close>.
\<close>

section \<open>Unordered maps\<close>

text \<open>
  A hash map is the list of its entries in iteration order. A new entry may change the order of all of
  them: \<open>order\<close> gives the new order of the keys. Erasing and changing a value keep the order.
\<close>

definition um_find :: "'k \<Rightarrow> ('k \<times> 'v) list \<Rightarrow> 'v option" where
  "um_find k m = map_of m k"

definition um_update :: "'k \<Rightarrow> ('v \<Rightarrow> 'v) \<Rightarrow> ('k \<times> 'v) list \<Rightarrow> ('k \<times> 'v) list" where
  "um_update k f m = map (\<lambda>(k', v). (k', if k' = k then f v else v)) m"

definition um_erase :: "'k \<Rightarrow> ('k \<times> 'v) list \<Rightarrow> ('k \<times> 'v) list" where
  "um_erase k m = filter (\<lambda>(k', _). k' \<noteq> k) m"

definition um_put :: "('k list \<Rightarrow> 'k list) \<Rightarrow> 'k \<Rightarrow> 'v \<Rightarrow> ('k \<times> 'v) list \<Rightarrow> ('k \<times> 'v) list" where
  "um_put order k v m =
     (if k \<in> set (map fst m) then um_update k (\<lambda>_. v) m
      else let m' = (k, v) # m in List.map_filter (\<lambda>k'. map_option (Pair k') (map_of m' k')) (order (map fst m')))"

definition us_put :: "('k list \<Rightarrow> 'k list) \<Rightarrow> 'k \<Rightarrow> 'k list \<Rightarrow> 'k list" where
  "us_put order k xs = (if k \<in> set xs then xs else order (k # xs))"

section \<open>Guild objects\<close>

abbreviation GR_GUILDMASTER :: u32 where "GR_GUILDMASTER \<equiv> 0"
abbreviation GR_OFFICER :: u32 where "GR_OFFICER \<equiv> 1"
abbreviation GUILD_RANKS_MIN_COUNT :: nat where "GUILD_RANKS_MIN_COUNT \<equiv> 5"
abbreviation GUILD_RANKS_MAX_COUNT :: nat where "GUILD_RANKS_MAX_COUNT \<equiv> 10"
abbreviation GUILD_NOTE_MAX_LENGTH :: nat where "GUILD_NOTE_MAX_LENGTH \<equiv> 31"
abbreviation GUILD_INFO_MAX_LENGTH :: nat where "GUILD_INFO_MAX_LENGTH \<equiv> 500"
abbreviation GUILD_MOTD_MAX_LENGTH :: nat where "GUILD_MOTD_MAX_LENGTH \<equiv> 128"
abbreviation MAX_INTERNAL_PLAYER_NAME :: nat where "MAX_INTERNAL_PLAYER_NAME \<equiv> 15"
abbreviation GUILD_EVENTLOG_MAX_RECORDS :: nat where "GUILD_EVENTLOG_MAX_RECORDS \<equiv> 100"

definition GUILD_MEMBER_BLOCK_SIZE :: nat where
  "GUILD_MEMBER_BLOCK_SIZE =
     8 + 1 + (1 + MAX_INTERNAL_PLAYER_NAME) + 4 + 1 + 1 + 4 + (1 + GUILD_NOTE_MAX_LENGTH) + (1 + GUILD_NOTE_MAX_LENGTH)"

definition GUILD_MEMBER_BLOCK_SIZE_WITHOUT_NOTE :: nat where
  "GUILD_MEMBER_BLOCK_SIZE_WITHOUT_NOTE =
     8 + 1 + (1 + MAX_INTERNAL_PLAYER_NAME) + 4 + 1 + 1 + 4 + (1 + 0) + (1 + 0)"

definition GUILD_MAX_MEMBERS :: nat where
  "GUILD_MAX_MEMBERS =
     (0x8000 - 10 - GUILD_RANKS_MAX_COUNT - GUILD_INFO_MAX_LENGTH - GUILD_MOTD_MAX_LENGTH)
       div GUILD_MEMBER_BLOCK_SIZE_WITHOUT_NOTE"

datatype GuildAddStatus = OK | GUILD_FULL | ALREADY_IN_GUILD | UNKNOWN_PLAYER | PLAYER_DATA_ERROR

text \<open>The rights of a rank; every one of them contains the bit of \<open>GR_RIGHT_EMPTY\<close>.\<close>

abbreviation GR_RIGHT_EMPTY :: u32 where "GR_RIGHT_EMPTY \<equiv> 0x40"
abbreviation GR_RIGHT_GCHATLISTEN :: u32 where "GR_RIGHT_GCHATLISTEN \<equiv> 0x41"
abbreviation GR_RIGHT_GCHATSPEAK :: u32 where "GR_RIGHT_GCHATSPEAK \<equiv> 0x42"
abbreviation GR_RIGHT_OFFCHATLISTEN :: u32 where "GR_RIGHT_OFFCHATLISTEN \<equiv> 0x44"
abbreviation GR_RIGHT_OFFCHATSPEAK :: u32 where "GR_RIGHT_OFFCHATSPEAK \<equiv> 0x48"
abbreviation GR_RIGHT_PROMOTE :: u32 where "GR_RIGHT_PROMOTE \<equiv> 0xC0"
abbreviation GR_RIGHT_DEMOTE :: u32 where "GR_RIGHT_DEMOTE \<equiv> 0x140"
abbreviation GR_RIGHT_INVITE :: u32 where "GR_RIGHT_INVITE \<equiv> 0x50"
abbreviation GR_RIGHT_REMOVE :: u32 where "GR_RIGHT_REMOVE \<equiv> 0x60"
abbreviation GR_RIGHT_SETMOTD :: u32 where "GR_RIGHT_SETMOTD \<equiv> 0x1040"
abbreviation GR_RIGHT_EPNOTE :: u32 where "GR_RIGHT_EPNOTE \<equiv> 0x2040"
abbreviation GR_RIGHT_VIEWOFFNOTE :: u32 where "GR_RIGHT_VIEWOFFNOTE \<equiv> 0x4040"
abbreviation GR_RIGHT_EOFFNOTE :: u32 where "GR_RIGHT_EOFFNOTE \<equiv> 0x8040"
abbreviation GR_RIGHT_MODIFY_GUILD_INFO :: u32 where "GR_RIGHT_MODIFY_GUILD_INFO \<equiv> 0x10040"
abbreviation GR_RIGHT_ALL :: u32 where "GR_RIGHT_ALL \<equiv> 0xFF1FF"

record member_slot =
  ms_guid :: guid
  ms_accountId :: u32
  ms_Name :: string
  ms_RankId :: u32
  ms_Level :: u8
  ms_Class :: u8
  ms_ZoneId :: u32
  ms_LogoutTime :: u64
  ms_PublicNote :: string
  ms_OfficerNote :: string

record rank_info =
  ri_Name :: string
  ri_Rights :: u32

record event_entry =
  ee_EventType :: u8
  ee_PlayerGuid1 :: u32
  ee_PlayerGuid2 :: u32
  ee_NewRank :: u8
  ee_TimeStamp :: u64

text \<open>Packets to clients: the opcode and the values written, in order.\<close>

datatype guild_opcode =
    SMSG_GUILD_EVENT | SMSG_GUILD_ROSTER | SMSG_GUILD_QUERY_RESPONSE | SMSG_GUILD_COMMAND_RESULT
  | SMSG_GUILD_INVITE | SMSG_GUILD_DECLINE | SMSG_GUILD_INFO | MSG_SAVE_GUILD_EMBLEM
  | SMSG_PETITION_SHOW_SIGNATURES | SMSG_PETITION_QUERY_RESPONSE | SMSG_PETITION_SIGN_RESULTS
  | MSG_PETITION_RENAME | MSG_PETITION_DECLINE | SMSG_TURN_IN_PETITION_RESULTS | SMSG_PETITION_SHOWLIST
  | SMSG_BUY_FAILED | SMSG_INVENTORY_CHANGE_FAILURE

datatype world_packet =
    Packet guild_opcode "packet_field list"
  | ChatPacket u8 string u32 u8 guid string

definition data_bytes :: "packet_field list \<Rightarrow> u8 list" where
  "data_bytes fs = concat (map field_bytes fs)"

record emblem =
  em_EmblemStyle :: u32
  em_EmblemColor :: u32
  em_BorderStyle :: u32
  em_BorderColor :: u32
  em_BackgroundColor :: u32

record guild =
  g_Id :: u32
  g_Name :: string
  g_LeaderGuid :: guid
  g_motd :: string
  g_info :: string
  g_CreatedYear :: u32
  g_CreatedMonth :: u32
  g_CreatedDay :: u32
  g_Emblem :: emblem
  g_accountsNumber :: u32
  g_Ranks :: "rank_info list"
  g_cachedRoster :: "world_packet option"
  g_cachedOfficerRoster :: "world_packet option"
  g_cacheTimer :: u32
  g_members :: "(u32 \<times> member_slot) list"
  g_onlineMemberCache :: "u32 list"
  g_GuildEventLog :: "event_entry list"
  g_GmListeners :: "guid list"
  g_GuildEventLogNextGuid :: u32
  g_Bank :: "bank option"
  g_InfernoBank :: "bank option"

section \<open>Tables\<close>

record guild_row =
  gr_guildid :: u32
  gr_name :: string
  gr_leaderguid :: u32
  gr_emblem :: emblem
  gr_info :: string
  gr_motd :: string
  gr_createdate :: u64

record member_row =
  mb_guildid :: u32
  mb_guid :: u32
  mb_rank :: u32
  mb_pnote :: string
  mb_offnote :: string

record rank_row =
  rk_guildid :: u32
  rk_rid :: u32
  rk_rname :: string
  rk_rights :: u32

record eventlog_row =
  el_guildid :: u32
  el_LogGuid :: u32
  el_entry :: event_entry

record petition_row =
  pt_ownerguid :: u32
  pt_petitionguid :: u32
  pt_charterguid :: u32
  pt_name :: string

record sign_row =
  sg_ownerguid :: u32
  sg_petitionguid :: u32
  sg_playerguid :: u32
  sg_account :: u32

record guild_tables =
  t_guild :: "guild_row list"
  t_member :: "member_row list"
  t_rank :: "rank_row list"
  t_eventlog :: "eventlog_row list"
  t_petition :: "petition_row list"
  t_sign :: "sign_row list"
  t_banks :: tables

text \<open>An insertion fails, and leaves the table, when a row has the same key.\<close>

definition insert_row :: "('r \<Rightarrow> 'k) \<Rightarrow> 'r \<Rightarrow> 'r list \<Rightarrow> 'r list" where
  "insert_row key r rows = (if key r \<in> set (map key rows) then rows else rows @ [r])"

definition update_where :: "('r \<Rightarrow> bool) \<Rightarrow> ('r \<Rightarrow> 'r) \<Rightarrow> 'r list \<Rightarrow> 'r list" where
  "update_where P f rows = map (\<lambda>r. if P r then f r else r) rows"

definition delete_where :: "('r \<Rightarrow> bool) \<Rightarrow> 'r list \<Rightarrow> 'r list" where
  "delete_where P rows = filter (\<lambda>r. \<not> P r) rows"

section \<open>Charters\<close>

record petition_signature =
  ps_playerGuid :: guid
  ps_playerAccount :: u32

record petition =
  p_id :: u32
  p_charterGuid :: guid
  p_ownerGuid :: guid
  p_name :: string
  p_team :: u32
  p_signatures :: "petition_signature list"

section \<open>Players and the server\<close>

text \<open>
  A connected \<^verbatim>\<open>Player\<close>: \<open>gp_player\<close> holds its guid, name, guild rank, money and items. \<^verbatim>\<open>MasterPlayer\<close> is the
  object the chat uses; it copies guild and rank when it is loaded.
\<close>

record gplayer =
  gp_player :: player
  gp_guildId :: u32
  gp_GuildIdInvited :: u32
  gp_level :: u8
  gp_class :: u8
  gp_zone :: u32
  gp_account :: u32
  gp_team :: u32
  gp_noSocials :: bool
  gp_locale :: int
  gp_ignores :: "guid list"

record master_player =
  mp_guid :: guid
  mp_name :: string
  mp_guildId :: u32
  mp_rank :: u32
  mp_chatTag :: u8
  mp_logout :: bool
  mp_ignores :: "guid list option"

record player_cache =
  pc_sName :: string
  pc_uiLevel :: u32
  pc_uiClass :: u32
  pc_uiZoneId :: u32
  pc_uiAccount :: u32
  pc_team :: u32

record character_row =
  cr_name :: string
  cr_level :: u8
  cr_class :: u8
  cr_zone :: u32
  cr_logout_time :: u64
  cr_account :: u32

datatype guild_hook =
    OnCreate u32 guid string | OnAddMember u32 guid u8 | OnRemoveMember u32 guid bool | OnDisband u32
  | OnGuildInvite guid

record gs =
  s_this :: guild
  s_guilds :: "(u32 \<times> guild) list"
  s_guid2guild :: "u32 \<Rightarrow> u32 option"
  s_players :: "guid \<Rightarrow> gplayer option"
  s_masters :: "guid \<Rightarrow> master_player option"
  s_petitions :: "(u32 \<times> petition) list"
  s_nextGuildId :: u32
  s_nextPetitionId :: u32
  s_bankSaveTimer :: u32
  s_db :: guild_tables
  s_out :: "(guid \<times> world_packet) list"
  s_hooks :: "guild_hook list"

text \<open>
  What the operations take from outside: the order of hash maps and the result of \<^verbatim>\<open>std::sort\<close>, the quoting
  of SQL strings by the database client, the scripts that change the rank of a new member, the
  players by name, the character cache and the character table, texts, configuration, the calendar, the bits of a quotient in days as
  a \<^verbatim>\<open>float\<close>, and the memory of a new bank object.
\<close>

record genv =
  ge_world :: world
  ge_order :: "u32 list \<Rightarrow> u32 list"
  ge_sort :: "u32 list \<Rightarrow> nat list"
  ge_escape :: "string \<Rightarrow> string"
  ge_onAddMember :: "u8 \<Rightarrow> u8"
  ge_names :: "string \<Rightarrow> guid option"
  ge_cache :: "u32 \<Rightarrow> player_cache option"
  ge_text :: "nat \<Rightarrow> int \<Rightarrow> string"
  ge_eventLogCount :: u32
  ge_minSigns :: u32
  ge_twoSide :: bool
  ge_date :: "u64 \<Rightarrow> u32 \<times> u32 \<times> u32"
  ge_days :: "u64 \<Rightarrow> u32"
  ge_characters :: "u32 \<Rightarrow> character_row option"
  ge_zoneFromDB :: "guid \<Rightarrow> u32"
  ge_newBank :: "bool \<Rightarrow> bank"

text \<open>\<^verbatim>\<open>time(nullptr)\<close>.\<close>

definition now :: "genv \<Rightarrow> u64" where
  "now e = word_of_int (w_now (ge_world e))"

end
