(* ===== verification/Guild_Core.thy ===== *)
theory Guild_Core
  imports Guild_Data
begin

text \<open>
  The operations of \<^verbatim>\<open>src/src/game/Guild/Guild.cpp\<close> on ranks, members and the leader, with the parts of
  \<^verbatim>\<open>GuildMgr\<close>, \<^verbatim>\<open>ObjectAccessor\<close> and the charters that they call. A pointer to a member is its key in the
  member map.
\<close>

section \<open>State\<close>

definition upd_this :: "(guild \<Rightarrow> guild) \<Rightarrow> gs \<Rightarrow> gs" where
  "upd_this f s = s\<lparr>s_this := f (s_this s)\<rparr>"

definition upd_db :: "(guild_tables \<Rightarrow> guild_tables) \<Rightarrow> gs \<Rightarrow> gs" where
  "upd_db f s = s\<lparr>s_db := f (s_db s)\<rparr>"

definition upd_gplayer :: "guid \<Rightarrow> (gplayer \<Rightarrow> gplayer) \<Rightarrow> gs \<Rightarrow> gs" where
  "upd_gplayer g f s = s\<lparr>s_players := (s_players s)(g := map_option f (s_players s g))\<rparr>"

definition player_guid :: "u32 \<Rightarrow> guid" where
  "player_guid low = ObjectGuid2 HIGHGUID_PLAYER low"

definition FindPlayerNotInWorld :: "guid \<Rightarrow> gs \<Rightarrow> gplayer option" where
  "FindPlayerNotInWorld g s = (if IsEmpty g then None else s_players s g)"

definition FindPlayer :: "guid \<Rightarrow> gs \<Rightarrow> gplayer option" where
  "FindPlayer g s =
     (case FindPlayerNotInWorld g s of
        None \<Rightarrow> None
      | Some p \<Rightarrow> if pl_inWorld (gp_player p) then Some p else None)"

definition FindMasterPlayer :: "guid \<Rightarrow> gs \<Rightarrow> master_player option" where
  "FindMasterPlayer g s = (if IsEmpty g then None else s_masters s g)"

definition SetInGuild :: "u32 \<Rightarrow> gplayer \<Rightarrow> gplayer" where
  "SetInGuild gid p = p\<lparr>gp_guildId := gid\<rparr>"

definition SetRank :: "u32 \<Rightarrow> gplayer \<Rightarrow> gplayer" where
  "SetRank r p = p\<lparr>gp_player := (gp_player p)\<lparr>pl_rank := r\<rparr>\<rparr>"

definition SetGuildIdInvited :: "u32 \<Rightarrow> gplayer \<Rightarrow> gplayer" where
  "SetGuildIdInvited gid p = p\<lparr>gp_GuildIdInvited := gid\<rparr>"

definition SendPacket :: "guid \<Rightarrow> world_packet \<Rightarrow> gs \<Rightarrow> gs" where
  "SendPacket g p s = s\<lparr>s_out := s_out s @ [(g, p)]\<rparr>"

definition run_hook :: "guild_hook \<Rightarrow> gs \<Rightarrow> gs" where
  "run_hook h s = s\<lparr>s_hooks := s_hooks s @ [h]\<rparr>"

section \<open>Ranks and rights\<close>

definition GetLowestRank :: "guild \<Rightarrow> u32" where
  "GetLowestRank g = word_of_nat (length (g_Ranks g)) - 1"

definition GetRankName :: "u32 \<Rightarrow> guild \<Rightarrow> string" where
  "GetRankName rankId g =
     (if unat rankId \<ge> length (g_Ranks g) then ''<unknown>'' else ri_Name (g_Ranks g ! unat rankId))"

definition GetRankRights :: "u32 \<Rightarrow> guild \<Rightarrow> u32" where
  "GetRankRights rankId g =
     (if unat rankId \<ge> length (g_Ranks g) then 0 else ri_Rights (g_Ranks g ! unat rankId))"

definition HasRankRight :: "u32 \<Rightarrow> u32 \<Rightarrow> guild \<Rightarrow> bool" where
  "HasRankRight rankId right g = (GetRankRights rankId g AND right \<noteq> GR_RIGHT_EMPTY)"

definition AddRank :: "string \<Rightarrow> u32 \<Rightarrow> gs \<Rightarrow> gs" where
  "AddRank name rights =
     upd_this (\<lambda>g. g\<lparr>g_Ranks := g_Ranks g @ [\<lparr>ri_Name = name, ri_Rights = rights\<rparr>]\<rparr>)"

definition rank_key :: "rank_row \<Rightarrow> u32 \<times> u32" where
  "rank_key r = (rk_guildid r, rk_rid r)"

definition CreateRank :: "string \<Rightarrow> u32 \<Rightarrow> gs \<Rightarrow> gs" where
  "CreateRank name rights s =
     (if length (g_Ranks (s_this s)) \<ge> GUILD_RANKS_MAX_COUNT then s
      else let new_rank_id = word_of_nat (length (g_Ranks (s_this s)));
               s1 = AddRank name rights s
           in upd_db (\<lambda>db. db\<lparr>t_rank := insert_row rank_key
                \<lparr>rk_guildid = g_Id (s_this s1), rk_rid = new_rank_id, rk_rname = name, rk_rights = rights\<rparr>
                (t_rank db)\<rparr>) s1)"

definition CreateDefaultGuildRanks :: "genv \<Rightarrow> int \<Rightarrow> gs \<Rightarrow> gs" where
  "CreateDefaultGuildRanks e locale_idx s =
     (let s0 = upd_db (\<lambda>db. db\<lparr>t_rank := delete_where (\<lambda>r. rk_guildid r = g_Id (s_this s)) (t_rank db)\<rparr>) s;
          s1 = CreateRank (ge_text e 811 locale_idx) GR_RIGHT_ALL s0;
          s2 = CreateRank (ge_text e 812 locale_idx) GR_RIGHT_ALL s1;
          s3 = CreateRank (ge_text e 813 locale_idx) (GR_RIGHT_GCHATLISTEN OR GR_RIGHT_GCHATSPEAK) s2;
          s4 = CreateRank (ge_text e 814 locale_idx) (GR_RIGHT_GCHATLISTEN OR GR_RIGHT_GCHATSPEAK) s3
      in CreateRank (ge_text e 815 locale_idx) (GR_RIGHT_GCHATLISTEN OR GR_RIGHT_GCHATSPEAK) s4)"

definition SetRankName :: "u32 \<Rightarrow> string \<Rightarrow> gs \<Rightarrow> gs" where
  "SetRankName rankId name s =
     (if unat rankId \<ge> length (g_Ranks (s_this s)) then s
      else let i = unat rankId;
               s1 = upd_this (\<lambda>g. g\<lparr>g_Ranks := (g_Ranks g)[i := (g_Ranks g ! i)\<lparr>ri_Name := name\<rparr>]\<rparr>) s
           in upd_db (\<lambda>db. db\<lparr>t_rank := update_where
                (\<lambda>r. rk_rid r = rankId \<and> rk_guildid r = g_Id (s_this s1)) (\<lambda>r. r\<lparr>rk_rname := name\<rparr>)
                (t_rank db)\<rparr>) s1)"

definition SetRankRights :: "u32 \<Rightarrow> u32 \<Rightarrow> gs \<Rightarrow> gs" where
  "SetRankRights rankId rights s =
     (if unat rankId \<ge> length (g_Ranks (s_this s)) then s
      else let i = unat rankId;
               s1 = upd_this (\<lambda>g. g\<lparr>g_Ranks := (g_Ranks g)[i := (g_Ranks g ! i)\<lparr>ri_Rights := rights\<rparr>]\<rparr>) s
           in upd_db (\<lambda>db. db\<lparr>t_rank := update_where
                (\<lambda>r. rk_rid r = rankId \<and> rk_guildid r = g_Id (s_this s1)) (\<lambda>r. r\<lparr>rk_rights := rights\<rparr>)
                (t_rank db)\<rparr>) s1)"

text \<open>The banks share the bank tables with the rest of the server.\<close>

definition on_bank :: "(bank \<Rightarrow> bank) \<Rightarrow> bank \<Rightarrow> gs \<Rightarrow> bank \<times> gs" where
  "on_bank f b s =
     (let b' = f (b\<lparr>gb_db := t_banks (s_db s)\<rparr>) in (b', upd_db (\<lambda>db. db\<lparr>t_banks := gb_db b'\<rparr>) s))"

text \<open>\<open>None\<close> is the use of a null pointer: a guild whose banks were not created.\<close>

definition DelRank :: "gs \<Rightarrow> gs option" where
  "DelRank s =
     (if length (g_Ranks (s_this s)) \<le> GUILD_RANKS_MIN_COUNT then Some s
      else let rank = GetLowestRank (s_this s);
               s1 = upd_db (\<lambda>db. db\<lparr>t_rank := delete_where
                      (\<lambda>r. rk_rid r \<ge> rank \<and> rk_guildid r = g_Id (s_this s)) (t_rank db)\<rparr>) s
           in case (g_Bank (s_this s1), g_InfernoBank (s_this s1)) of
                (Some b, Some i) \<Rightarrow>
                  let (b', s2) = on_bank (UpdateMinranks rank) b s1;
                      (i', s3) = on_bank (UpdateMinranks rank) i s2
                  in Some (upd_this (\<lambda>g. g\<lparr>g_Bank := Some b', g_InfernoBank := Some i',
                             g_Ranks := butlast (g_Ranks g)\<rparr>) s3)
              | _ \<Rightarrow> None)"

section \<open>Broadcasts\<close>

definition IsMemberCacheEnabled :: "guild \<Rightarrow> bool" where
  "IsMemberCacheEnabled g = (length (g_members g) \<ge> 1000)"

definition send_all :: "guid list \<Rightarrow> world_packet \<Rightarrow> gs \<Rightarrow> gs" where
  "send_all gs p s = fold (\<lambda>g. SendPacket g p) gs s"

definition gm_listeners :: "gs \<Rightarrow> guid list" where
  "gm_listeners s = filter (\<lambda>g. FindPlayer g s \<noteq> None) (g_GmListeners (s_this s))"

definition BroadcastPacket :: "world_packet \<Rightarrow> gs \<Rightarrow> gs" where
  "BroadcastPacket p s =
     send_all
      ((if IsMemberCacheEnabled (s_this s)
        then filter (\<lambda>g. FindMasterPlayer g s \<noteq> None) (map player_guid (g_onlineMemberCache (s_this s)))
        else filter (\<lambda>g. FindPlayer g s \<noteq> None) (map (player_guid \<circ> fst) (g_members (s_this s))))
       @ gm_listeners s) p s"

definition BroadcastPacketToRank :: "world_packet \<Rightarrow> u32 \<Rightarrow> gs \<Rightarrow> gs" where
  "BroadcastPacketToRank p rankId s =
     send_all (filter (\<lambda>g. FindPlayer g s \<noteq> None)
       (map (player_guid \<circ> fst) (filter (\<lambda>(_, m). ms_RankId m = rankId) (g_members (s_this s))))) p s"

text \<open>At most three strings follow the event and their number, and the guid when there is one.\<close>

definition BroadcastEvent :: "u8 \<Rightarrow> guid \<Rightarrow> string list \<Rightarrow> gs \<Rightarrow> gs" where
  "BroadcastEvent ev g strs =
     BroadcastPacket (Packet SMSG_GUILD_EVENT
       ([F8 ev, F8 (word_of_nat (length strs))] @ map FString strs @ (if IsEmpty g then [] else [F64 g])))"

abbreviation GE_PROMOTION :: u8 where "GE_PROMOTION \<equiv> 0"
abbreviation GE_DEMOTION :: u8 where "GE_DEMOTION \<equiv> 1"
abbreviation GE_MOTD :: u8 where "GE_MOTD \<equiv> 2"
abbreviation GE_JOINED :: u8 where "GE_JOINED \<equiv> 3"
abbreviation GE_LEFT :: u8 where "GE_LEFT \<equiv> 4"
abbreviation GE_REMOVED :: u8 where "GE_REMOVED \<equiv> 5"
abbreviation GE_LEADER_CHANGED :: u8 where "GE_LEADER_CHANGED \<equiv> 7"
abbreviation GE_DISBANDED :: u8 where "GE_DISBANDED \<equiv> 8"
abbreviation GE_SIGNED_ON :: u8 where "GE_SIGNED_ON \<equiv> 12"
abbreviation GE_SIGNED_OFF :: u8 where "GE_SIGNED_OFF \<equiv> 13"

abbreviation CHAT_MSG_GUILD :: u8 where "CHAT_MSG_GUILD \<equiv> 3"
abbreviation CHAT_MSG_OFFICER :: u8 where "CHAT_MSG_OFFICER \<equiv> 4"

definition hears :: "guid \<Rightarrow> master_player \<Rightarrow> bool" where
  "hears sender pl =
     (\<not> mp_logout pl \<and> (case mp_ignores pl of None \<Rightarrow> False | Some igs \<Rightarrow> sender \<notin> set igs))"

definition BroadcastToGuild :: "master_player \<Rightarrow> string \<Rightarrow> u32 \<Rightarrow> gs \<Rightarrow> gs" where
  "BroadcastToGuild pl msg language s =
     (let g = s_this s
      in if \<not> HasRankRight (mp_rank pl) GR_RIGHT_GCHATSPEAK g then s
         else let listens = (\<lambda>low. case um_find low (g_members g) of
                                None \<Rightarrow> False | Some m \<Rightarrow> HasRankRight (ms_RankId m) GR_RIGHT_GCHATLISTEN g);
                  lows = filter listens (if IsMemberCacheEnabled g then g_onlineMemberCache g else map fst (g_members g));
                  to = filter (\<lambda>r. case FindMasterPlayer r s of None \<Rightarrow> False | Some m \<Rightarrow> hears (mp_guid pl) m)
                         (map player_guid lows)
              in send_all (to @ gm_listeners s) (ChatPacket CHAT_MSG_GUILD msg language (mp_chatTag pl) (mp_guid pl) (mp_name pl)) s)"

definition BroadcastToOfficers :: "master_player \<Rightarrow> string \<Rightarrow> u32 \<Rightarrow> gs \<Rightarrow> gs" where
  "BroadcastToOfficers pl msg language s =
     (let g = s_this s
      in if \<not> HasRankRight (mp_rank pl) GR_RIGHT_OFFCHATSPEAK g then s
         else let lows = map fst (filter (\<lambda>(_, m). HasRankRight (ms_RankId m) GR_RIGHT_OFFCHATLISTEN g) (g_members g));
                  to = filter (\<lambda>r. case FindMasterPlayer r s of
                                     None \<Rightarrow> False
                                   | Some m \<Rightarrow> case mp_ignores m of None \<Rightarrow> False | Some igs \<Rightarrow> mp_guid pl \<notin> set igs)
                         (map player_guid lows)
              in send_all (to @ gm_listeners s) (ChatPacket CHAT_MSG_OFFICER msg language (mp_chatTag pl) (mp_guid pl) (mp_name pl)) s)"

end
