(* ===== verification/Guild_Members.thy ===== *)
theory Guild_Members
  imports Guild_Core
begin

text \<open>
  Members and the leader: the rest of \<^verbatim>\<open>src/src/game/Guild/Guild.cpp\<close> but for loading and the roster, with
  the event log and the calls into \<^verbatim>\<open>GuildMgr\<close>.
\<close>

section \<open>Member slots\<close>

definition get_slot :: "u32 \<Rightarrow> gs \<Rightarrow> member_slot option" where
  "get_slot k s = um_find k (g_members (s_this s))"

definition upd_slot :: "u32 \<Rightarrow> (member_slot \<Rightarrow> member_slot) \<Rightarrow> gs \<Rightarrow> gs" where
  "upd_slot k f = upd_this (\<lambda>g. g\<lparr>g_members := um_update k f (g_members g)\<rparr>)"

definition GetMemberSlot :: "guid \<Rightarrow> guild \<Rightarrow> u32 option" where
  "GetMemberSlot g gd =
     (case um_find (GetCounter g) (g_members gd) of None \<Rightarrow> None | Some _ \<Rightarrow> Some (GetCounter g))"

definition GetMemberSlotByName :: "string \<Rightarrow> guild \<Rightarrow> u32 option" where
  "GetMemberSlotByName name gd = map_option fst (find (\<lambda>(_, m). ms_Name m = name) (g_members gd))"

text \<open>The rank as a signed number; -1 for someone who is not a member.\<close>

definition GetRank :: "guid \<Rightarrow> guild \<Rightarrow> u32" where
  "GetRank g gd = (case um_find (GetCounter g) (g_members gd) of None \<Rightarrow> - 1 | Some m \<Rightarrow> ms_RankId m)"

definition SetMemberStats :: "gplayer \<Rightarrow> member_slot \<Rightarrow> member_slot" where
  "SetMemberStats p m =
     m\<lparr>ms_Name := pl_name (gp_player p), ms_Level := gp_level p, ms_Class := gp_class p, ms_ZoneId := gp_zone p\<rparr>"

definition UpdateLogoutTime :: "genv \<Rightarrow> member_slot \<Rightarrow> member_slot" where
  "UpdateLogoutTime e m = m\<lparr>ms_LogoutTime := now e\<rparr>"

definition escape_string :: "genv \<Rightarrow> string \<Rightarrow> string" where
  "escape_string e str = (if str = [] then [] else ge_escape e str)"

text \<open>The note in memory is the one that is quoted; the table gets the text the quoted one stands for.\<close>

definition SetPublicNote :: "genv \<Rightarrow> u32 \<Rightarrow> string \<Rightarrow> gs \<Rightarrow> gs" where
  "SetPublicNote e k note s =
     (case get_slot k s of
        None \<Rightarrow> s
      | Some m \<Rightarrow>
          if ms_PublicNote m = note then s
          else upd_db (\<lambda>db. db\<lparr>t_member := update_where (\<lambda>r. mb_guid r = GetCounter (ms_guid m))
                 (\<lambda>r. r\<lparr>mb_pnote := note\<rparr>) (t_member db)\<rparr>)
                 (upd_slot k (\<lambda>m. m\<lparr>ms_PublicNote := escape_string e note\<rparr>) s))"

definition SetOfficerNote :: "genv \<Rightarrow> u32 \<Rightarrow> string \<Rightarrow> gs \<Rightarrow> gs" where
  "SetOfficerNote e k note s =
     (case get_slot k s of
        None \<Rightarrow> s
      | Some m \<Rightarrow>
          if ms_OfficerNote m = note then s
          else upd_db (\<lambda>db. db\<lparr>t_member := update_where (\<lambda>r. mb_guid r = GetCounter (ms_guid m))
                 (\<lambda>r. r\<lparr>mb_offnote := note\<rparr>) (t_member db)\<rparr>)
                 (upd_slot k (\<lambda>m. m\<lparr>ms_OfficerNote := escape_string e note\<rparr>) s))"

definition ChangeRank :: "u32 \<Rightarrow> u32 \<Rightarrow> gs \<Rightarrow> gs" where
  "ChangeRank k newRank s =
     (case get_slot k s of
        None \<Rightarrow> s
      | Some m \<Rightarrow>
          let s1 = upd_slot k (\<lambda>m. m\<lparr>ms_RankId := newRank\<rparr>) s;
              s2 = (case FindPlayer (ms_guid m) s1 of
                      None \<Rightarrow> s1 | Some _ \<Rightarrow> upd_gplayer (ms_guid m) (SetRank newRank) s1)
          in upd_db (\<lambda>db. db\<lparr>t_member := update_where (\<lambda>r. mb_guid r = GetCounter (ms_guid m))
               (\<lambda>r. r\<lparr>mb_rank := newRank\<rparr>) (t_member db)\<rparr>) s2)"

section \<open>Texts and emblem\<close>

definition upd_guild_row :: "(guild_row \<Rightarrow> guild_row) \<Rightarrow> gs \<Rightarrow> gs" where
  "upd_guild_row f s =
     upd_db (\<lambda>db. db\<lparr>t_guild := update_where (\<lambda>r. gr_guildid r = g_Id (s_this s)) f (t_guild db)\<rparr>) s"

definition Rename :: "string \<Rightarrow> gs \<Rightarrow> gs" where
  "Rename newName s = upd_guild_row (\<lambda>r. r\<lparr>gr_name := newName\<rparr>) (upd_this (\<lambda>g. g\<lparr>g_Name := newName\<rparr>) s)"

definition SetMOTD :: "string \<Rightarrow> gs \<Rightarrow> gs" where
  "SetMOTD motd s = upd_guild_row (\<lambda>r. r\<lparr>gr_motd := motd\<rparr>) (upd_this (\<lambda>g. g\<lparr>g_motd := motd\<rparr>) s)"

definition SetGINFO :: "string \<Rightarrow> gs \<Rightarrow> gs" where
  "SetGINFO ginfo s = upd_guild_row (\<lambda>r. r\<lparr>gr_info := ginfo\<rparr>) (upd_this (\<lambda>g. g\<lparr>g_info := ginfo\<rparr>) s)"

definition SetEmblem :: "emblem \<Rightarrow> gs \<Rightarrow> gs" where
  "SetEmblem em s = upd_guild_row (\<lambda>r. r\<lparr>gr_emblem := em\<rparr>) (upd_this (\<lambda>g. g\<lparr>g_Emblem := em\<rparr>) s)"

definition AddGMListener :: "guid \<Rightarrow> gs \<Rightarrow> bool \<times> gs" where
  "AddGMListener gm s =
     (if gm \<in> set (g_GmListeners (s_this s)) then (False, s)
      else (True, upd_this (\<lambda>g. g\<lparr>g_GmListeners := gm # g_GmListeners g\<rparr>) s))"

definition AddToCache :: "genv \<Rightarrow> u32 \<Rightarrow> gs \<Rightarrow> gs" where
  "AddToCache e low = upd_this (\<lambda>g. g\<lparr>g_onlineMemberCache := us_put (ge_order e) low (g_onlineMemberCache g)\<rparr>)"

definition RemoveFromCache :: "u32 \<Rightarrow> gs \<Rightarrow> gs" where
  "RemoveFromCache low = upd_this (\<lambda>g. g\<lparr>g_onlineMemberCache := filter (\<lambda>k. k \<noteq> low) (g_onlineMemberCache g)\<rparr>)"

definition UpdateAccountsNumber :: "gs \<Rightarrow> gs" where
  "UpdateAccountsNumber = upd_this (\<lambda>g. g\<lparr>g_accountsNumber := 0\<rparr>)"

definition GetAccountsNumber :: "gs \<Rightarrow> u32 \<times> gs" where
  "GetAccountsNumber s =
     (if g_accountsNumber (s_this s) \<noteq> 0 then (g_accountsNumber (s_this s), s)
      else let n = word_of_nat (length (remdups (map (ms_accountId \<circ> snd) (g_members (s_this s)))))
           in (n, upd_this (\<lambda>g. g\<lparr>g_accountsNumber := n\<rparr>) s))"

section \<open>Charters signed\<close>

text \<open>The first charter, in the order of the map, that the player has signed.\<close>

definition signed_by :: "guid \<Rightarrow> petition \<Rightarrow> bool" where
  "signed_by g p = (\<exists>sg \<in> set (p_signatures p). ps_playerGuid sg = g)"

definition GetSignatureForPlayerGuid :: "guid \<Rightarrow> gs \<Rightarrow> u32 option" where
  "GetSignatureForPlayerGuid g s = map_option fst (find (\<lambda>(_, p). signed_by g p) (s_petitions s))"

fun remove_signature :: "guid \<Rightarrow> petition_signature list \<Rightarrow> petition_signature list" where
  "remove_signature g [] = []"
| "remove_signature g (sg # sgs) = (if ps_playerGuid sg = g then sgs else sg # remove_signature g sgs)"

definition Signature_DeleteFromDB :: "guid \<Rightarrow> gs \<Rightarrow> gs" where
  "Signature_DeleteFromDB g =
     upd_db (\<lambda>db. db\<lparr>t_sign := delete_where (\<lambda>r. sg_ownerguid r = GetCounter g) (t_sign db)\<rparr>)"

definition DeleteSignature :: "u32 \<Rightarrow> guid \<Rightarrow> gs \<Rightarrow> gs" where
  "DeleteSignature pid g s =
     s\<lparr>s_petitions := um_update pid (\<lambda>p. p\<lparr>p_signatures := remove_signature g (p_signatures p)\<rparr>) (s_petitions s)\<rparr>"

definition withdraw_signature :: "guid \<Rightarrow> gs \<Rightarrow> gs" where
  "withdraw_signature g s =
     (case GetSignatureForPlayerGuid g s of
        None \<Rightarrow> s | Some pid \<Rightarrow> DeleteSignature pid g (Signature_DeleteFromDB g s))"

section \<open>Joining\<close>

definition CLASSMASK_ALL_PLAYABLE :: u32 where
  "CLASSMASK_ALL_PLAYABLE = 0x5DF"

text \<open>The shift by \<^verbatim>\<open>Class - 1\<close>; counts outside of the word are taken modulo 32, as the processor does.\<close>

definition playable_class :: "u8 \<Rightarrow> bool" where
  "playable_class c = bit CLASSMASK_ALL_PLAYABLE ((unat c + 31) mod 32)"

definition new_member :: "genv \<Rightarrow> guid \<Rightarrow> gs \<Rightarrow> GuildAddStatus + member_slot" where
  "new_member e g s =
     (case FindPlayerNotInWorld g s of
        Some p \<Rightarrow>
          Inr \<lparr>ms_guid = g, ms_accountId = gp_account p, ms_Name = pl_name (gp_player p), ms_RankId = 0,
               ms_Level = gp_level p, ms_Class = gp_class p, ms_ZoneId = gp_zone p, ms_LogoutTime = 0,
               ms_PublicNote = [], ms_OfficerNote = []\<rparr>
      | None \<Rightarrow>
          case ge_cache e (GetCounter g) of
            None \<Rightarrow> Inl UNKNOWN_PLAYER
          | Some d \<Rightarrow>
              if pc_sName d = [] then Inl UNKNOWN_PLAYER
              else let m = \<lparr>ms_guid = g, ms_accountId = pc_uiAccount d, ms_Name = pc_sName d, ms_RankId = 0,
                            ms_Level = ucast (pc_uiLevel d), ms_Class = ucast (pc_uiClass d),
                            ms_ZoneId = pc_uiZoneId d, ms_LogoutTime = 0, ms_PublicNote = [], ms_OfficerNote = []\<rparr>
                   in if ms_Level m < 1 \<or> \<not> playable_class (ms_Class m) then Inl PLAYER_DATA_ERROR else Inr m)"

definition GuildMemberAdded :: "u32 \<Rightarrow> u32 \<Rightarrow> gs \<Rightarrow> gs" where
  "GuildMemberAdded gid low s = s\<lparr>s_guid2guild := (s_guid2guild s)(low := Some gid)\<rparr>"

definition GuildMemberRemoved :: "u32 \<Rightarrow> gs \<Rightarrow> gs" where
  "GuildMemberRemoved low s = s\<lparr>s_guid2guild := (s_guid2guild s)(low := None)\<rparr>"

definition already_in_guild :: "guid \<Rightarrow> gs \<Rightarrow> bool" where
  "already_in_guild g s =
     (case FindPlayerNotInWorld g s of
        Some p \<Rightarrow> gp_guildId p \<noteq> 0
      | None \<Rightarrow> um_find (ucast g) (g_members (s_this s)) \<noteq> None)"

definition AddMember :: "genv \<Rightarrow> guid \<Rightarrow> u32 \<Rightarrow> gs \<Rightarrow> GuildAddStatus \<times> gs" where
  "AddMember e g plRank s =
     (if already_in_guild g s then (ALREADY_IN_GUILD, s)
      else let s1 = withdraw_signature g s; low = GetCounter g; online = FindPlayerNotInWorld g s \<noteq> None
           in case new_member e g s1 of
                Inl err \<Rightarrow> (err, s1)
              | Inr m \<Rightarrow>
                  let rank = (if online then ucast (ge_onAddMember e (ucast plRank)) else plRank);
                      s2 = (if online then run_hook (OnAddMember (g_Id (s_this s1)) g (ge_onAddMember e (ucast plRank))) s1 else s1);
                      m' = m\<lparr>ms_RankId := rank, ms_LogoutTime := now e\<rparr>;
                      s3 = upd_this (\<lambda>gd. gd\<lparr>g_members := um_put (ge_order e) low m' (g_members gd)\<rparr>) s2;
                      s4 = GuildMemberAdded (g_Id (s_this s3)) low s3;
                      s5 = upd_db (\<lambda>db. db\<lparr>t_member := insert_row mb_guid
                             \<lparr>mb_guildid = g_Id (s_this s4), mb_guid = low, mb_rank = rank, mb_pnote = [], mb_offnote = []\<rparr>
                             (t_member db)\<rparr>) s4;
                      s6 = (if online
                            then AddToCache e low (upd_gplayer g (SetGuildIdInvited 0 \<circ> SetRank rank \<circ> SetInGuild (g_Id (s_this s5))) s5)
                            else s5)
                  in (OK, UpdateAccountsNumber s6))"


section \<open>The leader\<close>

definition SetLeader :: "u32 \<Rightarrow> gs \<Rightarrow> gs" where
  "SetLeader k s =
     (case get_slot k s of
        None \<Rightarrow> s
      | Some m \<Rightarrow>
          let s1 = upd_this (\<lambda>g. g\<lparr>g_LeaderGuid := ms_guid m\<rparr>) s;
              s2 = ChangeRank k GR_GUILDMASTER s1
          in upd_guild_row (\<lambda>r. r\<lparr>gr_leaderguid := GetCounter (ms_guid m)\<rparr>) s2)"

definition SetLeaderGuid :: "guid \<Rightarrow> gs \<Rightarrow> gs" where
  "SetLeaderGuid g s = (case GetMemberSlot g (s_this s) of None \<Rightarrow> s | Some k \<Rightarrow> SetLeader k s)"

text \<open>The new leader and, when there is one, the old one.\<close>

definition slot_name :: "u32 \<Rightarrow> gs \<Rightarrow> string" where
  "slot_name k s = (case get_slot k s of None \<Rightarrow> [] | Some m \<Rightarrow> ms_Name m)"

definition SetNewLeader :: "u32 \<Rightarrow> u32 option \<Rightarrow> gs \<Rightarrow> gs" where
  "SetNewLeader new old s =
     (let s1 = SetLeader new s
      in case old of
           None \<Rightarrow> s1
         | Some k \<Rightarrow>
             let s2 = ChangeRank k GR_OFFICER s1
             in BroadcastEvent GE_LEADER_CHANGED 0 [slot_name k s2, slot_name new s2] s2)"

definition SetNewLeaderGuid :: "guid \<Rightarrow> gs \<Rightarrow> gs" where
  "SetNewLeaderGuid g s =
     (case (GetMemberSlot g (s_this s), GetMemberSlot (g_LeaderGuid (s_this s)) (s_this s)) of
        (Some new, Some old) \<Rightarrow> if new = old then s else SetNewLeader new (Some old) s
      | _ \<Rightarrow> s)"

text \<open>The first member with the highest rank, not counting the leader.\<close>

fun best_slot :: "u32 \<Rightarrow> (u32 \<times> member_slot) list \<Rightarrow> (u32 \<times> member_slot) option \<Rightarrow> (u32 \<times> member_slot) option" where
  "best_slot low [] best = best"
| "best_slot low ((k, m) # ms) best =
     (if k = low then best_slot low ms best
      else best_slot low ms
        (case best of
           None \<Rightarrow> Some (k, m)
         | Some (_, b) \<Rightarrow> if ms_RankId b > ms_RankId m then Some (k, m) else best))"

definition old_leader_slot :: "u32 \<Rightarrow> (u32 \<times> member_slot) list \<Rightarrow> u32 option" where
  "old_leader_slot low ms = (if low \<in> set (map fst ms) then Some low else None)"

abbreviation GUILD_EVENT_LOG_INVITE_PLAYER :: u8 where "GUILD_EVENT_LOG_INVITE_PLAYER \<equiv> 1"
abbreviation GUILD_EVENT_LOG_JOIN_GUILD :: u8 where "GUILD_EVENT_LOG_JOIN_GUILD \<equiv> 2"
abbreviation GUILD_EVENT_LOG_PROMOTE_PLAYER :: u8 where "GUILD_EVENT_LOG_PROMOTE_PLAYER \<equiv> 3"
abbreviation GUILD_EVENT_LOG_DEMOTE_PLAYER :: u8 where "GUILD_EVENT_LOG_DEMOTE_PLAYER \<equiv> 4"
abbreviation GUILD_EVENT_LOG_UNINVITE_PLAYER :: u8 where "GUILD_EVENT_LOG_UNINVITE_PLAYER \<equiv> 5"
abbreviation GUILD_EVENT_LOG_LEAVE_GUILD :: u8 where "GUILD_EVENT_LOG_LEAVE_GUILD \<equiv> 6"

definition oldest_officer :: "u32 \<Rightarrow> guild \<Rightarrow> u32 option" where
  "oldest_officer low gd =
     map_option ee_PlayerGuid2 (find (\<lambda>ev. ee_EventType ev = GUILD_EVENT_LOG_INVITE_PLAYER \<and> ee_PlayerGuid2 ev \<noteq> low
        \<and> (case um_find (GetCounter (player_guid (ee_PlayerGuid2 ev))) (g_members gd) of
             None \<Rightarrow> False | Some m \<Rightarrow> ms_RankId m = GR_OFFICER)) (g_GuildEventLog gd))"

definition GetSuitableNewLeader :: "bool \<Rightarrow> guild \<Rightarrow> u32 option \<times> u32 option" where
  "GetSuitableNewLeader preferOldestOfficer gd =
     (let low = GetCounter (g_LeaderGuid gd);
          new = map_option fst (best_slot low (g_members gd) None);
          new' = (if preferOldestOfficer
                  then case oldest_officer low gd of None \<Rightarrow> new | Some k \<Rightarrow> Some k
                  else new)
      in (new', old_leader_slot low (g_members gd)))"

section \<open>Leaving\<close>

definition forget_member :: "guid \<Rightarrow> bool \<Rightarrow> gs \<Rightarrow> gs" where
  "forget_member g isDisbanding s =
     (let low = GetCounter g;
          s1 = upd_this (\<lambda>gd. gd\<lparr>g_members := um_erase low (g_members gd)\<rparr>) s;
          s2 = GuildMemberRemoved low (RemoveFromCache low s1);
          s3 = (case FindPlayer g s2 of
                  None \<Rightarrow> s2
                | Some _ \<Rightarrow> upd_gplayer g (SetRank 0 \<circ> SetInGuild 0)
                              (run_hook (OnRemoveMember (g_Id (s_this s2)) g isDisbanding) s2));
          s4 = upd_db (\<lambda>db. db\<lparr>t_member := delete_where (\<lambda>r. mb_guid r = low) (t_member db)\<rparr>) s3
      in if isDisbanding then s4 else UpdateAccountsNumber s4)"

definition DelMember :: "guid \<Rightarrow> bool \<Rightarrow> gs \<Rightarrow> bool \<times> gs" where
  "DelMember g isDisbanding s =
     (let finish = (\<lambda>s. let s' = forget_member g isDisbanding s in (g_members (s_this s') = [], s'))
      in if g_LeaderGuid (s_this s) = g \<and> \<not> isDisbanding then
           (case GetSuitableNewLeader False (s_this s) of
              (None, _) \<Rightarrow> (True, s)
            | (Some best, old) \<Rightarrow>
                let s1 = SetNewLeader best old s
                in finish (case old of None \<Rightarrow> s1 | Some k \<Rightarrow> BroadcastEvent GE_LEFT g [slot_name k s1] s1))
         else finish s)"

lemma GetCounter_player_guid [simp]: "GetCounter (player_guid k) = k"
proof (cases "k = 0")
  case True
  then show ?thesis by (simp add: player_guid_def ObjectGuid2_def GetCounter_def GetCounterOf_def HasEntry_def
        GetHigh_def HasEntryHigh_def)
next
  case False
  then show ?thesis unfolding player_guid_def by (intro GetCounter_ObjectGuid2) (simp_all add: HasEntryHigh_def HIGHGUID_PLAYER_def)
qed


section \<open>Disbanding\<close>

lemma forget_member_members:
  "g_members (s_this (forget_member g b s)) = um_erase (GetCounter g) (g_members (s_this s))"
  by (simp add: forget_member_def Let_def upd_this_def upd_db_def upd_gplayer_def RemoveFromCache_def
      GuildMemberRemoved_def UpdateAccountsNumber_def run_hook_def split: option.split)

lemma um_erase_shorter: "k \<in> set (map fst m) \<Longrightarrow> length (um_erase k m) < length m"
  unfolding um_erase_def by (induction m) (auto simp: le_imp_less_Suc)

function disband_loop :: "gs \<Rightarrow> gs" where
  "disband_loop s =
     (case g_members (s_this s) of
        [] \<Rightarrow> s
      | (k, _) # _ \<Rightarrow> disband_loop (snd (DelMember (player_guid k) True s)))"
  by pat_completeness auto
termination
  by (relation "measure (\<lambda>s. length (g_members (s_this s)))")
    (auto simp: DelMember_def Let_def forget_member_members intro!: um_erase_shorter [THEN less_le_trans])

declare disband_loop.simps [simp del]

definition delete_guild_rows :: "u32 \<Rightarrow> guild_tables \<Rightarrow> guild_tables" where
  "delete_guild_rows gid db =
     db\<lparr>t_guild := delete_where (\<lambda>r. gr_guildid r = gid) (t_guild db),
        t_rank := delete_where (\<lambda>r. rk_guildid r = gid) (t_rank db),
        t_eventlog := delete_where (\<lambda>r. el_guildid r = gid) (t_eventlog db),
        t_banks := (t_banks db)\<lparr>
          t_bank := delete_where (\<lambda>r. br_guildid r = gid) (t_bank (t_banks db)),
          t_log := delete_where (\<lambda>r. lr_guildid r = gid) (t_log (t_banks db)),
          t_tabs := delete_where (\<lambda>r. tr_guildid r = gid) (t_tabs (t_banks db)),
          t_money := delete_where (\<lambda>r. mr_guildid r = gid) (t_money (t_banks db))\<rparr>\<rparr>"

definition drop_bank :: "bank option \<Rightarrow> gs \<Rightarrow> gs" where
  "drop_bank b s = (case b of None \<Rightarrow> s | Some b \<Rightarrow> snd (on_bank Bank_DeleteFromDB b s))"

definition RemoveGuild :: "u32 \<Rightarrow> gs \<Rightarrow> gs" where
  "RemoveGuild gid s = s\<lparr>s_guilds := um_erase gid (s_guilds s)\<rparr>"

definition Disband :: "gs \<Rightarrow> gs" where
  "Disband s =
     (let s1 = run_hook (OnDisband (g_Id (s_this s))) s;
          s2 = BroadcastEvent GE_DISBANDED 0 [] s1;
          s3 = disband_loop s2;
          s4 = upd_db (delete_guild_rows (g_Id (s_this s3))) s3;
          s5 = drop_bank (g_Bank (s_this s4)) s4;
          s6 = drop_bank (g_InfernoBank (s_this s5)) s5
      in RemoveGuild (g_Id (s_this s6)) s6)"

section \<open>The event log\<close>

definition log_key :: "eventlog_row \<Rightarrow> u32 \<times> u32" where
  "log_key r = (el_guildid r, el_LogGuid r)"

definition new_event :: "genv \<Rightarrow> u8 \<Rightarrow> guid \<Rightarrow> guid \<Rightarrow> u8 \<Rightarrow> event_entry" where
  "new_event e ev g1 g2 newRank =
     \<lparr>ee_EventType = ev, ee_PlayerGuid1 = GetCounter g1, ee_PlayerGuid2 = GetCounter g2, ee_NewRank = newRank,
      ee_TimeStamp = ucast (ucast (now e) :: u32)\<rparr>"

definition LogGuildEvent :: "genv \<Rightarrow> u8 \<Rightarrow> guid \<Rightarrow> guid \<Rightarrow> u8 \<Rightarrow> gs \<Rightarrow> gs" where
  "LogGuildEvent e ev g1 g2 newRank s =
     (let entry = new_event e ev g1 g2 newRank;
          next = (g_GuildEventLogNextGuid (s_this s) + 1) mod ge_eventLogCount e;
          log = g_GuildEventLog (s_this s);
          log' = (if length log \<ge> GUILD_EVENTLOG_MAX_RECORDS then tl log else log) @ [entry];
          s1 = upd_this (\<lambda>g. g\<lparr>g_GuildEventLogNextGuid := next, g_GuildEventLog := log'\<rparr>) s;
          gid = g_Id (s_this s1)
      in upd_db (\<lambda>db. db\<lparr>t_eventlog := insert_row log_key \<lparr>el_guildid = gid, el_LogGuid = next, el_entry = entry\<rparr>
           (delete_where (\<lambda>r. el_guildid r = gid \<and> el_LogGuid r = next) (t_eventlog db))\<rparr>) s1)"

definition GetGuildInviter :: "guid \<Rightarrow> guild \<Rightarrow> guid" where
  "GetGuildInviter g gd =
     (case find (\<lambda>ev. ee_EventType ev = GUILD_EVENT_LOG_INVITE_PLAYER \<and> ucast (ee_PlayerGuid2 ev) = g) (g_GuildEventLog gd) of
        None \<Rightarrow> 0 | Some ev \<Rightarrow> ucast (ee_PlayerGuid1 ev))"

section \<open>Founding a guild\<close>

definition GetGuildById :: "u32 \<Rightarrow> gs \<Rightarrow> guild option" where
  "GetGuildById gid s = um_find gid (s_guilds s)"

definition GetGuildByName :: "string \<Rightarrow> gs \<Rightarrow> u32 option" where
  "GetGuildByName name s = map_option fst (find (\<lambda>(_, g). g_Name g = name) (s_guilds s))"

definition empty_emblem :: emblem where
  "empty_emblem = \<lparr>em_EmblemStyle = 0, em_EmblemColor = 0, em_BorderStyle = 0, em_BorderColor = 0, em_BackgroundColor = 0\<rparr>"

definition new_guild :: guild where
  "new_guild = \<lparr>g_Id = 0, g_Name = [], g_LeaderGuid = 0, g_motd = [], g_info = [], g_CreatedYear = 0, g_CreatedMonth = 0,
     g_CreatedDay = 0, g_Emblem = empty_emblem, g_accountsNumber = 0, g_Ranks = [], g_cachedRoster = None,
     g_cachedOfficerRoster = None, g_cacheTimer = 4000, g_members = [], g_onlineMemberCache = [], g_GuildEventLog = [],
     g_GmListeners = [], g_GuildEventLogNextGuid = 0, g_Bank = None, g_InfernoBank = None\<rparr>"

text \<open>
  \<open>new GuildBank\<close> followed by \<^verbatim>\<open>SetGuild\<close>, which loads what the tables hold; \<open>None\<close> is a broken row that \<^verbatim>\<open>LoadBank\<close>
  reads beyond its end.
\<close>

definition open_bank :: "genv \<Rightarrow> bool \<Rightarrow> gs \<Rightarrow> (bank \<times> gs) option" where
  "open_bank e inferno s =
     (let b = (ge_newBank e inferno)\<lparr>gb_inferno := inferno, gb_db := t_banks (s_db s)\<rparr>
      in map_option (\<lambda>b'. (b', upd_db (\<lambda>db. db\<lparr>t_banks := gb_db b'\<rparr>) s)) (SetGuild (ge_world e) (g_Id (s_this s)) b))"

definition open_banks :: "genv \<Rightarrow> gs \<Rightarrow> gs option" where
  "open_banks e s =
     Option.bind (open_bank e False s) (\<lambda>(b, s1).
       let s2 = upd_this (\<lambda>g. g\<lparr>g_Bank := Some b\<rparr>) s1
       in Option.bind (open_bank e True s2) (\<lambda>(i, s3). Some (upd_this (\<lambda>g. g\<lparr>g_InfernoBank := Some i\<rparr>) s3)))"

definition found_guild :: "genv \<Rightarrow> guid \<Rightarrow> string \<Rightarrow> gs \<Rightarrow> gs" where
  "found_guild e leader gname s =
     (let gid = s_nextGuildId s; (d, m, y) = ge_date e (now e);
          s1 = upd_this (\<lambda>g. g\<lparr>g_LeaderGuid := leader, g_Name := gname, g_info := [], g_motd := ''No message set.'',
                 g_Id := gid, g_CreatedDay := d, g_CreatedMonth := m, g_CreatedYear := y\<rparr>) (s\<lparr>s_nextGuildId := gid + 1\<rparr>);
          g = s_this s1;
          row = \<lparr>gr_guildid = gid, gr_name = gname, gr_leaderguid = GetCounter leader, gr_emblem = g_Emblem g,
                 gr_info = g_info g, gr_motd = g_motd g, gr_createdate = now e\<rparr>
      in upd_db (\<lambda>db. if gid \<in> set (map gr_guildid (t_guild db)) then db
                      else db\<lparr>t_member := delete_where (\<lambda>r. mb_guildid r = gid) (t_member db), t_guild := t_guild db @ [row]\<rparr>) s1)"

definition Create :: "genv \<Rightarrow> guid \<Rightarrow> string \<Rightarrow> gs \<Rightarrow> (bool \<times> gs) option" where
  "Create e leader gname s =
     (case (GetGuildByName gname s, s_players s leader) of
        (None, Some p) \<Rightarrow>
          let s1 = CreateDefaultGuildRanks e (gp_locale p) (found_guild e leader gname s)
          in Option.bind (open_banks e s1) (\<lambda>s2.
               let (status, s3) = AddMember e leader GR_GUILDMASTER s2
               in Some (if status = OK then (True, run_hook (OnCreate (g_Id (s_this s3)) leader (g_Name (s_this s3))) s3)
                        else (False, s3)))
      | _ \<Rightarrow> Some (False, s))"

definition CreateFromPetition :: "genv \<Rightarrow> petition \<Rightarrow> guid \<Rightarrow> gs \<Rightarrow> (bool \<times> gs) option" where
  "CreateFromPetition e p leader s =
     Option.bind (Create e leader (p_name p) s) (\<lambda>(made, s1).
       if \<not> made then Some (False, s1)
       else let sigs = (case um_find (p_id p) (s_petitions s1) of None \<Rightarrow> [] | Some q \<Rightarrow> p_signatures q)
            in Some (True, fold (\<lambda>sg s. if IsEmpty (ps_playerGuid sg) then s
                                   else snd (AddMember e (ps_playerGuid sg) (GetLowestRank (s_this s)) s)) sigs s1))"

definition AddGuild :: "genv \<Rightarrow> gs \<Rightarrow> gs option" where
  "AddGuild e s =
     map_option (\<lambda>s1. s1\<lparr>s_guilds := um_put (ge_order e) (g_Id (s_this s1)) (s_this s1) (s_guilds s1)\<rparr>) (open_banks e s)"

end
