(* ===== verification/Guild_Load.thy ===== *)
theory Guild_Load
  imports Guild_Members
begin

text \<open>
  Loading at server start: \<^verbatim>\<open>LoadGuildFromDB\<close>, \<^verbatim>\<open>LoadRanksFromDB\<close>, \<^verbatim>\<open>LoadMembersFromDB\<close>, \<^verbatim>\<open>CheckGuildStructure\<close> and
  \<^verbatim>\<open>LoadGuildEventLogFromDB\<close> of \<^verbatim>\<open>Guild.cpp\<close> and \<^verbatim>\<open>GuildMgr::LoadGuilds\<close>. A query result is the list of the rows
  from the current one on; the results for ranks and members go from guild to guild. The pointer of an
  empty result is null, which is \<open>None\<close>.
\<close>

section \<open>One guild\<close>

definition LoadGuildFromDB :: "genv \<Rightarrow> guild_row \<Rightarrow> gs \<Rightarrow> gs" where
  "LoadGuildFromDB e r =
     upd_this (\<lambda>g. let g1 = g\<lparr>g_Id := gr_guildid r, g_Name := gr_name r,
                             g_LeaderGuid := player_guid (gr_leaderguid r), g_Emblem := gr_emblem r,
                             g_info := gr_info r, g_motd := gr_motd r\<rparr>
                   in if gr_createdate r > 0
                      then let (d, m, y) = ge_date e (gr_createdate r)
                           in g1\<lparr>g_CreatedDay := d, g_CreatedMonth := m, g_CreatedYear := y\<rparr>
                      else g1)"

text \<open>The loop over the rank rows; the flag says that the numbers are not 0, 1, 2, \<dots>.\<close>

fun load_ranks :: "rank_row list \<Rightarrow> bool \<Rightarrow> gs \<Rightarrow> rank_row list \<times> bool \<times> gs" where
  "load_ranks [] broken s = ([], broken, s)"
| "load_ranks (r # rs) broken s =
     (if rk_guildid r < g_Id (s_this s)
      then load_ranks rs broken
             (upd_db (\<lambda>db. db\<lparr>t_rank := delete_where (\<lambda>x. rk_guildid x = rk_guildid r) (t_rank db)\<rparr>) s)
      else if rk_guildid r > g_Id (s_this s) then (r # rs, broken, s)
      else let n = length (g_Ranks (s_this s));
               rights = (if n = 0 then rk_rights r OR GR_RIGHT_ALL else rk_rights r)
           in load_ranks rs (broken \<or> unat (rk_rid r) \<noteq> n) (AddRank (rk_rname r) rights s))"

definition repair_ranks :: "gs \<Rightarrow> gs" where
  "repair_ranks s =
     (let gid = g_Id (s_this s)
      in upd_db (\<lambda>db. db\<lparr>t_rank := fold (\<lambda>(i, ri). insert_row rank_key
             \<lparr>rk_guildid = gid, rk_rid = word_of_nat i, rk_rname = ri_Name ri, rk_rights = ri_Rights ri\<rparr>)
           (enumerate 0 (g_Ranks (s_this s))) (delete_where (\<lambda>r. rk_guildid r = gid) (t_rank db))\<rparr>) s)"

definition LoadRanksFromDB :: "genv \<Rightarrow> rank_row list option \<Rightarrow> gs \<Rightarrow> rank_row list option \<times> gs" where
  "LoadRanksFromDB e result s =
     (case result of
        None \<Rightarrow> (None, CreateDefaultGuildRanks e 0 s)
      | Some rows \<Rightarrow>
          let (rest, broken, s1) = load_ranks rows False s;
              few = length (g_Ranks (s_this s1)) < GUILD_RANKS_MIN_COUNT;
              s2 = (if few then CreateDefaultGuildRanks e 0 (upd_this (\<lambda>g. g\<lparr>g_Ranks := []\<rparr>) s1) else s1)
          in (Some rest, if broken \<and> \<not> few then repair_ranks s2 else s2))"

definition missing_character :: character_row where
  "missing_character = \<lparr>cr_name = [], cr_level = 0, cr_class = 0, cr_zone = 0, cr_logout_time = 0, cr_account = 0\<rparr>"

definition loaded_member :: "genv \<Rightarrow> member_row \<Rightarrow> guild \<Rightarrow> member_slot" where
  "loaded_member e r g =
     (let c = (case ge_characters e (mb_guid r) of None \<Rightarrow> missing_character | Some c \<Rightarrow> c)
      in \<lparr>ms_guid = player_guid (mb_guid r), ms_accountId = cr_account c, ms_Name = cr_name c,
          ms_RankId = (if unat (mb_rank r) \<ge> length (g_Ranks g) then GetLowestRank g else mb_rank r),
          ms_Level = cr_level c, ms_Class = cr_class c,
          ms_ZoneId = (if cr_zone c = 0 then ge_zoneFromDB e (player_guid (mb_guid r)) else cr_zone c),
          ms_LogoutTime = cr_logout_time c, ms_PublicNote = mb_pnote r, ms_OfficerNote = mb_offnote r\<rparr>)"

definition member_loads :: "member_slot \<Rightarrow> bool" where
  "member_loads m = (\<not> ms_Level m < 1 \<and> playable_class (ms_Class m) \<and> ms_Name m \<noteq> [])"

fun load_members :: "genv \<Rightarrow> member_row list \<Rightarrow> gs \<Rightarrow> member_row list \<times> gs" where
  "load_members e [] s = ([], s)"
| "load_members e (r # rs) s =
     (if mb_guildid r < g_Id (s_this s)
      then load_members e rs
             (upd_db (\<lambda>db. db\<lparr>t_member := delete_where (\<lambda>x. mb_guildid x = mb_guildid r) (t_member db)\<rparr>) s)
      else if mb_guildid r > g_Id (s_this s) then (r # rs, s)
      else let m = loaded_member e r (s_this s)
           in if \<not> member_loads m
              then load_members e rs
                     (upd_db (\<lambda>db. db\<lparr>t_member := delete_where (\<lambda>x. mb_guid x = mb_guid r) (t_member db)\<rparr>) s)
              else load_members e rs (GuildMemberAdded (g_Id (s_this s)) (mb_guid r)
                     (upd_this (\<lambda>g. g\<lparr>g_members := um_put (ge_order e) (mb_guid r) m (g_members g)\<rparr>) s)))"

definition LoadMembersFromDB :: "genv \<Rightarrow> member_row list option \<Rightarrow> gs \<Rightarrow> bool \<times> member_row list option \<times> gs" where
  "LoadMembersFromDB e result s =
     (case result of
        None \<Rightarrow> (False, None, s)
      | Some rows \<Rightarrow>
          let (rest, s1) = load_members e rows s
          in if g_members (s_this s1) = [] then (False, Some rest, s1)
             else (True, Some rest, UpdateAccountsNumber s1))"

text \<open>The loop that leaves one guild master; the iterator visits the members of the map at its start.\<close>

definition demote_masters :: "gs \<Rightarrow> gs" where
  "demote_masters s =
     fold (\<lambda>k s. case get_slot k s of
                   None \<Rightarrow> s
                 | Some m \<Rightarrow> if ms_RankId m = GR_GUILDMASTER \<and> g_LeaderGuid (s_this s) \<noteq> ms_guid m
                             then ChangeRank k GR_OFFICER s else s)
       (map fst (g_members (s_this s))) s"

definition CheckGuildStructure :: "gs \<Rightarrow> bool \<times> gs" where
  "CheckGuildStructure s =
     (let leader = g_LeaderGuid (s_this s); rank = GetRank leader (s_this s)
      in if rank = - 1 then
           (case DelMember leader False s of
              (True, s1) \<Rightarrow> (False, s1)
            | (False, s1) \<Rightarrow> (True, demote_masters s1))
         else (True, demote_masters (if rank \<noteq> GR_GUILDMASTER then SetLeaderGuid leader s else s)))"

section \<open>The event log\<close>

text \<open>Newest first, as the query orders them, and at most \<^verbatim>\<open>GUILD_EVENTLOG_MAX_RECORDS\<close>.\<close>

definition log_rows_of :: "u32 \<Rightarrow> guild_tables \<Rightarrow> eventlog_row list" where
  "log_rows_of gid db =
     take GUILD_EVENTLOG_MAX_RECORDS
      (rev (sort_key (\<lambda>r. unat (ee_TimeStamp (el_entry r)))
        (sort_key (\<lambda>r. unat (el_LogGuid r)) (filter (\<lambda>r. el_guildid r = gid) (t_eventlog db)))))"

definition LoadGuildEventLogFromDB :: "gs \<Rightarrow> gs" where
  "LoadGuildEventLogFromDB s =
     (case log_rows_of (g_Id (s_this s)) (s_db s) of
        [] \<Rightarrow> s
      | r # rs \<Rightarrow>
          upd_this (\<lambda>g. g\<lparr>g_GuildEventLogNextGuid := el_LogGuid r,
                         g_GuildEventLog := fold (\<lambda>r log. el_entry r # log) (r # rs) (g_GuildEventLog g)\<rparr>) s)"

section \<open>All guilds\<close>

definition load_guild :: "genv \<Rightarrow> guild_row \<Rightarrow> rank_row list option \<times> member_row list option \<times> gs \<Rightarrow>
    (rank_row list option \<times> member_row list option \<times> gs) option" where
  "load_guild e r = (\<lambda>(ranks, members, s0).
     let s1 = LoadGuildFromDB e r (s0\<lparr>s_this := new_guild\<rparr>);
         (ranks', s2) = LoadRanksFromDB e ranks s1;
         (some, members', s3) = LoadMembersFromDB e members s2
     in if \<not> some then Some (ranks', members', Disband s3)
        else case CheckGuildStructure s3 of
               (False, s4) \<Rightarrow> Some (ranks', members', Disband s4)
             | (True, s4) \<Rightarrow>
                 map_option (\<lambda>s5. (ranks', members', s5)) (AddGuild e (LoadGuildEventLogFromDB s4)))"

fun load_all :: "genv \<Rightarrow> guild_row list \<Rightarrow> rank_row list option \<times> member_row list option \<times> gs \<Rightarrow> gs option" where
  "load_all e [] (_, _, s) = Some s"
| "load_all e (r # rs) st = Option.bind (load_guild e r st) (load_all e rs)"

definition null_if_empty :: "'a list \<Rightarrow> 'a list option" where
  "null_if_empty xs = (if xs = [] then None else Some xs)"

definition LoadGuilds :: "genv \<Rightarrow> gs \<Rightarrow> gs option" where
  "LoadGuilds e s =
     (let db = s_db s; rows = sort_key (\<lambda>r. unat (gr_guildid r)) (t_guild db)
      in if rows = [] then Some s
         else map_option
           (upd_db (\<lambda>db. db\<lparr>t_eventlog := delete_where (\<lambda>r. el_LogGuid r > ge_eventLogCount e) (t_eventlog db)\<rparr>))
           (load_all e rows
             (null_if_empty (sort_key (\<lambda>r. unat (rk_guildid r)) (sort_key (\<lambda>r. unat (rk_rid r)) (t_rank db))),
              null_if_empty (sort_key (\<lambda>r. unat (mb_guildid r)) (t_member db)), s)))"

end
