(* ===== verification/Guild_Roster.thy ===== *)
theory Guild_Roster
  imports Guild_Members
begin

text \<open>
  The packets that describe a guild: \<^verbatim>\<open>Roster\<close>, \<^verbatim>\<open>BuildOnlineRosterPacket\<close> with its cache, and \<^verbatim>\<open>Query\<close> of
  \<^verbatim>\<open>src/src/game/Guild/Guild.cpp\<close>. The client refuses packets above \<open>0x8000\<close> bytes, so members are left out
  when the estimated size is too large: the ones of lower rank first, members who are not online before
  members who are.
\<close>

section \<open>Entries\<close>

abbreviation MAX_UNCOMPRESSED_PACKET_SIZE :: nat where "MAX_UNCOMPRESSED_PACKET_SIZE \<equiv> 0x8000"

record member_info =
  mi_Guid :: guid
  mi_Member :: "gplayer option"
  mi_Slot :: member_slot

definition member_infos :: "gs \<Rightarrow> member_info list" where
  "member_infos s =
     map (\<lambda>(k, m). \<lparr>mi_Guid = player_guid k, mi_Member = FindPlayer (player_guid k) s, mi_Slot = m\<rparr>) (g_members (s_this s))"

definition info_online :: "member_info \<Rightarrow> bool" where
  "info_online i = (case mi_Member i of None \<Rightarrow> False | Some p \<Rightarrow> \<not> gp_noSocials p)"

definition header_size :: "guild \<Rightarrow> nat" where
  "header_size g = 4 + (length (g_motd g) + 1 + length (g_info g) + 1) + 4 + 4 * length (g_Ranks g)"

definition roster_header :: "u32 \<Rightarrow> guild \<Rightarrow> packet_field list" where
  "roster_header cnt g =
     [F32 cnt, FString (g_motd g), FString (g_info g), F32 (word_of_nat (length (g_Ranks g)))]
     @ map (\<lambda>r. F32 (ri_Rights r)) (g_Ranks g)"

definition note_field :: "bool \<Rightarrow> member_slot \<Rightarrow> packet_field" where
  "note_field sendOfficerNote m = FString (if sendOfficerNote then ms_OfficerNote m else [])"

definition player_fields :: "gplayer \<Rightarrow> member_slot \<Rightarrow> packet_field list" where
  "player_fields p m =
     [FString (pl_name (gp_player p)), F32 (ms_RankId m), F8 (gp_level p), F8 (gp_class p), F32 (gp_zone p)]"

definition slot_fields :: "genv \<Rightarrow> member_slot \<Rightarrow> packet_field list" where
  "slot_fields e m =
     [FString (ms_Name m), F32 (ms_RankId m), F8 (ms_Level m), F8 (ms_Class m), F32 (ms_ZoneId m),
      F32 (ge_days e (now e - ms_LogoutTime m))]"

definition online_entry :: "bool \<Rightarrow> member_info \<Rightarrow> packet_field list" where
  "online_entry sendOfficerNote i =
     (case mi_Member i of
        None \<Rightarrow> []
      | Some p \<Rightarrow> [F64 (mi_Guid i), F8 1] @ player_fields p (mi_Slot i)
                  @ [FString (ms_PublicNote (mi_Slot i)), note_field sendOfficerNote (mi_Slot i)])"

definition member_entry :: "genv \<Rightarrow> bool \<Rightarrow> member_info \<Rightarrow> packet_field list" where
  "member_entry e sendOfficerNote i =
     [F64 (mi_Guid i), F8 (if info_online i then 1 else 0)]
     @ (case mi_Member i of Some p \<Rightarrow> player_fields p (mi_Slot i) | None \<Rightarrow> slot_fields e (mi_Slot i))
     @ [FString (ms_PublicNote (mi_Slot i)), note_field sendOfficerNote (mi_Slot i)]"

text \<open>
  The loops that write members: \<open>skip\<close> leaves one out, and the first that does not fit ends the loop. The
  result is the packet and the number of members written.
\<close>

fun write_members :: "bool \<Rightarrow> (member_info \<Rightarrow> bool) \<Rightarrow> (member_info \<Rightarrow> packet_field list) \<Rightarrow> member_info list \<Rightarrow>
    packet_field list \<times> nat \<Rightarrow> packet_field list \<times> nat" where
  "write_members inPacketCap skip entry [] (data, n) = (data, n)"
| "write_members inPacketCap skip entry (i # is) (data, n) =
     (if skip i then write_members inPacketCap skip entry is (data, n)
      else if \<not> inPacketCap \<and> length (data_bytes data) + GUILD_MEMBER_BLOCK_SIZE \<ge> MAX_UNCOMPRESSED_PACKET_SIZE
      then (data, n)
      else write_members inPacketCap skip entry is (data @ entry i, Suc n))"

definition sort_by_rank :: "genv \<Rightarrow> member_info list \<Rightarrow> member_info list" where
  "sort_by_rank e is = map ((!) is) (ge_sort e (map (ms_RankId \<circ> mi_Slot) is))"

text \<open>\<^verbatim>\<open>data.put\<close> writes the final number over the first field.\<close>

definition finish_roster :: "packet_field list \<times> nat \<Rightarrow> world_packet" where
  "finish_roster dn = Packet SMSG_GUILD_ROSTER (F32 (word_of_nat (snd dn)) # tl (fst dn))"

section \<open>The roster\<close>

definition BuildOnlineRosterPacket :: "genv \<Rightarrow> bool \<Rightarrow> gs \<Rightarrow> world_packet" where
  "BuildOnlineRosterPacket e sendOfficerNote s =
     (let g = s_this s; online = filter info_online (member_infos s);
          totalSize = header_size g
            + sum_list (map (\<lambda>i. GUILD_MEMBER_BLOCK_SIZE_WITHOUT_NOTE + length (ms_PublicNote (mi_Slot i))
                + (if sendOfficerNote then length (ms_OfficerNote (mi_Slot i)) else 0)) online);
          inPacketCap = unat (word_of_nat totalSize :: u32) < MAX_UNCOMPRESSED_PACKET_SIZE;
          online' = (if inPacketCap then online else sort_by_rank e online)
      in finish_roster (write_members inPacketCap (\<lambda>i. mi_Member i = None) (online_entry sendOfficerNote) online'
           (roster_header (word_of_nat (length online)) g, 0)))"

text \<open>
  \<open>session\<close> is the guid of the player who asks; without one the roster goes to everybody and the officer
  notes are left out.
\<close>

definition sees_officer_notes :: "guid option \<Rightarrow> gs \<Rightarrow> bool" where
  "sees_officer_notes session s =
     (case session of
        None \<Rightarrow> False
      | Some g \<Rightarrow> case s_players s g of
                    None \<Rightarrow> False
                  | Some p \<Rightarrow> HasRankRight (pl_rank (gp_player p)) GR_RIGHT_VIEWOFFNOTE (s_this s))"

definition send_or_broadcast :: "guid option \<Rightarrow> world_packet \<Rightarrow> gs \<Rightarrow> gs" where
  "send_or_broadcast session p s = (case session of Some g \<Rightarrow> SendPacket g p s | None \<Rightarrow> BroadcastPacket p s)"

definition roster_packet :: "genv \<Rightarrow> bool \<Rightarrow> gs \<Rightarrow> world_packet" where
  "roster_packet e sendOfficerNote s =
     (let g = s_this s; infos = member_infos s;
          online = filter info_online infos; offline = filter (\<lambda>i. \<not> info_online i) infos;
          totalSize = header_size g
            + sum_list (map (\<lambda>i. GUILD_MEMBER_BLOCK_SIZE_WITHOUT_NOTE
                + (length (ms_PublicNote (mi_Slot i)) + 1 + length (ms_OfficerNote (mi_Slot i)) + 1)) infos);
          cnt = min (length online + length offline) GUILD_MAX_MEMBERS;
          onlineMembers = min (length online) GUILD_MAX_MEMBERS;
          offlineMembers = min (length offline) (GUILD_MAX_MEMBERS - onlineMembers);
          inPacketCap = unat (word_of_nat totalSize :: u32) < MAX_UNCOMPRESSED_PACKET_SIZE;
          order = (if inPacketCap then id else sort_by_rank e);
          d1 = write_members inPacketCap (\<lambda>i. mi_Member i = None) (member_entry e sendOfficerNote)
                 (take onlineMembers (order online)) (roster_header (word_of_nat cnt) g, 0)
      in finish_roster
           (write_members inPacketCap (\<lambda>i. info_online i \<or> ms_Name (mi_Slot i) = []) (member_entry e sendOfficerNote)
             (take offlineMembers (order offline)) d1))"

definition Roster :: "genv \<Rightarrow> guid option \<Rightarrow> gs \<Rightarrow> gs" where
  "Roster e session s = send_or_broadcast session (roster_packet e (sees_officer_notes session s) s) s"

definition IsRosterCacheEnabled :: "guild \<Rightarrow> bool" where
  "IsRosterCacheEnabled g = (length (g_members g) \<ge> 1000)"

definition TempRosterOnline :: "genv \<Rightarrow> guid option \<Rightarrow> gs \<Rightarrow> gs" where
  "TempRosterOnline e session s =
     (let notes = sees_officer_notes session s;
          cached = (if notes then g_cachedOfficerRoster (s_this s) else g_cachedRoster (s_this s))
      in case (IsRosterCacheEnabled (s_this s), cached) of
           (True, Some p) \<Rightarrow> send_or_broadcast session p s
         | _ \<Rightarrow> send_or_broadcast session (BuildOnlineRosterPacket e notes s) s)"

definition UpdateCaches :: "genv \<Rightarrow> u32 \<Rightarrow> gs \<Rightarrow> gs" where
  "UpdateCaches e diff s =
     (if \<not> IsMemberCacheEnabled (s_this s) then s
      else if g_cacheTimer (s_this s) < diff
      then upd_this (\<lambda>g. g\<lparr>g_cachedOfficerRoster := Some (BuildOnlineRosterPacket e True s),
                          g_cachedRoster := Some (BuildOnlineRosterPacket e False s), g_cacheTimer := 4000\<rparr>) s
      else upd_this (\<lambda>g. g\<lparr>g_cacheTimer := g_cacheTimer g - diff\<rparr>) s)"

section \<open>The guild query\<close>

definition Query :: "guid \<Rightarrow> gs \<Rightarrow> gs" where
  "Query session s =
     (let g = s_this s; em = g_Emblem g
      in SendPacket session (Packet SMSG_GUILD_QUERY_RESPONSE
          ([F32 (g_Id g), FString (g_Name g)]
           @ map (\<lambda>i. if i < length (g_Ranks g) then FString (ri_Name (g_Ranks g ! i)) else F8 0) [0..<GUILD_RANKS_MAX_COUNT]
           @ [F32 (em_EmblemStyle em), F32 (em_EmblemColor em), F32 (em_BorderStyle em), F32 (em_BorderColor em),
              F32 (em_BackgroundColor em)])) s)"

end
