(* ===== verification/Guild_Handlers.thy ===== *)
theory Guild_Handlers
  imports Guild_Roster
begin

text \<open>
  The handlers of guild packets, \<^verbatim>\<open>src/src/game/Handlers/GuildHandler.cpp\<close>. \<open>me\<close> is the player of the
  session; the fields that a handler reads from the packet are its arguments. The result \<open>None\<close> of a handler
  that deletes ranks is the null pointer of \<open>DelRank\<close>.
\<close>

section \<open>Frames of the handlers\<close>

text \<open>The object that \<^verbatim>\<open>GetGuildById\<close> returns is worked on and then is what the map holds, unless it was removed.\<close>

definition store_guild :: "u32 \<Rightarrow> gs \<Rightarrow> gs" where
  "store_guild gid s = s\<lparr>s_guilds := um_update gid (\<lambda>_. s_this s) (s_guilds s)\<rparr>"

definition with_guild :: "u32 \<Rightarrow> (gs \<Rightarrow> gs) \<Rightarrow> (gs \<Rightarrow> gs) \<Rightarrow> gs \<Rightarrow> gs" where
  "with_guild gid none f s =
     (case GetGuildById gid s of None \<Rightarrow> none s | Some g \<Rightarrow> store_guild gid (f (s\<lparr>s_this := g\<rparr>)))"

definition SendGuildCommandResult :: "guid \<Rightarrow> u32 \<Rightarrow> string \<Rightarrow> u32 \<Rightarrow> gs \<Rightarrow> gs" where
  "SendGuildCommandResult me typecmd str cmdresult =
     SendPacket me (Packet SMSG_GUILD_COMMAND_RESULT [F32 typecmd, FString str, F32 cmdresult])"

abbreviation GUILD_CREATE_S :: u32 where "GUILD_CREATE_S \<equiv> 0"
abbreviation GUILD_INVITE_S :: u32 where "GUILD_INVITE_S \<equiv> 1"
abbreviation GUILD_QUIT_S :: u32 where "GUILD_QUIT_S \<equiv> 3"
abbreviation ERR_PLAYER_NO_MORE_IN_GUILD :: u32 where "ERR_PLAYER_NO_MORE_IN_GUILD \<equiv> 0"
abbreviation ERR_ALREADY_IN_GUILD_S :: u32 where "ERR_ALREADY_IN_GUILD_S \<equiv> 3"
abbreviation ERR_ALREADY_INVITED_TO_GUILD_S :: u32 where "ERR_ALREADY_INVITED_TO_GUILD_S \<equiv> 5"
abbreviation ERR_GUILD_NAME_INVALID :: u32 where "ERR_GUILD_NAME_INVALID \<equiv> 6"
abbreviation ERR_GUILD_NAME_EXISTS_S :: u32 where "ERR_GUILD_NAME_EXISTS_S \<equiv> 7"
abbreviation ERR_GUILD_LEADER_LEAVE :: u32 where "ERR_GUILD_LEADER_LEAVE \<equiv> 8"
abbreviation ERR_GUILD_PERMISSIONS :: u32 where "ERR_GUILD_PERMISSIONS \<equiv> 8"
abbreviation ERR_GUILD_PLAYER_NOT_IN_GUILD :: u32 where "ERR_GUILD_PLAYER_NOT_IN_GUILD \<equiv> 9"
abbreviation ERR_GUILD_PLAYER_NOT_IN_GUILD_S :: u32 where "ERR_GUILD_PLAYER_NOT_IN_GUILD_S \<equiv> 10"
abbreviation ERR_GUILD_PLAYER_NOT_FOUND_S :: u32 where "ERR_GUILD_PLAYER_NOT_FOUND_S \<equiv> 11"
abbreviation ERR_GUILD_NOT_ALLIED :: u32 where "ERR_GUILD_NOT_ALLIED \<equiv> 12"
abbreviation ERR_GUILD_RANK_TOO_HIGH_S :: u32 where "ERR_GUILD_RANK_TOO_HIGH_S \<equiv> 13"
abbreviation ERR_GUILD_RANK_TOO_LOW_S :: u32 where "ERR_GUILD_RANK_TOO_LOW_S \<equiv> 14"

definition not_in_guild :: "guid \<Rightarrow> gs \<Rightarrow> gs" where
  "not_in_guild me = SendGuildCommandResult me GUILD_CREATE_S [] ERR_GUILD_PLAYER_NOT_IN_GUILD"

definition no_permission :: "guid \<Rightarrow> gs \<Rightarrow> gs" where
  "no_permission me = SendGuildCommandResult me GUILD_INVITE_S [] ERR_GUILD_PERMISSIONS"

definition my_name :: "guid \<Rightarrow> gs \<Rightarrow> string" where
  "my_name me s = (case s_players s me of None \<Rightarrow> [] | Some p \<Rightarrow> pl_name (gp_player p))"

definition my_rank :: "guid \<Rightarrow> gs \<Rightarrow> u32" where
  "my_rank me s = (case s_players s me of None \<Rightarrow> 0 | Some p \<Rightarrow> pl_rank (gp_player p))"

definition my_guild :: "guid \<Rightarrow> gs \<Rightarrow> u32" where
  "my_guild me s = (case s_players s me of None \<Rightarrow> 0 | Some p \<Rightarrow> gp_guildId p)"

text \<open>The common start: the guild of the player, and the right or the leadership that the operation needs.\<close>

definition in_my_guild :: "guid \<Rightarrow> (gs \<Rightarrow> gs) \<Rightarrow> gs \<Rightarrow> gs" where
  "in_my_guild me f s = with_guild (my_guild me s) (not_in_guild me) f s"

definition need_right :: "guid \<Rightarrow> u32 \<Rightarrow> (gs \<Rightarrow> gs) \<Rightarrow> gs \<Rightarrow> gs" where
  "need_right me right f s =
     (if HasRankRight (my_rank me s) right (s_this s) then f s else no_permission me s)"

definition need_leader :: "guid \<Rightarrow> (gs \<Rightarrow> gs) \<Rightarrow> gs \<Rightarrow> gs" where
  "need_leader me f s = (if me = g_LeaderGuid (s_this s) then f s else no_permission me s)"

definition need_member :: "guid \<Rightarrow> string \<Rightarrow> (u32 \<Rightarrow> member_slot \<Rightarrow> gs \<Rightarrow> gs) \<Rightarrow> gs \<Rightarrow> gs" where
  "need_member me name f s =
     (case GetMemberSlotByName name (s_this s) of
        None \<Rightarrow> SendGuildCommandResult me GUILD_INVITE_S name ERR_GUILD_PLAYER_NOT_IN_GUILD_S s
      | Some k \<Rightarrow> case get_slot k s of None \<Rightarrow> s | Some m \<Rightarrow> f k m s)"

abbreviation normal_name :: "string \<Rightarrow> string option" where
  "normal_name \<equiv> normalizePlayerName MAX_INTERNAL_PLAYER_NAME True"

section \<open>Information\<close>

definition HandleGuildQueryOpcode :: "guid \<Rightarrow> u32 \<Rightarrow> gs \<Rightarrow> gs" where
  "HandleGuildQueryOpcode me gid = with_guild gid (not_in_guild me) (Query me)"

definition HandleGuildInfoOpcode :: "guid \<Rightarrow> gs \<Rightarrow> gs" where
  "HandleGuildInfoOpcode me =
     in_my_guild me (\<lambda>s. let g = s_this s; (n, s1) = GetAccountsNumber s
       in SendPacket me (Packet SMSG_GUILD_INFO
            [FString (g_Name g), F32 (g_CreatedDay g), F32 (g_CreatedMonth g), F32 (g_CreatedYear g),
             F32 (word_of_nat (length (g_members g))), F32 n]) s1)"

definition HandleGuildRosterOpcode :: "genv \<Rightarrow> guid \<Rightarrow> gs \<Rightarrow> gs" where
  "HandleGuildRosterOpcode e me s = with_guild (my_guild me s) id (Roster e (Some me)) s"

section \<open>Joining and leaving\<close>

definition HandleGuildCreateOpcode :: "genv \<Rightarrow> guid \<Rightarrow> string \<Rightarrow> gs \<Rightarrow> gs option" where
  "HandleGuildCreateOpcode e me gname s =
     (if my_guild me s \<noteq> 0 then Some s
      else Option.bind (Create e me gname (s\<lparr>s_this := new_guild\<rparr>)) (\<lambda>(made, s1).
             if made then AddGuild e s1 else Some s1))"

text \<open>\<^verbatim>\<open>FindPlayerByName\<close> looks names up that are normalised again.\<close>

definition FindPlayerByName :: "genv \<Rightarrow> string \<Rightarrow> gs \<Rightarrow> guid option" where
  "FindPlayerByName e name s =
     Option.bind (normal_name name) (\<lambda>n. Option.bind (ge_names e n) (\<lambda>g.
       Option.bind (s_players s g) (\<lambda>p. if pl_inWorld (gp_player p) then Some g else None)))"

definition HandleGuildInviteOpcode :: "genv \<Rightarrow> guid \<Rightarrow> string \<Rightarrow> gs \<Rightarrow> gs" where
  "HandleGuildInviteOpcode e me invited s =
     (let name = (case normal_name invited of None \<Rightarrow> invited | Some n \<Rightarrow> n);
          target = (case normal_name invited of None \<Rightarrow> None | Some n \<Rightarrow> FindPlayerByName e n s)
      in case Option.bind target (\<lambda>g. map_option (Pair g) (s_players s g)) of
           None \<Rightarrow> SendGuildCommandResult me GUILD_INVITE_S name ERR_GUILD_PLAYER_NOT_FOUND_S s
         | Some (g, p) \<Rightarrow>
             in_my_guild me (\<lambda>s.
               if me \<in> set (gp_ignores p) then s
               else if \<not> ge_twoSide e \<and> map_option gp_team (s_players s me) \<noteq> Some (gp_team p)
               then SendGuildCommandResult me GUILD_INVITE_S name ERR_GUILD_NOT_ALLIED s
               else if gp_guildId p \<noteq> 0
               then SendGuildCommandResult me GUILD_INVITE_S (pl_name (gp_player p)) ERR_ALREADY_IN_GUILD_S s
               else if gp_GuildIdInvited p \<noteq> 0
               then SendGuildCommandResult me GUILD_INVITE_S (pl_name (gp_player p)) ERR_ALREADY_INVITED_TO_GUILD_S s
               else need_right me GR_RIGHT_INVITE (\<lambda>s.
                 let s1 = upd_gplayer g (SetGuildIdInvited (my_guild me s)) s;
                     s2 = LogGuildEvent e GUILD_EVENT_LOG_INVITE_PLAYER me g 0 s1
                 in run_hook (OnGuildInvite g)
                      (SendPacket g (Packet SMSG_GUILD_INVITE [FString (my_name me s), FString (g_Name (s_this s))]) s2)) s) s)"

definition HandleGuildAcceptOpcode :: "genv \<Rightarrow> guid \<Rightarrow> gs \<Rightarrow> gs" where
  "HandleGuildAcceptOpcode e me s =
     (case s_players s me of
        None \<Rightarrow> s
      | Some p \<Rightarrow>
          with_guild (gp_GuildIdInvited p) id (\<lambda>s.
            let leader = g_LeaderGuid (s_this s);
                leaderTeam = (case FindPlayer leader s of
                                Some l \<Rightarrow> gp_team l
                              | None \<Rightarrow> case ge_cache e (GetCounter leader) of None \<Rightarrow> 0 | Some d \<Rightarrow> pc_team d)
            in if gp_guildId p \<noteq> 0 \<or> (\<not> ge_twoSide e \<and> gp_team p \<noteq> leaderTeam) then s
               else case AddMember e me (GetLowestRank (s_this s)) s of
                      (status, s1) \<Rightarrow>
                        if status \<noteq> OK then s1
                        else BroadcastEvent GE_JOINED me [pl_name (gp_player p)]
                               (LogGuildEvent e GUILD_EVENT_LOG_JOIN_GUILD me 0 0 s1)) s)"

definition HandleGuildDeclineOpcode :: "guid \<Rightarrow> gs \<Rightarrow> gs" where
  "HandleGuildDeclineOpcode me s =
     (case s_players s me of
        None \<Rightarrow> s
      | Some p \<Rightarrow>
          if gp_guildId p \<noteq> 0 \<or> gp_GuildIdInvited p = 0 then s
          else let s1 = with_guild (gp_GuildIdInvited p) id (\<lambda>s.
                     let inviter = GetGuildInviter me (s_this s)
                     in if IsEmpty inviter \<or> FindPlayer inviter s = None then s
                        else SendPacket inviter (Packet SMSG_GUILD_DECLINE [FString (pl_name (gp_player p))]) s) s
               in upd_gplayer me (SetGuildIdInvited 0) s1)"

definition HandleGuildRemoveOpcode :: "genv \<Rightarrow> guid \<Rightarrow> string \<Rightarrow> gs \<Rightarrow> gs" where
  "HandleGuildRemoveOpcode e me plName s =
     (case (normal_name plName, s_players s me) of
        (Some name, Some p) \<Rightarrow>
          if \<not> pl_inWorld (gp_player p) then s
          else in_my_guild me (need_right me GR_RIGHT_REMOVE (need_member me name (\<lambda>k m s.
            if ms_RankId m = GR_GUILDMASTER then SendGuildCommandResult me GUILD_QUIT_S [] ERR_GUILD_LEADER_LEAVE s
            else if my_rank me s \<ge> ms_RankId m
            then SendGuildCommandResult me GUILD_QUIT_S name ERR_GUILD_RANK_TOO_HIGH_S s
            else case DelMember (ms_guid m) False s of
                   (True, s1) \<Rightarrow> Disband s1
                 | (False, s1) \<Rightarrow>
                     BroadcastEvent GE_REMOVED 0 [name, my_name me s1]
                       (LogGuildEvent e GUILD_EVENT_LOG_UNINVITE_PLAYER me (ms_guid m) 0 s1)))) s
      | _ \<Rightarrow> s)"

definition HandleGuildLeaveOpcode :: "genv \<Rightarrow> guid \<Rightarrow> gs \<Rightarrow> gs" where
  "HandleGuildLeaveOpcode e me =
     in_my_guild me (\<lambda>s.
       let g = s_this s
       in if me = g_LeaderGuid g \<and> length (g_members g) > 1
          then SendGuildCommandResult me GUILD_QUIT_S [] ERR_GUILD_LEADER_LEAVE s
          else if me = g_LeaderGuid g then Disband s
          else let s1 = SendGuildCommandResult me GUILD_QUIT_S (g_Name g) ERR_PLAYER_NO_MORE_IN_GUILD s
               in case DelMember me False s1 of
                    (True, s2) \<Rightarrow> Disband s2
                  | (False, s2) \<Rightarrow>
                      BroadcastEvent GE_LEFT me [my_name me s2]
                        (LogGuildEvent e GUILD_EVENT_LOG_LEAVE_GUILD me 0 0 s2))"

definition HandleGuildDisbandOpcode :: "guid \<Rightarrow> gs \<Rightarrow> gs" where
  "HandleGuildDisbandOpcode me = in_my_guild me (need_leader me Disband)"

section \<open>Ranks of members\<close>

definition HandleGuildPromoteOpcode :: "genv \<Rightarrow> guid \<Rightarrow> string \<Rightarrow> gs \<Rightarrow> gs" where
  "HandleGuildPromoteOpcode e me plName s =
     (case normal_name plName of
        None \<Rightarrow> s
      | Some name \<Rightarrow>
          in_my_guild me (need_right me GR_RIGHT_PROMOTE (need_member me name (\<lambda>k m s.
            if ms_guid m = me then SendGuildCommandResult me GUILD_INVITE_S [] ERR_GUILD_NAME_INVALID s
            else if my_rank me s + 1 \<ge> ms_RankId m
            then SendGuildCommandResult me GUILD_INVITE_S name ERR_GUILD_RANK_TOO_HIGH_S s
            else let newRankId = ms_RankId m - 1;
                     s1 = ChangeRank k newRankId s;
                     s2 = LogGuildEvent e GUILD_EVENT_LOG_PROMOTE_PLAYER me (ms_guid m) (ucast newRankId) s1
                 in BroadcastEvent GE_PROMOTION 0 [my_name me s2, name, GetRankName newRankId (s_this s2)] s2))) s)"

definition HandleGuildDemoteOpcode :: "genv \<Rightarrow> guid \<Rightarrow> string \<Rightarrow> gs \<Rightarrow> gs" where
  "HandleGuildDemoteOpcode e me plName s =
     (case normal_name plName of
        None \<Rightarrow> s
      | Some name \<Rightarrow>
          in_my_guild me (need_right me GR_RIGHT_DEMOTE (need_member me name (\<lambda>k m s.
            if ms_guid m = me then SendGuildCommandResult me GUILD_INVITE_S [] ERR_GUILD_NAME_INVALID s
            else if my_rank me s \<ge> ms_RankId m
            then SendGuildCommandResult me GUILD_INVITE_S name ERR_GUILD_RANK_TOO_HIGH_S s
            else if ms_RankId m \<ge> GetLowestRank (s_this s)
            then SendGuildCommandResult me GUILD_INVITE_S name ERR_GUILD_RANK_TOO_LOW_S s
            else let newRankId = ms_RankId m + 1;
                     s1 = ChangeRank k newRankId s;
                     s2 = LogGuildEvent e GUILD_EVENT_LOG_DEMOTE_PLAYER me (ms_guid m) (ucast newRankId) s1
                 in BroadcastEvent GE_DEMOTION 0 [my_name me s2, name, GetRankName newRankId (s_this s2)] s2))) s)"

definition HandleGuildLeaderOpcode :: "guid \<Rightarrow> string \<Rightarrow> gs \<Rightarrow> gs" where
  "HandleGuildLeaderOpcode me name0 s =
     (case normal_name name0 of
        None \<Rightarrow> s
      | Some name \<Rightarrow>
          in_my_guild me (need_leader me (\<lambda>s.
            case GetMemberSlot me (s_this s) of
              None \<Rightarrow> no_permission me s
            | Some old \<Rightarrow> need_member me name (\<lambda>k m s.
                if k = old then SendGuildCommandResult me GUILD_INVITE_S name ERR_ALREADY_IN_GUILD_S s
                else SetNewLeader k (Some old) s) s)) s)"

section \<open>Texts, notes and the rank table\<close>

definition HandleGuildMOTDOpcode :: "guid \<Rightarrow> string \<Rightarrow> gs \<Rightarrow> gs" where
  "HandleGuildMOTDOpcode me motd s =
     (if length motd > GUILD_MOTD_MAX_LENGTH then s
      else in_my_guild me (need_right me GR_RIGHT_SETMOTD (\<lambda>s. BroadcastEvent GE_MOTD 0 [motd] (SetMOTD motd s))) s)"

definition HandleGuildSetPublicNoteOpcode :: "genv \<Rightarrow> guid \<Rightarrow> string \<Rightarrow> string \<Rightarrow> gs \<Rightarrow> gs" where
  "HandleGuildSetPublicNoteOpcode e me name0 note0 s =
     (case (normal_name name0, normalizePlayerName GUILD_NOTE_MAX_LENGTH False note0) of
        (Some name, Some note) \<Rightarrow>
          in_my_guild me (need_right me GR_RIGHT_EPNOTE (need_member me name (\<lambda>k m s.
            if length note > GUILD_NOTE_MAX_LENGTH then s
            else Roster e (Some me) (SetPublicNote e k note s)))) s
      | _ \<Rightarrow> s)"

definition HandleGuildSetOfficerNoteOpcode :: "genv \<Rightarrow> guid \<Rightarrow> string \<Rightarrow> string \<Rightarrow> gs \<Rightarrow> gs" where
  "HandleGuildSetOfficerNoteOpcode e me name0 note0 s =
     (case (normal_name name0, normalizePlayerName GUILD_NOTE_MAX_LENGTH False note0) of
        (Some name, Some note) \<Rightarrow>
          in_my_guild me (need_right me GR_RIGHT_EOFFNOTE (need_member me name (\<lambda>k m s.
            if length note > GUILD_NOTE_MAX_LENGTH then s
            else Roster e (Some me) (SetOfficerNote e k note s)))) s
      | _ \<Rightarrow> s)"

definition HandleGuildRankOpcode :: "genv \<Rightarrow> guid \<Rightarrow> u32 \<Rightarrow> u32 \<Rightarrow> string \<Rightarrow> gs \<Rightarrow> gs" where
  "HandleGuildRankOpcode e me rankId rights0 rankname0 =
     in_my_guild me (need_leader me (\<lambda>s.
       case normalizePlayerName 25 False rankname0 of
         None \<Rightarrow> s
       | Some rankname \<Rightarrow>
           let s1 = SetRankName rankId rankname s;
               rights = (if rankId = GR_GUILDMASTER then GR_RIGHT_ALL else rights0);
               s2 = SetRankRights rankId rights s1
           in Roster e None (Query me s2)))"

definition HandleGuildAddRankOpcode :: "genv \<Rightarrow> guid \<Rightarrow> string \<Rightarrow> gs \<Rightarrow> gs" where
  "HandleGuildAddRankOpcode e me rankname0 s =
     (case normal_name rankname0 of
        None \<Rightarrow> s
      | Some rankname \<Rightarrow>
          in_my_guild me (need_leader me (\<lambda>s.
            if length (g_Ranks (s_this s)) \<ge> GUILD_RANKS_MAX_COUNT then s
            else Roster e None (Query me (CreateRank rankname (GR_RIGHT_GCHATLISTEN OR GR_RIGHT_GCHATSPEAK) s)))) s)"

definition HandleGuildDelRankOpcode :: "genv \<Rightarrow> guid \<Rightarrow> gs \<Rightarrow> gs option" where
  "HandleGuildDelRankOpcode e me s =
     (case GetGuildById (my_guild me s) s of
        None \<Rightarrow> Some (not_in_guild me s)
      | Some g \<Rightarrow>
          let s0 = s\<lparr>s_this := g\<rparr>
          in map_option (store_guild (my_guild me s))
               (if me \<noteq> g_LeaderGuid g then Some (no_permission me s0)
                else map_option (\<lambda>s1. Roster e None (Query me s1)) (DelRank s0)))"

definition HandleGuildChangeInfoTextOpcode :: "guid \<Rightarrow> string \<Rightarrow> gs \<Rightarrow> gs" where
  "HandleGuildChangeInfoTextOpcode me ginfo0 s =
     (case normalizePlayerName GUILD_INFO_MAX_LENGTH False ginfo0 of
        None \<Rightarrow> s
      | Some ginfo \<Rightarrow>
          if length ginfo > GUILD_INFO_MAX_LENGTH then s
          else in_my_guild me (\<lambda>s.
            if HasRankRight (my_rank me s) GR_RIGHT_MODIFY_GUILD_INFO (s_this s) then SetGINFO ginfo s
            else SendGuildCommandResult me GUILD_CREATE_S [] ERR_GUILD_PERMISSIONS s) s)"

definition SendSaveGuildEmblem :: "guid \<Rightarrow> u32 \<Rightarrow> gs \<Rightarrow> gs" where
  "SendSaveGuildEmblem me msg = SendPacket me (Packet MSG_SAVE_GUILD_EMBLEM [F32 msg])"

text \<open>\<open>vendor\<close> says whether the player can interact with the tabard designer named in the packet.\<close>

definition HandleSaveGuildEmblemOpcode :: "genv \<Rightarrow> guid \<Rightarrow> bool \<Rightarrow> emblem \<Rightarrow> gs \<Rightarrow> gs" where
  "HandleSaveGuildEmblemOpcode e me vendor em s =
     (case s_players s me of
        None \<Rightarrow> s
      | Some p \<Rightarrow>
          if \<not> vendor then SendSaveGuildEmblem me 5 s
          else with_guild (gp_guildId p) (SendSaveGuildEmblem me 2) (\<lambda>s.
            if g_LeaderGuid (s_this s) \<noteq> me then SendSaveGuildEmblem me 3 s
            else if pl_money (gp_player p) < 10 * GOLD then SendSaveGuildEmblem me 4 s
            else let s1 = upd_gplayer me (\<lambda>p. p\<lparr>gp_player := ModifyMoney (ge_world e) (- (10 * GOLD)) (gp_player p)\<rparr>) s;
                     s2 = SetEmblem em s1
                 in Query me (SendSaveGuildEmblem me 0 s2)) s)"

end
