(* ===== verification/Guild_Session.thy ===== *)
theory Guild_Session
  imports Guild_Handlers
begin

text \<open>
  What the rest of the server does with guilds: a player who enters or leaves the game
  (\<^verbatim>\<open>Player::_LoadGuild\<close>, \<^verbatim>\<open>MasterPlayer::LoadPlayer\<close>, \<^verbatim>\<open>WorldSession::HandlePlayerLogin\<close> and \<^verbatim>\<open>LogoutPlayer\<close>), a
  character that is deleted (\<^verbatim>\<open>HandleCharDeleteOpcode\<close>, \<^verbatim>\<open>Player::DeleteFromDB\<close>), the death of a hardcore
  player, guild and officer chat, and the update of the guild manager.
\<close>

section \<open>Entering the game\<close>

definition LoadGuild :: "member_row option \<Rightarrow> gs \<Rightarrow> gplayer \<Rightarrow> gplayer" where
  "LoadGuild result s p =
     (let p1 = (case result of
                  Some r \<Rightarrow> SetRank (mb_rank r) (SetInGuild (mb_guildid r) p)
                | None \<Rightarrow> SetRank 0 (SetInGuild 0 p))
      in if gp_guildId p1 \<noteq> 0 \<and> GetGuildById (gp_guildId p1) s = None then SetRank 0 (SetInGuild 0 p1) else p1)"

definition LoadPlayer :: "guid \<Rightarrow> gplayer \<Rightarrow> master_player \<Rightarrow> master_player" where
  "LoadPlayer g p m =
     m\<lparr>mp_guid := g, mp_name := pl_name (gp_player p), mp_guildId := gp_guildId p, mp_rank := pl_rank (gp_player p)\<rparr>"

text \<open>
  \<open>p\<close> and \<open>m\<close> are the objects as the other parts of the login fill them. The player is registered with
  the accessor before the guild is told; a session that takes over a \<^verbatim>\<open>MasterPlayer\<close> keeps it.
\<close>

definition login_master :: "guid \<Rightarrow> gplayer \<Rightarrow> master_player \<Rightarrow> gs \<Rightarrow> gs" where
  "login_master g p m s =
     (case s_masters s g of Some _ \<Rightarrow> s | None \<Rightarrow> s\<lparr>s_masters := (s_masters s)(g \<mapsto> LoadPlayer g p m)\<rparr>)"

definition HandlePlayerLogin :: "genv \<Rightarrow> guid \<Rightarrow> gplayer \<Rightarrow> master_player \<Rightarrow> gs \<Rightarrow> gs" where
  "HandlePlayerLogin e g p m s =
     (let p1 = LoadGuild (find (\<lambda>r. mb_guid r = GetCounter g) (t_member (s_db s))) s p;
          s1 = login_master g p1 m (s\<lparr>s_players := (s_players s)(g \<mapsto> p1)\<rparr>)
      in with_guild (gp_guildId p1) id (\<lambda>s.
           AddToCache e (GetCounter g)
             (BroadcastEvent GE_SIGNED_ON g [pl_name (gp_player p1)]
               (SendPacket g (Packet SMSG_GUILD_EVENT [F8 GE_MOTD, F8 1, FString (g_motd (s_this s))]) s))) s1)"

section \<open>Leaving the game\<close>

definition LogoutPlayer :: "genv \<Rightarrow> guid \<Rightarrow> gs \<Rightarrow> gs" where
  "LogoutPlayer e g s =
     (case s_players s g of
        None \<Rightarrow> s
      | Some p \<Rightarrow>
          let s1 = with_guild (gp_guildId p) id (\<lambda>s.
                BroadcastEvent GE_SIGNED_OFF g [pl_name (gp_player p)]
                  (case GetMemberSlot g (s_this s) of
                     None \<Rightarrow> s | Some k \<Rightarrow> upd_slot k (UpdateLogoutTime e \<circ> SetMemberStats p) s)) s;
              s2 = s1\<lparr>s_players := (s_players s1)(g := None)\<rparr>
          in case s_masters s2 g of
               None \<Rightarrow> s2
             | Some m \<Rightarrow>
                 (with_guild (mp_guildId m) id (RemoveFromCache (GetCounter g)) s2)\<lparr>s_masters := (s_masters s2)(g := None)\<rparr>)"

section \<open>Deleting a character\<close>

definition GetPlayerGuild :: "u32 \<Rightarrow> gs \<Rightarrow> guild option" where
  "GetPlayerGuild low s = Option.bind (s_guid2guild s low) (\<lambda>gid. GetGuildById gid s)"

definition GetGuildByLeader :: "guid \<Rightarrow> gs \<Rightarrow> u32 option" where
  "GetGuildByLeader g s = map_option fst (find (\<lambda>(_, gd). g_LeaderGuid gd = g) (s_guilds s))"

definition GetPetitionByOwnerGuid :: "guid \<Rightarrow> gs \<Rightarrow> u32 option" where
  "GetPetitionByOwnerGuid g s = map_option fst (find (\<lambda>(_, p). p_ownerGuid p = g) (s_petitions s))"

definition Petition_Delete :: "u32 \<Rightarrow> gs \<Rightarrow> gs" where
  "Petition_Delete pid =
     (if pid = 0 then id
      else upd_db (\<lambda>db. db\<lparr>t_petition := delete_where (\<lambda>r. pt_petitionguid r = pid) (t_petition db),
                          t_sign := delete_where (\<lambda>r. sg_petitionguid r = pid) (t_sign db)\<rparr>))"

definition DeletePetition :: "u32 \<Rightarrow> gs \<Rightarrow> gs" where
  "DeletePetition pid s = Petition_Delete pid (s\<lparr>s_petitions := um_erase pid (s_petitions s)\<rparr>)"

definition DeleteFromDB :: "guid \<Rightarrow> gs \<Rightarrow> gs" where
  "DeleteFromDB g s =
     (let s1 = (case GetPlayerGuild (ucast g) s of
                  None \<Rightarrow> s
                | Some gd \<Rightarrow> with_guild (g_Id gd) id (\<lambda>s. case DelMember g False s of
                                                        (True, s') \<Rightarrow> Disband s' | (False, s') \<Rightarrow> s') s);
          s2 = (case GetPetitionByOwnerGuid g s1 of None \<Rightarrow> s1 | Some pid \<Rightarrow> DeletePetition pid s1)
      in withdraw_signature g s2)"

text \<open>
  \<open>account\<close> is the account of the session and \<open>locked\<close> says that the character waits for a transfer. The
  answers go to a client that is not in the game and are left out.
\<close>

definition HandleCharDeleteOpcode :: "genv \<Rightarrow> u32 \<Rightarrow> bool \<Rightarrow> guid \<Rightarrow> gs \<Rightarrow> gs" where
  "HandleCharDeleteOpcode e account locked g s =
     (if FindPlayerNotInWorld g s \<noteq> None \<or> GetGuildByLeader g s \<noteq> None \<or> locked then s
      else case ge_cache e (GetCounter g) of
             None \<Rightarrow> s
           | Some d \<Rightarrow> if pc_uiAccount d \<noteq> account then s else DeleteFromDB g s)"

section \<open>Hardcore death\<close>

definition hardcore_succession :: "guid \<Rightarrow> gs \<Rightarrow> gs" where
  "hardcore_succession g s =
     (case s_players s g of
        None \<Rightarrow> s
      | Some p \<Rightarrow>
          with_guild (gp_guildId p) id (\<lambda>s.
            if g_LeaderGuid (s_this s) \<noteq> g then s
            else case GetSuitableNewLeader True (s_this s) of
                   (Some new, old) \<Rightarrow> SetNewLeader new old s
                 | (None, _) \<Rightarrow> s) s)"

section \<open>Chat\<close>

text \<open>Guild and rank are those of the \<^verbatim>\<open>MasterPlayer\<close>: what they were when the player entered the game.\<close>

definition chat_guild :: "guid \<Rightarrow> string \<Rightarrow> u32 \<Rightarrow> gs \<Rightarrow> gs" where
  "chat_guild g msg language s =
     (case s_masters s g of
        None \<Rightarrow> s | Some m \<Rightarrow> with_guild (mp_guildId m) id (BroadcastToGuild m msg language) s)"

definition chat_officer :: "guid \<Rightarrow> string \<Rightarrow> u32 \<Rightarrow> gs \<Rightarrow> gs" where
  "chat_officer g msg language s =
     (case s_masters s g of
        None \<Rightarrow> s
      | Some m \<Rightarrow> if mp_guildId m = 0 then s else with_guild (mp_guildId m) id (BroadcastToOfficers m msg language) s)"

section \<open>The update of the guild manager\<close>

text \<open>The banks are saved once a minute; \<open>None\<close> is the use of a null pointer, for a guild without banks.\<close>

abbreviation GUILD_BANK_SAVE_INTERVAL :: u32 where "GUILD_BANK_SAVE_INTERVAL \<equiv> 60000"

fun save_banks :: "u32 list \<Rightarrow> gs \<Rightarrow> gs option" where
  "save_banks [] s = Some s"
| "save_banks (gid # gids) s =
     (case GetGuildById gid s of
        None \<Rightarrow> save_banks gids s
      | Some g \<Rightarrow>
          (case (g_Bank g, g_InfernoBank g) of
             (Some b, Some i) \<Rightarrow>
               let (b', s1) = on_bank SaveToDB b s; (i', s2) = on_bank SaveToDB i s1
               in save_banks gids (s2\<lparr>s_guilds :=
                    um_update gid (\<lambda>g. g\<lparr>g_Bank := Some b', g_InfernoBank := Some i'\<rparr>) (s_guilds s2)\<rparr>)
           | _ \<Rightarrow> None))"

definition SaveGuildBanks :: "gs \<Rightarrow> gs option" where
  "SaveGuildBanks s = save_banks (map fst (s_guilds s)) (s\<lparr>s_bankSaveTimer := GUILD_BANK_SAVE_INTERVAL\<rparr>)"

definition GuildMgr_Update :: "genv \<Rightarrow> u32 \<Rightarrow> gs \<Rightarrow> gs option" where
  "GuildMgr_Update e diff s =
     map_option (\<lambda>s1. fold (\<lambda>gid. with_guild gid id (UpdateCaches e diff)) (map fst (s_guilds s1)) s1)
       (if s_bankSaveTimer s < diff then SaveGuildBanks s
        else Some (s\<lparr>s_bankSaveTimer := s_bankSaveTimer s - diff\<rparr>))"

end
