(* ===== verification/Guild_Inv.thy ===== *)
theory Guild_Inv
  imports Guild_Session
begin

text \<open>
  What the guilds of a running server promise: every guild has one master, who is its leader and a member;
  a player is in at most one guild; the table \<^verbatim>\<open>guild_member\<close>, the index of the guild manager and the fields of
  the connected players agree with the guild objects.
\<close>

section \<open>Hash maps\<close>

lemma um_find_update [simp]:
  "um_find k' (um_update k f m) = (if k' = k then map_option f (um_find k m) else um_find k' m)"
  unfolding um_find_def um_update_def by (induction m) auto

lemma keys_update [simp]: "map fst (um_update k f m) = map fst m"
  unfolding um_update_def by (induction m) auto

lemma um_find_erase [simp]: "um_find k' (um_erase k m) = (if k' = k then None else um_find k' m)"
  unfolding um_find_def um_erase_def by (induction m) auto

lemma distinct_erase: "distinct (map fst m) \<Longrightarrow> distinct (map fst (um_erase k m))"
  unfolding um_erase_def by (induction m) auto

lemma map_of_map_filter:
  "map_of (List.map_filter (\<lambda>k. map_option (Pair k) (f k)) ks) k' = (if k' \<in> set ks then f k' else None)"
  by (induction ks) (auto simp: List.map_filter_simps split: option.split)

lemma keys_map_filter:
  "(\<And>k. k \<in> set ks \<Longrightarrow> f k \<noteq> None) \<Longrightarrow> map fst (List.map_filter (\<lambda>k. map_option (Pair k) (f k)) ks) = ks"
  by (induction ks) (auto simp: List.map_filter_simps split: option.splits)

lemma um_find_put:
  assumes "\<And>ks. mset (order ks) = mset ks"
  shows "um_find k' (um_put order k v m) = (if k' = k then Some v else um_find k' m)"
proof (cases "k \<in> set (map fst m)")
  case True
  then have "um_find k m \<noteq> None" by (simp add: um_find_def map_of_eq_None_iff)
  then show ?thesis using True by (auto simp: um_put_def)
next
  case False
  let ?m = "(k, v) # m"
  have s: "set (order (map fst ?m)) = insert k (set (map fst m))"
    using assms [of "map fst ?m"] by (metis list.simps(15) list.simps(9) fst_conv set_mset_mset)
  have "um_find k' (um_put order k v m) = (if k' \<in> set (order (map fst ?m)) then map_of ?m k' else None)"
    using False by (simp only: um_put_def if_False Let_def um_find_def map_of_map_filter)
  also have "\<dots> = (if k' = k then Some v else um_find k' m)"
    unfolding s using map_of_eq_None_iff [of m k'] by (auto simp: um_find_def)
  finally show ?thesis .
qed

lemma distinct_put:
  assumes "\<And>ks. mset (order ks) = mset ks" and "distinct (map fst m)"
  shows "distinct (map fst (um_put order k v m))"
proof (cases "k \<in> set (map fst m)")
  case False
  let ?m = "(k, v) # m"
  have p: "mset (order (map fst ?m)) = mset (map fst ?m)" by (rule assms)
  have "map_of ?m k' \<noteq> None" if "k' \<in> set (order (map fst ?m))" for k'
    using that p by (metis map_of_eq_None_iff set_map set_mset_mset)
  then have "map fst (List.map_filter (\<lambda>k'. map_option (Pair k') (map_of ?m k')) (order (map fst ?m))) = order (map fst ?m)"
    by (rule keys_map_filter)
  then have "map fst (um_put order k v m) = order (map fst ?m)"
    using False by (simp only: um_put_def if_False Let_def)
  moreover have "distinct (map fst ?m)" using False assms(2) by simp
  ultimately show ?thesis using p by (metis mset_eq_imp_distinct_iff)
qed (use assms(2) in \<open>simp add: um_put_def\<close>)

lemma um_find_mem: "um_find k m \<noteq> None \<longleftrightarrow> k \<in> set (map fst m)"
  by (simp add: um_find_def map_of_eq_None_iff)


section \<open>The part of the state that the invariant is about\<close>

record gcore =
  gc_id :: u32
  gc_leader :: guid
  gc_mem :: "u32 \<Rightarrow> (guid \<times> u32) option"
  gc_ranks :: nat
  gc_banks :: bool

record score =
  sc_this :: gcore
  sc_guilds :: "u32 \<Rightarrow> gcore option"
  sc_index :: "u32 \<Rightarrow> u32 option"
  sc_players :: "guid \<Rightarrow> (u32 \<times> bool \<times> u32) option"
  sc_rows :: "(u32 \<times> u32 \<times> u32) list"
  sc_next :: u32

definition gcore_of :: "guild \<Rightarrow> gcore" where
  "gcore_of g = \<lparr>gc_id = g_Id g, gc_leader = g_LeaderGuid g,
     gc_mem = (\<lambda>k. map_option (\<lambda>m. (ms_guid m, ms_RankId m)) (um_find k (g_members g))),
     gc_ranks = length (g_Ranks g), gc_banks = (g_Bank g \<noteq> None \<and> g_InfernoBank g \<noteq> None)\<rparr>"

definition row_core :: "member_row \<Rightarrow> u32 \<times> u32 \<times> u32" where
  "row_core r = (mb_guid r, mb_guildid r, mb_rank r)"

definition player_core :: "gplayer \<Rightarrow> u32 \<times> bool \<times> u32" where
  "player_core p = (gp_guildId p, pl_inWorld (gp_player p), pl_rank (gp_player p))"

definition score :: "gs \<Rightarrow> score" where
  "score s = \<lparr>sc_this = gcore_of (s_this s), sc_guilds = (\<lambda>gid. map_option gcore_of (um_find gid (s_guilds s))),
     sc_index = s_guid2guild s, sc_players = (\<lambda>g. map_option player_core (s_players s g)),
     sc_rows = map row_core (t_member (s_db s)), sc_next = s_nextGuildId s\<rparr>"

lemmas core_simps = score_def gcore_of_def player_core_def row_core_def

text \<open>Operations that the invariant does not see.\<close>

named_theorems quiet \<open>operations that keep the core of the state\<close>

lemma score_upd_this: "gcore_of (f (s_this s)) = gcore_of (s_this s) \<Longrightarrow> score (upd_this f s) = score s"
  by (simp add: upd_this_def score_def)

lemma score_upd_db: "t_member (f (s_db s)) = t_member (s_db s) \<Longrightarrow> score (upd_db f s) = score s"
  by (simp add: upd_db_def score_def)

lemma score_upd_gplayer:
  "(\<And>p. player_core (f p) = player_core p) \<Longrightarrow> score (upd_gplayer g f s) = score s"
  by (auto simp: upd_gplayer_def score_def fun_eq_iff option.map_comp comp_def)

lemma score_SendPacket [quiet, simp]: "score (SendPacket g p s) = score s"
  by (simp add: SendPacket_def score_def)

lemma score_run_hook [quiet, simp]: "score (run_hook h s) = score s"
  by (simp add: run_hook_def score_def)

lemma score_send_all [quiet, simp]: "score (send_all gs p s) = score s"
  unfolding send_all_def by (induction gs arbitrary: s) simp_all

lemma score_BroadcastPacket [quiet, simp]: "score (BroadcastPacket p s) = score s"
  by (simp add: BroadcastPacket_def)

lemma score_BroadcastEvent [quiet, simp]: "score (BroadcastEvent ev g strs s) = score s"
  by (simp add: BroadcastEvent_def)

lemma score_LogGuildEvent [quiet, simp]: "score (LogGuildEvent e ev g1 g2 r s) = score s"
  by (simp add: LogGuildEvent_def Let_def score_upd_db score_upd_this gcore_of_def)

lemma score_upd_guild_row [simp]: "score (upd_guild_row f s) = score s"
  by (simp add: upd_guild_row_def score_upd_db)

lemma score_texts [quiet, simp]:
  "score (SetMOTD x s) = score s" "score (SetGINFO x s) = score s" "score (SetEmblem em s) = score s"
  by (simp_all add: SetMOTD_def SetGINFO_def SetEmblem_def score_upd_this gcore_of_def)

lemma score_upd_slot:
  assumes "\<And>m. ms_guid (f m) = ms_guid m" "\<And>m. ms_RankId (f m) = ms_RankId m"
  shows "score (upd_slot k f s) = score s"
  unfolding upd_slot_def by (rule score_upd_this) (auto simp: gcore_of_def assms fun_eq_iff option.map_comp comp_def)

lemma score_notes [quiet, simp]:
  "score (SetPublicNote e k n s) = score s" "score (SetOfficerNote e k n s) = score s"
proof -
  have "map row_core (update_where P (\<lambda>r. r\<lparr>mb_pnote := n\<rparr>) rows) = map row_core rows"
    "map row_core (update_where P (\<lambda>r. r\<lparr>mb_offnote := n\<rparr>) rows) = map row_core rows" for P rows n
    by (simp_all add: update_where_def row_core_def)
  then have db: "score (upd_db (\<lambda>db. db\<lparr>t_member := update_where P (\<lambda>r. r\<lparr>mb_pnote := n\<rparr>) (t_member db)\<rparr>) s) = score s"
    "score (upd_db (\<lambda>db. db\<lparr>t_member := update_where P (\<lambda>r. r\<lparr>mb_offnote := n\<rparr>) (t_member db)\<rparr>) s) = score s"
    for P n s by (simp_all add: upd_db_def score_def)
  show "score (SetPublicNote e k n s) = score s" "score (SetOfficerNote e k n s) = score s"
    by (simp_all add: SetPublicNote_def SetOfficerNote_def db score_upd_slot split: option.split)
qed

lemma score_rank_table [quiet, simp]:
  "score (SetRankName i n s) = score s" "score (SetRankRights i x s) = score s"
  by (simp_all add: SetRankName_def SetRankRights_def Let_def score_upd_db score_upd_this gcore_of_def)

lemma score_Query [quiet, simp]: "score (Query g s) = score s"
  by (simp add: Query_def Let_def)

lemma score_Roster [quiet, simp]: "score (Roster e g s) = score s"
  by (simp add: Roster_def send_or_broadcast_def split: option.split)

lemma score_results [quiet, simp]:
  "score (SendGuildCommandResult g t str c s) = score s" "score (not_in_guild g s) = score s"
  "score (no_permission g s) = score s" "score (SendSaveGuildEmblem g n s) = score s"
  by (simp_all add: SendGuildCommandResult_def not_in_guild_def no_permission_def SendSaveGuildEmblem_def)

lemma score_GetAccountsNumber [quiet, simp]: "score (snd (GetAccountsNumber s)) = score s"
  by (simp add: GetAccountsNumber_def Let_def score_upd_this gcore_of_def)

lemma score_UpdateAccountsNumber [quiet, simp]: "score (UpdateAccountsNumber s) = score s"
  by (simp add: UpdateAccountsNumber_def score_upd_this gcore_of_def)

lemma score_caches [quiet, simp]:
  "score (AddToCache e k s) = score s" "score (RemoveFromCache k s) = score s" "score (UpdateCaches e d s) = score s"
  by (simp_all add: AddToCache_def RemoveFromCache_def UpdateCaches_def score_upd_this gcore_of_def)

lemma score_withdraw_signature [quiet, simp]: "score (withdraw_signature g s) = score s"
  by (simp add: withdraw_signature_def Signature_DeleteFromDB_def score_upd_db DeleteSignature_def score_def upd_db_def
      split: option.split)


section \<open>Operations that the invariant sees\<close>

definition set_mem :: "u32 \<Rightarrow> (guid \<times> u32) option \<Rightarrow> gcore \<Rightarrow> gcore" where
  "set_mem k x g = g\<lparr>gc_mem := (gc_mem g)(k := x)\<rparr>"

text \<open>The guild and the rank of a player change only while he is in the world.\<close>

definition tell_player :: "guid \<Rightarrow> (u32 \<Rightarrow> u32) \<Rightarrow> u32 \<Rightarrow> (guid \<Rightarrow> (u32 \<times> bool \<times> u32) option) \<Rightarrow> guid \<Rightarrow> (u32 \<times> bool \<times> u32) option" where
  "tell_player g f r P =
     (case P g of Some (gid, True, _) \<Rightarrow> if IsEmpty g then P else P(g \<mapsto> (f gid, True, r)) | _ \<Rightarrow> P)"

lemma tell_player_other [simp]: "p \<noteq> g \<Longrightarrow> tell_player g f r P p = P p"
  by (auto simp: tell_player_def split: option.split bool.split)

lemma get_slot_core: "gc_mem (sc_this (score s)) k = map_option (\<lambda>m. (ms_guid m, ms_RankId m)) (get_slot k s)"
  by (simp add: core_simps get_slot_def)

lemma score_ChangeRank:
  assumes "get_slot k s = Some m"
  shows "score (ChangeRank k r s) = (score s)\<lparr>
     sc_this := set_mem k (Some (ms_guid m, r)) (sc_this (score s)),
     sc_players := tell_player (ms_guid m) id r (sc_players (score s)),
     sc_rows := map (\<lambda>(k', gid, r'). (k', gid, if k' = GetCounter (ms_guid m) then r else r')) (sc_rows (score s))\<rparr>"
proof -
  define s1 where "s1 = upd_slot k (\<lambda>m. m\<lparr>ms_RankId := r\<rparr>) s"
  define s2 where "s2 = (case FindPlayer (ms_guid m) s1 of None \<Rightarrow> s1 | Some _ \<Rightarrow> upd_gplayer (ms_guid m) (SetRank r) s1)"
  have "score s1 = (score s)\<lparr>sc_this := set_mem k (Some (ms_guid m, r)) (sc_this (score s))\<rparr>"
    using assms by (auto simp: s1_def upd_slot_def upd_this_def core_simps set_mem_def get_slot_def fun_eq_iff)
  moreover have "score s2 = (score s1)\<lparr>sc_players := tell_player (ms_guid m) id r (sc_players (score s1))\<rparr>"
    by (auto simp: s2_def FindPlayer_def FindPlayerNotInWorld_def upd_gplayer_def score_def player_core_def tell_player_def
        SetRank_def fun_eq_iff split: option.split bool.split)
  moreover have "ChangeRank k r s = upd_db (\<lambda>db. db\<lparr>t_member := update_where (\<lambda>r. mb_guid r = GetCounter (ms_guid m))
               (\<lambda>x. x\<lparr>mb_rank := r\<rparr>) (t_member db)\<rparr>) s2"
    unfolding ChangeRank_def s2_def s1_def Let_def using assms by simp
  moreover have "score (upd_db (\<lambda>db. db\<lparr>t_member := update_where (\<lambda>r. mb_guid r = GetCounter (ms_guid m))
               (\<lambda>x. x\<lparr>mb_rank := r\<rparr>) (t_member db)\<rparr>) s2) = (score s2)\<lparr>sc_rows :=
      map (\<lambda>(k', gid, r'). (k', gid, if k' = GetCounter (ms_guid m) then r else r')) (sc_rows (score s2))\<rparr>"
    by (simp add: upd_db_def core_simps update_where_def)
  ultimately show ?thesis by simp
qed

lemma score_SetLeader:
  assumes "get_slot k s = Some m"
  shows "score (SetLeader k s) = (score s)\<lparr>
     sc_this := (set_mem k (Some (ms_guid m, GR_GUILDMASTER)) (sc_this (score s)))\<lparr>gc_leader := ms_guid m\<rparr>,
     sc_players := tell_player (ms_guid m) id GR_GUILDMASTER (sc_players (score s)),
     sc_rows := map (\<lambda>(k', gid, r'). (k', gid, if k' = GetCounter (ms_guid m) then GR_GUILDMASTER else r')) (sc_rows (score s))\<rparr>"
proof -
  define s1 where "s1 = upd_this (\<lambda>g. g\<lparr>g_LeaderGuid := ms_guid m\<rparr>) s"
  have "get_slot k s1 = Some m" using assms by (simp add: s1_def get_slot_def upd_this_def)
  moreover have "score s1 = (score s)\<lparr>sc_this := (sc_this (score s))\<lparr>gc_leader := ms_guid m\<rparr>\<rparr>"
    by (simp add: s1_def upd_this_def core_simps)
  ultimately show ?thesis
    using assms by (simp add: SetLeader_def Let_def s1_def [symmetric] score_ChangeRank set_mem_def)
qed

lemma get_slot_SetLeader:
  "get_slot k' (SetLeader k s) \<noteq> None \<longleftrightarrow> get_slot k' s \<noteq> None"
  "k' \<noteq> k \<Longrightarrow> get_slot k' (SetLeader k s) = get_slot k' s"
  by (auto simp: SetLeader_def ChangeRank_def get_slot_def upd_slot_def upd_this_def upd_db_def upd_guild_row_def
      upd_gplayer_def Let_def split: option.splits)

lemma score_SetNewLeader:
  assumes "get_slot k s = Some m" and "get_slot old s = Some mo" and "old \<noteq> k"
  shows "score (SetNewLeader k (Some old) s) = (score s)\<lparr>
     sc_this := (set_mem old (Some (ms_guid mo, GR_OFFICER))
       (set_mem k (Some (ms_guid m, GR_GUILDMASTER)) (sc_this (score s))))\<lparr>gc_leader := ms_guid m\<rparr>,
     sc_players := tell_player (ms_guid mo) id GR_OFFICER (tell_player (ms_guid m) id GR_GUILDMASTER (sc_players (score s))),
     sc_rows := map (\<lambda>(k', gid, r'). (k', gid, if k' = GetCounter (ms_guid mo) then GR_OFFICER
       else if k' = GetCounter (ms_guid m) then GR_GUILDMASTER else r')) (sc_rows (score s))\<rparr>"
  using assms by (auto simp: SetNewLeader_def Let_def score_ChangeRank get_slot_SetLeader score_SetLeader set_mem_def
      fun_upd_twist case_prod_unfold)

definition erase_core :: "guid \<Rightarrow> score \<Rightarrow> score" where
  "erase_core g c = c\<lparr>
     sc_this := set_mem (GetCounter g) None (sc_this c), sc_index := (sc_index c)(GetCounter g := None),
     sc_players := tell_player g (\<lambda>_. 0) 0 (sc_players c),
     sc_rows := filter (\<lambda>(k, _). k \<noteq> GetCounter g) (sc_rows c)\<rparr>"

lemma score_forget_member: "score (forget_member g b s) = erase_core g (score s)"
proof -
  let ?low = "GetCounter g"
  define s1 where "s1 = upd_this (\<lambda>gd. gd\<lparr>g_members := um_erase ?low (g_members gd)\<rparr>) s"
  define s2 where "s2 = GuildMemberRemoved ?low (RemoveFromCache ?low s1)"
  define s3 where "s3 = (case FindPlayer g s2 of None \<Rightarrow> s2 | Some _ \<Rightarrow> upd_gplayer g (SetRank 0 \<circ> SetInGuild 0)
                              (run_hook (OnRemoveMember (g_Id (s_this s2)) g b) s2))"
  have 1: "score s1 = (score s)\<lparr>sc_this := set_mem ?low None (sc_this (score s))\<rparr>"
    by (auto simp: s1_def upd_this_def core_simps set_mem_def fun_eq_iff)
  have "score s2 = (score (RemoveFromCache ?low s1))\<lparr>sc_index := (sc_index (score (RemoveFromCache ?low s1)))(?low := None)\<rparr>"
    by (simp add: s2_def GuildMemberRemoved_def score_def)
  then have 2: "score s2 = (score s1)\<lparr>sc_index := (sc_index (score s1))(?low := None)\<rparr>" by simp
  have 3: "score s3 = (score s2)\<lparr>sc_players := tell_player g (\<lambda>_. 0) 0 (sc_players (score s2))\<rparr>"
    by (auto simp: tell_player_def s3_def FindPlayer_def FindPlayerNotInWorld_def upd_gplayer_def run_hook_def score_def player_core_def
        SetRank_def SetInGuild_def fun_eq_iff split: option.split bool.split)
  have "score (upd_db (\<lambda>db. db\<lparr>t_member := delete_where (\<lambda>r. mb_guid r = ?low) (t_member db)\<rparr>) s3) =
      (score s3)\<lparr>sc_rows := filter (\<lambda>(k, _). k \<noteq> ?low) (sc_rows (score s3))\<rparr>"
    by (simp add: upd_db_def score_def delete_where_def filter_map comp_def row_core_def)
  moreover have "score (forget_member g b s) =
      score (upd_db (\<lambda>db. db\<lparr>t_member := delete_where (\<lambda>r. mb_guid r = ?low) (t_member db)\<rparr>) s3)"
    unfolding forget_member_def Let_def s3_def s2_def s1_def by simp
  moreover have "sc_players (score s2) = sc_players (score s)" by (simp add: 1 2)
  note 3 [unfolded this]
  ultimately show ?thesis by (simp add: erase_core_def 1 2)
qed


text \<open>What the environment promises: a hash map keeps its entries, and scripts leave only the founder at rank 0.\<close>

definition env_ok :: "genv \<Rightarrow> bool" where
  "env_ok e = ((\<forall>ks. mset (ge_order e ks) = mset ks) \<and> (\<forall>r. ge_onAddMember e r = 0 \<longleftrightarrow> r = 0))"

lemma env_order: "env_ok e \<Longrightarrow> mset (ge_order e ks) = mset ks"
  by (simp add: env_ok_def)

definition given_rank :: "genv \<Rightarrow> bool \<Rightarrow> u32 \<Rightarrow> u32" where
  "given_rank e online r = (if online then ucast (ge_onAddMember e (ucast r)) else r)"

definition add_core :: "guid \<Rightarrow> u32 \<Rightarrow> score \<Rightarrow> score" where
  "add_core g r c = (let low = GetCounter g; gid = gc_id (sc_this c) in c\<lparr>
     sc_this := set_mem low (Some (g, r)) (sc_this c), sc_index := (sc_index c)(low \<mapsto> gid),
     sc_players := (case sc_players c g of
                      Some (_, w, _) \<Rightarrow> if IsEmpty g then sc_players c else (sc_players c)(g \<mapsto> (gid, w, r))
                    | None \<Rightarrow> sc_players c),
     sc_rows := insert_row fst (low, gid, r) (sc_rows c)\<rparr>)"

lemma insert_row_core:
  "map row_core (insert_row mb_guid r rows) = insert_row fst (row_core r) (map row_core rows)"
  by (auto simp: insert_row_def row_core_def comp_def)

lemma new_member_guid: "new_member e g s = Inr m \<Longrightarrow> ms_guid m = g"
  by (auto simp: new_member_def Let_def split: option.splits if_splits)

lemma AddMember_joins:
  assumes "env_ok e" and new: "\<not> already_in_guild g s" "new_member e g (withdraw_signature g s) = Inr m"
  shows "\<exists>s'. AddMember e g r s = (OK, s') \<and>
     score s' = add_core g (given_rank e (FindPlayerNotInWorld g s \<noteq> None) r) (score s)"
proof -
  let ?s1 = "withdraw_signature g s"
  let ?low = "GetCounter g" and ?on = "FindPlayerNotInWorld g s \<noteq> None"
  let ?r = "given_rank e ?on r"
  define s2 where "s2 = (if ?on then run_hook (OnAddMember (g_Id (s_this ?s1)) g (ge_onAddMember e (ucast r))) ?s1 else ?s1)"
  define m' where "m' = m\<lparr>ms_RankId := ?r, ms_LogoutTime := now e\<rparr>"
  define s3 where "s3 = upd_this (\<lambda>gd. gd\<lparr>g_members := um_put (ge_order e) ?low m' (g_members gd)\<rparr>) s2"
  define s4 where "s4 = GuildMemberAdded (g_Id (s_this s3)) ?low s3"
  define s5 where "s5 = upd_db (\<lambda>db. db\<lparr>t_member := insert_row mb_guid \<lparr>mb_guildid = g_Id (s_this s4), mb_guid = ?low,
     mb_rank = ?r, mb_pnote = [], mb_offnote = []\<rparr> (t_member db)\<rparr>) s4"
  define s6 where "s6 = (if ?on then AddToCache e ?low
     (upd_gplayer g (SetGuildIdInvited 0 \<circ> SetRank ?r \<circ> SetInGuild (g_Id (s_this s5))) s5) else s5)"
  have am: "AddMember e g r s = (OK, UpdateAccountsNumber s6)"
    unfolding AddMember_def Let_def s6_def s5_def s4_def s3_def m'_def s2_def given_rank_def using new by simp
  have 2: "score s2 = score s" by (simp add: s2_def)
  have mg: "ms_guid m' = g" "ms_RankId m' = ?r" using new_member_guid [OF new(2)] by (simp_all add: m'_def)
  have 3: "score s3 = (score s2)\<lparr>sc_this := set_mem ?low (Some (g, ?r)) (sc_this (score s2))\<rparr>"
    using mg by (auto simp: s3_def upd_this_def core_simps set_mem_def fun_eq_iff um_find_put [OF env_order [OF assms(1)]])
  have 4: "score s4 = (score s3)\<lparr>sc_index := (sc_index (score s3))(?low \<mapsto> gc_id (sc_this (score s3)))\<rparr>"
    by (simp add: s4_def GuildMemberAdded_def core_simps)
  have 5: "score s5 = (score s4)\<lparr>sc_rows := insert_row fst (?low, gc_id (sc_this (score s4)), ?r) (sc_rows (score s4))\<rparr>"
    by (simp add: s5_def upd_db_def score_def insert_row_core) (simp add: row_core_def gcore_of_def)
  have on: "?on \<longleftrightarrow> sc_players (score s5) g \<noteq> None \<and> \<not> IsEmpty g"
    using 2 3 4 5 by (auto simp: FindPlayerNotInWorld_def score_def)
  have 6: "score s6 = (score s5)\<lparr>sc_players := (case sc_players (score s5) g of
       Some (_, w, _) \<Rightarrow> if IsEmpty g then sc_players (score s5) else (sc_players (score s5))(g \<mapsto> (gc_id (sc_this (score s5)), w, ?r))
     | None \<Rightarrow> sc_players (score s5))\<rparr>"
    using on by (auto simp: s6_def upd_gplayer_def score_def player_core_def gcore_of_def SetRank_def SetInGuild_def
        SetGuildIdInvited_def AddToCache_def upd_this_def fun_eq_iff split: option.split)
  have p: "sc_players (score s5) = sc_players (score s)" "gc_id (sc_this (score s5)) = gc_id (sc_this (score s))"
    by (simp_all add: 5 4 3 2 set_mem_def)
  have "score (UpdateAccountsNumber s6) = add_core g ?r (score s)"
    unfolding score_UpdateAccountsNumber add_core_def Let_def 6 p unfolding 5 4 3 2 by (simp add: set_mem_def)
  then show ?thesis using am by blast
qed

lemma AddMember_cases:
  assumes "env_ok e" and "AddMember e g r s = (status, s')"
  shows "status \<noteq> OK \<Longrightarrow> score s' = score s"
    and "status = OK \<Longrightarrow> \<not> already_in_guild g s \<and>
           score s' = add_core g (given_rank e (FindPlayerNotInWorld g s \<noteq> None) r) (score s)"
proof -
  have err: "status \<noteq> OK" "score s' = score s" if "already_in_guild g s" using assms(2) that by (auto simp: AddMember_def)
  have inl: "x \<noteq> OK" if "new_member e g (withdraw_signature g s) = Inl x" for x
    using that by (auto simp: new_member_def Let_def split: option.splits if_splits)
  have err2: "status \<noteq> OK" "score s' = score s"
    if "\<not> already_in_guild g s" "new_member e g (withdraw_signature g s) = Inl x" for x
    using assms(2) that inl [OF that(2)] by (auto simp: AddMember_def Let_def)
  have ok: "status = OK" "score s' = add_core g (given_rank e (FindPlayerNotInWorld g s \<noteq> None) r) (score s)"
    if "\<not> already_in_guild g s" "new_member e g (withdraw_signature g s) = Inr m" for m
    using AddMember_joins [OF assms(1) that, of r] assms(2) by auto
  show "status \<noteq> OK \<Longrightarrow> score s' = score s" using err err2 ok by (cases "new_member e g (withdraw_signature g s)") blast+
  show "status = OK \<Longrightarrow> \<not> already_in_guild g s \<and>
           score s' = add_core g (given_rank e (FindPlayerNotInWorld g s \<noteq> None) r) (score s)"
    using err err2 ok by (cases "new_member e g (withdraw_signature g s)") blast+
qed

end
