(* ===== verification/Guild_Keep.thy ===== *)
theory Guild_Keep
  imports Guild_Inv
begin

text \<open>
  The invariant of the guilds and the operations of \<^verbatim>\<open>Guild.cpp\<close> that keep it. \<open>closed\<close> is the invariant
  between two handlers. Inside a handler the object worked on is \<open>s_this\<close>, and \<open>opened\<close> states the same with
  this object in place of the one in the map.
\<close>

section \<open>The invariant\<close>

text \<open>The members of a guild with their ranks, and of all the guilds.\<close>

definition ranks_in :: "gcore \<Rightarrow> u32 \<Rightarrow> u32 option" where
  "ranks_in g k = map_option snd (gc_mem g k)"

definition ranks_of :: "(u32 \<Rightarrow> gcore option) \<Rightarrow> u32 \<Rightarrow> u32 \<Rightarrow> u32 option" where
  "ranks_of G gid k = Option.bind (G gid) (\<lambda>g. ranks_in g k)"

text \<open>
  The index of the manager, the table of members and the connected players agree with the members. The
  rank of a player is a small number; it may be out of date, but not so that its successor is 0.
\<close>

definition small :: "u32 \<Rightarrow> bool" where
  "small r \<longleftrightarrow> unat r \<le> 255"

definition player_fine :: "guid \<Rightarrow> u32 \<times> bool \<times> u32 \<Rightarrow> bool" where
  "player_fine p = (\<lambda>(_, _, r). \<not> IsEmpty p \<and> p = player_guid (GetCounter p) \<and> small r)"

definition linked :: "(u32 \<Rightarrow> u32 \<Rightarrow> u32 option) \<Rightarrow> score \<Rightarrow> bool" where
  "linked L c \<longleftrightarrow>
     (\<forall>k gid. sc_index c k = Some gid \<longleftrightarrow> L gid k \<noteq> None) \<and>
     distinct (map fst (sc_rows c)) \<and>
     (\<forall>k gid r. map_of (sc_rows c) k = Some (gid, r) \<longleftrightarrow> L gid k = Some r) \<and>
     (\<forall>k gid x. L gid k \<noteq> None \<longrightarrow> sc_players c (player_guid k) = Some x \<longrightarrow> fst x = gid) \<and>
     (\<forall>p x. sc_players c p = Some x \<longrightarrow> player_fine p x)"

text \<open>One master, who is the leader; five to ten ranks; two banks.\<close>

definition gcore_ok :: "u32 \<Rightarrow> gcore \<Rightarrow> bool" where
  "gcore_ok gid g \<longleftrightarrow>
     gc_id g = gid \<and> gid \<noteq> 0 \<and>
     (\<forall>k x r. gc_mem g k = Some (x, r) \<longrightarrow> x = player_guid k) \<and>
     gc_leader g = player_guid (GetCounter (gc_leader g)) \<and>
     (\<forall>k r. ranks_in g k = Some r \<longrightarrow> small r) \<and>
     (\<forall>k. ranks_in g k = Some GR_GUILDMASTER \<longleftrightarrow> k = GetCounter (gc_leader g)) \<and>
     GUILD_RANKS_MIN_COUNT \<le> gc_ranks g \<and> gc_ranks g \<le> GUILD_RANKS_MAX_COUNT \<and> gc_banks g"

definition closed :: "score \<Rightarrow> bool" where
  "closed c \<longleftrightarrow> linked (ranks_of (sc_guilds c)) c \<and> (\<forall>gid g. sc_guilds c gid = Some g \<longrightarrow> gcore_ok gid g \<and> gid < sc_next c) \<and>
     sc_next c \<noteq> 0"

definition seen :: "score \<Rightarrow> u32 \<Rightarrow> u32 \<Rightarrow> u32 option" where
  "seen c = (ranks_of (sc_guilds c))(gc_id (sc_this c) := ranks_in (sc_this c))"

text \<open>The other guilds are in order, and the members of all agree with index, table and players.\<close>

definition others_ok :: "score \<Rightarrow> bool" where
  "others_ok c \<longleftrightarrow> linked (seen c) c \<and> gc_id (sc_this c) \<noteq> 0 \<and> gc_id (sc_this c) < sc_next c \<and>
     (\<forall>gid g. sc_guilds c gid = Some g \<longrightarrow> gid \<noteq> gc_id (sc_this c) \<longrightarrow> gcore_ok gid g \<and> gid < sc_next c)"

definition opened :: "u32 \<Rightarrow> score \<Rightarrow> bool" where
  "opened gid c \<longleftrightarrow> others_ok c \<and> gcore_ok gid (sc_this c) \<and> sc_guilds c gid \<noteq> None"

text \<open>What a handler leaves of the guild it worked on: the guild, or nothing after \<^verbatim>\<open>Disband\<close>.\<close>

definition fit :: "u32 \<Rightarrow> score \<Rightarrow> bool" where
  "fit gid c \<longleftrightarrow> opened gid c \<or> closed c \<and> sc_guilds c gid = None"

definition guilds_ok :: "gs \<Rightarrow> bool" where
  "guilds_ok s \<longleftrightarrow> closed (score s)"

lemma gcore_ok_master: "gcore_ok gid g \<Longrightarrow> ranks_in g k = Some GR_GUILDMASTER \<longleftrightarrow> k = GetCounter (gc_leader g)"
  unfolding gcore_ok_def by blast

lemma linked_cong:
  "sc_index c' = sc_index c \<Longrightarrow> sc_rows c' = sc_rows c \<Longrightarrow> sc_players c' = sc_players c \<Longrightarrow> linked L c \<Longrightarrow> linked L c'"
  unfolding linked_def by simp

lemma opened_id: "opened gid c \<Longrightarrow> gc_id (sc_this c) = gid"
  by (simp add: opened_def gcore_ok_def)

lemma opened_core: "opened gid c \<Longrightarrow> gcore_ok gid (sc_this c)"
  by (simp add: opened_def)

lemma opened_others: "opened gid c \<Longrightarrow> others_ok c"
  by (simp add: opened_def)

section \<open>Members and the other stores\<close>

lemma linkedI:
  assumes "\<And>k gid. sc_index c k = Some gid \<longleftrightarrow> L gid k \<noteq> None" and "distinct (map fst (sc_rows c))"
    and "\<And>k gid r. map_of (sc_rows c) k = Some (gid, r) \<longleftrightarrow> L gid k = Some r"
    and "\<And>k gid x. L gid k \<noteq> None \<Longrightarrow> sc_players c (player_guid k) = Some x \<Longrightarrow> fst x = gid"
    and "\<And>p x. sc_players c p = Some x \<Longrightarrow> player_fine p x"
  shows "linked L c"
  using assms unfolding linked_def by blast

lemma linkedD:
  assumes "linked L c"
  shows "sc_index c k = Some gid \<longleftrightarrow> L gid k \<noteq> None" "distinct (map fst (sc_rows c))"
    "map_of (sc_rows c) k = Some (gid, r) \<longleftrightarrow> L gid k = Some r"
    "L gid k \<noteq> None \<Longrightarrow> sc_players c (player_guid k) = Some x \<Longrightarrow> fst x = gid"
    "sc_players c p = Some x \<Longrightarrow> player_fine p x"
  using assms unfolding linked_def by blast+

text \<open>A player is in one guild.\<close>

lemma linked_unique: "linked L c \<Longrightarrow> L gid k \<noteq> None \<Longrightarrow> L gid' k \<noteq> None \<Longrightarrow> gid = gid'"
  by (metis linkedD(1) option.inject)

definition set_rank_row :: "u32 \<Rightarrow> u32 \<Rightarrow> (u32 \<times> u32 \<times> u32) list \<Rightarrow> (u32 \<times> u32 \<times> u32) list" where
  "set_rank_row k r rows = map (\<lambda>(k', gid, r'). (k', gid, if k' = k then r else r')) rows"

lemma map_of_set_rank_row:
  "map_of (set_rank_row k r rows) k' =
     (if k' = k then map_option (\<lambda>(gid, _). (gid, r)) (map_of rows k) else map_of rows k')"
  unfolding set_rank_row_def by (induction rows) auto

lemma keys_set_rank_row [simp]: "map fst (set_rank_row k r rows) = map fst rows"
  unfolding set_rank_row_def by (induction rows) auto

lemma tell_player_id: "tell_player g id r P p = Some x \<Longrightarrow> map_option fst (P p) = Some (fst x)"
  by (cases x) (auto simp: tell_player_def split: option.splits bool.splits if_splits)

lemma tell_player_fine:
  assumes "\<And>p x. P p = Some x \<Longrightarrow> player_fine p x" and "small r" and "tell_player g f r P p = Some x"
  shows "player_fine p x"
proof (cases "P p = Some x")
  case False
  obtain gid w r' where x: "x = (gid, w, r')" by (cases x)
  have "P p \<noteq> None" "r' = r"
    using assms(3) False x by (auto simp: tell_player_def split: option.splits bool.splits if_splits)
  then show ?thesis using assms(1) [of p] assms(2) by (auto simp: player_fine_def x)
qed (rule assms(1))

text \<open>The core of the state after the change of a rank.\<close>

definition rank_core :: "u32 \<Rightarrow> u32 \<Rightarrow> score \<Rightarrow> score" where
  "rank_core k r c = c\<lparr>sc_this := set_mem k (Some (player_guid k, r)) (sc_this c),
     sc_players := tell_player (player_guid k) id r (sc_players c), sc_rows := set_rank_row k r (sc_rows c)\<rparr>"

lemma linked_rank:
  assumes l: "linked L c" and m: "L gid k \<noteq> None" and r: "small r"
  shows "linked (L(gid := (L gid)(k \<mapsto> r))) (rank_core k r c)"
proof (rule linkedI)
  note one = linked_unique [OF l m]
  show "sc_index (rank_core k r c) k' = Some gid' \<longleftrightarrow> (L(gid := (L gid)(k \<mapsto> r))) gid' k' \<noteq> None"
    for k' gid' using linkedD(1) [OF l, of k' gid'] m by (auto simp: rank_core_def)
  obtain r0 where r0: "map_of (sc_rows c) k = Some (gid, r0)" using linkedD(3) [OF l] m by blast
  show "map_of (sc_rows (rank_core k r c)) k' = Some (gid', r') \<longleftrightarrow>
     (L(gid := (L gid)(k \<mapsto> r))) gid' k' = Some r'" for k' gid' r'
  proof (cases "k' = k")
    case True
    moreover have "L gid' k \<noteq> Some r'" if "gid' \<noteq> gid" using one [of gid'] that by auto
    ultimately show ?thesis by (auto simp: map_of_set_rank_row r0 rank_core_def)
  next
    case False
    then show ?thesis using linkedD(3) [OF l, of k' gid' r'] by (simp add: map_of_set_rank_row rank_core_def)
  qed
  show "fst x = gid'" if "(L(gid := (L gid)(k \<mapsto> r))) gid' k' \<noteq> None"
    "sc_players (rank_core k r c) (player_guid k') = Some x" for k' gid' x
  proof -
    have "L gid' k' \<noteq> None" using that(1) m by (auto split: if_splits)
    moreover obtain y where "sc_players c (player_guid k') = Some y" "fst y = fst x"
      using tell_player_id [of "player_guid k" r "sc_players c" "player_guid k'" x] \<open>sc_players _ _ = _\<close>
      by (auto simp: rank_core_def)
    ultimately show ?thesis using linkedD(4) [OF l] by metis
  qed
  show "player_fine p x" if "sc_players (rank_core k r c) p = Some x" for p x
    using tell_player_fine [OF linkedD(5) [OF l] r] that by (simp add: rank_core_def)
qed (use linkedD(2) [OF l] in \<open>simp add: rank_core_def\<close>)

lemma map_of_filter_key: "map_of (filter (\<lambda>(k', _). k' \<noteq> k) rows) k' = (if k' = k then None else map_of rows k')"
  by (induction rows) auto

lemma distinct_filter_key: "distinct (map fst rows) \<Longrightarrow> distinct (map fst (filter P rows))"
  by (induction rows) auto

lemma linked_erase:
  assumes l: "linked L c" and only: "\<And>gid'. gid' \<noteq> gid \<Longrightarrow> L gid' k = None"
    and p: "\<And>p. p \<noteq> player_guid k \<Longrightarrow> sc_players c' p = sc_players c p" "\<And>p x. sc_players c' p = Some x \<Longrightarrow> player_fine p x"
    and i: "sc_index c' = (sc_index c)(k := None)" and r: "sc_rows c' = filter (\<lambda>(k', _). k' \<noteq> k) (sc_rows c)"
  shows "linked (L(gid := (L gid)(k := None))) c'"
proof (rule linkedI)
  show "sc_index c' k' = Some gid' \<longleftrightarrow> (L(gid := (L gid)(k := None))) gid' k' \<noteq> None" for k' gid'
    using linkedD(1) [OF l, of k' gid'] only by (auto simp: i)
  show "distinct (map fst (sc_rows c'))" unfolding r by (rule distinct_filter_key [OF linkedD(2) [OF l]])
  show "map_of (sc_rows c') k' = Some (gid', r') \<longleftrightarrow> (L(gid := (L gid)(k := None))) gid' k' = Some r'" for k' gid' r'
    using linkedD(3) [OF l, of k' gid' r'] only [of gid'] by (auto simp: r map_of_filter_key)
  show "fst x = gid'" if "(L(gid := (L gid)(k := None))) gid' k' \<noteq> None" "sc_players c' (player_guid k') = Some x" for k' gid' x
  proof -
    have "k' \<noteq> k" and "L gid' k' \<noteq> None" using that(1) only by (auto split: if_splits)
    then have "player_guid k' \<noteq> player_guid k" by (metis GetCounter_player_guid)
    then show ?thesis using that(2) linkedD(4) [OF l \<open>L gid' k' \<noteq> None\<close>] p(1) by simp
  qed
qed (use p(2) in blast)

lemma linked_add:
  assumes l: "linked L c" and new: "\<And>gid'. L gid' k = None" and gid: "\<And>x. sc_players c' (player_guid k) = Some x \<Longrightarrow> fst x = gid"
    and p: "\<And>p. p \<noteq> player_guid k \<Longrightarrow> sc_players c' p = sc_players c p" "\<And>p x. sc_players c' p = Some x \<Longrightarrow> player_fine p x"
    and i: "sc_index c' = (sc_index c)(k \<mapsto> gid)" and r: "sc_rows c' = insert_row fst (k, gid, r) (sc_rows c)"
  shows "linked (L(gid := (L gid)(k \<mapsto> r))) c'"
proof (rule linkedI)
  have no: "map_of (sc_rows c) k = None"
    using linkedD(3) [OF l, of k] new by (metis not_None_eq prod.exhaust)
  then have r': "sc_rows c' = sc_rows c @ [(k, gid, r)]"
    by (auto simp: r insert_row_def map_of_eq_None_iff)
  show "sc_index c' k' = Some gid' \<longleftrightarrow> (L(gid := (L gid)(k \<mapsto> r))) gid' k' \<noteq> None" for k' gid'
    using linkedD(1) [OF l, of k' gid'] new by (auto simp: i)
  show "distinct (map fst (sc_rows c'))"
    using linkedD(2) [OF l] no by (auto simp: r' map_of_eq_None_iff)
  show "map_of (sc_rows c') k' = Some (gid', r2) \<longleftrightarrow> (L(gid := (L gid)(k \<mapsto> r))) gid' k' = Some r2" for k' gid' r2
    using linkedD(3) [OF l, of k' gid' r2] new no by (auto simp: r' map_add_def split: option.splits)
  show "fst x = gid'" if "(L(gid := (L gid)(k \<mapsto> r))) gid' k' \<noteq> None" "sc_players c' (player_guid k') = Some x" for k' gid' x
  proof (cases "k' = k")
    case False
    then have "L gid' k' \<noteq> None" using that(1) by (auto split: if_splits)
    moreover have "player_guid k' \<noteq> player_guid k" using False by (metis GetCounter_player_guid)
    ultimately show ?thesis using that(2) linkedD(4) [OF l] p(1) by simp
  qed (use that gid new in \<open>auto split: if_splits\<close>)
qed (use p(2) in blast)

section \<open>Ranks\<close>

lemma ranks_in_set_mem [simp]: "ranks_in (set_mem k x g) = (ranks_in g)(k := map_option snd x)"
  by (auto simp: ranks_in_def set_mem_def)

lemma set_mem_simps [simp]:
  "gc_id (set_mem k x g) = gc_id g" "gc_leader (set_mem k x g) = gc_leader g" "gc_ranks (set_mem k x g) = gc_ranks g"
  "gc_banks (set_mem k x g) = gc_banks g" "gc_mem (set_mem k x g) = (gc_mem g)(k := x)"
  by (simp_all add: set_mem_def)

text \<open>A state with another guild object of the same id.\<close>

lemma others_ok_step:
  assumes "others_ok c" and "gc_id (sc_this c') = gc_id (sc_this c)" "sc_guilds c' = sc_guilds c" "sc_next c' = sc_next c"
    and "linked ((seen c)(gc_id (sc_this c) := ranks_in (sc_this c'))) c'"
  shows "others_ok c'"
  using assms by (simp add: others_ok_def seen_def)

lemma seen_this: "seen c (gc_id (sc_this c)) = ranks_in (sc_this c)"
  by (simp add: seen_def)

lemma ranks_in_score: "ranks_in (sc_this (score s)) k = map_option ms_RankId (get_slot k s)"
  by (simp add: ranks_in_def get_slot_core option.map_comp comp_def)

lemma opened_guid: "opened gid (score s) \<Longrightarrow> get_slot k s = Some m \<Longrightarrow> ms_guid m = player_guid k"
  by (auto simp: opened_def gcore_ok_def get_slot_core)

lemma opened_master:
  assumes "opened gid (score s)" and "get_slot k s = Some m"
  shows "ms_RankId m = GR_GUILDMASTER \<longleftrightarrow> k = GetCounter (g_LeaderGuid (s_this s))"
    "ms_guid m = g_LeaderGuid (s_this s) \<longleftrightarrow> k = GetCounter (g_LeaderGuid (s_this s))"
proof -
  have l: "gc_leader (sc_this (score s)) = g_LeaderGuid (s_this s)" by (simp add: core_simps)
  have "ranks_in (sc_this (score s)) k = Some (ms_RankId m)" using assms(2) by (simp add: ranks_in_score)
  then show "ms_RankId m = GR_GUILDMASTER \<longleftrightarrow> k = GetCounter (g_LeaderGuid (s_this s))"
    using assms(1) gcore_ok_master [of gid "sc_this (score s)" k] l by (simp add: opened_def)
  have "g_LeaderGuid (s_this s) = player_guid (GetCounter (g_LeaderGuid (s_this s)))"
    using assms(1) l by (simp add: opened_def gcore_ok_def)
  then show "ms_guid m = g_LeaderGuid (s_this s) \<longleftrightarrow> k = GetCounter (g_LeaderGuid (s_this s))"
    using opened_guid [OF assms] by (metis GetCounter_player_guid)
qed

lemma score_ChangeRank':
  assumes "get_slot k s = Some m" and "ms_guid m = player_guid k"
  shows "score (ChangeRank k r s) = rank_core k r (score s)"
  using score_ChangeRank [OF assms(1), of r] assms(2) by (simp add: set_rank_row_def rank_core_def)

lemma rank_core_simps [simp]:
  "sc_this (rank_core k r c) = set_mem k (Some (player_guid k, r)) (sc_this c)" "sc_guilds (rank_core k r c) = sc_guilds c"
  "sc_next (rank_core k r c) = sc_next c"
  by (simp_all add: rank_core_def)

lemma others_ok_rank:
  assumes "others_ok c" and "gc_mem (sc_this c) k \<noteq> None" and "small r"
  shows "others_ok (rank_core k r c)"
proof (rule others_ok_step [OF assms(1)])
  let ?id = "gc_id (sc_this c)"
  have "seen c ?id k \<noteq> None" using assms(2) by (simp add: seen_this ranks_in_def)
  then have "linked ((seen c)(?id := (seen c ?id)(k \<mapsto> r))) (rank_core k r c)"
    using assms(1,3) by (intro linked_rank) (auto simp: others_ok_def)
  then show "linked ((seen c)(?id := ranks_in (sc_this (rank_core k r c)))) (rank_core k r c)"
    by (simp add: seen_this)
qed simp_all

lemma opened_ChangeRank:
  assumes "opened gid (score s)" and "get_slot k s = Some m" and "k \<noteq> GetCounter (g_LeaderGuid (s_this s))" and "r \<noteq> GR_GUILDMASTER" and "small r"
  shows "opened gid (score (ChangeRank k r s))"
proof -
  have l: "gc_leader (sc_this (score s)) = g_LeaderGuid (s_this s)" by (simp add: core_simps)
  have "gc_mem (sc_this (score s)) k \<noteq> None" using assms(2) by (simp add: get_slot_core)
  then have "others_ok (score (ChangeRank k r s))"
    using others_ok_rank [OF opened_others [OF assms(1)] _ assms(5)]
    by (simp add: score_ChangeRank' [OF assms(2) opened_guid [OF assms(1,2)]])
  moreover have "gcore_ok gid (sc_this (score (ChangeRank k r s)))"
    using assms(1,3-5) l unfolding opened_def gcore_ok_def
    by (auto simp: score_ChangeRank' [OF assms(2) opened_guid [OF assms(1,2)]])
  ultimately show ?thesis
    using assms(1) by (simp add: opened_def score_ChangeRank' [OF assms(2) opened_guid [OF assms(1,2)]])
qed

lemma others_ok_leader:
  assumes "others_ok c"
  shows "others_ok (c\<lparr>sc_this := (sc_this c)\<lparr>gc_leader := x\<rparr>\<rparr>)"
proof -
  have "seen (c\<lparr>sc_this := (sc_this c)\<lparr>gc_leader := x\<rparr>\<rparr>) = seen c" by (simp add: seen_def ranks_in_def fun_eq_iff)
  then show ?thesis using assms linked_cong [of "c\<lparr>sc_this := (sc_this c)\<lparr>gc_leader := x\<rparr>\<rparr>" c] by (simp add: others_ok_def)
qed

text \<open>The leadership passes to \<open>k\<close>.\<close>

lemma opened_SetNewLeader:
  assumes "opened gid (score s)" and "get_slot k s = Some m" and "get_slot old s = Some mo"
    and "old = GetCounter (g_LeaderGuid (s_this s))" and "k \<noteq> old"
  shows "opened gid (score (SetNewLeader k (Some old) s))"
    and "g_LeaderGuid (s_this (SetNewLeader k (Some old) s)) = player_guid k"
proof -
  let ?c = "score s" and ?rows = "sc_rows (score s)"
  have g: "ms_guid m = player_guid k" "ms_guid mo = player_guid old" using opened_guid assms(1-3) by blast+
  let ?c1 = "rank_core k GR_GUILDMASTER ?c"
  let ?c2 = "rank_core old GR_OFFICER ?c1"
  have sc: "score (SetNewLeader k (Some old) s) = ?c2\<lparr>sc_this := (sc_this ?c2)\<lparr>gc_leader := player_guid k\<rparr>\<rparr>"
    using score_SetNewLeader [OF assms(2,3)] assms(5) g by (simp add: rank_core_def set_rank_row_def case_prod_unfold comp_def)
  have mem: "gc_mem (sc_this ?c) k \<noteq> None" "gc_mem (sc_this ?c) old \<noteq> None" using assms(2,3) by (simp_all add: get_slot_core)
  have small: "small GR_GUILDMASTER" "small GR_OFFICER" by (simp_all add: small_def)
  have "others_ok ?c1" by (rule others_ok_rank [OF opened_others [OF assms(1)] mem(1) small(1)])
  moreover have "gc_mem (sc_this ?c1) old \<noteq> None" using mem(2) by simp
  ultimately have 2: "others_ok ?c2" using small(2) by (rule others_ok_rank)
  have "others_ok (score (SetNewLeader k (Some old) s))"
    using 2 unfolding sc by (rule others_ok_leader)
  moreover have "gcore_ok gid (sc_this (score (SetNewLeader k (Some old) s)))"
    using assms(1,4,5) small unfolding opened_def gcore_ok_def sc by (auto simp: core_simps ranks_in_def)
  ultimately show "opened gid (score (SetNewLeader k (Some old) s))"
    using assms(1) by (simp add: opened_def) (simp add: sc)
  have "g_LeaderGuid (s_this (SetNewLeader k (Some old) s)) = gc_leader (sc_this (score (SetNewLeader k (Some old) s)))"
    by (simp add: core_simps)
  then show "g_LeaderGuid (s_this (SetNewLeader k (Some old) s)) = player_guid k" by (simp add: sc)
qed

section \<open>Leaving and disbanding\<close>

definition only_here :: "u32 \<Rightarrow> score \<Rightarrow> bool" where
  "only_here k c \<longleftrightarrow> (\<forall>gid. gid \<noteq> gc_id (sc_this c) \<longrightarrow> seen c gid k = None)"

lemma only_here_member:
  assumes "others_ok (score s)" and "get_slot k s \<noteq> None"
  shows "only_here k (score s)"
proof -
  have "seen (score s) (gc_id (sc_this (score s))) k \<noteq> None"
    using assms(2) by (simp add: seen_this ranks_in_score)
  then show ?thesis
    using assms(1) linked_unique [of "seen (score s)" "score s"] unfolding only_here_def others_ok_def by blast
qed

lemma others_ok_erase:
  assumes "others_ok c" and "g = player_guid (GetCounter g)" and "only_here (GetCounter g) c"
  shows "others_ok (erase_core g c)"
proof (rule others_ok_step [OF assms(1)])
  let ?id = "gc_id (sc_this c)" and ?k = "GetCounter g" and ?c = "erase_core g c"
  have "linked ((seen c)(?id := (seen c ?id)(?k := None))) ?c"
  proof (rule linked_erase)
    show "linked (seen c) c" using assms(1) by (simp add: others_ok_def)
    show "seen c gid' ?k = None" if "gid' \<noteq> ?id" for gid' using assms(3) that by (simp add: only_here_def)
    show "sc_players ?c p = sc_players c p" if "p \<noteq> player_guid ?k" for p
      using that assms(2) by (simp add: erase_core_def)
    show "player_fine p x" if "sc_players ?c p = Some x" for p x
    proof (rule tell_player_fine)
      show "sc_players c p = Some x \<Longrightarrow> player_fine p x" for p x
        using assms(1) linkedD(5) unfolding others_ok_def by blast
      show "small 0" by (simp add: small_def)
      show "tell_player g (\<lambda>_. 0) 0 (sc_players c) p = Some x" using that by (simp add: erase_core_def)
    qed
  qed (simp_all add: erase_core_def)
  moreover have "ranks_in (sc_this ?c) = (seen c ?id)(?k := None)"
    by (simp add: erase_core_def seen_this)
  ultimately show "linked ((seen c)(?id := ranks_in (sc_this ?c))) ?c" by simp
qed (simp_all add: erase_core_def)

lemma erase_core_simps [simp]:
  "sc_this (erase_core g c) = set_mem (GetCounter g) None (sc_this c)" "sc_guilds (erase_core g c) = sc_guilds c"
  "sc_next (erase_core g c) = sc_next c"
  by (simp_all add: erase_core_def)

lemma DelMember_disbanding: "snd (DelMember g True s) = forget_member g True s"
  by (simp add: DelMember_def Let_def)

lemma disband_loop_keeps:
  "others_ok (score s) \<Longrightarrow> others_ok (score (disband_loop s)) \<and> g_members (s_this (disband_loop s)) = [] \<and>
     gc_id (sc_this (score (disband_loop s))) = gc_id (sc_this (score s)) \<and> sc_guilds (score (disband_loop s)) = sc_guilds (score s)"
proof (induction s rule: disband_loop.induct)
  case (1 s)
  show ?case
  proof (cases "g_members (s_this s)")
    case Nil
    then show ?thesis using 1 by (simp add: disband_loop.simps)
  next
    case (Cons km ms)
    obtain k m where km: "km = (k, m)" by fastforce
    let ?s = "forget_member (player_guid k) True s"
    have "get_slot k s \<noteq> None" using Cons km by (simp add: get_slot_def um_find_def)
    then have "others_ok (score ?s)"
      unfolding score_forget_member using 1(2) only_here_member by (intro others_ok_erase) simp_all
    moreover have "disband_loop s = disband_loop ?s"
      by (subst disband_loop.simps) (simp add: Cons km DelMember_disbanding)
    ultimately show ?thesis
      using 1(1) [OF Cons km [symmetric]] by (simp add: DelMember_disbanding score_forget_member)
  qed
qed

lemma score_drop_bank [simp]: "score (drop_bank b s) = score s"
  by (simp add: drop_bank_def on_bank_def Let_def score_upd_db split: option.split)

lemma closed_Disband:
  assumes "others_ok (score s)" and "gc_id (sc_this (score s)) = gid"
  shows "closed (score (Disband s)) \<and> sc_guilds (score (Disband s)) gid = None"
proof -
  define s3 where "s3 = disband_loop (BroadcastEvent GE_DISBANDED 0 [] (run_hook (OnDisband (g_Id (s_this s))) s))"
  define s6 where "s6 = drop_bank (g_InfernoBank (s_this (drop_bank (g_Bank (s_this (upd_db (delete_guild_rows (g_Id (s_this s3))) s3)))
       (upd_db (delete_guild_rows (g_Id (s_this s3))) s3)))) (drop_bank (g_Bank (s_this (upd_db (delete_guild_rows (g_Id (s_this s3))) s3)))
       (upd_db (delete_guild_rows (g_Id (s_this s3))) s3))"
  have d: "Disband s = RemoveGuild (g_Id (s_this s6)) s6"
    by (simp add: Disband_def Let_def s6_def s3_def)
  have 3: "others_ok (score s3)" "g_members (s_this s3) = []" "gc_id (sc_this (score s3)) = gid"
    using disband_loop_keeps [of "BroadcastEvent GE_DISBANDED 0 [] (run_hook (OnDisband (g_Id (s_this s))) s)"] assms
    by (simp_all add: s3_def)
  have 6: "score s6 = score s3"
    by (simp add: s6_def score_upd_db delete_guild_rows_def)
  have "g_Id (s_this s6) = gc_id (sc_this (score s6))" by (simp add: core_simps)
  then have "g_Id (s_this s6) = gid" by (simp only: 6 3(3))
  then have "score (Disband s) = (score s6)\<lparr>sc_guilds := (sc_guilds (score s6))(gid := None)\<rparr>"
    by (auto simp: d RemoveGuild_def score_def fun_eq_iff)
  then have sc: "score (Disband s) = (score s3)\<lparr>sc_guilds := (sc_guilds (score s3))(gid := None)\<rparr>"
    by (simp only: 6)
  have "ranks_in (sc_this (score s3)) = (\<lambda>_. None)"
    using 3(2) by (auto simp: ranks_in_score get_slot_def um_find_def fun_eq_iff)
  then have "seen (score s3) = ranks_of ((sc_guilds (score s3))(gid := None))"
    using 3(3) by (auto simp: seen_def ranks_of_def fun_eq_iff)
  moreover have "linked (seen (score s3)) (score (Disband s))"
    using 3(1) linked_cong [of "score (Disband s)" "score s3"] by (simp add: others_ok_def sc)
  ultimately show ?thesis using 3 by (auto simp: closed_def sc others_ok_def split: if_splits)
qed

lemma this_send_all [simp]: "s_this (send_all gs p s) = s_this s"
  unfolding send_all_def by (induction gs arbitrary: s) (simp_all add: SendPacket_def)

lemma best_slot_other:
  "best_slot low ms best = Some (k, m) \<Longrightarrow> best = Some (k, m) \<or> (k, m) \<in> set ms \<and> k \<noteq> low"
  by (induction low ms best rule: best_slot.induct) (auto split: if_splits option.splits prod.splits)

lemma find_SomeD: "find P xs = Some x \<Longrightarrow> P x \<and> x \<in> set xs"
  by (auto simp: find_Some_iff)

lemma suitable_leader:
  assumes "GetSuitableNewLeader prefer (s_this s) = (Some k, old)"
  shows "get_slot k s \<noteq> None \<and> k \<noteq> GetCounter (g_LeaderGuid (s_this s)) \<and>
     old = old_leader_slot (GetCounter (g_LeaderGuid (s_this s))) (g_members (s_this s))"
proof -
  let ?low = "GetCounter (g_LeaderGuid (s_this s))"
  have b: "get_slot k s \<noteq> None \<and> k \<noteq> ?low" if "map_option fst (best_slot ?low (g_members (s_this s)) None) = Some k"
  proof -
    obtain m where "best_slot ?low (g_members (s_this s)) None = Some (k, m)" using \<open>map_option fst _ = Some k\<close> by auto
    then have "(k, m) \<in> set (g_members (s_this s)) \<and> k \<noteq> ?low" using best_slot_other by blast
    then show ?thesis unfolding get_slot_def um_find_mem by force
  qed
  have o: "get_slot k s \<noteq> None \<and> k \<noteq> ?low" if "oldest_officer ?low (s_this s) = Some k"
    using \<open>oldest_officer ?low (s_this s) = Some k\<close>
    by (auto simp: oldest_officer_def get_slot_def dest!: find_SomeD split: option.splits)
  show ?thesis
    using assms b o by (auto simp: GetSuitableNewLeader_def Let_def split: if_splits option.splits)
qed

lemma opened_leader:
  assumes "opened gid (score s)"
  shows "\<exists>m. get_slot (GetCounter (g_LeaderGuid (s_this s))) s = Some m \<and> ms_RankId m = GR_GUILDMASTER"
    "g_LeaderGuid (s_this s) = player_guid (GetCounter (g_LeaderGuid (s_this s)))"
proof -
  have l: "gc_leader (sc_this (score s)) = g_LeaderGuid (s_this s)" by (simp add: core_simps)
  have ok: "gcore_ok gid (sc_this (score s))" using assms by (simp add: opened_def)
  show "g_LeaderGuid (s_this s) = player_guid (GetCounter (g_LeaderGuid (s_this s)))"
    using ok l by (simp add: gcore_ok_def)
  have "ranks_in (sc_this (score s)) (GetCounter (g_LeaderGuid (s_this s))) = Some GR_GUILDMASTER"
    using gcore_ok_master [OF ok] l by simp
  then show "\<exists>m. get_slot (GetCounter (g_LeaderGuid (s_this s))) s = Some m \<and> ms_RankId m = GR_GUILDMASTER"
    by (auto simp: ranks_in_score)
qed

lemma opened_old_leader:
  "opened gid (score s) \<Longrightarrow> old_leader_slot (GetCounter (g_LeaderGuid (s_this s))) (g_members (s_this s)) =
     Some (GetCounter (g_LeaderGuid (s_this s)))"
  using opened_leader(1) [of gid s] um_find_mem [of "GetCounter (g_LeaderGuid (s_this s))" "g_members (s_this s)"]
  by (auto simp: old_leader_slot_def get_slot_def)

text \<open>A member who is not the leader leaves.\<close>

lemma opened_forget:
  assumes "opened gid (score s)" and "g = player_guid (GetCounter g)" and "only_here (GetCounter g) (score s)"
    and "g \<noteq> g_LeaderGuid (s_this s)"
  shows "opened gid (score (forget_member g b s)) \<and> g_members (s_this (forget_member g b s)) \<noteq> []"
proof -
  have l: "gc_leader (sc_this (score s)) = g_LeaderGuid (s_this s)" by (simp add: core_simps)
  have k: "GetCounter g \<noteq> GetCounter (g_LeaderGuid (s_this s))" using assms(2,4) opened_leader(2) [OF assms(1)] by metis
  have "others_ok (score (forget_member g b s))"
    unfolding score_forget_member using assms(2,3) opened_others [OF assms(1)] by (intro others_ok_erase)
  moreover have "gcore_ok gid (sc_this (score (forget_member g b s)))"
    using assms(1) k l unfolding score_forget_member opened_def gcore_ok_def by auto
  moreover obtain m where "get_slot (GetCounter (g_LeaderGuid (s_this s))) s = Some m" using opened_leader(1) [OF assms(1)] by blast
  then have "um_find (GetCounter (g_LeaderGuid (s_this s))) (g_members (s_this (forget_member g b s))) \<noteq> None"
    using k by (simp add: forget_member_members get_slot_def)
  then have "g_members (s_this (forget_member g b s)) \<noteq> []" by (auto simp: um_find_def)
  ultimately show ?thesis using assms(1) by (simp add: opened_def score_forget_member)
qed

lemma opened_DelMember:
  assumes o: "opened gid (score s)" and g: "g = player_guid (GetCounter g)" and only: "only_here (GetCounter g) (score s)"
    and d: "DelMember g False s = (b, s')"
  shows "if b then others_ok (score s') \<and> gc_id (sc_this (score s')) = gid else opened gid (score s')"
proof (cases "g_LeaderGuid (s_this s) = g")
  case False
  then show ?thesis using opened_forget [OF o g only, of False] d by (auto simp: DelMember_def Let_def)
next
  case True
  note old = opened_old_leader [OF o]
  show ?thesis
  proof (cases "GetSuitableNewLeader False (s_this s)")
    case (Pair new oldslot)
    show ?thesis
    proof (cases new)
      case None
      then have "b" "s' = s" using d True Pair by (auto simp: DelMember_def Let_def)
      then show ?thesis using o opened_id by (auto simp: opened_def)
    next
      case (Some k)
      have suit: "get_slot k s \<noteq> None" "k \<noteq> GetCounter g" "oldslot = Some (GetCounter g)"
        using suitable_leader [of False s k oldslot] Pair Some old True by auto
      then obtain m where m: "get_slot k s = Some m" by blast
      obtain mo where mo: "get_slot (GetCounter g) s = Some mo" using opened_leader(1) [OF o] True by blast
      let ?s1 = "SetNewLeader k (Some (GetCounter g)) s"
      let ?s2 = "BroadcastEvent GE_LEFT g [slot_name (GetCounter g) ?s1] ?s1"
      have o1: "opened gid (score ?s1)" "g_LeaderGuid (s_this ?s1) = player_guid k"
        using opened_SetNewLeader [OF o m mo] True suit(2) by auto
      then have o2: "opened gid (score ?s2)" by simp
      have lead: "g_LeaderGuid (s_this ?s2) = player_guid k"
        using o1(2) gcore_of_def by (simp add: BroadcastEvent_def BroadcastPacket_def this_send_all)
      have "g \<noteq> g_LeaderGuid (s_this ?s2)" using lead suit(2) GetCounter_player_guid by metis
      moreover have "get_slot (GetCounter g) ?s1 \<noteq> None"
      proof -
        have "gc_mem (sc_this (score ?s1)) (GetCounter g) \<noteq> None"
          using score_SetNewLeader [OF m mo] suit(2) by auto
        then show ?thesis by (simp add: get_slot_core)
      qed
      then have "only_here (GetCounter g) (score ?s2)" using only_here_member opened_others [OF o1(1)] by simp
      ultimately have "opened gid (score (forget_member g False ?s2)) \<and> g_members (s_this (forget_member g False ?s2)) \<noteq> []"
        by (intro opened_forget [OF o2 g])
      moreover have "(b, s') = (g_members (s_this (forget_member g False ?s2)) = [], forget_member g False ?s2)"
        using d True Pair Some suit(3) by (auto simp: DelMember_def Let_def)
      ultimately show ?thesis by auto
    qed
  qed
qed

section \<open>Joining\<close>

lemma others_ok_add:
  assumes o: "others_ok c" and g: "g = player_guid (GetCounter g)" "\<not> IsEmpty g" and new: "\<And>gid. seen c gid (GetCounter g) = None"
    and r: "small r"
  shows "others_ok (add_core g r c)"
proof (rule others_ok_step [OF o])
  let ?id = "gc_id (sc_this c)" and ?k = "GetCounter g" and ?c = "add_core g r c"
  have "linked ((seen c)(?id := (seen c ?id)(?k \<mapsto> r))) ?c"
  proof (rule linked_add)
    show "linked (seen c) c" using o by (simp add: others_ok_def)
    show "seen c gid' ?k = None" for gid' by (rule new)
    show "fst x = ?id" if "sc_players ?c (player_guid ?k) = Some x" for x
      using that g by (auto simp: add_core_def Let_def split: option.splits)
    show "sc_players ?c p = sc_players c p" if "p \<noteq> player_guid ?k" for p
      using that g(1) by (auto simp: add_core_def Let_def split: option.split)
    have fine: "sc_players c p = Some x \<Longrightarrow> player_fine p x" for p x
      using o linkedD(5) unfolding others_ok_def by blast
    show "player_fine p x" if "sc_players ?c p = Some x" for p x
    proof (cases "p = g")
      case True
      then show ?thesis
        using that g r fine [of p] by (auto simp: add_core_def Let_def player_fine_def split: option.splits if_splits)
    next
      case False
      then have "sc_players c p = Some x" using that by (auto simp: add_core_def Let_def split: option.splits if_splits)
      then show ?thesis by (rule fine)
    qed
  qed (simp_all add: add_core_def Let_def)
  moreover have "ranks_in (sc_this ?c) = (seen c ?id)(?k \<mapsto> r)"
    by (simp add: add_core_def Let_def seen_this)
  ultimately show "linked ((seen c)(?id := ranks_in (sc_this ?c))) ?c" by simp
qed (simp_all add: add_core_def Let_def)

text \<open>A connected player without a guild is a member of none.\<close>

lemma no_guild_no_member:
  assumes "linked L (score s)" and "\<And>k. L 0 k = None" and "s_players s g = Some p" and "gp_guildId p = 0"
  shows "L gid (GetCounter g) = None"
proof (rule ccontr)
  have p: "sc_players (score s) g = Some (player_core p)" using assms(3) by (simp add: score_def)
  then have g: "g = player_guid (GetCounter g)" using linkedD(5) [OF assms(1) p] by (simp add: player_fine_def split: prod.splits)
  assume n: "L gid (GetCounter g) \<noteq> None"
  then have "fst (player_core p) = gid" using linkedD(4) [OF assms(1) n] p g by metis
  then show False using n assms(2,4) by (simp add: player_core_def)
qed

lemma seen_zero: "others_ok c \<Longrightarrow> seen c 0 k = None"
  by (auto simp: others_ok_def seen_def ranks_of_def gcore_ok_def split: option.split)
    (metis (no_types, lifting) bind_eq_None_conv not_Some_eq)

lemma unat_byte: "unat x < 256" for x :: u8
  by (rule order_less_le_trans [OF unsigned_less]) simp

lemma unat_ucast_byte: "unat (ucast x :: u32) = unat x" for x :: u8
  using unsigned_less [of x] by (simp add: unsigned_ucast_eq unsigned_take_bit_eq take_bit_eq_mod)

lemma given_rank_small: "unat r \<le> 255 \<Longrightarrow> small (given_rank e online r)"
  using unat_byte [of "ge_onAddMember e (ucast r)"] by (auto simp: small_def given_rank_def unat_ucast_byte)

lemma given_rank_pos: "env_ok e \<Longrightarrow> unat r \<le> 255 \<Longrightarrow> r \<noteq> 0 \<Longrightarrow> given_rank e online r \<noteq> 0"
proof -
  assume "env_ok e" and r: "unat r \<le> 255" "r \<noteq> 0"
  have "unat (ucast r :: u8) = unat r"
    using r(1) by (simp add: unsigned_ucast_eq unsigned_take_bit_eq take_bit_eq_mod)
  then have "(ucast r :: u8) \<noteq> 0" using r(2) by (metis unat_eq_zero)
  then have "ge_onAddMember e (ucast r) \<noteq> 0" using \<open>env_ok e\<close> by (simp add: env_ok_def)
  then have "(ucast (ge_onAddMember e (ucast r)) :: u32) \<noteq> 0" by (metis unat_eq_zero unat_ucast_byte)
  then show ?thesis
    using r by (simp add: given_rank_def)
qed

lemma lowest_rank_bounds:
  assumes "gcore_ok gid (sc_this (score s))"
  shows "unat (GetLowestRank (s_this s)) \<le> 255" "GetLowestRank (s_this s) \<noteq> 0"
proof -
  let ?n = "length (g_Ranks (s_this s))"
  have "gc_ranks (sc_this (score s)) = ?n" by (simp add: core_simps)
  then have n: "5 \<le> ?n" "?n \<le> 10" using assms by (simp_all add: gcore_ok_def)
  have "unat (word_of_nat ?n - 1 :: u32) = unat (word_of_nat ?n :: u32) - unat (1 :: u32)"
    using n by (intro unat_sub) (simp add: word_le_nat_alt unat_of_nat take_bit_eq_mod)
  then have "unat (GetLowestRank (s_this s)) = ?n - 1"
    using n by (simp add: GetLowestRank_def unat_of_nat take_bit_eq_mod)
  then show "unat (GetLowestRank (s_this s)) \<le> 255" using n by linarith
  show "GetLowestRank (s_this s) \<noteq> 0"
  proof
    assume "GetLowestRank (s_this s) = 0"
    then have "?n - 1 = 0" using \<open>unat (GetLowestRank (s_this s)) = ?n - 1\<close> by simp
    then show False using n by linarith
  qed
qed

lemma add_core_simps [simp]:
  "sc_this (add_core g r c) = set_mem (GetCounter g) (Some (g, r)) (sc_this c)" "sc_guilds (add_core g r c) = sc_guilds c"
  "sc_next (add_core g r c) = sc_next c"
  by (simp_all add: add_core_def Let_def)

lemma player_valid:
  "linked L (score s) \<Longrightarrow> s_players s g = Some p \<Longrightarrow> \<not> IsEmpty g \<and> g = player_guid (GetCounter g)"
  using linkedD(5) [of L "score s" g "player_core p"] by (simp add: score_def player_fine_def split: prod.splits)

text \<open>Somebody who is a member of no guild joins at the lowest rank.\<close>

lemma member_joins:
  assumes "env_ok e" and o: "others_ok (score s)" "gcore_ok gid (sc_this (score s))"
    and g: "\<not> IsEmpty g" "g = player_guid (GetCounter g)" and no: "\<And>gid'. seen (score s) gid' (GetCounter g) = None"
    and a: "AddMember e g (GetLowestRank (s_this s)) s = (status, s')"
  shows "others_ok (score s') \<and> gcore_ok gid (sc_this (score s')) \<and> sc_guilds (score s') = sc_guilds (score s)"
proof (cases "status = OK")
  case False
  then show ?thesis using AddMember_cases(1) [OF assms(1) a] o by simp
next
  case True
  let ?r = "given_rank e (FindPlayerNotInWorld g s \<noteq> None) (GetLowestRank (s_this s))"
  have sc: "score s' = add_core g ?r (score s)" using AddMember_cases(2) [OF assms(1) a True] by simp
  have r: "?r \<noteq> GR_GUILDMASTER" using given_rank_pos [OF assms(1)] lowest_rank_bounds [OF o(2)] by blast
  have sm: "small ?r" using given_rank_small lowest_rank_bounds(1) [OF o(2)] by (simp add: small_def)
  have k: "GetCounter g \<noteq> GetCounter (gc_leader (sc_this (score s)))"
  proof
    assume "GetCounter g = GetCounter (gc_leader (sc_this (score s)))"
    then have "ranks_in (sc_this (score s)) (GetCounter g) = Some GR_GUILDMASTER" using gcore_ok_master [OF o(2)] by simp
    then show False using no [of "gc_id (sc_this (score s))"] by (simp add: seen_this)
  qed
  have "others_ok (score s')" unfolding sc using g no sm by (intro others_ok_add [OF o(1)]) blast+
  moreover have "gcore_ok gid (sc_this (score s'))" using o(2) g k r sm unfolding gcore_ok_def sc by auto
  ultimately show ?thesis by (simp add: sc)
qed

lemma opened_AddMember:
  assumes "env_ok e" and o: "opened gid (score s)" and p: "s_players s g = Some p" "gp_guildId p = 0"
    and a: "AddMember e g (GetLowestRank (s_this s)) s = (status, s')"
  shows "opened gid (score s')"
proof -
  have ok: "others_ok (score s)" using o by (rule opened_others)
  then have l: "linked (seen (score s)) (score s)" by (simp add: others_ok_def)
  have "others_ok (score s') \<and> gcore_ok gid (sc_this (score s')) \<and> sc_guilds (score s') = sc_guilds (score s)"
    using o player_valid [OF l p(1)] no_guild_no_member [OF l seen_zero [OF ok] p]
    by (intro member_joins [OF assms(1) ok _ _ _ _ a]) (auto simp: opened_def)
  then show ?thesis using o by (simp add: opened_def)
qed

section \<open>Handlers\<close>

lemma score_this: "score (s\<lparr>s_this := g\<rparr>) = (score s)\<lparr>sc_this := gcore_of g\<rparr>"
  by (simp add: score_def)

lemma open_guild:
  assumes "closed (score s)" and "GetGuildById gid s = Some g"
  shows "opened gid (score (s\<lparr>s_this := g\<rparr>))"
proof -
  have g: "sc_guilds (score s) gid = Some (gcore_of g)" using assms(2) by (simp add: score_def GetGuildById_def)
  then have ok: "gcore_ok gid (gcore_of g)" "gid < sc_next (score s)" using assms(1) by (simp_all add: closed_def)
  then have id: "gc_id (gcore_of g) = gid" "gid \<noteq> 0" by (simp_all add: gcore_ok_def)
  have "seen (score (s\<lparr>s_this := g\<rparr>)) = ranks_of (sc_guilds (score s))"
    using g id by (auto simp: seen_def score_this ranks_of_def fun_eq_iff)
  then show ?thesis
    using assms(1) g ok id linked_cong [of "score (s\<lparr>s_this := g\<rparr>)" "score s"]
    by (simp add: opened_def others_ok_def closed_def score_this)
qed

lemma close_guild:
  assumes "fit gid (score s)"
  shows "closed (score (store_guild gid s))"
proof -
  have sc: "score (store_guild gid s) = (score s)\<lparr>sc_guilds := (sc_guilds (score s))(gid :=
      map_option (\<lambda>_. sc_this (score s)) (sc_guilds (score s) gid))\<rparr>"
    by (auto simp: store_guild_def score_def fun_eq_iff option.map_comp comp_def)
  show ?thesis
  proof (cases "opened gid (score s)")
    case True
    let ?G = "(sc_guilds (score s))(gid \<mapsto> sc_this (score s))"
    have sc': "score (store_guild gid s) = (score s)\<lparr>sc_guilds := ?G\<rparr>" using True sc by (auto simp: opened_def)
    have "ranks_of ?G = seen (score s)"
      using opened_id [OF True] by (auto simp: seen_def ranks_of_def fun_eq_iff)
    moreover have "linked (seen (score s)) (score (store_guild gid s))"
      using opened_others [OF True] linked_cong [of "score (store_guild gid s)" "score s"] by (simp add: others_ok_def sc')
    ultimately show ?thesis
      using True opened_id [OF True] by (auto simp: closed_def sc' opened_def others_ok_def)
  next
    case False
    then have c: "closed (score s)" "sc_guilds (score s) gid = None" using assms by (auto simp: fit_def)
    then have "score (store_guild gid s) = score s" by (simp add: sc fun_upd_idem)
    then show ?thesis using c(1) by simp
  qed
qed

lemma with_guild_keeps:
  assumes "closed (score s)" and "closed (score (none s))"
    and "\<And>g. GetGuildById gid s = Some g \<Longrightarrow> opened gid (score (s\<lparr>s_this := g\<rparr>)) \<Longrightarrow> fit gid (score (f (s\<lparr>s_this := g\<rparr>)))"
  shows "closed (score (with_guild gid none f s))"
  using assms(2) close_guild [OF assms(3) [OF _ open_guild [OF assms(1)]]] by (auto simp: with_guild_def split: option.split)

lemma fit_opened [intro]: "opened gid c \<Longrightarrow> fit gid c"
  by (simp add: fit_def)

lemma fit_Disband:
  "others_ok (score s) \<Longrightarrow> gc_id (sc_this (score s)) = gid \<Longrightarrow> fit gid (score (Disband s))"
  using closed_Disband by (simp add: fit_def)

end
