(* ===== verification/Guild_Run.thy ===== *)
theory Guild_Run
  imports Guild_Keep
begin

text \<open>
  Every handler of guild packets keeps the invariant of \<open>Guild_Keep\<close>, as do the login, the logout, the deletion of a
  character, the death of a hardcore player and the chat; a run is any sequence of them.
\<close>

section \<open>Handlers that change no member\<close>

lemma quiet_with:
  assumes "closed (score s)" and "score (none s) = score s" and "\<And>t. score (f t) = score t"
  shows "closed (score (with_guild gid none f s))"
  using assms by (intro with_guild_keeps) auto

lemma quiet_in_my_guild:
  "closed (score s) \<Longrightarrow> (\<And>t. score (f t) = score t) \<Longrightarrow> closed (score (in_my_guild me f s))"
  unfolding in_my_guild_def by (rule quiet_with) simp_all

lemma quiet_needs:
  "(\<And>t. score (f t) = score t) \<Longrightarrow> score (need_right me right f s) = score s"
  "(\<And>t. score (f t) = score t) \<Longrightarrow> score (need_leader me f s) = score s"
  "(\<And>k m t. score (h k m t) = score t) \<Longrightarrow> score (need_member me name h s) = score s"
  by (simp_all add: need_right_def need_leader_def need_member_def split: option.split)

lemma score_SetGuildIdInvited [simp]: "score (upd_gplayer g (SetGuildIdInvited gid) s) = score s"
  by (rule score_upd_gplayer) (simp add: player_core_def SetGuildIdInvited_def)

lemma keeps_information:
  assumes "closed (score s)"
  shows "closed (score (HandleGuildQueryOpcode me gid s))" "closed (score (HandleGuildInfoOpcode me s))"
    "closed (score (HandleGuildRosterOpcode e me s))"
  using assms unfolding HandleGuildQueryOpcode_def HandleGuildInfoOpcode_def HandleGuildRosterOpcode_def
  by (auto intro!: quiet_with quiet_in_my_guild simp: Let_def split: prod.split)
    (metis score_GetAccountsNumber snd_conv)

lemma keeps_invite: "closed (score s) \<Longrightarrow> closed (score (HandleGuildInviteOpcode e me name s))"
  unfolding HandleGuildInviteOpcode_def Let_def
  by (auto intro!: quiet_in_my_guild quiet_needs split: option.split)

lemma keeps_decline: "closed (score s) \<Longrightarrow> closed (score (HandleGuildDeclineOpcode me s))"
  unfolding HandleGuildDeclineOpcode_def Let_def
  by (auto intro!: quiet_with split: option.split)

lemma keeps_texts:
  assumes "closed (score s)"
  shows "closed (score (HandleGuildMOTDOpcode me motd s))" "closed (score (HandleGuildSetPublicNoteOpcode e me name note s))"
    "closed (score (HandleGuildSetOfficerNoteOpcode e me name note s))" "closed (score (HandleGuildRankOpcode e me i rights rname s))"
    "closed (score (HandleGuildChangeInfoTextOpcode me info s))"
  using assms
  unfolding HandleGuildMOTDOpcode_def HandleGuildSetPublicNoteOpcode_def HandleGuildSetOfficerNoteOpcode_def
    HandleGuildRankOpcode_def HandleGuildChangeInfoTextOpcode_def Let_def
  by (auto intro!: quiet_in_my_guild quiet_needs split: option.split)

lemma keeps_emblem: "closed (score s) \<Longrightarrow> closed (score (HandleSaveGuildEmblemOpcode e me vendor em s))"
proof -
  have "score (upd_gplayer me (\<lambda>p. p\<lparr>gp_player := ModifyMoney w d (gp_player p)\<rparr>) s) = score s" for w d s
    by (rule score_upd_gplayer) (simp add: player_core_def ModifyMoney_def SetMoney_def event_def Let_def)
  then show "closed (score s) \<Longrightarrow> ?thesis"
    unfolding HandleSaveGuildEmblemOpcode_def Let_def by (auto intro!: quiet_with split: option.split)
qed

section \<open>Ranks\<close>

lemma ranks_core:
  assumes "opened gid (score s)" and "score s' = (score s)\<lparr>sc_this := (sc_this (score s))\<lparr>gc_ranks := n\<rparr>\<rparr>"
    and "GUILD_RANKS_MIN_COUNT \<le> n" "n \<le> GUILD_RANKS_MAX_COUNT"
  shows "opened gid (score s')"
proof -
  have "seen (score s') = seen (score s)" by (simp add: assms(2) seen_def ranks_in_def fun_eq_iff)
  moreover have "linked (seen (score s)) (score s')"
    using assms(1) linked_cong [of "score s'" "score s"] by (simp add: opened_def others_ok_def assms(2))
  ultimately show ?thesis
    using assms by (auto simp: opened_def others_ok_def gcore_ok_def ranks_in_def)
qed

lemma opened_ranks: "opened gid (score s) \<Longrightarrow> GUILD_RANKS_MIN_COUNT \<le> length (g_Ranks (s_this s)) \<and>
    length (g_Ranks (s_this s)) \<le> GUILD_RANKS_MAX_COUNT"
  by (simp add: opened_def gcore_ok_def core_simps)

lemma opened_CreateRank: "opened gid (score s) \<Longrightarrow> opened gid (score (CreateRank name rights s))"
proof -
  assume o: "opened gid (score s)"
  show "opened gid (score (CreateRank name rights s))"
  proof (cases "length (g_Ranks (s_this s)) \<ge> GUILD_RANKS_MAX_COUNT")
    case False
    have "score (CreateRank name rights s) = (score s)\<lparr>sc_this := (sc_this (score s))\<lparr>gc_ranks := Suc (length (g_Ranks (s_this s)))\<rparr>\<rparr>"
      using False by (simp add: CreateRank_def Let_def score_upd_db AddRank_def) (simp add: upd_this_def core_simps)
    then show ?thesis using ranks_core [OF o] opened_ranks [OF o] False by simp
  qed (use o in \<open>simp add: CreateRank_def\<close>)
qed

lemma opened_DelRank:
  assumes o: "opened gid (score s)"
  shows "\<exists>s'. DelRank s = Some s' \<and> opened gid (score s')"
proof (cases "length (g_Ranks (s_this s)) \<le> GUILD_RANKS_MIN_COUNT")
  case False
  have "g_Bank (s_this s) \<noteq> None" "g_InfernoBank (s_this s) \<noteq> None"
    using o by (auto simp: opened_def gcore_ok_def core_simps)
  then obtain b i where b: "g_Bank (s_this s) = Some b" "g_InfernoBank (s_this s) = Some i" by blast
  then obtain s' where "DelRank s = Some s'"
    and "score s' = (score s)\<lparr>sc_this := (sc_this (score s))\<lparr>gc_ranks := length (g_Ranks (s_this s)) - 1\<rparr>\<rparr>"
    using False by (simp add: DelRank_def Let_def on_bank_def upd_db_def upd_this_def case_prod_unfold) (simp add: core_simps)
  moreover have "5 \<le> length (g_Ranks (s_this s)) - 1" "length (g_Ranks (s_this s)) - 1 \<le> 10"
    using False opened_ranks [OF o] by linarith+
  ultimately show ?thesis using ranks_core [OF o] by metis
qed (use o in \<open>simp add: DelRank_def\<close>)

lemma fit_in_my_guild:
  assumes "closed (score s)"
    and "\<And>g p. GetGuildById (my_guild me s) s = Some g \<Longrightarrow> opened (my_guild me s) (score (s\<lparr>s_this := g\<rparr>)) \<Longrightarrow>
      s_players s me = Some p \<Longrightarrow> gp_guildId p = my_guild me s \<Longrightarrow> fit (my_guild me s) (score (f (s\<lparr>s_this := g\<rparr>)))"
  shows "closed (score (in_my_guild me f s))"
  unfolding in_my_guild_def
proof (rule with_guild_keeps [OF assms(1)])
  fix g
  assume g: "GetGuildById (my_guild me s) s = Some g" and o: "opened (my_guild me s) (score (s\<lparr>s_this := g\<rparr>))"
  then have "my_guild me s \<noteq> 0" by (simp add: opened_def gcore_ok_def)
  then obtain p where "s_players s me = Some p" "gp_guildId p = my_guild me s"
    by (auto simp: my_guild_def split: option.splits)
  then show "fit (my_guild me s) (score (f (s\<lparr>s_this := g\<rparr>)))" using assms(2) g o by blast
qed (use assms(1) in simp)

lemma fit_needs:
  assumes "opened gid (score s)"
  shows "fit gid (score (f s)) \<Longrightarrow> fit gid (score (need_right me right f s))"
    "(me = g_LeaderGuid (s_this s) \<Longrightarrow> fit gid (score (f s))) \<Longrightarrow> fit gid (score (need_leader me f s))"
    "(\<And>k m. get_slot k s = Some m \<Longrightarrow> fit gid (score (h k m s))) \<Longrightarrow> fit gid (score (need_member me name h s))"
  using assms by (auto simp: need_right_def need_leader_def need_member_def split: option.split)

lemma keeps_add_rank: "closed (score s) \<Longrightarrow> closed (score (HandleGuildAddRankOpcode e me rname s))"
  unfolding HandleGuildAddRankOpcode_def
  by (auto intro!: fit_in_my_guild fit_needs simp: fit_opened opened_CreateRank split: option.split)

lemma keeps_del_rank:
  assumes "closed (score s)"
  shows "\<exists>s'. HandleGuildDelRankOpcode e me s = Some s' \<and> closed (score s')"
proof (cases "GetGuildById (my_guild me s) s")
  case (Some g)
  note o = open_guild [OF assms Some]
  obtain s1 where "DelRank (s\<lparr>s_this := g\<rparr>) = Some s1" "opened (my_guild me s) (score s1)" using opened_DelRank [OF o] by blast
  moreover have "closed (score (store_guild (my_guild me s) t))" if "opened (my_guild me s) (score t)" for t
    using close_guild that by blast
  ultimately show ?thesis using Some o by (auto simp: HandleGuildDelRankOpcode_def Let_def)
qed (use assms in \<open>simp add: HandleGuildDelRankOpcode_def\<close>)

section \<open>Members\<close>

lemma fit_DelMember:
  assumes o: "opened gid (score s)" and "g = player_guid (GetCounter g)" and "only_here (GetCounter g) (score s)"
    and "\<And>t. score (h t) = score t"
  shows "fit gid (score (case DelMember g False s of (True, s1) \<Rightarrow> Disband s1 | (False, s1) \<Rightarrow> h s1))"
proof (cases "DelMember g False s")
  case (Pair b s1)
  then show ?thesis
    using opened_DelMember [OF o assms(2,3) Pair] assms(4) fit_Disband by (cases b) auto
qed

lemma keeps_remove: "closed (score s) \<Longrightarrow> closed (score (HandleGuildRemoveOpcode e me name s))"
proof -
  have m: "fit gid (score (if ms_RankId m = GR_GUILDMASTER then SendGuildCommandResult me GUILD_QUIT_S [] ERR_GUILD_LEADER_LEAVE t
            else if my_rank me t \<ge> ms_RankId m
            then SendGuildCommandResult me GUILD_QUIT_S name ERR_GUILD_RANK_TOO_HIGH_S t
            else case DelMember (ms_guid m) False t of
                   (True, s1) \<Rightarrow> Disband s1
                 | (False, s1) \<Rightarrow>
                     BroadcastEvent GE_REMOVED 0 [name, my_name me s1]
                       (LogGuildEvent e GUILD_EVENT_LOG_UNINVITE_PLAYER me (ms_guid m) 0 s1)))"
    if o: "opened gid (score t)" and m: "get_slot k t = Some m" for gid t k m name
    using fit_DelMember [OF o, of "ms_guid m"] opened_guid [OF o m] only_here_member [OF opened_others [OF o], of k] m fit_opened [OF o]
    by simp
  show "closed (score s) \<Longrightarrow> closed (score (HandleGuildRemoveOpcode e me name s))"
    unfolding HandleGuildRemoveOpcode_def
    by (auto intro!: fit_in_my_guild fit_needs m split: option.split)
qed

text \<open>A player whose guild this is is in no other.\<close>

lemma only_here_player:
  assumes "others_ok (score s)" and "s_players s me = Some p" and "gp_guildId p = gc_id (sc_this (score s))"
  shows "only_here (GetCounter me) (score s)"
proof -
  have l: "linked (seen (score s)) (score s)" using assms(1) by (simp add: others_ok_def)
  have p: "sc_players (score s) (player_guid (GetCounter me)) = Some (player_core p)"
    using player_valid [OF l assms(2)] assms(2) by (simp add: score_def)
  have "seen (score s) gid (GetCounter me) \<noteq> None \<Longrightarrow> gp_guildId p = gid" for gid
    using linkedD(4) [OF l _ p] by (simp add: player_core_def)
  then show ?thesis using assms(3) unfolding only_here_def by metis
qed

lemma keeps_leave: "closed (score s) \<Longrightarrow> closed (score (HandleGuildLeaveOpcode e me s))"
  unfolding HandleGuildLeaveOpcode_def
proof (rule fit_in_my_guild)
  fix g p
  let ?gid = "my_guild me s" and ?s = "s\<lparr>s_this := g\<rparr>"
  assume o: "opened ?gid (score ?s)" and p: "s_players s me = Some p" "gp_guildId p = ?gid"
  let ?s1 = "SendGuildCommandResult me GUILD_QUIT_S (g_Name g) ERR_PLAYER_NO_MORE_IN_GUILD ?s"
  have o1: "opened ?gid (score ?s1)" using o by simp
  have "linked (seen (score ?s)) (score ?s)" using o by (simp add: opened_def others_ok_def)
  then have v: "me = player_guid (GetCounter me)" using player_valid [of _ ?s me p] p(1) by simp
  have "only_here (GetCounter me) (score ?s)"
    using only_here_player [of ?s me p] opened_others [OF o] opened_id [OF o] p by simp
  then have d: "fit ?gid (score (case DelMember me False ?s1 of (True, s2) \<Rightarrow> Disband s2 | (False, s2) \<Rightarrow>
       BroadcastEvent GE_LEFT me [my_name me s2] (LogGuildEvent e GUILD_EVENT_LOG_LEAVE_GUILD me 0 0 s2)))"
    by (intro fit_DelMember [OF o1 v]) simp_all
  show "fit ?gid (score (let g = s_this ?s
       in if me = g_LeaderGuid g \<and> 1 < length (g_members g)
          then SendGuildCommandResult me GUILD_QUIT_S [] ERR_GUILD_LEADER_LEAVE ?s
          else if me = g_LeaderGuid g then Disband ?s
               else let s1 = SendGuildCommandResult me GUILD_QUIT_S (g_Name g) ERR_PLAYER_NO_MORE_IN_GUILD ?s
                    in case DelMember me False s1 of
                         (True, s2) \<Rightarrow> Disband s2
                       | (False, s2) \<Rightarrow>
                           BroadcastEvent GE_LEFT me [my_name me s2]
                            (LogGuildEvent e GUILD_EVENT_LOG_LEAVE_GUILD me 0 0 s2)))"
    using d o fit_Disband [OF opened_others [OF o] opened_id [OF o]] by (auto simp: Let_def fit_opened)
qed simp

lemma keeps_disband: "closed (score s) \<Longrightarrow> closed (score (HandleGuildDisbandOpcode me s))"
  unfolding HandleGuildDisbandOpcode_def
  by (auto intro!: fit_in_my_guild fit_needs fit_Disband intro: opened_others opened_id)

lemma keeps_accept:
  assumes "env_ok e" and "closed (score s)"
  shows "closed (score (HandleGuildAcceptOpcode e me s))"
proof (cases "s_players s me")
  case (Some p)
  show ?thesis unfolding HandleGuildAcceptOpcode_def Some option.case
  proof (rule with_guild_keeps [OF assms(2)])
    fix g
    let ?s = "s\<lparr>s_this := g\<rparr>" and ?gid = "gp_GuildIdInvited p"
    assume o: "opened ?gid (score ?s)"
    obtain status s1 where a: "AddMember e me (GetLowestRank (s_this ?s)) ?s = (status, s1)" by fastforce
    have "opened ?gid (score s1)" if "gp_guildId p = 0"
      using opened_AddMember [OF assms(1) o _ that a] Some by simp
    then show "fit ?gid (score (let leader = g_LeaderGuid (s_this ?s);
                leaderTeam = (case FindPlayer leader ?s of
                                Some l \<Rightarrow> gp_team l
                              | None \<Rightarrow> case ge_cache e (GetCounter leader) of None \<Rightarrow> 0 | Some d \<Rightarrow> pc_team d)
            in if gp_guildId p \<noteq> 0 \<or> (\<not> ge_twoSide e \<and> gp_team p \<noteq> leaderTeam) then ?s
               else case AddMember e me (GetLowestRank (s_this ?s)) ?s of
                      (status, s1) \<Rightarrow>
                        if status \<noteq> OK then s1
                        else BroadcastEvent GE_JOINED me [pl_name (gp_player p)]
                               (LogGuildEvent e GUILD_EVENT_LOG_JOIN_GUILD me 0 0 s1)))"
      using o a by (auto simp: Let_def)
  qed (use assms(2) in simp)
qed (use assms(2) in \<open>simp add: HandleGuildAcceptOpcode_def\<close>)

section \<open>Promotion, demotion and the leader\<close>

lemma my_rank_small:
  assumes "others_ok (score s)"
  shows "small (my_rank me s)"
proof (cases "s_players s me")
  case (Some p)
  then have "sc_players (score s) me = Some (player_core p)" by (simp add: score_def)
  moreover have "linked (seen (score s)) (score s)" using assms by (simp add: others_ok_def)
  ultimately have "player_fine me (player_core p)" by (rule linkedD(5) [rotated])
  then show ?thesis using Some by (simp add: my_rank_def player_fine_def player_core_def)
qed (simp add: my_rank_def small_def)

lemma opened_small: "opened gid (score s) \<Longrightarrow> get_slot k s = Some m \<Longrightarrow> small (ms_RankId m)"
  using ranks_in_score [of s k] by (simp add: opened_def gcore_ok_def)

lemma promoted_rank:
  assumes "small a" and "\<not> a + 1 \<ge> r" and "small r"
  shows "r - 1 \<noteq> GR_GUILDMASTER \<and> small (r - 1) \<and> r \<noteq> GR_GUILDMASTER"
proof -
  have "unat (a + 1) = unat a + 1" using assms(1) by (simp add: unat_word_ariths small_def)
  then have r: "unat a + 1 < unat r" using assms(2) by (simp add: word_le_nat_alt)
  moreover have "unat (r - 1) = unat r - unat (1 :: u32)" using r by (intro unat_sub) (simp add: word_le_nat_alt)
  ultimately have u: "unat (r - 1) = unat r - 1" "unat r \<ge> 2" by auto
  then have "r - 1 \<noteq> 0" "r \<noteq> 0" by (auto simp: unat_eq_zero)
  then show ?thesis using u assms(3) by (simp add: small_def)
qed

lemma demoted_rank:
  assumes "\<not> a \<ge> r" and "\<not> r \<ge> low" and "unat low \<le> 255"
  shows "r + 1 \<noteq> GR_GUILDMASTER \<and> small (r + 1) \<and> r \<noteq> GR_GUILDMASTER"
proof -
  have r: "unat r < unat low" "unat a < unat r" using assms(1,2) by (simp_all add: word_le_nat_alt)
  then have "unat (r + 1) = unat r + 1" using assms(3) by (simp add: unat_word_ariths)
  then show ?thesis using r assms(3) by (auto simp: small_def unat_eq_zero)
qed

lemma keeps_promote: "closed (score s) \<Longrightarrow> closed (score (HandleGuildPromoteOpcode e me plName s))"
proof -
  have m: "fit gid (score (ChangeRank k (ms_RankId m - 1) t))"
    if o: "opened gid (score t)" and m: "get_slot k t = Some m" and r: "\<not> my_rank me t + 1 \<ge> ms_RankId m" for gid t k m
  proof -
    have "ms_RankId m - 1 \<noteq> GR_GUILDMASTER \<and> small (ms_RankId m - 1) \<and> ms_RankId m \<noteq> GR_GUILDMASTER"
      using promoted_rank [OF my_rank_small [OF opened_others [OF o]] r opened_small [OF o m]] .
    then show ?thesis using opened_ChangeRank [OF o m] opened_master(1) [OF o m] by (simp add: fit_opened)
  qed
  show "closed (score s) \<Longrightarrow> closed (score (HandleGuildPromoteOpcode e me plName s))"
    unfolding HandleGuildPromoteOpcode_def Let_def
    by (auto intro!: fit_in_my_guild fit_needs m simp: fit_opened split: option.split)
qed

lemma keeps_demote: "closed (score s) \<Longrightarrow> closed (score (HandleGuildDemoteOpcode e me plName s))"
proof -
  have m: "fit gid (score (ChangeRank k (ms_RankId m + 1) t))"
    if o: "opened gid (score t)" and m: "get_slot k t = Some m" and r: "\<not> my_rank me t \<ge> ms_RankId m"
      "\<not> ms_RankId m \<ge> GetLowestRank (s_this t)" for gid t k m
  proof -
    have "ms_RankId m + 1 \<noteq> GR_GUILDMASTER \<and> small (ms_RankId m + 1) \<and> ms_RankId m \<noteq> GR_GUILDMASTER"
      using demoted_rank [OF r lowest_rank_bounds(1) [OF opened_core [OF o]]] .
    then show ?thesis using opened_ChangeRank [OF o m] opened_master(1) [OF o m] by (simp add: fit_opened)
  qed
  show "closed (score s) \<Longrightarrow> closed (score (HandleGuildDemoteOpcode e me plName s))"
    unfolding HandleGuildDemoteOpcode_def Let_def
    by (auto intro!: fit_in_my_guild fit_needs m simp: fit_opened split: option.split)
qed

lemma keeps_leader: "closed (score s) \<Longrightarrow> closed (score (HandleGuildLeaderOpcode me name0 s))"
proof -
  have m: "fit gid (score (SetNewLeader k (Some old) t))"
    if o: "opened gid (score t)" and m: "get_slot k t \<noteq> None" and l: "me = g_LeaderGuid (s_this t)"
      "GetMemberSlot me (s_this t) = Some old" "k \<noteq> old" for gid t k old
  proof -
    have "old = GetCounter (g_LeaderGuid (s_this t))" "get_slot old t \<noteq> None"
      using l(1,2) by (auto simp: GetMemberSlot_def get_slot_def split: option.splits)
    then show ?thesis using opened_SetNewLeader(1) [OF o] m l(3) by blast
  qed
  show "closed (score s) \<Longrightarrow> closed (score (HandleGuildLeaderOpcode me name0 s))"
    unfolding HandleGuildLeaderOpcode_def
    by (auto intro!: fit_in_my_guild fit_needs m simp: fit_opened split: option.splits)
qed

end
