(* ===== verification/Guild_Life.thy ===== *)
theory Guild_Life
  imports Guild_Run
begin

text \<open>
  A guild is founded, players come and go; then the runs of the server as far as guilds are concerned, and what
  holds along every run.
\<close>

section \<open>Founding\<close>

lemma le_less_succ: "g \<noteq> - 1 \<Longrightarrow> x \<le> g \<Longrightarrow> x < g + 1" for g :: u32
proof -
  assume "g \<noteq> - 1" "x \<le> g"
  then have "1 + g \<noteq> 0" by (metis add.inverse_unique)
  then have "unat (1 + g) = Suc (unat g)" by (rule unatSuc)
  then show ?thesis using \<open>x \<le> g\<close> by (simp add: word_less_nat_alt word_le_nat_alt add.commute)
qed

definition core_with :: "(gcore \<Rightarrow> gcore) \<Rightarrow> score \<Rightarrow> score" where
  "core_with f c = c\<lparr>sc_this := f (sc_this c)\<rparr>"

lemma score_CreateRank:
  "score (CreateRank name rights s) =
     core_with (\<lambda>g. g\<lparr>gc_ranks := if gc_ranks g \<ge> GUILD_RANKS_MAX_COUNT then gc_ranks g else Suc (gc_ranks g)\<rparr>) (score s)"
  by (auto simp: CreateRank_def Let_def score_upd_db AddRank_def) (simp_all add: upd_this_def core_simps core_with_def)

lemma score_CreateDefaultGuildRanks:
  assumes "gc_ranks (sc_this (score s)) = 0"
  shows "score (CreateDefaultGuildRanks e i s) = core_with (\<lambda>g. g\<lparr>gc_ranks := 5\<rparr>) (score s)"
proof -
  have "score (upd_db (\<lambda>db. db\<lparr>t_rank := x db\<rparr>) s) = score s" for x by (rule score_upd_db) simp
  then show ?thesis
    using assms unfolding CreateDefaultGuildRanks_def Let_def score_CreateRank by (simp add: core_with_def)
qed

lemma score_open_bank: "open_bank e inferno s = Some (b, s') \<Longrightarrow> score s' = score s \<and> s_this s' = s_this s"
  by (auto simp: open_bank_def Let_def score_upd_db) (simp add: upd_db_def)

lemma score_open_banks:
  assumes "open_banks e s = Some s'"
  shows "score s' = core_with (\<lambda>g. g\<lparr>gc_banks := True\<rparr>) (score s)"
proof -
  obtain b s1 i s3 where 1: "open_bank e False s = Some (b, s1)"
    and 3: "open_bank e True (upd_this (\<lambda>g. g\<lparr>g_Bank := Some b\<rparr>) s1) = Some (i, s3)"
    and s': "s' = upd_this (\<lambda>g. g\<lparr>g_InfernoBank := Some i\<rparr>) s3"
    using assms by (auto simp: open_banks_def Let_def bind_eq_Some_conv)
  note a = score_open_bank [OF 1] and b = score_open_bank [OF 3]
  have "score s3 = (score s1)\<lparr>sc_this := gcore_of ((s_this s1)\<lparr>g_Bank := Some b\<rparr>)\<rparr>"
    using b by (simp add: upd_this_def score_this)
  moreover have "score s' = (score s3)\<lparr>sc_this := gcore_of ((s_this s1)\<lparr>g_Bank := Some b, g_InfernoBank := Some i\<rparr>)\<rparr>"
    using b by (simp add: s' upd_this_def score_this)
  ultimately show ?thesis using a by (simp add: core_with_def core_simps)
qed

text \<open>The guild that \<^verbatim>\<open>Create\<close> works on: its id is new, and it has no members yet.\<close>

definition newborn :: "u32 \<Rightarrow> guid \<Rightarrow> score \<Rightarrow> bool" where
  "newborn gid leader c \<longleftrightarrow> others_ok c \<and> gc_id (sc_this c) = gid \<and> gc_leader (sc_this c) = leader \<and>
     gc_mem (sc_this c) = (\<lambda>_. None) \<and> sc_guilds c gid = None"

lemma newborn_with:
  assumes "newborn gid leader c" and "\<And>g. gc_id (f g) = gc_id g" "\<And>g. gc_leader (f g) = gc_leader g" "\<And>g. gc_mem (f g) = gc_mem g"
  shows "newborn gid leader (core_with f c)"
proof -
  have "seen (core_with f c) = seen c" by (simp add: core_with_def seen_def ranks_in_def assms fun_eq_iff)
  then show ?thesis
    using assms linked_cong [of "core_with f c" c] by (auto simp: newborn_def others_ok_def core_with_def)
qed

lemma newborn_found_guild:
  assumes c: "closed (score s)" and nx: "s_nextGuildId s \<noteq> - 1"
    and g: "g_members (s_this s) = []" "g_Ranks (s_this s) = []"
  shows "newborn (s_nextGuildId s) leader (score (found_guild e leader gname s)) \<and>
     gc_ranks (sc_this (score (found_guild e leader gname s))) = 0"
proof -
  let ?gid = "s_nextGuildId s" and ?c = "score (found_guild e leader gname s)"
  have n: "sc_next (score s) = ?gid" by (simp add: score_def)
  have none: "sc_guilds (score s) ?gid = None"
  proof (rule ccontr)
    assume "sc_guilds (score s) ?gid \<noteq> None"
    then have "?gid < sc_next (score s)" using c by (auto simp: closed_def)
    then show False by (simp add: n)
  qed
  have l: "linked (ranks_of (sc_guilds (score s))) (score s)" using c by (simp add: closed_def)
  have rows: "gid \<noteq> ?gid" if "(k, gid, r) \<in> set (sc_rows (score s))" for k gid r
  proof
    assume "gid = ?gid"
    then have "map_of (sc_rows (score s)) k = Some (?gid, r)" using that linkedD(2) [OF l] by simp
    then have "ranks_of (sc_guilds (score s)) ?gid k = Some r" using linkedD(3) [OF l] by blast
    then show False by (simp add: ranks_of_def none)
  qed
  have "delete_where (\<lambda>r. mb_guildid r = ?gid) (t_member (s_db s)) = t_member (s_db s)"
    unfolding delete_where_def using rows by (force simp: filter_id_conv score_def row_core_def)
  then have sc: "?c = (score s)\<lparr>sc_this := \<lparr>gc_id = ?gid, gc_leader = leader, gc_mem = (\<lambda>_. None), gc_ranks = 0,
      gc_banks = gc_banks (sc_this (score s))\<rparr>, sc_next := ?gid + 1\<rparr>"
    using g by (auto simp: found_guild_def Let_def upd_db_def upd_this_def core_simps um_find_def split: prod.split)
  have "seen ?c = ranks_of (sc_guilds (score s))"
    by (auto simp: sc seen_def ranks_of_def ranks_in_def none fun_eq_iff)
  moreover have "linked (ranks_of (sc_guilds (score s))) ?c" using l linked_cong [of ?c "score s"] by (simp add: sc)
  moreover have lt: "x < ?gid + 1" if "x \<le> ?gid" for x
    using that nx by (rule le_less_succ [rotated])
  ultimately show ?thesis
    using c none lt n by (auto simp: newborn_def others_ok_def closed_def sc intro!: lt less_imp_le)
qed

text \<open>The founder joins at rank 0; the guild then is in order.\<close>

lemma founder_joins:
  assumes "env_ok e" and b: "newborn gid leader (score s)" and r: "gc_ranks (sc_this (score s)) = 5" "gc_banks (sc_this (score s))"
    and p: "s_players s leader = Some p" "gp_guildId p = 0"
  shows "\<exists>s'. AddMember e leader GR_GUILDMASTER s = (OK, s') \<and> score s' = add_core leader GR_GUILDMASTER (score s) \<and>
     others_ok (score s') \<and> gcore_ok gid (sc_this (score s'))"
proof -
  have o: "others_ok (score s)" using b by (simp add: newborn_def)
  then have l: "linked (seen (score s)) (score s)" by (simp add: others_ok_def)
  note v = player_valid [OF l p(1)] and no = no_guild_no_member [OF l seen_zero [OF o] p]
  have on: "FindPlayerNotInWorld leader s = Some p" using v p(1) by (simp add: FindPlayerNotInWorld_def)
  have w: "s_players (withdraw_signature leader s) = s_players s"
    by (simp add: withdraw_signature_def DeleteSignature_def Signature_DeleteFromDB_def upd_db_def split: option.split)
  then have "\<exists>m. new_member e leader (withdraw_signature leader s) = Inr m"
    using v p(1) by (simp add: new_member_def FindPlayerNotInWorld_def)
  moreover have "\<not> already_in_guild leader s" using on p(2) by (simp add: already_in_guild_def)
  moreover have "ge_onAddMember e 0 = 0" using assms(1) unfolding env_ok_def by blast
  then have g: "given_rank e True 0 = 0" by (simp add: given_rank_def)
  ultimately obtain s' where s': "AddMember e leader GR_GUILDMASTER s = (OK, s')" "score s' = add_core leader 0 (score s)"
    using AddMember_joins [OF assms(1)] on by (metis option.distinct(1))
  have "others_ok (score s')" unfolding s'(2) using v no by (intro others_ok_add [OF o]) (auto simp: small_def)
  moreover have "gcore_ok gid (sc_this (score s'))"
    using b v r o by (auto simp: s'(2) gcore_ok_def newborn_def ranks_in_def small_def others_ok_def)
  ultimately show ?thesis using s' by auto
qed

lemma others_ok_banks: "others_ok c \<Longrightarrow> others_ok (core_with (\<lambda>g. g\<lparr>gc_banks := x\<rparr>) c)"
proof -
  assume o: "others_ok c"
  have "seen (core_with (\<lambda>g. g\<lparr>gc_banks := x\<rparr>) c) = seen c" by (simp add: core_with_def seen_def ranks_in_def fun_eq_iff)
  then show ?thesis using o linked_cong [of "core_with (\<lambda>g. g\<lparr>gc_banks := x\<rparr>) c" c] by (auto simp: others_ok_def core_with_def)
qed

lemma closed_AddGuild:
  assumes "env_ok e" and "others_ok (score s)" and "gcore_ok gid (sc_this (score s))" and "AddGuild e s = Some s'"
  shows "closed (score s')"
proof -
  obtain s1 where 1: "open_banks e s = Some s1"
    and s': "s' = s1\<lparr>s_guilds := um_put (ge_order e) (g_Id (s_this s1)) (s_this s1) (s_guilds s1)\<rparr>"
    using assms(4) by (auto simp: AddGuild_def)
  note sc1 = score_open_banks [OF 1]
  have ok: "gcore_ok gid (sc_this (score s1))" using assms(3) by (simp add: sc1 core_with_def gcore_ok_def ranks_in_def)
  then have id: "g_Id (s_this s1) = gid" "gc_id (sc_this (score s1)) = gid" by (simp_all add: gcore_ok_def core_simps)
  have o: "others_ok (score s1)" unfolding sc1 by (rule others_ok_banks [OF assms(2)])
  have sc: "score s' = (score s1)\<lparr>sc_guilds := (sc_guilds (score s1))(gid \<mapsto> sc_this (score s1))\<rparr>"
    unfolding s' id by (auto simp: score_def fun_eq_iff um_find_put [OF env_order [OF assms(1)]])
  have "ranks_of (sc_guilds (score s')) = seen (score s1)"
    using id by (auto simp: sc seen_def ranks_of_def fun_eq_iff)
  moreover have "linked (seen (score s1)) (score s')" using o linked_cong [of "score s'" "score s1"] by (simp add: others_ok_def sc)
  ultimately show ?thesis using o ok id by (auto simp: closed_def sc others_ok_def)
qed

text \<open>\<^verbatim>\<open>Create\<close> for a player without a guild and a free name: the founder joins a guild that had no member.\<close>

definition founded :: "u32 \<Rightarrow> guid \<Rightarrow> score \<Rightarrow> score \<Rightarrow> bool" where
  "founded gid me c c' \<longleftrightarrow> (\<exists>c2. newborn gid me c2 \<and> c' = add_core me GR_GUILDMASTER c2 \<and> sc_players c2 = sc_players c \<and> sc_index c2 = sc_index c)"

lemma Create_founds:
  assumes "env_ok e" and c: "closed (score s)" and nx: "s_nextGuildId s \<noteq> - 1"
    and p: "s_players s me = Some p" "gp_guildId p = 0" and n: "GetGuildByName gname s = None"
    and cr: "Create e me gname (s\<lparr>s_this := new_guild\<rparr>) = Some (made, s3)"
  shows "made \<and> others_ok (score s3) \<and> gcore_ok (s_nextGuildId s) (sc_this (score s3)) \<and> founded (s_nextGuildId s) me (score s) (score s3)"
proof -
  let ?s0 = "s\<lparr>s_this := new_guild\<rparr>"
  let ?f = "found_guild e me gname ?s0"
  let ?s1 = "CreateDefaultGuildRanks e (gp_locale p) ?f"
  have c0: "closed (score ?s0)" using c linked_cong [of "score ?s0" "score s"] by (auto simp: closed_def score_this)
  have f: "newborn (s_nextGuildId s) me (score ?f)" "gc_ranks (sc_this (score ?f)) = 0"
    using newborn_found_guild [OF c0, of me e gname] nx by (simp_all add: new_guild_def)
  have n0: "GetGuildByName gname ?s0 = None" using n by (simp add: GetGuildByName_def)
  obtain s2 where s2: "open_banks e ?s1 = Some s2"
    using cr p(1) n0 by (auto simp: Create_def Let_def bind_eq_Some_conv)
  have sc2: "score s2 = core_with (\<lambda>g. g\<lparr>gc_banks := True\<rparr>) (core_with (\<lambda>g. g\<lparr>gc_ranks := 5\<rparr>) (score ?f))"
    using score_open_banks [OF s2] score_CreateDefaultGuildRanks [OF f(2)] by simp
  have b: "newborn (s_nextGuildId s) me (score s2)" unfolding sc2 by (intro newborn_with f(1)) simp_all
  have "sc_players (score ?f) = sc_players (score s)" "sc_index (score ?f) = sc_index (score s)"
    by (simp_all add: found_guild_def Let_def upd_db_def upd_this_def score_def split: prod.split)
  then have pl: "sc_players (score s2) = sc_players (score s)" "sc_index (score s2) = sc_index (score s)"
    by (simp_all add: sc2 core_with_def)
  then obtain p2 where p2: "s_players s2 me = Some p2" "gp_guildId p2 = 0"
    using p by (auto simp: score_def player_core_def fun_eq_iff dest!: spec [of _ me] split: option.splits)
  obtain t where t: "AddMember e me GR_GUILDMASTER s2 = (OK, t)" "others_ok (score t)" "gcore_ok (s_nextGuildId s) (sc_this (score t))"
    "score t = add_core me GR_GUILDMASTER (score s2)"
    using founder_joins [OF assms(1) b _ _ p2] by (auto simp: sc2 core_with_def)
  have "made \<and> s3 = run_hook (OnCreate (g_Id (s_this t)) me (g_Name (s_this t))) t"
    using cr p(1) n0 s2 t(1) by (simp add: Create_def Let_def)
  then show ?thesis using t(2-4) b pl by (auto simp: founded_def)
qed

lemma keeps_create:
  assumes "env_ok e" and c: "closed (score s)" and nx: "s_nextGuildId s \<noteq> - 1" and h: "HandleGuildCreateOpcode e me gname s = Some s'"
  shows "closed (score s')"
proof (cases "my_guild me s \<noteq> 0 \<or> s_players s me = None \<or> GetGuildByName gname (s\<lparr>s_this := new_guild\<rparr>) \<noteq> None")
  case True
  then have "score s' = score s \<or> score s' = (score s)\<lparr>sc_this := gcore_of new_guild\<rparr>"
    using h by (auto simp: HandleGuildCreateOpcode_def Create_def score_this split: option.splits if_splits)
  then show ?thesis using c linked_cong [of "score s'" "score s"] by (auto simp: closed_def)
next
  case False
  then obtain p where p: "s_players s me = Some p" "gp_guildId p = 0" by (auto simp: my_guild_def)
  have n: "GetGuildByName gname s = None" using False by (cases "GetGuildByName gname s") (auto simp: GetGuildByName_def)
  obtain made s3 where cr: "Create e me gname (s\<lparr>s_this := new_guild\<rparr>) = Some (made, s3)"
    using h False by (auto simp: HandleGuildCreateOpcode_def bind_eq_Some_conv)
  note f = Create_founds [OF assms(1) c nx p n cr]
  then have "AddGuild e s3 = Some s'" using h False cr by (simp add: HandleGuildCreateOpcode_def)
  then show ?thesis using closed_AddGuild [OF assms(1)] f by blast
qed

section \<open>Players come and go\<close>

lemma find_row:
  "map_of (map row_core rows) k = map_option (\<lambda>r. (mb_guildid r, mb_rank r)) (find (\<lambda>r. mb_guid r = k) rows)"
  by (induction rows) (auto simp: row_core_def)

lemma closed_player:
  assumes c: "closed c" and p: "\<And>p. p \<noteq> g \<Longrightarrow> P p = sc_players c p" "\<And>x. P g = Some x \<Longrightarrow> player_fine g x"
    and gid: "\<And>x gid. P g = Some x \<Longrightarrow> ranks_of (sc_guilds c) gid (GetCounter g) \<noteq> None \<Longrightarrow> fst x = gid"
  shows "closed (c\<lparr>sc_players := P\<rparr>)"
proof -
  have l: "linked (ranks_of (sc_guilds c)) c" using c by (simp add: closed_def)
  have "linked (ranks_of (sc_guilds c)) (c\<lparr>sc_players := P\<rparr>)"
  proof (rule linkedI)
    show "fst x = gid'" if "ranks_of (sc_guilds c) gid' k \<noteq> None" "sc_players (c\<lparr>sc_players := P\<rparr>) (player_guid k) = Some x" for k gid' x
    proof (cases "player_guid k = g")
      case True
      then have "k = GetCounter g" by (metis GetCounter_player_guid)
      then show ?thesis using gid that True by simp
    next
      case False
      then show ?thesis using linkedD(4) [OF l that(1)] that(2) p(1) by simp
    qed
    show "player_fine q x" if "sc_players (c\<lparr>sc_players := P\<rparr>) q = Some x" for q x
      using that p linkedD(5) [OF l] by (cases "q = g") simp_all
  qed (use linkedD [OF l] in simp_all)
  then show ?thesis using c by (simp add: closed_def)
qed

lemma loaded_guild:
  assumes c: "closed (score s)" and "p1 = LoadGuild (find (\<lambda>r. mb_guid r = k) (t_member (s_db s))) s p"
  shows "small (pl_rank (gp_player p1))" "ranks_of (sc_guilds (score s)) gid k \<noteq> None \<Longrightarrow> gp_guildId p1 = gid"
proof -
  have l: "linked (ranks_of (sc_guilds (score s))) (score s)" using c by (simp add: closed_def)
  let ?r = "find (\<lambda>r. mb_guid r = k) (t_member (s_db s))"
  have rows: "map_of (sc_rows (score s)) k = map_option (\<lambda>r. (mb_guildid r, mb_rank r)) ?r"
    by (simp add: score_def find_row)
  have "small (pl_rank (gp_player p1)) \<and> (ranks_of (sc_guilds (score s)) gid k \<noteq> None \<longrightarrow> gp_guildId p1 = gid)"
  proof (cases ?r)
    case None
    then have "gp_guildId p1 = 0" "pl_rank (gp_player p1) = 0"
      by (simp_all add: assms(2) LoadGuild_def SetRank_def SetInGuild_def Let_def)
    moreover have "ranks_of (sc_guilds (score s)) gid k = None" using rows None linkedD(3) [OF l, of k gid] by fastforce
    ultimately show ?thesis by (simp add: small_def)
  next
    case (Some r)
    then have "ranks_of (sc_guilds (score s)) (mb_guildid r) k = Some (mb_rank r)" using rows linkedD(3) [OF l] by simp
    then obtain g where g: "sc_guilds (score s) (mb_guildid r) = Some g" "ranks_in g k = Some (mb_rank r)"
      by (auto simp: ranks_of_def bind_eq_Some_conv)
    then have "gcore_ok (mb_guildid r) g" using c by (simp add: closed_def)
    then have "small (mb_rank r)" "mb_guildid r \<noteq> 0" using g(2) by (auto simp: gcore_ok_def)
    moreover have "GetGuildById (mb_guildid r) s \<noteq> None" using g(1) by (auto simp: score_def GetGuildById_def)
    then have "gp_guildId p1 = mb_guildid r" "pl_rank (gp_player p1) = mb_rank r"
      using Some by (auto simp: assms(2) LoadGuild_def SetRank_def SetInGuild_def Let_def)
    moreover have "mb_guildid r = gid" if "ranks_of (sc_guilds (score s)) gid k \<noteq> None"
      using linked_unique [OF l _ that] \<open>ranks_of _ (mb_guildid r) k = _\<close> by simp
    ultimately show ?thesis by simp
  qed
  then show "small (pl_rank (gp_player p1))" "ranks_of (sc_guilds (score s)) gid k \<noteq> None \<Longrightarrow> gp_guildId p1 = gid"
    by blast+
qed

lemma keeps_login:
  assumes c: "closed (score s)" and g: "\<not> IsEmpty g" "g = player_guid (GetCounter g)"
  shows "closed (score (HandlePlayerLogin e g p m s))"
proof -
  define p1 where "p1 = LoadGuild (find (\<lambda>r. mb_guid r = GetCounter g) (t_member (s_db s))) s p"
  define s1 where "s1 = login_master g p1 m (s\<lparr>s_players := (s_players s)(g \<mapsto> p1)\<rparr>)"
  have "score s1 = (score s)\<lparr>sc_players := (sc_players (score s))(g \<mapsto> player_core p1)\<rparr>"
    by (auto simp: s1_def login_master_def score_def fun_eq_iff split: option.split)
  moreover have "closed ((score s)\<lparr>sc_players := (sc_players (score s))(g \<mapsto> player_core p1)\<rparr>)"
  proof (rule closed_player [OF c])
    show "player_fine g x" if "((sc_players (score s))(g \<mapsto> player_core p1)) g = Some x" for x
      using that loaded_guild(1) [OF c p1_def] g by (auto simp: player_fine_def player_core_def)
    show "fst x = gid" if "((sc_players (score s))(g \<mapsto> player_core p1)) g = Some x"
      "ranks_of (sc_guilds (score s)) gid (GetCounter g) \<noteq> None" for x gid
      using that(1) loaded_guild(2) [OF c p1_def that(2)] by (auto simp: player_core_def)
  qed simp
  ultimately have "closed (score s1)" by simp
  then have "closed (score (with_guild (gp_guildId p1) id (\<lambda>s.
           AddToCache e (GetCounter g)
             (BroadcastEvent GE_SIGNED_ON g [pl_name (gp_player p1)]
               (SendPacket g (Packet SMSG_GUILD_EVENT [F8 GE_MOTD, F8 1, FString (g_motd (s_this s))]) s))) s1))"
    by (rule quiet_with) simp_all
  then show ?thesis by (simp add: HandlePlayerLogin_def Let_def p1_def s1_def)
qed

lemma keeps_logout: "closed (score s) \<Longrightarrow> closed (score (LogoutPlayer e g s))"
proof (cases "s_players s g")
  case (Some p)
  assume c: "closed (score s)"
  define s1 where "s1 = with_guild (gp_guildId p) id (\<lambda>s. BroadcastEvent GE_SIGNED_OFF g [pl_name (gp_player p)]
    (case GetMemberSlot g (s_this s) of None \<Rightarrow> s | Some k \<Rightarrow> upd_slot k (UpdateLogoutTime e \<circ> SetMemberStats p) s)) s"
  define s2 where "s2 = s1\<lparr>s_players := (s_players s1)(g := None)\<rparr>"
  have "closed (score s1)" unfolding s1_def using c
    by (rule quiet_with) (auto simp: score_upd_slot UpdateLogoutTime_def SetMemberStats_def split: option.split)
  moreover have "score s2 = (score s1)\<lparr>sc_players := (sc_players (score s1))(g := None)\<rparr>"
    by (auto simp: s2_def score_def fun_eq_iff)
  ultimately have c2: "closed (score s2)" using closed_player [of "score s1" g "(sc_players (score s1))(g := None)"] by simp
  have "score (t\<lparr>s_masters := M\<rparr>) = score t" for t M by (simp add: score_def)
  then have "closed (score ((with_guild gid id (RemoveFromCache k) s2)\<lparr>s_masters := M\<rparr>))" for gid k M
    using quiet_with [OF c2, of id "RemoveFromCache k" gid] by simp
  moreover have "LogoutPlayer e g s = (case s_masters s2 g of None \<Rightarrow> s2 | Some m \<Rightarrow>
      (with_guild (mp_guildId m) id (RemoveFromCache (GetCounter g)) s2)\<lparr>s_masters := (s_masters s2)(g := None)\<rparr>)"
    unfolding LogoutPlayer_def Let_def s2_def s1_def Some option.case by (rule refl)
  ultimately show ?thesis using c2 by (simp split: option.split)
qed (simp add: LogoutPlayer_def)

lemma ucast_player_guid: "ucast (player_guid k) = k"
  by (auto simp: player_guid_def ObjectGuid2_def bit_simps intro!: bit_word_eqI)

lemma score_DeletePetition [simp]: "score (DeletePetition pid s) = score s"
  by (simp add: DeletePetition_def Petition_Delete_def score_upd_db) (simp add: score_def)

lemma keeps_delete:
  assumes c: "closed (score s)" and g: "g = player_guid (GetCounter g)"
  shows "closed (score (DeleteFromDB g s))"
proof -
  have "closed (score (case GetPlayerGuild (ucast g) s of
                  None \<Rightarrow> s
                | Some gd \<Rightarrow> with_guild (g_Id gd) id (\<lambda>s. case DelMember g False s of
                                                        (True, s') \<Rightarrow> Disband s' | (False, s') \<Rightarrow> s') s))"
  proof (cases "GetPlayerGuild (ucast g) s")
    case (Some gd)
    have k: "ucast g = GetCounter g" using g ucast_player_guid by metis
    obtain gid where gid: "s_guid2guild s (GetCounter g) = Some gid" "GetGuildById gid s = Some gd"
      using Some k by (auto simp: GetPlayerGuild_def bind_eq_Some_conv)
    have l: "linked (ranks_of (sc_guilds (score s))) (score s)" using c by (simp add: closed_def)
    have "sc_index (score s) (GetCounter g) = Some gid" using gid(1) by (simp add: score_def)
    then have "ranks_of (sc_guilds (score s)) gid (GetCounter g) \<noteq> None" using linkedD(1) [OF l] by blast
    then have m: "get_slot (GetCounter g) (s\<lparr>s_this := gd\<rparr>) \<noteq> None"
      using gid(2) by (auto simp: ranks_of_def ranks_in_def score_def GetGuildById_def gcore_of_def get_slot_def)
    have id: "g_Id gd = gid" using open_guild [OF c gid(2)] opened_id by (fastforce simp: score_def gcore_of_def)
    show ?thesis unfolding Some option.case id
    proof (rule with_guild_keeps [OF c])
      fix g'
      assume g': "GetGuildById gid s = Some g'" and o: "opened gid (score (s\<lparr>s_this := g'\<rparr>))"
      have "only_here (GetCounter g) (score (s\<lparr>s_this := g'\<rparr>))"
        using only_here_member [OF opened_others [OF o]] m g' gid(2) by simp
      then show "fit gid (score (case DelMember g False (s\<lparr>s_this := g'\<rparr>) of (True, s') \<Rightarrow> Disband s' | (False, s') \<Rightarrow> s'))"
        using fit_DelMember [OF o g, of "\<lambda>s. s"] by simp
    qed (use c in simp)
  qed (use c in simp)
  then show ?thesis unfolding DeleteFromDB_def Let_def score_withdraw_signature by (auto split: option.split)
qed

lemma keeps_char_delete:
  "closed (score s) \<Longrightarrow> g = player_guid (GetCounter g) \<Longrightarrow> closed (score (HandleCharDeleteOpcode e account locked g s))"
  unfolding HandleCharDeleteOpcode_def using keeps_delete by (auto split: option.split)

lemma keeps_hardcore:
  assumes "closed (score s)"
  shows "closed (score (hardcore_succession g s))"
proof (cases "s_players s g")
  case (Some p)
  show ?thesis unfolding hardcore_succession_def Some option.case
  proof (rule with_guild_keeps [OF assms])
    fix gd
    let ?s = "s\<lparr>s_this := gd\<rparr>"
    assume o: "opened (gp_guildId p) (score ?s)"
    show "fit (gp_guildId p) (score (if g_LeaderGuid (s_this ?s) \<noteq> g then ?s
            else case GetSuitableNewLeader True (s_this ?s) of (Some new, old) \<Rightarrow> SetNewLeader new old ?s | (None, _) \<Rightarrow> ?s))"
    proof (cases "GetSuitableNewLeader True (s_this ?s)")
      case (Pair new old)
      have "opened (gp_guildId p) (score (SetNewLeader k old ?s))" if "new = Some k" for k
        using suitable_leader [of True ?s k old] Pair that opened_old_leader [OF o] opened_leader(1) [OF o] opened_SetNewLeader(1) [OF o]
        by auto
      then show ?thesis using o Pair by (auto simp: fit_opened split: option.split)
    qed
  qed (use assms in simp)
qed (use assms in \<open>simp add: hardcore_succession_def\<close>)

lemma score_chat [simp]:
  "score (BroadcastToGuild m msg l s) = score s" "score (BroadcastToOfficers m msg l s) = score s"
  by (simp_all add: BroadcastToGuild_def BroadcastToOfficers_def Let_def)

lemma keeps_chat:
  "closed (score s) \<Longrightarrow> closed (score (chat_guild g msg l s))" "closed (score s) \<Longrightarrow> closed (score (chat_officer g msg l s))"
  by (auto simp: chat_guild_def chat_officer_def intro!: quiet_with split: option.split)

lemma score_saved_banks:
  assumes "GetGuildById gid s = Some g" "g_Bank g = Some b" "g_InfernoBank g = Some i" "s_guilds s2 = s_guilds s" "score s2 = score s"
  shows "score (s2\<lparr>s_guilds := um_update gid (\<lambda>g. g\<lparr>g_Bank := Some b', g_InfernoBank := Some i'\<rparr>) (s_guilds s2)\<rparr>) = score s"
proof -
  let ?f = "\<lambda>g. g\<lparr>g_Bank := Some b', g_InfernoBank := Some i'\<rparr>"
  have "gcore_of (?f g) = gcore_of g" using assms(2,3) by (simp add: gcore_of_def)
  then have "map_option gcore_of (um_find k (um_update gid ?f (s_guilds s))) = map_option gcore_of (um_find k (s_guilds s))" for k
    using assms(1) by (simp add: GetGuildById_def)
  then show ?thesis using assms(4,5) by (simp add: score_def)
qed

lemma save_banks_step:
  assumes "GetGuildById gid s = Some g" "g_Bank g = Some b" "g_InfernoBank g = Some i"
    and "on_bank SaveToDB b s = (b', s1)" "on_bank SaveToDB i s1 = (i', s2)"
  shows "save_banks (gid # gids) s =
    save_banks gids (s2\<lparr>s_guilds := um_update gid (\<lambda>g. g\<lparr>g_Bank := Some b', g_InfernoBank := Some i'\<rparr>) (s_guilds s2)\<rparr>)"
  using assms by simp

lemma save_banks_quiet: "closed (score s) \<Longrightarrow> \<exists>s'. save_banks gids s = Some s' \<and> score s' = score s"
proof (induction gids arbitrary: s)
  case (Cons gid gids)
  show ?case
  proof (cases "GetGuildById gid s")
    case (Some g)
    then have "gcore_ok gid (gcore_of g)" using Cons.prems by (simp add: closed_def score_def GetGuildById_def)
    then obtain b i where b: "g_Bank g = Some b" "g_InfernoBank g = Some i" by (auto simp: gcore_ok_def gcore_of_def)
    obtain b' s1 i' s2 where o: "on_bank SaveToDB b s = (b', s1)" "on_bank SaveToDB i s1 = (i', s2)" by fastforce
    then have "s_guilds s2 = s_guilds s \<and> score s2 = score s" by (auto simp: on_bank_def Let_def upd_db_def score_def)
    then have sv: "score (s2\<lparr>s_guilds := um_update gid (\<lambda>g. g\<lparr>g_Bank := Some b', g_InfernoBank := Some i'\<rparr>) (s_guilds s2)\<rparr>) = score s"
      using score_saved_banks [OF Some b] by blast
    show ?thesis unfolding save_banks_step [OF Some b o] using Cons.IH Cons.prems sv by metis
  qed (use Cons in simp)
qed simp

lemma keeps_update:
  assumes "closed (score s)"
  shows "\<exists>s'. GuildMgr_Update e diff s = Some s' \<and> closed (score s')"
proof -
  have t: "score (s\<lparr>s_bankSaveTimer := x\<rparr>) = score s" for x by (simp add: score_def)
  then have "\<exists>s1. SaveGuildBanks s = Some s1 \<and> score s1 = score s"
    using assms save_banks_quiet [of "s\<lparr>s_bankSaveTimer := GUILD_BANK_SAVE_INTERVAL\<rparr>"] unfolding SaveGuildBanks_def by simp
  then obtain s1 where s1: "(if s_bankSaveTimer s < diff then SaveGuildBanks s
      else Some (s\<lparr>s_bankSaveTimer := s_bankSaveTimer s - diff\<rparr>)) = Some s1" "score s1 = score s"
    using t by (cases "s_bankSaveTimer s < diff") auto
  have "closed (score t) \<Longrightarrow> closed (score (fold (\<lambda>gid. with_guild gid id (UpdateCaches e diff)) gids t))" for gids t
    by (induction gids arbitrary: t) (simp_all add: quiet_with)
  then show ?thesis using s1 assms by (simp add: GuildMgr_Update_def)
qed

section \<open>Runs\<close>

text \<open>
  One packet, login, logout, deletion, death or update. The environment may differ from step to step; ids of guilds
  have not run out. A player changes in other ways too, such as leaving the world for a
  teleport (\<open>moves\<close>), with his guild and rank kept.
\<close>

inductive guild_step :: "gs \<Rightarrow> gs \<Rightarrow> bool" where
  query: "guild_step s (HandleGuildQueryOpcode me gid s)"
| info: "guild_step s (HandleGuildInfoOpcode me s)"
| roster: "guild_step s (HandleGuildRosterOpcode e me s)"
| create: "env_ok e \<Longrightarrow> s_nextGuildId s \<noteq> - 1 \<Longrightarrow> HandleGuildCreateOpcode e me gname s = Some s' \<Longrightarrow> guild_step s s'"
| invite: "guild_step s (HandleGuildInviteOpcode e me name s)"
| accept: "env_ok e \<Longrightarrow> guild_step s (HandleGuildAcceptOpcode e me s)"
| decline: "guild_step s (HandleGuildDeclineOpcode me s)"
| remove: "guild_step s (HandleGuildRemoveOpcode e me name s)"
| leave: "guild_step s (HandleGuildLeaveOpcode e me s)"
| disband: "guild_step s (HandleGuildDisbandOpcode me s)"
| promote: "guild_step s (HandleGuildPromoteOpcode e me name s)"
| demote: "guild_step s (HandleGuildDemoteOpcode e me name s)"
| leader: "guild_step s (HandleGuildLeaderOpcode me name s)"
| motd: "guild_step s (HandleGuildMOTDOpcode me text s)"
| public_note: "guild_step s (HandleGuildSetPublicNoteOpcode e me name note s)"
| officer_note: "guild_step s (HandleGuildSetOfficerNoteOpcode e me name note s)"
| rank: "guild_step s (HandleGuildRankOpcode e me i rights rname s)"
| add_rank: "guild_step s (HandleGuildAddRankOpcode e me rname s)"
| del_rank: "HandleGuildDelRankOpcode e me s = Some s' \<Longrightarrow> guild_step s s'"
| info_text: "guild_step s (HandleGuildChangeInfoTextOpcode me text s)"
| emblem: "guild_step s (HandleSaveGuildEmblemOpcode e me vendor em s)"
| login: "s_players s g = None \<Longrightarrow> \<not> IsEmpty g \<Longrightarrow> g = player_guid (GetCounter g) \<Longrightarrow> guild_step s (HandlePlayerLogin e g p m s)"
| logout: "guild_step s (LogoutPlayer e g s)"
| char_delete: "g = player_guid (GetCounter g) \<Longrightarrow> guild_step s (HandleCharDeleteOpcode e account locked g s)"
| death: "guild_step s (hardcore_succession g s)"
| chat: "guild_step s (chat_guild g msg l s)"
| officer_chat: "guild_step s (chat_officer g msg l s)"
| update: "GuildMgr_Update e diff s = Some s' \<Longrightarrow> guild_step s s'"
| moves: "(\<And>p. gp_guildId (f p) = gp_guildId p \<and> pl_rank (gp_player (f p)) = pl_rank (gp_player p)) \<Longrightarrow>
    guild_step s (upd_gplayer g f s)"

lemma keeps_moves:
  assumes c: "closed (score s)" and f: "\<And>p. gp_guildId (f p) = gp_guildId p \<and> pl_rank (gp_player (f p)) = pl_rank (gp_player p)"
  shows "closed (score (upd_gplayer g f s))"
proof -
  let ?P = "(sc_players (score s))(g := map_option (player_core \<circ> f) (s_players s g))"
  have l: "linked (ranks_of (sc_guilds (score s))) (score s)" using c by (simp add: closed_def)
  have old: "sc_players (score s) g = map_option player_core (s_players s g)" by (simp add: score_def)
  have sc: "score (upd_gplayer g f s) = (score s)\<lparr>sc_players := ?P\<rparr>"
    by (auto simp: upd_gplayer_def score_def fun_eq_iff option.map_comp comp_def)
  show ?thesis unfolding sc
  proof (rule closed_player [OF c])
    show "player_fine g x" if "?P g = Some x" for x
      using that linkedD(5) [OF l, of g] old f by (auto simp: player_fine_def player_core_def)
    show "fst x = gid" if x: "?P g = Some x" and m: "ranks_of (sc_guilds (score s)) gid (GetCounter g) \<noteq> None" for x gid
    proof -
      obtain p where p: "s_players s g = Some p" "x = player_core (f p)" using x by auto
      then have g: "player_guid (GetCounter g) = g" using player_valid [OF l p(1)] by simp
      have "gp_guildId p = gid" using linkedD(4) [OF l m, of "player_core p"] old p(1) g by (simp add: player_core_def)
      then show ?thesis using p(2) f by (simp add: player_core_def)
    qed
  qed simp
qed

lemma guild_step_keeps: "guild_step s s' \<Longrightarrow> closed (score s) \<Longrightarrow> closed (score s')"
proof (induction rule: guild_step.induct)
  case (del_rank e me s s')
  then show ?case using keeps_del_rank by (metis option.inject)
next
  case (create e s me gname s')
  then show ?case using keeps_create by blast
next
  case (update e diff s s')
  then show ?case using keeps_update by (metis option.inject)
qed (blast intro: keeps_information keeps_invite keeps_accept keeps_decline keeps_remove keeps_leave keeps_disband keeps_promote
    keeps_demote keeps_leader keeps_texts keeps_add_rank keeps_emblem keeps_login keeps_logout keeps_char_delete keeps_hardcore
    keeps_chat keeps_moves)+

interpretation guilds: conserving guild_step guilds_ok "\<lambda>_. ()"
  by unfold_locales (simp add: guilds_ok_def guild_step_keeps)

end
