(* ===== verification/Guild_Sample.thy ===== *)
theory Guild_Sample
  imports Guild_Life Bank_Stock
begin

text \<open>A server with one guild of three members, of which the leader and an officer are connected.\<close>

definition sample_member :: "u32 \<Rightarrow> string \<Rightarrow> u32 \<Rightarrow> member_slot" where
  "sample_member k name r = \<lparr>ms_guid = player_guid k, ms_accountId = k, ms_Name = name, ms_RankId = r, ms_Level = 60, ms_Class = 1,
     ms_ZoneId = 12, ms_LogoutTime = 0, ms_PublicNote = [], ms_OfficerNote = []\<rparr>"

definition sample_ranks :: "rank_info list" where
  "sample_ranks = map (\<lambda>(n, r). \<lparr>ri_Name = n, ri_Rights = r\<rparr>)
     [(''Guild Master'', GR_RIGHT_ALL), (''Officer'', GR_RIGHT_ALL), (''Veteran'', 0x43), (''Member'', 0x43), (''Initiate'', 0x43)]"

definition sample_guild :: guild where
  "sample_guild = new_guild\<lparr>g_Id := 7, g_Name := ''Keepers'', g_LeaderGuid := player_guid 10, g_Ranks := sample_ranks,
     g_members := [(10, sample_member 10 ''Anna'' 0), (11, sample_member 11 ''Bert'' 1), (12, sample_member 12 ''Cleo'' 4)],
     g_Bank := Some sample_bank, g_InfernoBank := Some sample_bank\<rparr>"

definition sample_gplayer :: "u32 \<Rightarrow> string \<Rightarrow> u32 \<Rightarrow> gplayer" where
  "sample_gplayer k name r = \<lparr>gp_player = sample_player\<lparr>pl_guid := player_guid k, pl_name := name, pl_rank := r, pl_inWorld := True\<rparr>,
     gp_guildId = 7, gp_GuildIdInvited = 0, gp_level = 60, gp_class = 1, gp_zone = 12, gp_account = k, gp_team = 469,
     gp_noSocials = False, gp_locale = 0, gp_ignores = []\<rparr>"

definition sample_tables :: guild_tables where
  "sample_tables = \<lparr>t_guild = [], t_member =
      [\<lparr>mb_guildid = 7, mb_guid = 10, mb_rank = 0, mb_pnote = [], mb_offnote = []\<rparr>,
       \<lparr>mb_guildid = 7, mb_guid = 11, mb_rank = 1, mb_pnote = [], mb_offnote = []\<rparr>,
       \<lparr>mb_guildid = 7, mb_guid = 12, mb_rank = 4, mb_pnote = [], mb_offnote = []\<rparr>],
     t_rank = [], t_eventlog = [], t_petition = [], t_sign = [], t_banks = gb_db sample_bank\<rparr>"

definition sample_server :: gs where
  "sample_server = \<lparr>s_this = new_guild, s_guilds = [(7, sample_guild)],
     s_guid2guild = [10 \<mapsto> 7, 11 \<mapsto> 7, 12 \<mapsto> 7],
     s_players = [player_guid 10 \<mapsto> sample_gplayer 10 ''Anna'' 0, player_guid 11 \<mapsto> sample_gplayer 11 ''Bert'' 1],
     s_masters = Map.empty, s_petitions = [], s_nextGuildId = 8, s_nextPetitionId = 1, s_bankSaveTimer = 60000, s_db = sample_tables, s_out = [], s_hooks = []\<rparr>"

definition sample_env :: genv where
  "sample_env = \<lparr>ge_world = sample_world, ge_order = id, ge_sort = (\<lambda>ks. map snd (sort_key (unat \<circ> fst) (zip ks [0..<length ks]))),
     ge_escape = id, ge_onAddMember = id, ge_names = Map.empty, ge_cache = Map.empty, ge_text = (\<lambda>_ _. []), ge_eventLogCount = 100,
     ge_minSigns = 9, ge_twoSide = False, ge_date = (\<lambda>_. (1, 1, 2020)), ge_days = (\<lambda>_. 0), ge_characters = Map.empty,
     ge_zoneFromDB = (\<lambda>_. 0), ge_newBank = (\<lambda>_. sample_bank)\<rparr>"

lemma sample_env_ok: "env_ok sample_env"
  by (simp add: env_ok_def sample_env_def)

lemma sample_mem:
  "um_find k (g_members sample_guild) =
     (if k = 10 then Some (sample_member 10 ''Anna'' 0) else if k = 11 then Some (sample_member 11 ''Bert'' 1)
      else if k = 12 then Some (sample_member 12 ''Cleo'' 4) else None)"
  by (auto simp: sample_guild_def um_find_def)

lemma sample_core: "gcore_of sample_guild = \<lparr>gc_id = 7, gc_leader = player_guid 10,
    gc_mem = [10 \<mapsto> (player_guid 10, 0), 11 \<mapsto> (player_guid 11, 1), 12 \<mapsto> (player_guid 12, 4)], gc_ranks = 5, gc_banks = True\<rparr>"
  by (auto simp: gcore_of_def sample_mem sample_member_def fun_eq_iff) (simp_all add: sample_guild_def sample_ranks_def)

lemma sample_ranks_of:
  "ranks_of (sc_guilds (score sample_server)) gid k =
     (if gid = 7 then if k = 10 then Some 0 else if k = 11 then Some 1 else if k = 12 then Some 4 else None else None)"
  by (auto simp: ranks_of_def ranks_in_def score_def sample_server_def um_find_def sample_core)

lemma player_guid_inj [simp]: "player_guid a = player_guid b \<longleftrightarrow> a = b"
  by (metis GetCounter_player_guid)

lemma player_guid_nonempty: "\<not> IsEmpty (player_guid k) \<longleftrightarrow> k \<noteq> 0"
proof -
  have "player_guid 0 = 0" by (simp add: player_guid_def ObjectGuid2_def)
  then show ?thesis using player_guid_inj [of k 0] by (simp add: IsEmpty_def)
qed

lemma sample_players:
  "sc_players (score sample_server) p =
     (if p = player_guid 10 then Some (7, True, 0) else if p = player_guid 11 then Some (7, True, 1) else None)"
  by (auto simp: score_def sample_server_def sample_gplayer_def player_core_def)

lemma sample_rows: "sc_rows (score sample_server) = [(10, 7, 0), (11, 7, 1), (12, 7, 4)]"
  by (simp add: score_def sample_server_def sample_tables_def row_core_def)

lemma sample_ok: "guilds_ok sample_server"
  unfolding guilds_ok_def closed_def
proof (intro conjI allI impI)
  show "linked (ranks_of (sc_guilds (score sample_server))) (score sample_server)"
    by (rule linkedI) (auto simp: sample_ranks_of sample_rows sample_players player_fine_def player_guid_nonempty small_def
        split: if_splits, simp_all add: score_def sample_server_def)
  fix gid g assume "sc_guilds (score sample_server) gid = Some g"
  then have g: "gid = 7" "g = gcore_of sample_guild" by (auto simp: score_def sample_server_def um_find_def split: if_splits)
  show "gcore_ok gid g" by (auto simp: g gcore_ok_def sample_core ranks_in_def small_def split: if_splits)
  show "gid < sc_next (score sample_server)" by (simp add: g score_def sample_server_def)
qed (simp add: score_def sample_server_def)

end
