(* ===== verification/Guild_Props.thy ===== *)
theory Guild_Props
  imports Guild_Sample Guild_Load
begin

text \<open>The properties of guilds: runs, who may change whom, repair at load, the event log, disbanding.\<close>

section \<open>Runs\<close>

text \<open>C1: along every run of guild packets, logins, logouts, deletions and deaths, in any order, each guild has one
  guild master, who is its leader, and five to ten ranks; the index of the guild manager and the table \<^verbatim>\<open>guild_member\<close> hold
  exactly the members of the guild with their ranks; and a member who is connected carries the id of this guild.\<close>

theorem guild_runs_keep:
  assumes "guilds_ok s" and "guild_step\<^sup>*\<^sup>* s s'" and "GetGuildById gid s' = Some g"
  shows "(\<exists>!k. map_option ms_RankId (um_find k (g_members g)) = Some GR_GUILDMASTER) \<and>
     GetRank (g_LeaderGuid g) g = GR_GUILDMASTER \<and>
     GUILD_RANKS_MIN_COUNT \<le> length (g_Ranks g) \<and> length (g_Ranks g) \<le> GUILD_RANKS_MAX_COUNT \<and>
     (s_guid2guild s' k = Some gid \<longleftrightarrow> um_find k (g_members g) \<noteq> None) \<and>
     ((k, gid, r) \<in> set (map row_core (t_member (s_db s'))) \<longleftrightarrow> map_option ms_RankId (um_find k (g_members g)) = Some r) \<and>
     (um_find k (g_members g) \<noteq> None \<longrightarrow> list_all (\<lambda>p. gp_guildId p = gid) (case s_players s' (player_guid k) of None \<Rightarrow> [] | Some p \<Rightarrow> [p]))"
proof -
  have c: "closed (score s')" using guilds.run_keeps [OF assms(2,1)] by (simp add: guilds_ok_def)
  then have l: "linked (ranks_of (sc_guilds (score s'))) (score s')" by (simp add: closed_def)
  have g: "sc_guilds (score s') gid = Some (gcore_of g)" using assms(3) by (simp add: score_def GetGuildById_def)
  then have ok: "gcore_ok gid (gcore_of g)" using c by (simp add: closed_def)
  have r: "ranks_in (gcore_of g) = (\<lambda>k. map_option ms_RankId (um_find k (g_members g)))"
    by (simp add: fun_eq_iff ranks_in_def gcore_of_def option.map_comp comp_def)
  have ro: "ranks_of (sc_guilds (score s')) gid k = map_option ms_RankId (um_find k (g_members g))" for k
    by (simp add: ranks_of_def g r)
  have m: "map_option ms_RankId (um_find k (g_members g)) = Some GR_GUILDMASTER \<longleftrightarrow> k = GetCounter (g_LeaderGuid g)" for k
    using gcore_ok_master [OF ok] unfolding r by (simp add: gcore_of_def)
  have "GetRank (g_LeaderGuid g) g = GR_GUILDMASTER"
    using m [of "GetCounter (g_LeaderGuid g)"] by (auto simp: GetRank_def)
  moreover have "GUILD_RANKS_MIN_COUNT \<le> length (g_Ranks g) \<and> length (g_Ranks g) \<le> GUILD_RANKS_MAX_COUNT"
    using ok by (simp add: gcore_ok_def gcore_of_def)
  moreover have "s_guid2guild s' k = Some gid \<longleftrightarrow> um_find k (g_members g) \<noteq> None"
    using linkedD(1) [OF l, of k gid] ro [of k] by (simp add: score_def)
  moreover have "(k, gid, r) \<in> set (map row_core (t_member (s_db s'))) \<longleftrightarrow> map_option ms_RankId (um_find k (g_members g)) = Some r"
    using linkedD(2,3) [OF l] ro [of k] by (simp add: score_def)
  moreover have "gp_guildId p = gid" if "um_find k (g_members g) \<noteq> None" "s_players s' (player_guid k) = Some p" for p
    using linkedD(4) [OF l, of gid k "player_core p"] ro [of k] that by (auto simp: score_def player_core_def)
  ultimately show ?thesis using m by (auto split: option.split)
qed

theorem guild_runs_keep_witness:
  "\<exists>g. GetGuildById 7 (hardcore_succession (player_guid 10) sample_server) = Some g \<and> g_LeaderGuid g = player_guid 11 \<and>
     (\<exists>!k. map_option ms_RankId (um_find k (g_members g)) = Some GR_GUILDMASTER)"
proof -
  let ?s = "hardcore_succession (player_guid 10) sample_server"
  have run: "guild_step\<^sup>*\<^sup>* sample_server ?s" by (intro r_into_rtranclp death)
  have "map_option g_LeaderGuid (GetGuildById 7 ?s) = Some (player_guid 11)" by code_simp
  then have "\<exists>g. GetGuildById 7 ?s = Some g \<and> g_LeaderGuid g = player_guid 11" by auto
  then show ?thesis using guild_runs_keep [OF sample_ok run] by blast
qed

section \<open>Who may change whom\<close>

definition member_rank :: "u32 \<Rightarrow> u32 \<Rightarrow> gs \<Rightarrow> u32 option" where
  "member_rank gid k s = Option.bind (GetGuildById gid s) (\<lambda>g. map_option ms_RankId (um_find k (g_members g)))"

lemma member_rank_core: "member_rank gid k s = ranks_of (sc_guilds (score s)) gid k"
  by (cases "um_find gid (s_guilds s)")
    (simp_all add: member_rank_def ranks_of_def ranks_in_def score_def GetGuildById_def gcore_of_def option.map_comp comp_def)

text \<open>The guild of the player is the one a handler works on; what it leaves of it is what the map holds.\<close>

lemma in_my_guild_rank:
  assumes "member_rank gid k (in_my_guild me f s) \<noteq> member_rank gid k s"
    and "\<And>g. GetGuildById (my_guild me s) s = Some g \<Longrightarrow> sc_guilds (score (f (s\<lparr>s_this := g\<rparr>))) = sc_guilds (score s)"
  obtains g where "GetGuildById (my_guild me s) s = Some g" "gid = my_guild me s"
    "member_rank gid k (in_my_guild me f s) = map_option ms_RankId (get_slot k (f (s\<lparr>s_this := g\<rparr>)))"
proof -
  have "GetGuildById (my_guild me s) s \<noteq> None"
  proof
    assume "GetGuildById (my_guild me s) s = None"
    then have "score (in_my_guild me f s) = score s" by (simp add: in_my_guild_def with_guild_def)
    then show False using assms(1) by (simp add: member_rank_core)
  qed
  then obtain g where g: "GetGuildById (my_guild me s) s = Some g" by blast
  let ?t = "f (s\<lparr>s_this := g\<rparr>)"
  have h: "sc_guilds (score s) (my_guild me s) \<noteq> None" using g by (simp add: score_def GetGuildById_def)
  have "sc_guilds (score (in_my_guild me f s)) = (sc_guilds (score ?t))(my_guild me s :=
      map_option (\<lambda>_. sc_this (score ?t)) (sc_guilds (score ?t) (my_guild me s)))"
    by (auto simp: in_my_guild_def with_guild_def g store_guild_def score_def fun_eq_iff option.map_comp comp_def)
  then have sc: "sc_guilds (score (in_my_guild me f s)) = (sc_guilds (score s))(my_guild me s \<mapsto> sc_this (score ?t))"
    using assms(2) [OF g] h by auto
  then have "gid = my_guild me s"
    using assms(1) by (cases "gid = my_guild me s") (simp_all add: member_rank_core ranks_of_def)
  moreover have "member_rank (my_guild me s) k (in_my_guild me f s) = map_option ms_RankId (get_slot k ?t)"
    using sc by (simp add: member_rank_core ranks_of_def ranks_in_score)
  ultimately show thesis using that g by blast
qed

text \<open>
  \<open>t\<close> differs from \<open>s\<close> in the rank of at most one member, and then the player \<open>me\<close> has the right and a higher rank
  than this member before and after.
\<close>

definition lawful :: "guid \<Rightarrow> u32 \<Rightarrow> gs \<Rightarrow> gs \<Rightarrow> bool" where
  "lawful me right s t \<longleftrightarrow> sc_guilds (score t) = sc_guilds (score s) \<and>
     (ranks_in (sc_this (score t)) = ranks_in (sc_this (score s)) \<or>
      HasRankRight (my_rank me s) right (s_this s) \<and>
      (\<exists>k m x. get_slot k s = Some m \<and> my_rank me s < ms_RankId m \<and> (\<forall>r. x = Some r \<longrightarrow> my_rank me s < r) \<and>
         ranks_in (sc_this (score t)) = (ranks_in (sc_this (score s)))(k := x)))"

lemma lawful_quiet: "score t = score s \<Longrightarrow> lawful me right s t"
  by (simp add: lawful_def)

lemma lawful_needs:
  "(HasRankRight (my_rank me s) right (s_this s) \<Longrightarrow> lawful me right s (f s)) \<Longrightarrow> lawful me right s (need_right me right f s)"
  "(\<And>k m. get_slot k s = Some m \<Longrightarrow> lawful me right s (h k m s)) \<Longrightarrow> lawful me right s (need_member me name h s)"
  by (auto simp: need_right_def need_member_def lawful_quiet split: option.split)

lemma lawful_score: "lawful me right s t \<Longrightarrow> score t' = score t \<Longrightarrow> lawful me right s t'"
  by (simp add: lawful_def)

lemma lawful_ChangeRank:
  assumes "opened gid (score s)" and "get_slot k s = Some m" and "HasRankRight (my_rank me s) right (s_this s)"
    and "my_rank me s < ms_RankId m" "my_rank me s < r"
  shows "lawful me right s (ChangeRank k r s)"
proof -
  have "ranks_in (sc_this (score (ChangeRank k r s))) = (ranks_in (sc_this (score s)))(k := Some r)"
    "sc_guilds (score (ChangeRank k r s)) = sc_guilds (score s)"
    by (simp_all add: score_ChangeRank' [OF assms(2) opened_guid [OF assms(1,2)]])
  moreover have "\<forall>x. Some r = Some x \<longrightarrow> my_rank me s < x" using assms(5) by simp
  ultimately show ?thesis unfolding lawful_def using assms(2-4) by blast
qed

lemma promote_above:
  assumes "small a" and "\<not> a + 1 \<ge> r"
  shows "a < r \<and> a < r - 1"
proof -
  have "unat (a + 1) = unat a + 1" using assms(1) by (simp add: unat_word_ariths small_def)
  then have r: "unat a + 1 < unat r" using assms(2) by (simp add: word_le_nat_alt)
  moreover have "unat (r - 1) = unat r - unat (1 :: u32)" using r by (intro unat_sub) (simp add: word_le_nat_alt)
  ultimately show ?thesis by (simp add: word_less_nat_alt)
qed

lemma demote_above:
  assumes "\<not> a \<ge> r" and "\<not> r \<ge> low" and "unat low \<le> 255"
  shows "a < r \<and> a < r + (1 :: u32)"
proof -
  have r: "unat r < unat low" "unat a < unat r" using assms(1,2) by (simp_all add: word_le_nat_alt)
  then have "unat (r + 1) = unat r + 1" using assms(3) by (simp add: unat_word_ariths)
  then show ?thesis using r by (simp add: word_less_nat_alt)
qed

lemma lawful_DelMember:
  assumes o: "opened gid (score s)" and m: "get_slot k s = Some m" and h: "HasRankRight (my_rank me s) right (s_this s)"
    and r: "my_rank me s < ms_RankId m" "ms_RankId m \<noteq> GR_GUILDMASTER" and q: "\<And>t. score (h t) = score t"
  shows "lawful me right s (case DelMember (ms_guid m) False s of (True, s1) \<Rightarrow> Disband s1 | (False, s1) \<Rightarrow> h s1)"
proof -
  have g: "ms_guid m = player_guid k" using opened_guid [OF o m] .
  have n: "ms_guid m \<noteq> g_LeaderGuid (s_this s)" using opened_master [OF o m] r(2) by blast
  then have "g_members (s_this (forget_member (ms_guid m) False s)) \<noteq> []"
    using opened_forget [OF o, of "ms_guid m" False] g only_here_member [OF opened_others [OF o]] m by simp
  then have "DelMember (ms_guid m) False s = (False, forget_member (ms_guid m) False s)"
    using n by (auto simp: DelMember_def Let_def)
  then show ?thesis using m h r(1) g by (auto simp: lawful_def q score_forget_member)
qed

lemma lawful_promote:
  assumes "opened gid (score s)"
  shows "lawful me GR_RIGHT_PROMOTE s (need_right me GR_RIGHT_PROMOTE (need_member me name (\<lambda>k m s.
            if ms_guid m = me then SendGuildCommandResult me GUILD_INVITE_S [] ERR_GUILD_NAME_INVALID s
            else if my_rank me s + 1 \<ge> ms_RankId m
            then SendGuildCommandResult me GUILD_INVITE_S name ERR_GUILD_RANK_TOO_HIGH_S s
            else let newRankId = ms_RankId m - 1;
                     s1 = ChangeRank k newRankId s;
                     s2 = LogGuildEvent e GUILD_EVENT_LOG_PROMOTE_PLAYER me (ms_guid m) (ucast newRankId) s1
                 in BroadcastEvent GE_PROMOTION 0 [my_name me s2, name, GetRankName newRankId (s_this s2)] s2)) s)"
  unfolding Let_def
  by (intro lawful_needs) (auto intro: lawful_quiet lawful_score [OF lawful_ChangeRank [OF assms]]
      dest: promote_above [OF my_rank_small [OF opened_others [OF assms]]])

lemma lawful_demote:
  assumes "opened gid (score s)"
  shows "lawful me GR_RIGHT_DEMOTE s (need_right me GR_RIGHT_DEMOTE (need_member me name (\<lambda>k m s.
            if ms_guid m = me then SendGuildCommandResult me GUILD_INVITE_S [] ERR_GUILD_NAME_INVALID s
            else if my_rank me s \<ge> ms_RankId m
            then SendGuildCommandResult me GUILD_INVITE_S name ERR_GUILD_RANK_TOO_HIGH_S s
            else if ms_RankId m \<ge> GetLowestRank (s_this s)
            then SendGuildCommandResult me GUILD_INVITE_S name ERR_GUILD_RANK_TOO_LOW_S s
            else let newRankId = ms_RankId m + 1;
                     s1 = ChangeRank k newRankId s;
                     s2 = LogGuildEvent e GUILD_EVENT_LOG_DEMOTE_PLAYER me (ms_guid m) (ucast newRankId) s1
                 in BroadcastEvent GE_DEMOTION 0 [my_name me s2, name, GetRankName newRankId (s_this s2)] s2)) s)"
  unfolding Let_def
  by (intro lawful_needs) (auto intro: lawful_quiet lawful_score [OF lawful_ChangeRank [OF assms]]
      dest: demote_above [OF _ _ lowest_rank_bounds(1) [OF opened_core [OF assms]]])

lemma lawful_remove:
  assumes "opened gid (score s)"
  shows "lawful me GR_RIGHT_REMOVE s (need_right me GR_RIGHT_REMOVE (need_member me name (\<lambda>k m s.
            if ms_RankId m = GR_GUILDMASTER then SendGuildCommandResult me GUILD_QUIT_S [] ERR_GUILD_LEADER_LEAVE s
            else if my_rank me s \<ge> ms_RankId m
            then SendGuildCommandResult me GUILD_QUIT_S name ERR_GUILD_RANK_TOO_HIGH_S s
            else case DelMember (ms_guid m) False s of
                   (True, s1) \<Rightarrow> Disband s1
                 | (False, s1) \<Rightarrow>
                     BroadcastEvent GE_REMOVED 0 [name, my_name me s1]
                       (LogGuildEvent e GUILD_EVENT_LOG_UNINVITE_PLAYER me (ms_guid m) 0 s1))) s)"
  by (intro lawful_needs) (auto simp: not_le intro: lawful_quiet lawful_DelMember [OF assms])

lemma lawful_in_my_guild:
  assumes c: "closed (score s)" and f: "\<And>gid t. opened gid (score t) \<Longrightarrow> lawful me right t (f t)"
    and r: "member_rank gid k s = Some r" "member_rank gid k (in_my_guild me f s) \<noteq> Some r"
  shows "\<exists>g. GetGuildById gid s = Some g \<and> my_guild me s = gid \<and> HasRankRight (my_rank me s) right g \<and> my_rank me s < r \<and>
     (case member_rank gid k (in_my_guild me f s) of None \<Rightarrow> True | Some r' \<Rightarrow> my_rank me s < r')"
proof -
  let ?s = "\<lambda>g. s\<lparr>s_this := g\<rparr>"
  have law: "lawful me right (?s g) (f (?s g))" if "GetGuildById (my_guild me s) s = Some g" for g
    using f open_guild [OF c that] by blast
  obtain g where g: "GetGuildById (my_guild me s) s = Some g" "gid = my_guild me s"
    and m: "member_rank gid k (in_my_guild me f s) = map_option ms_RankId (get_slot k (f (?s g)))"
    using in_my_guild_rank [of gid k me f s] r law by (auto simp: lawful_def score_this)
  have old: "ranks_in (sc_this (score (?s g))) k = Some r"
    using r(1) g by (simp add: member_rank_def ranks_in_score get_slot_def)
  have new: "ranks_in (sc_this (score (f (?s g)))) k \<noteq> Some r" using r(2) m by (simp add: ranks_in_score)
  have my: "my_rank me (?s g) = my_rank me s" by (simp add: my_rank_def)
  obtain k' x m' where k': "HasRankRight (my_rank me s) right g" "get_slot k' (?s g) = Some m'" "my_rank me s < ms_RankId m'"
    "\<And>r. x = Some r \<Longrightarrow> my_rank me s < r" "ranks_in (sc_this (score (f (?s g)))) = (ranks_in (sc_this (score (?s g))))(k' := x)"
    using law [OF g(1)] old new unfolding lawful_def my by auto
  have "k' = k" using k'(5) old new by (metis fun_upd_other)
  moreover have "x = map_option ms_RankId (get_slot k (f (?s g)))" using k'(5) \<open>k' = k\<close> by (metis fun_upd_same ranks_in_score)
  ultimately show ?thesis using g k' old m by (auto simp: ranks_in_score split: option.split)
qed

text \<open>C5: the handlers that promote, demote and remove change the rank of a member, or remove him, only for a player of the same guild who
  has the right for it and outranks the member; and the member stays below this player. So no one can
  act on a member of his own rank or above, or raise anybody to his own rank.\<close>

theorem rank_changes_authorised:
  assumes "guilds_ok s"
    and "(s', right) \<in> {(HandleGuildPromoteOpcode e me name s, GR_RIGHT_PROMOTE),
           (HandleGuildDemoteOpcode e me name s, GR_RIGHT_DEMOTE), (HandleGuildRemoveOpcode e me name s, GR_RIGHT_REMOVE)}"
    and "member_rank gid k s = Some r" and "member_rank gid k s' \<noteq> Some r"
  shows "\<exists>g. GetGuildById gid s = Some g \<and> my_guild me s = gid \<and> HasRankRight (my_rank me s) right g \<and> my_rank me s < r \<and>
     (case member_rank gid k s' of None \<Rightarrow> True | Some r' \<Rightarrow> my_rank me s < r')"
proof -
  have c: "closed (score s)" using assms(1) by (simp add: guilds_ok_def)
  consider "s' = HandleGuildPromoteOpcode e me name s" "right = GR_RIGHT_PROMOTE"
    | "s' = HandleGuildDemoteOpcode e me name s" "right = GR_RIGHT_DEMOTE"
    | "s' = HandleGuildRemoveOpcode e me name s" "right = GR_RIGHT_REMOVE"
    using assms(2) by auto
  then show ?thesis
  proof cases
    case 1
    then obtain n where n: "normal_name name = Some n"
      using assms(3,4) by (cases "normal_name name") (simp_all add: HandleGuildPromoteOpcode_def)
    show ?thesis using assms(4) unfolding 1 HandleGuildPromoteOpcode_def n option.case
      by - (rule lawful_in_my_guild [OF c _ assms(3)], erule lawful_promote)
  next
    case 2
    then obtain n where n: "normal_name name = Some n"
      using assms(3,4) by (cases "normal_name name") (simp_all add: HandleGuildDemoteOpcode_def)
    show ?thesis using assms(4) unfolding 2 HandleGuildDemoteOpcode_def n option.case
      by - (rule lawful_in_my_guild [OF c _ assms(3)], erule lawful_demote)
  next
    case 3
    then obtain n p where n: "normal_name name = Some n" "s_players s me = Some p" "\<not> \<not> pl_inWorld (gp_player p)"
      using assms(3,4) by (auto simp: HandleGuildRemoveOpcode_def split: option.splits if_splits)
    show ?thesis using assms(4) unfolding 3 HandleGuildRemoveOpcode_def n(1,2) option.case prod.case if_not_P [OF n(3)]
      by - (rule lawful_in_my_guild [OF c _ assms(3)], erule lawful_remove)
  qed
qed

theorem rank_changes_authorised_witness:
  "member_rank 7 12 (HandleGuildPromoteOpcode sample_env (player_guid 11) ''cleo'' sample_server) = Some 3 \<and>
     my_rank (player_guid 11) sample_server < 4"
proof -
  let ?s = "HandleGuildPromoteOpcode sample_env (player_guid 11) ''cleo'' sample_server"
  have r: "member_rank 7 12 sample_server = Some 4" "member_rank 7 12 ?s = Some 3" by code_simp+
  then have "member_rank 7 12 ?s \<noteq> Some 4" by simp
  then show ?thesis
    using rank_changes_authorised [OF sample_ok insertI1 r(1)] r(2) by blast
qed

section \<open>The rank that was deleted\<close>

text \<open>C23: \<^verbatim>\<open>DelRank\<close> removes the last of more than five ranks from memory and from the table and leaves the members
  as they are; \<^verbatim>\<open>HasRankRight\<close>, which compares with the bits of \<^verbatim>\<open>GR_RIGHT_EMPTY\<close>, then grants a member of
  the deleted rank every right there is.\<close>

theorem DelRank_leaves_members:
  assumes "guilds_ok s" and "GetGuildById gid s = Some g" and "GUILD_RANKS_MIN_COUNT < length (g_Ranks g)"
  shows "\<exists>s'. DelRank (s\<lparr>s_this := g\<rparr>) = Some s' \<and> g_Ranks (s_this s') = butlast (g_Ranks g) \<and> g_members (s_this s') = g_members g \<and>
     list_all (\<lambda>r. rk_guildid r = gid \<longrightarrow> rk_rid r < GetLowestRank g) (t_rank (s_db s')) \<and>
     HasRankRight (GetLowestRank g) right (s_this s')"
proof -
  let ?s = "s\<lparr>s_this := g\<rparr>"
  have o: "opened gid (score ?s)" using open_guild assms(1,2) by (simp add: guilds_ok_def)
  then have id: "g_Id g = gid" using opened_id by (fastforce simp: score_def gcore_of_def)
  obtain b i where b: "g_Bank g = Some b" "g_InfernoBank g = Some i"
    using o by (auto simp: opened_def gcore_ok_def core_simps)
  have n: "length (g_Ranks g) \<le> 10" using opened_ranks [OF o] by simp
  obtain s' where s': "DelRank ?s = Some s'" "s_this s' = g\<lparr>g_Bank := g_Bank (s_this s'), g_InfernoBank := g_InfernoBank (s_this s'),
      g_Ranks := butlast (g_Ranks g)\<rparr>"
    "t_rank (s_db s') = delete_where (\<lambda>r. rk_rid r \<ge> GetLowestRank g \<and> rk_guildid r = g_Id g) (t_rank (s_db s))"
    using b assms(3) by (auto simp: DelRank_def Let_def on_bank_def upd_db_def upd_this_def case_prod_unfold)
  have "unat (word_of_nat (length (g_Ranks g)) - 1 :: u32) = unat (word_of_nat (length (g_Ranks g)) :: u32) - unat (1 :: u32)"
    using assms(3) n by (intro unat_sub) (simp add: word_le_nat_alt unat_of_nat take_bit_eq_mod)
  then have "unat (GetLowestRank g) = length (g_Ranks g) - 1"
    using n by (simp add: GetLowestRank_def unat_of_nat take_bit_eq_mod)
  moreover have "length (g_Ranks (s_this s')) = length (g_Ranks g) - 1" by (subst s'(2)) simp
  ultimately have "HasRankRight (GetLowestRank g) right (s_this s')"
    by (simp add: HasRankRight_def GetRankRights_def)
  moreover have "g_Ranks (s_this s') = butlast (g_Ranks g)" "g_members (s_this s') = g_members g"
    by (subst s'(2), simp)+
  moreover have "list_all (\<lambda>r. rk_guildid r = gid \<longrightarrow> rk_rid r < GetLowestRank g) (t_rank (s_db s'))"
    by (auto simp: s'(3) delete_where_def id list_all_iff not_le)
  ultimately show ?thesis using s'(1) by blast
qed

definition six_ranks :: gs where
  "six_ranks = sample_server\<lparr>s_guilds := [(7, sample_guild\<lparr>g_Ranks := sample_ranks @ [\<lparr>ri_Name = ''Trial'', ri_Rights = 0x40\<rparr>]\<rparr>)]\<rparr>"

lemma six_ranks_ok: "guilds_ok six_ranks"
proof -
  have "gcore_of (sample_guild\<lparr>g_Ranks := sample_ranks @ [x]\<rparr>) = (gcore_of sample_guild)\<lparr>gc_ranks := 6\<rparr>" for x
    by (simp add: gcore_of_def sample_ranks_def)
  then have sc: "score six_ranks = (score sample_server)\<lparr>sc_guilds := [7 \<mapsto> (gcore_of sample_guild)\<lparr>gc_ranks := 6\<rparr>]\<rparr>"
    by (auto simp: score_def six_ranks_def sample_server_def um_find_def fun_eq_iff)
  have "sc_guilds (score sample_server) = [7 \<mapsto> gcore_of sample_guild]"
    by (auto simp: score_def sample_server_def um_find_def fun_eq_iff)
  then have "ranks_of (sc_guilds (score six_ranks)) = ranks_of (sc_guilds (score sample_server))"
    by (auto simp: sc ranks_of_def ranks_in_def fun_eq_iff)
  moreover have "linked (ranks_of (sc_guilds (score sample_server))) (score six_ranks)"
    using sample_ok linked_cong [of "score six_ranks" "score sample_server"] by (simp add: guilds_ok_def closed_def sc)
  moreover have "gcore_ok 7 ((gcore_of sample_guild)\<lparr>gc_ranks := 6\<rparr>)"
    by (auto simp: gcore_ok_def sample_core ranks_in_def small_def split: if_splits)
  moreover have "sc_next (score sample_server) = 8" by (simp add: score_def sample_server_def)
  ultimately show ?thesis by (simp add: guilds_ok_def closed_def sc)
qed

theorem DelRank_leaves_members_witness:
  "\<exists>s'. DelRank (six_ranks\<lparr>s_this := snd (hd (s_guilds six_ranks))\<rparr>) = Some s' \<and> HasRankRight 5 GR_RIGHT_REMOVE (s_this s')"
proof -
  have "GetGuildById 7 six_ranks = Some (snd (hd (s_guilds six_ranks)))" "GUILD_RANKS_MIN_COUNT < length (g_Ranks (snd (hd (s_guilds six_ranks))))"
    "GetLowestRank (snd (hd (s_guilds six_ranks))) = 5"
    by (simp_all add: six_ranks_def GetGuildById_def um_find_def sample_ranks_def GetLowestRank_def)
  then show ?thesis using DelRank_leaves_members [OF six_ranks_ok, of 7 _ GR_RIGHT_REMOVE] by fastforce
qed

end
