(* ===== verification/Guild_Repair.thy ===== *)
theory Guild_Repair
  imports Guild_Sample Guild_Load
begin

text \<open>The end of a guild (\<^verbatim>\<open>Disband\<close>) and its repair when the server starts (\<^verbatim>\<open>CheckGuildStructure\<close>).\<close>

section \<open>Disbanding\<close>

text \<open>The tables and maps that the loop over the members leaves alone.\<close>

lemma forget_member_frame:
  "s_guilds (forget_member g b s) = s_guilds s" "g_Id (s_this (forget_member g b s)) = g_Id (s_this s)"
  by (simp_all add: forget_member_def Let_def upd_this_def upd_db_def upd_gplayer_def RemoveFromCache_def
      GuildMemberRemoved_def UpdateAccountsNumber_def run_hook_def split: option.split)

lemma disband_loop_frame:
  "s_guilds (disband_loop s) = s_guilds s \<and> g_Id (s_this (disband_loop s)) = g_Id (s_this s)"
proof (induction s rule: disband_loop.induct)
  case (1 s)
  show ?case
  proof (cases "g_members (s_this s)")
    case (Cons km ms)
    obtain k m where km: "km = (k, m)" by fastforce
    have "disband_loop s = disband_loop (forget_member (player_guid k) True s)"
      by (subst disband_loop.simps) (simp add: Cons km DelMember_disbanding)
    then show ?thesis
      using 1 [OF Cons km [symmetric]] by (simp add: DelMember_disbanding forget_member_frame)
  qed (simp add: disband_loop.simps)
qed

lemma send_all_frame [simp]:
  "s_guilds (send_all gs p s) = s_guilds s" "s_db (send_all gs p s) = s_db s"
  unfolding send_all_def by (induction gs arbitrary: s) (simp_all add: SendPacket_def)

lemma Bank_DeleteFromDB_frame: "s_guilds (drop_bank b s) = s_guilds s" "s_this (drop_bank b s) = s_this s"
  "t_guild (s_db (drop_bank b s)) = t_guild (s_db s)" "t_rank (s_db (drop_bank b s)) = t_rank (s_db s)"
  "t_eventlog (s_db (drop_bank b s)) = t_eventlog (s_db s)" "t_member (s_db (drop_bank b s)) = t_member (s_db s)"
  by (simp_all add: drop_bank_def on_bank_def Let_def upd_db_def split: option.split)



section \<open>Repair\<close>

text \<open>The guid in the slot of a member, and of the leader, belong to their keys.\<close>

definition keys_ok :: "guild \<Rightarrow> bool" where
  "keys_ok g \<longleftrightarrow> list_all (\<lambda>(k, m). ms_guid m = player_guid k) (g_members g) \<and> g_LeaderGuid g = player_guid (GetCounter (g_LeaderGuid g))"

definition this_ranks :: "gs \<Rightarrow> u32 \<Rightarrow> u32 option" where
  "this_ranks s k = map_option ms_RankId (get_slot k s)"

definition slots_ok :: "gs \<Rightarrow> bool" where
  "slots_ok s \<longleftrightarrow> (\<forall>k m. get_slot k s = Some m \<longrightarrow> ms_guid m = player_guid k) \<and>
     g_LeaderGuid (s_this s) = player_guid (GetCounter (g_LeaderGuid (s_this s)))"

lemma keys_slots: "keys_ok (s_this s) \<Longrightarrow> slots_ok s"
  by (auto simp: keys_ok_def slots_ok_def get_slot_def um_find_def list_all_iff dest!: map_of_SomeD)

lemma slots_core:
  "slots_ok s \<longleftrightarrow> (\<forall>k x r. gc_mem (sc_this (score s)) k = Some (x, r) \<longrightarrow> x = player_guid k) \<and>
     gc_leader (sc_this (score s)) = player_guid (GetCounter (gc_leader (sc_this (score s))))"
  by (auto simp: slots_ok_def get_slot_core) (auto simp: core_simps)

lemma this_ranks_core: "this_ranks s = ranks_in (sc_this (score s))"
  by (simp add: this_ranks_def ranks_in_score fun_eq_iff)

lemma leader_core: "g_LeaderGuid (s_this s) = gc_leader (sc_this (score s))"
  by (simp add: core_simps)

lemma ChangeRank_this:
  assumes "slots_ok s" and "get_slot k s \<noteq> None"
  shows "this_ranks (ChangeRank k r s) = (this_ranks s)(k \<mapsto> r)" "slots_ok (ChangeRank k r s)"
    "g_LeaderGuid (s_this (ChangeRank k r s)) = g_LeaderGuid (s_this s)"
proof -
  obtain m where m: "get_slot k s = Some m" using assms(2) by blast
  have g: "ms_guid m = player_guid k" using assms(1) m by (simp add: slots_ok_def)
  note sc = score_ChangeRank' [OF m g, of r]
  show "this_ranks (ChangeRank k r s) = (this_ranks s)(k \<mapsto> r)" by (simp add: this_ranks_core sc)
  show "g_LeaderGuid (s_this (ChangeRank k r s)) = g_LeaderGuid (s_this s)" by (simp add: leader_core sc)
  show "slots_ok (ChangeRank k r s)" using assms(1) by (auto simp: slots_core sc)
qed

lemma SetLeader_this:
  assumes "slots_ok s" and "get_slot k s \<noteq> None"
  shows "this_ranks (SetLeader k s) = (this_ranks s)(k \<mapsto> GR_GUILDMASTER)" "slots_ok (SetLeader k s)"
    "g_LeaderGuid (s_this (SetLeader k s)) = player_guid k"
proof -
  obtain m where m: "get_slot k s = Some m" using assms(2) by blast
  have g: "ms_guid m = player_guid k" using assms(1) m by (simp add: slots_ok_def)
  note sc = score_SetLeader [OF m]
  have "ranks_in (h\<lparr>gc_leader := y\<rparr>) = ranks_in h" for h y by (simp add: ranks_in_def fun_eq_iff)
  then show "this_ranks (SetLeader k s) = (this_ranks s)(k \<mapsto> GR_GUILDMASTER)" by (simp add: this_ranks_core sc)
  show "g_LeaderGuid (s_this (SetLeader k s)) = player_guid k" by (simp add: leader_core sc g)
  show "slots_ok (SetLeader k s)" using assms(1) by (auto simp: slots_core sc g)
qed

definition demote_one :: "u32 \<Rightarrow> gs \<Rightarrow> gs" where
  "demote_one k s = (case get_slot k s of None \<Rightarrow> s | Some m \<Rightarrow>
     if ms_RankId m = GR_GUILDMASTER \<and> g_LeaderGuid (s_this s) \<noteq> ms_guid m then ChangeRank k GR_OFFICER s else s)"

definition demoted :: "guid \<Rightarrow> u32 \<Rightarrow> u32 \<Rightarrow> u32" where
  "demoted leader k r = (if r = GR_GUILDMASTER \<and> player_guid k \<noteq> leader then GR_OFFICER else r)"

lemma demoted_twice: "demoted l k \<circ> demoted l k = demoted l k"
  by (auto simp: demoted_def)

lemma demote_one_this:
  assumes "slots_ok s"
  shows "this_ranks (demote_one k s) = (this_ranks s)(k := map_option (demoted (g_LeaderGuid (s_this s)) k) (this_ranks s k))"
    "slots_ok (demote_one k s)" "g_LeaderGuid (s_this (demote_one k s)) = g_LeaderGuid (s_this s)"
proof -
  have g: "get_slot k s = Some m \<Longrightarrow> ms_guid m = player_guid k" for m using assms by (simp add: slots_ok_def)
  show "this_ranks (demote_one k s) = (this_ranks s)(k := map_option (demoted (g_LeaderGuid (s_this s)) k) (this_ranks s k))"
  proof (cases "get_slot k s")
    case None
    then show ?thesis by (simp add: demote_one_def this_ranks_def fun_eq_iff)
  next
    case (Some m)
    then have "this_ranks s k = Some (ms_RankId m)" by (simp add: this_ranks_def)
    then show ?thesis
      using ChangeRank_this(1) [OF assms, of k GR_OFFICER] g [OF Some] Some
      by (auto simp: demote_one_def demoted_def fun_upd_idem)
  qed
  show "slots_ok (demote_one k s)" "g_LeaderGuid (s_this (demote_one k s)) = g_LeaderGuid (s_this s)"
    using ChangeRank_this(2,3) [OF assms, of k GR_OFFICER] assms by (auto simp: demote_one_def split: option.split)
qed

lemma demote_fold:
  assumes "slots_ok s"
  shows "this_ranks (fold demote_one ks s) k =
       (if k \<in> set ks then map_option (demoted (g_LeaderGuid (s_this s)) k) (this_ranks s k) else this_ranks s k) \<and>
     g_LeaderGuid (s_this (fold demote_one ks s)) = g_LeaderGuid (s_this s)"
  using assms
proof (induction ks arbitrary: s)
  case (Cons k' ks)
  show ?case
    using Cons.IH [OF demote_one_this(2) [OF Cons.prems], of k'] demote_one_this(1,3) [OF Cons.prems, of k']
    by (auto simp: option.map_comp demoted_twice)
qed simp

lemma demote_masters_this:
  assumes "slots_ok s"
  shows "this_ranks (demote_masters s) k = map_option (demoted (g_LeaderGuid (s_this s)) k) (this_ranks s k)"
    "g_LeaderGuid (s_this (demote_masters s)) = g_LeaderGuid (s_this s)"
proof -
  let ?ks = "map fst (g_members (s_this s))"
  have d: "demote_masters s = fold demote_one ?ks s" by (simp add: demote_masters_def demote_one_def [abs_def])
  have "k \<notin> set ?ks \<Longrightarrow> this_ranks s k = None" using um_find_mem [of k "g_members (s_this s)"] by (auto simp: this_ranks_def get_slot_def)
  then show "this_ranks (demote_masters s) k = map_option (demoted (g_LeaderGuid (s_this s)) k) (this_ranks s k)"
    unfolding d using demote_fold [OF assms, of ?ks k] by auto
  show "g_LeaderGuid (s_this (demote_masters s)) = g_LeaderGuid (s_this s)"
    unfolding d using demote_fold [OF assms] by blast
qed

lemma best_slot_found:
  "best \<noteq> None \<or> (\<exists>km \<in> set ms. fst km \<noteq> low) \<Longrightarrow> best_slot low ms best \<noteq> None"
  by (induction low ms best rule: best_slot.induct) (auto split: option.splits)

lemma master_unique:
  assumes "slots_ok s" and "this_ranks s (GetCounter (g_LeaderGuid (s_this s))) = Some GR_GUILDMASTER"
  shows "this_ranks (demote_masters s) k = Some GR_GUILDMASTER \<longleftrightarrow> k = GetCounter (g_LeaderGuid (s_this (demote_masters s)))"
proof -
  have "player_guid k = g_LeaderGuid (s_this s) \<longleftrightarrow> k = GetCounter (g_LeaderGuid (s_this s))"
    using assms(1) unfolding slots_ok_def by (metis GetCounter_player_guid)
  then show ?thesis
    using assms(2) demote_masters_this(1) [OF assms(1), of k] demote_masters_this(2) [OF assms(1)]
    by (auto simp: demoted_def split: if_splits)
qed

lemma repaired:
  assumes "slots_ok s1" and "this_ranks s1 (GetCounter (g_LeaderGuid (s_this s1))) = Some GR_GUILDMASTER"
    and "\<And>k. this_ranks s1 k = None \<longleftrightarrow> this_ranks s k = None"
    and "\<And>k r. this_ranks s1 k = Some r \<Longrightarrow> r = GR_GUILDMASTER \<or> this_ranks s k = Some r"
  shows "(this_ranks (demote_masters s1) k = Some GR_GUILDMASTER \<longleftrightarrow> k = GetCounter (g_LeaderGuid (s_this (demote_masters s1)))) \<and>
     (this_ranks (demote_masters s1) k = None \<longleftrightarrow> this_ranks s k = None) \<and>
     (this_ranks (demote_masters s1) k = Some r \<longrightarrow> r \<le> GR_OFFICER \<or> this_ranks s k = Some r)"
proof (intro conjI)
  show "this_ranks (demote_masters s1) k = Some r \<longrightarrow> r \<le> GR_OFFICER \<or> this_ranks s k = Some r"
    using assms(4) [of k] by (auto simp: demote_masters_this(1) [OF assms(1)] demoted_def split: if_splits)
qed (rule master_unique [OF assms(1,2)], simp add: demote_masters_this(1) [OF assms(1)] assms(3))

lemma DelMember_missing_leader:
  assumes ok: "slots_ok s" and m: "g_members (s_this s) \<noteq> []" and l: "get_slot (GetCounter (g_LeaderGuid (s_this s))) s = None"
  shows "\<exists>k s1. DelMember (g_LeaderGuid (s_this s)) False s = (False, s1) \<and> get_slot k s \<noteq> None \<and> slots_ok s1 \<and>
     this_ranks s1 = (this_ranks s)(k \<mapsto> GR_GUILDMASTER) \<and> g_LeaderGuid (s_this s1) = player_guid k"
proof -
  let ?l = "g_LeaderGuid (s_this s)"
  let ?low = "GetCounter ?l"
  have no: "?low \<notin> set (map fst (g_members (s_this s)))" using l um_find_mem by (metis get_slot_def)
  then have "best_slot ?low (g_members (s_this s)) None \<noteq> None"
    using m by (intro best_slot_found) (cases "g_members (s_this s)", auto)
  then obtain k where suit: "GetSuitableNewLeader False (s_this s) = (Some k, None)"
    using no by (auto simp: GetSuitableNewLeader_def Let_def old_leader_slot_def)
  have k: "get_slot k s \<noteq> None" "k \<noteq> ?low" using suitable_leader [OF suit] by auto
  let ?s = "SetLeader k s"
  note t = SetLeader_this [OF ok k(1)]
  have d: "DelMember ?l False s = (g_members (s_this (forget_member ?l False ?s)) = [], forget_member ?l False ?s)"
    using suit by (simp add: DelMember_def Let_def SetNewLeader_def)
  have gone: "gc_mem (sc_this (score ?s)) ?low = None" using l get_slot_SetLeader(2) [of ?low k s] k by (simp add: get_slot_core)
  have sc: "sc_this (score (forget_member ?l False ?s)) = sc_this (score ?s)"
    using gone by (simp add: score_forget_member set_mem_def fun_upd_idem)
  have ranks: "this_ranks (forget_member ?l False ?s) = (this_ranks s)(k \<mapsto> GR_GUILDMASTER)" using t(1) by (simp add: this_ranks_core sc)
  moreover have "g_LeaderGuid (s_this (forget_member ?l False ?s)) = player_guid k"
    using t(3) leader_core [of "forget_member ?l False ?s"] leader_core [of ?s] by (simp only: sc)
  moreover have "slots_ok (forget_member ?l False ?s)" using t(2) by (simp add: slots_core sc)
  moreover have "g_members (s_this (forget_member ?l False ?s)) \<noteq> []"
  proof
    assume "g_members (s_this (forget_member ?l False ?s)) = []"
    then have "this_ranks (forget_member ?l False ?s) k = None" by (simp add: this_ranks_def get_slot_def um_find_def)
    then show False by (simp add: ranks)
  qed
  ultimately show ?thesis using d k(1) by auto
qed

text \<open>
  \<^verbatim>\<open>CheckGuildStructure\<close> repairs a guild with at least one member. A leader who is no member any more is replaced, a leader of
  another rank is promoted, and further guild masters become officers.
\<close>

lemma structure_repaired:
  assumes "keys_ok (s_this s)" and "g_members (s_this s) \<noteq> []" and "list_all (\<lambda>(k, m). ms_RankId m \<noteq> - 1) (g_members (s_this s))"
  shows "\<exists>s'. CheckGuildStructure s = (True, s') \<and>
     (\<forall>k. this_ranks s' k = Some GR_GUILDMASTER \<longleftrightarrow> k = GetCounter (g_LeaderGuid (s_this s'))) \<and>
     (\<forall>k. this_ranks s' k = None \<longleftrightarrow> this_ranks s k = None) \<and>
     (\<forall>k r. this_ranks s' k = Some r \<longrightarrow> r \<le> GR_OFFICER \<or> this_ranks s k = Some r)"
proof -
  note ok = keys_slots [OF assms(1)]
  let ?l = "g_LeaderGuid (s_this s)"
  show ?thesis
  proof (cases "get_slot (GetCounter ?l) s")
    case None
    then have r: "GetRank ?l (s_this s) = - 1" by (simp add: GetRank_def get_slot_def)
    obtain k s1 where s1: "DelMember ?l False s = (False, s1)" "get_slot k s \<noteq> None" "slots_ok s1"
      "this_ranks s1 = (this_ranks s)(k \<mapsto> GR_GUILDMASTER)" "g_LeaderGuid (s_this s1) = player_guid k"
      using DelMember_missing_leader [OF ok assms(2) None] by blast
    have n: "this_ranks s1 k' = None \<longleftrightarrow> this_ranks s k' = None" for k' using s1(2,4) by (auto simp: this_ranks_def)
    have "this_ranks s1 (GetCounter (g_LeaderGuid (s_this s1))) = Some GR_GUILDMASTER" by (simp add: s1(4,5))
    note rep = repaired [OF s1(3) this n]
    have v: "this_ranks s1 k' = Some r \<Longrightarrow> r = GR_GUILDMASTER \<or> this_ranks s k' = Some r" for k' r using s1(4) by (auto split: if_splits)
    have "CheckGuildStructure s = (True, demote_masters s1)" using r s1(1) by (simp add: CheckGuildStructure_def Let_def)
    then show ?thesis using rep [OF v] by blast
  next
    case (Some m)
    then have r: "GetRank ?l (s_this s) = ms_RankId m" by (simp add: GetRank_def get_slot_def)
    have "(GetCounter ?l, m) \<in> set (g_members (s_this s))" using Some by (auto simp: get_slot_def um_find_def dest: map_of_SomeD)
    then have r1: "ms_RankId m \<noteq> - 1" using assms(3) by (auto simp: list_all_iff)
    have g: "GetMemberSlot ?l (s_this s) = Some (GetCounter ?l)" using Some by (simp add: GetMemberSlot_def get_slot_def)
    let ?s1 = "if ms_RankId m \<noteq> GR_GUILDMASTER then SetLeaderGuid ?l s else s"
    have c: "CheckGuildStructure s = (True, demote_masters ?s1)" using r r1 by (simp add: CheckGuildStructure_def Let_def)
    note t = SetLeader_this [OF ok, of "GetCounter ?l"]
    have l: "player_guid (GetCounter ?l) = ?l" using ok by (simp add: slots_ok_def)
    have n: "this_ranks ?s1 k = None \<longleftrightarrow> this_ranks s k = None" for k using get_slot_SetLeader(1) [of k "GetCounter ?l" s] g by (auto simp: SetLeaderGuid_def this_ranks_def)
    have "slots_ok ?s1" "this_ranks ?s1 (GetCounter (g_LeaderGuid (s_this ?s1))) = Some GR_GUILDMASTER"
    proof -
      have "this_ranks s (GetCounter ?l) = Some (ms_RankId m)" using Some by (simp add: this_ranks_def)
      then show "slots_ok ?s1" "this_ranks ?s1 (GetCounter (g_LeaderGuid (s_this ?s1))) = Some GR_GUILDMASTER"
        using t Some g ok l by (auto simp: SetLeaderGuid_def)
    qed
    note rep = repaired [OF this n]
    have "this_ranks ?s1 k = Some r \<Longrightarrow> r = GR_GUILDMASTER \<or> this_ranks s k = Some r" for k r
      using t(1) Some g by (auto simp: SetLeaderGuid_def split: if_splits)
    then show ?thesis unfolding c using rep by blast
  qed
qed

lemma ranks_frame:
  "g_Ranks (s_this (ChangeRank k r s)) = g_Ranks (s_this s)" "g_Ranks (s_this (BroadcastEvent ev g strs s)) = g_Ranks (s_this s)"
  "g_Ranks (s_this (forget_member g b s)) = g_Ranks (s_this s)"
  by (simp_all add: ChangeRank_def Let_def upd_slot_def upd_this_def upd_db_def upd_gplayer_def BroadcastEvent_def BroadcastPacket_def
      forget_member_def RemoveFromCache_def GuildMemberRemoved_def UpdateAccountsNumber_def run_hook_def split: option.split)

lemma leader_ranks_frame:
  "g_Ranks (s_this (SetLeader k s)) = g_Ranks (s_this s)" "g_Ranks (s_this (SetNewLeader k old s)) = g_Ranks (s_this s)"
  by (simp_all add: SetNewLeader_def SetLeader_def Let_def ranks_frame upd_guild_row_def upd_db_def upd_this_def split: option.split)

lemma DelMember_ranks: "g_Ranks (s_this (snd (DelMember g b s))) = g_Ranks (s_this s)"
  by (simp add: DelMember_def Let_def ranks_frame leader_ranks_frame split: option.split prod.split)

lemma CheckGuildStructure_ranks: "g_Ranks (s_this (snd (CheckGuildStructure s))) = g_Ranks (s_this s)"
proof -
  have "g_Ranks (s_this (fold demote_one ks t)) = g_Ranks (s_this t)" for ks t
    by (induction ks arbitrary: t) (simp_all add: demote_one_def ranks_frame split: option.split)
  then have d: "g_Ranks (s_this (demote_masters t)) = g_Ranks (s_this t)" for t
    by (simp add: demote_masters_def demote_one_def [abs_def, symmetric])
  have "g_Ranks (s_this (SetLeaderGuid g s)) = g_Ranks (s_this s)" for g
    by (simp add: SetLeaderGuid_def leader_ranks_frame split: option.split)
  moreover have "DelMember g False s = (b, t) \<Longrightarrow> g_Ranks (s_this t) = g_Ranks (s_this s)" for g b t
    using DelMember_ranks [of g False s] by simp
  ultimately show ?thesis by (simp add: CheckGuildStructure_def Let_def d split: prod.split bool.split)
qed

end
