(* ===== verification/Guild_Log.thy ===== *)
theory Guild_Log
  imports Guild_Sample Guild_Load
begin

text \<open>
  The event log of a guild. In memory it is a list of the last 100 events; in the table \<^verbatim>\<open>guild_eventlog\<close> it is a ring of
  \<^verbatim>\<open>CONFIG_UINT32_GUILD_EVENT_LOG_COUNT\<close> rows, numbered modulo this count. The event with number \<open>j\<close>, counted
  from 1, has the row \<open>j mod N\<close>.
\<close>

section \<open>The ring\<close>

definition guild_log_rows :: "u32 \<Rightarrow> gs \<Rightarrow> eventlog_row list" where
  "guild_log_rows gid s = filter (\<lambda>r. el_guildid r = gid) (t_eventlog (s_db s))"

definition ring_row :: "u32 \<Rightarrow> nat \<Rightarrow> event_entry list \<Rightarrow> nat \<Rightarrow> eventlog_row" where
  "ring_row gid N es j = \<lparr>el_guildid = gid, el_LogGuid = word_of_nat (j mod N), el_entry = es ! (j - 1)\<rparr>"

definition ring :: "u32 \<Rightarrow> nat \<Rightarrow> event_entry list \<Rightarrow> eventlog_row list" where
  "ring gid N es = map (ring_row gid N es) [Suc (length es) - min (length es) N ..< Suc (length es)]"

lemma ring_slot:
  assumes "j \<le> n" and "n < j + N" and "0 < N"
  shows "j mod N = Suc n mod N \<longleftrightarrow> j + N = Suc n"
proof -
  have "j mod N = Suc n mod N \<longleftrightarrow> N dvd Suc n - j" using assms(1) mod_eq_dvd_iff_nat [of j "Suc n" N] by auto
  also have "\<dots> \<longleftrightarrow> Suc n - j = N"
  proof
    assume "N dvd Suc n - j"
    moreover have "0 < Suc n - j" "Suc n - j \<le> N" using assms by linarith+
    ultimately show "Suc n - j = N" by (simp add: dvd_imp_le order_antisym)
  qed simp
  finally show ?thesis using assms(1) by linarith
qed

lemma word_slot_eq:
  assumes "i < 2 ^ 32" and "j < 2 ^ 32"
  shows "(word_of_nat i :: u32) = word_of_nat j \<longleftrightarrow> i = j"
  using assms by (simp add: word_of_nat_eq_iff take_bit_eq_mod)

lemma filter_upt_from: "a \<le> b \<Longrightarrow> filter (\<lambda>j. b \<le> j) [a ..< c] = [b ..< c]"
  by (induction c) auto

text \<open>A new event takes the row of the oldest one when the ring is full, and a free one otherwise.\<close>

lemma ring_snoc:
  assumes N: "0 < N" "N < 2 ^ 32"
  shows "filter (\<lambda>r. el_LogGuid r \<noteq> word_of_nat (Suc (length es) mod N)) (ring gid N es) @ [ring_row gid N (es @ [x]) (Suc (length es))]
    = ring gid N (es @ [x])"
proof -
  let ?n = "length es"
  let ?a = "Suc ?n - min ?n N" and ?b = "Suc (Suc ?n) - min (Suc ?n) N"
  have small: "m mod N < 2 ^ 32" for m using N mod_less_divisor [of N m] by linarith
  have same: "ring_row gid N (es @ [x]) j = ring_row gid N es j" if "j \<le> ?n" "1 \<le> j" for j
    using that by (auto simp: ring_row_def nth_append)
  have slot: "el_LogGuid (ring_row gid N es j) \<noteq> word_of_nat (Suc ?n mod N) \<longleftrightarrow> ?b \<le> j" if "?a \<le> j" "j < Suc ?n" for j
    using that ring_slot [of j ?n N] N word_slot_eq [OF small small, of j "Suc ?n"] by (auto simp: ring_row_def)
  have "((\<lambda>r. el_LogGuid r \<noteq> word_of_nat (Suc ?n mod N)) \<circ> ring_row gid N es) j \<longleftrightarrow> ?b \<le> j" if "j \<in> set [?a ..< Suc ?n]" for j
    using that slot by (simp only: set_upt atLeastLessThan_iff comp_apply)
  then have "filter (\<lambda>r. el_LogGuid r \<noteq> word_of_nat (Suc ?n mod N)) (ring gid N es) =
      map (ring_row gid N es) (filter (\<lambda>j. ?b \<le> j) [?a ..< Suc ?n])"
    unfolding ring_def filter_map by (metis (mono_tags, lifting) filter_cong)
  also have "filter (\<lambda>j. ?b \<le> j) [?a ..< Suc ?n] = [?b ..< Suc ?n]"
    by (rule filter_upt_from) linarith
  also have "map (ring_row gid N es) [?b ..< Suc ?n] = map (ring_row gid N (es @ [x])) [?b ..< Suc ?n]"
    using same by auto
  finally show ?thesis using N by (simp add: ring_def)
qed

section \<open>Writing events\<close>

type_synonym log_call = "genv \<times> u8 \<times> guid \<times> guid \<times> u8"

definition call_entry :: "log_call \<Rightarrow> event_entry" where
  "call_entry = (\<lambda>(e, ev, g1, g2, r). new_event e ev g1 g2 r)"

definition log_call :: "log_call \<Rightarrow> gs \<Rightarrow> gs" where
  "log_call = (\<lambda>(e, ev, g1, g2, r). LogGuildEvent e ev g1 g2 r)"

definition call_count :: "log_call \<Rightarrow> nat" where
  "call_count = (\<lambda>(e, _). unat (ge_eventLogCount e))"

text \<open>Memory and table after the events \<open>es\<close>.\<close>

definition logged :: "u32 \<Rightarrow> nat \<Rightarrow> event_entry list \<Rightarrow> gs \<Rightarrow> bool" where
  "logged gid N es s \<longleftrightarrow> g_Id (s_this s) = gid \<and> guild_log_rows gid s = ring gid N es \<and>
     g_GuildEventLog (s_this s) = drop (length es - GUILD_EVENTLOG_MAX_RECORDS) es \<and>
     g_GuildEventLogNextGuid (s_this s) = word_of_nat (length es mod N)"

lemma next_slot:
  assumes "0 < N" "unat M = N"
  shows "(word_of_nat (n mod N) + 1) mod M = (word_of_nat (Suc n mod N) :: u32)"
proof -
  have N: "N < 2 ^ 32" using assms(2) unsigned_less [of M] by auto
  have small: "m mod N < N" for m using assms(1) by simp
  have "unat (word_of_nat (n mod N) + 1 :: u32) = Suc (n mod N)"
  proof -
    have "Suc (n mod N) < 2 ^ 32 \<or> Suc (n mod N) = 2 ^ 32" using small [of n] N by linarith
    moreover have "Suc (n mod N) < 2 ^ 32" using small [of n] N by linarith
    ultimately show ?thesis by (simp add: unat_word_ariths unat_of_nat take_bit_eq_mod)
  qed
  then have "unat ((word_of_nat (n mod N) + 1) mod M) = Suc n mod N"
    by (simp add: unat_mod_distrib assms(2) mod_Suc_eq)
  moreover have "unat (word_of_nat (Suc n mod N) :: u32) = Suc n mod N"
    using small [of "Suc n"] N by (simp add: unat_of_nat take_bit_eq_mod)
  ultimately show ?thesis by (simp add: word_unat_eq_iff)
qed

lemma drop_snoc_max:
  "(if length (drop (length es - m) es) \<ge> m then tl (drop (length es - m) es) else drop (length es - m) es) @ [x] =
     drop (length (es @ [x]) - m) (es @ [x])" if "0 < m"
proof (cases "length es < m")
  case False
  then have "Suc (length es) - m = Suc (length es - m)" by linarith
  moreover have "tl (drop (length es - m) es) = drop (Suc (length es - m)) es" by (simp only: tl_drop drop_Suc)
  ultimately show ?thesis using False that by simp
qed (use that in simp)

lemma logged_step:
  assumes "logged gid N es s" and "call_count c = N" and "0 < N"
  shows "logged gid N (es @ [call_entry c]) (log_call c s)"
proof -
  obtain e ev g1 g2 r where c: "c = (e, ev, g1, g2, r)" by (cases c)
  let ?x = "new_event e ev g1 g2 r" and ?next = "word_of_nat (Suc (length es) mod N) :: u32"
  have M: "unat (ge_eventLogCount e) = N" using assms(2) by (simp add: call_count_def c)
  have N: "N < 2 ^ 32" using M unsigned_less [of "ge_eventLogCount e"] by auto
  have nx: "(g_GuildEventLogNextGuid (s_this s) + 1) mod ge_eventLogCount e = ?next"
    using next_slot [OF assms(3) M] assms(1) by (simp add: logged_def)
  let ?rows = "delete_where (\<lambda>r. el_guildid r = gid \<and> el_LogGuid r = ?next) (t_eventlog (s_db s))"
  let ?row = "\<lparr>el_guildid = gid, el_LogGuid = ?next, el_entry = ?x\<rparr>"
  have ins: "insert_row log_key ?row ?rows = ?rows @ [?row]"
    by (auto simp: insert_row_def log_key_def delete_where_def)
  have "t_eventlog (s_db (log_call c s)) = insert_row log_key ?row ?rows"
    using assms(1) nx by (simp add: log_call_def c LogGuildEvent_def Let_def upd_db_def upd_this_def logged_def)
  then have t: "t_eventlog (s_db (log_call c s)) = ?rows @ [?row]" by (simp only: ins)
  have "guild_log_rows gid (log_call c s) = filter (\<lambda>r. el_LogGuid r \<noteq> ?next) (guild_log_rows gid s) @ [?row]"
    unfolding guild_log_rows_def t delete_where_def by (auto intro: filter_cong)
  also have "\<dots> = ring gid N (es @ [?x])"
    using assms(1) ring_snoc [OF assms(3) N, of es gid ?x] by (simp add: logged_def ring_row_def)
  finally have "guild_log_rows gid (log_call c s) = ring gid N (es @ [?x])" .
  moreover have "g_GuildEventLog (s_this (log_call c s)) = drop (length (es @ [?x]) - 100) (es @ [?x])"
    using assms(1) drop_snoc_max [of 100 es ?x]
    by (simp add: log_call_def c LogGuildEvent_def Let_def upd_db_def upd_this_def logged_def)
  moreover have "g_GuildEventLogNextGuid (s_this (log_call c s)) = ?next" "g_Id (s_this (log_call c s)) = gid"
    using assms(1) nx by (simp_all add: log_call_def c LogGuildEvent_def Let_def upd_db_def upd_this_def logged_def)
  ultimately show ?thesis by (simp add: logged_def call_entry_def c)
qed

lemma logged_run:
  assumes "logged gid N [] s" and "0 < N" and "list_all (\<lambda>c. call_count c = N) cs"
  shows "logged gid N (map call_entry cs) (fold log_call cs s)"
  using assms(3) by (induction cs rule: rev_induct) (use assms(1,2) in \<open>auto intro: logged_step\<close>)

section \<open>Reading them back\<close>

lemma sort_key_strict:
  assumes "sorted_wrt (<) (map f xs)" and "mset ys = mset xs"
  shows "sort_key f ys = xs"
proof (rule map_inj_on [of f])
  have s: "sorted (map f xs)" using assms(1) by (rule strict_sorted_imp_sorted)
  have "mset (map f (sort_key f ys)) = mset (map f xs)" using assms(2) by (simp add: mset_map)
  then show "map f (sort_key f ys) = map f xs"
    using s by (metis sorted_sort_key properties_for_sort sort_key_id_if_sorted sorted_sort_id)
  have "distinct (map f xs)" using assms(1) by (simp add: strict_sorted_iff)
  moreover have "set (sort_key f ys) = set xs" using assms(2) by (metis set_mset_mset set_sort)
  ultimately show "inj_on f (set (sort_key f ys) \<union> set xs)" by (simp add: distinct_map)
qed

lemma fold_cons_entries: "fold (\<lambda>r log. el_entry r # log) rs log = rev (map el_entry rs) @ log"
  by (induction rs arbitrary: log) simp_all

abbreviation stamp :: "event_entry \<Rightarrow> nat" where
  "stamp x \<equiv> unat (ee_TimeStamp x)"

lemma ring_entries: "map el_entry (ring gid N es) = drop (length es - min (length es) N) es"
proof -
  have "map el_entry (ring gid N es) = map ((!) es) (map (\<lambda>j. j - 1) [Suc (length es) - min (length es) N ..< Suc (length es)])"
    by (simp add: ring_def ring_row_def)
  also have "map (\<lambda>j. j - 1) [Suc (length es) - min (length es) N ..< Suc (length es)] = [length es - min (length es) N ..< length es]"
    by (simp add: Suc_diff_le map_Suc_upt [symmetric] comp_def del: upt_Suc)
  finally show ?thesis by (simp add: map_nth drop_map [symmetric] flip: drop_upt) (metis drop_map drop_upt map_nth add_0)
qed

text \<open>C21: the event log survives a restart. After any number of events at increasing times, with room for at least 100 rows in the table, memory
  holds the last 100 of them, the table a ring of the last ones, and what
  \<^verbatim>\<open>LoadGuildEventLogFromDB\<close> reads into a new guild object is the log and the next row number that
  memory had.\<close>

theorem event_log_roundtrip:
  assumes "logged gid N [] s" and "list_all (\<lambda>c. call_count c = N) cs" and "GUILD_EVENTLOG_MAX_RECORDS \<le> N"
    and "sorted_wrt (<) (map (stamp \<circ> call_entry) cs)" and "s' = fold log_call cs s"
    and "t = LoadGuildEventLogFromDB (s'\<lparr>s_this := new_guild\<lparr>g_Id := gid\<rparr>\<rparr>)"
  shows "g_GuildEventLog (s_this s') = drop (length cs - GUILD_EVENTLOG_MAX_RECORDS) (map call_entry cs) \<and>
     g_GuildEventLog (s_this t) = g_GuildEventLog (s_this s') \<and> g_GuildEventLogNextGuid (s_this t) = g_GuildEventLogNextGuid (s_this s')"
proof -
  define es where "es = map call_entry cs"
  have N: "0 < N" using assms(3) by linarith
  have l: "logged gid N es s'" unfolding es_def assms(5) by (rule logged_run [OF assms(1) N assms(2)])
  let ?rs = "ring gid N es" and ?f = "\<lambda>r. stamp (el_entry r)"
  have "map ?f ?rs = drop (length es - min (length es) N) (map stamp es)"
    using ring_entries [of gid N es] by (metis (no_types, lifting) drop_map list.map_comp comp_apply map_eq_conv)
  moreover have "sorted_wrt (<) (map stamp es)" using assms(4) by (simp add: es_def)
  ultimately have st: "sorted_wrt (<) (map ?f ?rs)" by (metis sorted_wrt_drop)
  have "sort_key ?f (sort_key (\<lambda>r. unat (el_LogGuid r)) (guild_log_rows gid s')) = ?rs"
    using l by (intro sort_key_strict [OF st]) (simp add: logged_def)
  then have rows: "log_rows_of gid (s_db s') = take 100 (rev ?rs)"
    by (simp add: log_rows_of_def guild_log_rows_def)
  have log: "g_GuildEventLog (s_this s') = drop (length es - 100) es" "g_GuildEventLogNextGuid (s_this s') = word_of_nat (length es mod N)"
    using l by (simp_all add: logged_def)
  have ent: "rev (map el_entry (take 100 (rev ?rs))) = drop (length es - 100) es"
  proof -
    have "rev (map el_entry (take 100 (rev ?rs))) = drop (length ?rs - 100) (map el_entry ?rs)"
      by (simp add: rev_map [symmetric] take_map [symmetric] rev_take)
    also have "\<dots> = drop (length es - 100) es"
    proof -
      have len: "length ?rs = min (length es) N" by (simp add: ring_def del: upt_Suc)
      have "min (length es) N - 100 + (length es - min (length es) N) = length es - 100" using assms(3) by (auto simp: min_def)
      then show ?thesis by (simp add: ring_entries len)
    qed
    finally show ?thesis .
  qed
  have "g_GuildEventLog (s_this t) = g_GuildEventLog (s_this s') \<and> g_GuildEventLogNextGuid (s_this t) = g_GuildEventLogNextGuid (s_this s')"
  proof (cases "es = []")
    case True
    then have "log_rows_of gid (s_db s') = []" using rows by (simp add: ring_def)
    then show ?thesis using True log by (simp add: assms(6) LoadGuildEventLogFromDB_def new_guild_def)
  next
    case False
    then have "length ?rs > 0" using N by (simp add: ring_def del: upt_Suc)
    then obtain r rest where r: "take 100 (rev ?rs) = r # rest" by (cases "rev ?rs") auto
    have "r = hd (rev ?rs)" using r by (metis hd_take list.sel(1) zero_less_numeral)
    moreover have "Suc (length es) - min (length es) N \<le> length es" using False N by (cases es) auto
    ultimately have "r = ring_row gid N es (length es)" by (simp add: hd_rev ring_def)
    then have "el_LogGuid r = word_of_nat (length es mod N)" by (simp add: ring_row_def)
    then show ?thesis
      using rows r ent log by (simp add: assms(6) LoadGuildEventLogFromDB_def upd_this_def fold_cons_entries new_guild_def)
  qed
  then show ?thesis using log by (simp add: es_def)
qed

theorem event_log_roundtrip_witness:
  "g_GuildEventLog (s_this (LoadGuildEventLogFromDB ((fold log_call [(sample_env, 1, 10, 12, 0)] (sample_server\<lparr>s_this := sample_guild\<rparr>))
     \<lparr>s_this := new_guild\<lparr>g_Id := 7\<rparr>\<rparr>))) = [call_entry (sample_env, 1, 10, 12, 0)]"
proof -
  let ?s = "sample_server\<lparr>s_this := sample_guild\<rparr>"
  have "logged 7 100 [] ?s"
    by (simp add: logged_def sample_guild_def new_guild_def guild_log_rows_def sample_server_def sample_tables_def ring_def)
  moreover have "list_all (\<lambda>c. call_count c = 100) [(sample_env, 1, 10, 12, 0)]" by (simp add: call_count_def sample_env_def)
  ultimately show ?thesis
    using event_log_roundtrip [of 7 100 ?s "[(sample_env, 1, 10, 12, 0)]", OF _ _ _ _ refl refl] by simp
qed

end
