(* ===== verification/Load_Props.thy ===== *)
theory Load_Props
  imports Guild_Repair
begin

text \<open>A guild as the server loads it: whatever the rows say, the object in memory is well formed.\<close>

section \<open>Ranks\<close>

lemma AddRank_ranks [simp]: "g_Ranks (s_this (AddRank n r s)) = g_Ranks (s_this s) @ [\<lparr>ri_Name = n, ri_Rights = r\<rparr>]"
  by (simp add: AddRank_def upd_this_def)

definition first_has_all :: "rank_info list \<Rightarrow> bool" where
  "first_has_all rs = (case rs of [] \<Rightarrow> True | r # _ \<Rightarrow> ri_Rights r AND GR_RIGHT_ALL = GR_RIGHT_ALL)"

lemma first_has_all_append: "rs \<noteq> [] \<Longrightarrow> first_has_all (rs @ [r]) = first_has_all rs"
  by (cases rs) (simp_all add: first_has_all_def)

lemma all_rights_or: "(x OR GR_RIGHT_ALL) AND GR_RIGHT_ALL = GR_RIGHT_ALL" for x :: u32
  by (auto intro!: bit_word_eqI simp: bit_simps)

lemma load_ranks_first:
  "first_has_all (g_Ranks (s_this s)) \<Longrightarrow> first_has_all (g_Ranks (s_this (snd (snd (load_ranks rs broken s)))))"
proof (induction rs broken s rule: load_ranks.induct)
  case (2 r rs broken s)
  have new: "first_has_all (g_Ranks (s_this (AddRank n (if length (g_Ranks (s_this s)) = 0 then x OR GR_RIGHT_ALL else x) s)))" for n x
    using 2(3) first_has_all_append [of "g_Ranks (s_this s)"] all_rights_or [of x]
    by (cases "g_Ranks (s_this s)") (simp_all add: first_has_all_def)
  show ?case using 2 new by (simp add: Let_def upd_db_def)
qed simp

lemma CreateRank_ranks: "length (g_Ranks (s_this s)) < 10 \<Longrightarrow>
    g_Ranks (s_this (CreateRank n r s)) = g_Ranks (s_this s) @ [\<lparr>ri_Name = n, ri_Rights = r\<rparr>]"
  by (simp add: CreateRank_def Let_def upd_db_def)

lemma default_ranks:
  assumes "g_Ranks (s_this s) = []"
  shows "length (g_Ranks (s_this (CreateDefaultGuildRanks e i s))) = 5 \<and> first_has_all (g_Ranks (s_this (CreateDefaultGuildRanks e i s)))"
proof -
  have "g_Ranks (s_this (upd_db f s)) = []" for f using assms by (simp add: upd_db_def)
  then show ?thesis by (simp add: CreateDefaultGuildRanks_def Let_def CreateRank_ranks first_has_all_def)
qed

lemma LoadRanks_wf:
  assumes "g_Ranks (s_this s) = []" and "LoadRanksFromDB e result s = (result', s')"
  shows "5 \<le> length (g_Ranks (s_this s')) \<and> first_has_all (g_Ranks (s_this s'))"
proof (cases result)
  case None
  then show ?thesis using assms default_ranks by (auto simp: LoadRanksFromDB_def)
next
  case (Some rows)
  obtain rest broken s1 where l: "load_ranks rows False s = (rest, broken, s1)" by (cases "load_ranks rows False s")
  have f: "first_has_all (g_Ranks (s_this s1))"
    using load_ranks_first [of s rows False] assms(1) l by (simp add: first_has_all_def)
  let ?s0 = "upd_this (\<lambda>g. g\<lparr>g_Ranks := []\<rparr>) s1"
  have d: "length (g_Ranks (s_this (CreateDefaultGuildRanks e 0 ?s0))) = 5 \<and> first_has_all (g_Ranks (s_this (CreateDefaultGuildRanks e 0 ?s0)))"
    by (rule default_ranks) (simp add: upd_this_def)
  have r: "g_Ranks (s_this (repair_ranks t)) = g_Ranks (s_this t)" for t by (simp add: repair_ranks_def Let_def upd_db_def)
  show ?thesis
    using assms(2) d f by (auto simp: LoadRanksFromDB_def Some l Let_def r split: if_splits)
qed

section \<open>Members\<close>

lemma set_map_filter_map_of: "set (List.map_filter (\<lambda>k. map_option (Pair k) (map_of m k)) ks) \<subseteq> set m"
  by (induction ks) (auto simp: List.map_filter_simps dest: map_of_SomeD split: option.splits)

lemma set_um_put: "set (um_put order k v m) \<subseteq> insert (k, v) (set m)"
proof (cases "k \<in> set (map fst m)")
  case True
  then show ?thesis by (auto simp: um_put_def um_update_def split: if_splits)
next
  case False
  then have "um_put order k v m = List.map_filter (\<lambda>k'. map_option (Pair k') (map_of ((k, v) # m) k')) (order (map fst ((k, v) # m)))"
    by (simp only: um_put_def Let_def if_False)
  then show ?thesis using set_map_filter_map_of [of "(k, v) # m"] by simp
qed

definition member_wf :: "nat \<Rightarrow> u32 \<times> member_slot \<Rightarrow> bool" where
  "member_wf n = (\<lambda>(k, m). ms_guid m = player_guid k \<and> unat (ms_RankId m) < n \<and> member_loads m)"

lemma loaded_member_wf:
  assumes "0 < length (g_Ranks g)" "length (g_Ranks g) < 2 ^ 32" and "member_loads (loaded_member e r g)"
  shows "member_wf (length (g_Ranks g)) (mb_guid r, loaded_member e r g)"
proof -
  have "unat (GetLowestRank g) = length (g_Ranks g) - 1"
  proof -
    have "unat (word_of_nat (length (g_Ranks g)) - 1 :: u32) = unat (word_of_nat (length (g_Ranks g)) :: u32) - unat (1 :: u32)"
      using assms by (intro unat_sub) (simp add: word_le_nat_alt unat_of_nat take_bit_eq_mod Suc_le_eq)
    then show ?thesis using assms by (simp add: GetLowestRank_def unat_of_nat take_bit_eq_mod)
  qed
  then show ?thesis using assms by (auto simp: member_wf_def loaded_member_def Let_def)
qed

lemma load_members_wf:
  assumes "0 < length (g_Ranks (s_this s))" "length (g_Ranks (s_this s)) < 2 ^ 32"
    and "list_all (member_wf (length (g_Ranks (s_this s)))) (g_members (s_this s))"
  shows "list_all (member_wf (length (g_Ranks (s_this s)))) (g_members (s_this (snd (load_members e rows s)))) \<and>
     g_Ranks (s_this (snd (load_members e rows s))) = g_Ranks (s_this s) \<and>
     g_LeaderGuid (s_this (snd (load_members e rows s))) = g_LeaderGuid (s_this s)"
  using assms
proof (induction e rows s rule: load_members.induct)
  case (2 e r rs s)
  let ?m = "loaded_member e r (s_this s)"
  let ?t = "GuildMemberAdded (g_Id (s_this s)) (mb_guid r) (upd_this (\<lambda>g. g\<lparr>g_members := um_put (ge_order e) (mb_guid r) ?m (g_members g)\<rparr>) s)"
  have t: "g_Ranks (s_this ?t) = g_Ranks (s_this s)" "g_LeaderGuid (s_this ?t) = g_LeaderGuid (s_this s)"
    "g_members (s_this ?t) = um_put (ge_order e) (mb_guid r) ?m (g_members (s_this s))"
    by (simp_all add: GuildMemberAdded_def upd_this_def)
  have "list_all (member_wf (length (g_Ranks (s_this s)))) (g_members (s_this ?t))" if "member_loads ?m"
    using loaded_member_wf [OF 2(4,5) that] 2(6) set_um_put [of "ge_order e" "mb_guid r" ?m "g_members (s_this s)"]
    unfolding t(3) list_all_iff by blast
  then show ?case using 2 t by (simp add: Let_def upd_db_def)
qed simp

section \<open>The guild\<close>

text \<open>Loading ranks changes nothing else of the object.\<close>

definition only_ranks :: "gs \<Rightarrow> gs \<Rightarrow> bool" where
  "only_ranks s t \<longleftrightarrow> (\<exists>rs. s_this t = (s_this s)\<lparr>g_Ranks := rs\<rparr>)"

lemma only_ranks_refl: "s_this t = s_this s \<Longrightarrow> only_ranks s t"
  unfolding only_ranks_def by (intro exI [of _ "g_Ranks (s_this s)"]) simp

lemma only_ranks_trans [trans]: "only_ranks s t \<Longrightarrow> only_ranks t u \<Longrightarrow> only_ranks s u"
  unfolding only_ranks_def by fastforce

lemma only_ranks_add: "only_ranks s (AddRank n r s)" "only_ranks s (CreateRank n r s)" "only_ranks s (upd_this (\<lambda>g. g\<lparr>g_Ranks := rs\<rparr>) s)"
proof -
  show 1: "only_ranks s (AddRank n r s)" by (auto simp: only_ranks_def AddRank_def upd_this_def)
  have db: "s_this (upd_db f t) = s_this t" for f t by (simp add: upd_db_def)
  show "only_ranks s (CreateRank n r s)"
    using 1 only_ranks_refl [of s s] by (auto simp: CreateRank_def Let_def only_ranks_def db)
  show "only_ranks s (upd_this (\<lambda>g. g\<lparr>g_Ranks := rs\<rparr>) s)" by (auto simp: only_ranks_def upd_this_def)
qed

lemma only_ranks_load: "only_ranks s (snd (snd (load_ranks rs broken s)))"
proof (induction rs broken s rule: load_ranks.induct)
  case (2 r rs broken s)
  have "only_ranks s (upd_db f s)" for f by (rule only_ranks_refl) (simp add: upd_db_def)
  note db = only_ranks_trans [OF this]
  show ?case
  proof (cases "rk_guildid r < g_Id (s_this s)")
    case True
    show ?thesis using db [OF 2(1) [OF True]] True by simp
  next
    case ge: False
    show ?thesis
    proof (cases "rk_guildid r > g_Id (s_this s)")
      case False
      show ?thesis using only_ranks_trans [OF only_ranks_add(1) 2(2) [OF ge False refl refl]] ge False by (simp add: Let_def)
    qed (use ge in \<open>simp add: only_ranks_refl\<close>)
  qed
qed (simp add: only_ranks_refl)

lemma only_ranks_default: "only_ranks s (CreateDefaultGuildRanks e i s)"
proof -
  have "only_ranks s (upd_db f s)" for f by (rule only_ranks_refl) (simp add: upd_db_def)
  note c = this [THEN only_ranks_trans, OF only_ranks_add(2)]
  note step = only_ranks_trans [OF _ only_ranks_add(2)]
  show ?thesis unfolding CreateDefaultGuildRanks_def Let_def by (rule step [OF step [OF step [OF step [OF c]]]])
qed

lemma only_ranks_LoadRanks: "LoadRanksFromDB e result s = (result', s') \<Longrightarrow> only_ranks s s'"
proof -
  assume l: "LoadRanksFromDB e result s = (result', s')"
  have rep: "only_ranks t (repair_ranks t)" for t by (rule only_ranks_refl) (simp add: repair_ranks_def Let_def upd_db_def)
  have load: "load_ranks rows b s = (rest, broken, s1) \<Longrightarrow> only_ranks s s1" for rows b rest broken s1
    using only_ranks_load [of s rows b] by simp
  show ?thesis
  proof (cases result)
    case None
    then show ?thesis using l only_ranks_default by (auto simp: LoadRanksFromDB_def)
  next
    case (Some rows)
    obtain rest broken s1 where s1: "load_ranks rows False s = (rest, broken, s1)" by (cases "load_ranks rows False s")
    let ?d = "CreateDefaultGuildRanks e 0 (upd_this (\<lambda>g. g\<lparr>g_Ranks := []\<rparr>) s1)"
    have "only_ranks s1 ?d" using only_ranks_trans [OF only_ranks_add(3) only_ranks_default] .
    then have "only_ranks s1 s'"
      using l rep only_ranks_refl [of s1 s1] by (auto simp: LoadRanksFromDB_def Some s1 Let_def split: if_splits)
    then show ?thesis using only_ranks_trans load [OF s1] by blast
  qed
qed

text \<open>C19: a guild that the server loads is well formed, whatever the rows of the tables say: it has at least five ranks, the first
  with every right; every member has a rank of the table, a name, a level and a class that
  can be played, and is filed under his own guid; and after \<^verbatim>\<open>CheckGuildStructure\<close>, which succeeds and loses no member, one
  member is guild master, and he is the leader.\<close>

theorem loaded_guild_wellformed:
  assumes "LoadRanksFromDB e ranks (LoadGuildFromDB e row (s\<lparr>s_this := new_guild\<rparr>)) = (ranks', s2)"
    and "LoadMembersFromDB e members s2 = (True, members', s3)" and "length (g_Ranks (s_this s2)) < 2 ^ 32"
  shows "\<exists>s4. CheckGuildStructure s3 = (True, s4) \<and>
     GUILD_RANKS_MIN_COUNT \<le> length (g_Ranks (s_this s4)) \<and> first_has_all (g_Ranks (s_this s4)) \<and>
     list_all (\<lambda>(k, m). ms_guid m = player_guid k \<and> member_loads m) (g_members (s_this s3)) \<and>
     (\<forall>k. this_ranks s4 k = None \<longleftrightarrow> this_ranks s3 k = None) \<and>
     (\<forall>k. this_ranks s4 k = Some GR_GUILDMASTER \<longleftrightarrow> k = GetCounter (g_LeaderGuid (s_this s4))) \<and>
     (\<forall>k r. this_ranks s4 k = Some r \<longrightarrow> unat r < length (g_Ranks (s_this s4)))"
proof -
  let ?s1 = "LoadGuildFromDB e row (s\<lparr>s_this := new_guild\<rparr>)"
  have s1: "g_Ranks (s_this ?s1) = []" "g_members (s_this ?s1) = []" "g_LeaderGuid (s_this ?s1) = player_guid (gr_leaderguid row)"
    by (simp_all add: LoadGuildFromDB_def upd_this_def Let_def new_guild_def split: prod.split)
  have r2: "5 \<le> length (g_Ranks (s_this s2))" "first_has_all (g_Ranks (s_this s2))" using LoadRanks_wf [OF s1(1) assms(1)] by simp_all
  have s2: "g_members (s_this s2) = []" "g_LeaderGuid (s_this s2) = player_guid (gr_leaderguid row)"
    using only_ranks_LoadRanks [OF assms(1)] s1 by (auto simp: only_ranks_def)
  obtain rows rest t where t: "members = Some rows" "load_members e rows s2 = (rest, t)" "g_members (s_this t) \<noteq> []" "s3 = UpdateAccountsNumber t"
    using assms(2) by (auto simp: LoadMembersFromDB_def Let_def split: option.splits prod.splits if_splits)
  have "list_all (member_wf (length (g_Ranks (s_this s2)))) (g_members (s_this t)) \<and> g_Ranks (s_this t) = g_Ranks (s_this s2) \<and>
      g_LeaderGuid (s_this t) = g_LeaderGuid (s_this s2)"
  proof -
    have "0 < length (g_Ranks (s_this s2))" using r2(1) by linarith
    then show ?thesis using load_members_wf [of s2 e rows] assms(3) s2(1) t(2) by simp
  qed
  then have wf: "list_all (member_wf (length (g_Ranks (s_this s2)))) (g_members (s_this s3))" "g_Ranks (s_this s3) = g_Ranks (s_this s2)"
    "g_LeaderGuid (s_this s3) = player_guid (gr_leaderguid row)" "g_members (s_this s3) \<noteq> []"
    using t(3) s2(2) by (simp_all add: t(4) UpdateAccountsNumber_def upd_this_def)
  have keys: "keys_ok (s_this s3)" using wf(1,3) by (auto simp: keys_ok_def member_wf_def list_all_iff)
  have big: "unat r < length (g_Ranks (s_this s2)) \<Longrightarrow> r \<noteq> - 1" for r :: u32
  proof
    have "unat (- 1 :: u32) = 2 ^ 32 - 1" by (simp add: unsigned_minus_1_eq_mask mask_eq_exp_minus_1)
    moreover assume "unat r < length (g_Ranks (s_this s2))" "r = - 1"
    ultimately show False using assms(3) by simp
  qed
  then have "list_all (\<lambda>(k, m). ms_RankId m \<noteq> - 1) (g_members (s_this s3))" using wf(1) by (auto simp: member_wf_def list_all_iff)
  from structure_repaired [OF keys wf(4) this]
  obtain s4 where s4: "CheckGuildStructure s3 = (True, s4)" "\<forall>k. this_ranks s4 k = Some GR_GUILDMASTER \<longleftrightarrow> k = GetCounter (g_LeaderGuid (s_this s4))"
    "\<forall>k. this_ranks s4 k = None \<longleftrightarrow> this_ranks s3 k = None" "\<forall>k r. this_ranks s4 k = Some r \<longrightarrow> r \<le> GR_OFFICER \<or> this_ranks s3 k = Some r"
    by blast
  have r4: "g_Ranks (s_this s4) = g_Ranks (s_this s2)" using CheckGuildStructure_ranks [of s3] s4(1) wf(2) by simp
  have "unat r < length (g_Ranks (s_this s2))" if "this_ranks s3 k = Some r" for k r
    using that wf(1) by (auto simp: this_ranks_def get_slot_def um_find_def member_wf_def list_all_iff dest!: map_of_SomeD)
  moreover have "unat r < length (g_Ranks (s_this s2))" if "r \<le> GR_OFFICER" for r
    using that r2(1) by (simp add: word_le_nat_alt)
  ultimately have "this_ranks s4 k = Some r \<Longrightarrow> unat r < length (g_Ranks (s_this s4))" for k r using s4(4) r4 by metis
  moreover have "list_all (\<lambda>(k, m). ms_guid m = player_guid k \<and> member_loads m) (g_members (s_this s3))"
    using wf(1) by (auto simp: member_wf_def list_all_iff)
  ultimately show ?thesis using s4 r4 r2 by auto
qed

text \<open>One row of a guild whose leader left, no rows of ranks, and one member of a rank that does not exist.\<close>

definition load_env :: genv where
  "load_env = sample_env\<lparr>ge_characters := (\<lambda>_. Some \<lparr>cr_name = ''Anna'', cr_level = 60, cr_class = 1, cr_zone = 12, cr_logout_time = 0, cr_account = 1\<rparr>)\<rparr>"

definition load_row :: guild_row where
  "load_row = \<lparr>gr_guildid = 7, gr_name = ''Keepers'', gr_leaderguid = 99, gr_emblem = empty_emblem, gr_info = [], gr_motd = [], gr_createdate = 0\<rparr>"

definition load_member_rows :: "member_row list" where
  "load_member_rows = [\<lparr>mb_guildid = 7, mb_guid = 10, mb_rank = 200, mb_pnote = [], mb_offnote = []\<rparr>]"

theorem loaded_guild_wellformed_witness:
  "\<exists>s2 s3 s4. LoadRanksFromDB load_env None (LoadGuildFromDB load_env load_row (sample_server\<lparr>s_this := new_guild\<rparr>)) = (None, s2) \<and>
     LoadMembersFromDB load_env (Some load_member_rows) s2 = (True, Some [], s3) \<and> CheckGuildStructure s3 = (True, s4) \<and>
     (\<forall>k. this_ranks s4 k = Some GR_GUILDMASTER \<longleftrightarrow> k = GetCounter (g_LeaderGuid (s_this s4)))"
proof -
  obtain s2 where s2: "LoadRanksFromDB load_env None (LoadGuildFromDB load_env load_row (sample_server\<lparr>s_this := new_guild\<rparr>)) = (None, s2)"
    by (simp add: LoadRanksFromDB_def)
  obtain ok rest s3 where s3: "LoadMembersFromDB load_env (Some load_member_rows) s2 = (ok, rest, s3)"
    by (cases "LoadMembersFromDB load_env (Some load_member_rows) s2")
  have e2: "s2 = CreateDefaultGuildRanks load_env 0 (LoadGuildFromDB load_env load_row (sample_server\<lparr>s_this := new_guild\<rparr>))"
    using s2 by (simp add: LoadRanksFromDB_def)
  have "only_ranks (LoadGuildFromDB load_env load_row (sample_server\<lparr>s_this := new_guild\<rparr>)) s2" unfolding e2 by (rule only_ranks_default)
  then have id: "g_Id (s_this s2) = 7"
    by (auto simp: only_ranks_def LoadGuildFromDB_def upd_this_def Let_def load_row_def)
  have pc: "playable_class 1" by code_simp
  have b: "ok" "rest = Some []"
    using s3 id pc by (auto simp: LoadMembersFromDB_def load_member_rows_def loaded_member_def load_env_def member_loads_def Let_def
        GuildMemberAdded_def upd_this_def um_put_def um_update_def sample_env_def List.map_filter_simps split: if_splits)
  have "length (g_Ranks (s_this (LoadGuildFromDB load_env load_row (sample_server\<lparr>s_this := new_guild\<rparr>)))) = 0"
    by (simp add: LoadGuildFromDB_def upd_this_def Let_def new_guild_def load_row_def)
  then have "length (g_Ranks (s_this s2)) = 5" unfolding e2 using default_ranks by simp
  then have "length (g_Ranks (s_this s2)) < 2 ^ 32" by simp
  then show ?thesis using loaded_guild_wellformed [OF s2, of "Some load_member_rows" rest s3] s2 s3 b by auto
qed

end
