(* ===== verification/Roster_Props.thy ===== *)
theory Roster_Props
  imports Guild_Sample
begin

text \<open>
  The size of roster packets. The loops stop before the packet passes what the client accepts, and the number at its start is the
  number of members in it.
\<close>

section \<open>Sizes\<close>

abbreviation size_of :: "packet_field list \<Rightarrow> nat" where
  "size_of fs \<equiv> length (data_bytes fs)"

lemma size_of_simps [simp]:
  "size_of [] = 0" "size_of (f # fs) = length (field_bytes f) + size_of fs" "size_of (fs @ gs) = size_of fs + size_of gs"
  by (simp_all add: data_bytes_def)

lemma size_of_concat: "size_of (concat (map f xs)) = sum_list (map (size_of \<circ> f) xs)"
  by (induction xs) (simp_all add: data_bytes_def)

lemma length_string_bytes [simp]: "length (string_bytes str) = length str"
  by (simp add: string_bytes_def)

lemma field_sizes [simp]:
  "length (field_bytes (F8 a)) = 1" "length (field_bytes (F32 b)) = 4" "length (field_bytes (F64 c)) = 8"
  "length (field_bytes (FString str)) = length str + 1"
  by simp_all

lemma header_size_of: "size_of (roster_header cnt g) = header_size g"
  by (simp add: roster_header_def header_size_def data_bytes_def length_concat comp_def sum_list_triv)

text \<open>Names of at most 12 bytes and notes of at most 31.\<close>

definition info_small :: "member_info \<Rightarrow> bool" where
  "info_small i = (length (ms_Name (mi_Slot i)) \<le> 12 \<and> length (ms_PublicNote (mi_Slot i)) \<le> GUILD_NOTE_MAX_LENGTH \<and>
     length (ms_OfficerNote (mi_Slot i)) \<le> GUILD_NOTE_MAX_LENGTH \<and>
     (case mi_Member i of None \<Rightarrow> True | Some p \<Rightarrow> length (pl_name (gp_player p)) \<le> 12))"

lemma entry_size:
  assumes "info_small i"
  shows "size_of (member_entry e notes i) \<le> 39 + length (ms_PublicNote (mi_Slot i)) + length (ms_OfficerNote (mi_Slot i))"
    "size_of (member_entry e notes i) \<le> GUILD_MEMBER_BLOCK_SIZE + 1"
  using assms
  by (auto simp: member_entry_def info_small_def player_fields_def slot_fields_def note_field_def GUILD_MEMBER_BLOCK_SIZE_def
      split: option.splits)

section \<open>The loops\<close>

lemma write_members_entries:
  "\<exists>js. write_members cap skip entry is (data, n) = (data @ concat (map entry js), n + length js) \<and> set js \<subseteq> set is \<and>
     length js \<le> length is \<and> (\<forall>f :: member_info \<Rightarrow> nat. sum_list (map f js) \<le> sum_list (map f is))"
proof (induction "is" arbitrary: data n)
  case (Cons i "is")
  show ?case
  proof (cases "skip i")
    case True
    obtain js where "write_members cap skip entry is (data, n) = (data @ concat (map entry js), n + length js)" "set js \<subseteq> set is"
      "length js \<le> length is" "\<forall>f :: member_info \<Rightarrow> nat. sum_list (map f js) \<le> sum_list (map f is)" using Cons.IH by blast
    then show ?thesis using True by (intro exI [of _ js]) (auto intro: le_SucI trans_le_add2)
  next
    case False
    show ?thesis
    proof (cases "\<not> cap \<and> size_of data + GUILD_MEMBER_BLOCK_SIZE \<ge> MAX_UNCOMPRESSED_PACKET_SIZE")
      case True
      then show ?thesis using False by (intro exI [of _ "[]"]) auto
    next
      case go: False
      obtain js where "write_members cap skip entry is (data @ entry i, Suc n) = ((data @ entry i) @ concat (map entry js), Suc n + length js)"
        "set js \<subseteq> set is" "length js \<le> length is" "\<forall>f :: member_info \<Rightarrow> nat. sum_list (map f js) \<le> sum_list (map f is)"
        using Cons.IH by blast
      then show ?thesis using False go by (intro exI [of _ "i # js"]) auto
    qed
  qed
qed auto

text \<open>Without room for all, the loop stops in time.\<close>

lemma write_members_bounded:
  assumes "\<And>i. i \<in> set is \<Longrightarrow> size_of (entry i) \<le> GUILD_MEMBER_BLOCK_SIZE + 1" and "size_of data \<le> MAX_UNCOMPRESSED_PACKET_SIZE"
  shows "size_of (fst (write_members False skip entry is (data, n))) \<le> MAX_UNCOMPRESSED_PACKET_SIZE"
  using assms
proof (induction "is" arbitrary: data n)
  case (Cons i "is")
  have "size_of (data @ entry i) \<le> MAX_UNCOMPRESSED_PACKET_SIZE"
    if "\<not> size_of data + GUILD_MEMBER_BLOCK_SIZE \<ge> MAX_UNCOMPRESSED_PACKET_SIZE"
  proof -
    have "size_of (entry i) \<le> GUILD_MEMBER_BLOCK_SIZE + 1" using Cons.prems(1) by simp
    then have "size_of data + size_of (entry i) \<le> MAX_UNCOMPRESSED_PACKET_SIZE" using that by linarith
    then show ?thesis by simp
  qed
  then show ?case using Cons by simp
qed simp

lemma sort_by_rank_perm:
  assumes "\<And>ks. mset (ge_sort e ks) = mset [0..<length ks]"
  shows "mset (sort_by_rank e is) = mset is"
proof -
  have "mset (sort_by_rank e is) = image_mset ((!) is) (mset [0..<length is])"
    using assms [of "map (ms_RankId \<circ> mi_Slot) is"] by (simp add: sort_by_rank_def)
  also have "\<dots> = mset (map ((!) is) [0..<length is])" by (simp only: mset_map)
  also have "\<dots> = mset is" by (simp only: map_nth)
  finally show ?thesis .
qed

lemma finish_header: "finish_roster (roster_header c g @ xs, n) = Packet SMSG_GUILD_ROSTER (roster_header (word_of_nat n) g @ xs)"
  by (simp add: finish_roster_def roster_header_def)

section \<open>The roster\<close>

definition info_size :: "member_info \<Rightarrow> nat" where
  "info_size i = GUILD_MEMBER_BLOCK_SIZE_WITHOUT_NOTE
     + (length (ms_PublicNote (mi_Slot i)) + 1 + length (ms_OfficerNote (mi_Slot i)) + 1)"

lemma sum_entries:
  assumes "\<And>i. i \<in> set js \<Longrightarrow> info_small i"
  shows "size_of (concat (map (member_entry e notes) js)) \<le> sum_list (map info_size js)"
  unfolding size_of_concat
proof (rule sum_list_mono)
  fix i assume "i \<in> set js"
  then show "(size_of \<circ> member_entry e notes) i \<le> info_size i"
    using entry_size(1) [OF assms [of i], of e "notes"] by (simp add: info_size_def GUILD_MEMBER_BLOCK_SIZE_WITHOUT_NOTE_def)
qed

lemma sum_take: "sum_list (map f (take n xs)) \<le> sum_list (map f xs)" for f :: "'a \<Rightarrow> nat"
  by (metis append_take_drop_id le_add1 map_append sum_list_append)

lemma sum_split: "sum_list (map f (filter P xs)) + sum_list (map f (filter (\<lambda>x. \<not> P x) xs)) = sum_list (map f xs)" for f :: "'a \<Rightarrow> nat"
  by (induction xs) simp_all

lemma total_bounded:
  assumes "list_all info_small infos" and "length infos \<le> 40000000"
  shows "sum_list (map info_size infos) \<le> 4040000000"
proof -
  have "sum_list (map info_size infos) \<le> sum_list (map (\<lambda>_. 101) infos)"
    using assms(1) by (intro sum_list_mono)
      (auto simp: info_size_def info_small_def list_all_iff GUILD_MEMBER_BLOCK_SIZE_WITHOUT_NOTE_def dest!: bspec)
  also have "\<dots> \<le> 101 * 40000000" using assms(2) by (simp add: sum_list_triv)
  finally show ?thesis by simp
qed

text \<open>The loop over the members that are online and then the one over the others.\<close>

lemma write_twice:
  obtains zs where "write_members cap q entry ys (write_members cap p entry xs (h, 0)) = (h @ concat (map entry zs), length zs)"
    "set zs \<subseteq> set xs \<union> set ys" "length zs \<le> length xs + length ys"
    "\<And>f :: member_info \<Rightarrow> nat. sum_list (map f zs) \<le> sum_list (map f xs) + sum_list (map f ys)"
proof -
  obtain js where js: "write_members cap p entry xs (h, 0) = (h @ concat (map entry js), 0 + length js)" "set js \<subseteq> set xs" "length js \<le> length xs"
    "\<forall>f :: member_info \<Rightarrow> nat. sum_list (map f js) \<le> sum_list (map f xs)"
    using write_members_entries by blast
  obtain ks where ks: "write_members cap q entry ys (h @ concat (map entry js), 0 + length js) =
      ((h @ concat (map entry js)) @ concat (map entry ks), 0 + length js + length ks)" "set ks \<subseteq> set ys" "length ks \<le> length ys"
    "\<forall>f :: member_info \<Rightarrow> nat. sum_list (map f ks) \<le> sum_list (map f ys)"
    using write_members_entries by blast
  show thesis by (rule that [of "js @ ks"]) (use js ks in \<open>auto intro: add_mono\<close>)
qed

lemma write_twice_bounded:
  assumes "\<And>i. i \<in> set xs \<union> set ys \<Longrightarrow> size_of (entry i) \<le> GUILD_MEMBER_BLOCK_SIZE + 1" and "size_of h \<le> MAX_UNCOMPRESSED_PACKET_SIZE"
  shows "size_of (fst (write_members False q entry ys (write_members False p entry xs (h, n)))) \<le> MAX_UNCOMPRESSED_PACKET_SIZE"
proof -
  have "size_of (fst (write_members False p entry xs (h, n))) \<le> MAX_UNCOMPRESSED_PACKET_SIZE"
    using assms by (intro write_members_bounded) simp_all
  then show ?thesis using assms by (cases "write_members False p entry xs (h, n)") (simp add: write_members_bounded)
qed



end
