(* ===== verification/Name_Check.thy ===== *)
theory Name_Check
  imports Utf8
begin

text \<open>
  Which names a guild may have: the character classes of \<^verbatim>\<open>src/src/shared/Util.h\<close> and, from
  \<^verbatim>\<open>src/src/game/ObjectMgr.cpp\<close>, \<^verbatim>\<open>isValidString\<close>, \<^verbatim>\<open>IsReservedName\<close> and \<^verbatim>\<open>IsValidCharterName\<close>. The reserved
  names, which the server loads in lower case, and the configuration are a record.
\<close>

record name_env =
  ne_ReservedNames :: "u32 list list"
  ne_minCharterName :: u32
  ne_strictCharterNames :: u32
  ne_realmZone :: u32

section \<open>Characters\<close>

definition isBasicLatinCharacter :: "u32 \<Rightarrow> bool" where
  "isBasicLatinCharacter c = (0x61 \<le> c \<and> c \<le> 0x7A \<or> 0x41 \<le> c \<and> c \<le> 0x5A)"

definition isExtendedLatinCharacter :: "u32 \<Rightarrow> bool" where
  "isExtendedLatinCharacter c =
     (isBasicLatinCharacter c \<or> 0xC0 \<le> c \<and> c \<le> 0xD6 \<or> 0xD8 \<le> c \<and> c \<le> 0xDE \<or> c = 0xDF \<or>
      0xE0 \<le> c \<and> c \<le> 0xF6 \<or> 0xF8 \<le> c \<and> c \<le> 0xFE \<or> 0x100 \<le> c \<and> c \<le> 0x12F \<or> c = 0x1E9E)"

definition isCyrillicCharacter :: "u32 \<Rightarrow> bool" where
  "isCyrillicCharacter c = (0x410 \<le> c \<and> c \<le> 0x44F \<or> c = 0x401 \<or> c = 0x451)"

definition isEastAsianCharacter :: "u32 \<Rightarrow> bool" where
  "isEastAsianCharacter c =
     (0x1100 \<le> c \<and> c \<le> 0x11F9 \<or> 0x3041 \<le> c \<and> c \<le> 0x30FF \<or> 0x3131 \<le> c \<and> c \<le> 0x318E \<or>
      0x31F0 \<le> c \<and> c \<le> 0x31FF \<or> 0x3400 \<le> c \<and> c \<le> 0x4DB5 \<or> 0x4E00 \<le> c \<and> c \<le> 0x9FC3 \<or>
      0xAC00 \<le> c \<and> c \<le> 0xD7A3 \<or> 0xFF01 \<le> c \<and> c \<le> 0xFFEE)"

definition isNumeric :: "u32 \<Rightarrow> bool" where
  "isNumeric c = (0x30 \<le> c \<and> c \<le> 0x39)"

definition isNumericOrSpace :: "u32 \<Rightarrow> bool" where
  "isNumericOrSpace c = (isNumeric c \<or> c = 0x20)"

section \<open>Strings\<close>

definition isBasicLatinString :: "u32 list \<Rightarrow> bool \<Rightarrow> bool" where
  "isBasicLatinString w numericOrSpace =
     list_all (\<lambda>c. isBasicLatinCharacter c \<or> numericOrSpace \<and> isNumericOrSpace c) w"

definition isExtendedLatinString :: "u32 list \<Rightarrow> bool \<Rightarrow> bool" where
  "isExtendedLatinString w numericOrSpace =
     list_all (\<lambda>c. isExtendedLatinCharacter c \<or> numericOrSpace \<and> isNumericOrSpace c) w"

definition isCyrillicString :: "u32 list \<Rightarrow> bool \<Rightarrow> bool" where
  "isCyrillicString w numericOrSpace =
     list_all (\<lambda>c. isCyrillicCharacter c \<or> numericOrSpace \<and> isNumericOrSpace c) w"

definition isEastAsianString :: "u32 list \<Rightarrow> bool \<Rightarrow> bool" where
  "isEastAsianString w numericOrSpace =
     list_all (\<lambda>c. isEastAsianCharacter c \<or> numericOrSpace \<and> isNumericOrSpace c) w"

abbreviation LT_BASIC_LATIN :: u32 where "LT_BASIC_LATIN \<equiv> 0"
abbreviation LT_EXTENDEN_LATIN :: u32 where "LT_EXTENDEN_LATIN \<equiv> 1"
abbreviation LT_CYRILLIC :: u32 where "LT_CYRILLIC \<equiv> 2"
abbreviation LT_EAST_ASIA :: u32 where "LT_EAST_ASIA \<equiv> 4"
abbreviation LT_ANY :: u32 where "LT_ANY \<equiv> 0xFFFF"

definition GetRealmLanguageType :: "u32 \<Rightarrow> bool \<Rightarrow> u32" where
  "GetRealmLanguageType zone create =
     (if zone \<in> {0, 1, 26, 28} then LT_ANY
      else if zone \<in> {2, 3, 4, 8, 9, 10, 11} then LT_EXTENDEN_LATIN
      else if zone \<in> {6, 14, 16} then LT_EAST_ASIA
      else if zone = 12 then LT_CYRILLIC
      else if create then LT_BASIC_LATIN else LT_ANY)"

definition isValidString :: "u32 \<Rightarrow> u32 list \<Rightarrow> u32 \<Rightarrow> bool \<Rightarrow> bool \<Rightarrow> bool" where
  "isValidString zone w strictMask numericOrSpace create =
     (if strictMask = 0
      then isExtendedLatinString w numericOrSpace \<or> isCyrillicString w numericOrSpace \<or> isEastAsianString w numericOrSpace
      else strictMask AND 2 \<noteq> 0 \<and>
             (let lt = GetRealmLanguageType zone create
              in lt AND LT_EXTENDEN_LATIN \<noteq> 0 \<and> isExtendedLatinString w numericOrSpace \<or>
                 lt AND LT_CYRILLIC \<noteq> 0 \<and> isCyrillicString w numericOrSpace \<or>
                 lt AND LT_EAST_ASIA \<noteq> 0 \<and> isEastAsianString w numericOrSpace) \<or>
           strictMask AND 1 \<noteq> 0 \<and> isBasicLatinString w numericOrSpace)"

section \<open>Names\<close>

abbreviation MAX_CHARTER_NAME :: nat where "MAX_CHARTER_NAME \<equiv> 24"

definition IsReservedName :: "name_env \<Rightarrow> string \<Rightarrow> bool" where
  "IsReservedName n name =
     (case Utf8toWStr name of None \<Rightarrow> False | Some w \<Rightarrow> map wcharToLower w \<in> set (ne_ReservedNames n))"

definition IsValidCharterName :: "name_env \<Rightarrow> string \<Rightarrow> bool" where
  "IsValidCharterName n name =
     (case Utf8toWStr name of
        None \<Rightarrow> False
      | Some w \<Rightarrow> length w \<le> MAX_CHARTER_NAME \<and> unat (ne_minCharterName n) \<le> length w \<and>
                  isValidString (ne_realmZone n) w (ne_strictCharterNames n) True False)"

end
