(* ===== verification/Charters.thy ===== *)
theory Charters
  imports Guild_Session Name_Check
begin

text \<open>
  Guild charters: \<^verbatim>\<open>Petition\<close> and \<^verbatim>\<open>PetitionSignature\<close> of \<^verbatim>\<open>src/src/game/Guild/GuildMgr.cpp\<close> and the handlers of
  \<^verbatim>\<open>src/src/game/Handlers/PetitionsHandler.cpp\<close>. A pointer to a petition is the id under which the manager keeps it.
  The charter is an item whose first enchantment is the id of the petition. The end of feigned death, the
  notice of a new item and the saving of the inventory are left out.
\<close>

section \<open>Petitions\<close>

definition GetPetitionById :: "u32 \<Rightarrow> gs \<Rightarrow> petition option" where
  "GetPetitionById pid s = um_find pid (s_petitions s)"

definition GetPetitionByCharterGuid :: "guid \<Rightarrow> gs \<Rightarrow> u32 option" where
  "GetPetitionByCharterGuid g s = map_option fst (find (\<lambda>(_, p). p_charterGuid p = g) (s_petitions s))"

definition upd_petition :: "u32 \<Rightarrow> (petition \<Rightarrow> petition) \<Rightarrow> gs \<Rightarrow> gs" where
  "upd_petition pid f s = s\<lparr>s_petitions := um_update pid f (s_petitions s)\<rparr>"

definition GetSignatureCount :: "petition \<Rightarrow> u8" where
  "GetSignatureCount p = word_of_nat (length (p_signatures p))"

definition IsComplete :: "genv \<Rightarrow> petition \<Rightarrow> bool" where
  "IsComplete e p = (length (p_signatures p) = unat (ge_minSigns e))"

definition GetSignatureForAccount :: "u32 \<Rightarrow> petition \<Rightarrow> petition_signature option" where
  "GetSignatureForAccount account p = find (\<lambda>sg. ps_playerAccount sg = account) (p_signatures p)"

definition GetSignatureForPlayer :: "guid \<Rightarrow> gplayer \<Rightarrow> petition \<Rightarrow> petition_signature option" where
  "GetSignatureForPlayer me p pet =
     (case GetSignatureForAccount (gp_account p) pet of
        Some sg \<Rightarrow> Some sg
      | None \<Rightarrow> find (\<lambda>sg. ps_playerGuid sg = me) (p_signatures pet))"

text \<open>The table \<^verbatim>\<open>petition\<close> has two keys, the owner and the charter; \<^verbatim>\<open>petition_sign\<close> has the petition with the player.\<close>

definition petition_row_of :: "petition \<Rightarrow> petition_row" where
  "petition_row_of p = \<lparr>pt_ownerguid = GetCounter (p_ownerGuid p), pt_petitionguid = p_id p,
     pt_charterguid = GetCounter (p_charterGuid p), pt_name = p_name p\<rparr>"

definition Petition_SaveToDB :: "petition \<Rightarrow> gs \<Rightarrow> gs" where
  "Petition_SaveToDB p =
     upd_db (\<lambda>db. let r = petition_row_of p in
       if list_ex (\<lambda>q. pt_ownerguid q = pt_ownerguid r \<or> pt_charterguid q = pt_charterguid r) (t_petition db) then db
       else db\<lparr>t_petition := t_petition db @ [r]\<rparr>)"

definition Petition_Rename :: "u32 \<Rightarrow> string \<Rightarrow> gs \<Rightarrow> gs" where
  "Petition_Rename pid newname s =
     upd_petition pid (\<lambda>p. p\<lparr>p_name := newname\<rparr>)
       (upd_db (\<lambda>db. db\<lparr>t_petition := update_where (\<lambda>r. pt_petitionguid r = pid) (\<lambda>r. r\<lparr>pt_name := newname\<rparr>) (t_petition db)\<rparr>) s)"

definition sign_row_of :: "petition \<Rightarrow> petition_signature \<Rightarrow> sign_row" where
  "sign_row_of p sg = \<lparr>sg_ownerguid = GetCounter (p_ownerGuid p), sg_petitionguid = p_id p,
     sg_playerguid = GetCounter (ps_playerGuid sg), sg_account = ps_playerAccount sg\<rparr>"

definition sign_key :: "sign_row \<Rightarrow> u32 \<times> u32" where
  "sign_key r = (sg_petitionguid r, sg_playerguid r)"

definition Signature_SaveToDB :: "petition \<Rightarrow> petition_signature \<Rightarrow> gs \<Rightarrow> gs" where
  "Signature_SaveToDB p sg = upd_db (\<lambda>db. db\<lparr>t_sign := insert_row sign_key (sign_row_of p sg) (t_sign db)\<rparr>)"

definition AddSignature :: "u32 \<Rightarrow> petition_signature \<Rightarrow> gs \<Rightarrow> gs" where
  "AddSignature pid sg = upd_petition pid (\<lambda>p. p\<lparr>p_signatures := p_signatures p @ [sg]\<rparr>)"

definition AddNewSignature :: "genv \<Rightarrow> u32 \<Rightarrow> guid \<Rightarrow> gplayer \<Rightarrow> gs \<Rightarrow> bool \<times> gs" where
  "AddNewSignature e pid me p s =
     (case GetPetitionById pid s of
        None \<Rightarrow> (False, s)
      | Some pet \<Rightarrow>
          if IsComplete e pet then (False, s)
          else let sg = \<lparr>ps_playerGuid = me, ps_playerAccount = gp_account p\<rparr>
               in (True, AddSignature pid sg (Signature_SaveToDB pet sg s)))"

definition CreatePetition :: "genv \<Rightarrow> u32 \<Rightarrow> guid \<Rightarrow> gplayer \<Rightarrow> guid \<Rightarrow> string \<Rightarrow> gs \<Rightarrow> gs" where
  "CreatePetition e pid me p charterGuid name s =
     (let pet = \<lparr>p_id = pid, p_charterGuid = charterGuid, p_ownerGuid = me, p_name = name, p_team = gp_team p, p_signatures = []\<rparr>;
          s1 = Petition_SaveToDB pet s
      in s1\<lparr>s_petitions := um_put (ge_order e) pid pet (s_petitions s1)\<rparr>)"

section \<open>Loading\<close>

definition GetPlayerTeamByGUID :: "genv \<Rightarrow> guid \<Rightarrow> gs \<Rightarrow> u32" where
  "GetPlayerTeamByGUID e g s =
     (case FindPlayer g s of
        Some p \<Rightarrow> gp_team p
      | None \<Rightarrow> (case ge_cache e (GetCounter g) of Some d \<Rightarrow> pc_team d | None \<Rightarrow> 0))"

definition Petition_LoadFromDB :: "genv \<Rightarrow> petition_row \<Rightarrow> gs \<Rightarrow> petition" where
  "Petition_LoadFromDB e r s =
     (let owner = player_guid (pt_ownerguid r)
      in \<lparr>p_id = pt_petitionguid r, p_charterGuid = ObjectGuid2 HIGHGUID_ITEM (pt_charterguid r), p_ownerGuid = owner,
          p_name = pt_name r, p_team = GetPlayerTeamByGUID e owner s, p_signatures = []\<rparr>)"

definition load_petition :: "genv \<Rightarrow> petition_row \<Rightarrow> gs \<Rightarrow> gs" where
  "load_petition e r s =
     s\<lparr>s_petitions := um_put (ge_order e) (pt_petitionguid r) (Petition_LoadFromDB e r s) (s_petitions s)\<rparr>"

definition load_sign :: "sign_row \<Rightarrow> gs \<Rightarrow> gs" where
  "load_sign r s =
     (case GetPetitionById (sg_petitionguid r) s of
        None \<Rightarrow> upd_db (\<lambda>db. db\<lparr>t_sign := delete_where (\<lambda>q. sg_petitionguid q = sg_petitionguid r) (t_sign db)\<rparr>) s
      | Some p \<Rightarrow>
          let s1 = (if player_guid (sg_ownerguid r) \<noteq> p_ownerGuid p
                    then upd_db (\<lambda>db. db\<lparr>t_sign := update_where (\<lambda>q. sg_petitionguid q = p_id p)
                           (\<lambda>q. q\<lparr>sg_ownerguid := GetCounter (p_ownerGuid p)\<rparr>) (t_sign db)\<rparr>) s
                    else s)
          in AddSignature (sg_petitionguid r)
               \<lparr>ps_playerGuid = player_guid (sg_playerguid r), ps_playerAccount = sg_account r\<rparr> s1)"

definition CleanUpPetitions :: "gs \<Rightarrow> gs" where
  "CleanUpPetitions s = s\<lparr>s_petitions := []\<rparr>"

definition LoadPetitions :: "genv \<Rightarrow> gs \<Rightarrow> gs" where
  "LoadPetitions e s =
     (if t_petition (s_db s) = [] then CleanUpPetitions s
      else fold load_sign (t_sign (s_db s)) (fold (load_petition e) (t_petition (s_db s)) (CleanUpPetitions s)))"

section \<open>Charters among the items of a player\<close>

abbreviation GUILD_CHARTER :: u32 where "GUILD_CHARTER \<equiv> 5863"
abbreviation GUILD_CHARTER_COST :: u32 where "GUILD_CHARTER_COST \<equiv> 1000"
abbreviation CHARTER_DISPLAY_ID :: u32 where "CHARTER_DISPLAY_ID \<equiv> 16161"

definition GetItemByGuid :: "guid \<Rightarrow> player \<Rightarrow> ptr option" where
  "GetItemByGuid g pl =
     find (\<lambda>p. ObjectGuid2 HIGHGUID_ITEM (it_lowguid (pl_heap pl p)) = g)
       (slot_items pl 0 39 @ slot_items pl 81 113 @ concat (map (\<lambda>b. bag_items (pl_heap pl b)) (slot_items pl 19 23)) @
        slot_items pl 39 63 @ concat (map (\<lambda>b. bag_items (pl_heap pl b)) (slot_items pl 63 69)))"

definition petition_of :: "ptr \<Rightarrow> player \<Rightarrow> u32" where
  "petition_of c pl = it_enchants (pl_heap pl c) ! 0"

text \<open>The client sends 0 when the charter is in a bag; then the first charter in a bag is taken.\<close>

definition find_charter :: "world \<Rightarrow> guid \<Rightarrow> player \<Rightarrow> ptr option" where
  "find_charter w g pl =
     (case GetItemByGuid g pl of
        Some c \<Rightarrow> Some c
      | None \<Rightarrow> find (\<lambda>p. ip_ItemId (GetProto w (pl_heap pl p)) = GUILD_CHARTER)
                  (concat (map (\<lambda>b. bag_items (pl_heap pl b)) (slot_items pl 19 23))))"

text \<open>\<^verbatim>\<open>Player::DestroyItem\<close>, with the petitions of destroyed charters deleted.\<close>

fun petition_events :: "player_event list \<Rightarrow> u32 list" where
  "petition_events [] = []"
| "petition_events (ev # evs) = (case ev of player_event.DeletePetition pid \<Rightarrow> pid # petition_events evs | _ \<Rightarrow> petition_events evs)"

definition delete_petition :: "u32 \<Rightarrow> gs \<Rightarrow> gs" where
  "delete_petition pid s = (case GetPetitionById pid s of None \<Rightarrow> s | Some _ \<Rightarrow> DeletePetition pid s)"

definition destroy_item :: "genv \<Rightarrow> guid \<Rightarrow> u8 \<Rightarrow> u8 \<Rightarrow> gs \<Rightarrow> gs" where
  "destroy_item e me bag slot s =
     (case s_players s me of
        None \<Rightarrow> s
      | Some p \<Rightarrow>
          let pl = gp_player p; pl' = DestroyItem (ge_world e) bag slot True pl
          in fold delete_petition (petition_events (drop (length (pl_events pl)) (pl_events pl')))
               (upd_gplayer me (\<lambda>p. p\<lparr>gp_player := pl'\<rparr>) s))"

section \<open>Handlers\<close>

text \<open>\<open>npc\<close> says that the player can interact with the petitioner, \<open>designer\<close> that it sells tabards; \<open>buyCount\<close> is that of the charter.\<close>

definition SendBuyError :: "guid \<Rightarrow> u8 \<Rightarrow> guid \<Rightarrow> u32 \<Rightarrow> gs \<Rightarrow> gs" where
  "SendBuyError me msg creature entry = SendPacket me (Packet SMSG_BUY_FAILED [F64 creature, F32 entry, F8 msg])"

primrec equip_code :: "InventoryResult \<Rightarrow> u8" where
  "equip_code EQUIP_ERR_OK = 0"
| "equip_code EQUIP_ERR_ITEM_DOESNT_GO_TO_SLOT = 3"
| "equip_code EQUIP_ERR_NONEMPTY_BAG_OVER_OTHER_BAG = 5"
| "equip_code EQUIP_ERR_ITEM_DOESNT_GO_INTO_BAG = 15"
| "equip_code EQUIP_ERR_CANT_CARRY_MORE_OF_THIS = 17"
| "equip_code EQUIP_ERR_ITEM_CANT_STACK = 19"
| "equip_code EQUIP_ERR_ITEMS_CANT_BE_SWAPPED = 21"
| "equip_code EQUIP_ERR_ITEM_NOT_FOUND = 23"
| "equip_code EQUIP_ERR_CAN_ONLY_DO_WITH_EMPTY_BAGS = 31"
| "equip_code EQUIP_ERR_DONT_OWN_THAT_ITEM = 32"
| "equip_code EQUIP_ERR_ALREADY_LOOTED = 49"
| "equip_code EQUIP_ERR_INVENTORY_FULL = 50"

definition SendEquipError :: "guid \<Rightarrow> InventoryResult \<Rightarrow> gs \<Rightarrow> gs" where
  "SendEquipError me msg =
     SendPacket me (Packet SMSG_INVENTORY_CHANGE_FAILURE
       (F8 (equip_code msg) # (if msg = EQUIP_ERR_OK then [] else [F64 0, F64 0, F8 0])))"

definition sell_charter :: "genv \<Rightarrow> guid \<Rightarrow> item_pos list \<Rightarrow> string \<Rightarrow> gplayer \<Rightarrow> gs \<Rightarrow> gs" where
  "sell_charter e me dest name p s =
     (let w = ge_world e;
          (charter, pl2) = StoreNewItem w dest GUILD_CHARTER True 0 (ModifyMoney w (- GUILD_CHARTER_COST) (gp_player p))
      in case charter of
           None \<Rightarrow> upd_gplayer me (\<lambda>p. p\<lparr>gp_player := pl2\<rparr>) s
         | Some c \<Rightarrow>
             let petitionId = s_nextPetitionId s;
                 pl3 = SetState c ITEM_CHANGED True
                         (upd_item c (\<lambda>it. it\<lparr>it_enchants := (it_enchants it)[0 := petitionId]\<rparr>) pl2);
                 s1 = upd_gplayer me (\<lambda>p. p\<lparr>gp_player := pl3\<rparr>) (s\<lparr>s_nextPetitionId := petitionId + 1\<rparr>)
             in CreatePetition e petitionId me p (ObjectGuid2 HIGHGUID_ITEM (it_lowguid (pl_heap pl3 c))) name s1)"

definition HandlePetitionBuyOpcode :: "genv \<Rightarrow> name_env \<Rightarrow> u32 \<Rightarrow> guid \<Rightarrow> guid \<Rightarrow> bool \<Rightarrow> bool \<Rightarrow> string \<Rightarrow> gs \<Rightarrow> gs" where
  "HandlePetitionBuyOpcode e n buyCount me guidNPC npc designer name s =
     (case s_players s me of
        None \<Rightarrow> s
      | Some p \<Rightarrow>
          if \<not> npc \<or> \<not> designer \<or> gp_guildId p \<noteq> 0 \<or> GetPetitionByOwnerGuid me s \<noteq> None then s
          else if GetGuildByName name s \<noteq> None then SendGuildCommandResult me GUILD_CREATE_S name ERR_GUILD_NAME_EXISTS_S s
          else if IsReservedName n name \<or> \<not> IsValidCharterName n name
          then SendGuildCommandResult me GUILD_CREATE_S name ERR_GUILD_NAME_INVALID s
          else if w_proto (ge_world e) GUILD_CHARTER = None then SendBuyError me 0 0 GUILD_CHARTER s
          else if pl_money (gp_player p) < GUILD_CHARTER_COST then SendBuyError me 2 guidNPC GUILD_CHARTER s
          else case CanStoreNewItem (ge_world e) (gp_player p) NULL_BAG NULL_SLOT GUILD_CHARTER buyCount of
                 (msg, dest, _) \<Rightarrow>
                   if msg \<noteq> EQUIP_ERR_OK then SendEquipError me msg s else sell_charter e me dest name p s)"

definition signature_fields :: "guid \<Rightarrow> guid \<Rightarrow> u32 \<Rightarrow> petition \<Rightarrow> packet_field list" where
  "signature_fields itemguid owner petitionguid pet =
     [F64 itemguid, F64 owner, F32 petitionguid, F8 (GetSignatureCount pet)]
     @ concat (map (\<lambda>sg. [F64 (ps_playerGuid sg), F32 0]) (p_signatures pet))"

definition HandlePetitionShowSignOpcode :: "guid \<Rightarrow> guid \<Rightarrow> gs \<Rightarrow> gs" where
  "HandlePetitionShowSignOpcode me itemguid s =
     (case s_players s me of
        None \<Rightarrow> s
      | Some p \<Rightarrow>
          if gp_guildId p \<noteq> 0 then s
          else case GetItemByGuid itemguid (gp_player p) of
                 None \<Rightarrow> s
               | Some c \<Rightarrow>
                   let petitionguid = petition_of c (gp_player p)
                   in case GetPetitionById petitionguid s of
                        None \<Rightarrow> s
                      | Some pet \<Rightarrow>
                          SendPacket me (Packet SMSG_PETITION_SHOW_SIGNATURES (signature_fields itemguid me petitionguid pet)) s)"

definition HandlePetitionQueryOpcode :: "guid \<Rightarrow> u32 \<Rightarrow> gs \<Rightarrow> gs" where
  "HandlePetitionQueryOpcode me petitionguid s =
     (case GetPetitionById petitionguid s of
        None \<Rightarrow> s
      | Some pet \<Rightarrow>
          SendPacket me (Packet SMSG_PETITION_QUERY_RESPONSE
            ([F32 petitionguid, F64 (p_ownerGuid pet), FString (p_name pet), F8 0, F32 1, F32 9, F32 9]
             @ replicate 5 (F32 0) @ [F16 0] @ replicate 4 (F32 0))) s)"

definition HandlePetitionRenameOpcode :: "name_env \<Rightarrow> guid \<Rightarrow> guid \<Rightarrow> string \<Rightarrow> gs \<Rightarrow> gs" where
  "HandlePetitionRenameOpcode n me itemGuid newname s =
     (case Option.bind (s_players s me) (\<lambda>p. map_option (\<lambda>c. petition_of c (gp_player p)) (GetItemByGuid itemGuid (gp_player p))) of
        None \<Rightarrow> s
      | Some petitionguid \<Rightarrow>
          if GetGuildByName newname s \<noteq> None then SendGuildCommandResult me GUILD_CREATE_S newname ERR_GUILD_NAME_EXISTS_S s
          else if IsReservedName n newname \<or> \<not> IsValidCharterName n newname
          then SendGuildCommandResult me GUILD_CREATE_S newname ERR_GUILD_NAME_INVALID s
          else case GetPetitionById petitionguid s of
                 None \<Rightarrow> s
               | Some pet \<Rightarrow> SendPacket me (Packet MSG_PETITION_RENAME [F64 itemGuid, FString newname])
                               (Petition_Rename petitionguid newname s))"

abbreviation PETITION_SIGN_OK :: u32 where "PETITION_SIGN_OK \<equiv> 0"
abbreviation PETITION_SIGN_ALREADY_SIGNED :: u32 where "PETITION_SIGN_ALREADY_SIGNED \<equiv> 1"
abbreviation PETITION_SIGN_ALREADY_IN_GUILD :: u32 where "PETITION_SIGN_ALREADY_IN_GUILD \<equiv> 2"
abbreviation PETITION_SIGN_CANT_SIGN_OWN :: u32 where "PETITION_SIGN_CANT_SIGN_OWN \<equiv> 3"
abbreviation PETITION_SIGN_NEED_MORE :: u32 where "PETITION_SIGN_NEED_MORE \<equiv> 4"

definition sign_result :: "guid \<Rightarrow> guid \<Rightarrow> u32 \<Rightarrow> world_packet" where
  "sign_result itemGuid me code = Packet SMSG_PETITION_SIGN_RESULTS [F64 itemGuid, F64 me, F32 code]"

definition to_owner :: "guid \<Rightarrow> (gs \<Rightarrow> gs) \<Rightarrow> gs \<Rightarrow> gs" where
  "to_owner owner f s = (case FindPlayer owner s of None \<Rightarrow> s | Some _ \<Rightarrow> f s)"

text \<open>A previous signature is withdrawn before the new one is put.\<close>

definition put_signature :: "genv \<Rightarrow> guid \<Rightarrow> guid \<Rightarrow> u32 \<Rightarrow> guid \<Rightarrow> gplayer \<Rightarrow> gs \<Rightarrow> gs" where
  "put_signature e me itemGuid pid owner p s =
     (let (added, s1) = AddNewSignature e pid me p (withdraw_signature me s);
          ok = sign_result itemGuid me PETITION_SIGN_OK
      in if added then to_owner owner (SendPacket owner ok) (SendPacket me ok s1) else s1)"

definition HandlePetitionSignOpcode :: "genv \<Rightarrow> guid \<Rightarrow> guid \<Rightarrow> gs \<Rightarrow> gs" where
  "HandlePetitionSignOpcode e me itemGuid s =
     (case (s_players s me, GetPetitionByCharterGuid itemGuid s) of
        (Some p, Some pid) \<Rightarrow>
          (case GetPetitionById pid s of
             None \<Rightarrow> s
           | Some pet \<Rightarrow>
               let owner = p_ownerGuid pet; myName = pl_name (gp_player p) in
               if IsComplete e pet then s
               else if owner = me then SendPacket me (sign_result itemGuid me PETITION_SIGN_CANT_SIGN_OWN) s
               else if \<not> ge_twoSide e \<and> gp_team p \<noteq> p_team pet
               then SendGuildCommandResult me GUILD_CREATE_S [] ERR_GUILD_NOT_ALLIED s
               else if gp_guildId p \<noteq> 0 then SendGuildCommandResult me GUILD_INVITE_S myName ERR_ALREADY_IN_GUILD_S s
               else if gp_GuildIdInvited p \<noteq> 0
               then SendGuildCommandResult me GUILD_INVITE_S myName ERR_ALREADY_INVITED_TO_GUILD_S s
               else if GetSignatureCount pet \<ge> 9 then s
               else if GetSignatureForPlayer me p pet \<noteq> None
               then to_owner owner (SendGuildCommandResult owner GUILD_INVITE_S myName ERR_ALREADY_INVITED_TO_GUILD_S)
                      (SendPacket me (sign_result itemGuid me PETITION_SIGN_ALREADY_SIGNED) s)
               else put_signature e me itemGuid pid owner p s)
      | _ \<Rightarrow> s)"

definition HandlePetitionDeclineOpcode :: "guid \<Rightarrow> guid \<Rightarrow> gs \<Rightarrow> gs" where
  "HandlePetitionDeclineOpcode me itemGuid s =
     (case Option.bind (GetPetitionByCharterGuid itemGuid s) (\<lambda>pid. GetPetitionById pid s) of
        None \<Rightarrow> s
      | Some pet \<Rightarrow> to_owner (p_ownerGuid pet) (SendPacket (p_ownerGuid pet) (Packet MSG_PETITION_DECLINE [F64 me])) s)"

definition HandleOfferPetitionOpcode :: "genv \<Rightarrow> guid \<Rightarrow> guid \<Rightarrow> guid \<Rightarrow> gs \<Rightarrow> gs" where
  "HandleOfferPetitionOpcode e me itemGuid playerGuid s =
     (case (s_players s me, FindPlayer playerGuid s) of
        (Some p, Some q) \<Rightarrow>
          if \<not> ge_twoSide e \<and> gp_team p \<noteq> gp_team q
          then SendGuildCommandResult me GUILD_CREATE_S [] ERR_GUILD_NOT_ALLIED s
          else if gp_guildId q \<noteq> 0
          then SendGuildCommandResult me GUILD_INVITE_S (pl_name (gp_player p)) ERR_ALREADY_IN_GUILD_S s
          else if gp_GuildIdInvited q \<noteq> 0
          then SendGuildCommandResult me GUILD_INVITE_S (pl_name (gp_player p)) ERR_ALREADY_INVITED_TO_GUILD_S s
          else (case GetItemByGuid itemGuid (gp_player p) of
                  None \<Rightarrow> s
                | Some c \<Rightarrow>
                    let petitionguid = petition_of c (gp_player p)
                    in case GetPetitionById petitionguid s of
                         None \<Rightarrow> s
                       | Some pet \<Rightarrow> SendPacket playerGuid (Packet SMSG_PETITION_SHOW_SIGNATURES
                                        (signature_fields itemGuid me petitionguid pet)) s)
      | _ \<Rightarrow> s)"

definition turn_in_result :: "guid \<Rightarrow> u32 \<Rightarrow> gs \<Rightarrow> gs" where
  "turn_in_result me code = SendPacket me (Packet SMSG_TURN_IN_PETITION_RESULTS [F32 code])"

definition destroy_charter :: "genv \<Rightarrow> guid \<Rightarrow> ptr \<Rightarrow> gs \<Rightarrow> gs" where
  "destroy_charter e me c s =
     (case s_players s me of
        None \<Rightarrow> s
      | Some p \<Rightarrow> let it = pl_heap (gp_player p) c
                   in destroy_item e me (GetBagSlot (gp_player p) it) (it_slot it) s)"

text \<open>\<open>None\<close> is a broken row of the bank tables, as in \<open>Create\<close>.\<close>

definition HandleTurnInPetitionOpcode :: "genv \<Rightarrow> guid \<Rightarrow> guid \<Rightarrow> gs \<Rightarrow> gs option" where
  "HandleTurnInPetitionOpcode e me itemGuid s =
     (case s_players s me of
        None \<Rightarrow> Some s
      | Some p \<Rightarrow>
          (case find_charter (ge_world e) itemGuid (gp_player p) of
             None \<Rightarrow> Some s
           | Some c \<Rightarrow>
               (let petitionguid = petition_of c (gp_player p)
                in case GetPetitionById petitionguid s of
                     None \<Rightarrow> Some s
                   | Some pet \<Rightarrow>
                       if gp_guildId p \<noteq> 0 then Some (turn_in_result me PETITION_SIGN_ALREADY_IN_GUILD s)
                       else if me \<noteq> p_ownerGuid pet then Some s
                       else if \<not> IsComplete e pet then Some (turn_in_result me PETITION_SIGN_NEED_MORE s)
                       else if GetGuildByName (p_name pet) s \<noteq> None
                       then Some (SendGuildCommandResult me GUILD_CREATE_S (p_name pet) ERR_GUILD_NAME_EXISTS_S s)
                       else Option.bind (CreateFromPetition e pet me (s\<lparr>s_this := new_guild\<rparr>)) (\<lambda>(made, s1).
                              if \<not> made then Some s1
                              else map_option (\<lambda>s2. turn_in_result me PETITION_SIGN_OK
                                     (destroy_charter e me c (DeletePetition petitionguid s2))) (AddGuild e s1)))))"

definition SendPetitionShowList :: "guid \<Rightarrow> guid \<Rightarrow> bool \<Rightarrow> gs \<Rightarrow> gs" where
  "SendPetitionShowList me g npc s =
     (if \<not> npc then s
      else SendPacket me (Packet SMSG_PETITION_SHOWLIST
             [F64 g, F8 1, F32 1, F32 GUILD_CHARTER, F32 CHARTER_DISPLAY_ID, F32 GUILD_CHARTER_COST, F32 1]) s)"

end
