(* ===== verification/Charter_Inv.thy ===== *)
theory Charter_Inv
  imports Charters Guild_Life
begin

text \<open>
  The invariant of charters and that the operations on guilds keep it: a player has signed at most one charter and then is a
  member of no guild, because joining a guild withdraws the signature; no owner has two charters and no charter more than nine signatures.
\<close>

section \<open>The part of the state that it is about\<close>

type_synonym pcore = "(u32 \<times> petition) list \<times> (u32 \<Rightarrow> u32 option) \<times> u32"

definition pcore :: "gs \<Rightarrow> pcore" where
  "pcore s = (s_petitions s, s_guid2guild s, s_nextPetitionId s)"

definition signers :: "(u32 \<times> petition) list \<Rightarrow> guid list" where
  "signers ps = concat (map (\<lambda>(_, p). map ps_playerGuid (p_signatures p)) ps)"

definition petition_ok :: "u32 \<Rightarrow> u32 \<times> petition \<Rightarrow> bool" where
  "petition_ok n = (\<lambda>(pid, p). p_id p = pid \<and> pid \<noteq> 0 \<and> pid < n \<and> length (p_signatures p) \<le> 9)"

definition signer_ok :: "(u32 \<Rightarrow> u32 option) \<Rightarrow> guid \<Rightarrow> bool" where
  "signer_ok ix g \<longleftrightarrow> \<not> IsEmpty g \<and> g = player_guid (GetCounter g) \<and> ix (GetCounter g) = None"

definition charters_in :: "pcore \<Rightarrow> bool" where
  "charters_in = (\<lambda>(ps, ix, n). n \<noteq> 0 \<and> distinct (map fst ps) \<and> distinct (map (p_ownerGuid \<circ> snd) ps) \<and> distinct (signers ps) \<and>
     list_all (petition_ok n) ps \<and> list_all (signer_ok ix) (signers ps))"

definition charters_ok :: "gs \<Rightarrow> bool" where
  "charters_ok s \<longleftrightarrow> guilds_ok s \<and> charters_in (pcore s)"

text \<open>What an operation on guilds does that lets no one in: the petitions stay, and members may leave.\<close>

definition below :: "pcore \<Rightarrow> pcore \<Rightarrow> bool" where
  "below = (\<lambda>(ps, ix, n) (ps', ix', n'). ps' = ps \<and> n' = n \<and> (\<forall>k. ix k = None \<longrightarrow> ix' k = None))"

lemma below_refl [simp, intro]: "below c c"
  by (simp add: below_def split: prod.split)

lemma below_trans: "below a b \<Longrightarrow> below b c \<Longrightarrow> below a c"
  unfolding below_def by (auto split: prod.splits)

lemma charters_below: "below c c' \<Longrightarrow> charters_in c \<Longrightarrow> charters_in c'"
  by (auto simp: below_def charters_in_def list_all_iff signer_ok_def split: prod.splits)

definition shrinks :: "(gs \<Rightarrow> gs) \<Rightarrow> bool" where
  "shrinks f \<longleftrightarrow> (\<forall>s. below (pcore s) (pcore (f s)))"

lemma shrinksI: "(\<And>s. below (pcore s) (pcore (f s))) \<Longrightarrow> shrinks f"
  by (simp add: shrinks_def)

lemma shrinksD: "shrinks f \<Longrightarrow> below (pcore s) (pcore (f s))"
  by (simp add: shrinks_def)

section \<open>Operations that leave it alone\<close>

lemma pcore_updates [simp]:
  "pcore (s\<lparr>s_this := x1\<rparr>) = pcore s" "pcore (s\<lparr>s_guilds := x2\<rparr>) = pcore s" "pcore (s\<lparr>s_players := x3\<rparr>) = pcore s"
  "pcore (s\<lparr>s_masters := x4\<rparr>) = pcore s" "pcore (s\<lparr>s_nextGuildId := x5\<rparr>) = pcore s" "pcore (s\<lparr>s_db := x6\<rparr>) = pcore s"
  "pcore (s\<lparr>s_out := x7\<rparr>) = pcore s" "pcore (s\<lparr>s_hooks := x8\<rparr>) = pcore s" "pcore (s\<lparr>s_bankSaveTimer := x9\<rparr>) = pcore s"
  by (simp_all add: pcore_def)

lemma pcore_basic [simp]:
  "pcore (upd_this f s) = pcore s" "pcore (upd_db h s) = pcore s" "pcore (upd_gplayer g k s) = pcore s"
  "pcore (SendPacket g p s) = pcore s" "pcore (run_hook hk s) = pcore s" "pcore (store_guild gid s) = pcore s"
  "pcore (upd_slot i u s) = pcore s" "pcore (upd_guild_row r s) = pcore s"
  by (simp_all add: upd_this_def upd_db_def upd_gplayer_def SendPacket_def run_hook_def store_guild_def upd_slot_def upd_guild_row_def)

lemma pcore_send_all [simp]: "pcore (send_all gs p s) = pcore s"
  unfolding send_all_def by (induction gs arbitrary: s) simp_all

lemma pcore_messages [simp]:
  "pcore (BroadcastPacket p s) = pcore s" "pcore (BroadcastEvent ev g strs s) = pcore s" "pcore (LogGuildEvent e ev g1 g2 r s) = pcore s"
  "pcore (Query g s) = pcore s" "pcore (Roster e so s) = pcore s" "pcore (SendGuildCommandResult g t str c s) = pcore s"
  "pcore (not_in_guild g s) = pcore s" "pcore (no_permission g s) = pcore s" "pcore (SendSaveGuildEmblem g n s) = pcore s"
  "pcore (BroadcastToGuild mp msg l s) = pcore s" "pcore (BroadcastToOfficers mp msg l s) = pcore s"
  by (simp_all add: BroadcastPacket_def BroadcastEvent_def LogGuildEvent_def Query_def Roster_def send_or_broadcast_def Let_def
      SendGuildCommandResult_def not_in_guild_def no_permission_def SendSaveGuildEmblem_def BroadcastToGuild_def BroadcastToOfficers_def
      split: option.split)

lemma pcore_fields [simp]:
  "pcore (SetMOTD x s) = pcore s" "pcore (SetGINFO x s) = pcore s" "pcore (SetEmblem em s) = pcore s"
  "pcore (SetPublicNote e k n s) = pcore s" "pcore (SetOfficerNote e k n s) = pcore s" "pcore (SetRankName i n s) = pcore s"
  "pcore (SetRankRights i y s) = pcore s" "pcore (snd (GetAccountsNumber s)) = pcore s" "pcore (UpdateAccountsNumber s) = pcore s"
  "pcore (AddToCache e k s) = pcore s" "pcore (RemoveFromCache k s) = pcore s" "pcore (UpdateCaches e d s) = pcore s"
  by (simp_all add: SetMOTD_def SetGINFO_def SetEmblem_def SetPublicNote_def SetOfficerNote_def SetRankName_def SetRankRights_def
      GetAccountsNumber_def UpdateAccountsNumber_def AddToCache_def RemoveFromCache_def UpdateCaches_def Let_def split: option.split)

lemma pcore_ranks [simp]:
  "pcore (ChangeRank k r s) = pcore s" "pcore (AddRank n x s) = pcore s" "pcore (CreateRank n x s) = pcore s"
  "pcore (CreateDefaultGuildRanks e i s) = pcore s"
  by (simp_all add: ChangeRank_def AddRank_def CreateRank_def CreateDefaultGuildRanks_def Let_def split: option.split)

lemma pcore_leaders [simp]:
  "pcore (SetLeader k s) = pcore s" "pcore (SetNewLeader k old s) = pcore s" "pcore (SetNewLeaderGuid g s) = pcore s"
proof -
  show 1: "pcore (SetLeader k s) = pcore s" for k s by (simp add: SetLeader_def Let_def split: option.split)
  show 2: "pcore (SetNewLeader k old s) = pcore s" for k old s by (simp add: SetNewLeader_def Let_def 1 split: option.split)
  show "pcore (SetNewLeaderGuid g s) = pcore s" by (simp add: SetNewLeaderGuid_def 2 split: option.split prod.split)
qed

lemma pcore_on_bank: "on_bank f b s = (b', s') \<Longrightarrow> pcore s' = pcore s"
  by (auto simp: on_bank_def Let_def)

lemma pcore_drop_bank [simp]: "pcore (drop_bank b s) = pcore s"
  by (simp add: drop_bank_def on_bank_def Let_def split: option.split)

lemma pcore_open_banks: "open_banks e s = Some s' \<Longrightarrow> pcore s' = pcore s"
  by (auto simp: open_banks_def open_bank_def Let_def bind_eq_Some_conv)

lemma pcore_found_guild [simp]: "pcore (found_guild e g n s) = pcore s"
  by (simp add: found_guild_def Let_def split: prod.split)

lemma pcore_AddGuild: "AddGuild e s = Some s' \<Longrightarrow> pcore s' = pcore s"
  using pcore_open_banks by (auto simp: AddGuild_def)

lemma pcore_DelRank: "DelRank s = Some s' \<Longrightarrow> pcore s' = pcore s"
  by (auto simp: DelRank_def Let_def on_bank_def split: if_splits option.splits)

lemma pcore_save_banks: "save_banks gids s = Some s' \<Longrightarrow> pcore s' = pcore s"
proof (induction gids arbitrary: s)
  case (Cons gid gids)
  show ?case
  proof (cases "GetGuildById gid s")
    case (Some g)
    then obtain b i where b: "g_Bank g = Some b" "g_InfernoBank g = Some i"
      using Cons.prems by (auto split: option.splits)
    obtain b' s1 where 1: "on_bank SaveToDB b s = (b', s1)" by fastforce
    obtain i' s2 where 2: "on_bank SaveToDB i s1 = (i', s2)" by fastforce
    show ?thesis
      using Cons.IH [OF Cons.prems [unfolded save_banks_step [OF Some b 1 2]]] pcore_on_bank [OF 1] pcore_on_bank [OF 2] by simp
  qed (use Cons in simp)
qed simp

section \<open>Leaving and disbanding\<close>

lemma pcore_forget_member: "below (pcore s) (pcore (forget_member g b s))"
proof -
  have "pcore (GuildMemberRemoved k t) = (s_petitions t, (s_guid2guild t)(k := None), s_nextPetitionId t)" for k t
    by (simp add: GuildMemberRemoved_def pcore_def)
  moreover have "s_petitions (RemoveFromCache k (upd_this u s)) = s_petitions s" "s_guid2guild (RemoveFromCache k (upd_this u s)) = s_guid2guild s"
    "s_nextPetitionId (RemoveFromCache k (upd_this u s)) = s_nextPetitionId s" for k u
    by (simp_all add: RemoveFromCache_def upd_this_def)
  ultimately show ?thesis unfolding forget_member_def Let_def
    by (auto simp: below_def pcore_def [of s] split: option.split)
qed

lemma below_DelMember: "below (pcore s) (pcore (snd (DelMember g b s)))"
proof -
  have "below (pcore s) (pcore (forget_member g b t))" if "pcore t = pcore s" for t
    using pcore_forget_member [of t g b] that by simp
  then show ?thesis unfolding DelMember_def Let_def by (auto split: prod.split option.split)
qed

lemma below_disband_loop: "below (pcore s) (pcore (disband_loop s))"
proof (induction s rule: disband_loop.induct)
  case (1 s)
  show ?case
  proof (cases "g_members (s_this s)")
    case Nil
    then show ?thesis by (simp add: disband_loop.simps [of s])
  next
    case (Cons a ms)
    then obtain k m where g: "g_members (s_this s) = (k, m) # ms" by (cases a) simp
    then have "below (pcore (snd (DelMember (player_guid k) True s))) (pcore (disband_loop (snd (DelMember (player_guid k) True s))))"
      using 1 by simp
    then show ?thesis using g below_trans [OF below_DelMember] by (simp add: disband_loop.simps [of s])
  qed
qed

lemma below_Disband: "below (pcore s) (pcore (Disband s))"
proof -
  let ?t = "BroadcastEvent GE_DISBANDED 0 [] (run_hook (OnDisband (g_Id (s_this s))) s)"
  have "below (pcore s) (pcore (disband_loop ?t))" using below_disband_loop [of ?t] by simp
  then show ?thesis by (simp add: Disband_def Let_def RemoveGuild_def)
qed

section \<open>Handlers that let no one in\<close>

lemma shrinks_with: "shrinks none \<Longrightarrow> shrinks f \<Longrightarrow> shrinks (with_guild gid none f)"
  using shrinksD [of f "s\<lparr>s_this := g\<rparr>" for s g] shrinksD [of none]
  by (intro shrinksI) (auto simp: with_guild_def split: option.split)

lemma shrinks_in_my_guild: "shrinks f \<Longrightarrow> shrinks (in_my_guild me f)"
  using shrinksD [OF shrinks_with [of "not_in_guild me" f]]
  by (intro shrinksI) (simp add: in_my_guild_def shrinks_def)

lemma shrinks_needs:
  "shrinks f \<Longrightarrow> shrinks (need_right me right f)" "shrinks f \<Longrightarrow> shrinks (need_leader me f)"
  "(\<And>k m. shrinks (h k m)) \<Longrightarrow> shrinks (need_member me name h)"
  by (auto simp: shrinks_def need_right_def need_leader_def need_member_def split: option.split)

lemmas shrinks_frames = shrinks_with shrinks_in_my_guild shrinks_needs

lemma shrinks_if: "shrinks f \<Longrightarrow> shrinks g \<Longrightarrow> shrinks (\<lambda>s. if P s then f s else g s)"
  by (simp add: shrinks_def)

lemma shrinks_DelMember:
  assumes "shrinks f"
  shows "shrinks (\<lambda>s. case DelMember g b s of (True, s') \<Rightarrow> Disband s' | (False, s') \<Rightarrow> f s')"
proof (rule shrinksI)
  fix s
  obtain d t where t: "DelMember g b s = (d, t)" by fastforce
  then have "below (pcore s) (pcore t)" using below_DelMember [of s g b] by simp
  then show "below (pcore s) (pcore (case DelMember g b s of (True, s') \<Rightarrow> Disband s' | (False, s') \<Rightarrow> f s'))"
    using t below_trans below_Disband [of t] shrinksD [OF assms, of t] by (cases d) auto
qed

lemma shrink_information:
  "shrinks (HandleGuildQueryOpcode me gid)" "shrinks (HandleGuildInfoOpcode me)" "shrinks (HandleGuildRosterOpcode e me)"
  "shrinks (chat_guild g msg l)" "shrinks (chat_officer g msg l)"
proof -
  have 1: "below (pcore s) (pcore (with_guild gid id f s))" if "\<And>t. pcore (f t) = pcore t" for s gid f
    using that shrinksD [OF shrinks_with [of id f]] by (simp add: shrinks_def)
  show "shrinks (chat_guild g msg l)" "shrinks (chat_officer g msg l)"
    by (auto simp: shrinks_def chat_guild_def chat_officer_def intro: 1 split: option.split)
  show "shrinks (HandleGuildQueryOpcode me gid)"
    unfolding HandleGuildQueryOpcode_def by (auto simp: shrinks_def with_guild_def split: option.split)
  show "shrinks (HandleGuildRosterOpcode e me)" "shrinks (HandleGuildInfoOpcode me)"
    unfolding HandleGuildRosterOpcode_def HandleGuildInfoOpcode_def
    by (auto simp: shrinks_def with_guild_def in_my_guild_def Let_def case_prod_unfold split: option.split)
qed

lemma shrink_invitations: "shrinks (HandleGuildInviteOpcode e me name)" "shrinks (HandleGuildDeclineOpcode me)"
  by (auto simp: shrinks_def HandleGuildInviteOpcode_def HandleGuildDeclineOpcode_def Let_def with_guild_def in_my_guild_def need_right_def
      split: option.split)

lemma shrink_texts:
  "shrinks (HandleGuildMOTDOpcode me motd)" "shrinks (HandleGuildSetPublicNoteOpcode e me name note)"
  "shrinks (HandleGuildSetOfficerNoteOpcode e me name note)" "shrinks (HandleGuildChangeInfoTextOpcode me motd)"
  "shrinks (HandleGuildRankOpcode e me i rights rname)" "shrinks (HandleGuildAddRankOpcode e me rname)"
  "shrinks (HandleSaveGuildEmblemOpcode e me vendor em)"
  by (auto simp: shrinks_def HandleGuildMOTDOpcode_def HandleGuildSetPublicNoteOpcode_def HandleGuildSetOfficerNoteOpcode_def
      HandleGuildChangeInfoTextOpcode_def HandleGuildRankOpcode_def HandleGuildAddRankOpcode_def HandleSaveGuildEmblemOpcode_def
      Let_def with_guild_def in_my_guild_def need_right_def need_leader_def need_member_def split: option.split)

lemma shrink_ranks:
  "shrinks (HandleGuildPromoteOpcode e me name)" "shrinks (HandleGuildDemoteOpcode e me name)" "shrinks (HandleGuildLeaderOpcode me name)"
  "shrinks (hardcore_succession g)"
  by (auto simp: shrinks_def HandleGuildPromoteOpcode_def HandleGuildDemoteOpcode_def HandleGuildLeaderOpcode_def hardcore_succession_def
      Let_def with_guild_def in_my_guild_def need_right_def need_leader_def need_member_def split: option.split prod.split)

lemma shrinks_quiet: "(\<And>s. pcore (f s) = pcore s) \<Longrightarrow> shrinks f"
  by (simp add: shrinks_def)

lemma shrink_leaving:
  "shrinks (HandleGuildRemoveOpcode e me name)" "shrinks (HandleGuildLeaveOpcode e me)" "shrinks (HandleGuildDisbandOpcode me)"
proof -
  have d: "shrinks Disband" using below_Disband by (simp add: shrinks_def)
  then show "shrinks (HandleGuildDisbandOpcode me)"
    unfolding HandleGuildDisbandOpcode_def by (intro shrinks_frames)
  have dm: "below (pcore s) (pcore (case DelMember g b t of (True, s') \<Rightarrow> Disband s' | (False, s') \<Rightarrow> f s'))"
    if "pcore t = pcore s" "\<And>t. pcore (f t) = pcore t" for s t g b f
    using shrinksD [OF shrinks_DelMember [OF shrinks_quiet [OF that(2)]], of t g b] that(1) by simp
  show "shrinks (HandleGuildLeaveOpcode e me)"
    unfolding HandleGuildLeaveOpcode_def
    by (intro shrinks_frames shrinksI) (auto simp: Let_def below_Disband intro!: dm)
  have r: "shrinks (in_my_guild me (need_right me GR_RIGHT_REMOVE (need_member me n (\<lambda>k m s.
      if ms_RankId m = GR_GUILDMASTER then SendGuildCommandResult me GUILD_QUIT_S [] ERR_GUILD_LEADER_LEAVE s
      else if my_rank me s \<ge> ms_RankId m then SendGuildCommandResult me GUILD_QUIT_S n ERR_GUILD_RANK_TOO_HIGH_S s
      else case DelMember (ms_guid m) False s of (True, s1) \<Rightarrow> Disband s1
           | (False, s1) \<Rightarrow> BroadcastEvent GE_REMOVED 0 [n, my_name me s1]
               (LogGuildEvent e GUILD_EVENT_LOG_UNINVITE_PLAYER me (ms_guid m) 0 s1)))))" for n
    by (intro shrinks_frames shrinksI) (auto intro!: dm)
  show "shrinks (HandleGuildRemoveOpcode e me name)"
    by (rule shrinksI) (auto simp: HandleGuildRemoveOpcode_def intro: shrinksD [OF r] split: option.split)
qed

lemma below_DelRankOpcode: "HandleGuildDelRankOpcode e me s = Some s' \<Longrightarrow> below (pcore s) (pcore s')"
  by (auto simp: HandleGuildDelRankOpcode_def Let_def split: option.splits if_splits dest!: pcore_DelRank)

lemma below_sessions:
  "below (pcore s) (pcore (HandlePlayerLogin e g p m s))" "below (pcore s) (pcore (LogoutPlayer e g s))"
  by (auto simp: HandlePlayerLogin_def login_master_def LogoutPlayer_def Let_def with_guild_def split: option.split)

lemma below_Update: "GuildMgr_Update e diff s = Some s' \<Longrightarrow> below (pcore s) (pcore s')"
proof -
  have "pcore (fold (\<lambda>gid. with_guild gid id (UpdateCaches e diff)) gids t) = pcore t" for gids t
    by (induction gids arbitrary: t) (simp_all add: with_guild_def split: option.split)
  then show "GuildMgr_Update e diff s = Some s' \<Longrightarrow> below (pcore s) (pcore s')"
    by (auto simp: GuildMgr_Update_def SaveGuildBanks_def dest!: pcore_save_banks split: if_splits)
qed

section \<open>Signatures and petitions\<close>

lemma remove_signature_guids: "map ps_playerGuid (remove_signature g sgs) = remove1 g (map ps_playerGuid sgs)"
  by (induction sgs) auto

lemma um_update_absent: "k \<notin> set (map fst ps) \<Longrightarrow> um_update k f ps = ps"
  by (induction ps) (auto simp: um_update_def)

lemma signers_Cons [simp]: "signers ((k, p) # ps) = map ps_playerGuid (p_signatures p) @ signers ps" "signers [] = []"
  by (simp_all add: signers_def)

lemma um_update_Cons: "um_update k f ((k', v) # m) = (k', if k' = k then f v else v) # um_update k f m"
  by (simp add: um_update_def)

lemma signed_by_iff: "signed_by g p \<longleftrightarrow> g \<in> set (map ps_playerGuid (p_signatures p))"
  by (auto simp: signed_by_def)

lemma signers_removed:
  assumes "find (\<lambda>(_, p). signed_by g p) ps = Some (pid, p)" and "distinct (map fst ps)"
  shows "signers (um_update pid (\<lambda>p. p\<lparr>p_signatures := remove_signature g (p_signatures p)\<rparr>) ps) = remove1 g (signers ps)"
  using assms
proof (induction ps)
  case (Cons a ps)
  obtain k v where a: "a = (k, v)" by fastforce
  show ?case
  proof (cases "signed_by g v")
    case True
    then have "k = pid" using Cons.prems(1) by (simp add: a)
    then show ?thesis using True Cons.prems(2)
      by (auto simp: a um_update_Cons um_update_absent remove_signature_guids remove1_append signed_by_iff)
  next
    case False
    then have f: "find (\<lambda>(_, p). signed_by g p) ps = Some (pid, p)" using Cons.prems(1) by (simp add: a)
    then have "pid \<in> set (map fst ps)" by (force dest: find_SomeD)
    then show ?thesis using False Cons f
      by (auto simp: a um_update_Cons remove1_append signed_by_iff)
  qed
qed simp

lemma not_signed: "find (\<lambda>(_, p). signed_by g p) ps = None \<Longrightarrow> g \<notin> set (signers ps)"
  by (auto simp: find_None_iff signers_def signed_by_def)

lemma petitions_withdraw:
  "distinct (map fst (s_petitions s)) \<Longrightarrow> signers (s_petitions (withdraw_signature g s)) = remove1 g (signers (s_petitions s))"
  using signers_removed [of g "s_petitions s"] not_signed [of g "s_petitions s"]
  by (auto simp: withdraw_signature_def GetSignatureForPlayerGuid_def DeleteSignature_def Signature_DeleteFromDB_def upd_db_def
      remove1_idem split: option.split)

lemma charters_inD:
  assumes "charters_in (ps, ix, n)"
  shows "n \<noteq> 0" "distinct (map fst ps)" "distinct (map (p_ownerGuid \<circ> snd) ps)" "distinct (signers ps)"
    "list_all (petition_ok n) ps" "list_all (signer_ok ix) (signers ps)"
  using assms by (simp_all add: charters_in_def)

lemma remove_signature_shorter: "length (remove_signature g sgs) \<le> length sgs"
  by (induction sgs) auto

lemma petition_ok_update:
  assumes "list_all (petition_ok n) ps" and "\<And>p. p_id (f p) = p_id p \<and> length (p_signatures (f p)) \<le> length (p_signatures p)"
  shows "list_all (petition_ok n) (um_update pid f ps)"
proof -
  have "petition_ok n (k, if k = pid then f v else v)" if "petition_ok n (k, v)" for k v
    using that assms(2) [of v] by (auto simp: petition_ok_def)
  then show ?thesis using assms(1) by (auto simp: um_update_def list_all_iff)
qed

lemma owners_update: "(\<And>p. p_ownerGuid (f p) = p_ownerGuid p) \<Longrightarrow> map (p_ownerGuid \<circ> snd) (um_update pid f ps) = map (p_ownerGuid \<circ> snd) ps"
  by (induction ps) (auto simp: um_update_def)

lemma withdraw_facts:
  "s_guid2guild (withdraw_signature g s) = s_guid2guild s" "s_nextPetitionId (withdraw_signature g s) = s_nextPetitionId s"
  "s_players (withdraw_signature g s) = s_players s" "s_this (withdraw_signature g s) = s_this s"
  by (simp_all add: withdraw_signature_def DeleteSignature_def Signature_DeleteFromDB_def upd_db_def split: option.split)

lemma charters_withdraw:
  assumes "charters_in (pcore s)"
  shows "charters_in (pcore (withdraw_signature g s))"
    and "set (signers (s_petitions (withdraw_signature g s))) = set (signers (s_petitions s)) - {g}"
proof -
  let ?ps = "s_petitions s" and ?s = "withdraw_signature g s"
  note c = charters_inD [OF assms [unfolded pcore_def]]
  note sg = petitions_withdraw [OF c(2), of g]
  then show *: "set (signers (s_petitions ?s)) = set (signers ?ps) - {g}" using c(4) by (simp add: set_remove1_eq)
  have "s_petitions ?s = ?ps \<or> (\<exists>pid. s_petitions ?s = um_update pid (\<lambda>p. p\<lparr>p_signatures := remove_signature g (p_signatures p)\<rparr>) ?ps)"
    by (auto simp: withdraw_signature_def DeleteSignature_def Signature_DeleteFromDB_def upd_db_def split: option.split)
  then have "distinct (map fst (s_petitions ?s))" "distinct (map (p_ownerGuid \<circ> snd) (s_petitions ?s))" "list_all (petition_ok (s_nextPetitionId s)) (s_petitions ?s)"
    using c by (auto simp: owners_update remove_signature_shorter intro!: petition_ok_update)
  then show "charters_in (pcore ?s)"
    using c * sg by (auto simp: pcore_def charters_in_def withdraw_facts list_all_iff intro: distinct_remove1)
qed

text \<open>Joining a guild, with the signature gone.\<close>

lemma charters_join:
  assumes "charters_in (pcore s)" and "g = player_guid (GetCounter g)" and "g \<notin> set (signers (s_petitions s))"
  shows "charters_in (pcore (s\<lparr>s_guid2guild := (s_guid2guild s)(GetCounter g := x)\<rparr>))"
proof -
  have "GetCounter g' \<noteq> GetCounter g" if "g' \<in> set (signers (s_petitions s))" "signer_ok (s_guid2guild s) g'" for g'
    using that assms(2,3) by (metis signer_ok_def)
  then show ?thesis using assms(1) by (auto simp: pcore_def charters_in_def list_all_iff signer_ok_def)
qed

definition joined :: "u32 \<Rightarrow> u32 \<Rightarrow> pcore \<Rightarrow> pcore" where
  "joined gid k = (\<lambda>(ps, ix, n). (ps, ix(k \<mapsto> gid), n))"

lemma pcore_AddMember:
  "\<exists>x. pcore (snd (AddMember e g r s)) \<in> {pcore s, pcore (withdraw_signature g s), joined x (GetCounter g) (pcore (withdraw_signature g s))}"
proof -
  have j: "pcore (GuildMemberAdded gid k t) = joined gid k (pcore t)" for gid k t
    by (simp add: GuildMemberAdded_def pcore_def joined_def)
  show ?thesis unfolding AddMember_def Let_def
    by (cases "new_member e g (withdraw_signature g s)") (auto simp: j if_distrib [of pcore])
qed

lemma charters_AddMember:
  assumes "charters_in (pcore s)" and "g = player_guid (GetCounter g)"
  shows "charters_in (pcore (snd (AddMember e g r s)))"
proof -
  note w = charters_withdraw [OF assms(1), of g]
  have "charters_in (joined x (GetCounter g) (pcore (withdraw_signature g s)))" for x
    using charters_join [OF w(1) assms(2), of "Some x"] w(2) by (simp add: joined_def pcore_def)
  then show ?thesis using pcore_AddMember [of e g r s] assms(1) w(1) by auto
qed

lemma signers_erase: "set (signers (um_erase pid ps)) \<subseteq> set (signers ps)" "distinct (signers ps) \<Longrightarrow> distinct (signers (um_erase pid ps))"
proof -
  show "set (signers (um_erase pid ps)) \<subseteq> set (signers ps)" by (auto simp: signers_def um_erase_def)
  show "distinct (signers ps) \<Longrightarrow> distinct (signers (um_erase pid ps))"
  proof (induction ps)
    case (Cons a ps)
    obtain k v where "a = (k, v)" by fastforce
    then show ?case using Cons by (auto simp: um_erase_def signers_def)
  qed (simp add: um_erase_def)
qed

lemma charters_DeletePetition:
  assumes "charters_in (pcore s)"
  shows "charters_in (pcore (DeletePetition pid s))"
proof -
  note c = charters_inD [OF assms [unfolded pcore_def]]
  have "pcore (DeletePetition pid s) = (um_erase pid (s_petitions s), s_guid2guild s, s_nextPetitionId s)"
    by (simp add: DeletePetition_def Petition_Delete_def pcore_def upd_db_def)
  moreover have "distinct (map (p_ownerGuid \<circ> snd) (um_erase pid (s_petitions s)))"
    using c(3) unfolding um_erase_def by (rule distinct_map_filter)
  moreover have "list_all (petition_ok (s_nextPetitionId s)) (um_erase pid (s_petitions s))"
    using c(5) by (auto simp: list_all_iff um_erase_def)
  moreover have "list_all (signer_ok (s_guid2guild s)) (signers (um_erase pid (s_petitions s)))"
    using c(6) signers_erase(1) [of pid "s_petitions s"] by (auto simp: list_all_iff)
  ultimately show ?thesis
    using c(1) distinct_erase [OF c(2)] signers_erase(2) [OF c(4)] by (simp add: charters_in_def)
qed

lemma charters_delete_petition: "charters_in (pcore s) \<Longrightarrow> charters_in (pcore (delete_petition pid s))"
  by (auto simp: delete_petition_def intro: charters_DeletePetition split: option.split)

end
