(* ===== verification/Charter_Run.thy ===== *)
theory Charter_Run
  imports Charter_Inv
begin

text \<open>
  The runs of the server with charters: what the handlers of charters keep, and that a charter turned in gives a guild that is in order.
\<close>

section \<open>Who a player is\<close>

definition who :: "player \<Rightarrow> guid \<times> string \<times> u32 \<times> bool" where
  "who pl = (pl_guid pl, pl_name pl, pl_rank pl, pl_inWorld pl)"

lemma who_updates [simp]:
  "who (pl\<lparr>pl_items := x1\<rparr>) = who pl" "who (pl\<lparr>pl_queue := x2\<rparr>) = who pl" "who (pl\<lparr>pl_heap := x3\<rparr>) = who pl"
  "who (pl\<lparr>pl_freed := x4\<rparr>) = who pl" "who (pl\<lparr>pl_next := x5\<rparr>) = who pl" "who (pl\<lparr>pl_itemGuids := x6\<rparr>) = who pl"
  "who (upd_item p f pl) = who pl" "who (event ev pl) = who pl" "who (delete_item p pl) = who pl"
  by (simp_all add: who_def upd_item_def event_def delete_item_def)

lemma who_money [simp]: "who (ModifyMoney w d pl) = who pl"
  by (simp add: ModifyMoney_def SetMoney_def Let_def) (simp add: who_def)

lemma who_SetState [simp]: "who (SetState p st b pl) = who pl"
  by (simp add: SetState_def AddToUpdateQueueOf_def RemoveFromUpdateQueueOf_def Let_def)

lemma who_in_world_update [simp]: "who (in_world_update u es pl) = who pl"
proof -
  have "who (fold event es pl) = who pl" by (induction es arbitrary: pl) simp_all
  then show ?thesis by (simp add: in_world_update_def)
qed

lemma who_CreateItem: "CreateItem w entry cnt pl = (x, t) \<Longrightarrow> who t = who pl"
  by (auto simp: CreateItem_def Let_def split: option.splits prod.splits if_splits)

lemma who_SetItemRandomProperties [simp]: "who (SetItemRandomProperties w p r pl) = who pl"
proof -
  have "who (SetEnchantment p i x y z pl) = who pl" for i x y z pl by (simp add: SetEnchantment_def)
  then show ?thesis by (simp add: SetItemRandomProperties_def Let_def split: option.split)
qed

lemma who_CloneItem: "CloneItem w p cnt pl = (x, t) \<Longrightarrow> who t = who pl"
  by (auto simp: CloneItem_def Let_def split: prod.splits option.splits dest: who_CreateItem)

lemma who_StoreItem1: "StoreItem1 w pos p cnt clone u pl = (x, t) \<Longrightarrow> who t = who pl"
proof -
  have "who (store_free w b s q u t) = who t" for b s q t
    by (simp add: store_free_def Bag_StoreItem_def Let_def split: option.split)
  moreover have "who (store_merge w b s p q c cl u t) = who t" for b s q c cl t
    by (simp add: store_merge_def Let_def)
  ultimately show "StoreItem1 w pos p cnt clone u pl = (x, t) \<Longrightarrow> who t = who pl"
    by (auto simp: StoreItem1_def Let_def split: option.splits prod.splits if_splits dest!: who_CloneItem)
qed

lemma who_StoreItem_loop: "StoreItem_loop w dest p u l pl = (x, t) \<Longrightarrow> who t = who pl"
proof (induction w dest p u l pl rule: StoreItem_loop.induct)
  case (3 w pos c d dest p u l pl)
  then show ?case by (auto split: prod.splits dest!: who_StoreItem1)
qed (auto dest: who_StoreItem1)

lemma who_StoreNewItem: "StoreNewItem w dest entry u r pl = (x, t) \<Longrightarrow> who t = who pl"
  by (auto simp: StoreNewItem_def StoreItem_def Let_def split: prod.splits option.splits if_splits dest!: who_StoreItem_loop who_CreateItem)

lemma who_destroy_rest [simp]: "who (destroy_rest w bag slot u p it pl) = who pl"
  by (simp add: destroy_rest_def unlink_item_def Bag_RemoveItem_def Let_def split: option.split)

lemma who_DestroyItem_depth: "who (DestroyItem_depth n w bag slot u pl) = who pl"
proof (induction n arbitrary: bag slot pl)
  case (Suc n)
  have "who (fold (\<lambda>i. DestroyItem_depth n w slot (of_nat i) u) xs pl) = who pl" for xs :: "nat list" and pl
    by (induction xs arbitrary: pl) (simp_all add: Suc)
  then show ?case by (simp add: Let_def split: option.split)
qed simp

lemma who_DestroyItem [simp]: "who (DestroyItem w bag slot u pl) = who pl"
  by (simp add: DestroyItem_def who_DestroyItem_depth)

text \<open>A change of items is one of the moves of a player that guilds do not see.\<close>

lemma score_items: "who pl = who (gp_player p) \<Longrightarrow> s_players s g = Some p \<Longrightarrow> score (upd_gplayer g (\<lambda>p. p\<lparr>gp_player := pl\<rparr>) s) = score s"
  by (auto simp: upd_gplayer_def score_def fun_eq_iff player_core_def who_def)

section \<open>Handlers of charters and the guilds\<close>

lemma score_petitions [simp]:
  "score (s\<lparr>s_petitions := x\<rparr>) = score s" "score (s\<lparr>s_nextPetitionId := y\<rparr>) = score s" "score (upd_petition pid f s) = score s"
  "score (delete_petition pid s) = score s"
proof -
  show "score (s\<lparr>s_petitions := x\<rparr>) = score s" "score (s\<lparr>s_nextPetitionId := y\<rparr>) = score s" "score (upd_petition pid f s) = score s"
    by (simp_all add: score_def upd_petition_def)
  show "score (delete_petition pid s) = score s" by (simp add: delete_petition_def split: option.split)
qed

lemma score_petition_rows [simp]:
  "score (Petition_SaveToDB pet s) = score s" "score (Petition_Rename pid n s) = score s" "score (Signature_SaveToDB pet sg s) = score s"
  "score (AddSignature pid sg s) = score s" "score (CreatePetition e pid me p cg n s) = score s" "score (snd (AddNewSignature e pid me p s)) = score s"
proof -
  show 1: "score (Petition_SaveToDB pet s) = score s" "score (Signature_SaveToDB pet sg s) = score s" for pet sg s
    unfolding Petition_SaveToDB_def Signature_SaveToDB_def by (simp_all add: score_upd_db Let_def)
  show "score (Petition_Rename pid n s) = score s" by (simp add: Petition_Rename_def score_upd_db)
  show 2: "score (AddSignature pid sg s) = score s" for s by (simp add: AddSignature_def)
  show "score (CreatePetition e pid me p cg n s) = score s" by (simp add: CreatePetition_def Let_def 1)
  show "score (snd (AddNewSignature e pid me p s)) = score s"
    by (simp add: AddNewSignature_def AddSignature_def Let_def 1 split: option.split)
qed

lemma score_destroy_item [simp]: "score (destroy_item e me bag slot s) = score s"
proof -
  have "score (fold delete_petition pids t) = score t" for pids t by (induction pids arbitrary: t) simp_all
  then show ?thesis by (simp add: destroy_item_def Let_def score_items split: option.split)
qed

lemma score_charter_handlers:
  "score (HandlePetitionBuyOpcode e n c me npcg npc designer name s) = score s" "score (HandlePetitionShowSignOpcode me ig s) = score s"
  "score (HandlePetitionQueryOpcode me pg s) = score s" "score (HandlePetitionRenameOpcode n me ig name s) = score s"
  "score (HandlePetitionSignOpcode e me ig s) = score s" "score (HandlePetitionDeclineOpcode me ig s) = score s"
  "score (HandleOfferPetitionOpcode e me ig tg s) = score s" "score (SendPetitionShowList me g npc s) = score s"
proof -
  have sell: "score (sell_charter e me dest name p s) = score s" if "s_players s me = Some p" for dest p
  proof -
    obtain ch pl2 where st: "StoreNewItem (ge_world e) dest GUILD_CHARTER True 0 (ModifyMoney (ge_world e) (- GUILD_CHARTER_COST) (gp_player p)) = (ch, pl2)"
      by fastforce
    then have "who pl2 = who (gp_player p)" using who_StoreNewItem by fastforce
    then show ?thesis using that st by (simp add: sell_charter_def Let_def score_items split: option.split)
  qed
  show "score (HandlePetitionBuyOpcode e n c me npcg npc designer name s) = score s"
    by (simp add: HandlePetitionBuyOpcode_def SendBuyError_def SendEquipError_def sell split: option.split prod.split)
  show "score (HandlePetitionShowSignOpcode me ig s) = score s" "score (HandlePetitionQueryOpcode me pg s) = score s"
    "score (HandlePetitionRenameOpcode n me ig name s) = score s" "score (SendPetitionShowList me g npc s) = score s"
    by (simp_all add: HandlePetitionShowSignOpcode_def HandlePetitionQueryOpcode_def HandlePetitionRenameOpcode_def SendPetitionShowList_def
        Let_def split: option.split)
  show "score (HandlePetitionDeclineOpcode me ig s) = score s" "score (HandleOfferPetitionOpcode e me ig tg s) = score s"
    by (simp_all add: HandlePetitionDeclineOpcode_def HandleOfferPetitionOpcode_def to_owner_def Let_def split: option.split)
  have o: "score (to_owner owner f t) = score t" if "\<And>t. score (f t) = score t" for owner f t
    using that by (simp add: to_owner_def split: option.split)
  have p: "score (put_signature e me ig pid owner p s) = score s" for pid owner p
  proof -
    obtain b t where t: "AddNewSignature e pid me p (withdraw_signature me s) = (b, t)" by fastforce
    then have "score t = score s" using score_petition_rows(6) [of e pid me p "withdraw_signature me s"] by simp
    then show ?thesis by (simp add: put_signature_def t o Let_def)
  qed
  show "score (HandlePetitionSignOpcode e me ig s) = score s"
  proof (cases "s_players s me")
    case (Some pl)
    then show ?thesis
      by (simp add: HandlePetitionSignOpcode_def Let_def o p if_distrib [of score] split: option.split del: if_split)
  qed (simp add: HandlePetitionSignOpcode_def)
qed

section \<open>Handlers of charters and the signatures\<close>

lemma pcore_petition_rows [simp]:
  "pcore (Petition_SaveToDB pet s) = pcore s" "pcore (Signature_SaveToDB pet sg s) = pcore s"
  by (simp_all add: Petition_SaveToDB_def Signature_SaveToDB_def)

lemma map_filter_total:
  "(\<And>k. k \<in> set ks \<Longrightarrow> f k \<noteq> None) \<Longrightarrow> List.map_filter (\<lambda>k. map_option (Pair k) (f k)) ks = map (\<lambda>k. (k, the (f k))) ks"
proof (induction ks)
  case (Cons k ks)
  then obtain v where "f k = Some v" by fastforce
  then show ?case using Cons by (simp add: List.map_filter_def)
qed (simp add: List.map_filter_def)

lemma mset_put:
  assumes "\<And>ks. mset (order ks) = mset ks" and "distinct (map fst m)" and "k \<notin> set (map fst m)"
  shows "mset (um_put order k v m) = add_mset (k, v) (mset m)"
proof -
  let ?m = "(k, v) # m"
  have d: "distinct (map fst ?m)" using assms(2,3) by simp
  have s: "map_of ?m k' \<noteq> None" if "k' \<in> set (order (map fst ?m))" for k'
    using that assms(1) by (metis map_of_eq_None_iff set_map set_mset_mset)
  have "List.map_filter (\<lambda>k'. map_option (Pair k') (map_of ?m k')) (order (map fst ?m)) =
      map (\<lambda>k'. (k', the (map_of ?m k'))) (order (map fst ?m))"
    by (rule map_filter_total) (rule s)
  then have "um_put order k v m = map (\<lambda>k'. (k', the (map_of ?m k'))) (order (map fst ?m))"
    using assms(3) by (simp only: um_put_def if_False Let_def)
  then have "mset (um_put order k v m) = image_mset (\<lambda>k'. (k', the (map_of ?m k'))) (mset (map fst ?m))"
    using assms(1) by (metis mset_map)
  also have "\<dots> = mset (map (\<lambda>x. (fst x, the (map_of ?m (fst x)))) ?m)" by (simp add: multiset.map_comp comp_def)
  also have "map (\<lambda>x. (fst x, the (map_of ?m (fst x)))) ?m = ?m"
    using d by (intro map_idI) (metis map_of_is_SomeI option.sel prod.collapse)
  finally show ?thesis by simp
qed

lemma mset_signers: "mset ps = mset ps' \<Longrightarrow> mset (signers ps) = mset (signers ps')"
proof -
  have "mset (signers ps) = sum_mset (image_mset (\<lambda>(_, p). mset (map ps_playerGuid (p_signatures p))) (mset ps))" for ps
    unfolding signers_def by (induction ps) (auto simp: case_prod_unfold)
  then show "mset ps = mset ps' \<Longrightarrow> mset (signers ps) = mset (signers ps')" by simp
qed

lemma charters_in_mset: "mset ps = mset ps' \<Longrightarrow> charters_in (ps, ix, n) \<longleftrightarrow> charters_in (ps', ix, n)"
proof -
  assume a: "mset ps = mset ps'"
  then have "distinct (map fst ps) \<longleftrightarrow> distinct (map fst ps')" "distinct (map (p_ownerGuid \<circ> snd) ps) \<longleftrightarrow> distinct (map (p_ownerGuid \<circ> snd) ps')"
    by (intro mset_eq_imp_distinct_iff; simp)+
  moreover have "distinct (signers ps) \<longleftrightarrow> distinct (signers ps')" using mset_signers [OF a] by (rule mset_eq_imp_distinct_iff)
  moreover have "set ps = set ps'" "set (signers ps) = set (signers ps')" using a mset_signers [OF a] by (metis set_mset_mset)+
  ultimately show ?thesis by (simp add: charters_in_def list_all_iff)
qed

lemma charters_CreatePetition:
  assumes "env_ok e" and c: "charters_in (pcore s)" and n: "s_nextPetitionId s \<noteq> - 1"
    and o: "me \<notin> set (map (p_ownerGuid \<circ> snd) (s_petitions s))" and t: "pcore t = (s_petitions s, s_guid2guild s, s_nextPetitionId s + 1)"
  shows "charters_in (pcore (CreatePetition e (s_nextPetitionId s) me p cg name t))"
proof -
  let ?n = "s_nextPetitionId s" and ?ps = "s_petitions s"
  let ?pet = "\<lparr>p_id = ?n, p_charterGuid = cg, p_ownerGuid = me, p_name = name, p_team = gp_team p, p_signatures = []\<rparr>"
  note d = charters_inD [OF c [unfolded pcore_def]]
  have k: "?n \<notin> set (map fst ?ps)" using d(5) by (auto simp: list_all_iff petition_ok_def)
  have "list_all (petition_ok (?n + 1)) ((?n, ?pet) # ?ps)"
    using d(1,5) n le_less_succ [OF n] by (auto simp: list_all_iff petition_ok_def)
  moreover have "?n + 1 \<noteq> 0" using n by (metis add.right_cancel add.left_inverse)
  ultimately have "charters_in ((?n, ?pet) # ?ps, s_guid2guild s, ?n + 1)"
    using d(2-4,6) k o by (simp add: charters_in_def)
  moreover have "mset (um_put (ge_order e) ?n ?pet ?ps) = mset ((?n, ?pet) # ?ps)"
    using mset_put [OF env_order [OF assms(1)] d(2) k] by simp
  moreover have "s_petitions (Petition_SaveToDB ?pet t) = ?ps" "pcore (Petition_SaveToDB ?pet t) = pcore t"
    using t by (simp_all add: pcore_def Petition_SaveToDB_def upd_db_def)
  ultimately show ?thesis
    using t charters_in_mset [of "um_put (ge_order e) ?n ?pet ?ps" "(?n, ?pet) # ?ps" "s_guid2guild s" "?n + 1"]
    by (simp add: CreatePetition_def Let_def pcore_def)
qed

lemma charters_buy:
  assumes "env_ok e" and "charters_in (pcore s)" and "s_nextPetitionId s \<noteq> - 1"
  shows "charters_in (pcore (HandlePetitionBuyOpcode e n c me npcg npc designer name s))"
proof -
  have "charters_in (pcore (sell_charter e me dest name p s))" if "GetPetitionByOwnerGuid me s = None" for dest p
  proof -
    have "me \<notin> set (map (p_ownerGuid \<circ> snd) (s_petitions s))"
      using that by (force simp: GetPetitionByOwnerGuid_def find_None_iff)
    moreover have "pcore (upd_gplayer g f (s\<lparr>s_nextPetitionId := x\<rparr>)) = (s_petitions s, s_guid2guild s, x)" for g f x
      by (simp add: pcore_def upd_gplayer_def)
    ultimately show ?thesis using assms charters_CreatePetition [OF assms]
      by (auto simp: sell_charter_def Let_def split: option.split prod.split)
  qed
  then show ?thesis using assms(2)
    by (auto simp: HandlePetitionBuyOpcode_def SendBuyError_def SendEquipError_def split: option.split prod.split)
qed

lemma pcore_quiet_charters:
  "pcore (HandlePetitionShowSignOpcode me ig s) = pcore s" "pcore (HandlePetitionQueryOpcode me pg s) = pcore s"
  "pcore (HandlePetitionDeclineOpcode me ig s) = pcore s" "pcore (HandleOfferPetitionOpcode e me ig tg s) = pcore s"
  "pcore (SendPetitionShowList me g npc s) = pcore s"
  by (simp_all add: HandlePetitionShowSignOpcode_def HandlePetitionQueryOpcode_def HandlePetitionDeclineOpcode_def
      HandleOfferPetitionOpcode_def SendPetitionShowList_def to_owner_def Let_def split: option.split)

lemma signers_update: "(\<And>p. p_signatures (f p) = p_signatures p) \<Longrightarrow> signers (um_update pid f ps) = signers ps"
  unfolding signers_def um_update_def by (induction ps) (auto simp: case_prod_unfold)

lemma charters_rename:
  assumes "charters_in (pcore s)"
  shows "charters_in (pcore (HandlePetitionRenameOpcode n me ig name s))"
proof -
  have "charters_in (pcore (Petition_Rename pid name s))" for pid
    using assms by (auto simp: Petition_Rename_def upd_petition_def upd_db_def pcore_def charters_in_def owners_update signers_update
        intro!: petition_ok_update)
  then show ?thesis using assms by (auto simp: HandlePetitionRenameOpcode_def split: option.split)
qed

lemma charters_destroy_item:
  assumes "charters_in (pcore s)"
  shows "charters_in (pcore (destroy_item e me bag slot s))"
proof -
  have "charters_in (pcore (fold delete_petition pids t))" if "charters_in (pcore t)" for pids t
    using that by (induction pids arbitrary: t) (simp_all add: charters_delete_petition)
  then show ?thesis using assms by (auto simp: destroy_item_def Let_def split: option.split)
qed

text \<open>A player without a guild puts his signature on a charter with fewer than nine.\<close>

lemma mset_signers_added:
  assumes "distinct (map fst ps)" and "um_find pid ps = Some pet"
  shows "mset (signers (um_update pid (\<lambda>p. p\<lparr>p_signatures := p_signatures p @ [sg]\<rparr>) ps)) = add_mset (ps_playerGuid sg) (mset (signers ps))"
  using assms
proof (induction ps)
  case (Cons a ps)
  obtain k v where a: "a = (k, v)" by fastforce
  then show ?case using Cons by (cases "k = pid") (auto simp: um_update_Cons um_update_absent um_find_def)
qed (simp add: um_find_def)

lemma petition_ok_added:
  assumes "list_all (petition_ok n) ps" and "distinct (map fst ps)" and "um_find pid ps = Some pet" and "length (p_signatures pet) < 9"
  shows "list_all (petition_ok n) (um_update pid (\<lambda>p. p\<lparr>p_signatures := p_signatures p @ [sg]\<rparr>) ps)"
proof -
  have "(pid, p) \<in> set ps \<Longrightarrow> p = pet" for p using assms(2,3) by (simp add: um_find_def)
  then show ?thesis using assms(1,4) by (auto simp: list_all_iff um_update_def petition_ok_def)
qed

lemma charters_AddSignature:
  assumes c: "charters_in (pcore s)" and f: "um_find pid (s_petitions s) = Some pet" and l: "length (p_signatures pet) < 9"
    and sg: "signer_ok (s_guid2guild s) (ps_playerGuid sg)" "ps_playerGuid sg \<notin> set (signers (s_petitions s))"
  shows "charters_in (pcore (AddSignature pid sg s))"
proof -
  let ?ps = "s_petitions s" and ?ps' = "um_update pid (\<lambda>p. p\<lparr>p_signatures := p_signatures p @ [sg]\<rparr>) (s_petitions s)"
  note d = charters_inD [OF c [unfolded pcore_def]]
  note m = mset_signers_added [OF d(2) f, of sg]
  have "set (signers ?ps') = insert (ps_playerGuid sg) (set (signers ?ps))" using arg_cong [OF m, of set_mset] by simp
  moreover have "distinct (signers ?ps')"
    using m sg(2) d(4) mset_eq_imp_distinct_iff [of "signers ?ps'" "ps_playerGuid sg # signers ?ps"] by simp
  moreover have "map (p_ownerGuid \<circ> snd) ?ps' = map (p_ownerGuid \<circ> snd) ?ps" by (rule owners_update) simp
  ultimately show ?thesis using d sg(1) petition_ok_added [OF d(5) d(2) f l, of sg]
    by (simp add: AddSignature_def upd_petition_def pcore_def charters_in_def list_all_iff)
qed

lemma connected_signer:
  assumes c: "closed (score s)" and p: "s_players s me = Some p" "gp_guildId p = 0"
  shows "signer_ok (s_guid2guild s) me"
proof -
  have l: "linked (ranks_of (sc_guilds (score s))) (score s)" using c by (simp add: closed_def)
  have "sc_guilds (score s) 0 = None" using c unfolding closed_def gcore_ok_def by (metis not_None_eq)
  then have "ranks_of (sc_guilds (score s)) 0 k = None" for k by (simp add: ranks_of_def)
  then have "ranks_of (sc_guilds (score s)) gid (GetCounter me) = None" for gid using no_guild_no_member [OF l _ p] by blast
  then have "sc_index (score s) (GetCounter me) = None" using linkedD(1) [OF l] by (metis not_None_eq)
  then show ?thesis using player_valid [OF l p(1)] by (simp add: signer_ok_def score_def)
qed

lemma um_find_withdraw:
  "um_find pid (s_petitions s) = Some pet \<Longrightarrow>
   \<exists>pet'. um_find pid (s_petitions (withdraw_signature g s)) = Some pet' \<and> length (p_signatures pet') \<le> length (p_signatures pet)"
  by (auto simp: withdraw_signature_def DeleteSignature_def Signature_DeleteFromDB_def upd_db_def remove_signature_shorter split: option.split)

lemma charters_put_signature:
  assumes c: "charters_in (pcore s)" and f: "GetPetitionById pid s = Some pet" and l: "length (p_signatures pet) < 9"
    and sg: "signer_ok (s_guid2guild s) me"
  shows "charters_in (pcore (put_signature e me ig pid owner p s))"
proof -
  let ?w = "withdraw_signature me s" and ?sg = "\<lparr>ps_playerGuid = me, ps_playerAccount = gp_account p\<rparr>"
  note w = charters_withdraw [OF c, of me]
  obtain pet' where pet': "um_find pid (s_petitions ?w) = Some pet'" "length (p_signatures pet') < 9"
    using um_find_withdraw [of pid s pet me] f l by (auto simp: GetPetitionById_def)
  have u: "s_petitions (upd_db h ?w) = s_petitions ?w" "s_guid2guild (upd_db h ?w) = s_guid2guild s" for h
    by (simp_all add: upd_db_def withdraw_facts)
  have "charters_in (pcore (AddSignature pid ?sg (Signature_SaveToDB pet' ?sg ?w)))"
    using w sg pet' by (intro charters_AddSignature [of _ _ pet']) (simp_all add: u Signature_SaveToDB_def)
  then have "charters_in (pcore (snd (AddNewSignature e pid me p ?w)))"
    using w(1) pet'(1) by (simp add: AddNewSignature_def GetPetitionById_def Let_def)
  then show ?thesis by (auto simp: put_signature_def to_owner_def Let_def case_prod_unfold split: option.split)
qed

lemma charters_sign:
  assumes g: "closed (score s)" and c: "charters_in (pcore s)"
  shows "charters_in (pcore (HandlePetitionSignOpcode e me ig s))"
proof (cases "s_players s me")
  case (Some p)
  have put: "charters_in (pcore (put_signature e me ig pid owner p s))"
    if "GetPetitionById pid s = Some pet" "\<not> GetSignatureCount pet \<ge> 9" "gp_guildId p = 0" for pid pet owner
  proof (rule charters_put_signature [OF c that(1) _ connected_signer [OF g Some that(3)]])
    have "length (p_signatures pet) \<le> 9"
      using that(1) c by (auto simp: GetPetitionById_def um_find_def pcore_def charters_in_def list_all_iff petition_ok_def dest!: map_of_SomeD)
    then show "length (p_signatures pet) < 9"
      using that(2) by (auto simp: GetSignatureCount_def word_le_nat_alt unat_of_nat take_bit_eq_mod)
  qed
  have q: "pcore (to_owner o' f t) = pcore t" if "\<And>t. pcore (f t) = pcore t" for o' f t
    using that by (simp add: to_owner_def split: option.split)
  show ?thesis using Some c put
    by (simp add: HandlePetitionSignOpcode_def Let_def q split: option.split)
qed (use c in \<open>simp add: HandlePetitionSignOpcode_def\<close>)

end
