(* ===== verification/Charter_Life.thy ===== *)
theory Charter_Life
  imports Charter_Run
begin

text \<open>
  The steps of guilds keep the invariant of charters.
\<close>

section \<open>Steps of guilds\<close>

lemma charters_accept:
  assumes l: "closed (score s)" and c: "charters_in (pcore s)"
  shows "charters_in (pcore (HandleGuildAcceptOpcode e me s))"
proof (cases "s_players s me")
  case (Some p)
  have "linked (ranks_of (sc_guilds (score s))) (score s)" using l by (simp add: closed_def)
  then have me: "me = player_guid (GetCounter me)" using player_valid [OF _ Some] by simp
  have "charters_in (pcore (snd (AddMember e me r (s\<lparr>s_this := g\<rparr>))))" for r g
    using c by (intro charters_AddMember [OF _ me]) simp
  then show ?thesis using c
    by (auto simp: HandleGuildAcceptOpcode_def Some with_guild_def Let_def case_prod_unfold split: option.split)
qed (use c in \<open>simp add: HandleGuildAcceptOpcode_def\<close>)

lemma charters_Create:
  assumes l: "closed (score s)" and c: "charters_in (pcore s)"
    and cr: "Create e me gname (s\<lparr>s_this := new_guild\<rparr>) = Some (made, s')"
  shows "charters_in (pcore s')"
proof (cases "GetGuildByName gname (s\<lparr>s_this := new_guild\<rparr>) = None \<and> s_players s me \<noteq> None")
  case True
  then obtain p where p: "s_players s me = Some p" by blast
  have "linked (ranks_of (sc_guilds (score s))) (score s)" using l by (simp add: closed_def)
  then have me: "me = player_guid (GetCounter me)" using player_valid [OF _ p] by simp
  obtain s2 where s2: "open_banks e (CreateDefaultGuildRanks e (gp_locale p) (found_guild e me gname (s\<lparr>s_this := new_guild\<rparr>))) = Some s2"
    using cr True p by (auto simp: Create_def Let_def bind_eq_Some_conv)
  have "charters_in (pcore s2)" using pcore_open_banks [OF s2] c by simp
  then have "charters_in (pcore (snd (AddMember e me GR_GUILDMASTER s2)))" by (rule charters_AddMember [OF _ me])
  then show ?thesis using cr True p s2 by (auto simp: Create_def Let_def case_prod_unfold split: if_splits)
next
  case False
  then have "s' = s\<lparr>s_this := new_guild\<rparr>" using cr by (auto simp: Create_def split: option.splits)
  then show ?thesis using c by simp
qed

lemma charters_create:
  assumes "closed (score s)" and "charters_in (pcore s)" and h: "HandleGuildCreateOpcode e me gname s = Some s'"
  shows "charters_in (pcore s')"
proof (cases "my_guild me s \<noteq> 0")
  case True
  then show ?thesis using h assms(2) by (simp add: HandleGuildCreateOpcode_def)
next
  case False
  then obtain made s1 where cr: "Create e me gname (s\<lparr>s_this := new_guild\<rparr>) = Some (made, s1)"
    using h by (auto simp: HandleGuildCreateOpcode_def bind_eq_Some_conv)
  then have "pcore s' = pcore s1"
    using h False pcore_AddGuild [of e s1] by (auto simp: HandleGuildCreateOpcode_def split: if_splits)
  then show ?thesis using charters_Create [OF assms(1,2) cr] by simp
qed

lemma charters_delete:
  assumes "charters_in (pcore s)"
  shows "charters_in (pcore (HandleCharDeleteOpcode e account locked g s))"
proof -
  have q: "shrinks (\<lambda>s. s)" by (rule shrinks_quiet) simp
  have "below (pcore t) (pcore (with_guild gid id (\<lambda>s. case DelMember g False s of (True, s') \<Rightarrow> Disband s' | (False, s') \<Rightarrow> s') t))" for t gid
    using shrinksD [OF shrinks_with [of id, OF _ shrinks_DelMember [OF q]]] q by (simp add: shrinks_def)
  note d = charters_below [OF this assms]
  have "charters_in (pcore (case GetPlayerGuild (ucast g) s of
                  None \<Rightarrow> s
                | Some gd \<Rightarrow> with_guild (g_Id gd) id (\<lambda>s. case DelMember g False s of
                                                        (True, s') \<Rightarrow> Disband s' | (False, s') \<Rightarrow> s') s))"
    using assms d by (simp split: option.split)
  then have "charters_in (pcore (DeleteFromDB g s))"
    unfolding DeleteFromDB_def Let_def by (auto intro!: charters_withdraw(1) charters_DeletePetition split: option.split)
  then show ?thesis using assms by (simp add: HandleCharDeleteOpcode_def split: option.split)
qed

lemmas charters_shrink =
  shrink_information [THEN shrinksD, THEN charters_below] shrink_invitations [THEN shrinksD, THEN charters_below]
  shrink_texts [THEN shrinksD, THEN charters_below] shrink_ranks [THEN shrinksD, THEN charters_below]
  shrink_leaving [THEN shrinksD, THEN charters_below] below_sessions [THEN charters_below]

lemma charters_guild_step:
  "guild_step s s' \<Longrightarrow> closed (score s) \<Longrightarrow> charters_in (pcore s) \<Longrightarrow> charters_in (pcore s')"
proof (induction rule: guild_step.induct)
  case (del_rank e me s s')
  then show ?case using charters_below [OF below_DelRankOpcode] by blast
next
  case (create e s me gname s')
  then show ?case using charters_create by blast
next
  case (update e diff s s')
  then show ?case using charters_below [OF below_Update] by blast
next
  case (moves f s g)
  then show ?case by simp
qed (blast intro: charters_accept charters_delete charters_shrink)+

end
