(* ===== verification/Charter_Found.thy ===== *)
theory Charter_Found
  imports Charter_Life
begin

text \<open>A charter that is turned in: the guild is founded, and those who signed join it.\<close>

section \<open>Who can join\<close>

definition joinable :: "genv \<Rightarrow> guid \<Rightarrow> gs \<Rightarrow> bool" where
  "joinable e g s =
     (case FindPlayerNotInWorld g s of
        Some p \<Rightarrow> gp_guildId p = 0
      | None \<Rightarrow> (case new_member e g s of Inl _ \<Rightarrow> False | Inr _ \<Rightarrow> True))"

lemma joinable_core: "sc_players (score s) g = sc_players (score t) g \<Longrightarrow> joinable e g s = joinable e g t"
  by (auto simp: joinable_def new_member_def FindPlayerNotInWorld_def score_def player_core_def split: option.splits)

lemma new_member_withdraw: "new_member e g (withdraw_signature h s) = new_member e g s"
  by (simp add: new_member_def FindPlayerNotInWorld_def withdraw_facts)

lemma add_core_more [simp]:
  "sc_index (add_core g r c) = (sc_index c)(GetCounter g \<mapsto> gc_id (sc_this c))"
  "g' \<noteq> g \<Longrightarrow> sc_players (add_core g r c) g' = sc_players c g'"
  by (simp_all add: add_core_def Let_def split: option.split)

lemma signer_nowhere:
  assumes "others_ok (score s)" and "signer_ok (s_guid2guild s) g"
  shows "seen (score s) gid (GetCounter g) = None"
proof (rule ccontr)
  assume "seen (score s) gid (GetCounter g) \<noteq> None"
  moreover have "linked (seen (score s)) (score s)" using assms(1) by (simp add: others_ok_def)
  ultimately have "sc_index (score s) (GetCounter g) = Some gid" using linkedD(1) by blast
  then show False using assms(2) by (simp add: score_def signer_ok_def)
qed

text \<open>One who signed joins exactly when he can.\<close>

lemma signer_joins:
  assumes "env_ok e" and o: "others_ok (score s)" and g: "signer_ok (s_guid2guild s) g"
  obtains rank where "score (snd (AddMember e g r s)) = (if joinable e g s then add_core g rank (score s) else score s)"
proof -
  have "ranks_in (sc_this (score s)) (GetCounter g) = None" using signer_nowhere [OF o g] by (metis seen_this)
  moreover have "ucast g = GetCounter g" using g ucast_player_guid by (metis signer_ok_def)
  ultimately have "um_find (ucast g) (g_members (s_this s)) = None" by (simp add: ranks_in_score get_slot_def)
  then have j: "joinable e g s \<longleftrightarrow> \<not> already_in_guild g s \<and> (\<exists>m. new_member e g s = Inr m)"
    by (auto simp: joinable_def already_in_guild_def new_member_def split: option.splits sum.splits)
  show thesis
  proof (cases "joinable e g s")
    case True
    then obtain m where m: "\<not> already_in_guild g s" "new_member e g (withdraw_signature g s) = Inr m"
      using j by (auto simp: new_member_withdraw)
    show thesis using AddMember_joins [OF assms(1) m, of r] that True by auto
  next
    case False
    then have "score (snd (AddMember e g r s)) = score s"
      using j by (cases "new_member e g s") (auto simp: AddMember_def Let_def new_member_withdraw)
    then show thesis using that False by simp
  qed
qed

abbreviation enrol :: "genv \<Rightarrow> petition_signature \<Rightarrow> gs \<Rightarrow> gs" where
  "enrol e \<equiv> \<lambda>sg s. if IsEmpty (ps_playerGuid sg) then s else snd (AddMember e (ps_playerGuid sg) (GetLowestRank (s_this s)) s)"

text \<open>The guild while the signers join it.\<close>

definition founding :: "u32 \<Rightarrow> guid \<Rightarrow> string \<Rightarrow> gs \<Rightarrow> bool" where
  "founding gid leader gname s \<longleftrightarrow> others_ok (score s) \<and> gcore_ok gid (sc_this (score s)) \<and> charters_in (pcore s) \<and>
     gc_leader (sc_this (score s)) = leader \<and> g_Name (s_this s) = gname"

lemma name_AddMember [simp]: "g_Name (s_this (snd (AddMember e g r s))) = g_Name (s_this s)"
  by (auto simp: AddMember_def Let_def withdraw_facts run_hook_def upd_this_def GuildMemberAdded_def upd_db_def upd_gplayer_def AddToCache_def
      UpdateAccountsNumber_def split: sum.split option.split)

definition has_member :: "u32 \<Rightarrow> gs \<Rightarrow> bool" where
  "has_member k s \<longleftrightarrow> ranks_in (sc_this (score s)) k \<noteq> None"

lemma founding_enrol:
  assumes "env_ok e" and f: "founding gid leader gname s" and sg: "signer_ok (s_guid2guild s) (ps_playerGuid sg)"
  shows "founding gid leader gname (enrol e sg s)"
    and "has_member k (enrol e sg s) \<longleftrightarrow> has_member k s \<or> k = GetCounter (ps_playerGuid sg) \<and> joinable e (ps_playerGuid sg) s"
    and "GetCounter h \<noteq> GetCounter (ps_playerGuid sg) \<Longrightarrow> s_guid2guild (enrol e sg s) (GetCounter h) = s_guid2guild s (GetCounter h) \<and>
       sc_players (score (enrol e sg s)) h = sc_players (score s) h"
proof -
  let ?g = "ps_playerGuid sg"
  have g: "\<not> IsEmpty ?g" "?g = player_guid (GetCounter ?g)" using sg by (simp_all add: signer_ok_def)
  have o: "others_ok (score s)" "gcore_ok gid (sc_this (score s))" using f by (simp_all add: founding_def)
  obtain status s' where a: "AddMember e ?g (GetLowestRank (s_this s)) s = (status, s')" by fastforce
  have e: "enrol e sg s = s'" using g(1) a by simp
  obtain rank where sc: "score s' = (if joinable e ?g s then add_core ?g rank (score s) else score s)"
    using signer_joins [OF assms(1) o(1) sg] a by (metis snd_conv)
  have "others_ok (score s') \<and> gcore_ok gid (sc_this (score s'))"
    using member_joins [OF assms(1) o g signer_nowhere [OF o(1) sg] a] by simp
  moreover have "charters_in (pcore s')" using charters_AddMember [OF _ g(2), of s e "GetLowestRank (s_this s)"] f a by (simp add: founding_def)
  moreover have "g_Name (s_this s') = g_Name (s_this s)" using name_AddMember [of e ?g "GetLowestRank (s_this s)" s] a by simp
  moreover have "gc_leader (sc_this (score s')) = gc_leader (sc_this (score s))" by (simp add: sc)
  ultimately show "founding gid leader gname (enrol e sg s)" using f unfolding e by (simp add: founding_def)
  show "has_member k (enrol e sg s) \<longleftrightarrow> has_member k s \<or> k = GetCounter ?g \<and> joinable e ?g s"
    unfolding e by (auto simp: has_member_def sc)
  assume ne: "GetCounter h \<noteq> GetCounter ?g"
  then have "h \<noteq> ?g" by blast
  moreover have "s_guid2guild t = sc_index (score t)" for t by (simp add: score_def)
  ultimately show "s_guid2guild (enrol e sg s) (GetCounter h) = s_guid2guild s (GetCounter h) \<and>
       sc_players (score (enrol e sg s)) h = sc_players (score s) h"
    unfolding e using sc ne by (cases "joinable e ?g s") simp_all
qed

lemma founding_all:
  assumes "env_ok e" and "founding gid leader gname s" and "distinct (map ps_playerGuid sgs)"
    and "list_all (\<lambda>sg. signer_ok (s_guid2guild s) (ps_playerGuid sg)) sgs"
  shows "founding gid leader gname (fold (enrol e) sgs s) \<and>
     (has_member k (fold (enrol e) sgs s) \<longleftrightarrow>
        has_member k s \<or> (\<exists>sg \<in> set sgs. k = GetCounter (ps_playerGuid sg) \<and> joinable e (ps_playerGuid sg) s))"
  using assms(2-4)
proof (induction sgs arbitrary: s)
  case (Cons sg sgs)
  let ?t = "enrol e sg s"
  have sg: "signer_ok (s_guid2guild s) (ps_playerGuid sg)" using Cons.prems(3) by simp
  note f = founding_enrol [OF assms(1) Cons.prems(1) sg]
  have ne: "GetCounter (ps_playerGuid x) \<noteq> GetCounter (ps_playerGuid sg)" if "x \<in> set sgs" for x
  proof -
    have "signer_ok (s_guid2guild s) (ps_playerGuid x)" using that Cons.prems(3) by (simp add: list_all_iff)
    moreover have "ps_playerGuid x \<noteq> ps_playerGuid sg" using that Cons.prems(2) by (auto simp: image_iff)
    ultimately show ?thesis using sg unfolding signer_ok_def by metis
  qed
  have "list_all (\<lambda>sg. signer_ok (s_guid2guild ?t) (ps_playerGuid sg)) sgs"
    using Cons.prems(3) f(3) [OF ne] by (simp add: list_all_iff signer_ok_def)
  note ih = Cons.IH [OF f(1) _ this]
  have "joinable e (ps_playerGuid x) ?t = joinable e (ps_playerGuid x) s" if "x \<in> set sgs" for x
    using f(3) [OF ne [OF that]] by (intro joinable_core) simp
  then show ?case using ih Cons.prems(2) f(2) by (auto simp del: if_split)
qed simp

section \<open>The signatures on the charter\<close>

lemma guids_withdraw:
  assumes "um_find pid (s_petitions s) = Some pet"
  shows "\<exists>pet'. um_find pid (s_petitions (withdraw_signature g s)) = Some pet' \<and>
    ps_playerGuid ` set (p_signatures pet') - {g} = ps_playerGuid ` set (p_signatures pet) - {g}"
proof -
  have "ps_playerGuid ` set (remove_signature g sgs) - {g} = ps_playerGuid ` set sgs - {g}" for sgs
    by (induction sgs) auto
  then show ?thesis using assms
    by (auto simp: withdraw_signature_def DeleteSignature_def Signature_DeleteFromDB_def upd_db_def split: option.split)
qed

lemma signers_of:
  assumes "um_find pid ps = Some pet"
  shows "ps_playerGuid ` set (p_signatures pet) \<subseteq> set (signers ps)" "distinct (signers ps) \<Longrightarrow> distinct (map ps_playerGuid (p_signatures pet))"
  using assms by (induction ps) (auto simp: um_find_def split: if_splits)

lemma petitions_AddMember:
  "s_petitions (snd (AddMember e g r s)) = s_petitions (if already_in_guild g s then s else withdraw_signature g s)"
  by (auto simp: AddMember_def Let_def run_hook_def upd_this_def GuildMemberAdded_def upd_db_def upd_gplayer_def AddToCache_def
      UpdateAccountsNumber_def split: sum.split option.split)

lemma petitions_withdraw_cong: "s_petitions s = s_petitions t \<Longrightarrow> s_petitions (withdraw_signature g s) = s_petitions (withdraw_signature g t)"
  by (simp add: withdraw_signature_def GetSignatureForPlayerGuid_def DeleteSignature_def Signature_DeleteFromDB_def upd_db_def split: option.split)

section \<open>Fresh banks\<close>

text \<open>The tables of the banks have no row of a guild.\<close>

definition no_bank_rows :: "u32 \<Rightarrow> gs \<Rightarrow> bool" where
  "no_bank_rows gid s \<longleftrightarrow> list_all (\<lambda>r. tr_guildid r \<noteq> gid) (t_tabs (t_banks (s_db s))) \<and> list_all (\<lambda>r. lr_guildid r \<noteq> gid) (t_log (t_banks (s_db s)))"

lemma open_banks_fresh:
  assumes "no_bank_rows (g_Id (s_this s)) s"
  obtains s' where "open_banks e s = Some s'" "t_banks (s_db s') = t_banks (s_db s)" "g_Name (s_this s') = g_Name (s_this s)"
proof -
  have set: "\<exists>b'. SetGuild (ge_world e) gid (b\<lparr>gb_inferno := i, gb_db := d\<rparr>) = Some b' \<and> gb_db b' = d"
    if "list_all (\<lambda>r. tr_guildid r \<noteq> gid) (t_tabs d)" "list_all (\<lambda>r. lr_guildid r \<noteq> gid) (t_log d)" for gid b i d
  proof -
    let ?b = "b\<lparr>gb_inferno := i, gb_db := d, gb_guildid := gid, gb_tabs := 0\<rparr>"
    have "joined_rows ?b = []" using that(1) by (auto simp: joined_rows_def list_all_iff)
    moreover have "log_rows (ge_world e) ?b = []" using that(2) by (auto simp: log_rows_def list_all_iff filter_empty_conv)
    ultimately show ?thesis by (simp add: SetGuild_def LoadBank_def LoadLog_def)
  qed
  have open1: "\<exists>b t'. open_bank e i t = Some (b, t') \<and> t_banks (s_db t') = t_banks (s_db t) \<and> s_this t' = s_this t"
    if "no_bank_rows (g_Id (s_this t)) t" for i t
    using set [of "g_Id (s_this t)" "t_banks (s_db t)" i "ge_newBank e i"] that
    by (auto simp: open_bank_def no_bank_rows_def upd_db_def)
  obtain b s1 where 1: "open_bank e False s = Some (b, s1)" "t_banks (s_db s1) = t_banks (s_db s)" "s_this s1 = s_this s"
    using open1 [OF assms, of False] by blast
  let ?s2 = "upd_this (\<lambda>g. g\<lparr>g_Bank := Some b\<rparr>) s1"
  have "no_bank_rows (g_Id (s_this ?s2)) ?s2" using assms 1 by (simp add: no_bank_rows_def upd_this_def)
  then obtain i s3 where 3: "open_bank e True ?s2 = Some (i, s3)" "t_banks (s_db s3) = t_banks (s_db ?s2)" "s_this s3 = s_this ?s2"
    using open1 by blast
  show thesis using that [of "upd_this (\<lambda>g. g\<lparr>g_InfernoBank := Some i\<rparr>) s3"] 1 3 by (simp add: open_banks_def upd_this_def)
qed

lemma bank_rows_AddMember [simp]: "t_banks (s_db (snd (AddMember e g r s))) = t_banks (s_db s)"
  by (auto simp: AddMember_def Let_def run_hook_def upd_this_def GuildMemberAdded_def upd_db_def upd_gplayer_def AddToCache_def
      UpdateAccountsNumber_def withdraw_signature_def DeleteSignature_def Signature_DeleteFromDB_def split: sum.split option.split)

lemma bank_rows_enrol [simp]: "t_banks (s_db (fold (enrol e) sgs s)) = t_banks (s_db s)"
  by (induction sgs arbitrary: s) simp_all

section \<open>Founding by a charter\<close>

lemma frame_CreateRank [simp]:
  "g_Id (s_this (CreateRank n r s)) = g_Id (s_this s)" "g_Name (s_this (CreateRank n r s)) = g_Name (s_this s)"
  "t_banks (s_db (CreateRank n r s)) = t_banks (s_db s)"
  by (simp_all add: CreateRank_def AddRank_def Let_def upd_db_def upd_this_def)

lemma frame_default_ranks [simp]:
  "g_Id (s_this (CreateDefaultGuildRanks e i s)) = g_Id (s_this s)" "g_Name (s_this (CreateDefaultGuildRanks e i s)) = g_Name (s_this s)"
  "t_banks (s_db (CreateDefaultGuildRanks e i s)) = t_banks (s_db s)"
  by (simp_all add: CreateDefaultGuildRanks_def Let_def) (simp_all add: upd_db_def)

lemma name_open_banks: "open_banks e s = Some s' \<Longrightarrow> g_Name (s_this s') = g_Name (s_this s)"
  by (auto simp: open_banks_def open_bank_def Let_def bind_eq_Some_conv upd_db_def upd_this_def)

lemma Create_facts:
  assumes p: "s_players s me = Some p" and n: "GetGuildByName gname s = None"
    and cr: "Create e me gname (s\<lparr>s_this := new_guild\<rparr>) = Some (made, s3)"
  shows "g_Name (s_this s3) = gname" "s_petitions s3 = s_petitions s \<or> s_petitions s3 = s_petitions (withdraw_signature me s)"
proof -
  let ?s0 = "s\<lparr>s_this := new_guild\<rparr>"
  let ?s1 = "CreateDefaultGuildRanks e (gp_locale p) (found_guild e me gname ?s0)"
  have n0: "GetGuildByName gname ?s0 = None" using n by (simp add: GetGuildByName_def)
  then obtain s2 where s2: "open_banks e ?s1 = Some s2" using cr p by (auto simp: Create_def Let_def bind_eq_Some_conv)
  have "g_Name (s_this ?s1) = gname" by (simp add: found_guild_def Let_def upd_db_def upd_this_def split: prod.split)
  then have nm: "g_Name (s_this s2) = gname" using name_open_banks [OF s2] by simp
  have "pcore s2 = pcore s" using pcore_open_banks [OF s2] by simp
  then have pt: "s_petitions s2 = s_petitions s" by (simp add: pcore_def)
  obtain status t where t: "AddMember e me GR_GUILDMASTER s2 = (status, t)" by fastforce
  have s3: "s_this s3 = s_this t" "s_petitions s3 = s_petitions t"
    using cr n0 p s2 t by (auto simp: Create_def Let_def run_hook_def split: if_splits)
  show "g_Name (s_this s3) = gname" using name_AddMember [of e me GR_GUILDMASTER s2] t nm s3 by simp
  show "s_petitions s3 = s_petitions s \<or> s_petitions s3 = s_petitions (withdraw_signature me s)"
    using petitions_AddMember [of e me GR_GUILDMASTER s2] petitions_withdraw_cong [OF pt, of me] t pt s3 by (auto split: if_splits)
qed

lemma Create_returns:
  assumes "no_bank_rows (s_nextGuildId s) s" and p: "s_players s me = Some p" and n: "GetGuildByName gname s = None"
  shows "\<exists>made s3. Create e me gname (s\<lparr>s_this := new_guild\<rparr>) = Some (made, s3) \<and> t_banks (s_db s3) = t_banks (s_db s)"
proof -
  let ?s1 = "CreateDefaultGuildRanks e (gp_locale p) (found_guild e me gname (s\<lparr>s_this := new_guild\<rparr>))"
  have n0: "GetGuildByName gname (s\<lparr>s_this := new_guild\<rparr>) = None" using n by (simp add: GetGuildByName_def)
  have "g_Id (s_this ?s1) = s_nextGuildId s" and b: "t_banks (s_db ?s1) = t_banks (s_db s)"
    by (simp_all add: found_guild_def Let_def upd_db_def upd_this_def split: prod.split)
  then obtain s2 where s2: "open_banks e ?s1 = Some s2" "t_banks (s_db s2) = t_banks (s_db s)"
    using open_banks_fresh [of ?s1 e] assms(1) by (auto simp: no_bank_rows_def)
  obtain status t where t: "AddMember e me GR_GUILDMASTER s2 = (status, t)" by fastforce
  then have "t_banks (s_db t) = t_banks (s_db s)" using bank_rows_AddMember [of e me GR_GUILDMASTER s2] s2(2) by simp
  then show ?thesis using n0 p s2(1) t by (cases "status = OK") (auto simp: Create_def Let_def run_hook_def)
qed

lemma founded_facts:
  assumes "founded gid me (score s) (score t)"
  shows "has_member k t \<longleftrightarrow> k = GetCounter me" "gc_leader (sc_this (score t)) = me" "s_guid2guild t (GetCounter me) \<noteq> None"
    "g \<noteq> me \<Longrightarrow> joinable e g t = joinable e g s"
proof -
  obtain c where c: "newborn gid me c" "score t = add_core me GR_GUILDMASTER c" "sc_players c = sc_players (score s)"
    using assms by (auto simp: founded_def)
  show "has_member k t \<longleftrightarrow> k = GetCounter me" using c(1) by (simp add: has_member_def c(2) newborn_def ranks_in_def)
  show "gc_leader (sc_this (score t)) = me" using c(1) by (simp add: c(2) newborn_def)
  have "sc_index (score t) (GetCounter me) \<noteq> None" by (simp add: c(2))
  then show "s_guid2guild t (GetCounter me) \<noteq> None" by (simp add: score_def)
  show "g \<noteq> me \<Longrightarrow> joinable e g t = joinable e g s" by (rule joinable_core) (simp add: c(2,3))
qed

lemma CreateFromPetition_founds:
  assumes "env_ok e" and c: "closed (score s)" "charters_in (pcore s)" and nx: "s_nextGuildId s \<noteq> - 1"
    and p: "s_players s me = Some p" "gp_guildId p = 0" and n: "GetGuildByName (p_name pet) s = None"
    and pet: "um_find (p_id pet) (s_petitions s) = Some pet"
    and cp: "CreateFromPetition e pet me (s\<lparr>s_this := new_guild\<rparr>) = Some (done1, s1)"
  shows "done1" "founding (s_nextGuildId s) me (p_name pet) s1"
    "has_member k s1 \<longleftrightarrow>
       k = GetCounter me \<or> (\<exists>sg \<in> set (p_signatures pet). k = GetCounter (ps_playerGuid sg) \<and> joinable e (ps_playerGuid sg) s)"
proof -
  obtain made s3 where cr: "Create e me (p_name pet) (s\<lparr>s_this := new_guild\<rparr>) = Some (made, s3)"
    using cp by (auto simp: CreateFromPetition_def bind_eq_Some_conv)
  note f = Create_founds [OF assms(1) c(1) nx p n cr] and ch = charters_Create [OF c cr] and cf = Create_facts [OF p(1) n cr]
  then have made: "made" and fd: "founded (s_nextGuildId s) me (score s) (score s3)" by simp_all
  note d = charters_inD [OF ch [unfolded pcore_def]] and fact = founded_facts [OF fd]
  obtain pet3 where pet3: "um_find (p_id pet) (s_petitions s3) = Some pet3"
    "ps_playerGuid ` set (p_signatures pet3) - {me} = ps_playerGuid ` set (p_signatures pet) - {me}"
    using cf(2) pet guids_withdraw [OF pet, of me] by metis
  let ?sgs = "p_signatures pet3"
  have s1: "done1" "s1 = fold (enrol e) ?sgs s3" using cp cr made pet3(1) by (simp_all add: CreateFromPetition_def Let_def)
  have ok: "list_all (\<lambda>sg. signer_ok (s_guid2guild s3) (ps_playerGuid sg)) ?sgs"
    using d(6) signers_of(1) [OF pet3(1)] by (auto simp: list_all_iff)
  then have me: "me \<notin> ps_playerGuid ` set ?sgs" using fact(3) by (auto simp: list_all_iff signer_ok_def)
  then have j: "joinable e g s3 = joinable e g s" if "g \<in> ps_playerGuid ` set ?sgs" for g using that fact(4) [of g e] by metis
  have "founding (s_nextGuildId s) me (p_name pet) s3" using f ch cf(1) fact(2) by (simp add: founding_def)
  note all = founding_all [OF assms(1) this signers_of(2) [OF pet3(1) d(4)] ok, folded s1(2)]
  then show "done1" "founding (s_nextGuildId s) me (p_name pet) s1" using s1(1) by simp_all
  have "has_member k s1 \<longleftrightarrow> k = GetCounter me \<or> (\<exists>g \<in> ps_playerGuid ` set ?sgs. k = GetCounter g \<and> joinable e g s)"
    using all [of k] fact(1) [of k] j by auto
  also have "ps_playerGuid ` set ?sgs = ps_playerGuid ` set (p_signatures pet) - {me}" using pet3(2) me by auto
  finally show "has_member k s1 \<longleftrightarrow>
     k = GetCounter me \<or> (\<exists>sg \<in> set (p_signatures pet). k = GetCounter (ps_playerGuid sg) \<and> joinable e (ps_playerGuid sg) s)" by auto
qed

lemma CreateFromPetition_returns:
  assumes "no_bank_rows (s_nextGuildId s) s" and "s_players s me = Some p" and "GetGuildByName (p_name pet) s = None"
  shows "\<exists>made s1. CreateFromPetition e pet me (s\<lparr>s_this := new_guild\<rparr>) = Some (made, s1) \<and> t_banks (s_db s1) = t_banks (s_db s)"
proof -
  obtain made s3 where "Create e me (p_name pet) (s\<lparr>s_this := new_guild\<rparr>) = Some (made, s3)" "t_banks (s_db s3) = t_banks (s_db s)"
    using Create_returns [OF assms] by blast
  then show ?thesis by (cases made) (auto simp: CreateFromPetition_def Let_def)
qed

lemma AddGuild_founding:
  assumes "env_ok e" and f: "founding gid me gname s" and a: "AddGuild e s = Some s'"
  obtains g where "closed (score s')" "charters_in (pcore s')" "GetGuildById gid s' = Some g" "g_Name g = gname" "g_LeaderGuid g = me"
    "\<And>k. um_find k (g_members g) \<noteq> None \<longleftrightarrow> has_member k s"
proof -
  obtain s1 where 1: "open_banks e s = Some s1"
    and s': "s' = s1\<lparr>s_guilds := um_put (ge_order e) (g_Id (s_this s1)) (s_this s1) (s_guilds s1)\<rparr>"
    using a by (auto simp: AddGuild_def)
  have sc: "gcore_of (s_this s1) = (sc_this (score s))\<lparr>gc_banks := True\<rparr>"
    using score_open_banks [OF 1] by (simp add: core_with_def score_def)
  then have "g_Id (s_this s1) = gid" "g_LeaderGuid (s_this s1) = me"
    using f by (auto simp: founding_def gcore_ok_def gcore_of_def dest: arg_cong [of _ _ gc_id] arg_cong [of _ _ gc_leader])
  moreover have "g_Name (s_this s1) = gname" using name_open_banks [OF 1] f by (simp add: founding_def)
  moreover have "um_find k (g_members (s_this s1)) \<noteq> None \<longleftrightarrow> has_member k s" for k
  proof -
    have "map_option (\<lambda>m. (ms_guid m, ms_RankId m)) (um_find k (g_members (s_this s1))) = gc_mem (sc_this (score s)) k"
      using arg_cong [OF sc, of "\<lambda>g. gc_mem g k"] by (simp add: gcore_of_def)
    then have "um_find k (g_members (s_this s1)) = None \<longleftrightarrow> gc_mem (sc_this (score s)) k = None" by (metis option.map_disc_iff)
    then show ?thesis by (simp add: has_member_def ranks_in_def)
  qed
  moreover have "closed (score s')" using closed_AddGuild [OF assms(1) _ _ a, of gid] f by (simp add: founding_def)
  moreover have "charters_in (pcore s')" using pcore_AddGuild [OF a] f by (simp add: founding_def)
  ultimately show thesis using that [of "s_this s1"] by (simp add: GetGuildById_def s' um_find_put [OF env_order [OF assms(1)]])
qed

lemma AddGuild_returns:
  assumes "no_bank_rows (g_Id (s_this s)) s"
  shows "\<exists>s'. AddGuild e s = Some s'"
proof -
  obtain s1 where "open_banks e s = Some s1" using open_banks_fresh [OF assms, of e] by blast
  then show ?thesis by (simp add: AddGuild_def)
qed

end
