(* ===== verification/Charter_Props.thy ===== *)
theory Charter_Props
  imports Charter_Found Guild_Sample
begin

text \<open>The runs of the server with charters, and the properties of charters.\<close>

section \<open>Turning a charter in\<close>

definition gone :: "u32 \<Rightarrow> gs \<Rightarrow> bool" where
  "gone pid s \<longleftrightarrow> GetPetitionById pid s = None \<and> list_all (\<lambda>r. pt_petitionguid r \<noteq> pid) (t_petition (s_db s)) \<and>
     list_all (\<lambda>r. sg_petitionguid r \<noteq> pid) (t_sign (s_db s))"

lemma gone_DeletePetition: "pid \<noteq> 0 \<Longrightarrow> gone pid (DeletePetition pid s)" "gone pid s \<Longrightarrow> gone pid (DeletePetition q s)"
  by (auto simp: gone_def DeletePetition_def Petition_Delete_def GetPetitionById_def upd_db_def delete_where_def list_all_iff)

lemma gone_destroy_item:
  assumes "gone pid s"
  shows "gone pid (destroy_item e me bag slot s)"
proof -
  have d: "gone pid (delete_petition q t)" if "gone pid t" for q t
    using that gone_DeletePetition(2) by (simp add: delete_petition_def split: option.split)
  have "gone pid (fold delete_petition qs t)" if "gone pid t" for qs t
    using that by (induction qs arbitrary: t) (simp_all add: d)
  moreover have "gone pid (upd_gplayer g f s)" for g f using assms by (simp add: gone_def GetPetitionById_def upd_gplayer_def)
  ultimately show ?thesis using assms by (simp add: destroy_item_def Let_def split: option.split)
qed

lemma destroy_charter_item: "\<exists>bag slot. destroy_charter e me c s = s \<or> destroy_charter e me c s = destroy_item e me bag slot s"
  by (auto simp: destroy_charter_def Let_def split: option.split)

lemma destroy_charter_facts:
  "score (destroy_charter e me c s) = score s" "s_guilds (destroy_charter e me c s) = s_guilds s"
  "charters_in (pcore s) \<Longrightarrow> charters_in (pcore (destroy_charter e me c s))" "gone pid s \<Longrightarrow> gone pid (destroy_charter e me c s)"
proof -
  have "s_guilds (fold delete_petition qs t) = s_guilds t" for qs t
    by (induction qs arbitrary: t) (simp_all add: delete_petition_def DeletePetition_def Petition_Delete_def upd_db_def split: option.split)
  then have "s_guilds (destroy_item e me bag slot s) = s_guilds s" for bag slot
    by (simp add: destroy_item_def Let_def upd_gplayer_def split: option.split)
  then show "score (destroy_charter e me c s) = score s" "s_guilds (destroy_charter e me c s) = s_guilds s"
    "charters_in (pcore s) \<Longrightarrow> charters_in (pcore (destroy_charter e me c s))" "gone pid s \<Longrightarrow> gone pid (destroy_charter e me c s)"
    using destroy_charter_item [of e me c s] charters_destroy_item [of s e me] gone_destroy_item [of pid s e me] by auto
qed

lemma turn_in_result_facts [simp]:
  "score (turn_in_result me code s) = score s" "pcore (turn_in_result me code s) = pcore s" "gone pid (turn_in_result me code s) = gone pid s"
  "s_guilds (turn_in_result me code s) = s_guilds s"
  by (simp_all add: turn_in_result_def) (simp_all add: SendPacket_def gone_def GetPetitionById_def)

text \<open>The guards of the handler, in its order.\<close>

definition can_turn_in :: "genv \<Rightarrow> guid \<Rightarrow> guid \<Rightarrow> gplayer \<Rightarrow> ptr \<Rightarrow> petition \<Rightarrow> gs \<Rightarrow> bool" where
  "can_turn_in e me itemGuid p c pet s \<longleftrightarrow> s_players s me = Some p \<and> find_charter (ge_world e) itemGuid (gp_player p) = Some c \<and>
     GetPetitionById (petition_of c (gp_player p)) s = Some pet \<and> gp_guildId p = 0 \<and> p_ownerGuid pet = me \<and> IsComplete e pet \<and>
     GetGuildByName (p_name pet) s = None"

lemma turn_in_cases:
  assumes "HandleTurnInPetitionOpcode e me itemGuid s = Some s'"
  obtains "score s' = score s" "pcore s' = pcore s"
  | p c pet made s1 s2 where "can_turn_in e me itemGuid p c pet s"
      "CreateFromPetition e pet me (s\<lparr>s_this := new_guild\<rparr>) = Some (made, s1)" "\<not> made \<and> s' = s1 \<or> made \<and> AddGuild e s1 = Some s2 \<and>
       s' = turn_in_result me PETITION_SIGN_OK (destroy_charter e me c (DeletePetition (petition_of c (gp_player p)) s2))"
proof (cases "\<exists>p c pet. can_turn_in e me itemGuid p c pet s")
  case True
  then obtain p c pet where g: "can_turn_in e me itemGuid p c pet s" by blast
  then have "Option.bind (CreateFromPetition e pet me (s\<lparr>s_this := new_guild\<rparr>)) (\<lambda>(made, s1).
      if \<not> made then Some s1 else map_option (\<lambda>s2. turn_in_result me PETITION_SIGN_OK
        (destroy_charter e me c (DeletePetition (petition_of c (gp_player p)) s2))) (AddGuild e s1)) = Some s'"
    using assms by (simp add: HandleTurnInPetitionOpcode_def can_turn_in_def)
  then show thesis using that(2) [OF g] by (auto simp: bind_eq_Some_conv split: if_splits)
next
  case False
  have "score s' = score s \<and> pcore s' = pcore s"
    using assms False unfolding HandleTurnInPetitionOpcode_def can_turn_in_def Let_def
    by (auto split: option.splits if_splits)
  then show thesis using that(1) by blast
qed

lemma turn_in_petition:
  assumes "charters_in (pcore s)" and "can_turn_in e me itemGuid p c pet s"
  shows "p_id pet = petition_of c (gp_player p)" "p_id pet \<noteq> 0" "um_find (p_id pet) (s_petitions s) = Some pet"
proof -
  have f: "um_find (petition_of c (gp_player p)) (s_petitions s) = Some pet" using assms(2) by (simp add: can_turn_in_def GetPetitionById_def)
  then have "(petition_of c (gp_player p), pet) \<in> set (s_petitions s)" by (simp add: um_find_def map_of_SomeD)
  then have "petition_ok (s_nextPetitionId s) (petition_of c (gp_player p), pet)"
    using charters_inD(5) [OF assms(1) [unfolded pcore_def]] by (simp add: list_all_iff)
  then show "p_id pet = petition_of c (gp_player p)" "p_id pet \<noteq> 0" "um_find (p_id pet) (s_petitions s) = Some pet"
    using f by (auto simp: petition_ok_def)
qed

lemma keeps_turn_in:
  assumes "env_ok e" and c: "closed (score s)" "charters_in (pcore s)" and nx: "s_nextGuildId s \<noteq> - 1"
    and h: "HandleTurnInPetitionOpcode e me itemGuid s = Some s'"
  shows "closed (score s') \<and> charters_in (pcore s')"
  using h
proof (cases rule: turn_in_cases)
  case (2 p ch pet made s1 s2)
  note g = 2(1) [unfolded can_turn_in_def] and pt = turn_in_petition [OF c(2) 2(1)]
  have f: "made" "founding (s_nextGuildId s) me (p_name pet) s1"
    using CreateFromPetition_founds [OF assms(1) c nx _ _ _ pt(3) 2(2)] g by blast+
  then have "closed (score s2)" "charters_in (pcore s2)" using AddGuild_founding [OF assms(1) f(2)] 2(3) by blast+
  then show ?thesis using f(1) 2(3) by (simp add: destroy_charter_facts charters_DeletePetition)
qed (use c in simp)

section \<open>Runs\<close>

text \<open>
  A step of guilds, a packet about charters, or an item destroyed by its owner. Ids of petitions have not run out.
\<close>

inductive charter_step :: "gs \<Rightarrow> gs \<Rightarrow> bool" where
  guild: "guild_step s s' \<Longrightarrow> charter_step s s'"
| buy: "env_ok e \<Longrightarrow> s_nextPetitionId s \<noteq> - 1 \<Longrightarrow> charter_step s (HandlePetitionBuyOpcode e n buyCount me guidNPC npc designer name s)"
| show_sign: "charter_step s (HandlePetitionShowSignOpcode me itemGuid s)"
| query: "charter_step s (HandlePetitionQueryOpcode me pid s)"
| rename: "charter_step s (HandlePetitionRenameOpcode n me itemGuid name s)"
| sign: "charter_step s (HandlePetitionSignOpcode e me itemGuid s)"
| decline: "charter_step s (HandlePetitionDeclineOpcode me itemGuid s)"
| offer: "charter_step s (HandleOfferPetitionOpcode e me itemGuid playerGuid s)"
| turn_in: "env_ok e \<Longrightarrow> s_nextGuildId s \<noteq> - 1 \<Longrightarrow> HandleTurnInPetitionOpcode e me itemGuid s = Some s' \<Longrightarrow> charter_step s s'"
| show_list: "charter_step s (SendPetitionShowList me g npc s)"
| destroy: "charter_step s (destroy_item e me bag slot s)"

lemma charter_step_keeps: "charter_step s s' \<Longrightarrow> charters_ok s \<Longrightarrow> charters_ok s'"
proof (induction rule: charter_step.induct)
  case (guild s s')
  then show ?case using guild_step_keeps [OF guild.hyps] charters_guild_step [OF guild.hyps] by (simp add: charters_ok_def guilds_ok_def)
next
  case (turn_in e s me itemGuid s')
  then show ?case using keeps_turn_in [OF turn_in.hyps(1) _ _ turn_in.hyps(2,3)] by (simp add: charters_ok_def guilds_ok_def)
qed (simp_all add: charters_ok_def guilds_ok_def score_charter_handlers pcore_quiet_charters charters_buy charters_rename charters_sign
    charters_destroy_item)

interpretation charters: conserving charter_step charters_ok "\<lambda>_. ()"
  by unfold_locales (simp add: charter_step_keeps)

text \<open>A server where a charter has two signatures, one of a player who is not connected.\<close>

definition novice :: "u32 \<Rightarrow> string \<Rightarrow> gplayer" where
  "novice k name = (sample_gplayer k name 0)\<lparr>gp_guildId := 0\<rparr>"

definition charter_item :: item where
  "charter_item = cloth_stack\<lparr>it_entry := GUILD_CHARTER, it_lowguid := 77, it_count := 1, it_enchants := (it_enchants new_item)[0 := 1]\<rparr>"

definition charter_owner :: gplayer where
  "charter_owner = (novice 20 ''Dora'')\<lparr>gp_player := (gp_player (novice 20 ''Dora''))\<lparr>pl_heap := (\<lambda>p. if p = 0 then charter_item else new_item)\<rparr>\<rparr>"

definition charter_petition :: petition where
  "charter_petition = \<lparr>p_id = 1, p_charterGuid = ObjectGuid2 HIGHGUID_ITEM 77, p_ownerGuid = player_guid 20, p_name = ''Seekers'', p_team = 469,
     p_signatures = map (\<lambda>k. \<lparr>ps_playerGuid = player_guid k, ps_playerAccount = k\<rparr>) [21, 22]\<rparr>"

definition charter_server :: gs where
  "charter_server = sample_server\<lparr>s_players := (s_players sample_server)(player_guid 20 \<mapsto> charter_owner, player_guid 21 \<mapsto> novice 21 ''Emil'',
       player_guid 23 \<mapsto> novice 23 ''Fred''),
     s_petitions := [(1, charter_petition)], s_nextPetitionId := 2\<rparr>"

definition charter_env :: genv where
  "charter_env = sample_env\<lparr>ge_minSigns := 2\<rparr>"

lemma charter_env_ok: "env_ok charter_env"
  using sample_env_ok by (simp add: env_ok_def charter_env_def)

lemma charter_server_ok: "charters_ok charter_server"
proof -
  have add: "closed (c\<lparr>sc_players := (sc_players c)(player_guid k \<mapsto> (0, True, 0))\<rparr>)"
    if "closed c" "k \<noteq> 0" "\<And>gid. ranks_of (sc_guilds c) gid k = None" for c k
    by (rule closed_player [OF that(1), of "player_guid k"]) (use that in \<open>auto simp: player_fine_def player_guid_nonempty small_def\<close>)
  have c: "closed (score sample_server)" using sample_ok by (simp add: guilds_ok_def)
  have "closed ((score sample_server)\<lparr>sc_players := (sc_players (score sample_server))(player_guid 20 \<mapsto> (0, True, 0),
      player_guid 21 \<mapsto> (0, True, 0), player_guid 23 \<mapsto> (0, True, 0))\<rparr>)"
    using add [OF add [OF add [OF c, of 20], of 21], of 23] by (simp add: sample_ranks_of)
  moreover have "score charter_server = (score sample_server)\<lparr>sc_players := (sc_players (score sample_server))(player_guid 20 \<mapsto> (0, True, 0),
      player_guid 21 \<mapsto> (0, True, 0), player_guid 23 \<mapsto> (0, True, 0))\<rparr>"
    by (auto simp: score_def charter_server_def charter_owner_def novice_def sample_gplayer_def player_core_def fun_eq_iff)
  ultimately have "guilds_ok charter_server" by (simp add: guilds_ok_def)
  moreover have "charters_in (pcore charter_server)"
    by (auto simp: charters_in_def pcore_def charter_server_def charter_petition_def petition_ok_def signer_ok_def player_guid_nonempty sample_server_def)
  ultimately show ?thesis by (simp add: charters_ok_def)
qed

lemma charter_turn_in: "can_turn_in charter_env (player_guid 20) (ObjectGuid2 HIGHGUID_ITEM 77) charter_owner 0 charter_petition charter_server"
proof -
  have "find_charter (ge_world charter_env) (ObjectGuid2 HIGHGUID_ITEM 77) (gp_player charter_owner) = Some 0" by code_simp
  moreover have "petition_of 0 (gp_player charter_owner) = 1" by code_simp
  ultimately show ?thesis
    by (simp add: can_turn_in_def charter_server_def GetPetitionById_def um_find_def GetGuildByName_def IsComplete_def)
      (simp add: charter_owner_def novice_def charter_petition_def charter_env_def sample_server_def sample_guild_def)
qed

section \<open>Properties of charters\<close>

lemma two_petitions:
  assumes "distinct (map (p_ownerGuid \<circ> snd) ps)" and "distinct (signers ps)"
    and "um_find pid ps = Some pet" and "um_find pid' ps = Some pet'" and "pid \<noteq> pid'"
  shows "p_ownerGuid pet' \<noteq> p_ownerGuid pet \<and> ps_playerGuid ` set (p_signatures pet') \<inter> ps_playerGuid ` set (p_signatures pet) = {}"
  using assms
proof (induction ps)
  case (Cons a ps)
  obtain k v where a: "a = (k, v)" by fastforce
  let ?G = "\<lambda>q. ps_playerGuid ` set (p_signatures q)"
  have tail: "p_ownerGuid q \<noteq> p_ownerGuid v \<and> ?G q \<inter> ?G v = {}" if q: "um_find i ps = Some q" for i q
  proof -
    have "(i, q) \<in> set ps" using q by (simp add: um_find_def map_of_SomeD)
    then have "p_ownerGuid q \<in> (p_ownerGuid \<circ> snd) ` set ps" by force
    moreover have "p_ownerGuid v \<notin> (p_ownerGuid \<circ> snd) ` set ps" using Cons.prems(1) by (simp add: a)
    ultimately have "p_ownerGuid q \<noteq> p_ownerGuid v" by metis
    moreover have "?G v \<inter> set (signers ps) = {}" using Cons.prems(2) by (simp add: a)
    ultimately show ?thesis using signers_of(1) [OF q] by blast
  qed
  have f: "um_find i (a # ps) = (if k = i then Some v else um_find i ps)" for i by (simp add: a um_find_def)
  have ih: ?case if "um_find pid ps = Some pet" "um_find pid' ps = Some pet'"
    using Cons.IH Cons.prems that by (simp add: a)
  show ?case using Cons.prems(3-5) ih tail [of pid pet] tail [of pid' pet'] unfolding f
    by (cases "k = pid"; cases "k = pid'") (auto simp: eq_commute [of "p_ownerGuid pet'"])
qed (simp add: um_find_def)

text \<open>C3: along every run with charters the guilds stay in order, also when charters found them; a charter never has more than nine
  signatures; no player has signed twice, on the same charter or on two, and who has signed one is a member of no guild;
  and no player owns two charters.\<close>

theorem charter_runs_keep:
  assumes "charters_ok s" and "charter_step\<^sup>*\<^sup>* s s'" and "GetPetitionById pid s' = Some pet"
  shows "guilds_ok s' \<and> length (p_signatures pet) \<le> 9 \<and> distinct (map ps_playerGuid (p_signatures pet)) \<and>
     (sg \<in> set (p_signatures pet) \<longrightarrow> GetGuildById gid s' = Some g \<longrightarrow> um_find (GetCounter (ps_playerGuid sg)) (g_members g) = None) \<and>
     (GetPetitionById pid' s' = Some pet' \<longrightarrow> pid' \<noteq> pid \<longrightarrow> p_ownerGuid pet' \<noteq> p_ownerGuid pet \<and>
        ps_playerGuid ` set (p_signatures pet') \<inter> ps_playerGuid ` set (p_signatures pet) = {})"
proof -
  have ok: "charters_ok s'" using charters.run_keeps [OF assms(2,1)] by simp
  note d = charters_inD [of "s_petitions s'" "s_guid2guild s'" "s_nextPetitionId s'"]
  have c: "charters_in (s_petitions s', s_guid2guild s', s_nextPetitionId s')" using ok by (simp add: charters_ok_def pcore_def)
  have f: "um_find pid (s_petitions s') = Some pet" using assms(3) by (simp add: GetPetitionById_def)
  have "length (p_signatures pet) \<le> 9"
    using f d(5) [OF c] by (auto simp: um_find_def list_all_iff petition_ok_def dest: map_of_SomeD)
  moreover have "um_find (GetCounter (ps_playerGuid sg)) (g_members g) = None"
    if "sg \<in> set (p_signatures pet)" "GetGuildById gid s' = Some g"
  proof -
    have "s_guid2guild s' (GetCounter (ps_playerGuid sg)) = None"
      using that(1) signers_of(1) [OF f] d(6) [OF c] by (auto simp: list_all_iff signer_ok_def)
    moreover have "linked (ranks_of (sc_guilds (score s'))) (score s')" using ok by (simp add: charters_ok_def guilds_ok_def closed_def)
    ultimately have "ranks_of (sc_guilds (score s')) gid (GetCounter (ps_playerGuid sg)) = None"
      using linkedD(1) [of _ "score s'" "GetCounter (ps_playerGuid sg)" gid] by (auto simp: score_def)
    then show ?thesis using that(2) by (simp add: ranks_of_def ranks_in_def score_def GetGuildById_def gcore_of_def)
  qed
  moreover have "p_ownerGuid pet' \<noteq> p_ownerGuid pet \<and> ps_playerGuid ` set (p_signatures pet') \<inter> ps_playerGuid ` set (p_signatures pet) = {}"
    if "GetPetitionById pid' s' = Some pet'" "pid' \<noteq> pid"
    using two_petitions [OF d(3) [OF c] d(4) [OF c] f _ that(2) [symmetric]] that(1) by (auto simp: GetPetitionById_def)
  ultimately show ?thesis using ok signers_of(2) [OF f d(4) [OF c]] by (simp add: charters_ok_def)
qed

theorem charter_runs_keep_witness:
  "\<exists>pet. GetPetitionById 1 (HandlePetitionSignOpcode sample_env (player_guid 23) (ObjectGuid2 HIGHGUID_ITEM 77) charter_server) = Some pet \<and>
     length (p_signatures pet) = 3 \<and> distinct (map ps_playerGuid (p_signatures pet))"
proof -
  let ?s = "HandlePetitionSignOpcode sample_env (player_guid 23) (ObjectGuid2 HIGHGUID_ITEM 77) charter_server"
  have run: "charter_step\<^sup>*\<^sup>* charter_server ?s" by (intro r_into_rtranclp sign)
  have "map_option (length \<circ> p_signatures) (GetPetitionById 1 ?s) = Some 3" by code_simp
  then obtain pet where "GetPetitionById 1 ?s = Some pet" "length (p_signatures pet) = 3" by auto
  then show ?thesis using charter_runs_keep [OF charter_server_ok run] by blast
qed

text \<open>C9: a player without a guild who turns in a complete charter of his own, with a name that is free, founds a guild: the handler
  returns; the guild is registered under the next id with the name of the charter and the player as its leader and master;
  its members are the player and exactly those who signed and can join (connected and without a guild, or known to the
  cache); the petition and its rows are gone; and the invariant holds.\<close>

theorem turn_in_founds:
  assumes "env_ok e" and "charters_ok s" and "s_nextGuildId s \<noteq> - 1" and "no_bank_rows (s_nextGuildId s) s"
    and "can_turn_in e me itemGuid p c pet s"
  shows "\<exists>s' g. HandleTurnInPetitionOpcode e me itemGuid s = Some s' \<and> charters_ok s' \<and> GetGuildById (s_nextGuildId s) s' = Some g \<and>
     g_Name g = p_name pet \<and> g_LeaderGuid g = me \<and> map_option ms_RankId (um_find (GetCounter me) (g_members g)) = Some GR_GUILDMASTER \<and>
     (\<forall>k. um_find k (g_members g) \<noteq> None \<longleftrightarrow>
        k = GetCounter me \<or> (\<exists>sg \<in> set (p_signatures pet). k = GetCounter (ps_playerGuid sg) \<and> joinable e (ps_playerGuid sg) s)) \<and>
     gone (p_id pet) s'"
proof -
  have c: "closed (score s)" "charters_in (pcore s)" using assms(2) by (simp_all add: charters_ok_def guilds_ok_def)
  note g = assms(5) [unfolded can_turn_in_def] and pt = turn_in_petition [OF c(2) assms(5)]
  obtain made s1 where cp: "CreateFromPetition e pet me (s\<lparr>s_this := new_guild\<rparr>) = Some (made, s1)" and b: "t_banks (s_db s1) = t_banks (s_db s)"
    using CreateFromPetition_returns [OF assms(4), of me p pet e] g by auto
  have f: "made" "founding (s_nextGuildId s) me (p_name pet) s1"
    and m: "has_member k s1 \<longleftrightarrow> k = GetCounter me \<or>
      (\<exists>sg \<in> set (p_signatures pet). k = GetCounter (ps_playerGuid sg) \<and> joinable e (ps_playerGuid sg) s)" for k
    using CreateFromPetition_founds [OF assms(1) c assms(3) _ _ _ pt(3) cp] g by blast+
  have "g_Id (s_this s1) = s_nextGuildId s" using f(2) by (simp add: founding_def gcore_ok_def core_simps)
  then obtain s2 where s2: "AddGuild e s1 = Some s2" using AddGuild_returns [of s1 e] assms(4) b by (auto simp: no_bank_rows_def)
  obtain gd where gd: "closed (score s2)" "charters_in (pcore s2)" "GetGuildById (s_nextGuildId s) s2 = Some gd" "g_Name gd = p_name pet"
    "g_LeaderGuid gd = me" "\<And>k. um_find k (g_members gd) \<noteq> None \<longleftrightarrow> has_member k s1"
    using AddGuild_founding [OF assms(1) f(2) s2] by blast
  let ?s3 = "DeletePetition (p_id pet) s2" and ?s' = "turn_in_result me PETITION_SIGN_OK (destroy_charter e me c (DeletePetition (p_id pet) s2))"
  have "HandleTurnInPetitionOpcode e me itemGuid s = Some ?s'"
    using g f(1) cp s2 pt(1) by (simp add: HandleTurnInPetitionOpcode_def)
  moreover have "charters_ok ?s'"
    using gd(1,2) by (simp add: charters_ok_def guilds_ok_def destroy_charter_facts charters_DeletePetition)
  moreover have "s_guilds ?s3 = s_guilds s2" by (simp add: DeletePetition_def Petition_Delete_def upd_db_def)
  then have "GetGuildById (s_nextGuildId s) ?s' = Some gd" using gd(3) by (simp add: GetGuildById_def destroy_charter_facts)
  moreover have "gone (p_id pet) ?s'" using gone_DeletePetition(1) [OF pt(2), of s2] by (simp add: destroy_charter_facts)
  moreover have "sc_guilds (score s2) (s_nextGuildId s) = Some (gcore_of gd)" using gd(3) by (simp add: score_def GetGuildById_def)
  then have "gcore_ok (s_nextGuildId s) (gcore_of gd)" using gd(1) by (simp add: closed_def)
  then have "ranks_in (gcore_of gd) (GetCounter me) = Some GR_GUILDMASTER" using gcore_ok_master gd(5) by (fastforce simp: gcore_of_def)
  then have "map_option ms_RankId (um_find (GetCounter me) (g_members gd)) = Some GR_GUILDMASTER"
    by (simp add: ranks_in_def gcore_of_def option.map_comp comp_def)
  ultimately show ?thesis using gd(4-6) m by blast
qed

theorem turn_in_founds_witness:
  "\<exists>s' g. HandleTurnInPetitionOpcode charter_env (player_guid 20) (ObjectGuid2 HIGHGUID_ITEM 77) charter_server = Some s' \<and>
     GetGuildById 8 s' = Some g \<and> g_LeaderGuid g = player_guid 20 \<and> um_find 21 (g_members g) \<noteq> None \<and> um_find 22 (g_members g) = None"
proof -
  have n: "s_nextGuildId charter_server = 8" by (simp add: charter_server_def sample_server_def)
  have b: "no_bank_rows 8 charter_server" by code_simp
  have j: "joinable charter_env (player_guid 21) charter_server" "\<not> joinable charter_env (player_guid 22) charter_server" by code_simp+
  have sgs: "p_signatures charter_petition = [\<lparr>ps_playerGuid = player_guid 21, ps_playerAccount = 21\<rparr>, \<lparr>ps_playerGuid = player_guid 22, ps_playerAccount = 22\<rparr>]"
    by (simp add: charter_petition_def)
  obtain s' g where h: "HandleTurnInPetitionOpcode charter_env (player_guid 20) (ObjectGuid2 HIGHGUID_ITEM 77) charter_server = Some s'"
    "GetGuildById 8 s' = Some g" "g_LeaderGuid g = player_guid 20"
    and m: "\<And>k. um_find k (g_members g) \<noteq> None \<longleftrightarrow> k = GetCounter (player_guid 20) \<or>
      (\<exists>sg \<in> set (p_signatures charter_petition). k = GetCounter (ps_playerGuid sg) \<and> joinable charter_env (ps_playerGuid sg) charter_server)"
    using turn_in_founds [OF charter_env_ok charter_server_ok _ _ charter_turn_in] n b by auto
  have "um_find 21 (g_members g) \<noteq> None" "\<not> um_find 22 (g_members g) \<noteq> None" unfolding m sgs using j by simp_all
  then show ?thesis using h by auto
qed

end
