(* ===== verification/Charter_Reload.thy ===== *)
theory Charter_Reload
  imports Charter_Props
begin

text \<open>What is written of a charter is what \<^verbatim>\<open>LoadPetitions\<close> reads at the next start.\<close>

section \<open>Reading\<close>

definition loaded_sign :: "sign_row \<Rightarrow> petition_signature" where
  "loaded_sign q = \<lparr>ps_playerGuid = player_guid (sg_playerguid q), ps_playerAccount = sg_account q\<rparr>"

definition rows_of :: "u32 \<Rightarrow> gs \<Rightarrow> petition_row list" where
  "rows_of pid s = filter (\<lambda>r. pt_petitionguid r = pid) (t_petition (s_db s))"

definition signs_of :: "u32 \<Rightarrow> gs \<Rightarrow> sign_row list" where
  "signs_of pid s = filter (\<lambda>q. sg_petitionguid q = pid) (t_sign (s_db s))"

lemma load_petition_env: "Petition_LoadFromDB e r (s\<lparr>s_petitions := x\<rparr>) = Petition_LoadFromDB e r s"
  by (simp add: Petition_LoadFromDB_def GetPlayerTeamByGUID_def FindPlayer_def FindPlayerNotInWorld_def Let_def)

lemma loaded_unsigned: "p_signatures (Petition_LoadFromDB e r s) = []"
  by (simp add: Petition_LoadFromDB_def Let_def)

lemma find_loaded:
  assumes "env_ok e"
  shows "um_find pid (s_petitions (fold (load_petition e) rows s)) =
     (let rs = filter (\<lambda>r. pt_petitionguid r = pid) rows
      in if rs = [] then um_find pid (s_petitions s) else Some (Petition_LoadFromDB e (last rs) s))"
proof (induction rows arbitrary: s)
  case (Cons r rows)
  have "um_find pid (s_petitions (load_petition e r s)) = (if pt_petitionguid r = pid then Some (Petition_LoadFromDB e r s) else um_find pid (s_petitions s))"
    by (simp add: load_petition_def um_find_put [OF env_order [OF assms]])
  moreover have "Petition_LoadFromDB e q (load_petition e r s) = Petition_LoadFromDB e q s" for q by (simp add: load_petition_def load_petition_env)
  ultimately show ?case using Cons by (simp add: Let_def)
qed simp

lemma find_signed:
  "um_find pid (s_petitions (fold load_sign qs s)) =
     map_option (\<lambda>p. p\<lparr>p_signatures := p_signatures p @ map loaded_sign (filter (\<lambda>q. sg_petitionguid q = pid) qs)\<rparr>) (um_find pid (s_petitions s))"
proof (induction qs arbitrary: s)
  case (Cons q qs)
  have "um_find pid (s_petitions (load_sign q s)) =
      map_option (\<lambda>p. p\<lparr>p_signatures := p_signatures p @ (if sg_petitionguid q = pid then [loaded_sign q] else [])\<rparr>) (um_find pid (s_petitions s))"
    by (auto simp: load_sign_def Let_def GetPetitionById_def AddSignature_def upd_petition_def upd_db_def loaded_sign_def option.map_id split: option.split)
  then show ?case using Cons by (simp add: option.map_comp comp_def)
qed (simp add: option.map_ident)

text \<open>A petition is read from the last of its rows, with its signatures in the order of the table.\<close>

lemma LoadPetitions_reads:
  assumes "env_ok e"
  shows "GetPetitionById pid (LoadPetitions e s) =
     (if rows_of pid s = [] then None
      else Some ((Petition_LoadFromDB e (last (rows_of pid s)) s)\<lparr>p_signatures := map loaded_sign (signs_of pid s)\<rparr>))"
proof (cases "t_petition (s_db s) = []")
  case True
  then show ?thesis by (simp add: LoadPetitions_def CleanUpPetitions_def GetPetitionById_def rows_of_def um_find_def)
next
  case False
  then have "GetPetitionById pid (LoadPetitions e s) =
      um_find pid (s_petitions (fold load_sign (t_sign (s_db s)) (fold (load_petition e) (t_petition (s_db s)) (CleanUpPetitions s))))"
    by (simp add: LoadPetitions_def GetPetitionById_def)
  also have "\<dots> = map_option (\<lambda>p. p\<lparr>p_signatures := p_signatures p @ map loaded_sign (signs_of pid s)\<rparr>)
      (if rows_of pid s = [] then None else Some (Petition_LoadFromDB e (last (rows_of pid s)) (CleanUpPetitions s)))"
    unfolding find_signed find_loaded [OF assms] by (simp add: Let_def signs_of_def rows_of_def CleanUpPetitions_def um_find_def)
  finally show ?thesis by (simp add: CleanUpPetitions_def load_petition_env loaded_unsigned)
qed

section \<open>Writing\<close>

definition written :: "u32 \<Rightarrow> petition \<Rightarrow> gs \<Rightarrow> bool" where
  "written pid pet s \<longleftrightarrow> GetPetitionById pid s = Some pet \<and> p_id pet = pid \<and> rows_of pid s = [petition_row_of pet] \<and>
     signs_of pid s = map (sign_row_of pet) (p_signatures pet) \<and> p_ownerGuid pet = player_guid (GetCounter (p_ownerGuid pet)) \<and>
     p_charterGuid pet = ObjectGuid2 HIGHGUID_ITEM (GetCounter (p_charterGuid pet)) \<and>
     list_all (\<lambda>sg. ps_playerGuid sg = player_guid (GetCounter (ps_playerGuid sg))) (p_signatures pet)"

lemma written_reads:
  assumes "env_ok e" and "written pid pet s"
  shows "GetPetitionById pid (LoadPetitions e s) = Some (pet\<lparr>p_team := GetPlayerTeamByGUID e (p_ownerGuid pet) s\<rparr>)"
proof -
  have w: "p_id pet = pid" "rows_of pid s = [petition_row_of pet]" "signs_of pid s = map (sign_row_of pet) (p_signatures pet)"
    "player_guid (GetCounter (p_ownerGuid pet)) = p_ownerGuid pet" "ObjectGuid2 HIGHGUID_ITEM (GetCounter (p_charterGuid pet)) = p_charterGuid pet"
    "\<And>sg. sg \<in> set (p_signatures pet) \<Longrightarrow> player_guid (GetCounter (ps_playerGuid sg)) = ps_playerGuid sg"
    using assms(2) unfolding written_def list_all_iff by metis+
  have "map (loaded_sign \<circ> sign_row_of pet) (p_signatures pet) = p_signatures pet"
    using w(6) by (intro map_idI) (simp add: loaded_sign_def sign_row_of_def)
  then show ?thesis
    by (simp add: LoadPetitions_reads [OF assms(1)] w(2,3) Petition_LoadFromDB_def petition_row_of_def Let_def w(1,4,5))
qed

text \<open>The operations on a charter between its purchase and its end, a signature under the guard of its handler.\<close>

datatype charter_op = Signs guid gplayer | Renames string

fun run_op :: "genv \<Rightarrow> u32 \<Rightarrow> charter_op \<Rightarrow> gs \<Rightarrow> gs" where
  "run_op e pid (Signs g q) s =
     (case GetPetitionById pid s of
        None \<Rightarrow> s
      | Some pet \<Rightarrow> if GetSignatureForPlayer g q pet = None then snd (AddNewSignature e pid g q s) else s)"
| "run_op e pid (Renames name) s = Petition_Rename pid name s"

fun op_ok :: "charter_op \<Rightarrow> bool" where
  "op_ok (Signs g q) = (g = player_guid (GetCounter g))"
| "op_ok (Renames name) = True"

lemma written_sign:
  assumes w: "written pid pet s" and g: "g = player_guid (GetCounter g)" and n: "GetSignatureForPlayer g q pet = None"
  shows "\<exists>pet'. written pid pet' (snd (AddNewSignature e pid g q s)) \<and> p_ownerGuid pet' = p_ownerGuid pet"
proof (cases "IsComplete e pet")
  case True
  then have "snd (AddNewSignature e pid g q s) = s" using w by (simp add: AddNewSignature_def written_def)
  then show ?thesis using w by auto
next
  case False
  let ?sg = "\<lparr>ps_playerGuid = g, ps_playerAccount = gp_account q\<rparr>"
  let ?pet = "pet\<lparr>p_signatures := p_signatures pet @ [?sg]\<rparr>"
  let ?t = "AddSignature pid ?sg (Signature_SaveToDB pet ?sg s)"
  have t: "snd (AddNewSignature e pid g q s) = ?t" using w False by (simp add: AddNewSignature_def written_def Let_def)
  have no: "ps_playerGuid sg \<noteq> g" if "sg \<in> set (p_signatures pet)" for sg
    using that n by (auto simp: GetSignatureForPlayer_def find_None_iff split: option.splits)
  have "sign_key (sign_row_of pet ?sg) \<notin> set (map sign_key (t_sign (s_db s)))"
  proof
    assume "sign_key (sign_row_of pet ?sg) \<in> set (map sign_key (t_sign (s_db s)))"
    then obtain r where "r \<in> set (signs_of pid s)" "sg_playerguid r = GetCounter g"
      using w by (auto simp: signs_of_def sign_key_def sign_row_of_def written_def)
    then obtain sg where sg: "sg \<in> set (p_signatures pet)" "GetCounter (ps_playerGuid sg) = GetCounter g"
      using w by (auto simp: written_def sign_row_of_def)
    then have "ps_playerGuid sg = g" using w g unfolding written_def list_all_iff by metis
    then show False using no [OF sg(1)] by simp
  qed
  then have "t_sign (s_db ?t) = t_sign (s_db s) @ [sign_row_of pet ?sg]" "t_petition (s_db ?t) = t_petition (s_db s)"
    by (simp_all add: Signature_SaveToDB_def AddSignature_def upd_petition_def upd_db_def insert_row_def)
  moreover have "GetPetitionById pid ?t = Some ?pet"
    using w by (simp add: written_def GetPetitionById_def AddSignature_def upd_petition_def Signature_SaveToDB_def upd_db_def)
  ultimately have "written pid ?pet ?t"
    using w g by (simp add: written_def signs_of_def rows_of_def sign_row_of_def petition_row_of_def)
  then show ?thesis unfolding t by auto
qed

lemma written_rename:
  assumes "written pid pet s"
  shows "written pid (pet\<lparr>p_name := name\<rparr>) (Petition_Rename pid name s)"
proof -
  have "filter (\<lambda>r. pt_petitionguid r = pid) (update_where (\<lambda>r. pt_petitionguid r = pid) (\<lambda>r. r\<lparr>pt_name := name\<rparr>) rows) =
      map (\<lambda>r. r\<lparr>pt_name := name\<rparr>) (filter (\<lambda>r. pt_petitionguid r = pid) rows)" for rows
    unfolding update_where_def by (induction rows) auto
  then have "rows_of pid (Petition_Rename pid name s) = map (\<lambda>r. r\<lparr>pt_name := name\<rparr>) (rows_of pid s)"
    by (simp add: rows_of_def Petition_Rename_def upd_petition_def upd_db_def)
  moreover have "signs_of pid (Petition_Rename pid name s) = signs_of pid s"
    by (simp add: signs_of_def Petition_Rename_def upd_petition_def upd_db_def)
  moreover have "GetPetitionById pid (Petition_Rename pid name s) = map_option (\<lambda>p. p\<lparr>p_name := name\<rparr>) (GetPetitionById pid s)"
    by (simp add: GetPetitionById_def Petition_Rename_def upd_petition_def upd_db_def)
  moreover have "sign_row_of (pet\<lparr>p_name := name\<rparr>) = sign_row_of pet" by (simp add: sign_row_of_def fun_eq_iff)
  ultimately show ?thesis using assms unfolding written_def by (simp add: petition_row_of_def)
qed

lemma written_ops:
  assumes "list_all op_ok ops" and "written pid pet s"
  shows "\<exists>pet'. written pid pet' (fold (run_op e pid) ops s) \<and> p_ownerGuid pet' = p_ownerGuid pet"
  using assms
proof (induction ops arbitrary: pet s)
  case (Cons op ops)
  have "\<exists>pet'. written pid pet' (run_op e pid op s) \<and> p_ownerGuid pet' = p_ownerGuid pet"
  proof (cases op)
    case (Signs g q)
    then show ?thesis using Cons.prems written_sign [of pid pet s g q e] by (auto simp: written_def)
  next
    case (Renames name)
    then show ?thesis using written_rename [OF Cons.prems(2), of name] by (intro exI [of _ "pet\<lparr>p_name := name\<rparr>"]) simp
  qed
  then show ?case using Cons.IH Cons.prems(1) by fastforce
qed auto

lemma GetCounter_item_guid: "GetCounter (ObjectGuid2 HIGHGUID_ITEM n) = n"
proof (cases "n = 0")
  case True
  then show ?thesis by (simp add: ObjectGuid2_def GetCounter_def GetCounterOf_def HasEntry_def GetHigh_def HasEntryHigh_def)
next
  case False
  then show ?thesis by (intro GetCounter_ObjectGuid2) (simp_all add: HasEntryHigh_def HIGHGUID_ITEM_def)
qed

text \<open>C22: a charter bought under a fresh id, then signed by players and renamed in any order, is read back by \<^verbatim>\<open>LoadPetitions\<close> as memory has
  it: the same owner, item, name and signatures in the same order. Only the faction is looked up anew.\<close>

theorem charter_roundtrip:
  assumes "env_ok e" and "me = player_guid (GetCounter me)" and "list_all op_ok ops"
    and "list_all (\<lambda>r. pt_petitionguid r \<noteq> pid \<and> pt_ownerguid r \<noteq> GetCounter me \<and> pt_charterguid r \<noteq> n) (t_petition (s_db s))"
    and "list_all (\<lambda>q. sg_petitionguid q \<noteq> pid) (t_sign (s_db s))"
    and "s' = fold (run_op e pid) ops (CreatePetition e pid me p (ObjectGuid2 HIGHGUID_ITEM n) name s)"
  shows "\<exists>pet. GetPetitionById pid s' = Some pet \<and>
     GetPetitionById pid (LoadPetitions e s') = Some (pet\<lparr>p_team := GetPlayerTeamByGUID e me s'\<rparr>)"
proof -
  let ?pet = "\<lparr>p_id = pid, p_charterGuid = ObjectGuid2 HIGHGUID_ITEM n, p_ownerGuid = me, p_name = name, p_team = gp_team p, p_signatures = []\<rparr>"
  let ?s1 = "CreatePetition e pid me p (ObjectGuid2 HIGHGUID_ITEM n) name s"
  have n: "GetCounter (ObjectGuid2 HIGHGUID_ITEM n) = n" by (rule GetCounter_item_guid)
  have "\<not> list_ex (\<lambda>q. pt_ownerguid q = GetCounter me \<or> pt_charterguid q = n) (t_petition (s_db s))"
    using assms(4) by (auto simp: list_all_iff list_ex_iff)
  then have "t_petition (s_db ?s1) = t_petition (s_db s) @ [petition_row_of ?pet]" "t_sign (s_db ?s1) = t_sign (s_db s)"
    by (simp_all add: CreatePetition_def Petition_SaveToDB_def upd_db_def petition_row_of_def Let_def n)
  moreover have "GetPetitionById pid ?s1 = Some ?pet"
    by (simp add: CreatePetition_def GetPetitionById_def Let_def um_find_put [OF env_order [OF assms(1)]])
  ultimately have "written pid ?pet ?s1"
    using assms(2,4,5) n by (simp add: written_def rows_of_def signs_of_def petition_row_of_def list_all_iff filter_empty_conv)
  then obtain pet where w: "written pid pet s'" "p_ownerGuid pet = me" using written_ops [OF assms(3)] assms(6) by fastforce
  then show ?thesis using written_reads [OF assms(1) w(1)] by (auto simp: written_def)
qed

theorem charter_roundtrip_witness:
  "map_option (\<lambda>pet. (p_name pet, map ps_playerGuid (p_signatures pet))) (GetPetitionById 1 (LoadPetitions sample_env
     (fold (run_op sample_env 1) [Signs (player_guid 21) (novice 21 ''Emil''), Renames ''Finders'', Signs (player_guid 23) (novice 23 ''Fred'')]
       (CreatePetition sample_env 1 (player_guid 20) (novice 20 ''Dora'') (ObjectGuid2 HIGHGUID_ITEM 77) ''Seekers'' sample_server)))) =
   Some (''Finders'', [player_guid 21, player_guid 23])"
proof -
  let ?ops = "[Signs (player_guid 21) (novice 21 ''Emil''), Renames ''Finders'', Signs (player_guid 23) (novice 23 ''Fred'')]"
  define s' where "s' = fold (run_op sample_env 1) ?ops
    (CreatePetition sample_env 1 (player_guid 20) (novice 20 ''Dora'') (ObjectGuid2 HIGHGUID_ITEM 77) ''Seekers'' sample_server)"
  have "map_option (\<lambda>pet. (p_name pet, map ps_playerGuid (p_signatures pet))) (GetPetitionById 1 s') = Some (''Finders'', [player_guid 21, player_guid 23])"
    unfolding s'_def by code_simp
  moreover have "list_all op_ok ?ops" by simp
  ultimately show ?thesis
    using charter_roundtrip [OF sample_env_ok _ _ _ _ s'_def] unfolding s'_def [symmetric]
    by (auto simp: sample_server_def sample_tables_def)
qed

section \<open>A withdrawn signature\<close>

text \<open>
  \<^verbatim>\<open>PetitionSignature::DeleteFromDB\<close> deletes the rows whose owner is the signer instead of those he signed: a signature that is
  withdrawn, say because the signer joined a guild, is gone from memory and back after the next start.
\<close>

lemma withdrawn_signature_returns:
  assumes "env_ok e" and w: "written pid pet s" and g: "signed_by g pet" "g = player_guid (GetCounter g)" "p_ownerGuid pet \<noteq> g"
  shows "GetPetitionById pid (LoadPetitions e (withdraw_signature g s)) = Some (pet\<lparr>p_team := GetPlayerTeamByGUID e (p_ownerGuid pet) s\<rparr>)"
proof -
  let ?t = "withdraw_signature g s"
  have "GetCounter (p_ownerGuid pet) \<noteq> GetCounter g" using w g(2,3) unfolding written_def by metis
  then have keep: "\<And>q. q \<in> set (signs_of pid s) \<Longrightarrow> sg_ownerguid q \<noteq> GetCounter g" using w by (auto simp: written_def sign_row_of_def)
  have "signs_of pid ?t = signs_of pid s"
    using keep by (auto simp: withdraw_signature_def DeleteSignature_def Signature_DeleteFromDB_def upd_db_def signs_of_def delete_where_def
        intro!: filter_cong split: option.split)
  moreover have "rows_of pid ?t = rows_of pid s"
    by (simp add: withdraw_signature_def DeleteSignature_def Signature_DeleteFromDB_def upd_db_def rows_of_def split: option.split)
  moreover have "Petition_LoadFromDB e r ?t = Petition_LoadFromDB e r s" for r
    by (simp add: Petition_LoadFromDB_def GetPlayerTeamByGUID_def FindPlayer_def FindPlayerNotInWorld_def withdraw_facts Let_def)
  ultimately have "GetPetitionById pid (LoadPetitions e ?t) = GetPetitionById pid (LoadPetitions e s)"
    by (simp add: LoadPetitions_reads [OF assms(1)])
  then show ?thesis using written_reads [OF assms(1) w] by simp
qed

end
