(* ===== verification/Auction_Data.thy ===== *)
theory Auction_Data
  imports Charters
begin

text \<open>
  The auction house: the structures of \<^verbatim>\<open>src/src/game/AuctionHouse/AuctionHouseMgr.h\<close> and the operations of
  \<^verbatim>\<open>AuctionHouseObject\<close>. An auction is an object at an address; a house holds addresses in three containers, by id, by
  buyout price and by account of the owner, and a change of the bid is seen through all of them. Items that are up for auction are
  values, since nothing else points to them. Statements on tables outside of the model are recorded in
  order, as are packets and the calls of module scripts.
\<close>

section \<open>Arithmetic with floats\<close>

text \<open>
  The single-precision arithmetic of the machine, as a record of its operations: conversions from unsigned and signed integers, to
  unsigned integers, and the literals the code uses.
\<close>

record 'f float_ops =
  fl_u32 :: "u32 \<Rightarrow> 'f"
  fl_i32 :: "u32 \<Rightarrow> 'f"
  fl_to_u32 :: "'f \<Rightarrow> u32"
  fl_add :: "'f \<Rightarrow> 'f \<Rightarrow> 'f"
  fl_mul :: "'f \<Rightarrow> 'f \<Rightarrow> 'f"
  fl_div :: "'f \<Rightarrow> 'f \<Rightarrow> 'f"
  fl_less :: "'f \<Rightarrow> 'f \<Rightarrow> bool"
  fl_1 :: 'f
  fl_100 :: 'f
  fl_005 :: 'f

section \<open>Structures\<close>

record house_entry =
  he_houseId :: u32
  he_faction :: u32
  he_depositPercent :: u32
  he_cutPercent :: u32

record auction =
  au_Id :: u32
  au_itemGuidLow :: u32
  au_itemTemplate :: u32
  au_owner :: u32
  au_ownerAccount :: u32
  au_startbid :: u32
  au_bid :: u32
  au_buyout :: u32
  au_lockedIpAddress :: string
  au_depositTime :: int
  au_expireTime :: int
  au_bidder :: u32
  au_deposit :: u32
  au_house :: house_entry

type_synonym aptr = nat

text \<open>\<^verbatim>\<open>AuctionsMap\<close> has each key once, the two multimaps may repeat keys; all are listed in the order of iteration.\<close>

record auction_house =
  ah_AuctionsMap :: "(u32 \<times> aptr) list"
  ah_OrderedAuctionMap :: "(u32 \<times> aptr) list"
  ah_AccountAuctionMap :: "(u32 \<times> aptr) list"

record auction_row =
  ar_id :: u32
  ar_houseid :: u32
  ar_itemguid :: u32
  ar_item_template :: u32
  ar_itemowner :: u32
  ar_buyoutprice :: u32
  ar_time :: int
  ar_buyguid :: u32
  ar_lastbid :: u32
  ar_startbid :: u32
  ar_deposit :: u32

record mail_row =
  ml_id :: u32
  ml_messageType :: u32
  ml_stationery :: u32
  ml_mailTemplateId :: u32
  ml_sender :: u32
  ml_receiver :: u32
  ml_subject :: string
  ml_itemTextId :: u32
  ml_has_items :: bool
  ml_expire_time :: int
  ml_deliver_time :: int
  ml_money :: u32
  ml_cod :: u32
  ml_checked :: u32

record mail_item_row =
  mi_mail_id :: u32
  mi_item_guid :: u32
  mi_item_template :: u32
  mi_receiver :: u32

text \<open>A connected player: the character, the session and the mailbox of the \<^verbatim>\<open>MasterPlayer\<close>.\<close>

record aplayer =
  ap_player :: player
  ap_account :: u32
  ap_security :: u32
  ap_suspicious :: bool
  ap_address :: string
  ap_team :: u32
  ap_hardcore :: u8
  ap_mails :: "mail_row list"
  ap_mitems :: "u32 \<rightharpoonup> item"
  ap_unReadMails :: u8
  ap_nextMailTime :: int
  ap_listRequest :: bool

datatype auction_opcode =
    MSG_AUCTION_HELLO | SMSG_AUCTION_COMMAND_RESULT | SMSG_AUCTION_BIDDER_NOTIFICATION
  | SMSG_AUCTION_OWNER_NOTIFICATION | SMSG_AUCTION_REMOVED_NOTIFICATION | SMSG_RECEIVED_MAIL
  | SMSG_AUCTION_LIST_RESULT | SMSG_AUCTION_OWNER_LIST_RESULT | SMSG_AUCTION_BIDDER_LIST_RESULT

datatype session_output =
    AuctionPacket auction_opcode "packet_field list"
  | SysMessage string
  | Notification string
  | AnticheatReport string string

datatype auction_hook =
    OnAuctionAdd auction | OnAuctionRemove auction | OnAuctionSuccessful auction | OnAuctionExpire auction

datatype auction_sql =
    UpdateItemOwner u32 u32 | DeleteItemInstance u32 | DeleteFromInventory u32 | SaveItem item
  | SaveInventoryAndGold u32 u32

text \<open>
  \<open>as_houses\<close> is \<^verbatim>\<open>m_mAuctionHouses\<close>, from house ids to the index in \<^verbatim>\<open>m_vRealAuctionHouses\<close>; \<open>as_ids\<close> and \<open>as_nextId\<close> are the set
  \<^verbatim>\<open>m_AuctionsIds\<close>, in ascending order, and \<^verbatim>\<open>m_NextAuctionId\<close>.
\<close>

record ast =
  as_houses :: "u32 \<rightharpoonup> nat"
  as_real :: "auction_house list"
  as_aitems :: "u32 \<rightharpoonup> item"
  as_heap :: "aptr \<Rightarrow> auction"
  as_next :: aptr
  as_freed :: "aptr list"
  as_ids :: "u32 list"
  as_nextId :: u32
  as_players :: "(u32 \<times> aplayer) list"
  as_mailId :: u32
  as_textId :: u32
  as_texts :: "(u32 \<times> string) list"
  as_t_auction :: "auction_row list"
  as_t_mail :: "mail_row list"
  as_t_mail_items :: "mail_item_row list"
  as_sql :: "auction_sql list"
  as_out :: "(u32 \<times> session_output) list"
  as_hooks :: "auction_hook list"

text \<open>
  What the operations read: the item prototypes, the clocks, the cache of characters (account and hardcore status), the
  configuration, the store of auction houses with the number of its rows, the sell prices and the masks of faction templates.
\<close>

record 'f aenv =
  av_world :: world
  av_gameTime :: int
  av_cache :: "u32 \<Rightarrow> (u32 \<times> u8) option"
  av_gmTrades :: bool
  av_limit :: u32
  av_twoSide :: bool
  av_depositMin :: u32
  av_store :: "u32 \<Rightarrow> house_entry option"
  av_storeRows :: nat
  av_sellPrice :: "u32 \<Rightarrow> u32"
  av_factionMask :: "u32 \<Rightarrow> u32 option"
  av_float :: "'f float_ops"
  av_rateCut :: 'f
  av_rateDeposit :: 'f
  av_rateTime :: 'f

section \<open>Players\<close>

abbreviation HOUR :: int where "HOUR \<equiv> 3600"
abbreviation DAY :: int where "DAY \<equiv> 86400"
abbreviation MIN_AUCTION_TIME :: u32 where "MIN_AUCTION_TIME \<equiv> 7200"

definition player_of :: "u32 \<Rightarrow> ast \<Rightarrow> aplayer option" where
  "player_of g s = map_of (as_players s) g"

text \<open>\<^verbatim>\<open>sObjectMgr.GetPlayer\<close> finds players in the world, \<^verbatim>\<open>FindMasterPlayer\<close> all that are connected.\<close>

definition GetPlayer :: "u32 \<Rightarrow> ast \<Rightarrow> aplayer option" where
  "GetPlayer g s =
     (case player_of g s of Some p \<Rightarrow> if pl_inWorld (ap_player p) then Some p else None | None \<Rightarrow> None)"

definition GetPlayerAccountIdByGUID :: "'f aenv \<Rightarrow> u32 \<Rightarrow> ast \<Rightarrow> u32" where
  "GetPlayerAccountIdByGUID e g s =
     (case GetPlayer g s of
        Some p \<Rightarrow> ap_account p
      | None \<Rightarrow> (case av_cache e g of Some (account, _) \<Rightarrow> account | None \<Rightarrow> 0))"

definition is_hardcore :: "u8 \<Rightarrow> bool" where
  "is_hardcore status = (status = 1 \<or> status = 3 \<or> status = 4)"

definition IsPlayerHardcore :: "'f aenv \<Rightarrow> u32 \<Rightarrow> bool" where
  "IsPlayerHardcore e g = is_hardcore (case av_cache e g of Some (_, status) \<Rightarrow> status | None \<Rightarrow> 0)"

definition hardcore_now :: "'f aenv \<Rightarrow> u32 \<Rightarrow> ast \<Rightarrow> bool" where
  "hardcore_now e g s =
     (case GetPlayer g s of Some p \<Rightarrow> is_hardcore (ap_hardcore p) | None \<Rightarrow> IsPlayerHardcore e g)"

text \<open>In the world, or in the cache with an account.\<close>

definition receiver_exists :: "'f aenv \<Rightarrow> u32 \<Rightarrow> ast \<Rightarrow> bool" where
  "receiver_exists e g s = (GetPlayer g s \<noteq> None \<or> GetPlayerAccountIdByGUID e g s \<noteq> 0)"

definition upd_aplayer :: "u32 \<Rightarrow> (aplayer \<Rightarrow> aplayer) \<Rightarrow> ast \<Rightarrow> ast" where
  "upd_aplayer g f s = s\<lparr>as_players := um_update g f (as_players s)\<rparr>"

definition upd_char :: "u32 \<Rightarrow> (player \<Rightarrow> player) \<Rightarrow> ast \<Rightarrow> ast" where
  "upd_char g f = upd_aplayer g (\<lambda>p. p\<lparr>ap_player := f (ap_player p)\<rparr>)"

definition send :: "u32 \<Rightarrow> session_output \<Rightarrow> ast \<Rightarrow> ast" where
  "send g pk s = s\<lparr>as_out := as_out s @ [(g, pk)]\<rparr>"

definition execute :: "auction_sql \<Rightarrow> ast \<Rightarrow> ast" where
  "execute q s = s\<lparr>as_sql := as_sql s @ [q]\<rparr>"

definition hook :: "auction_hook \<Rightarrow> ast \<Rightarrow> ast" where
  "hook h s = s\<lparr>as_hooks := as_hooks s @ [h]\<rparr>"

section \<open>Ids of auctions\<close>

text \<open>
  The search starts at the first id that is not below the counter; the list holds what the iterator still has before it.
\<close>

fun skip_used :: "u32 \<Rightarrow> u32 list \<Rightarrow> u32" where
  "skip_used n [] = n"
| "skip_used n (i # is) = (if i = n then skip_used (n + 1) is else n)"

definition GenerateAuctionID :: "ast \<Rightarrow> u32 \<times> ast" where
  "GenerateAuctionID s =
     (let n = skip_used (as_nextId s) (dropWhile (\<lambda>i. i < as_nextId s) (as_ids s))
      in (n, s\<lparr>as_ids := insort_insert n (as_ids s), as_nextId := n + 1\<rparr>))"

definition FreeAuctionID :: "u32 \<Rightarrow> ast \<Rightarrow> ast" where
  "FreeAuctionID i s = s\<lparr>as_ids := filter (\<lambda>j. j \<noteq> i) (as_ids s)\<rparr>"

section \<open>Auctions\<close>

definition GetAuctionCut :: "'f aenv \<Rightarrow> auction \<Rightarrow> u32" where
  "GetAuctionCut e a =
     (let f = av_float e
      in fl_to_u32 f (fl_div f (fl_mul f (fl_u32 f (he_cutPercent (au_house a) * au_bid a)) (av_rateCut e)) (fl_100 f)))"

definition GetAuctionOutBid :: "auction \<Rightarrow> u32" where
  "GetAuctionOutBid a = (let outbid = (au_bid a div 100) * 5 in if outbid = 0 then 1 else outbid)"

definition GetAuctionDeposit :: "'f aenv \<Rightarrow> house_entry \<Rightarrow> u32 \<Rightarrow> item \<Rightarrow> u32" where
  "GetAuctionDeposit e entry time it =
     (let f = av_float e;
          d1 = fl_u32 f (av_sellPrice e (it_entry it) * it_count it * (time div MIN_AUCTION_TIME));
          d2 = fl_div f (fl_mul f d1 (fl_u32 f (he_depositPercent entry))) (fl_100 f);
          min_deposit = fl_u32 f (av_depositMin e);
          d3 = (if fl_less f d2 min_deposit then min_deposit else d2);
          diffSize = GetMaxStackSize (GetProto (av_world e) it) - it_count it;
          d4 = fl_mul f d3 (fl_add f (fl_1 f) (fl_mul f (fl_i32 f diffSize) (fl_005 f)))
      in fl_to_u32 f (fl_mul f d4 (av_rateDeposit e)))"

definition IsAvailableFor :: "auction \<Rightarrow> aplayer \<Rightarrow> bool" where
  "IsAvailableFor a p = (au_lockedIpAddress a = [] \<or> au_lockedIpAddress a = ap_address p)"

definition auction_row_of :: "auction \<Rightarrow> auction_row" where
  "auction_row_of a = \<lparr>ar_id = au_Id a, ar_houseid = he_houseId (au_house a), ar_itemguid = au_itemGuidLow a,
     ar_item_template = au_itemTemplate a, ar_itemowner = au_owner a, ar_buyoutprice = au_buyout a,
     ar_time = au_expireTime a, ar_buyguid = au_bidder a, ar_lastbid = au_bid a, ar_startbid = au_startbid a,
     ar_deposit = au_deposit a\<rparr>"

text \<open>The table has two keys, the id and the item; a second row with the same key is refused.\<close>

definition Auction_SaveToDB :: "auction \<Rightarrow> ast \<Rightarrow> ast" where
  "Auction_SaveToDB a s =
     (let r = auction_row_of a
      in if list_ex (\<lambda>q. ar_id q = ar_id r \<or> ar_itemguid q = ar_itemguid r) (as_t_auction s) then s
         else s\<lparr>as_t_auction := as_t_auction s @ [r]\<rparr>)"

definition Auction_DeleteFromDB :: "u32 \<Rightarrow> ast \<Rightarrow> ast" where
  "Auction_DeleteFromDB i s = s\<lparr>as_t_auction := delete_where (\<lambda>r. ar_id r = i) (as_t_auction s)\<rparr>"

definition new_auction :: "auction \<Rightarrow> ast \<Rightarrow> aptr \<times> ast" where
  "new_auction a s = (as_next s, s\<lparr>as_heap := (as_heap s)(as_next s := a), as_next := Suc (as_next s)\<rparr>)"

definition delete_auction :: "aptr \<Rightarrow> ast \<Rightarrow> ast" where
  "delete_auction p s = s\<lparr>as_freed := p # as_freed s\<rparr>"

definition upd_auction :: "aptr \<Rightarrow> (auction \<Rightarrow> auction) \<Rightarrow> ast \<Rightarrow> ast" where
  "upd_auction p f s = s\<lparr>as_heap := (as_heap s)(p := f (as_heap s p))\<rparr>"

section \<open>A house\<close>

definition upd_house :: "nat \<Rightarrow> (auction_house \<Rightarrow> auction_house) \<Rightarrow> ast \<Rightarrow> ast" where
  "upd_house h f s = s\<lparr>as_real := (as_real s)[h := f (as_real s ! h)]\<rparr>"

definition GetAuction :: "u32 \<Rightarrow> auction_house \<Rightarrow> aptr option" where
  "GetAuction i ah = map_of (ah_AuctionsMap ah) i"

definition GetAccountAuctionCount :: "u32 \<Rightarrow> auction_house \<Rightarrow> u32" where
  "GetAccountAuctionCount account ah = of_nat (length (filter (\<lambda>(k, _). k = account) (ah_AccountAuctionMap ah)))"

text \<open>\<^verbatim>\<open>AuctionsMap[id] = ah\<close> replaces the entry with the key, if there is one.\<close>

definition put_auction :: "u32 \<Rightarrow> aptr \<Rightarrow> (u32 \<times> aptr) list \<Rightarrow> (u32 \<times> aptr) list" where
  "put_auction i p m = (if i \<in> set (map fst m) then um_update i (\<lambda>_. p) m else mm_insert i p m)"

definition AddAuction :: "nat \<Rightarrow> aptr \<Rightarrow> ast \<Rightarrow> ast" where
  "AddAuction h p s =
     (let a = as_heap s p
      in hook (OnAuctionAdd a)
           (upd_house h (\<lambda>ah. ah\<lparr>ah_AuctionsMap := put_auction (au_Id a) p (ah_AuctionsMap ah),
                                 ah_OrderedAuctionMap := mm_insert (au_buyout a) p (ah_OrderedAuctionMap ah),
                                 ah_AccountAuctionMap := mm_insert (au_ownerAccount a) p (ah_AccountAuctionMap ah)\<rparr>) s))"

text \<open>The first entry with the key whose auction has the id is erased.\<close>

fun mm_erase_first :: "('k \<times> 'v \<Rightarrow> bool) \<Rightarrow> ('k \<times> 'v) list \<Rightarrow> ('k \<times> 'v) list" where
  "mm_erase_first P [] = []"
| "mm_erase_first P (x # m) = (if P x then m else x # mm_erase_first P m)"

definition RemoveAuction :: "nat \<Rightarrow> aptr \<Rightarrow> ast \<Rightarrow> bool \<times> ast" where
  "RemoveAuction h p s =
     (let a = as_heap s p;
          ah = as_real s ! h;
          s1 = upd_house h (\<lambda>ah. ah\<lparr>
                 ah_OrderedAuctionMap := mm_erase_first (\<lambda>(k, q). k = au_buyout a \<and> au_Id (as_heap s q) = au_Id a)
                                           (ah_OrderedAuctionMap ah),
                 ah_AccountAuctionMap := mm_erase_first (\<lambda>(k, q). k = au_ownerAccount a \<and> au_Id (as_heap s q) = au_Id a)
                                           (ah_AccountAuctionMap ah),
                 ah_AuctionsMap := um_erase (au_Id a) (ah_AuctionsMap ah)\<rparr>) s
      in if au_Id a \<in> set (map fst (ah_AuctionsMap ah))
         then (True, hook (OnAuctionRemove a) (FreeAuctionID (au_Id a) s1))
         else (False, s1))"

definition RemoveAllAuctions :: "nat \<Rightarrow> u32 \<Rightarrow> u32 \<Rightarrow> ast \<Rightarrow> ast" where
  "RemoveAllAuctions h account me s =
     (let deletable = filter (\<lambda>p. au_owner (as_heap s p) = me)
            (map snd (filter (\<lambda>(k, _). k = account) (ah_AccountAuctionMap (as_real s ! h))))
      in fold (\<lambda>p s. snd (RemoveAuction h p s)) deletable s)"

section \<open>The houses\<close>

definition GetAuctionHouseTeam :: "u32 \<Rightarrow> u32" where
  "GetAuctionHouseTeam houseId =
     (if houseId = 1 \<or> houseId = 2 \<or> houseId = 3 then 469
      else if houseId = 4 \<or> houseId = 5 \<or> houseId = 6 then 67 else 0)"

abbreviation FACTION_MASK_ALLIANCE :: u32 where "FACTION_MASK_ALLIANCE \<equiv> 2"
abbreviation FACTION_MASK_HORDE :: u32 where "FACTION_MASK_HORDE \<equiv> 4"

definition GetAuctionHouseId :: "'f aenv \<Rightarrow> u32 \<Rightarrow> u32" where
  "GetAuctionHouseId e t =
     (if t = 11 \<or> t = 12 then 1
      else if t = 29 \<or> t = 85 then 6
      else if t = 55 \<or> t = 57 then 2
      else if t = 68 \<or> t = 71 then 4
      else if t = 79 \<or> t = 80 then 3
      else if t = 104 \<or> t = 105 then 5
      else if t = 120 then 7
      else if t = 474 then 7
      else if t = 534 then 2
      else if t = 855 then 7
      else (case av_factionMask e t of
              None \<Rightarrow> 7
            | Some ourMask \<Rightarrow>
                if ourMask AND FACTION_MASK_ALLIANCE \<noteq> 0 then 1
                else if ourMask AND FACTION_MASK_HORDE \<noteq> 0 then 6 else 7))"

text \<open>The auctioneer of a request: a creature by its faction template, or the player by the team.\<close>

datatype auction_unit = AuctionCreature u32 | AuctionPlayer u32

definition GetAuctionHouseEntry :: "'f aenv \<Rightarrow> auction_unit \<Rightarrow> house_entry option" where
  "GetAuctionHouseEntry e u =
     av_store e (if av_twoSide e then 1
       else case u of
              AuctionCreature t \<Rightarrow> GetAuctionHouseId e t
            | AuctionPlayer team \<Rightarrow> if team = 469 then 1 else if team = 67 then 6 else 1)"

definition GetAuctionsMap :: "house_entry \<Rightarrow> ast \<Rightarrow> nat option" where
  "GetAuctionsMap he s = as_houses s (he_houseId he)"

definition empty_house :: auction_house where
  "empty_house = \<lparr>ah_AuctionsMap = [], ah_OrderedAuctionMap = [], ah_AccountAuctionMap = []\<rparr>"

definition insert_house :: "u32 \<Rightarrow> nat \<Rightarrow> (u32 \<rightharpoonup> nat) \<Rightarrow> (u32 \<rightharpoonup> nat)" where
  "insert_house i h m = (if m i = None then m(i \<mapsto> h) else m)"

definition LoadAuctionHouses :: "'f aenv \<Rightarrow> ast \<Rightarrow> ast" where
  "LoadAuctionHouses e s =
     (let n = length (as_real s);
          entries = List.map_filter (\<lambda>i. av_store e (of_nat i)) [0..<av_storeRows e]
      in if av_twoSide e
         then s\<lparr>as_real := as_real s @ [empty_house],
                as_houses := fold (\<lambda>he. insert_house (he_houseId he) n) entries (as_houses s)\<rparr>
         else s\<lparr>as_real := as_real s @ [empty_house, empty_house, empty_house],
                as_houses := fold (\<lambda>he. insert_house (he_houseId he)
                  (let team = GetAuctionHouseTeam (he_houseId he)
                   in if team = 469 then n else if team = 67 then n + 1 else n + 2)) entries (as_houses s)\<rparr>)"

section \<open>Items up for auction\<close>

definition GetAItem :: "u32 \<Rightarrow> ast \<Rightarrow> item option" where
  "GetAItem g s = as_aitems s g"

text \<open>\<open>None\<close> is a failed assertion.\<close>

definition AddAItem :: "item \<Rightarrow> ast \<Rightarrow> ast option" where
  "AddAItem it s =
     (if as_aitems s (it_lowguid it) \<noteq> None then None
      else Some (s\<lparr>as_aitems := (as_aitems s)(it_lowguid it \<mapsto> it)\<rparr>))"

definition RemoveAItem :: "u32 \<Rightarrow> ast \<Rightarrow> ast" where
  "RemoveAItem g s = s\<lparr>as_aitems := (as_aitems s)(g := None)\<rparr>"

end
