(* ===== verification/Auction_Mgr.thy ===== *)
theory Auction_Mgr
  imports Auction_Data
begin

text \<open>
  \<^verbatim>\<open>AuctionHouseMgr\<close> and the mails it sends: \<^verbatim>\<open>MailDraft::SendMailTo\<close> of \<^verbatim>\<open>src/src/game/Mail/Mail.cpp\<close> for the drafts of the auction
  house, which have no template and at most one item, the notifications of \<^verbatim>\<open>AuctionHouseHandler.cpp\<close>, the end of auctions in
  \<^verbatim>\<open>AuctionHouseObject::Update\<close>, and loading.
\<close>

section \<open>Text of the mails\<close>

fun show_hex :: "nat \<Rightarrow> string" where
  "show_hex n =
     (let d = n mod 16; c = (if d < 10 then char_of (48 + d) else char_of (87 + d))
      in if n < 16 then [c] else show_hex (n div 16) @ [c])"

declare show_hex.simps [simp del]

definition width16 :: "string \<Rightarrow> string" where
  "width16 t = replicate (16 - length t) (CHR '' '') @ t"

definition mail_subject :: "auction \<Rightarrow> u32 \<Rightarrow> string" where
  "mail_subject a answer = to_string (au_itemTemplate a) @ '':0:'' @ to_string answer"

definition won_body :: "auction \<Rightarrow> string" where
  "won_body a = width16 (show_hex (unat (au_owner a))) @ '':'' @ to_string (au_bid a) @ '':'' @ to_string (au_buyout a)"

definition successful_body :: "auction \<Rightarrow> u32 \<Rightarrow> string" where
  "successful_body a auctionCut =
     width16 (show_hex (unat (au_bidder a))) @ '':'' @ to_string (au_bid a) @ '':'' @ to_string (au_buyout a) @
     '':'' @ to_string (au_deposit a) @ '':'' @ to_string auctionCut"

abbreviation AUCTION_OUTBIDDED :: u32 where "AUCTION_OUTBIDDED \<equiv> 0"
abbreviation AUCTION_WON :: u32 where "AUCTION_WON \<equiv> 1"
abbreviation AUCTION_SUCCESSFUL :: u32 where "AUCTION_SUCCESSFUL \<equiv> 2"
abbreviation AUCTION_EXPIRED :: u32 where "AUCTION_EXPIRED \<equiv> 3"
abbreviation AUCTION_CANCELLED_TO_BIDDER :: u32 where "AUCTION_CANCELLED_TO_BIDDER \<equiv> 4"
abbreviation AUCTION_CANCELED :: u32 where "AUCTION_CANCELED \<equiv> 5"

section \<open>Mails\<close>

record mail_draft =
  md_subject :: string
  md_bodyId :: u32
  md_item :: "item option"
  md_money :: u32

definition draft :: "string \<Rightarrow> mail_draft" where
  "draft subject = \<lparr>md_subject = subject, md_bodyId = 0, md_item = None, md_money = 0\<rparr>"

definition CreateItemText :: "string \<Rightarrow> ast \<Rightarrow> u32 \<times> ast" where
  "CreateItemText t s = (as_textId s, s\<lparr>as_textId := as_textId s + 1, as_texts := as_texts s @ [(as_textId s, t)]\<rparr>)"

text \<open>The draft with a text as body, which is stored when it is not empty.\<close>

definition draft_with_text :: "string \<Rightarrow> string \<Rightarrow> ast \<Rightarrow> mail_draft \<times> ast" where
  "draft_with_text subject t s =
     (if t = [] then (draft subject, s)
      else case CreateItemText t s of (i, s1) \<Rightarrow> ((draft subject)\<lparr>md_bodyId := i\<rparr>, s1))"

definition AddNewMailDeliverTime :: "u32 \<Rightarrow> int \<Rightarrow> int \<Rightarrow> ast \<Rightarrow> ast" where
  "AddNewMailDeliverTime g cur deliver_time s =
     (if deliver_time \<le> cur
      then send g (AuctionPacket SMSG_RECEIVED_MAIL [F32 0])
             (upd_aplayer g (\<lambda>p. p\<lparr>ap_unReadMails := ap_unReadMails p + 1\<rparr>) s)
      else upd_aplayer g (\<lambda>p. if ap_nextMailTime p = 0 \<or> ap_nextMailTime p > deliver_time
                                then p\<lparr>ap_nextMailTime := deliver_time\<rparr> else p) s)"

definition mail_of :: "'f aenv \<Rightarrow> u32 \<Rightarrow> u32 \<Rightarrow> auction \<Rightarrow> mail_draft \<Rightarrow> mail_row" where
  "mail_of e mailId receiver a d =
     (let deliver_time = w_now (av_world e);
          expire_delay = (if md_item d = None \<and> md_money d = 0 then HOUR else 30 * DAY)
      in \<lparr>ml_id = mailId, ml_messageType = 2, ml_stationery = 62, ml_mailTemplateId = 0,
          ml_sender = he_houseId (au_house a), ml_receiver = receiver, ml_subject = md_subject d,
          ml_itemTextId = md_bodyId d, ml_has_items = (md_item d \<noteq> None), ml_expire_time = deliver_time + expire_delay,
          ml_deliver_time = deliver_time, ml_money = md_money d, ml_cod = 0, ml_checked = 4\<rparr>)"

text \<open>
  \<^verbatim>\<open>SendMailTo\<close> with an auction as sender and \<^verbatim>\<open>MAIL_CHECK_MASK_COPIED\<close>. The mail is a row; a connected receiver also gets it into the
  mailbox, with the item. When the receiver is not connected, the object of the item is deleted; its row stays.
\<close>

definition SendMailTo :: "'f aenv \<Rightarrow> u32 \<Rightarrow> auction \<Rightarrow> mail_draft \<Rightarrow> ast \<Rightarrow> ast" where
  "SendMailTo e receiver a d s =
     (let mailId = as_mailId s;
          m = mail_of e mailId receiver a d;
          s1 = s\<lparr>as_mailId := mailId + 1,
                 as_t_mail := as_t_mail s @ [m],
                 as_t_mail_items := as_t_mail_items s @
                   (case md_item d of None \<Rightarrow> []
                    | Some it \<Rightarrow> [\<lparr>mi_mail_id = mailId, mi_item_guid = it_lowguid it, mi_item_template = it_entry it,
                                   mi_receiver = receiver\<rparr>])\<rparr>
      in if receiver = 0 \<or> player_of receiver s = None then s1
         else upd_aplayer receiver
                (\<lambda>p. p\<lparr>ap_mails := m # ap_mails p,
                       ap_mitems := (case md_item d of None \<Rightarrow> ap_mitems p
                                     | Some it \<Rightarrow> (ap_mitems p)(it_lowguid it \<mapsto> it))\<rparr>)
                (AddNewMailDeliverTime receiver (w_now (av_world e)) (ml_deliver_time m) s1))"

section \<open>Notifications\<close>

definition random_id :: "auction \<Rightarrow> ast \<Rightarrow> u32" where
  "random_id a s = (case GetAItem (au_itemGuidLow a) s of Some it \<Rightarrow> it_randomProp it | None \<Rightarrow> 0)"

definition SendAuctionBidderNotification :: "u32 \<Rightarrow> auction \<Rightarrow> bool \<Rightarrow> ast \<Rightarrow> ast" where
  "SendAuctionBidderNotification to a won s =
     send to (AuctionPacket SMSG_AUCTION_BIDDER_NOTIFICATION
       [F32 (he_houseId (au_house a)), F32 (au_Id a), F64 (player_guid (au_bidder a)), F32 (if won then 0 else au_bid a),
        F32 (GetAuctionOutBid a), F32 (au_itemTemplate a), F32 (random_id a s)]) s"

definition SendAuctionOwnerNotification :: "u32 \<Rightarrow> auction \<Rightarrow> bool \<Rightarrow> ast \<Rightarrow> ast" where
  "SendAuctionOwnerNotification to a sold s =
     send to (AuctionPacket SMSG_AUCTION_OWNER_NOTIFICATION
       [F32 (au_Id a), F32 (au_bid a), F32 (GetAuctionOutBid a), F64 (if sold then 0 else player_guid (au_bidder a)),
        F32 (au_itemTemplate a), F32 (random_id a s)]) s"

definition SendAuctionRemovedNotification :: "u32 \<Rightarrow> auction \<Rightarrow> ast \<Rightarrow> ast" where
  "SendAuctionRemovedNotification to a s =
     send to (AuctionPacket SMSG_AUCTION_REMOVED_NOTIFICATION
       [F32 (au_Id a), F32 (au_itemTemplate a), F32 (random_id a s)]) s"

text \<open>For a player in the world.\<close>

definition if_in_world :: "u32 \<Rightarrow> (ast \<Rightarrow> ast) \<Rightarrow> ast \<Rightarrow> ast" where
  "if_in_world g f s = (if GetPlayer g s \<noteq> None then f s else s)"

section \<open>The mails at the end of an auction\<close>

text \<open>An item without a receiver is deleted, with its row.\<close>

definition drop_item :: "u32 \<Rightarrow> ast \<Rightarrow> ast" where
  "drop_item g s = RemoveAItem g (execute (DeleteItemInstance g) s)"

definition SendAuctionWonMail :: "'f aenv \<Rightarrow> auction \<Rightarrow> ast \<Rightarrow> ast" where
  "SendAuctionWonMail e a s =
     (case GetAItem (au_itemGuidLow a) s of
        None \<Rightarrow> s
      | Some it \<Rightarrow>
          if receiver_exists e (au_bidder a) s \<and> \<not> hardcore_now e (au_bidder a) s
          then (let s1 = execute (UpdateItemOwner (au_bidder a) (it_lowguid it)) s;
                    s2 = (if GetPlayer (au_bidder a) s \<noteq> None then SendAuctionBidderNotification (au_bidder a) a True s1
                          else RemoveAItem (it_lowguid it) s1);
                    (d, s3) = draft_with_text (mail_subject a AUCTION_WON) (won_body a) s2
                in SendMailTo e (au_bidder a) a (d\<lparr>md_item := Some it\<rparr>) s3)
          else drop_item (it_lowguid it) s)"

definition SendAuctionSuccessfulMail :: "'f aenv \<Rightarrow> auction \<Rightarrow> ast \<Rightarrow> ast" where
  "SendAuctionSuccessfulMail e a s =
     (if hardcore_now e (au_owner a) s then s
      else if receiver_exists e (au_owner a) s
      then (let auctionCut = GetAuctionCut e a;
                profit = au_bid a + au_deposit a - auctionCut;
                s1 = if_in_world (au_owner a) (SendAuctionOwnerNotification (au_owner a) a True) s;
                (d, s2) = draft_with_text (mail_subject a AUCTION_SUCCESSFUL) (successful_body a auctionCut) s1
            in SendMailTo e (au_owner a) a (d\<lparr>md_money := profit\<rparr>) s2)
      else s)"

definition SendAuctionExpiredMail :: "'f aenv \<Rightarrow> auction \<Rightarrow> ast \<Rightarrow> ast" where
  "SendAuctionExpiredMail e a s =
     (case GetAItem (au_itemGuidLow a) s of
        None \<Rightarrow> s
      | Some it \<Rightarrow>
          if receiver_exists e (au_owner a) s \<and> \<not> hardcore_now e (au_owner a) s
          then SendMailTo e (au_owner a) a ((draft (mail_subject a AUCTION_EXPIRED))\<lparr>md_item := Some it\<rparr>)
                 (if GetPlayer (au_owner a) s \<noteq> None then SendAuctionOwnerNotification (au_owner a) a False s
                  else RemoveAItem (it_lowguid it) s)
          else drop_item (it_lowguid it) s)"

text \<open>The mails that give a bid back: to the outbid player, and to the bidder of a cancelled auction.\<close>

definition SendAuctionOutbiddedMail :: "'f aenv \<Rightarrow> auction \<Rightarrow> ast \<Rightarrow> ast" where
  "SendAuctionOutbiddedMail e a s =
     (if hardcore_now e (au_bidder a) s then s
      else if receiver_exists e (au_bidder a) s
      then SendMailTo e (au_bidder a) a ((draft (mail_subject a AUCTION_OUTBIDDED))\<lparr>md_money := au_bid a\<rparr>)
             (if_in_world (au_bidder a) (SendAuctionBidderNotification (au_bidder a) a False) s)
      else s)"

definition SendAuctionCancelledToBidderMail :: "'f aenv \<Rightarrow> auction \<Rightarrow> ast \<Rightarrow> ast" where
  "SendAuctionCancelledToBidderMail e a s =
     (if hardcore_now e (au_bidder a) s then s
      else if receiver_exists e (au_bidder a) s
      then SendMailTo e (au_bidder a) a ((draft (mail_subject a AUCTION_CANCELLED_TO_BIDDER))\<lparr>md_money := au_bid a\<rparr>)
             (if_in_world (au_bidder a) (SendAuctionRemovedNotification (au_bidder a) a) s)
      else s)"

section \<open>The end of auctions\<close>

text \<open>What the loop of \<^verbatim>\<open>Update\<close> does with one auction. It visits the ids in ascending order and erases behind itself.\<close>

definition unlock_auction :: "'f aenv \<Rightarrow> aptr \<Rightarrow> ast \<Rightarrow> ast" where
  "unlock_auction e p s =
     (if au_depositTime (as_heap s p) + 5 * 60 < av_gameTime e
      then upd_auction p (\<lambda>a. a\<lparr>au_lockedIpAddress := []\<rparr>) s else s)"

definition finish_auction :: "'f aenv \<Rightarrow> nat \<Rightarrow> aptr \<Rightarrow> ast \<Rightarrow> ast" where
  "finish_auction e h p s =
     (let a = as_heap s p;
          s1 = (if au_bidder a = 0 then SendAuctionExpiredMail e a (hook (OnAuctionExpire a) s)
                else SendAuctionWonMail e a (SendAuctionSuccessfulMail e a (hook (OnAuctionSuccessful a) s)))
      in delete_auction p (snd (RemoveAuction h p (RemoveAItem (au_itemGuidLow a) (Auction_DeleteFromDB (au_Id a) s1)))))"

definition update_auction :: "'f aenv \<Rightarrow> nat \<Rightarrow> aptr \<Rightarrow> ast \<Rightarrow> ast" where
  "update_auction e h p s =
     (let s1 = unlock_auction e p s
      in if av_gameTime e > au_expireTime (as_heap s1 p) then finish_auction e h p s1 else s1)"

definition House_Update :: "'f aenv \<Rightarrow> nat \<Rightarrow> ast \<Rightarrow> ast" where
  "House_Update e h s = fold (update_auction e h) (map snd (ah_AuctionsMap (as_real s ! h))) s"

definition AuctionHouseMgr_Update :: "'f aenv \<Rightarrow> ast \<Rightarrow> ast" where
  "AuctionHouseMgr_Update e s = fold (House_Update e) [0..<length (as_real s)] s"

section \<open>Loading\<close>

text \<open>
  \<open>None\<close> is the dereference of a house that the store or the manager does not have. The items were loaded before.
\<close>

definition auction_of_row :: "'f aenv \<Rightarrow> auction_row \<Rightarrow> house_entry \<Rightarrow> ast \<Rightarrow> auction" where
  "auction_of_row e r he s = \<lparr>au_Id = ar_id r, au_itemGuidLow = ar_itemguid r, au_itemTemplate = ar_item_template r,
     au_owner = ar_itemowner r, au_ownerAccount = GetPlayerAccountIdByGUID e (ar_itemowner r) s,
     au_startbid = ar_startbid r, au_bid = ar_lastbid r, au_buyout = ar_buyoutprice r, au_lockedIpAddress = [],
     au_depositTime = 0, au_expireTime = ar_time r, au_bidder = ar_buyguid r, au_deposit = ar_deposit r,
     au_house = he\<rparr>"

definition load_auction :: "'f aenv \<Rightarrow> auction_row \<Rightarrow> ast \<Rightarrow> ast option" where
  "load_auction e r s =
     (case GetAItem (ar_itemguid r) s of
        None \<Rightarrow> Some (Auction_DeleteFromDB (ar_id r) s)
      | Some it \<Rightarrow>
          if ar_houseid r = 0
          then map_option (\<lambda>he.
                 let a = auction_of_row e r he s
                 in Auction_DeleteFromDB (ar_id r) (RemoveAItem (ar_itemguid r)
                      (SendMailTo e (ar_itemowner r) a
                        ((draft (mail_subject a AUCTION_CANCELED))\<lparr>md_item := Some it\<rparr>) s))) (av_store e 7)
          else Option.bind (av_store e (ar_houseid r)) (\<lambda>he.
                 Option.bind (GetAuctionsMap he s) (\<lambda>h.
                   case new_auction (auction_of_row e r he s) s of (p, s1) \<Rightarrow> Some (AddAuction h p s1))))"

fun load_auctions :: "'f aenv \<Rightarrow> auction_row list \<Rightarrow> ast \<Rightarrow> ast option" where
  "load_auctions e [] s = Some s"
| "load_auctions e (r # rs) s = Option.bind (load_auction e r s) (load_auctions e rs)"

definition LoadAuctions :: "'f aenv \<Rightarrow> ast \<Rightarrow> ast option" where
  "LoadAuctions e s = load_auctions e (as_t_auction s) s"

end
