(* ===== verification/Auction_Handlers.thy ===== *)
theory Auction_Handlers
  imports Auction_Mgr
begin

text \<open>
  The packet handlers of \<^verbatim>\<open>src/src/game/Handlers/AuctionHouseHandler.cpp\<close> and the part of \<^verbatim>\<open>Player.cpp\<close> that takes an item out of the
  inventory. A handler gives \<open>None\<close> where the code would dereference a house that the manager does not have, or fail an
  assertion. The end of feigned death is left out.
\<close>

section \<open>Taking an item out of the inventory\<close>

definition ClearEnchantment :: "ptr \<Rightarrow> nat \<Rightarrow> player \<Rightarrow> player" where
  "ClearEnchantment p slot pl =
     (if it_enchants (pl_heap pl p) ! (3 * slot) = 0 then pl
      else SetState p ITEM_CHANGED False
             (upd_item p (\<lambda>it. it\<lparr>it_enchants := (it_enchants it)[3 * slot := 0, 3 * slot + 1 := 0, 3 * slot + 2 := 0]\<rparr>) pl))"

definition unequip_item :: "world \<Rightarrow> u8 \<Rightarrow> ptr \<Rightarrow> player \<Rightarrow> player" where
  "unequip_item w slot p pl =
     (let proto = GetProto w (pl_heap pl p);
          pl1 = event (RemoveItemMods p slot)
                  (if ip_ItemSet proto \<noteq> 0 then event (RemoveItemsSetItem (ip_ItemSet proto)) pl else pl);
          pl2 = event (RemoveItemDependentAurasAndCasts p) pl1;
          pl3 = (if slot = 15 then ClearEnchantment p 6 pl2 else pl2)
      in if slot < EQUIPMENT_SLOT_END
         then (if slot = 15 \<or> slot = 16 \<or> slot = 17 then event ResetExtraAttacks pl3 else pl3)
         else pl1)"

definition RemoveItem :: "world \<Rightarrow> u8 \<Rightarrow> u8 \<Rightarrow> bool \<Rightarrow> player \<Rightarrow> player" where
  "RemoveItem w bag slot update pl =
     (case GetItemByPos pl bag slot of
        None \<Rightarrow> pl
      | Some p \<Rightarrow>
          let pl1 = event (RemoveItemDurations p) (event (RemoveEnchantmentDurations p) pl);
              pl2 = (if bag = INVENTORY_SLOT_BAG_0
                     then (let a = (if slot < INVENTORY_SLOT_BAG_END then unequip_item w slot p pl1 else pl1);
                               b = a\<lparr>pl_items := (pl_items a)[unat slot := None]\<rparr>
                           in if slot < EQUIPMENT_SLOT_END then event (ClearVisibleItemSlot slot) b else b)
                     else (case GetItemByPos pl1 INVENTORY_SLOT_BAG_0 bag of
                             None \<Rightarrow> pl1 | Some pBag \<Rightarrow> Bag_RemoveItem pBag slot pl1))
          in in_world_update update [SendCreateUpdateToPlayer p]
               (upd_item p (\<lambda>it. it\<lparr>it_contained := 0, it_slot := NULL_SLOT\<rparr>) pl2))"

text \<open>An item of a player is in the world when the player is.\<close>

definition MoveItemFromInventory :: "world \<Rightarrow> u8 \<Rightarrow> u8 \<Rightarrow> bool \<Rightarrow> player \<Rightarrow> player" where
  "MoveItemFromInventory w bag slot update pl =
     (case GetItemByPos pl bag slot of
        None \<Rightarrow> pl
      | Some p \<Rightarrow>
          let it = pl_heap pl p;
              pl1 = RemoveItem w bag slot update (event (ItemRemovedQuestCheck (it_entry it) (it_count it)) pl)
          in in_world_update True [RemoveFromWorld p, DestroyForPlayer p] (RemoveFromUpdateQueueOf p True pl1))"

section \<open>Answers\<close>

abbreviation AUCTION_OK :: u32 where "AUCTION_OK \<equiv> 0"
abbreviation AUCTION_ERR_INVENTORY :: u32 where "AUCTION_ERR_INVENTORY \<equiv> 1"
abbreviation AUCTION_ERR_DATABASE :: u32 where "AUCTION_ERR_DATABASE \<equiv> 2"
abbreviation AUCTION_ERR_NOT_ENOUGH_MONEY :: u32 where "AUCTION_ERR_NOT_ENOUGH_MONEY \<equiv> 3"
abbreviation AUCTION_ERR_ITEM_NOT_FOUND :: u32 where "AUCTION_ERR_ITEM_NOT_FOUND \<equiv> 4"
abbreviation AUCTION_ERR_HIGHER_BID :: u32 where "AUCTION_ERR_HIGHER_BID \<equiv> 5"
abbreviation AUCTION_ERR_BID_INCREMENT :: u32 where "AUCTION_ERR_BID_INCREMENT \<equiv> 7"
abbreviation AUCTION_ERR_BID_OWN :: u32 where "AUCTION_ERR_BID_OWN \<equiv> 10"
abbreviation AUCTION_STARTED :: u32 where "AUCTION_STARTED \<equiv> 0"
abbreviation AUCTION_REMOVED :: u32 where "AUCTION_REMOVED \<equiv> 1"
abbreviation AUCTION_BID_PLACED :: u32 where "AUCTION_BID_PLACED \<equiv> 2"

definition SendAuctionCommandResult :: "u32 \<Rightarrow> auction option \<Rightarrow> u32 \<Rightarrow> u32 \<Rightarrow> InventoryResult \<Rightarrow> ast \<Rightarrow> ast" where
  "SendAuctionCommandResult me auc action code invError =
     send me (AuctionPacket SMSG_AUCTION_COMMAND_RESULT
       ([F32 (case auc of Some a \<Rightarrow> au_Id a | None \<Rightarrow> 0), F32 action, F32 code] @
        (if code = AUCTION_OK
         then (case auc of Some a \<Rightarrow> if action = AUCTION_BID_PLACED then [F32 (GetAuctionOutBid a)] else [] | None \<Rightarrow> [])
         else if code = AUCTION_ERR_INVENTORY then [F32 (ucast (equip_code invError))]
         else if code = AUCTION_ERR_HIGHER_BID
         then (case auc of Some a \<Rightarrow> [F64 (player_guid (au_bidder a)), F32 (au_bid a), F32 (GetAuctionOutBid a)]
               | None \<Rightarrow> [F64 0, F32 0, F32 0])
         else [])))"

abbreviation no_error :: InventoryResult where "no_error \<equiv> EQUIP_ERR_OK"

text \<open>
  Who is asked: the player, with or without access to the \<^verbatim>\<open>auction\<close> command, or a creature, given by its faction template when the
  player can interact with it as an auctioneer.
\<close>

datatype auctioneer = AskSelf bool | AskCreature "u32 option"

definition GetCheckedAuctionHouseForAuctioneer :: "'f aenv \<Rightarrow> auctioneer \<Rightarrow> aplayer \<Rightarrow> house_entry option" where
  "GetCheckedAuctionHouseForAuctioneer e who p =
     (case who of
        AskSelf allowed \<Rightarrow> if allowed then GetAuctionHouseEntry e (AuctionPlayer (ap_team p)) else None
      | AskCreature c \<Rightarrow> Option.bind c (\<lambda>t. GetAuctionHouseEntry e (AuctionCreature t)))"

definition HandleAuctionHelloOpcode :: "'f aenv \<Rightarrow> u32 \<Rightarrow> guid \<Rightarrow> u32 option \<Rightarrow> ast \<Rightarrow> ast option" where
  "HandleAuctionHelloOpcode e me auctioneerGuid npc s =
     (case player_of me s of
        None \<Rightarrow> Some s
      | Some p \<Rightarrow>
          if is_hardcore (ap_hardcore p)
          then Some (send me (Notification ''Hardcore characters can not trade, nor buy on Auction House.'') s)
          else case npc of
                 None \<Rightarrow> Some s
               | Some t \<Rightarrow>
                   if ap_suspicious p then Some s
                   else map_option (\<lambda>he. send me (AuctionPacket MSG_AUCTION_HELLO [F64 auctioneerGuid, F32 (he_houseId he)]) s)
                          (GetAuctionHouseEntry e (AuctionCreature t)))"

section \<open>Selling\<close>

text \<open>
  The auction is made and the item leaves the inventory. The object of the item is the same in the inventory and in the
  manager, so the manager has it in the state after the move.
\<close>

definition start_auction :: "'f aenv \<Rightarrow> u32 \<Rightarrow> aplayer \<Rightarrow> house_entry \<Rightarrow> nat \<Rightarrow> ptr \<Rightarrow> u32 \<Rightarrow> u32 \<Rightarrow> u32 \<Rightarrow> u32 \<Rightarrow> ast \<Rightarrow> ast option" where
  "start_auction e me p he h c deposit bid buyout etime s =
     (let w = av_world e;
          it = pl_heap (ap_player p) c;
          pl1 = ModifyMoney w (- deposit) (ap_player p);
          auction_time = fl_to_u32 (av_float e) (fl_mul (av_float e) (fl_u32 (av_float e) etime) (av_rateTime e));
          (i, s1) = GenerateAuctionID s;
          a = \<lparr>au_Id = i, au_itemGuidLow = it_lowguid it, au_itemTemplate = it_entry it, au_owner = me,
               au_ownerAccount = ap_account p, au_startbid = bid, au_bid = 0, au_buyout = buyout,
               au_lockedIpAddress = ap_address p, au_depositTime = w_now w, au_expireTime = w_now w + uint auction_time,
               au_bidder = 0, au_deposit = deposit, au_house = he\<rparr>;
          (q, s2) = new_auction a s1;
          pl2 = MoveItemFromInventory w (GetBagSlot pl1 it) (it_slot it) True pl1;
          it2 = pl_heap pl2 c
      in map_option (\<lambda>s3.
           SendAuctionCommandResult me (Some a) AUCTION_STARTED AUCTION_OK no_error
             (execute (SaveInventoryAndGold me (pl_money pl2))
               (Auction_SaveToDB a
                 (execute (SaveItem it2) (execute (DeleteFromInventory (it_lowguid it2))
                   (upd_char me (\<lambda>_. pl2) s3)))))) (AddAItem it2 (AddAuction h q s2)))"

text \<open>\<open>tradable\<close> is the answer of \<^verbatim>\<open>Item::CanBeTraded\<close>, which asks for combat, looting and open trades of the owner.\<close>

definition HandleAuctionSellItem :: "'f aenv \<Rightarrow> auctioneer \<Rightarrow> bool \<Rightarrow> u32 \<Rightarrow> guid \<Rightarrow> u32 \<Rightarrow> u32 \<Rightarrow> u32 \<Rightarrow> ast \<Rightarrow> ast option" where
  "HandleAuctionSellItem e who tradable me itemGuid bid buyout etime s =
     (case player_of me s of
        None \<Rightarrow> Some s
      | Some p \<Rightarrow>
          if bid = 0 \<or> etime = 0 \<or> ap_suspicious p then Some s
          else if bid > 2000000000 \<or> buyout > 2000000000
          then Some (send me (AnticheatReport ''GoldDupe'' ''Putting too high auction price'') s)
          else if buyout \<noteq> 0 \<and> bid > buyout then Some (send me (AnticheatReport ''GoldDupe'' ''bid > buyout'') s)
          else if \<not> av_gmTrades e \<and> ap_security p > 0 then Some s
          else (case GetCheckedAuctionHouseForAuctioneer e who p of
                  None \<Rightarrow> Some s
                | Some he \<Rightarrow> (case GetAuctionsMap he s of
                    None \<Rightarrow> None
                  | Some h \<Rightarrow>
                      (let seconds = etime * 60;
                           refuse = (\<lambda>code inv. Some (SendAuctionCommandResult me None AUCTION_STARTED code inv s))
                       in if av_limit e \<noteq> 0 \<and> GetAccountAuctionCount (ap_account p) (as_real s ! h) \<ge> av_limit e
                          then Some (SendAuctionCommandResult me None AUCTION_STARTED AUCTION_ERR_DATABASE no_error
                                 (send me (SysMessage ''You have reached the limit of active auctions on your account.'') s))
                          else if seconds \<noteq> 1 * MIN_AUCTION_TIME \<and> seconds \<noteq> 4 * MIN_AUCTION_TIME \<and>
                                  seconds \<noteq> 12 * MIN_AUCTION_TIME then Some s
                          else if itemGuid = 0 then Some s
                          else if GetAItem (GetCounter itemGuid) s \<noteq> None
                          then refuse AUCTION_ERR_INVENTORY EQUIP_ERR_ITEM_NOT_FOUND
                          else (case GetItemByGuid itemGuid (ap_player p) of
                                  None \<Rightarrow> refuse AUCTION_ERR_INVENTORY EQUIP_ERR_ITEM_NOT_FOUND
                                | Some c \<Rightarrow>
                                    (let it = pl_heap (ap_player p) c;
                                         deposit = GetAuctionDeposit e he seconds it
                                     in if IsBankPos (GetBagSlot (ap_player p) it) (it_slot it) \<or> \<not> tradable \<or> IsSoulBound it \<or>
                                           ip_Flags (GetProto (av_world e) it) AND 0x00000002 \<noteq> 0 \<or> it_duration it \<noteq> 0
                                        then refuse AUCTION_ERR_INVENTORY EQUIP_ERR_ITEM_NOT_FOUND
                                        else if pl_money (ap_player p) < deposit
                                        then refuse AUCTION_ERR_NOT_ENOUGH_MONEY no_error
                                        else start_auction e me p he h c deposit bid buyout seconds s))))))"

section \<open>Bidding\<close>

text \<open>The price is taken from the purse; a previous bidder gets the old bid back, the same bidder pays the difference.\<close>

definition pay_bid :: "'f aenv \<Rightarrow> u32 \<Rightarrow> auction \<Rightarrow> u32 \<Rightarrow> ast \<Rightarrow> ast" where
  "pay_bid e me a price s =
     (if me = au_bidder a then upd_char me (ModifyMoney (av_world e) (- (price - au_bid a))) s
      else (let s1 = upd_char me (ModifyMoney (av_world e) (- price)) s
            in if au_bidder a \<noteq> 0 then SendAuctionOutbiddedMail e a s1 else s1))"

definition save_gold :: "u32 \<Rightarrow> ast \<Rightarrow> ast" where
  "save_gold me s =
     (case player_of me s of None \<Rightarrow> s | Some p \<Rightarrow> execute (SaveInventoryAndGold me (pl_money (ap_player p))) s)"

definition place_bid :: "'f aenv \<Rightarrow> u32 \<Rightarrow> aptr \<Rightarrow> u32 \<Rightarrow> ast \<Rightarrow> ast" where
  "place_bid e me q price s =
     (let a = as_heap s q;
          s1 = upd_auction q (\<lambda>a. a\<lparr>au_bidder := me, au_bid := price\<rparr>) (pay_bid e me a price s);
          a1 = as_heap s1 q;
          s2 = if_in_world (au_owner a1) (SendAuctionOwnerNotification (au_owner a1) a1 False) s1;
          s3 = s2\<lparr>as_t_auction := update_where (\<lambda>r. ar_id r = au_Id a1)
                 (\<lambda>r. r\<lparr>ar_buyguid := au_bidder a1, ar_lastbid := au_bid a1\<rparr>) (as_t_auction s2)\<rparr>
      in save_gold me (SendAuctionCommandResult me (Some a1) AUCTION_BID_PLACED AUCTION_OK no_error s3))"

definition buyout_auction :: "'f aenv \<Rightarrow> u32 \<Rightarrow> nat \<Rightarrow> aptr \<Rightarrow> ast \<Rightarrow> ast" where
  "buyout_auction e me h q s =
     (let a = as_heap s q;
          s1 = upd_auction q (\<lambda>a. a\<lparr>au_bidder := me, au_bid := au_buyout a\<rparr>) (pay_bid e me a (au_buyout a) s);
          a1 = as_heap s1 q;
          s2 = SendAuctionWonMail e a1 (SendAuctionSuccessfulMail e a1 s1);
          s3 = RemoveAItem (au_itemGuidLow a1) (SendAuctionCommandResult me (Some a1) AUCTION_BID_PLACED AUCTION_OK no_error s2);
          s4 = delete_auction q (Auction_DeleteFromDB (au_Id a1) (snd (RemoveAuction h q s3)))
      in save_gold me s4)"

definition HandleAuctionPlaceBid :: "'f aenv \<Rightarrow> auctioneer \<Rightarrow> u32 \<Rightarrow> u32 \<Rightarrow> u32 \<Rightarrow> ast \<Rightarrow> ast option" where
  "HandleAuctionPlaceBid e who me auctionId price s =
     (case player_of me s of
        None \<Rightarrow> Some s
      | Some p \<Rightarrow>
          if \<not> av_gmTrades e \<and> ap_security p > 0 then Some s
          else if auctionId = 0 \<or> price = 0 then Some s
          else (case GetCheckedAuctionHouseForAuctioneer e who p of
                  None \<Rightarrow> Some s
                | Some he \<Rightarrow>
                    if ap_suspicious p then Some s
                    else (case GetAuctionsMap he s of
                            None \<Rightarrow> None
                          | Some h \<Rightarrow> (case GetAuction auctionId (as_real s ! h) of
                              None \<Rightarrow> Some (SendAuctionCommandResult me None AUCTION_BID_PLACED AUCTION_ERR_ITEM_NOT_FOUND no_error s)
                            | Some q \<Rightarrow>
                                (let a = as_heap s q
                                 in if au_owner a = me \<or>
                                       GetPlayer (au_owner a) s = None \<and> GetPlayerAccountIdByGUID e (au_owner a) s = ap_account p
                                    then Some (SendAuctionCommandResult me None AUCTION_BID_PLACED AUCTION_ERR_BID_OWN no_error s)
                                    else if price < au_startbid a then Some s
                                    else if price \<le> au_bid a
                                    then Some (SendAuctionCommandResult me (Some a) AUCTION_BID_PLACED AUCTION_ERR_HIGHER_BID no_error s)
                                    else if (price < au_buyout a \<or> au_buyout a = 0) \<and> price < au_bid a + GetAuctionOutBid a
                                    then Some (SendAuctionCommandResult me (Some a) AUCTION_BID_PLACED AUCTION_ERR_BID_INCREMENT no_error s)
                                    else if price > pl_money (ap_player p) then Some s
                                    else if price < au_buyout a \<or> au_buyout a = 0
                                    then Some (place_bid e me q price s)
                                    else Some (buyout_auction e me h q s))))))"

section \<open>Cancelling\<close>

definition close_auction :: "u32 \<Rightarrow> nat \<Rightarrow> aptr \<Rightarrow> ast \<Rightarrow> ast" where
  "close_auction me h q s =
     (let a = as_heap s q
      in delete_auction q (snd (RemoveAuction h q (RemoveAItem (au_itemGuidLow a)
           (save_gold me (Auction_DeleteFromDB (au_Id a)
             (SendAuctionCommandResult me (Some a) AUCTION_REMOVED AUCTION_OK no_error s)))))))"

definition cancel_auction :: "'f aenv \<Rightarrow> u32 \<Rightarrow> nat \<Rightarrow> aptr \<Rightarrow> item \<Rightarrow> ast \<Rightarrow> ast" where
  "cancel_auction e me h q it s =
     (let a = as_heap s q;
          s1 = (if au_bidder a > 0
                then upd_char me (ModifyMoney (av_world e) (- GetAuctionCut e a)) (SendAuctionCancelledToBidderMail e a s)
                else s)
      in close_auction me h q
           (SendMailTo e me a ((draft (mail_subject a AUCTION_CANCELED))\<lparr>md_item := Some it\<rparr>) s1))"

definition HandleAuctionRemoveItem :: "'f aenv \<Rightarrow> auctioneer \<Rightarrow> u32 \<Rightarrow> u32 \<Rightarrow> ast \<Rightarrow> ast option" where
  "HandleAuctionRemoveItem e who me auctionId s =
     (case player_of me s of
        None \<Rightarrow> Some s
      | Some p \<Rightarrow>
          (case GetCheckedAuctionHouseForAuctioneer e who p of
             None \<Rightarrow> Some s
           | Some he \<Rightarrow> (case GetAuctionsMap he s of
               None \<Rightarrow> None
             | Some h \<Rightarrow> (case GetAuction auctionId (as_real s ! h) of
                 None \<Rightarrow> Some (SendAuctionCommandResult me None AUCTION_REMOVED AUCTION_ERR_DATABASE no_error s)
               | Some q \<Rightarrow>
                   if au_owner (as_heap s q) \<noteq> me
                   then Some (SendAuctionCommandResult me None AUCTION_REMOVED AUCTION_ERR_DATABASE no_error s)
                   else (case GetAItem (au_itemGuidLow (as_heap s q)) s of
                           None \<Rightarrow> Some (SendAuctionCommandResult me None AUCTION_REMOVED AUCTION_ERR_INVENTORY
                                            EQUIP_ERR_ITEM_NOT_FOUND s)
                         | Some it \<Rightarrow>
                             if au_bidder (as_heap s q) > 0 \<and> pl_money (ap_player p) < GetAuctionCut e (as_heap s q)
                             then Some s
                             else Some (cancel_auction e me h q it s))))))"

text \<open>What turning hardcore does with the auctions of a player: those in the house of the team are dropped.\<close>

definition drop_auctions :: "'f aenv \<Rightarrow> u32 \<Rightarrow> ast \<Rightarrow> ast" where
  "drop_auctions e me s =
     (case player_of me s of
        None \<Rightarrow> s
      | Some p \<Rightarrow>
          (case Option.bind (GetAuctionHouseEntry e (AuctionPlayer (ap_team p))) (\<lambda>he. GetAuctionsMap he s) of
             None \<Rightarrow> s
           | Some h \<Rightarrow> RemoveAllAuctions h (ap_account p) me s))"

section \<open>Listing\<close>

definition BuildAuctionInfo :: "'f aenv \<Rightarrow> auction \<Rightarrow> ast \<Rightarrow> packet_field list option" where
  "BuildAuctionInfo e a s =
     map_option (\<lambda>it. [F32 (au_Id a), F32 (it_entry it), F32 (it_enchants it ! 0), F32 (it_randomProp it), F32 0,
        F32 (it_count it), F32 (it_charges it ! 0), F64 (player_guid (au_owner a)), F32 (au_startbid a),
        F32 (if au_bid a \<noteq> 0 then GetAuctionOutBid a else 0), F32 (au_buyout a),
        F32 (word_of_int ((au_expireTime a - w_now (av_world e)) * 1000)), F64 (player_guid (au_bidder a)), F32 (au_bid a)])
       (GetAItem (au_itemGuidLow a) s)"

text \<open>One page: at most 50 auctions behind the first \<open>listfrom\<close>; the counters are those of the code.\<close>

definition list_auction :: "'f aenv \<Rightarrow> ast \<Rightarrow> u32 \<Rightarrow> auction \<Rightarrow> packet_field list \<times> u32 \<times> u32 \<Rightarrow> packet_field list \<times> u32 \<times> u32" where
  "list_auction e s listfrom a = (\<lambda>(data, count, totalcount).
     let total = totalcount + 1
     in if count < 50 \<and> total > listfrom
        then (case BuildAuctionInfo e a s of
                Some fs \<Rightarrow> (data @ fs, count + 1, total)
              | None \<Rightarrow> (data, count, total))
        else (data, count, total))"

definition BuildListBidderItems :: "'f aenv \<Rightarrow> nat \<Rightarrow> u32 \<Rightarrow> u32 \<Rightarrow> ast \<Rightarrow> packet_field list \<times> u32 \<times> u32 \<Rightarrow> packet_field list \<times> u32 \<times> u32" where
  "BuildListBidderItems e h me listfrom s =
     fold (\<lambda>p. if au_bidder (as_heap s p) = me then list_auction e s listfrom (as_heap s p) else id)
       (map snd (ah_AuctionsMap (as_real s ! h)))"

definition BuildListOwnerItems :: "'f aenv \<Rightarrow> nat \<Rightarrow> u32 \<Rightarrow> u32 \<Rightarrow> u32 \<Rightarrow> ast \<Rightarrow> packet_field list \<times> u32 \<times> u32 \<Rightarrow> packet_field list \<times> u32 \<times> u32" where
  "BuildListOwnerItems e h account me listfrom s =
     fold (\<lambda>p. if au_owner (as_heap s p) = me then list_auction e s listfrom (as_heap s p) else id)
       (map snd (filter (\<lambda>(k, _). k = account) (ah_AccountAuctionMap (as_real s ! h))))"

end
