(* ===== verification/Auction_Inv.thy ===== *)
theory Auction_Inv
  imports Auction_Handlers
begin

text \<open>
  The books of the auction houses: the three containers of a house hold the same auctions under the right keys, an auction is
  in one house only, its id is taken and its item is kept by the manager. What the basic operations do to the books.
\<close>

section \<open>Containers\<close>

lemma mset_mm_erase_first:
  "x \<in> set m \<Longrightarrow> P x \<Longrightarrow> (\<And>y. y \<in> set m \<Longrightarrow> P y \<Longrightarrow> y = x) \<Longrightarrow> add_mset x (mset (mm_erase_first P m)) = mset m"
proof (induction m)
  case (Cons y m)
  show ?case
  proof (cases "P y")
    case True
    then have "y = x" using Cons.prems(3) [of y] by simp
    then show ?thesis using True by simp
  next
    case False
    then have "add_mset x (mset (mm_erase_first P m)) = mset m"
      using Cons.prems by (intro Cons.IH) (metis list.set_intros(2) set_ConsD)+
    then show ?thesis using False by (simp add: add_mset_commute)
  qed
qed simp

lemma sorted_mm_erase_first: "sorted (map fst m) \<Longrightarrow> sorted (map fst (mm_erase_first P m))"
proof (induction m)
  case (Cons x m)
  have "set (mm_erase_first P m) \<subseteq> set m" by (induction m) auto
  then show ?case using Cons by auto
qed simp

lemma mset_concat_update:
  "h < length xs \<Longrightarrow>
   mset (concat (map f (xs[h := y]))) + mset (f (xs ! h)) = mset (concat (map f xs)) + mset (f y)"
proof (induction xs arbitrary: h)
  case (Cons x xs)
  then show ?case
  proof (cases h)
    case (Suc k)
    then have "mset (concat (map f (xs[k := y]))) + mset (f (xs ! k)) = mset (concat (map f xs)) + mset (f y)"
      using Cons by simp
    then show ?thesis using Suc by (simp add: union_assoc)
  qed (simp add: union_ac)
qed simp

lemma mset_um_erase:
  "distinct (map fst m) \<Longrightarrow> (k, v) \<in> set m \<Longrightarrow> add_mset (k, v) (mset (um_erase k m)) = mset m"
proof (induction m)
  case (Cons x m)
  show ?case
  proof (cases "x = (k, v)")
    case True
    then have "um_erase k m = m" using Cons.prems unfolding um_erase_def by (auto intro!: filter_True simp: image_iff)
    then show ?thesis using True by (simp add: um_erase_def)
  next
    case False
    then have "(k, v) \<in> set m" "fst x \<noteq> k" using Cons.prems by (auto simp: image_iff)
    then show ?thesis using Cons by (cases x) (auto simp: um_erase_def add_mset_commute)
  qed
qed simp

lemma strict_sorted_filter: "sorted_wrt (<) xs \<Longrightarrow> sorted_wrt (<) (filter P xs)"
  by (induction xs) auto

lemma um_erase_map_fst: "map fst (um_erase k m) = filter (\<lambda>i. i \<noteq> k) (map fst m)"
  unfolding um_erase_def by (induction m) auto

section \<open>The books\<close>

definition all_auctions :: "ast \<Rightarrow> (u32 \<times> aptr) list" where
  "all_auctions s = concat (map ah_AuctionsMap (as_real s))"

text \<open>The keys of the index by price and of the index by account.\<close>

definition house_ok :: "(aptr \<Rightarrow> auction) \<Rightarrow> auction_house \<Rightarrow> bool" where
  "house_ok heap ah \<longleftrightarrow>
     sorted_wrt (<) (map fst (ah_AuctionsMap ah)) \<and>
     sorted (map fst (ah_OrderedAuctionMap ah)) \<and>
     mset (ah_OrderedAuctionMap ah) = mset (map (\<lambda>(_, p). (au_buyout (heap p), p)) (ah_AuctionsMap ah)) \<and>
     sorted (map fst (ah_AccountAuctionMap ah)) \<and>
     mset (ah_AccountAuctionMap ah) = mset (map (\<lambda>(_, p). (au_ownerAccount (heap p), p)) (ah_AuctionsMap ah))"

text \<open>
  A bid is below the buyout price and, like the deposit, came out of a purse; who has bid is known.
\<close>

definition terms_ok :: "(u32 \<Rightarrow> house_entry option) \<Rightarrow> auction \<Rightarrow> bool" where
  "terms_ok store a \<longleftrightarrow>
     au_bid a \<le> MAX_MONEY_AMOUNT \<and> au_deposit a \<le> MAX_MONEY_AMOUNT \<and> (au_bidder a = 0 \<longrightarrow> au_bid a = 0) \<and>
     (au_buyout a = 0 \<or> au_bid a < au_buyout a) \<and> au_house a \<in> ran store"

definition entry_ok :: "(u32 \<Rightarrow> house_entry option) \<Rightarrow> ast \<Rightarrow> u32 \<times> aptr \<Rightarrow> bool" where
  "entry_ok store s = (\<lambda>(i, p). i \<in> set (as_ids s) \<and> p < as_next s \<and> p \<notin> set (as_freed s) \<and>
     au_Id (as_heap s p) = i \<and> terms_ok store (as_heap s p))"

definition book_ok :: "(u32 \<Rightarrow> house_entry option) \<Rightarrow> ast \<Rightarrow> bool" where
  "book_ok store s \<longleftrightarrow>
     (\<forall>ah \<in> set (as_real s). house_ok (as_heap s) ah) \<and>
     distinct (map fst (all_auctions s)) \<and> distinct (map snd (all_auctions s)) \<and>
     (\<forall>x \<in> set (all_auctions s). entry_ok store s x) \<and>
     sorted_wrt (<) (as_ids s) \<and> (\<forall>p \<in> set (as_freed s). p < as_next s)"

text \<open>The item of every auction is with the manager, each once.\<close>

definition items_ok :: "ast \<Rightarrow> bool" where
  "items_ok s \<longleftrightarrow>
     distinct (map (\<lambda>(_, p). au_itemGuidLow (as_heap s p)) (all_auctions s)) \<and>
     (\<forall>(_, p) \<in> set (all_auctions s).
        \<exists>it. as_aitems s (au_itemGuidLow (as_heap s p)) = Some it \<and> it_lowguid it = au_itemGuidLow (as_heap s p))"

definition houses_ok :: "(u32 \<Rightarrow> house_entry option) \<Rightarrow> ast \<Rightarrow> bool" where
  "houses_ok store s \<longleftrightarrow>
     (\<forall>i he. store i = Some he \<longrightarrow> (\<exists>h < length (as_real s). as_houses s (he_houseId he) = Some h))"

definition purses :: "ast \<Rightarrow> (u32 \<times> u32) list" where
  "purses s = map (\<lambda>(g, p). (g, pl_money (ap_player p))) (as_players s)"

definition purses_ok :: "(u32 \<times> u32) list \<Rightarrow> bool" where
  "purses_ok ps \<longleftrightarrow> distinct (map fst ps) \<and> (\<forall>(g, m) \<in> set ps. g \<noteq> 0 \<and> m \<le> MAX_MONEY_AMOUNT)"

definition auctions_ok :: "(u32 \<Rightarrow> house_entry option) \<Rightarrow> ast \<Rightarrow> bool" where
  "auctions_ok store s \<longleftrightarrow> book_ok store s \<and> items_ok s \<and> houses_ok store s \<and> purses_ok (purses s)"

section \<open>Gold\<close>

definition stake :: "auction \<Rightarrow> nat" where
  "stake a = unat (au_bid a) + unat (au_deposit a)"

definition staked :: "ast \<Rightarrow> nat" where
  "staked s = sum_list (map (\<lambda>(_, p). stake (as_heap s p)) (all_auctions s))"

definition mailed :: "ast \<Rightarrow> nat" where
  "mailed s = sum_list (map (\<lambda>m. unat (ml_money m)) (as_t_mail s))"

definition pursed :: "ast \<Rightarrow> nat" where
  "pursed s = sum_list (map (\<lambda>(_, m). unat m) (purses s))"

definition wealth :: "ast \<Rightarrow> nat" where
  "wealth s = pursed s + staked s + mailed s"

section \<open>What an operation leaves alone\<close>

definition core :: "ast \<Rightarrow> _" where
  "core s = (as_houses s, as_real s, as_heap s, as_next s, as_freed s, as_ids s)"

lemma core_eq:
  "core s' = core s \<longleftrightarrow> as_houses s' = as_houses s \<and> as_real s' = as_real s \<and> as_heap s' = as_heap s \<and>
     as_next s' = as_next s \<and> as_freed s' = as_freed s \<and> as_ids s' = as_ids s"
  by (simp add: core_def)

lemma core_all: "core s' = core s \<Longrightarrow> all_auctions s' = all_auctions s"
  by (simp add: core_eq all_auctions_def)

lemma core_staked: "core s' = core s \<Longrightarrow> staked s' = staked s"
  by (simp add: core_eq staked_def all_auctions_def)

lemma core_book: "core s' = core s \<Longrightarrow> book_ok store s' = book_ok store s"
  by (simp add: core_eq book_ok_def all_auctions_def entry_ok_def)

lemma core_houses: "core s' = core s \<Longrightarrow> houses_ok store s' = houses_ok store s"
  by (simp add: core_eq houses_ok_def)

lemma core_items: "core s' = core s \<Longrightarrow> as_aitems s' = as_aitems s \<Longrightarrow> items_ok s' = items_ok s"
  by (simp add: core_eq items_ok_def all_auctions_def)

section \<open>Adding and removing auctions\<close>

lemma distinct_add_mset:
  assumes "add_mset x (mset xs') = mset xs"
  shows "distinct (map f xs) \<longleftrightarrow> distinct (map f xs') \<and> f x \<notin> f ` set xs'" "set xs = insert x (set xs')"
proof -
  have m: "mset (x # xs') = mset xs" using assms by simp
  then have "mset (map f (x # xs')) = mset (map f xs)" by (metis mset_map)
  then show "distinct (map f xs) \<longleftrightarrow> distinct (map f xs') \<and> f x \<notin> f ` set xs'"
    by (metis distinct.simps(2) list.simps(9) mset_eq_imp_distinct_iff set_map)
  show "set xs = insert x (set xs')" using m by (metis list.simps(15) mset_eq_setD)
qed

lemma sum_add_mset:
  "add_mset x (mset xs') = mset xs \<Longrightarrow> sum_list (map f xs) = f x + sum_list (map f xs')" for f :: "'a \<Rightarrow> nat"
  by (metis image_mset_add_mset mset_map sum_mset.add_mset sum_mset_sum_list)

lemma house_okD:
  assumes "book_ok store s" "h < length (as_real s)"
  shows "house_ok (as_heap s) (as_real s ! h)"
    "set (ah_AuctionsMap (as_real s ! h)) \<subseteq> set (all_auctions s)"
    "distinct (map fst (ah_AuctionsMap (as_real s ! h)))"
proof -
  show ok: "house_ok (as_heap s) (as_real s ! h)" using assms nth_mem by (simp add: book_ok_def)
  show "set (ah_AuctionsMap (as_real s ! h)) \<subseteq> set (all_auctions s)" using assms(2) by (force simp: all_auctions_def)
  show "distinct (map fst (ah_AuctionsMap (as_real s ! h)))" using ok by (simp add: house_ok_def strict_sorted_iff)
qed

lemma index_erase:
  assumes b: "book_ok store s" and h: "h < length (as_real s)" and ip: "(i, p) \<in> set (ah_AuctionsMap (as_real s ! h))"
    and idx: "mset m = mset (map (\<lambda>(_, q). (f (as_heap s q), q)) (ah_AuctionsMap (as_real s ! h)))"
  shows "mset (mm_erase_first (\<lambda>(k, q). k = f (as_heap s p) \<and> au_Id (as_heap s q) = au_Id (as_heap s p)) m) =
         mset (map (\<lambda>(_, q). (f (as_heap s q), q)) (um_erase i (ah_AuctionsMap (as_real s ! h))))"
proof -
  let ?AM = "ah_AuctionsMap (as_real s ! h)"
  let ?P = "\<lambda>(k, q). k = f (as_heap s p) \<and> au_Id (as_heap s q) = au_Id (as_heap s p)"
  have st: "set m = (\<lambda>(_, q). (f (as_heap s q), q)) ` set ?AM" using mset_eq_setD [OF idx] by simp
  have id: "au_Id (as_heap s q) = j" if "(j, q) \<in> set ?AM" for j q
    using that b house_okD(2) [OF b h] by (auto simp: book_ok_def entry_ok_def)
  have r: "add_mset (f (as_heap s p), p) (mset (mm_erase_first ?P m)) = mset m"
  proof (rule mset_mm_erase_first)
    show "(f (as_heap s p), p) \<in> set m" using ip st by force
    fix y assume y: "y \<in> set m" "?P y"
    then obtain j q where jq: "y = (f (as_heap s q), q)" "(j, q) \<in> set ?AM" using st by auto
    then have "j = i" using y id [of j q] id [OF ip] by simp
    then have "q = p" using jq(2) ip house_okD(3) [OF b h] eq_key_imp_eq_value [of ?AM i q p] by simp
    then show "y = (f (as_heap s p), p)" using jq by simp
  qed simp
  have "add_mset (f (as_heap s p), p) (mset (map (\<lambda>(_, q). (f (as_heap s q), q)) (um_erase i ?AM))) = mset m"
    unfolding idx mset_map mset_um_erase [OF house_okD(3) [OF b h] ip, symmetric] by simp
  from trans [OF r this [symmetric]] show ?thesis by (simp only: add_mset_add_mset_same_iff simp_thms)
qed

lemma RemoveAuction_frame [simp]:
  "as_heap (snd (RemoveAuction h p s)) = as_heap s" "as_next (snd (RemoveAuction h p s)) = as_next s"
  "as_freed (snd (RemoveAuction h p s)) = as_freed s" "as_houses (snd (RemoveAuction h p s)) = as_houses s"
  "as_players (snd (RemoveAuction h p s)) = as_players s" "as_aitems (snd (RemoveAuction h p s)) = as_aitems s"
  "as_t_mail (snd (RemoveAuction h p s)) = as_t_mail s" "length (as_real (snd (RemoveAuction h p s))) = length (as_real s)"
  by (simp_all add: RemoveAuction_def Let_def upd_house_def hook_def FreeAuctionID_def)

lemma RemoveAuction_all:
  assumes b: "book_ok store s" and h: "h < length (as_real s)" and ip: "(i, p) \<in> set (ah_AuctionsMap (as_real s ! h))"
  shows "add_mset (i, p) (mset (all_auctions (snd (RemoveAuction h p s)))) = mset (all_auctions s)"
proof -
  have id: "au_Id (as_heap s p) = i" using ip b house_okD(2) [OF b h] by (auto simp: book_ok_def entry_ok_def)
  have e: "map ah_AuctionsMap (as_real (snd (RemoveAuction h p s))) =
      map ah_AuctionsMap ((as_real s)[h := (as_real s ! h)\<lparr>ah_AuctionsMap := um_erase i (ah_AuctionsMap (as_real s ! h))\<rparr>])"
    by (simp add: RemoveAuction_def Let_def upd_house_def hook_def FreeAuctionID_def id map_update)
  let ?AM = "ah_AuctionsMap (as_real s ! h)" and ?A = "mset (all_auctions (snd (RemoveAuction h p s)))"
  have "?A + mset ?AM = mset (all_auctions s) + mset (um_erase i ?AM)"
    using mset_concat_update [OF h, of ah_AuctionsMap "(as_real s ! h)\<lparr>ah_AuctionsMap := um_erase i ?AM\<rparr>"]
    by (simp only: all_auctions_def e) simp
  then have "add_mset (i, p) ?A + mset (um_erase i ?AM) = mset (all_auctions s) + mset (um_erase i ?AM)"
    unfolding mset_um_erase [OF house_okD(3) [OF b h] ip, symmetric] by simp
  then show ?thesis by (rule add_right_imp_eq)
qed

lemma RemoveAuction_house:
  assumes b: "book_ok store s" and h: "h < length (as_real s)" and ip: "(i, p) \<in> set (ah_AuctionsMap (as_real s ! h))"
  shows "\<forall>ah \<in> set (as_real (snd (RemoveAuction h p s))). house_ok (as_heap s) ah"
proof -
  have id: "au_Id (as_heap s p) = i" using ip b house_okD(2) [OF b h] by (auto simp: book_ok_def entry_ok_def)
  note ok = house_okD(1) [OF b h]
  let ?ah = "(as_real s ! h)\<lparr>
     ah_OrderedAuctionMap := mm_erase_first (\<lambda>(k, q). k = au_buyout (as_heap s p) \<and> au_Id (as_heap s q) = au_Id (as_heap s p)) (ah_OrderedAuctionMap (as_real s ! h)),
     ah_AccountAuctionMap := mm_erase_first (\<lambda>(k, q). k = au_ownerAccount (as_heap s p) \<and> au_Id (as_heap s q) = au_Id (as_heap s p)) (ah_AccountAuctionMap (as_real s ! h)),
     ah_AuctionsMap := um_erase i (ah_AuctionsMap (as_real s ! h))\<rparr>"
  have "house_ok (as_heap s) ?ah"
    using ok index_erase [OF b h ip, of "ah_OrderedAuctionMap (as_real s ! h)" au_buyout]
      index_erase [OF b h ip, of "ah_AccountAuctionMap (as_real s ! h)" au_ownerAccount]
    by (simp add: house_ok_def sorted_mm_erase_first um_erase_map_fst strict_sorted_filter)
  moreover have "as_real (snd (RemoveAuction h p s)) = (as_real s)[h := ?ah]"
    by (simp add: RemoveAuction_def Let_def upd_house_def hook_def FreeAuctionID_def id)
  moreover have "\<forall>ah \<in> set (as_real s). house_ok (as_heap s) ah" using b by (simp add: book_ok_def)
  ultimately show ?thesis using set_update_subset_insert [of "as_real s" h ?ah] by (auto dest!: subsetD)
qed

lemma RemoveAuction_ids:
  assumes b: "book_ok store s" and h: "h < length (as_real s)" and ip: "(i, p) \<in> set (ah_AuctionsMap (as_real s ! h))"
  shows "as_ids (snd (RemoveAuction h p s)) = filter (\<lambda>j. j \<noteq> i) (as_ids s)"
proof -
  have "au_Id (as_heap s p) = i" using ip b house_okD(2) [OF b h] by (auto simp: book_ok_def entry_ok_def)
  then show ?thesis using ip
    by (force simp: RemoveAuction_def Let_def upd_house_def hook_def FreeAuctionID_def)
qed

lemma RemoveAuction_book:
  assumes b: "book_ok store s" and h: "h < length (as_real s)" and ip: "(i, p) \<in> set (ah_AuctionsMap (as_real s ! h))"
  shows "book_ok store (snd (RemoveAuction h p s))"
proof -
  let ?s = "snd (RemoveAuction h p s)"
  note d = distinct_add_mset [OF RemoveAuction_all [OF assms]]
  have "distinct (map fst (all_auctions ?s))" "i \<notin> fst ` set (all_auctions ?s)" "distinct (map snd (all_auctions ?s))"
    using b d(1) [of fst] d(1) [of snd] by (simp_all add: book_ok_def)
  moreover have "entry_ok store ?s x" if "x \<in> set (all_auctions ?s)" for x
  proof -
    have "entry_ok store s x" "fst x \<noteq> i" using that b d(2) \<open>i \<notin> _\<close> by (auto simp: book_ok_def)
    then show ?thesis by (cases x) (simp add: entry_ok_def RemoveAuction_ids [OF assms])
  qed
  ultimately show ?thesis
    using RemoveAuction_house [OF assms] RemoveAuction_ids [OF assms] b
    by (simp add: book_ok_def strict_sorted_filter)
qed

end
