(* ===== verification/Auction_Keep.thy ===== *)
theory Auction_Keep
  imports Auction_Inv Item_Storage_Props
begin

text \<open>
  How the operations act on the books, the purses and the mails: fresh ids, new auctions, changed bids, payments and the mails at the
  end of an auction.
\<close>

section \<open>Fresh ids\<close>

lemma skip_used_fresh:
  "sorted_wrt (<) is \<Longrightarrow> \<forall>i \<in> set is. n \<le> i \<Longrightarrow> skip_used n is \<noteq> 0 \<Longrightarrow> skip_used n is \<notin> set is \<and> n \<le> skip_used n is"
proof (induction n "is" rule: skip_used.induct)
  case (2 n i "is")
  show ?case
  proof (cases "i = n")
    case True
    have gt: "\<forall>j \<in> set is. n + 1 \<le> j" using 2 True by (auto intro: inc_le)
    have "n \<noteq> - 1"
    proof
      assume "n = - 1"
      then have "is = []" using 2 True by (cases "is") auto
      then show False using 2 True \<open>n = - 1\<close> by simp
    qed
    then have "n < n + 1" by (metis inc_less_eq_self_iff_eq not_le)
    moreover have "skip_used (n + 1) is \<notin> set is \<and> n + 1 \<le> skip_used (n + 1) is"
      using "2.IH" 2 True gt by auto
    ultimately show ?thesis using True by auto
  next
    case False
    then show ?thesis using 2 by auto
  qed
qed simp

lemma sorted_dropWhile_less:
  "sorted_wrt (<) xs \<Longrightarrow> x \<in> set (dropWhile (\<lambda>i. i < k) xs) \<Longrightarrow> k \<le> x" for k :: "'a::linorder"
  by (induction xs) (auto split: if_splits)

lemma GenerateAuctionID_fresh:
  assumes "sorted_wrt (<) (as_ids s)" "GenerateAuctionID s = (i, s1)" "i \<noteq> 0"
  shows "i \<notin> set (as_ids s)" "sorted_wrt (<) (as_ids s1)" "set (as_ids s1) = insert i (set (as_ids s))"
proof -
  let ?d = "dropWhile (\<lambda>j. j < as_nextId s) (as_ids s)"
  have i: "i = skip_used (as_nextId s) ?d" and s1: "as_ids s1 = insort_insert i (as_ids s)"
    using assms(2) by (auto simp: GenerateAuctionID_def Let_def)
  have "sorted_wrt (<) ?d" using assms(1) by (simp add: strict_sorted_iff sorted_dropWhile distinct_dropWhile)
  then have f: "i \<notin> set ?d" "as_nextId s \<le> i"
    using skip_used_fresh [of ?d "as_nextId s"] sorted_dropWhile_less [OF assms(1)] assms(3) i by auto
  have "j < as_nextId s" if "j \<in> set (takeWhile (\<lambda>j. j < as_nextId s) (as_ids s))" for j
    using set_takeWhileD [OF that] by simp
  then show "i \<notin> set (as_ids s)"
    using f by (metis UnE leD set_append takeWhile_dropWhile_id)
  show "sorted_wrt (<) (as_ids s1)" "set (as_ids s1) = insert i (set (as_ids s))"
    using assms(1) by (simp_all add: s1 strict_sorted_iff sorted_insort_insert distinct_insort_insert set_insort_insert)
qed

lemma GenerateAuctionID_frame:
  assumes "GenerateAuctionID s = (i, s1)"
  shows "as_houses s1 = as_houses s" "as_real s1 = as_real s" "as_heap s1 = as_heap s" "as_next s1 = as_next s"
    "as_freed s1 = as_freed s" "as_players s1 = as_players s" "as_aitems s1 = as_aitems s" "as_t_mail s1 = as_t_mail s"
  using assms by (auto simp: GenerateAuctionID_def Let_def)

section \<open>New auctions and changed bids\<close>

lemma book_heap:
  assumes b: "book_ok store s" and h: "as_real s' = as_real s" "as_next s \<le> as_next s'" "as_freed s' = as_freed s"
      "set (as_ids s) \<subseteq> set (as_ids s')" "sorted_wrt (<) (as_ids s')"
    and same: "\<And>i p. (i, p) \<in> set (all_auctions s) \<Longrightarrow> au_Id (as_heap s' p) = au_Id (as_heap s p) \<and>
      au_buyout (as_heap s' p) = au_buyout (as_heap s p) \<and> au_ownerAccount (as_heap s' p) = au_ownerAccount (as_heap s p) \<and>
      terms_ok store (as_heap s' p)"
  shows "book_ok store s'"
proof -
  have all: "all_auctions s' = all_auctions s" using h by (simp add: all_auctions_def)
  have "house_ok (as_heap s') ah" if ah: "ah \<in> set (as_real s)" for ah
  proof -
    have "(i, p) \<in> set (all_auctions s)" if "(i, p) \<in> set (ah_AuctionsMap ah)" for i p
      using that ah by (force simp: all_auctions_def)
    then have "map (\<lambda>(_, p). (au_buyout (as_heap s' p), p)) (ah_AuctionsMap ah) = map (\<lambda>(_, p). (au_buyout (as_heap s p), p)) (ah_AuctionsMap ah)"
      "map (\<lambda>(_, p). (au_ownerAccount (as_heap s' p), p)) (ah_AuctionsMap ah) = map (\<lambda>(_, p). (au_ownerAccount (as_heap s p), p)) (ah_AuctionsMap ah)"
      using same by (auto intro!: map_cong)
    moreover have "house_ok (as_heap s) ah" using b ah by (simp add: book_ok_def)
    ultimately show ?thesis unfolding house_ok_def by (simp only: simp_thms)
  qed
  moreover have "entry_ok store s' x" if "x \<in> set (all_auctions s)" for x
  proof -
    obtain i p where x: "x = (i, p)" by (cases x)
    have "entry_ok store s x" using that b by (simp add: book_ok_def)
    then show ?thesis using h same [of i p] that unfolding x entry_ok_def by auto
  qed
  moreover have "\<forall>p \<in> set (as_freed s'). p < as_next s'" using b h by (auto simp: book_ok_def)
  ultimately show ?thesis using b h by (simp add: book_ok_def all)
qed

lemma AddAuction_frame [simp]:
  "as_heap (AddAuction h p s) = as_heap s" "as_next (AddAuction h p s) = as_next s"
  "as_freed (AddAuction h p s) = as_freed s" "as_houses (AddAuction h p s) = as_houses s" "as_ids (AddAuction h p s) = as_ids s"
  "as_players (AddAuction h p s) = as_players s" "as_aitems (AddAuction h p s) = as_aitems s"
  "as_t_mail (AddAuction h p s) = as_t_mail s" "length (as_real (AddAuction h p s)) = length (as_real s)"
  by (simp_all add: AddAuction_def Let_def upd_house_def hook_def)

lemma strict_sorted_mm_insert:
  "sorted_wrt (<) (map fst m) \<Longrightarrow> k \<notin> fst ` set m \<Longrightarrow> sorted_wrt (<) (map fst (mm_insert k v m))"
  by (induction k v m rule: mm_insert.induct) (auto intro: order.strict_trans)

lemma AddAuction_all:
  assumes h: "h < length (as_real s)" and new: "au_Id (as_heap s p) \<notin> fst ` set (all_auctions s)"
  shows "mset (all_auctions (AddAuction h p s)) = add_mset (au_Id (as_heap s p), p) (mset (all_auctions s))"
    and "ah_AuctionsMap (as_real (AddAuction h p s) ! h) = mm_insert (au_Id (as_heap s p)) p (ah_AuctionsMap (as_real s ! h))"
proof -
  let ?AM = "ah_AuctionsMap (as_real s ! h)" and ?i = "au_Id (as_heap s p)"
  let ?ah = "(as_real s ! h)\<lparr>ah_AuctionsMap := mm_insert ?i p ?AM,
     ah_OrderedAuctionMap := mm_insert (au_buyout (as_heap s p)) p (ah_OrderedAuctionMap (as_real s ! h)),
     ah_AccountAuctionMap := mm_insert (au_ownerAccount (as_heap s p)) p (ah_AccountAuctionMap (as_real s ! h))\<rparr>"
  have "set ?AM \<subseteq> set (all_auctions s)" using h by (force simp: all_auctions_def)
  then have e: "as_real (AddAuction h p s) = (as_real s)[h := ?ah]"
    using new by (force simp: AddAuction_def Let_def upd_house_def hook_def put_auction_def)
  have "mset (all_auctions (AddAuction h p s)) + mset ?AM = mset (all_auctions s) + add_mset (?i, p) (mset ?AM)"
    using mset_concat_update [OF h, of ah_AuctionsMap ?ah] by (simp only: all_auctions_def e) simp
  then have "mset (all_auctions (AddAuction h p s)) + mset ?AM = add_mset (?i, p) (mset (all_auctions s)) + mset ?AM" by simp
  then show "mset (all_auctions (AddAuction h p s)) = add_mset (?i, p) (mset (all_auctions s))" by (rule add_right_imp_eq)
  show "ah_AuctionsMap (as_real (AddAuction h p s) ! h) = mm_insert ?i p ?AM" using h by (simp add: e)
qed

lemma AddAuction_book:
  assumes b: "book_ok store s" and h: "h < length (as_real s)"
    and new: "au_Id (as_heap s p) \<notin> fst ` set (all_auctions s)" "p \<notin> snd ` set (all_auctions s)"
    and ok: "entry_ok store s (au_Id (as_heap s p), p)"
  shows "book_ok store (AddAuction h p s)"
proof -
  let ?ah = "as_real s ! h" and ?i = "au_Id (as_heap s p)"
  note all = AddAuction_all [OF h new(1)]
  note d = distinct_add_mset [OF all(1) [symmetric]]
  have sub: "set (ah_AuctionsMap ?ah) \<subseteq> set (all_auctions s)" by (rule house_okD(2) [OF b h])
  let ?ah' = "?ah\<lparr>ah_AuctionsMap := mm_insert ?i p (ah_AuctionsMap ?ah),
     ah_OrderedAuctionMap := mm_insert (au_buyout (as_heap s p)) p (ah_OrderedAuctionMap ?ah),
     ah_AccountAuctionMap := mm_insert (au_ownerAccount (as_heap s p)) p (ah_AccountAuctionMap ?ah)\<rparr>"
  have "as_real (AddAuction h p s) = (as_real s)[h := ?ah']"
    using new sub by (force simp: AddAuction_def Let_def upd_house_def hook_def put_auction_def)
  moreover have "house_ok (as_heap s) ?ah'"
    using house_okD(1) [OF b h] strict_sorted_mm_insert [of "ah_AuctionsMap ?ah" ?i p] new(1) sub by (force simp: house_ok_def)
  moreover have "\<forall>ah \<in> set (as_real s). house_ok (as_heap s) ah" using b by (simp add: book_ok_def)
  ultimately have "\<forall>ah \<in> set (as_real (AddAuction h p s)). house_ok (as_heap s) ah"
    using set_update_subset_insert [of "as_real s" h ?ah'] by (auto dest!: subsetD)
  moreover have "\<forall>x \<in> set (all_auctions (AddAuction h p s)). entry_ok store (AddAuction h p s) x"
    using b ok d(2) by (auto simp: book_ok_def entry_ok_def)
  ultimately show ?thesis using b new d(1) [of fst] d(1) [of snd] by (simp add: book_ok_def)
qed

section \<open>Payments\<close>

lemma ModifyMoney_pays:
  assumes "\<And>d. w_money_hook w d = d" "d \<le> pl_money pl" "pl_money pl \<le> MAX_MONEY_AMOUNT"
  shows "pl_money (ModifyMoney w (- d) pl) = pl_money pl - d"
proof -
  have d: "uint d \<le> uint (pl_money pl)" "uint (pl_money pl) \<le> 0x7FFFFFFE" "0 \<le> uint d"
    using assms(2,3) by (simp_all add: word_le_def)
  then have sd: "sint d = uint d" unfolding sint_uint
    using order.trans [of "- 2147483648" 0 "uint d"] by (intro signed_take_bit_int_eq_self) simp_all
  have sm: "sint (- d) = - uint d"
    unfolding sint_word_ariths sd using d order.strict_trans1 [of "- uint d" 0 2147483648]
    by (intro signed_take_bit_int_eq_self) simp_all
  have "uint (pl_money (ModifyMoney w (- d) pl)) = uint (pl_money pl) - uint d"
    using ModifyMoney_clips [of w "- d" pl] assms(1) d sm by simp
  then show ?thesis using d(1) by (simp add: word_uint_eq_iff uint_sub_if')
qed

lemma purses_upd: "purses (upd_char me f s) = um_update me (\<lambda>_. pl_money (f (ap_player (the (player_of me s))))) (purses s)"
  if "purses_ok (purses s)"
proof -
  have "p = the (player_of me s)" if "(me, p) \<in> set (as_players s)" for p
  proof -
    have "map fst (purses s) = map fst (as_players s)" by (simp add: purses_def comp_def case_prod_beta)
    then show ?thesis using that \<open>purses_ok _\<close> by (simp add: purses_ok_def player_of_def)
  qed
  then show ?thesis by (auto simp: purses_def upd_char_def upd_aplayer_def um_update_def)
qed

lemma purse_in: "player_of me s = Some p \<Longrightarrow> (me, pl_money (ap_player p)) \<in> set (purses s)"
  by (force simp: player_of_def purses_def dest: map_of_SomeD)

lemma sum_um_update:
  fixes f :: "'v \<Rightarrow> nat"
  assumes "distinct (map fst m)" "(k, v) \<in> set m"
  shows "sum_list (map (\<lambda>(_, x). f x) (um_update k (\<lambda>_. y) m)) + f v = sum_list (map (\<lambda>(_, x). f x) m) + f y"
  using assms
proof (induction m)
  case (Cons x m)
  show ?case
  proof (cases "fst x = k")
    case True
    then have "um_update k (\<lambda>_. y) m = m" "x = (k, v)"
      using Cons.prems by (auto simp: um_update_def image_iff intro!: map_idI)
    then show ?thesis by (simp add: um_update_def)
  next
    case False
    then show ?thesis using Cons by (cases x) (auto simp: um_update_def)
  qed
qed simp

lemma purses_ok_upd: "purses_ok ps \<Longrightarrow> y \<le> MAX_MONEY_AMOUNT \<Longrightarrow> purses_ok (um_update k (\<lambda>_. y) ps)"
  unfolding purses_ok_def by (auto simp: um_update_def comp_def case_prod_beta)

text \<open>Whatever leaves the purse with \<open>d\<close> less.\<close>

lemma purse_pays:
  assumes ok: "purses_ok (purses s)" and p: "player_of me s = Some p" and d: "d \<le> pl_money (ap_player p)"
    and f: "pl_money (f (ap_player p)) = pl_money (ap_player p) - d"
  shows "purses_ok (purses (upd_char me f s))" "pursed (upd_char me f s) + unat d = pursed s"
proof -
  have m: "pl_money (ap_player p) \<le> MAX_MONEY_AMOUNT" using ok purse_in [OF p] by (auto simp: purses_ok_def)
  have u: "purses (upd_char me f s) = um_update me (\<lambda>_. pl_money (ap_player p) - d) (purses s)"
    using purses_upd [OF ok, of me f] f p by simp
  have le: "pl_money (ap_player p) - d \<le> pl_money (ap_player p)" using d by (simp add: word_sub_le)
  show "purses_ok (purses (upd_char me f s))" unfolding u using ok le m by (intro purses_ok_upd) auto
  have "unat (pl_money (ap_player p) - d) + unat d = unat (pl_money (ap_player p))"
    using d by (simp add: unat_sub word_le_nat_alt)
  then show "pursed (upd_char me f s) + unat d = pursed s"
    using sum_um_update [OF _ purse_in [OF p], of unat "pl_money (ap_player p) - d"] ok
    unfolding pursed_def u purses_ok_def by simp
qed

lemma upd_char_frame [simp]:
  "core (upd_char me f s) = core s" "as_aitems (upd_char me f s) = as_aitems s" "mailed (upd_char me f s) = mailed s"
  "as_t_auction (upd_char me f s) = as_t_auction s"
  by (simp_all add: upd_char_def upd_aplayer_def core_def mailed_def)

section \<open>Mails\<close>

text \<open>Whether a player is in the world, the account and the hardcore status decide who gets mail.\<close>

definition faces :: "ast \<Rightarrow> _" where
  "faces s = map (\<lambda>(g, p). (g, pl_inWorld (ap_player p), ap_account p, ap_hardcore p)) (as_players s)"

definition willing :: "'f aenv \<Rightarrow> ast \<Rightarrow> u32 \<Rightarrow> bool" where
  "willing e s g \<longleftrightarrow> receiver_exists e g s \<and> \<not> hardcore_now e g s"

definition face_of :: "aplayer \<Rightarrow> _" where
  "face_of p = (pl_inWorld (ap_player p), ap_account p, ap_hardcore p)"

lemma faces_map: "map_option face_of (player_of g s) = map_of (faces s) g"
proof -
  have "map_option face_of (map_of m g) = map_of (map (\<lambda>(g, p). (g, face_of p)) m) g" for m
    by (induction m) auto
  then show ?thesis by (simp add: player_of_def faces_def face_of_def)
qed

text \<open>The mails as rows of receiver, money and whether there is an item, and the parcels as receiver and item.\<close>

definition posted :: "ast \<Rightarrow> (u32 \<times> u32 \<times> bool) list" where
  "posted s = map (\<lambda>m. (ml_receiver m, ml_money m, ml_has_items m)) (as_t_mail s)"

definition parcels :: "ast \<Rightarrow> (u32 \<times> u32) list" where
  "parcels s = map (\<lambda>r. (mi_receiver r, mi_item_guid r)) (as_t_mail_items s)"

lemma mailed_posted: "mailed s = sum_list (map (\<lambda>(_, m, _). unat m) (posted s))"
  by (simp add: mailed_def posted_def comp_def)


lemma willing_cong: "faces s' = faces s \<Longrightarrow> willing e s' g = willing e s g"
proof -
  assume "faces s' = faces s"
  then have f: "map_option face_of (player_of g s') = map_option face_of (player_of g s)" by (simp add: faces_map)
  then show ?thesis
    by (cases "player_of g s"; cases "player_of g s'")
      (auto simp: willing_def receiver_exists_def hardcore_now_def GetPlayerAccountIdByGUID_def GetPlayer_def face_of_def)
qed

text \<open>
  \<open>delivers s s' G ps qs\<close>: from \<open>s\<close> to \<open>s'\<close> the mails \<open>ps\<close> with the parcels \<open>qs\<close> are sent and items in \<open>G\<close> may leave the manager;
  books, purses and the table of auctions stay.
\<close>

definition delivers :: "ast \<Rightarrow> ast \<Rightarrow> u32 set \<Rightarrow> (u32 \<times> u32 \<times> bool) list \<Rightarrow> (u32 \<times> u32) list \<Rightarrow> bool" where
  "delivers s s' G ps qs \<longleftrightarrow>
     core s' = core s \<and> purses s' = purses s \<and> faces s' = faces s \<and> as_t_auction s' = as_t_auction s \<and>
     (\<forall>g. g \<notin> G \<longrightarrow> as_aitems s' g = as_aitems s g) \<and> posted s' = posted s @ ps \<and> parcels s' = parcels s @ qs"

abbreviation quiet :: "ast \<Rightarrow> ast \<Rightarrow> bool" where
  "quiet s s' \<equiv> delivers s s' {} [] []"

lemma delivers_trans:
  "delivers s s' G ps qs \<Longrightarrow> delivers s' s'' G' ps' qs' \<Longrightarrow> delivers s s'' (G \<union> G') (ps @ ps') (qs @ qs')"
  unfolding delivers_def by auto

lemma delivers_mono: "delivers s s' G ps qs \<Longrightarrow> G \<subseteq> G' \<Longrightarrow> delivers s s' G' ps qs"
  unfolding delivers_def by auto

lemma delivers_refl [simp]: "quiet s s"
  by (simp add: delivers_def)

lemma delivers_mailed: "delivers s s' G ps qs \<Longrightarrow> mailed s' = mailed s + sum_list (map (\<lambda>(_, m, _). unat m) ps)"
  by (simp add: delivers_def mailed_posted)

lemmas delivers_defs = delivers_def core_def purses_def faces_def posted_def parcels_def

lemma quiet_send [simp]: "quiet s (send g x s)" "quiet s (execute q s)" "quiet s (hook k s)"
  by (simp_all add: delivers_defs send_def execute_def hook_def)

lemma quiet_notify [simp]:
  "quiet s (SendAuctionBidderNotification g a b s)" "quiet s (SendAuctionOwnerNotification g a b s)"
  "quiet s (SendAuctionRemovedNotification g a s)" "quiet s (SendAuctionCommandResult g a' x y z s)"
  by (simp_all add: SendAuctionBidderNotification_def SendAuctionOwnerNotification_def SendAuctionRemovedNotification_def
      SendAuctionCommandResult_def)

lemma quiet_if_in_world: "(\<And>s. quiet s (f s)) \<Longrightarrow> quiet s (if_in_world g f s)"
  by (simp add: if_in_world_def)

lemma quiet_text: "quiet s (snd (draft_with_text t b s))"
  by (simp add: draft_with_text_def CreateItemText_def delivers_defs)

lemma quiet_save_gold [simp]: "quiet s (save_gold me s)"
  by (simp add: save_gold_def split: option.split)

lemma delivers_RemoveAItem: "delivers s (RemoveAItem g s) {g} [] []"
  by (simp add: RemoveAItem_def delivers_defs)

lemma mailbox_frame:
  assumes "\<And>p. ap_player (f p) = ap_player p \<and> ap_account (f p) = ap_account p \<and> ap_hardcore (f p) = ap_hardcore p"
  shows "quiet s (upd_aplayer g f s)"
proof -
  have "purses (upd_aplayer g f s) = purses s" "faces (upd_aplayer g f s) = faces s"
    using assms by (auto simp: purses_def faces_def upd_aplayer_def um_update_def if_distrib [of ap_player] cong: if_cong)
  then show ?thesis by (simp add: delivers_def core_def posted_def parcels_def) (simp add: upd_aplayer_def)
qed

lemma quiet_deliver_time: "quiet s (AddNewMailDeliverTime g c t s)"
proof -
  have "quiet s (upd_aplayer g (\<lambda>p. p\<lparr>ap_unReadMails := ap_unReadMails p + 1\<rparr>) s)" by (rule mailbox_frame) simp
  from delivers_trans [OF this quiet_send(1)] show ?thesis
    unfolding AddNewMailDeliverTime_def by (auto intro!: mailbox_frame)
qed

lemma SendMailTo_delivers:
  "delivers s (SendMailTo e r a d s) {} [(r, md_money d, md_item d \<noteq> None)]
     (case md_item d of None \<Rightarrow> [] | Some it \<Rightarrow> [(r, it_lowguid it)])"
proof -
  let ?m = "mail_of e (as_mailId s) r a d"
  let ?s1 = "s\<lparr>as_mailId := as_mailId s + 1, as_t_mail := as_t_mail s @ [?m], as_t_mail_items := as_t_mail_items s @
     (case md_item d of None \<Rightarrow> [] | Some it \<Rightarrow> [\<lparr>mi_mail_id = as_mailId s, mi_item_guid = it_lowguid it,
        mi_item_template = it_entry it, mi_receiver = r\<rparr>])\<rparr>"
  have "delivers s ?s1 {} [(r, md_money d, md_item d \<noteq> None)] (case md_item d of None \<Rightarrow> [] | Some it \<Rightarrow> [(r, it_lowguid it)])"
    by (simp add: delivers_defs mail_of_def Let_def split: option.split)
  moreover have "quiet ?s1 (SendMailTo e r a d s)"
    using delivers_trans [OF quiet_deliver_time [of ?s1 r "w_now (av_world e)" "ml_deliver_time ?m"] mailbox_frame [of
      "\<lambda>p. p\<lparr>ap_mails := ?m # ap_mails p, ap_mitems := (case md_item d of None \<Rightarrow> ap_mitems p | Some it \<Rightarrow> (ap_mitems p)(it_lowguid it \<mapsto> it))\<rparr>" _ r]]
    by (simp add: SendMailTo_def Let_def)
  ultimately show ?thesis using delivers_trans by fastforce
qed

lemma send_money: "delivers s (SendMailTo e r a ((draft t)\<lparr>md_money := m\<rparr>) s) {} [(r, m, False)] []"
  using SendMailTo_delivers [of s e r a "(draft t)\<lparr>md_money := m\<rparr>"] by (simp add: draft_def)

lemma send_item: "delivers s (SendMailTo e r a ((draft t)\<lparr>md_item := Some it\<rparr>) s) {} [(r, 0, True)] [(r, it_lowguid it)]"
  using SendMailTo_delivers [of s e r a "(draft t)\<lparr>md_item := Some it\<rparr>"] by (simp add: draft_def)

section \<open>The mails of an auction\<close>

text \<open>What each of the mails is, in terms of who is willing to receive it.\<close>

definition sale_mail :: "'f aenv \<Rightarrow> ast \<Rightarrow> auction \<Rightarrow> (u32 \<times> u32 \<times> bool) list" where
  "sale_mail e s a =
     (if willing e s (au_owner a) then [(au_owner a, au_bid a + au_deposit a - GetAuctionCut e a, False)] else [])"

definition refund_mail :: "'f aenv \<Rightarrow> ast \<Rightarrow> auction \<Rightarrow> (u32 \<times> u32 \<times> bool) list" where
  "refund_mail e s a = (if willing e s (au_bidder a) then [(au_bidder a, au_bid a, False)] else [])"

lemma SuccessfulMail_delivers: "delivers s (SendAuctionSuccessfulMail e a s) {} (sale_mail e s a) []"
proof (cases "willing e s (au_owner a)")
  case True
  let ?s1 = "if_in_world (au_owner a) (SendAuctionOwnerNotification (au_owner a) a True) s"
  obtain d s2 where d: "draft_with_text (mail_subject a AUCTION_SUCCESSFUL) (successful_body a (GetAuctionCut e a)) ?s1 = (d, s2)" by force
  have "quiet s ?s1" by (rule quiet_if_in_world) simp
  moreover have "quiet ?s1 s2" using quiet_text [of ?s1] d by (metis snd_conv)
  ultimately have "quiet s s2" using delivers_trans by fastforce
  moreover have "md_item d = None" using d by (auto simp: draft_with_text_def CreateItemText_def draft_def split: if_splits)
  ultimately show ?thesis
    using True delivers_trans [OF \<open>quiet s s2\<close> SendMailTo_delivers [of s2 e "au_owner a" a "d\<lparr>md_money := au_bid a + au_deposit a - GetAuctionCut e a\<rparr>"]] d
    by (simp add: SendAuctionSuccessfulMail_def willing_def sale_mail_def Let_def)
next
  case False
  then show ?thesis by (auto simp: SendAuctionSuccessfulMail_def willing_def sale_mail_def)
qed

lemma OutbiddedMail_delivers: "delivers s (SendAuctionOutbiddedMail e a s) {} (refund_mail e s a) []"
proof (cases "willing e s (au_bidder a)")
  case True
  let ?s1 = "if_in_world (au_bidder a) (SendAuctionBidderNotification (au_bidder a) a False) s"
  have "quiet s ?s1" by (rule quiet_if_in_world) simp
  from delivers_trans [OF this send_money] show ?thesis
    using True by (simp add: SendAuctionOutbiddedMail_def willing_def refund_mail_def)
next
  case False
  then show ?thesis by (auto simp: SendAuctionOutbiddedMail_def willing_def refund_mail_def)
qed

lemma CancelledMail_delivers: "delivers s (SendAuctionCancelledToBidderMail e a s) {} (refund_mail e s a) []"
proof (cases "willing e s (au_bidder a)")
  case True
  let ?s1 = "if_in_world (au_bidder a) (SendAuctionRemovedNotification (au_bidder a) a) s"
  have "quiet s ?s1" by (rule quiet_if_in_world) simp
  from delivers_trans [OF this send_money] show ?thesis
    using True by (simp add: SendAuctionCancelledToBidderMail_def willing_def refund_mail_def)
next
  case False
  then show ?thesis by (auto simp: SendAuctionCancelledToBidderMail_def willing_def refund_mail_def)
qed

text \<open>The mails with the item of the auction.\<close>

lemma drop_item_delivers: "delivers s (drop_item g s) {g} [] []"
  using delivers_trans [OF quiet_send(2) delivers_RemoveAItem [of "execute _ s" g]] by (simp add: drop_item_def)

lemma WonMail_delivers:
  assumes it: "as_aitems s (au_itemGuidLow a) = Some it" "it_lowguid it = au_itemGuidLow a"
  shows "delivers s (SendAuctionWonMail e a s) {au_itemGuidLow a}
    (if willing e s (au_bidder a) then [(au_bidder a, 0, True)] else [])
    (if willing e s (au_bidder a) then [(au_bidder a, au_itemGuidLow a)] else [])"
proof (cases "willing e s (au_bidder a)")
  case True
  let ?s1 = "execute (UpdateItemOwner (au_bidder a) (it_lowguid it)) s"
  let ?s2 = "if GetPlayer (au_bidder a) s \<noteq> None then SendAuctionBidderNotification (au_bidder a) a True ?s1 else RemoveAItem (it_lowguid it) ?s1"
  obtain d s3 where d: "draft_with_text (mail_subject a AUCTION_WON) (won_body a) ?s2 = (d, s3)" by force
  have "delivers ?s1 ?s2 {au_itemGuidLow a} [] []"
    using delivers_RemoveAItem [of ?s1 "it_lowguid it"] it by (auto intro: delivers_mono [OF quiet_notify(1)])
  from delivers_trans [OF quiet_send(2) this] have "delivers s ?s2 {au_itemGuidLow a} [] []" by simp
  moreover have "quiet ?s2 s3" using quiet_text [of ?s2] d by (metis snd_conv)
  ultimately have r: "delivers s s3 {au_itemGuidLow a} [] []" using delivers_trans by fastforce
  have "md_money d = 0" using d by (auto simp: draft_with_text_def CreateItemText_def draft_def split: if_splits)
  moreover have "SendAuctionWonMail e a s = SendMailTo e (au_bidder a) a (d\<lparr>md_item := Some it\<rparr>) s3"
    using True it(1) d by (simp add: SendAuctionWonMail_def GetAItem_def willing_def Let_def split del: if_split)
  ultimately show ?thesis
    using True delivers_trans [OF r SendMailTo_delivers [of s3 e "au_bidder a" a "d\<lparr>md_item := Some it\<rparr>"]] it by simp
next
  case False
  then show ?thesis
    using drop_item_delivers it by (auto simp: SendAuctionWonMail_def GetAItem_def willing_def)
qed

lemma ExpiredMail_delivers:
  assumes it: "as_aitems s (au_itemGuidLow a) = Some it" "it_lowguid it = au_itemGuidLow a"
  shows "delivers s (SendAuctionExpiredMail e a s) {au_itemGuidLow a}
    (if willing e s (au_owner a) then [(au_owner a, 0, True)] else [])
    (if willing e s (au_owner a) then [(au_owner a, au_itemGuidLow a)] else [])"
proof (cases "willing e s (au_owner a)")
  case True
  let ?s1 = "if GetPlayer (au_owner a) s \<noteq> None then SendAuctionOwnerNotification (au_owner a) a False s else RemoveAItem (it_lowguid it) s"
  have "delivers s ?s1 {au_itemGuidLow a} [] []"
    using delivers_RemoveAItem [of s "it_lowguid it"] it by (auto intro: delivers_mono [OF quiet_notify(2)])
  from delivers_trans [OF this send_item [where it = it]] show ?thesis
    using True it by (simp add: SendAuctionExpiredMail_def GetAItem_def willing_def split del: if_split)
next
  case False
  then show ?thesis
    using drop_item_delivers it by (auto simp: SendAuctionExpiredMail_def GetAItem_def willing_def)
qed

end
