(* ===== verification/Auction_Run.thy ===== *)
theory Auction_Run
  imports Auction_Keep
begin

text \<open>
  The handlers and the update keep the books, and no gold comes into being: purses, stakes (bids and deposits) and money in mails
  together never grow.
\<close>

section \<open>Stakes\<close>

lemma split_entry:
  assumes "(i, p) \<in> set xs" "distinct (map snd xs)"
  obtains xs' where "add_mset (i, p) (mset xs') = mset xs" "p \<notin> snd ` set xs'"
proof -
  have "add_mset (i, p) (mset (remove1 (i, p) xs)) = mset xs" using assms(1) by (simp add: set_mset_mset [symmetric] del: set_mset_mset)
  moreover from distinct_add_mset(1) [OF this, of snd] have "p \<notin> snd ` set (remove1 (i, p) xs)" using assms(2) by simp
  ultimately show ?thesis by (rule that)
qed

lemma staked_update:
  assumes b: "book_ok store s" and ip: "(i, p) \<in> set (all_auctions s)"
    and t: "as_real t = as_real s" "as_heap t = (as_heap s)(p := a)"
  shows "staked t + stake (as_heap s p) = staked s + stake a"
proof -
  obtain xs' where x: "add_mset (i, p) (mset xs') = mset (all_auctions s)" "p \<notin> snd ` set xs'"
    using split_entry [OF ip] b by (auto simp: book_ok_def)
  have all: "all_auctions t = all_auctions s" using t by (simp add: all_auctions_def)
  have "map (\<lambda>(_, q). stake (as_heap t q)) xs' = map (\<lambda>(_, q). stake (as_heap s q)) xs'"
    using x(2) t by (force intro!: map_cong)
  moreover have "as_heap t p = a" using t by simp
  ultimately show ?thesis unfolding staked_def all sum_add_mset [OF x(1)] by (simp only: prod.case)
qed

lemma entry_all: "h < length (as_real s) \<Longrightarrow> x \<in> set (ah_AuctionsMap (as_real s ! h)) \<Longrightarrow> x \<in> set (all_auctions s)"
  by (force simp: all_auctions_def)

lemma entry_terms:
  "auctions_ok store s \<Longrightarrow> (i, p) \<in> set (all_auctions s) \<Longrightarrow> terms_ok store (as_heap s p) \<and> au_Id (as_heap s p) = i \<and> p < as_next s"
  by (auto simp: auctions_ok_def book_ok_def entry_ok_def)

section \<open>Closing an auction\<close>

lemma RemoveAuction_heap:
  assumes t: "core t = core (s\<lparr>as_heap := (as_heap s)(p := a)\<rparr>)"
    and a: "au_Id a = au_Id (as_heap s p)" "au_buyout a = au_buyout (as_heap s p)" "au_ownerAccount a = au_ownerAccount (as_heap s p)"
  shows "as_real (snd (RemoveAuction h p t)) = as_real (snd (RemoveAuction h p s))"
    "as_ids (snd (RemoveAuction h p t)) = as_ids (snd (RemoveAuction h p s))"
proof -
  have "au_Id (as_heap t q) = au_Id (as_heap s q)" for q using t a by (simp add: core_eq)
  then show "as_real (snd (RemoveAuction h p t)) = as_real (snd (RemoveAuction h p s))"
    "as_ids (snd (RemoveAuction h p t)) = as_ids (snd (RemoveAuction h p s))"
    using t a by (simp_all add: RemoveAuction_def Let_def upd_house_def hook_def FreeAuctionID_def core_eq)
qed

text \<open>An auction that is in no house any more may be freed, whatever its object holds by then.\<close>

lemma book_forget:
  assumes b: "book_ok store r" and p: "p < as_next r" and np: "\<And>j q. (j, q) \<in> set (all_auctions r) \<Longrightarrow> q \<noteq> p"
    and s': "as_real s' = as_real r" "as_ids s' = as_ids r" "as_heap s' = (as_heap r)(p := a)" "as_next s' = as_next r" "as_freed s' = p # as_freed r"
  shows "book_ok store s'"
proof -
  let ?t = "r\<lparr>as_heap := (as_heap r)(p := a)\<rparr>"
  have all: "all_auctions ?t = all_auctions r" "all_auctions s' = all_auctions r" by (simp_all add: all_auctions_def s'(1))
  have bt: "book_ok store ?t"
  proof (rule book_heap [OF b])
    fix j q assume "(j, q) \<in> set (all_auctions r)"
    then have "entry_ok store r (j, q)" "q \<noteq> p" using b np by (auto simp: book_ok_def)
    then show "au_Id (as_heap ?t q) = au_Id (as_heap r q) \<and> au_buyout (as_heap ?t q) = au_buyout (as_heap r q) \<and>
      au_ownerAccount (as_heap ?t q) = au_ownerAccount (as_heap r q) \<and> terms_ok store (as_heap ?t q)" by (simp add: entry_ok_def)
  qed (use b in \<open>simp_all add: book_ok_def\<close>)
  have "entry_ok store s' x" if "x \<in> set (all_auctions s')" for x
  proof -
    obtain j q where x: "x = (j, q)" by (cases x)
    have "entry_ok store ?t x" using that bt all by (simp add: book_ok_def)
    then show ?thesis using np [of j q] that all unfolding x entry_ok_def by (simp add: s')
  qed
  then show ?thesis using bt b p all by (simp add: book_ok_def s')
qed

lemma items_forget:
  assumes io: "items_ok s" and m: "add_mset (i, p) (mset (all_auctions s')) = mset (all_auctions s)"
    and heap: "as_heap s' = (as_heap s)(p := a)" and np: "\<And>j q. (j, q) \<in> set (all_auctions s') \<Longrightarrow> q \<noteq> p"
    and items: "\<And>g. g \<noteq> au_itemGuidLow (as_heap s p) \<Longrightarrow> as_aitems s' g = as_aitems s g"
  shows "items_ok s'"
proof -
  note d = distinct_add_mset [OF m]
  have it: "au_itemGuidLow (as_heap s q) \<noteq> au_itemGuidLow (as_heap s p)" if "(j, q) \<in> set (all_auctions s')" for j q
    using d(1) [of "\<lambda>(_, q). au_itemGuidLow (as_heap s q)"] io that by (force simp: items_ok_def)
  have me: "map (\<lambda>(_, q). au_itemGuidLow (as_heap s' q)) (all_auctions s') = map (\<lambda>(_, q). au_itemGuidLow (as_heap s q)) (all_auctions s')"
    using np heap by (force intro!: map_cong)
  have "distinct (map (\<lambda>(_, q). au_itemGuidLow (as_heap s' q)) (all_auctions s'))"
    unfolding me using d(1) [of "\<lambda>(_, q). au_itemGuidLow (as_heap s q)"] io by (simp add: items_ok_def)
  moreover have "\<exists>it. as_aitems s' (au_itemGuidLow (as_heap s' q)) = Some it \<and> it_lowguid it = au_itemGuidLow (as_heap s' q)"
    if "(j, q) \<in> set (all_auctions s')" for j q
    using that io d(2) np [OF that] it [OF that] items heap by (auto simp: items_ok_def)
  ultimately show ?thesis by (auto simp: items_ok_def)
qed

lemma close_entry:
  assumes ok: "auctions_ok store s" and h: "h < length (as_real s)" and ip: "(i, p) \<in> set (ah_AuctionsMap (as_real s ! h))"
    and t: "core t = core (s\<lparr>as_heap := (as_heap s)(p := a)\<rparr>)"
    and a: "au_Id a = au_Id (as_heap s p)" "au_buyout a = au_buyout (as_heap s p)" "au_ownerAccount a = au_ownerAccount (as_heap s p)"
    and items: "\<And>g. g \<noteq> au_itemGuidLow (as_heap s p) \<Longrightarrow> as_aitems t g = as_aitems s g"
    and pu: "purses_ok (purses t)"
  defines "s' \<equiv> delete_auction p (snd (RemoveAuction h p t))"
  shows "auctions_ok store s'" "staked s' + stake (as_heap s p) = staked s"
    "add_mset (i, p) (mset (all_auctions s')) = mset (all_auctions s)"
proof -
  have b: "book_ok store s" using ok by (simp add: auctions_ok_def)
  let ?r = "snd (RemoveAuction h p s)"
  note rem = RemoveAuction_heap [OF t a]
  have real: "as_real s' = as_real ?r" and ids: "as_ids s' = as_ids ?r" and heap: "as_heap s' = (as_heap s)(p := a)"
    and fr: "as_next s' = as_next s" "as_freed s' = p # as_freed s" "as_houses s' = as_houses s" "as_aitems s' = as_aitems t"
      "as_players s' = as_players t"
    using t rem by (simp_all add: s'_def delete_auction_def core_eq)
  have all: "all_auctions s' = all_auctions ?r" using real by (simp add: all_auctions_def)
  show m: "add_mset (i, p) (mset (all_auctions s')) = mset (all_auctions s)"
    unfolding all by (rule RemoveAuction_all [OF b h ip])
  note d = distinct_add_mset [OF m]
  have p: "p \<notin> snd ` set (all_auctions s')" using d(1) [of snd] b by (simp add: book_ok_def)
  then have np: "q \<noteq> p" if "(j, q) \<in> set (all_auctions s')" for j q using that by force
  have br: "book_ok store ?r" by (rule RemoveAuction_book [OF b h ip])
  have "p < as_next s" using entry_terms [OF ok entry_all [OF h ip]] by simp
  then have "book_ok store s'"
    by (intro book_forget [OF br _ _ real ids, of p a]) (use np [unfolded all] heap fr in auto)
  moreover have "items_ok s'"
    by (rule items_forget [OF _ m heap np]) (use ok items fr in \<open>simp_all add: auctions_ok_def\<close>)
  moreover have "houses_ok store s'" using ok real fr by (simp add: auctions_ok_def houses_ok_def)
  moreover have "purses s' = purses t" using fr by (simp add: purses_def)
  ultimately show "auctions_ok store s'" using pu by (simp add: auctions_ok_def)
  have "map (\<lambda>(_, q). stake (as_heap s' q)) (all_auctions s') = map (\<lambda>(_, q). stake (as_heap s q)) (all_auctions s')"
    using np heap by (force intro!: map_cong)
  then show "staked s' + stake (as_heap s p) = staked s"
    unfolding staked_def sum_add_mset [OF m] by (simp only: prod.case add.commute)
qed

section \<open>The end of an auction\<close>

text \<open>
  The environment of a sound server: the houses are those of the store, no module changes payments, and the cut of a house is at
  most the bid.
\<close>

definition sound_env :: "(u32 \<Rightarrow> house_entry option) \<Rightarrow> 'f aenv \<Rightarrow> bool" where
  "sound_env store e \<longleftrightarrow> av_store e = store \<and> (\<forall>d. w_money_hook (av_world e) d = d) \<and>
     (\<forall>a. au_house a \<in> ran store \<longrightarrow> GetAuctionCut e a \<le> au_bid a)"

definition kept :: "(u32 \<Rightarrow> house_entry option) \<Rightarrow> ast \<Rightarrow> ast \<Rightarrow> bool" where
  "kept store s s' \<longleftrightarrow> auctions_ok store s' \<and> wealth s' \<le> wealth s"

text \<open>What an auction that has ended owes: the item to the winner and the profit to the owner, or the item back to the owner.\<close>

definition settlement :: "'f aenv \<Rightarrow> ast \<Rightarrow> auction \<Rightarrow> (u32 \<times> u32 \<times> bool) list" where
  "settlement e s a =
     (if au_bidder a = 0 then (if willing e s (au_owner a) then [(au_owner a, 0, True)] else [])
      else sale_mail e s a @ (if willing e s (au_bidder a) then [(au_bidder a, 0, True)] else []))"

definition handover :: "'f aenv \<Rightarrow> ast \<Rightarrow> auction \<Rightarrow> (u32 \<times> u32) list" where
  "handover e s a =
     (let g = (if au_bidder a = 0 then au_owner a else au_bidder a)
      in if willing e s g then [(g, au_itemGuidLow a)] else [])"

lemma profit_le:
  fixes bid deposit taken :: u32
  assumes "bid \<le> MAX_MONEY_AMOUNT" "deposit \<le> MAX_MONEY_AMOUNT" "taken \<le> bid"
  shows "unat (bid + deposit - taken) \<le> unat bid + unat deposit"
proof -
  have b: "unat bid \<le> 0x7FFFFFFE" "unat deposit \<le> 0x7FFFFFFE" "unat taken \<le> unat bid"
    using assms by (simp_all add: word_le_nat_alt)
  then have s: "unat (bid + deposit) = unat bid + unat deposit" by (intro unat_plus_small) simp
  then have "taken \<le> bid + deposit" using b by (simp add: word_le_nat_alt)
  then show ?thesis using s by (simp add: unat_sub)
qed

abbreviation gold :: "(u32 \<times> u32 \<times> bool) list \<Rightarrow> nat" where
  "gold ps \<equiv> sum_list (map (\<lambda>(_, m, _). unat m) ps)"

lemma sale_gold:
  assumes "au_bid a \<le> MAX_MONEY_AMOUNT" "au_deposit a \<le> MAX_MONEY_AMOUNT" "GetAuctionCut e a \<le> au_bid a"
  shows "gold (sale_mail e s a) \<le> stake a"
  using profit_le [OF assms] by (simp add: sale_mail_def stake_def)

lemma refund_gold: "gold (refund_mail e s a) \<le> unat (au_bid a)"
  by (simp add: refund_mail_def)

lemma settlement_gold:
  assumes "terms_ok store a" "sound_env store e"
  shows "gold (settlement e s a) \<le> stake a"
  using assms sale_gold [of a e s] by (simp add: settlement_def terms_ok_def sound_env_def)

lemma finish_mails:
  assumes it: "as_aitems s (au_itemGuidLow a) = Some it" "it_lowguid it = au_itemGuidLow a"
  shows "delivers s (if au_bidder a = 0 then SendAuctionExpiredMail e a (hook (OnAuctionExpire a) s)
     else SendAuctionWonMail e a (SendAuctionSuccessfulMail e a (hook (OnAuctionSuccessful a) s)))
     {au_itemGuidLow a} (settlement e s a) (handover e s a)"
proof (cases "au_bidder a = 0")
  case True
  let ?s1 = "hook (OnAuctionExpire a) s"
  have "as_aitems ?s1 = as_aitems s" "faces ?s1 = faces s" by (simp_all add: hook_def faces_def)
  then show ?thesis
    using True delivers_trans [OF quiet_send(3) ExpiredMail_delivers [of ?s1 a it e]] it willing_cong [of ?s1 s e]
    by (simp add: settlement_def handover_def Let_def split del: if_split)
next
  case False
  let ?s1 = "hook (OnAuctionSuccessful a) s" and ?s2 = "SendAuctionSuccessfulMail e a (hook (OnAuctionSuccessful a) s)"
  have f: "faces ?s1 = faces s" by (simp add: hook_def faces_def)
  then have "sale_mail e ?s1 a = sale_mail e s a" using willing_cong [of ?s1 s e] by (simp add: sale_mail_def)
  then have d: "delivers s ?s2 {} (sale_mail e s a) []"
    using delivers_trans [OF quiet_send(3) SuccessfulMail_delivers [of ?s1 e a]] by simp
  then have "as_aitems ?s2 = as_aitems s" "faces ?s2 = faces s" by (auto simp: delivers_def)
  then show ?thesis
    using False delivers_trans [OF d WonMail_delivers [of ?s2 a it e]] it willing_cong [of ?s2 s e]
    by (simp add: settlement_def handover_def Let_def split del: if_split)
qed

lemma entry_item:
  assumes "auctions_ok store s" "(i, p) \<in> set (all_auctions s)"
  obtains it where "as_aitems s (au_itemGuidLow (as_heap s p)) = Some it" "it_lowguid it = au_itemGuidLow (as_heap s p)"
  using assms by (fastforce simp: auctions_ok_def items_ok_def)

lemma RemoveAuction_more [simp]:
  "posted (snd (RemoveAuction h p s)) = posted s" "parcels (snd (RemoveAuction h p s)) = parcels s"
  "faces (snd (RemoveAuction h p s)) = faces s" "purses (snd (RemoveAuction h p s)) = purses s"
  "as_t_auction (snd (RemoveAuction h p s)) = as_t_auction s" "mailed (snd (RemoveAuction h p s)) = mailed s"
  by (simp_all add: RemoveAuction_def Let_def upd_house_def hook_def FreeAuctionID_def posted_def parcels_def faces_def purses_def mailed_def)

lemma delete_more [simp]:
  "posted (delete_auction p s) = posted s" "parcels (delete_auction p s) = parcels s" "faces (delete_auction p s) = faces s"
  "purses (delete_auction p s) = purses s" "as_t_auction (delete_auction p s) = as_t_auction s" "mailed (delete_auction p s) = mailed s"
  "as_real (delete_auction p s) = as_real s" "as_heap (delete_auction p s) = as_heap s" "as_aitems (delete_auction p s) = as_aitems s"
  by (simp_all add: delete_auction_def posted_def parcels_def faces_def purses_def mailed_def)

lemma row_more [simp]:
  "posted (Auction_DeleteFromDB i s) = posted s" "parcels (Auction_DeleteFromDB i s) = parcels s" "faces (Auction_DeleteFromDB i s) = faces s"
  "purses (Auction_DeleteFromDB i s) = purses s" "core (Auction_DeleteFromDB i s) = core s" "mailed (Auction_DeleteFromDB i s) = mailed s"
  "as_aitems (Auction_DeleteFromDB i s) = as_aitems s"
  "as_t_auction (Auction_DeleteFromDB i s) = delete_where (\<lambda>r. ar_id r = i) (as_t_auction s)"
  by (simp_all add: Auction_DeleteFromDB_def posted_def parcels_def faces_def purses_def mailed_def core_def)

lemma aitem_more [simp]:
  "posted (RemoveAItem g s) = posted s" "parcels (RemoveAItem g s) = parcels s" "faces (RemoveAItem g s) = faces s"
  "purses (RemoveAItem g s) = purses s" "core (RemoveAItem g s) = core s" "mailed (RemoveAItem g s) = mailed s"
  "as_t_auction (RemoveAItem g s) = as_t_auction s" "as_aitems (RemoveAItem g s) = (as_aitems s)(g := None)"
  by (simp_all add: RemoveAItem_def posted_def parcels_def faces_def purses_def mailed_def core_def)

lemma finish_auction_ok:
  assumes e: "sound_env store e" and ok: "auctions_ok store s" and h: "h < length (as_real s)"
    and ip: "(i, p) \<in> set (ah_AuctionsMap (as_real s ! h))"
  defines "a \<equiv> as_heap s p" and "s' \<equiv> finish_auction e h p s"
  shows "kept store s s'" "as_real s' = as_real (snd (RemoveAuction h p s))" "as_heap s' = as_heap s"
    "posted s' = posted s @ settlement e s a" "parcels s' = parcels s @ handover e s a" "faces s' = faces s"
    "as_aitems s' = (as_aitems s)(au_itemGuidLow a := None)" "as_t_auction s' = delete_where (\<lambda>r. ar_id r = i) (as_t_auction s)"
proof -
  have all: "(i, p) \<in> set (all_auctions s)" using entry_all [OF h ip] .
  obtain it where it: "as_aitems s (au_itemGuidLow a) = Some it" "it_lowguid it = au_itemGuidLow a"
    using entry_item [OF ok all] unfolding a_def by metis
  have t: "terms_ok store a" "au_Id a = i" using entry_terms [OF ok all] by (simp_all add: a_def)
  define s1 where "s1 = (if au_bidder a = 0 then SendAuctionExpiredMail e a (hook (OnAuctionExpire a) s)
     else SendAuctionWonMail e a (SendAuctionSuccessfulMail e a (hook (OnAuctionSuccessful a) s)))"
  have d: "delivers s s1 {au_itemGuidLow a} (settlement e s a) (handover e s a)" unfolding s1_def by (rule finish_mails [OF it])
  let ?t = "RemoveAItem (au_itemGuidLow a) (Auction_DeleteFromDB (au_Id a) s1)"
  have s': "s' = delete_auction p (snd (RemoveAuction h p ?t))"
    by (simp add: s'_def finish_auction_def a_def s1_def Let_def)
  have c: "core ?t = core (s\<lparr>as_heap := (as_heap s)(p := as_heap s p)\<rparr>)" using d by (simp add: delivers_def)
  have pu: "purses_ok (purses ?t)" using d ok by (simp add: delivers_def auctions_ok_def)
  have it2: "as_aitems ?t g = as_aitems s g" if "g \<noteq> au_itemGuidLow (as_heap s p)" for g
    using that d by (auto simp: delivers_def a_def)
  note cl = close_entry [OF ok h ip c refl refl refl it2 pu]
  have "pursed s' = pursed s" using d s' by (simp add: pursed_def delivers_def)
  then have "wealth s' + stake a = wealth s + gold (settlement e s a)"
    using cl(2) delivers_mailed [OF d] by (simp add: wealth_def s' a_def)
  then show "kept store s s'" using cl(1) settlement_gold [OF t(1) e, of s] by (simp add: kept_def s')
  show "as_real s' = as_real (snd (RemoveAuction h p s))"
    using RemoveAuction_heap(1) [OF c refl refl refl] by (simp add: s')
  show "as_heap s' = as_heap s" using c unfolding core_eq by (simp add: s')
  show "posted s' = posted s @ settlement e s a" "parcels s' = parcels s @ handover e s a" "faces s' = faces s"
    "as_aitems s' = (as_aitems s)(au_itemGuidLow a := None)" "as_t_auction s' = delete_where (\<lambda>r. ar_id r = i) (as_t_auction s)"
    using d by (auto simp: s' delivers_def t(2))
qed

end
