(* ===== verification/Auction_End.thy ===== *)
theory Auction_End
  imports Auction_Run
begin

text \<open>
  The update of a house: it visits the auctions by ascending id; each auction whose time is over is settled and removed, and no other is
  touched but for the lock on the address of the seller.
\<close>

section \<open>Changing an auction in place\<close>

lemma terms_update:
  assumes ok: "auctions_ok store s" and ip: "(i, p) \<in> set (all_auctions s)"
    and t: "core t = core (s\<lparr>as_heap := (as_heap s)(p := a)\<rparr>)" "as_aitems t = as_aitems s" "purses_ok (purses t)"
    and a: "au_Id a = au_Id (as_heap s p)" "au_buyout a = au_buyout (as_heap s p)" "au_ownerAccount a = au_ownerAccount (as_heap s p)"
      "au_itemGuidLow a = au_itemGuidLow (as_heap s p)" "terms_ok store a"
  shows "auctions_ok store t" "staked t + stake (as_heap s p) = staked s + stake a"
proof -
  have b: "book_ok store s" using ok by (simp add: auctions_ok_def)
  have c: "as_real t = as_real s" "as_heap t = (as_heap s)(p := a)" "as_next t = as_next s" "as_freed t = as_freed s" "as_ids t = as_ids s"
    "as_houses t = as_houses s" using t(1) by (simp_all add: core_eq)
  show "staked t + stake (as_heap s p) = staked s + stake a" by (rule staked_update [OF b ip c(1,2)])
  have all: "all_auctions t = all_auctions s" using c by (simp add: all_auctions_def)
  have "book_ok store t"
  proof (rule book_heap [OF b])
    fix j q assume "(j, q) \<in> set (all_auctions s)"
    then show "au_Id (as_heap t q) = au_Id (as_heap s q) \<and> au_buyout (as_heap t q) = au_buyout (as_heap s q) \<and>
      au_ownerAccount (as_heap t q) = au_ownerAccount (as_heap s q) \<and> terms_ok store (as_heap t q)"
      using entry_terms [OF ok, of j q] a c by auto
  qed (use b c in \<open>simp_all add: book_ok_def\<close>)
  moreover have g: "au_itemGuidLow (as_heap t q) = au_itemGuidLow (as_heap s q)" for q using a c by simp
  then have "items_ok t" using ok t(2) unfolding items_ok_def all g auctions_ok_def by simp
  ultimately show "auctions_ok store t" using ok t(3) c by (simp add: auctions_ok_def houses_ok_def)
qed

section \<open>One auction\<close>

definition over :: "'f aenv \<Rightarrow> auction \<Rightarrow> bool" where
  "over e a \<longleftrightarrow> av_gameTime e > au_expireTime a"

definition unlocked :: "auction \<Rightarrow> auction" where
  "unlocked a = a\<lparr>au_lockedIpAddress := []\<rparr>"

lemma unlocked_simps [simp]:
  "over e (unlocked a) = over e a" "settlement e s (unlocked a) = settlement e s a" "handover e s (unlocked a) = handover e s a"
  "au_itemGuidLow (unlocked a) = au_itemGuidLow a" "au_Id (unlocked a) = au_Id a" "stake (unlocked a) = stake a"
  by (simp_all add: unlocked_def over_def settlement_def handover_def sale_mail_def GetAuctionCut_def stake_def Let_def)

lemma unlocked_eqD:
  assumes "unlocked a = unlocked b"
  shows "over e a = over e b" "settlement e s a = settlement e s b" "handover e s a = handover e s b"
    "au_itemGuidLow a = au_itemGuidLow b" "au_Id a = au_Id b"
  using assms unlocked_simps by metis+

lemma unlock_auction_ok:
  fixes e :: "'f aenv"
  assumes ok: "auctions_ok store s" and ip: "(i, p) \<in> set (all_auctions s)"
  defines "s' \<equiv> unlock_auction e p s"
  shows "kept store s s'" "as_real s' = as_real s" "unlocked (as_heap s' q) = unlocked (as_heap s q)"
    "posted s' = posted s" "parcels s' = parcels s" "faces s' = faces s" "as_aitems s' = as_aitems s" "as_t_auction s' = as_t_auction s"
proof -
  let ?a = "(as_heap s p)\<lparr>au_lockedIpAddress := []\<rparr>" and ?t = "upd_auction p (\<lambda>a. a\<lparr>au_lockedIpAddress := []\<rparr>) s"
  have c: "core ?t = core (s\<lparr>as_heap := (as_heap s)(p := ?a)\<rparr>)" "as_aitems ?t = as_aitems s"
    and f: "purses ?t = purses s" "posted ?t = posted s" "parcels ?t = parcels s" "faces ?t = faces s" "as_t_auction ?t = as_t_auction s"
      "mailed ?t = mailed s" "as_real ?t = as_real s"
    by (simp_all add: upd_auction_def core_def purses_def posted_def parcels_def faces_def mailed_def)
  have "purses_ok (purses ?t)" "terms_ok store ?a"
    using ok f entry_terms [OF ok ip] by (simp_all add: auctions_ok_def terms_ok_def)
  note u = terms_update [OF ok ip c this(1) _ _ _ _ this(2)]
  have "kept store s ?t" using u f by (simp add: kept_def wealth_def pursed_def stake_def)
  moreover have "kept store s s" using ok by (simp add: kept_def)
  ultimately show "kept store s s'" by (simp add: s'_def unlock_auction_def)
  show "unlocked (as_heap s' q) = unlocked (as_heap s q)" by (simp add: s'_def unlock_auction_def upd_auction_def unlocked_def)
  show "as_real s' = as_real s" "posted s' = posted s" "parcels s' = parcels s" "faces s' = faces s" "as_aitems s' = as_aitems s"
    "as_t_auction s' = as_t_auction s"
    using f c by (simp_all add: s'_def unlock_auction_def)
qed

lemma RemoveAuction_map:
  assumes "h < length (as_real s)"
  shows "ah_AuctionsMap (as_real (snd (RemoveAuction h p s)) ! k) =
    (if k = h then um_erase (au_Id (as_heap s p)) (ah_AuctionsMap (as_real s ! h)) else ah_AuctionsMap (as_real s ! k))"
  using assms by (simp add: RemoveAuction_def Let_def upd_house_def hook_def FreeAuctionID_def nth_list_update)

lemma kept_trans: "kept store s s' \<Longrightarrow> kept store s' s'' \<Longrightarrow> kept store s s''"
  by (simp add: kept_def)

lemma update_auction_ok:
  assumes e: "sound_env store e" and ok: "auctions_ok store s" and h: "h < length (as_real s)"
    and ip: "(i, p) \<in> set (ah_AuctionsMap (as_real s ! h))"
  defines "a \<equiv> as_heap s p" and "s' \<equiv> update_auction e h p s"
  shows "kept store s s'" "length (as_real s') = length (as_real s)"
    "ah_AuctionsMap (as_real s' ! k) =
       (if k = h \<and> over e a then um_erase i (ah_AuctionsMap (as_real s ! h)) else ah_AuctionsMap (as_real s ! k))"
    "unlocked (as_heap s' q) = unlocked (as_heap s q)"
    "posted s' = posted s @ (if over e a then settlement e s a else [])"
    "parcels s' = parcels s @ (if over e a then handover e s a else [])" "faces s' = faces s"
    "as_aitems s' = (if over e a then (as_aitems s)(au_itemGuidLow a := None) else as_aitems s)"
    "as_t_auction s' = (if over e a then delete_where (\<lambda>r. ar_id r = i) (as_t_auction s) else as_t_auction s)"
proof -
  let ?s1 = "unlock_auction e p s"
  note u = unlock_auction_ok [OF ok entry_all [OF h ip], of e]
  have ok1: "auctions_ok store ?s1" using u(1) by (simp add: kept_def)
  have h1: "h < length (as_real ?s1)" and ip1: "(i, p) \<in> set (ah_AuctionsMap (as_real ?s1 ! h))" using h ip u(2) by simp_all
  note f = finish_auction_ok [OF e ok1 h1 ip1]
  note eq = unlocked_eqD [OF u(3) [of p]]
  have i: "au_Id (as_heap ?s1 p) = i" using entry_terms [OF ok1 entry_all [OF h1 ip1]] by simp
  have w: "settlement e ?s1 x = settlement e s x" "handover e ?s1 x = handover e s x" for x
    using willing_cong [OF u(6), of e] by (simp_all add: settlement_def handover_def sale_mail_def)
  have s': "s' = (if over e a then finish_auction e h p ?s1 else ?s1)"
    using eq(1) [of e] by (simp add: s'_def update_auction_def over_def a_def Let_def)
  show "kept store s s'" using kept_trans [OF u(1) f(1)] u(1) by (simp add: s')
  show "length (as_real s') = length (as_real s)" using f(2) u(2) by (simp add: s')
  show "ah_AuctionsMap (as_real s' ! k) =
       (if k = h \<and> over e a then um_erase i (ah_AuctionsMap (as_real s ! h)) else ah_AuctionsMap (as_real s ! k))"
    using f(2) u(2) i RemoveAuction_map [OF h1, of p k] by (auto simp: s')
  show "unlocked (as_heap s' q) = unlocked (as_heap s q)" using f(3) u(3) by (simp add: s')
  show "posted s' = posted s @ (if over e a then settlement e s a else [])"
    "parcels s' = parcels s @ (if over e a then handover e s a else [])" "faces s' = faces s"
    "as_aitems s' = (if over e a then (as_aitems s)(au_itemGuidLow a := None) else as_aitems s)"
    "as_t_auction s' = (if over e a then delete_where (\<lambda>r. ar_id r = i) (as_t_auction s) else as_t_auction s)"
    using f(4-8) u(4-8) eq(2,3) [of e s] eq(4) w by (simp_all add: s' a_def)
qed

section \<open>The loop\<close>

definition ended :: "'f aenv \<Rightarrow> ast \<Rightarrow> (u32 \<times> aptr) list \<Rightarrow> auction list" where
  "ended e s xs = map (\<lambda>(_, p). as_heap s p) (filter (\<lambda>(_, p). over e (as_heap s p)) xs)"

lemma ended_simps [simp]:
  "ended e s [] = []" "ended e s ((i, p) # xs) = (if over e (as_heap s p) then as_heap s p # ended e s xs else ended e s xs)"
  by (simp_all add: ended_def)

lemma ended_cong:
  assumes "\<And>q. unlocked (as_heap s' q) = unlocked (as_heap s q)" "faces s' = faces s"
  shows "map (settlement e s') (ended e s' xs) = map (settlement e s) (ended e s xs)"
    "map (handover e s') (ended e s' xs) = map (handover e s) (ended e s xs)"
    "map au_itemGuidLow (ended e s' xs) = map au_itemGuidLow (ended e s xs)" "map au_Id (ended e s' xs) = map au_Id (ended e s xs)"
proof -
  have w: "settlement e s' x = settlement e s x" "handover e s' x = handover e s x" for x
    using willing_cong [OF assms(2), of e] by (simp_all add: settlement_def handover_def sale_mail_def)
  note u = unlocked_eqD [OF assms(1)]
  show "map (settlement e s') (ended e s' xs) = map (settlement e s) (ended e s xs)"
    "map (handover e s') (ended e s' xs) = map (handover e s) (ended e s xs)"
    "map au_itemGuidLow (ended e s' xs) = map au_itemGuidLow (ended e s xs)" "map au_Id (ended e s' xs) = map au_Id (ended e s xs)"
    unfolding ended_def u(1) map_map comp_def case_prod_beta u(2-5) w by (rule refl)+
qed

lemma um_erase_entry:
  "distinct (map fst m) \<Longrightarrow> (i, p) \<in> set m \<Longrightarrow> um_erase i m = filter (\<lambda>x. x \<noteq> (i, p)) m"
  unfolding um_erase_def by (rule filter_cong) (auto dest: eq_key_imp_eq_value)

lemma update_loop:
  assumes "sound_env store e" "auctions_ok store s" "h < length (as_real s)" "distinct xs" "set xs \<subseteq> set (ah_AuctionsMap (as_real s ! h))"
  defines "s' \<equiv> fold (update_auction e h) (map snd xs) s"
  shows "kept store s s' \<and> length (as_real s') = length (as_real s) \<and>
    ah_AuctionsMap (as_real s' ! h) = filter (\<lambda>x. x \<notin> set xs \<or> \<not> over e (as_heap s (snd x))) (ah_AuctionsMap (as_real s ! h)) \<and>
    (\<forall>k. k \<noteq> h \<longrightarrow> ah_AuctionsMap (as_real s' ! k) = ah_AuctionsMap (as_real s ! k)) \<and>
    (\<forall>q. unlocked (as_heap s' q) = unlocked (as_heap s q)) \<and> faces s' = faces s \<and>
    posted s' = posted s @ concat (map (settlement e s) (ended e s xs)) \<and>
    parcels s' = parcels s @ concat (map (handover e s) (ended e s xs)) \<and>
    as_aitems s' = (\<lambda>g. if g \<in> set (map au_itemGuidLow (ended e s xs)) then None else as_aitems s g) \<and>
    as_t_auction s' = filter (\<lambda>r. ar_id r \<notin> set (map au_Id (ended e s xs))) (as_t_auction s)"
  using assms(2-5) unfolding s'_def
proof (induction xs arbitrary: s)
  case Nil
  then show ?case by (auto simp: kept_def)
next
  case (Cons x xs)
  obtain i p where x: "x = (i, p)" by (cases x)
  let ?AM = "ah_AuctionsMap (as_real s ! h)" and ?s1 = "update_auction e h p s"
  have ip: "(i, p) \<in> set ?AM" using Cons.prems x by simp
  note u = update_auction_ok [OF assms(1) Cons.prems(1,2) ip]
  have dAM: "distinct (map fst ?AM)" using house_okD(3) [of store s h] Cons.prems by (simp add: auctions_ok_def)
  have AM1: "ah_AuctionsMap (as_real ?s1 ! h) = (if over e (as_heap s p) then filter (\<lambda>y. y \<noteq> (i, p)) ?AM else ?AM)"
    using u(3) [of h] um_erase_entry [OF dAM ip] by simp
  then have sub: "set xs \<subseteq> set (ah_AuctionsMap (as_real ?s1 ! h))" using Cons.prems x by auto
  have "auctions_ok store ?s1" "h < length (as_real ?s1)" "distinct xs" using u(1,2) Cons.prems by (simp_all add: kept_def)
  note IH = Cons.IH [OF this sub]
  note c = ended_cong [OF u(4,7), of e xs]
  have ov: "over e (as_heap ?s1 q) = over e (as_heap s q)" for q by (rule unlocked_eqD(1) [OF u(4)])
  have id: "au_Id (as_heap s p) = i" using entry_terms [OF Cons.prems(1) entry_all [OF Cons.prems(2) ip]] by simp
  let ?s2 = "fold (update_auction e h) (map snd xs) ?s1"
  have "kept store s ?s2" using kept_trans [OF u(1)] IH by blast
  moreover have "ah_AuctionsMap (as_real ?s2 ! h) = filter (\<lambda>y. y \<notin> set (x # xs) \<or> \<not> over e (as_heap s (snd y))) ?AM"
    using IH AM1 x ip Cons.prems(3) by (auto simp: ov filter_id_conv intro!: filter_cong)
  moreover have "posted ?s2 = posted s @ concat (map (settlement e s) (ended e s (x # xs)))"
    "parcels ?s2 = parcels s @ concat (map (handover e s) (ended e s (x # xs)))"
    using IH u(5,6) c(1,2) x by simp_all
  moreover have "as_aitems ?s2 = (\<lambda>g. if g \<in> set (map au_itemGuidLow (ended e s (x # xs))) then None else as_aitems s g)"
    using IH u(8) c(3) x by auto
  moreover have "as_t_auction ?s2 = filter (\<lambda>r. ar_id r \<notin> set (map au_Id (ended e s (x # xs)))) (as_t_auction s)"
    using IH u(9) c(4) x id by (auto simp: delete_where_def intro!: filter_cong)
  ultimately show ?case using IH u(2,3,4,7) by (simp add: x)
qed

end
