(* ===== verification/Auction_Bids.thy ===== *)
theory Auction_Bids
  imports Auction_End
begin

text \<open>
  Bids, buyouts and cancelled auctions: who pays what, and that the books are kept.
\<close>

section \<open>Paying for a bid\<close>

lemma ModifyMoney_inWorld [simp]: "pl_inWorld (ModifyMoney w d pl) = pl_inWorld pl"
  by (simp add: ModifyMoney_def SetMoney_def event_def Let_def)

lemma faces_upd_char:
  assumes "\<And>pl. pl_inWorld (f pl) = pl_inWorld pl"
  shows "faces (upd_char me f s) = faces s"
proof -
  have f: "face_of (p\<lparr>ap_player := f (ap_player p)\<rparr>) = face_of p" for p by (simp add: face_of_def assms)
  have "map (\<lambda>(g, p). (g, face_of p)) (um_update me (\<lambda>p. p\<lparr>ap_player := f (ap_player p)\<rparr>) m) = map (\<lambda>(g, p). (g, face_of p)) m" for m
    by (induction m) (auto simp: um_update_def f)
  then show ?thesis by (simp add: faces_def face_of_def upd_char_def upd_aplayer_def)
qed

lemma upd_char_mail [simp]: "posted (upd_char me f s) = posted s" "parcels (upd_char me f s) = parcels s"
  by (simp_all add: posted_def parcels_def upd_char_def upd_aplayer_def)

definition bid_cost :: "u32 \<Rightarrow> auction \<Rightarrow> u32 \<Rightarrow> u32" where
  "bid_cost me a price = (if me = au_bidder a then price - au_bid a else price)"

definition bid_refund :: "'f aenv \<Rightarrow> ast \<Rightarrow> u32 \<Rightarrow> auction \<Rightarrow> (u32 \<times> u32 \<times> bool) list" where
  "bid_refund e s me a = (if me \<noteq> au_bidder a \<and> au_bidder a \<noteq> 0 then refund_mail e s a else [])"

lemma bid_cost_le: "au_bid a \<le> price \<Longrightarrow> bid_cost me a price \<le> price"
  by (simp add: bid_cost_def word_sub_le)

lemma money_max: "purses_ok (purses s) \<Longrightarrow> player_of me s = Some p \<Longrightarrow> pl_money (ap_player p) \<le> MAX_MONEY_AMOUNT \<and> me \<noteq> 0"
  using purse_in [of me s p] by (auto simp: purses_ok_def)

lemma pay_bid_split:
  "pay_bid e me a price s =
     (let s1 = upd_char me (ModifyMoney (av_world e) (- bid_cost me a price)) s
      in if me \<noteq> au_bidder a \<and> au_bidder a \<noteq> 0 then SendAuctionOutbiddedMail e a s1 else s1)"
  by (simp add: pay_bid_def bid_cost_def Let_def)

lemma pay_bid_ok:
  assumes e: "sound_env store e" and pu: "purses_ok (purses s)" and p: "player_of me s = Some p"
    and price: "au_bid a \<le> price" "price \<le> pl_money (ap_player p)"
  defines "s' \<equiv> pay_bid e me a price s"
  shows "core s' = core s" "as_aitems s' = as_aitems s" "faces s' = faces s" "as_t_auction s' = as_t_auction s"
    "purses s' = um_update me (\<lambda>_. pl_money (ap_player p) - bid_cost me a price) (purses s)" "purses_ok (purses s')"
    "posted s' = posted s @ bid_refund e s me a" "parcels s' = parcels s"
    "pursed s' + mailed s' + unat price \<le> pursed s + mailed s + unat (au_bid a)"
proof -
  let ?d = "bid_cost me a price" and ?f = "ModifyMoney (av_world e) (- bid_cost me a price)"
  let ?s1 = "upd_char me ?f s"
  have le: "?d \<le> pl_money (ap_player p)" using bid_cost_le [OF price(1)] price(2) by (rule order.trans)
  have f: "pl_money (?f (ap_player p)) = pl_money (ap_player p) - ?d"
    using e le money_max [OF pu p] by (intro ModifyMoney_pays) (simp_all add: sound_env_def)
  note pay = purse_pays [where f = ?f, OF pu p le f]
  have fc: "faces ?s1 = faces s" by (rule faces_upd_char) simp
  have "refund_mail e ?s1 a = refund_mail e s a" using willing_cong [OF fc, of e] by (simp add: refund_mail_def)
  then have d: "delivers ?s1 s' {} (bid_refund e s me a) []"
    using OutbiddedMail_delivers [of ?s1 e a] by (auto simp: s'_def pay_bid_split bid_refund_def Let_def)
  have pp: "purses s' = purses ?s1" using d by (simp add: delivers_def)
  then show "purses_ok (purses s')" using pay by simp
  show "purses s' = um_update me (\<lambda>_. pl_money (ap_player p) - ?d) (purses s)"
    using pp purses_upd [OF pu, of me ?f] p f by simp
  show "core s' = core s" "as_aitems s' = as_aitems s" "faces s' = faces s" "as_t_auction s' = as_t_auction s"
    "posted s' = posted s @ bid_refund e s me a" "parcels s' = parcels s"
    using d fc by (auto simp: delivers_def)
  have "pursed s' = pursed ?s1" using pp by (simp add: pursed_def)
  moreover have "mailed s' = mailed s + gold (bid_refund e s me a)" using delivers_mailed [OF d] by simp
  moreover have "unat price + gold (bid_refund e s me a) \<le> unat ?d + unat (au_bid a)"
    using refund_gold [of e s a] price(1) by (auto simp: bid_refund_def bid_cost_def unat_sub word_le_nat_alt)
  ultimately show "pursed s' + mailed s' + unat price \<le> pursed s + mailed s + unat (au_bid a)" using pay(2) by linarith
qed

section \<open>Bids\<close>

lemma same_ok:
  assumes "core s' = core s" "purses s' = purses s" "as_aitems s' = as_aitems s"
  shows "auctions_ok store s' = auctions_ok store s"
  using core_book [OF assms(1)] core_houses [OF assms(1)] core_items [OF assms(1,3)] assms(2) by (simp add: auctions_ok_def)

lemma same_wealth:
  assumes "core s' = core s" "purses s' = purses s" "posted s' = posted s"
  shows "wealth s' = wealth s"
  using core_staked [OF assms(1)] assms(2,3) by (simp add: wealth_def pursed_def mailed_posted)

lemma quiet_kept: "quiet s s' \<Longrightarrow> auctions_ok store s \<Longrightarrow> kept store s s'"
  using same_ok [of s' s] same_wealth [of s' s] by (auto simp: kept_def delivers_def)

lemma place_bid_ok:
  assumes e: "sound_env store e" and ok: "auctions_ok store s" and p: "player_of me s = Some p"
    and h: "h < length (as_real s)" and iq: "(i, q) \<in> set (ah_AuctionsMap (as_real s ! h))"
    and price: "au_bid (as_heap s q) < price" "price \<le> pl_money (ap_player p)"
      "price < au_buyout (as_heap s q) \<or> au_buyout (as_heap s q) = 0"
  defines "a \<equiv> as_heap s q" and "s' \<equiv> place_bid e me q price s"
  shows "kept store s s'" "as_heap s' = (as_heap s)(q := a\<lparr>au_bidder := me, au_bid := price\<rparr>)" "as_real s' = as_real s"
    "purses s' = um_update me (\<lambda>_. pl_money (ap_player p) - bid_cost me a price) (purses s)"
    "posted s' = posted s @ bid_refund e s me a" "parcels s' = parcels s" "as_aitems s' = as_aitems s"
    "as_t_auction s' = update_where (\<lambda>r. ar_id r = i) (\<lambda>r. r\<lparr>ar_buyguid := me, ar_lastbid := price\<rparr>) (as_t_auction s)"
proof -
  have all: "(i, q) \<in> set (all_auctions s)" by (rule entry_all [OF h iq])
  have t: "terms_ok store a" "au_Id a = i" using entry_terms [OF ok all] by (simp_all add: a_def)
  have pu: "purses_ok (purses s)" using ok by (simp add: auctions_ok_def)
  let ?a = "a\<lparr>au_bidder := me, au_bid := price\<rparr>" and ?s1 = "pay_bid e me a price s"
  let ?s2 = "upd_auction q (\<lambda>a. a\<lparr>au_bidder := me, au_bid := price\<rparr>) ?s1"
  note pay = pay_bid_ok [OF e pu p, of a price, OF less_imp_le]
  note pay = pay [OF price(1) [folded a_def] price(2)]
  have c: "core ?s2 = core (s\<lparr>as_heap := (as_heap s)(q := ?a)\<rparr>)" "as_aitems ?s2 = as_aitems s" "purses ?s2 = purses ?s1"
    "posted ?s2 = posted ?s1" "parcels ?s2 = parcels ?s1" "mailed ?s2 = mailed ?s1" "as_t_auction ?s2 = as_t_auction s"
    using pay(1,2,4) by (simp_all add: core_def upd_auction_def a_def purses_def posted_def parcels_def mailed_def)
  have tn: "terms_ok store ?a"
    using t(1) price money_max [OF pu p] by (auto simp: terms_ok_def a_def)
  note u = terms_update [OF ok all c(1,2) pay(6) [folded c(3)], simplified]
  have u: "auctions_ok store ?s2" "staked ?s2 + stake a = staked s + stake ?a"
    using u tn by (simp_all add: a_def)
  let ?a1 = "as_heap ?s2 q"
  have a1: "?a1 = ?a" using c(1) by (simp add: core_eq)
  let ?s3 = "if_in_world (au_owner ?a1) (SendAuctionOwnerNotification (au_owner ?a1) ?a1 False) ?s2"
  let ?s4 = "?s3\<lparr>as_t_auction := update_where (\<lambda>r. ar_id r = au_Id ?a1) (\<lambda>r. r\<lparr>ar_buyguid := au_bidder ?a1, ar_lastbid := au_bid ?a1\<rparr>) (as_t_auction ?s3)\<rparr>"
  have q3: "quiet ?s2 ?s3" by (rule quiet_if_in_world) simp
  have d: "quiet ?s4 s'"
    using delivers_trans [OF quiet_notify(4) quiet_save_gold] by (simp add: s'_def place_bid_def a_def Let_def)
  have k: "core s' = core ?s2" "purses s' = purses ?s2" "as_aitems s' = as_aitems ?s2" "posted s' = posted ?s2" "parcels s' = parcels ?s2"
    using q3 d by (auto simp: delivers_def core_def purses_def posted_def parcels_def)
  have "wealth s' = wealth ?s2" by (rule same_wealth [OF k(1,2,4)])
  moreover have "wealth ?s2 \<le> wealth s"
    using u(2) pay(9) c(3,6) by (simp add: wealth_def pursed_def stake_def a_def)
  moreover have "auctions_ok store s'"
    using u(1) same_ok [OF k(1-3)] by simp
  ultimately show "kept store s s'" by (simp add: kept_def)
  show "as_heap s' = (as_heap s)(q := ?a)" "as_real s' = as_real s" using k(1) c(1) by (simp_all add: core_eq)
  show "purses s' = um_update me (\<lambda>_. pl_money (ap_player p) - bid_cost me a price) (purses s)"
    "posted s' = posted s @ bid_refund e s me a" "parcels s' = parcels s" "as_aitems s' = as_aitems s"
    using k c(2-5) pay(5,7,8) by simp_all
  show "as_t_auction s' = update_where (\<lambda>r. ar_id r = i) (\<lambda>r. r\<lparr>ar_buyguid := me, ar_lastbid := price\<rparr>) (as_t_auction s)"
    using d q3 c(7) a1 t(2) by (simp add: delivers_def)
qed

section \<open>Buyouts\<close>

lemma buyout_mails:
  assumes it: "as_aitems s (au_itemGuidLow a) = Some it" "it_lowguid it = au_itemGuidLow a"
  shows "delivers s (RemoveAItem (au_itemGuidLow a) (SendAuctionCommandResult me (Some a) AUCTION_BID_PLACED AUCTION_OK no_error
      (SendAuctionWonMail e a (SendAuctionSuccessfulMail e a s)))) {au_itemGuidLow a}
     (sale_mail e s a @ (if willing e s (au_bidder a) then [(au_bidder a, 0, True)] else []))
     (if willing e s (au_bidder a) then [(au_bidder a, au_itemGuidLow a)] else [])"
proof -
  let ?s1 = "SendAuctionSuccessfulMail e a s" and ?s2 = "SendAuctionWonMail e a (SendAuctionSuccessfulMail e a s)"
  let ?s3 = "SendAuctionCommandResult me (Some a) AUCTION_BID_PLACED AUCTION_OK no_error ?s2"
  have d: "delivers s ?s1 {} (sale_mail e s a) []" by (rule SuccessfulMail_delivers)
  then have "as_aitems ?s1 = as_aitems s" "faces ?s1 = faces s" by (auto simp: delivers_def)
  then have "delivers ?s1 ?s2 {au_itemGuidLow a} (if willing e s (au_bidder a) then [(au_bidder a, 0, True)] else [])
     (if willing e s (au_bidder a) then [(au_bidder a, au_itemGuidLow a)] else [])"
    using WonMail_delivers [of ?s1 a it e] it willing_cong [of ?s1 s e] by (simp split del: if_split)
  from delivers_trans [OF delivers_trans [OF delivers_trans [OF d this] quiet_notify(4)] delivers_RemoveAItem [where g = "au_itemGuidLow a"]]
  show ?thesis by (simp split del: if_split)
qed

lemma delete_row_commute: "delete_auction q (Auction_DeleteFromDB i s) = Auction_DeleteFromDB i (delete_auction q s)"
  by (simp add: delete_auction_def Auction_DeleteFromDB_def)

lemma sale_bounded:
  assumes e: "sound_env store e" and t: "terms_ok store a" and b: "b \<le> MAX_MONEY_AMOUNT"
  shows "gold (sale_mail e s (a\<lparr>au_bidder := me, au_bid := b\<rparr>)) \<le> unat b + unat (au_deposit a)"
proof -
  let ?a = "a\<lparr>au_bidder := me, au_bid := b\<rparr>"
  have "au_house ?a \<in> ran store" using t by (simp add: terms_ok_def)
  then have "GetAuctionCut e ?a \<le> au_bid ?a" using e unfolding sound_env_def by blast
  moreover have "au_deposit ?a \<le> MAX_MONEY_AMOUNT" using t by (simp add: terms_ok_def)
  ultimately show ?thesis using sale_gold [of ?a e s] b by (simp add: stake_def)
qed

lemma buyout_auction_ok:
  assumes e: "sound_env store e" and ok: "auctions_ok store s" and p: "player_of me s = Some p"
    and h: "h < length (as_real s)" and iq: "(i, q) \<in> set (ah_AuctionsMap (as_real s ! h))"
    and price: "au_buyout (as_heap s q) \<noteq> 0" "au_buyout (as_heap s q) \<le> pl_money (ap_player p)"
  defines "a \<equiv> as_heap s q" and "s' \<equiv> buyout_auction e me h q s"
  shows "kept store s s'"
    "ah_AuctionsMap (as_real s' ! h) = um_erase i (ah_AuctionsMap (as_real s ! h))"
    "purses s' = um_update me (\<lambda>_. pl_money (ap_player p) - bid_cost me a (au_buyout a)) (purses s)"
    "posted s' = posted s @ bid_refund e s me a @ sale_mail e s (a\<lparr>au_bidder := me, au_bid := au_buyout a\<rparr>) @
       (if willing e s me then [(me, 0, True)] else [])"
    "parcels s' = parcels s @ (if willing e s me then [(me, au_itemGuidLow a)] else [])"
    "as_aitems s' = (as_aitems s)(au_itemGuidLow a := None)"
    "as_t_auction s' = delete_where (\<lambda>r. ar_id r = i) (as_t_auction s)"
proof -
  have all: "(i, q) \<in> set (all_auctions s)" by (rule entry_all [OF h iq])
  have t: "terms_ok store a" "au_Id a = i" using entry_terms [OF ok all] by (simp_all add: a_def)
  have pu: "purses_ok (purses s)" using ok by (simp add: auctions_ok_def)
  obtain it where it: "as_aitems s (au_itemGuidLow a) = Some it" "it_lowguid it = au_itemGuidLow a"
    using entry_item [OF ok all] unfolding a_def by metis
  let ?b = "au_buyout a"
  let ?a = "a\<lparr>au_bidder := me, au_bid := ?b\<rparr>" and ?s1 = "pay_bid e me a ?b s"
  let ?s2 = "upd_auction q (\<lambda>a. a\<lparr>au_bidder := me, au_bid := au_buyout a\<rparr>) ?s1"
  have lt: "au_bid a < ?b" using t(1) price by (auto simp: terms_ok_def a_def)
  note pay = pay_bid_ok [OF e pu p less_imp_le [OF lt] price(2) [folded a_def]]
  have c: "core ?s2 = core (s\<lparr>as_heap := (as_heap s)(q := ?a)\<rparr>)" "as_aitems ?s2 = as_aitems s" "purses ?s2 = purses ?s1"
    "posted ?s2 = posted ?s1" "parcels ?s2 = parcels ?s1" "faces ?s2 = faces s" "as_t_auction ?s2 = as_t_auction s"
    using pay(1-4) by (simp_all add: core_def upd_auction_def a_def purses_def posted_def parcels_def faces_def)
  have a1: "as_heap ?s2 q = ?a" using c(1) by (simp add: core_eq)
  let ?t = "RemoveAItem (au_itemGuidLow ?a) (SendAuctionCommandResult me (Some ?a) AUCTION_BID_PLACED AUCTION_OK no_error
      (SendAuctionWonMail e ?a (SendAuctionSuccessfulMail e ?a ?s2)))"
  have sm: "sale_mail e ?s2 ?a = sale_mail e s ?a" "willing e ?s2 me = willing e s me"
    using willing_cong [OF c(6), of e] by (simp_all add: sale_mail_def)
  have d: "delivers ?s2 ?t {au_itemGuidLow a} (sale_mail e s ?a @ (if willing e s me then [(me, 0, True)] else []))
     (if willing e s me then [(me, au_itemGuidLow a)] else [])"
    using buyout_mails [of ?s2 ?a it me e] it c(2) sm by (simp split del: if_split cong: if_cong)
  have ct: "core ?t = core (s\<lparr>as_heap := (as_heap s)(q := ?a)\<rparr>)" using d c(1) by (simp add: delivers_def)
  have put: "purses_ok (purses ?t)" using d c(3) pay(6) by (simp add: delivers_def)
  have itt: "as_aitems ?t g = as_aitems s g" if "g \<noteq> au_itemGuidLow (as_heap s q)" for g
    using that d c(2) by (auto simp: delivers_def a_def)
  let ?r = "delete_auction q (snd (RemoveAuction h q ?t))"
  have keys: "au_Id ?a = au_Id (as_heap s q)" "au_buyout ?a = au_buyout (as_heap s q)" "au_ownerAccount ?a = au_ownerAccount (as_heap s q)"
    by (simp_all add: a_def)
  note cl = close_entry [OF ok h iq ct keys itt put]
  have "s' = save_gold me (Auction_DeleteFromDB i ?r)"
    by (simp add: s'_def buyout_auction_def a_def [symmetric] Let_def a1 t(2) delete_row_commute)
  then have d2: "quiet (Auction_DeleteFromDB i ?r) s'" by simp
  have k: "core s' = core ?r" "purses s' = purses ?t" "posted s' = posted ?t" "parcels s' = parcels ?t" "as_aitems s' = as_aitems ?t"
    "as_t_auction s' = delete_where (\<lambda>r. ar_id r = i) (as_t_auction ?t)"
    using d2 by (auto simp: delivers_def)
  have "au_bid ?a \<le> MAX_MONEY_AMOUNT" using price money_max [OF pu p] by (auto simp: a_def)
  then have g: "gold (sale_mail e s ?a) \<le> unat ?b + unat (au_deposit a)" using sale_bounded [OF e t(1), of ?b s me] by simp
  have "mailed ?t = mailed ?s1 + gold (sale_mail e s ?a)" using delivers_mailed [OF d] c(4) by (simp add: mailed_posted)
  moreover have "pursed ?t = pursed ?s1" using d c(3) by (simp add: delivers_def pursed_def)
  moreover have "staked s' = staked ?r" by (rule core_staked [OF k(1)])
  ultimately have "wealth s' \<le> wealth s"
    using cl(2) pay(9) g k(2,3) by (simp add: wealth_def pursed_def mailed_posted stake_def a_def [symmetric])
  moreover have "auctions_ok store s'" using cl(1) same_ok [OF k(1)] k(2,5) by simp
  ultimately show "kept store s s'" by (simp add: kept_def)
  show "ah_AuctionsMap (as_real s' ! h) = um_erase i (ah_AuctionsMap (as_real s ! h))"
    using k(1) RemoveAuction_heap(1) [OF ct keys, of h] RemoveAuction_map [OF h, of q h] t(2) by (simp add: core_eq a_def)
  show "purses s' = um_update me (\<lambda>_. pl_money (ap_player p) - bid_cost me a ?b) (purses s)"
    using k(2) d c(3) pay(5) by (simp add: delivers_def)
  show "posted s' = posted s @ bid_refund e s me a @ sale_mail e s ?a @ (if willing e s me then [(me, 0, True)] else [])"
    "parcels s' = parcels s @ (if willing e s me then [(me, au_itemGuidLow a)] else [])"
    using k(3,4) d c(4,5) pay(7,8) by (simp_all add: delivers_def)
  show "as_aitems s' = (as_aitems s)(au_itemGuidLow a := None)" using k(5) itt by (auto simp: a_def)
  show "as_t_auction s' = delete_where (\<lambda>r. ar_id r = i) (as_t_auction s)" using k(6) d c(7) by (simp add: delivers_def)
qed

section \<open>Cancelled auctions\<close>

lemma purse_of: "map_option (\<lambda>p. pl_money (ap_player p)) (player_of me s) = map_of (purses s) me"
proof -
  have "map_option (\<lambda>p. pl_money (ap_player p)) (map_of m me) = map_of (map (\<lambda>(g, p). (g, pl_money (ap_player p))) m) me" for m
    by (induction m) auto
  then show ?thesis by (simp add: player_of_def purses_def)
qed

lemma player_after:
  assumes "purses s' = purses s" "player_of me s = Some p"
  obtains p' where "player_of me s' = Some p'" "pl_money (ap_player p') = pl_money (ap_player p)"
proof -
  have "map_option (\<lambda>p. pl_money (ap_player p)) (player_of me s') = Some (pl_money (ap_player p))"
    using purse_of [of me s] purse_of [of me s'] assms by simp
  then show ?thesis using that by auto
qed

text \<open>The owner pays the cut, and the bidder gets the bid back.\<close>

lemma cancel_payment:
  assumes e: "sound_env store e" and pu: "purses_ok (purses s)" and p: "player_of me s = Some p"
    and a: "au_bidder a > 0 \<Longrightarrow> GetAuctionCut e a \<le> pl_money (ap_player p)"
  defines "s' \<equiv> if au_bidder a > 0
      then upd_char me (ModifyMoney (av_world e) (- GetAuctionCut e a)) (SendAuctionCancelledToBidderMail e a s) else s"
  shows "core s' = core s" "as_aitems s' = as_aitems s" "purses_ok (purses s')" "pursed s' + mailed s' \<le> pursed s + mailed s + unat (au_bid a)"
proof -
  let ?m = "SendAuctionCancelledToBidderMail e a s" and ?f = "ModifyMoney (av_world e) (- GetAuctionCut e a)"
  have d: "delivers s ?m {} (refund_mail e s a) []" by (rule CancelledMail_delivers)
  then have m: "core ?m = core s" "purses ?m = purses s" "as_aitems ?m = as_aitems s" by (auto simp: delivers_def)
  obtain p' where p': "player_of me ?m = Some p'" "pl_money (ap_player p') = pl_money (ap_player p)" using player_after [OF m(2) p] .
  have "purses_ok (purses s') \<and> pursed s' + mailed s' \<le> pursed s + mailed s + unat (au_bid a)"
  proof (cases "au_bidder a > 0")
    case True
    then have le: "GetAuctionCut e a \<le> pl_money (ap_player p')" using a p' by simp
    have "pl_money (?f (ap_player p')) = pl_money (ap_player p') - GetAuctionCut e a"
      using e le money_max [OF pu p] p' by (intro ModifyMoney_pays) (simp_all add: sound_env_def)
    note pay = purse_pays [where f = ?f, OF _ p'(1) le this]
    have "mailed ?m \<le> mailed s + unat (au_bid a)" using delivers_mailed [OF d] refund_gold [of e s a] by simp
    moreover have "pursed ?m = pursed s" using m by (simp add: pursed_def)
    ultimately show ?thesis using pay pu m True by (simp add: s'_def)
  qed (use pu in \<open>simp add: s'_def\<close>)
  then show "purses_ok (purses s')" "pursed s' + mailed s' \<le> pursed s + mailed s + unat (au_bid a)" by simp_all
  show "core s' = core s" "as_aitems s' = as_aitems s" using m by (simp_all add: s'_def)
qed

lemma cancel_auction_ok:
  assumes e: "sound_env store e" and ok: "auctions_ok store s" and p: "player_of me s = Some p"
    and h: "h < length (as_real s)" and iq: "(i, q) \<in> set (ah_AuctionsMap (as_real s ! h))"
    and money: "au_bidder (as_heap s q) > 0 \<Longrightarrow> GetAuctionCut e (as_heap s q) \<le> pl_money (ap_player p)"
  shows "kept store s (cancel_auction e me h q it s)"
proof -
  have pu: "purses_ok (purses s)" using ok by (simp add: auctions_ok_def)
  define a where "a = as_heap s q"
  define s1 where "s1 = (if au_bidder a > 0
      then upd_char me (ModifyMoney (av_world e) (- GetAuctionCut e a)) (SendAuctionCancelledToBidderMail e a s) else s)"
  note pay = cancel_payment [OF e pu p money, folded a_def, folded s1_def]
  let ?s2 = "SendMailTo e me a ((draft (mail_subject a AUCTION_CANCELED))\<lparr>md_item := Some it\<rparr>) s1"
  have d: "delivers s1 ?s2 {} [(me, 0, True)] [(me, it_lowguid it)]" by (rule send_item)
  have a2: "as_heap ?s2 q = a" using d pay(1) by (simp add: delivers_def core_eq a_def)
  let ?t = "RemoveAItem (au_itemGuidLow a) (save_gold me (Auction_DeleteFromDB (au_Id a)
     (SendAuctionCommandResult me (Some a) AUCTION_REMOVED AUCTION_OK no_error ?s2)))"
  let ?u = "Auction_DeleteFromDB (au_Id a) (SendAuctionCommandResult me (Some a) AUCTION_REMOVED AUCTION_OK no_error ?s2)"
  have s': "cancel_auction e me h q it s = delete_auction q (snd (RemoveAuction h q ?t))"
    by (simp add: cancel_auction_def close_auction_def a_def [symmetric] s1_def [symmetric] Let_def a2)
  have u: "quiet ?u (save_gold me ?u)" "quiet ?s2 (SendAuctionCommandResult me (Some a) AUCTION_REMOVED AUCTION_OK no_error ?s2)" by simp_all
  have f: "core ?t = core s1" "purses ?t = purses s1" "mailed ?t = mailed s1" "as_aitems ?t = (as_aitems s1)(au_itemGuidLow a := None)"
    using d u by (auto simp: delivers_def mailed_posted)
  have c: "core ?t = core (s\<lparr>as_heap := (as_heap s)(q := as_heap s q)\<rparr>)" using f(1) pay(1) by simp
  have it: "as_aitems ?t g = as_aitems s g" if "g \<noteq> au_itemGuidLow (as_heap s q)" for g using that f(4) pay(2) by (simp add: a_def)
  note cl = close_entry [OF ok h iq c refl refl refl it pay(3) [folded f(2)]]
  have "pursed ?t + mailed ?t \<le> pursed s + mailed s + unat (au_bid a)" using pay(4) f by (simp add: pursed_def)
  then have "wealth (cancel_auction e me h q it s) \<le> wealth s"
    using cl(2) unfolding s' by (simp add: wealth_def pursed_def stake_def a_def)
  then show ?thesis using cl(1) by (simp add: kept_def s')
qed

section \<open>Dropped auctions\<close>

lemma RemoveAuction_ok:
  assumes ok: "auctions_ok store s" and h: "h < length (as_real s)" and ip: "(i, p) \<in> set (ah_AuctionsMap (as_real s ! h))"
  shows "kept store s (snd (RemoveAuction h p s))"
proof -
  have b: "book_ok store s" using ok by (simp add: auctions_ok_def)
  let ?s = "snd (RemoveAuction h p s)"
  have m: "add_mset (i, p) (mset (all_auctions ?s)) = mset (all_auctions s)" by (rule RemoveAuction_all [OF b h ip])
  note d = distinct_add_mset [OF m]
  have "items_ok ?s" using ok d(1) [of "\<lambda>(_, q). au_itemGuidLow (as_heap s q)"] d(2) by (simp add: auctions_ok_def items_ok_def)
  moreover have "houses_ok store ?s" using ok by (simp add: auctions_ok_def houses_ok_def)
  ultimately have "auctions_ok store ?s" using RemoveAuction_book [OF b h ip] ok by (simp add: auctions_ok_def)
  moreover have "staked ?s \<le> staked s" unfolding staked_def sum_add_mset [OF m] by simp
  ultimately show ?thesis by (simp add: kept_def wealth_def pursed_def)
qed

lemma RemoveAll_loop:
  "auctions_ok store s \<Longrightarrow> h < length (as_real s) \<Longrightarrow> distinct ps \<Longrightarrow> set ps \<subseteq> snd ` set (ah_AuctionsMap (as_real s ! h)) \<Longrightarrow>
   kept store s (fold (\<lambda>p s. snd (RemoveAuction h p s)) ps s)"
proof (induction ps arbitrary: s)
  case (Cons p ps)
  obtain i where ip: "(i, p) \<in> set (ah_AuctionsMap (as_real s ! h))" using Cons.prems(4) by auto
  let ?s = "snd (RemoveAuction h p s)"
  have k: "kept store s ?s" by (rule RemoveAuction_ok [OF Cons.prems(1,2) ip])
  have id: "au_Id (as_heap s p) = i" using entry_terms [OF Cons.prems(1) entry_all [OF Cons.prems(2) ip]] by simp
  have dAM: "distinct (map fst (ah_AuctionsMap (as_real s ! h)))"
    using house_okD(3) [of store s h] Cons.prems by (simp add: auctions_ok_def)
  have "ah_AuctionsMap (as_real ?s ! h) = filter (\<lambda>x. x \<noteq> (i, p)) (ah_AuctionsMap (as_real s ! h))"
    using RemoveAuction_map [OF Cons.prems(2), of p h] um_erase_entry [OF dAM ip] id by simp
  then have "set ps \<subseteq> snd ` set (ah_AuctionsMap (as_real ?s ! h))" using Cons.prems(3,4) by force
  then have "kept store ?s (fold (\<lambda>p s. snd (RemoveAuction h p s)) ps ?s)"
    using k Cons.prems by (intro Cons.IH) (simp_all add: kept_def)
  then show ?case using kept_trans [OF k] by simp
qed (simp add: kept_def)

lemma house_found:
  assumes "sound_env store e" "auctions_ok store s" "GetAuctionHouseEntry e u = Some he"
  obtains h where "GetAuctionsMap he s = Some h" "h < length (as_real s)" "he \<in> ran store"
proof -
  obtain k where k: "store k = Some he" using assms(1,3) by (auto simp: GetAuctionHouseEntry_def sound_env_def)
  then have "he \<in> ran store" by (auto simp: ran_def)
  moreover obtain h where "h < length (as_real s)" "as_houses s (he_houseId he) = Some h"
    using k assms(2) unfolding auctions_ok_def houses_ok_def by blast
  ultimately show ?thesis using that by (simp add: GetAuctionsMap_def)
qed

lemma drop_auctions_ok:
  assumes e: "sound_env store e" and ok: "auctions_ok store s"
  shows "kept store s (drop_auctions e me s)"
proof -
  have "kept store s (RemoveAllAuctions h account me s)" if h: "h < length (as_real s)" for h account
  proof -
    let ?AM = "ah_AuctionsMap (as_real s ! h)" and ?Ac = "ah_AccountAuctionMap (as_real s ! h)"
    have b: "book_ok store s" using ok by (simp add: auctions_ok_def)
    have "mset ?Ac = mset (map (\<lambda>(_, p). (au_ownerAccount (as_heap s p), p)) ?AM)"
      using house_okD(1) [OF b h] by (simp add: house_ok_def)
    then have "mset (map snd ?Ac) = mset (map snd (map (\<lambda>(_, p). (au_ownerAccount (as_heap s p), p)) ?AM))" by (simp only: mset_map)
    then have "mset (map snd ?Ac) = mset (map snd ?AM)" by (simp only: map_map comp_def case_prod_beta snd_conv)
    moreover have "distinct (map snd ?AM)"
      using b h by (auto simp: book_ok_def all_auctions_def map_concat distinct_concat_iff)
    ultimately have "distinct (map snd ?Ac)" "snd ` set ?Ac = snd ` set ?AM"
      using mset_eq_imp_distinct_iff mset_eq_setD by (metis, metis set_map)
    then show ?thesis
      unfolding RemoveAllAuctions_def Let_def
      by (intro RemoveAll_loop [OF ok h]) (auto simp: distinct_map inj_on_def intro!: distinct_filter)
  qed
  moreover have "h < length (as_real s)" if "GetAuctionHouseEntry e u = Some he" "GetAuctionsMap he s = Some h" for u he h
    using house_found [OF e ok that(1)] that(2) by auto
  ultimately show ?thesis using ok by (auto simp: drop_auctions_def kept_def split: option.splits bind_splits)
qed

end
