(* ===== verification/Auction_Sell.thy ===== *)
theory Auction_Sell
  imports Auction_Bids
begin

text \<open>Selling: the item leaves the inventory and a new auction with a fresh id is put into the books, against a deposit.\<close>

section \<open>The inventory\<close>

text \<open>What taking an item out of the inventory leaves alone.\<close>

definition same_purse :: "player \<Rightarrow> player \<Rightarrow> bool" where
  "same_purse pl pl' \<longleftrightarrow> pl_money pl' = pl_money pl \<and> pl_inWorld pl' = pl_inWorld pl \<and>
     (\<forall>c. it_lowguid (pl_heap pl' c) = it_lowguid (pl_heap pl c))"

lemma same_purse_refl [simp]: "same_purse pl pl"
  by (simp add: same_purse_def)

lemma same_purse_trans: "same_purse pl pl' \<Longrightarrow> same_purse pl' pl'' \<Longrightarrow> same_purse pl pl''"
  by (simp add: same_purse_def)

lemma same_purse_event [simp]: "same_purse pl (event ev pl') = same_purse pl pl'"
  by (simp add: same_purse_def event_def)

lemma same_purse_events [simp]: "same_purse pl (in_world_update u evs pl') = same_purse pl pl'"
proof -
  have "same_purse pl (fold event evs pl') = same_purse pl pl'" for pl' by (induction evs arbitrary: pl') simp_all
  then show ?thesis by (simp add: in_world_update_def)
qed

lemma same_purse_upd: "(\<And>it. it_lowguid (f it) = it_lowguid it) \<Longrightarrow> same_purse pl (upd_item p f pl') = same_purse pl pl'"
  by (auto simp: same_purse_def upd_item_def)

lemma same_purse_slots [simp]: "same_purse pl (pl'\<lparr>pl_items := xs\<rparr>) = same_purse pl pl'" "same_purse pl (pl'\<lparr>pl_queue := ys\<rparr>) = same_purse pl pl'"
    "same_purse pl (pl'\<lparr>pl_freed := zs\<rparr>) = same_purse pl pl'"
  by (simp_all add: same_purse_def)

lemma same_purse_queue [simp]:
  "same_purse pl (AddToUpdateQueueOf p b pl') = same_purse pl pl'" "same_purse pl (RemoveFromUpdateQueueOf p b pl') = same_purse pl pl'"
  by (simp_all add: AddToUpdateQueueOf_def RemoveFromUpdateQueueOf_def Let_def same_purse_upd)

lemma same_purse_SetState [simp]: "same_purse pl (SetState p st b pl') = same_purse pl pl'"
  by (simp add: SetState_def delete_item_def same_purse_upd)

lemma same_purse_ClearEnchantment [simp]: "same_purse pl (ClearEnchantment p k pl') = same_purse pl pl'"
  by (simp add: ClearEnchantment_def same_purse_upd)

lemma same_purse_unequip [simp]: "same_purse pl (unequip_item w slot p pl') = same_purse pl pl'"
  by (simp add: unequip_item_def Let_def)

lemma same_purse_Bag [simp]: "same_purse pl (Bag_RemoveItem b slot pl') = same_purse pl pl'"
  by (simp add: Bag_RemoveItem_def Let_def same_purse_upd split: option.split)

lemma same_purse_RemoveItem: "same_purse pl (RemoveItem w bag slot u pl') = same_purse pl pl'"
  by (simp add: RemoveItem_def Let_def same_purse_upd split: option.split)

lemma same_purse_Move: "same_purse pl (MoveItemFromInventory w bag slot u pl)"
  by (simp add: MoveItemFromInventory_def Let_def same_purse_RemoveItem split: option.split)

section \<open>A new auction\<close>

lemma new_auction_book:
  assumes b: "book_ok store s" and h: "h < length (as_real s)" and g: "GenerateAuctionID s = (i, s1)" "i \<noteq> 0"
    and a: "au_Id a = i" "terms_ok store a" and n: "new_auction a s1 = (q, s2)"
  shows "book_ok store (AddAuction h q s2)" "mset (all_auctions (AddAuction h q s2)) = add_mset (i, q) (mset (all_auctions s))"
    "\<And>j p. (j, p) \<in> set (all_auctions s) \<Longrightarrow> as_heap (AddAuction h q s2) p = as_heap s p" "as_heap (AddAuction h q s2) q = a"
proof -
  note f = GenerateAuctionID_fresh [OF _ g]
  note fr = GenerateAuctionID_frame [OF g(1)]
  have q: "q = as_next s" and s2: "s2 = s1\<lparr>as_heap := (as_heap s1)(q := a), as_next := Suc (as_next s1)\<rparr>"
    using n fr by (auto simp: new_auction_def)
  have srt: "sorted_wrt (<) (as_ids s)" using b by (simp add: book_ok_def)
  have lt: "p < q \<and> j \<in> set (as_ids s)" if "(j, p) \<in> set (all_auctions s)" for j p
    using that b q by (auto simp: book_ok_def entry_ok_def)
  have all: "all_auctions s2 = all_auctions s" using fr by (simp add: s2 all_auctions_def)
  have b2: "book_ok store s2"
  proof (rule book_heap [OF b])
    fix j p assume jp: "(j, p) \<in> set (all_auctions s)"
    then have "entry_ok store s (j, p)" "p \<noteq> q" using b lt [OF jp] by (auto simp: book_ok_def)
    then show "au_Id (as_heap s2 p) = au_Id (as_heap s p) \<and> au_buyout (as_heap s2 p) = au_buyout (as_heap s p) \<and>
      au_ownerAccount (as_heap s2 p) = au_ownerAccount (as_heap s p) \<and> terms_ok store (as_heap s2 p)"
      using fr by (simp add: s2 entry_ok_def)
  qed (use fr f [OF srt] in \<open>auto simp: s2\<close>)
  have id: "au_Id (as_heap s2 q) = i" using a by (simp add: s2)
  have new: "au_Id (as_heap s2 q) \<notin> fst ` set (all_auctions s2)" "q \<notin> snd ` set (all_auctions s2)"
    using lt f(1) [OF srt] id by (force simp: all)+
  have "q \<notin> set (as_freed s2)" using b q fr by (auto simp: book_ok_def s2)
  then have "entry_ok store s2 (au_Id (as_heap s2 q), q)"
    using a f(3) [OF srt] fr q id by (simp add: s2 entry_ok_def)
  note add = AddAuction_book [OF b2 _ new this] AddAuction_all [OF _ new(1)]
  show "book_ok store (AddAuction h q s2)" "mset (all_auctions (AddAuction h q s2)) = add_mset (i, q) (mset (all_auctions s))"
    using add h fr id all by (simp_all add: s2)
  show "as_heap (AddAuction h q s2) q = a" by (simp add: s2)
  show "as_heap (AddAuction h q s2) p = as_heap s p" if "(j, p) \<in> set (all_auctions s)" for j p
    using lt [OF that] fr by (simp add: s2)
qed

text \<open>The books, with the item of the new auction.\<close>

lemma new_items:
  assumes io: "items_ok s" and m: "mset (all_auctions s') = add_mset (i, q) (mset (all_auctions s))"
    and heap: "\<And>j p. (j, p) \<in> set (all_auctions s) \<Longrightarrow> as_heap s' p = as_heap s p"
    and it: "as_aitems s (it_lowguid it) = None" "as_aitems s' = (as_aitems s)(it_lowguid it \<mapsto> it)"
      "au_itemGuidLow (as_heap s' q) = it_lowguid it"
  shows "items_ok s'"
proof -
  note d = distinct_add_mset [OF m [symmetric]]
  let ?g = "\<lambda>(_, p). au_itemGuidLow (as_heap s' p)"
  have g: "?g x = (case x of (_, p) \<Rightarrow> au_itemGuidLow (as_heap s p))" if "x \<in> set (all_auctions s)" for x
  proof -
    obtain j p where "x = (j, p)" by (cases x)
    then show ?thesis using that heap by simp
  qed
  have "map ?g (all_auctions s) = map (\<lambda>(_, p). au_itemGuidLow (as_heap s p)) (all_auctions s)" using g by (intro map_cong) auto
  then have "distinct (map ?g (all_auctions s))" using io unfolding items_ok_def by metis
  moreover have old: "\<exists>it. as_aitems s (au_itemGuidLow (as_heap s' p)) = Some it \<and> it_lowguid it = au_itemGuidLow (as_heap s' p)"
    if "(j, p) \<in> set (all_auctions s)" for j p
    using that io heap [OF that] by (auto simp: items_ok_def)
  then have "?g (i, q) \<notin> ?g ` set (all_auctions s)" using it by force
  ultimately have "distinct (map ?g (all_auctions s'))" using d(1) [of ?g] by simp
  moreover have "\<exists>it. as_aitems s' (au_itemGuidLow (as_heap s' p)) = Some it \<and> it_lowguid it = au_itemGuidLow (as_heap s' p)"
    if "(j, p) \<in> set (all_auctions s')" for j p
  proof (cases "(j, p) \<in> set (all_auctions s)")
    case True
    then show ?thesis using old [OF True] it by auto
  next
    case False
    then show ?thesis using that d(2) it by auto
  qed
  ultimately show ?thesis by (auto simp: items_ok_def)
qed

lemma added_auction_ok:
  assumes ok: "auctions_ok store s" and h: "h < length (as_real s)" and g: "GenerateAuctionID s = (i, s1)" "i \<noteq> 0"
    and a: "au_Id a = i" "terms_ok store a" "au_itemGuidLow a = it_lowguid it" and n: "new_auction a s1 = (q, s2)"
    and it: "as_aitems s (it_lowguid it) = None"
  obtains s4 where "AddAItem it (AddAuction h q s2) = Some s4" "auctions_ok store s4" "staked s4 = stake a + staked s"
    "as_players s4 = as_players s" "as_t_mail s4 = as_t_mail s"
proof
  have b: "book_ok store s" using ok by (simp add: auctions_ok_def)
  let ?s3 = "AddAuction h q s2"
  note nb = new_auction_book [OF b h g a(1,2) n]
  note fr = GenerateAuctionID_frame [OF g(1)]
  have s2: "as_aitems s2 = as_aitems s" "as_players s2 = as_players s" "as_t_mail s2 = as_t_mail s" "as_houses s2 = as_houses s"
    "length (as_real s2) = length (as_real s)"
    using n fr by (auto simp: new_auction_def)
  let ?s4 = "?s3\<lparr>as_aitems := (as_aitems s)(it_lowguid it \<mapsto> it)\<rparr>"
  show "AddAItem it ?s3 = Some ?s4" using it s2 by (simp add: AddAItem_def)
  have all4: "all_auctions ?s4 = all_auctions ?s3" by (simp add: all_auctions_def)
  have "book_ok store ?s4" using nb(1) core_book [of ?s4 ?s3] by (simp add: core_def)
  moreover have "items_ok ?s4"
  proof (rule new_items [of s _ i q it])
    show "mset (all_auctions ?s4) = add_mset (i, q) (mset (all_auctions s))" using nb(2) all4 by simp
    show "as_heap ?s4 p = as_heap s p" if "(j, p) \<in> set (all_auctions s)" for j p using nb(3) [OF that] by simp
    show "au_itemGuidLow (as_heap ?s4 q) = it_lowguid it" using nb(4) a by simp
  qed (use ok it in \<open>simp_all add: auctions_ok_def\<close>)
  moreover have "houses_ok store ?s4" using ok s2 by (simp add: auctions_ok_def houses_ok_def)
  moreover have "purses ?s4 = purses s" using s2 by (simp add: purses_def)
  ultimately show "auctions_ok store ?s4" using ok by (simp add: auctions_ok_def)
  have "map (\<lambda>(_, p). stake (as_heap ?s4 p)) (all_auctions s) = map (\<lambda>(_, p). stake (as_heap s p)) (all_auctions s)"
    using nb(3) by (intro map_cong) auto
  then have "sum_list (map (\<lambda>(_, p). stake (as_heap ?s4 p)) (all_auctions s)) = staked s" by (simp only: staked_def)
  moreover have "as_heap ?s4 q = a" using nb(4) by simp
  ultimately show "staked ?s4 = stake a + staked s"
    unfolding staked_def [of ?s4] all4 sum_add_mset [OF nb(2) [symmetric]] by (simp only: prod.case)
  show "as_players ?s4 = as_players s" "as_t_mail ?s4 = as_t_mail s" using s2 by simp_all
qed

lemma start_auction_ok:
  assumes e: "sound_env store e" and ok: "auctions_ok store s" and p: "player_of me s = Some p" and h: "h < length (as_real s)"
    and he: "he \<in> ran store" and money: "deposit \<le> pl_money (ap_player p)"
    and new: "as_aitems s (it_lowguid (pl_heap (ap_player p) c)) = None" "fst (GenerateAuctionID s) \<noteq> 0"
  obtains s' where "start_auction e me p he h c deposit bid buyout etime s = Some s'" "kept store s s'"
proof -
  define w where "w = av_world e"
  define it where "it = pl_heap (ap_player p) c"
  define pl1 where "pl1 = ModifyMoney w (- deposit) (ap_player p)"
  define pl2 where "pl2 = MoveItemFromInventory w (GetBagSlot pl1 it) (it_slot it) True pl1"
  define it2 where "it2 = pl_heap pl2 c"
  obtain i s1 where g: "GenerateAuctionID s = (i, s1)" by force
  define a where "a = \<lparr>au_Id = i, au_itemGuidLow = it_lowguid it, au_itemTemplate = it_entry it, au_owner = me,
     au_ownerAccount = ap_account p, au_startbid = bid, au_bid = 0, au_buyout = buyout, au_lockedIpAddress = ap_address p,
     au_depositTime = w_now w, au_expireTime = w_now w + uint (fl_to_u32 (av_float e) (fl_mul (av_float e) (fl_u32 (av_float e) etime) (av_rateTime e))),
     au_bidder = 0, au_deposit = deposit, au_house = he\<rparr>"
  obtain q s2 where n: "new_auction a s1 = (q, s2)" by force
  have pu: "purses_ok (purses s)" using ok by (simp add: auctions_ok_def)
  note mm = money_max [OF pu p]
  have "pl_money pl1 = pl_money (ap_player p) - deposit"
    unfolding pl1_def w_def using e money mm by (intro ModifyMoney_pays) (simp_all add: sound_env_def)
  moreover have sp: "same_purse pl1 pl2" unfolding pl2_def by (rule same_purse_Move)
  ultimately have m2: "pl_money pl2 = pl_money (ap_player p) - deposit" by (simp add: same_purse_def)
  have lg: "it_lowguid it2 = it_lowguid it"
    using sp by (simp add: it2_def it_def same_purse_def pl1_def ModifyMoney_def SetMoney_def event_def Let_def)
  have ta: "au_Id a = i" "terms_ok store a" "au_itemGuidLow a = it_lowguid it2" "i \<noteq> 0" "as_aitems s (it_lowguid it2) = None"
    using he money mm lg new g by (auto simp: a_def terms_ok_def word_gt_0 it_def)
  obtain s4 where s4: "AddAItem it2 (AddAuction h q s2) = Some s4" "auctions_ok store s4" "staked s4 = stake a + staked s"
    "as_players s4 = as_players s" "as_t_mail s4 = as_t_mail s"
    using added_auction_ok [OF ok h g ta(4) ta(1-3) n ta(5)] .
  let ?s5 = "upd_char me (\<lambda>_. pl2) s4"
  let ?s' = "SendAuctionCommandResult me (Some a) AUCTION_STARTED AUCTION_OK no_error
     (execute (SaveInventoryAndGold me (pl_money pl2)) (Auction_SaveToDB a
       (execute (SaveItem it2) (execute (DeleteFromInventory (it_lowguid it2)) ?s5))))"
  have res: "start_auction e me p he h c deposit bid buyout etime s = Some ?s'"
    by (simp add: start_auction_def Let_def w_def [symmetric] it_def [symmetric] pl1_def [symmetric] pl2_def [symmetric] g a_def [symmetric] n
        it2_def [symmetric] s4)
  have k: "core ?s' = core ?s5" "purses ?s' = purses ?s5" "posted ?s' = posted ?s5" "as_aitems ?s' = as_aitems ?s5"
    by (simp_all add: SendAuctionCommandResult_def send_def execute_def Auction_SaveToDB_def Let_def core_def purses_def posted_def)
  have p4: "purses s4 = purses s" "player_of me s4 = Some p" using s4(4) p by (simp_all add: purses_def player_of_def)
  then have pu4: "purses_ok (purses s4)" using pu by simp
  note pay = purse_pays [where f = "\<lambda>_. pl2", OF pu4 p4(2) money m2]
  have "auctions_ok store ?s5"
    using s4(2) pay(1) core_book [of ?s5 s4] core_houses [of ?s5 s4] core_items [of ?s5 s4] by (simp add: auctions_ok_def)
  then have okk: "auctions_ok store ?s'" using same_ok [OF k(1,2,4)] by simp
  have "staked ?s5 = unat deposit + staked s" using core_staked [of ?s5 s4] s4(3) by (simp add: stake_def a_def)
  moreover have "mailed ?s5 = mailed s" "pursed ?s5 + unat deposit = pursed s"
    using s4(5) pay(2) p4(1) by (simp add: mailed_def upd_char_def upd_aplayer_def, simp add: pursed_def)
  ultimately have "wealth ?s' = wealth s" using same_wealth [OF k(1,2,3)] by (simp add: wealth_def)
  then show ?thesis using that [OF res] okk by (simp add: kept_def)
qed

end
