(* ===== verification/Auction_Props.thy ===== *)
theory Auction_Props
  imports Auction_Sell Charter_Reload
begin

text \<open>
  The handlers of the auction house as steps, what holds along their runs, what a bid does and how auctions end.
\<close>

section \<open>The handlers\<close>

lemma house_asked:
  assumes "sound_env store e" "auctions_ok store s" "GetCheckedAuctionHouseForAuctioneer e npc p = Some he"
  obtains h where "GetAuctionsMap he s = Some h" "h < length (as_real s)" "he \<in> ran store"
  using assms house_found [OF assms(1,2)]
  by (auto simp: GetCheckedAuctionHouseForAuctioneer_def split: auctioneer.splits if_splits bind_splits)

lemma GetAuction_entry: "GetAuction i ah = Some q \<Longrightarrow> (i, q) \<in> set (ah_AuctionsMap ah)"
  by (auto simp: GetAuction_def dest: map_of_SomeD)

lemma quiet_answers [simp]:
  "quiet s (SendAuctionCommandResult me a x y z (send g out s))"
  using delivers_trans [OF quiet_send(1) quiet_notify(4)] by simp

lemma found_item: "GetItemByGuid g pl = Some c \<Longrightarrow> GetCounter g = it_lowguid (pl_heap pl c)"
  by (auto simp: GetItemByGuid_def find_Some_iff GetCounter_item_guid)

lemma SellItem_ok:
  assumes e: "sound_env store e" and ok: "auctions_ok store s" and fresh: "fst (GenerateAuctionID s) \<noteq> 0"
  shows "\<exists>s'. HandleAuctionSellItem e npc tradable me itemGuid bid buyout etime s = Some s' \<and> kept store s s'"
proof (cases "player_of me s")
  case None
  then show ?thesis using ok by (simp add: HandleAuctionSellItem_def kept_def)
next
  case (Some p)
  note q = quiet_kept [OF _ ok]
  show ?thesis
  proof (cases "GetCheckedAuctionHouseForAuctioneer e npc p")
    case None
    then show ?thesis using Some q by (simp add: HandleAuctionSellItem_def)
  next
    case he: (Some he)
    obtain h where h: "GetAuctionsMap he s = Some h" "h < length (as_real s)" "he \<in> ran store"
      using house_asked [OF e ok he] .
    have "\<exists>s'. start_auction e me p he h c deposit bid buyout (etime * 60) s = Some s' \<and> kept store s s'"
      if "GetItemByGuid itemGuid (ap_player p) = Some c" "GetAItem (GetCounter itemGuid) s = None" "deposit \<le> pl_money (ap_player p)" for c deposit
      using start_auction_ok [OF e ok Some h(2,3) that(3) _ fresh, of c bid buyout "etime * 60"] that found_item [OF that(1)]
      by (auto simp: GetAItem_def)
    then show ?thesis
      using Some he h(1) q by (auto simp: HandleAuctionSellItem_def Let_def not_less split: option.split)
  qed
qed

section \<open>What a bid does\<close>

text \<open>The conditions of an accepted bid; the increment is five hundredths of the last bid, at least one. An owner who is away is compared by account.\<close>

definition may_bid :: "'f aenv \<Rightarrow> ast \<Rightarrow> u32 \<Rightarrow> aplayer \<Rightarrow> u32 \<Rightarrow> auction \<Rightarrow> u32 \<Rightarrow> bool" where
  "may_bid e s me p i a price \<longleftrightarrow>
     (av_gmTrades e \<or> ap_security p = 0) \<and> i \<noteq> 0 \<and> \<not> ap_suspicious p \<and>
     au_owner a \<noteq> me \<and> (GetPlayer (au_owner a) s = None \<longrightarrow> GetPlayerAccountIdByGUID e (au_owner a) s \<noteq> ap_account p) \<and>
     au_startbid a \<le> price \<and> au_bid a < price \<and> price \<le> pl_money (ap_player p) \<and>
     (au_buyout a \<noteq> 0 \<and> au_buyout a \<le> price \<or> unat (au_bid a) + max 1 (unat (au_bid a) div 100 * 5) \<le> unat price)"

definition bid_placed :: "'f aenv \<Rightarrow> u32 \<Rightarrow> u32 \<Rightarrow> u32 \<Rightarrow> aptr \<Rightarrow> u32 \<Rightarrow> ast \<Rightarrow> ast \<Rightarrow> bool" where
  "bid_placed e me money i q price s s' \<longleftrightarrow>
     as_real s' = as_real s \<and> as_heap s' = (as_heap s)(q := (as_heap s q)\<lparr>au_bidder := me, au_bid := price\<rparr>) \<and>
     purses s' = um_update me (\<lambda>_. money - bid_cost me (as_heap s q) price) (purses s) \<and>
     posted s' = posted s @ bid_refund e s me (as_heap s q) \<and> parcels s' = parcels s \<and> as_aitems s' = as_aitems s \<and>
     as_t_auction s' = update_where (\<lambda>r. ar_id r = i) (\<lambda>r. r\<lparr>ar_buyguid := me, ar_lastbid := price\<rparr>) (as_t_auction s)"

definition bought_out :: "'f aenv \<Rightarrow> u32 \<Rightarrow> u32 \<Rightarrow> nat \<Rightarrow> u32 \<Rightarrow> aptr \<Rightarrow> ast \<Rightarrow> ast \<Rightarrow> bool" where
  "bought_out e me money h i q s s' \<longleftrightarrow>
     (let a = as_heap s q in
      ah_AuctionsMap (as_real s' ! h) = um_erase i (ah_AuctionsMap (as_real s ! h)) \<and>
      purses s' = um_update me (\<lambda>_. money - bid_cost me a (au_buyout a)) (purses s) \<and>
      posted s' = posted s @ bid_refund e s me a @ sale_mail e s (a\<lparr>au_bidder := me, au_bid := au_buyout a\<rparr>) @
        (if willing e s me then [(me, 0, True)] else []) \<and>
      parcels s' = parcels s @ (if willing e s me then [(me, au_itemGuidLow a)] else []) \<and>
      as_aitems s' = (as_aitems s)(au_itemGuidLow a := None) \<and>
      as_t_auction s' = delete_where (\<lambda>r. ar_id r = i) (as_t_auction s))"

lemma unat_outbid: "unat (GetAuctionOutBid a) = max 1 (unat (au_bid a) div 100 * 5)"
proof -
  let ?n = "unat (au_bid a)"
  have "?n < 4294967296" using unat_less_2p [of "au_bid a"] by simp
  moreover have "?n div 100 * 5 \<le> ?n div 100 * 100" by (rule mult_le_mono2) simp
  ultimately have n: "?n div 100 * 5 < 4294967296" using div_times_less_eq_dividend [of ?n 100] by linarith
  have d: "unat (au_bid a div 100) = ?n div 100" by (simp add: unat_div)
  then have m: "unat ((au_bid a div 100) * 5) = ?n div 100 * 5"
    using n unat_mult_lem [of "au_bid a div 100" "5 :: u32"] by simp
  show ?thesis
  proof (cases "(au_bid a div 100) * 5 = 0")
    case True
    then have "?n div 100 * 5 = 0" using m by simp
    then show ?thesis using True by (simp add: GetAuctionOutBid_def)
  next
    case False
    then have "?n div 100 * 5 \<noteq> 0" using m by (metis unat_eq_zero)
    then show ?thesis using False m by (simp add: GetAuctionOutBid_def max_def)
  qed
qed

lemma outbid_sum:
  assumes "au_bid a \<le> MAX_MONEY_AMOUNT"
  shows "au_bid a + GetAuctionOutBid a \<le> price \<longleftrightarrow> unat (au_bid a) + max 1 (unat (au_bid a) div 100 * 5) \<le> unat price"
proof -
  have "unat (au_bid a) \<le> 0x7FFFFFFE" using assms by (simp add: word_le_nat_alt)
  then have "unat (au_bid a + GetAuctionOutBid a) = unat (au_bid a) + unat (GetAuctionOutBid a)"
    by (intro unat_plus_small) (simp add: unat_outbid)
  then show ?thesis by (simp add: word_le_nat_alt unat_outbid)
qed

lemma PlaceBid_cases:
  assumes e: "sound_env store e" and ok: "auctions_ok store s" and p: "player_of me s = Some p"
    and he: "GetCheckedAuctionHouseForAuctioneer e npc p = Some he" and h: "GetAuctionsMap he s = Some h"
    and q: "GetAuction i (as_real s ! h) = Some q"
  obtains (refused) s' where "HandleAuctionPlaceBid e npc me i price s = Some s'" "quiet s s'"
      "\<not> may_bid e s me p i (as_heap s q) price"
  | (bid) "HandleAuctionPlaceBid e npc me i price s = Some (place_bid e me q price s)"
      "may_bid e s me p i (as_heap s q) price" "price < au_buyout (as_heap s q) \<or> au_buyout (as_heap s q) = 0"
  | (buyout) "HandleAuctionPlaceBid e npc me i price s = Some (buyout_auction e me h q s)"
      "may_bid e s me p i (as_heap s q) price" "au_buyout (as_heap s q) \<noteq> 0" "au_buyout (as_heap s q) \<le> price"
proof -
  have "h < length (as_real s)" using house_asked [OF e ok he] h by auto
  then have t: "terms_ok store (as_heap s q)" using entry_terms [OF ok entry_all [OF _ GetAuction_entry [OF q]]] by simp
  let ?a = "as_heap s q" and ?H = "HandleAuctionPlaceBid e npc me i price s"
  have outbid: "au_bid ?a + GetAuctionOutBid ?a \<le> price \<longleftrightarrow> unat (au_bid ?a) + max 1 (unat (au_bid ?a) div 100 * 5) \<le> unat price"
    using t by (intro outbid_sum) (simp add: terms_ok_def)
  let ?early = "\<not> av_gmTrades e \<and> ap_security p > 0 \<or> i = 0 \<or> price = 0 \<or> ap_suspicious p"
  let ?own = "au_owner ?a = me \<or> GetPlayer (au_owner ?a) s = None \<and> GetPlayerAccountIdByGUID e (au_owner ?a) s = ap_account p"
  let ?low = "(price < au_buyout ?a \<or> au_buyout ?a = 0) \<and> price < au_bid ?a + GetAuctionOutBid ?a"
  show ?thesis
  proof (cases "?early \<or> ?own \<or> price < au_startbid ?a \<or> price \<le> au_bid ?a \<or> ?low \<or> price > pl_money (ap_player p)")
    case True
    have "\<exists>s'. ?H = Some s' \<and> quiet s s'"
      using True unfolding HandleAuctionPlaceBid_def Let_def p he h q option.case by auto
    moreover have "\<not> may_bid e s me p i ?a price" using True outbid by (auto simp: may_bid_def not_le)
    ultimately show ?thesis using refused by blast
  next
    case False
    then have "may_bid e s me p i ?a price" using outbid by (auto simp: may_bid_def not_le not_less)
    moreover have "?H = Some (if price < au_buyout ?a \<or> au_buyout ?a = 0 then place_bid e me q price s else buyout_auction e me h q s)"
      using False unfolding HandleAuctionPlaceBid_def Let_def p he h q option.case by auto
    ultimately show ?thesis using bid buyout by (cases "price < au_buyout ?a \<or> au_buyout ?a = 0") (auto simp: not_less)
  qed
qed

lemma PlaceBid_ok:
  assumes e: "sound_env store e" and ok: "auctions_ok store s"
  shows "\<exists>s'. HandleAuctionPlaceBid e npc me i price s = Some s' \<and> kept store s s'"
proof (cases "player_of me s")
  case None
  then show ?thesis using ok by (simp add: HandleAuctionPlaceBid_def kept_def)
next
  case p: (Some p)
  note quiet = quiet_kept [OF _ ok]
  show ?thesis
  proof (cases "GetCheckedAuctionHouseForAuctioneer e npc p")
    case None
    then show ?thesis using p quiet by (simp add: HandleAuctionPlaceBid_def)
  next
    case he: (Some he)
    obtain h where h: "GetAuctionsMap he s = Some h" "h < length (as_real s)" using house_asked [OF e ok he] .
    show ?thesis
    proof (cases "GetAuction i (as_real s ! h)")
      case None
      then show ?thesis using p he h quiet by (simp add: HandleAuctionPlaceBid_def)
    next
      case q: (Some q)
      note iq = GetAuction_entry [OF q]
      show ?thesis
      proof (cases rule: PlaceBid_cases [OF e ok p he h(1) q, where price = price])
        case 1
        then show ?thesis using quiet by blast
      next
        case 2
        then show ?thesis using place_bid_ok(1) [OF e ok p h(2) iq, of price] by (simp add: may_bid_def)
      next
        case 3
        then show ?thesis using buyout_auction_ok(1) [OF e ok p h(2) iq] by (simp add: may_bid_def order.trans)
      qed
    qed
  qed
qed

lemma RemoveItem_ok:
  assumes e: "sound_env store e" and ok: "auctions_ok store s"
  shows "\<exists>s'. HandleAuctionRemoveItem e npc me i s = Some s' \<and> kept store s s'"
proof (cases "player_of me s")
  case None
  then show ?thesis using ok by (simp add: HandleAuctionRemoveItem_def kept_def)
next
  case p: (Some p)
  note quiet = quiet_kept [OF _ ok]
  show ?thesis
  proof (cases "GetCheckedAuctionHouseForAuctioneer e npc p")
    case None
    then show ?thesis using p quiet by (simp add: HandleAuctionRemoveItem_def)
  next
    case he: (Some he)
    obtain h where h: "GetAuctionsMap he s = Some h" "h < length (as_real s)" using house_asked [OF e ok he] .
    show ?thesis
    proof (cases "GetAuction i (as_real s ! h)")
      case None
      then show ?thesis using p he h quiet by (simp add: HandleAuctionRemoveItem_def)
    next
      case q: (Some q)
      have "kept store s (cancel_auction e me h q it s)"
        if "\<not> (au_bidder (as_heap s q) > 0 \<and> pl_money (ap_player p) < GetAuctionCut e (as_heap s q))" for it
        by (rule cancel_auction_ok [OF e ok p h(2) GetAuction_entry [OF q]]) (use that in auto)
      then show ?thesis
        using quiet unfolding HandleAuctionRemoveItem_def p he h(1) q option.case by (auto split: option.split)
    qed
  qed
qed

lemma House_Update_ok:
  assumes "sound_env store e" "auctions_ok store s" "h < length (as_real s)"
  shows "kept store s (House_Update e h s) \<and> length (as_real (House_Update e h s)) = length (as_real s)"
proof -
  have "distinct (ah_AuctionsMap (as_real s ! h))"
    using house_okD(3) [of store s h] assms by (auto simp: auctions_ok_def distinct_map)
  then show ?thesis using update_loop [OF assms, of "ah_AuctionsMap (as_real s ! h)"] by (simp add: House_Update_def)
qed

lemma Update_ok:
  assumes "sound_env store e" "auctions_ok store s"
  shows "kept store s (AuctionHouseMgr_Update e s)"
proof -
  have "\<forall>h \<in> set hs. h < length (as_real s) \<Longrightarrow> auctions_ok store s \<Longrightarrow> kept store s (fold (House_Update e) hs s)" for hs
  proof (induction hs arbitrary: s)
    case (Cons h hs)
    then have u: "kept store s (House_Update e h s)" "length (as_real (House_Update e h s)) = length (as_real s)"
      using House_Update_ok [OF assms(1), of s h] by simp_all
    then have "kept store (House_Update e h s) (fold (House_Update e) hs (House_Update e h s))"
      using Cons by (intro Cons.IH) (simp_all add: kept_def)
    then show ?case using kept_trans [OF u(1)] by simp
  qed (simp add: kept_def)
  then show ?thesis using assms by (simp add: AuctionHouseMgr_Update_def)
qed

section \<open>Runs\<close>

text \<open>The steps of the auction houses, under any of the given environments. Selling needs ids that have not run out.\<close>

inductive auction_step :: "('f aenv \<Rightarrow> bool) \<Rightarrow> ast \<Rightarrow> ast \<Rightarrow> bool" for envs :: "'f aenv \<Rightarrow> bool" where
  sell: "envs e \<Longrightarrow> fst (GenerateAuctionID s) \<noteq> 0 \<Longrightarrow>
    HandleAuctionSellItem e npc tradable me itemGuid bid buyout etime s = Some s' \<Longrightarrow> auction_step envs s s'"
| bid: "envs e \<Longrightarrow> HandleAuctionPlaceBid e npc me i price s = Some s' \<Longrightarrow> auction_step envs s s'"
| cancel: "envs e \<Longrightarrow> HandleAuctionRemoveItem e npc me i s = Some s' \<Longrightarrow> auction_step envs s s'"
| hello: "envs e \<Longrightarrow> HandleAuctionHelloOpcode e me g unit s = Some s' \<Longrightarrow> auction_step envs s s'"
| update: "envs e \<Longrightarrow> auction_step envs s (AuctionHouseMgr_Update e s)"
| turn_hardcore: "envs e \<Longrightarrow> auction_step envs s (drop_auctions e me s)"

lemma hello_quiet: "HandleAuctionHelloOpcode e me g unit s = Some s' \<Longrightarrow> quiet s s'"
  by (auto simp: HandleAuctionHelloOpcode_def split: option.splits if_splits)

interpretation auctions: spending "auction_step (sound_env store)" "auctions_ok store" wealth for store
proof
  fix s s' assume ok: "auctions_ok store s" and "auction_step (sound_env store) s s'"
  from this(2) have "kept store s s'"
  proof cases
    case (sell e npc tradable me itemGuid bid buyout etime)
    then show ?thesis using SellItem_ok [OF sell(1) ok sell(2), of npc tradable me itemGuid bid buyout etime] by simp
  next
    case (bid e npc me i price)
    then show ?thesis using PlaceBid_ok [OF bid(1) ok, of npc me i price] by simp
  next
    case (cancel e npc me i)
    then show ?thesis using RemoveItem_ok [OF cancel(1) ok, of npc me i] by simp
  next
    case hello
    then show ?thesis using quiet_kept [OF hello_quiet ok] by blast
  qed (use ok in \<open>auto intro: Update_ok drop_auctions_ok\<close>)
  then show "auctions_ok store s' \<and> wealth s' \<le> wealth s" by (simp add: kept_def)
qed

section \<open>A small auction house\<close>

text \<open>One house, one auction of a stack of cloth by player 7, who is not connected, and player 5 with a purse. The arithmetic is exact.\<close>

definition exact_float :: "nat float_ops" where
  "exact_float = \<lparr>fl_u32 = unat, fl_i32 = unat, fl_to_u32 = of_nat, fl_add = (+), fl_mul = (*), fl_div = (div), fl_less = (<),
     fl_1 = 1, fl_100 = 100, fl_005 = 0\<rparr>"

definition sample_house :: house_entry where
  "sample_house = \<lparr>he_houseId = 1, he_faction = 55, he_depositPercent = 5, he_cutPercent = 5\<rparr>"

definition sample_store :: "u32 \<Rightarrow> house_entry option" where
  "sample_store i = (if i = 1 then Some sample_house else None)"

definition sample_aenv :: "int \<Rightarrow> nat aenv" where
  "sample_aenv t = \<lparr>av_world = sample_world, av_gameTime = t, av_cache = (\<lambda>g. if g = 7 then Some (9, 0) else None),
     av_gmTrades = True, av_limit = 0, av_twoSide = True, av_depositMin = 0, av_store = sample_store, av_storeRows = 2,
     av_sellPrice = (\<lambda>_. 10), av_factionMask = (\<lambda>_. None), av_float = exact_float, av_rateCut = 1, av_rateDeposit = 1, av_rateTime = 1\<rparr>"

definition sample_auction :: auction where
  "sample_auction = \<lparr>au_Id = 1, au_itemGuidLow = 77, au_itemTemplate = 2589, au_owner = 7, au_ownerAccount = 9, au_startbid = 100,
     au_bid = 0, au_buyout = 1000, au_lockedIpAddress = [], au_depositTime = 0, au_expireTime = 2000, au_bidder = 0,
     au_deposit = 20, au_house = sample_house\<rparr>"

definition sample_bidder :: aplayer where
  "sample_bidder = \<lparr>ap_player = sample_player\<lparr>pl_guid := player_guid 5\<rparr>, ap_account = 3, ap_security = 0, ap_suspicious = False,
     ap_address = ''10.0.0.1'', ap_team = 469, ap_hardcore = 0, ap_mails = [], ap_mitems = (\<lambda>_. None), ap_unReadMails = 0,
     ap_nextMailTime = 0, ap_listRequest = False\<rparr>"

definition sample_ast :: ast where
  "sample_ast = \<lparr>as_houses = (\<lambda>i. if i = 1 then Some 0 else None),
     as_real = [\<lparr>ah_AuctionsMap = [(1, 0)], ah_OrderedAuctionMap = [(1000, 0)], ah_AccountAuctionMap = [(9, 0)]\<rparr>],
     as_aitems = (\<lambda>g. if g = 77 then Some (cloth_stack\<lparr>it_lowguid := 77\<rparr>) else None), as_heap = (\<lambda>_. sample_auction), as_next = 1, as_freed = [],
     as_ids = [1], as_nextId = 2, as_players = [(5, sample_bidder)], as_mailId = 1, as_textId = 1, as_texts = [],
     as_t_auction = [auction_row_of sample_auction], as_t_mail = [], as_t_mail_items = [], as_sql = [], as_out = [], as_hooks = []\<rparr>"

lemmas sample_defs = sample_ast_def sample_aenv_def sample_auction_def sample_bidder_def sample_house_def sample_store_def

lemma sample_sound: "sound_env sample_store (sample_aenv t)"
proof -
  have "GetAuctionCut (sample_aenv t) a \<le> au_bid a" if "au_house a \<in> ran sample_store" for a
  proof -
    have "au_house a = sample_house" using that by (auto simp: ran_def sample_store_def split: if_splits)
    then have h: "he_cutPercent (au_house a) = 5" by (simp add: sample_house_def)
    have "unat (5 * au_bid a) \<le> 5 * unat (au_bid a)" by (simp add: unat_word_ariths)
    then have "unat (5 * au_bid a) div 100 \<le> unat (au_bid a)" using div_le_mono [of _ "5 * unat (au_bid a)" 100] by linarith
    moreover from this have "unat (of_nat (unat (5 * au_bid a) div 100) :: u32) = unat (5 * au_bid a) div 100"
      using unat_less_2p [of "au_bid a"] by (simp add: unat_of_nat)
    ultimately show ?thesis
      by (simp add: GetAuctionCut_def sample_aenv_def exact_float_def h word_le_nat_alt Let_def)
  qed
  then show ?thesis by (simp add: sound_env_def sample_aenv_def sample_world_def)
qed

lemma sample_books_ok: "auctions_ok sample_store sample_ast"
proof -
  have all: "all_auctions sample_ast = [(1, 0)]" by (simp add: all_auctions_def sample_ast_def)
  have "terms_ok sample_store sample_auction"
    by (auto simp: terms_ok_def sample_auction_def ran_def sample_store_def)
  then have "book_ok sample_store sample_ast"
    unfolding book_ok_def all by (simp add: house_ok_def entry_ok_def) (simp add: sample_ast_def sample_auction_def)
  moreover have "items_ok sample_ast" unfolding items_ok_def all by (simp add: sample_ast_def sample_auction_def)
  moreover have "houses_ok sample_store sample_ast" by (simp add: houses_ok_def sample_defs)
  moreover have "purses_ok (purses sample_ast)" by (simp add: purses_ok_def purses_def sample_defs sample_player_def)
  ultimately show ?thesis by (simp add: auctions_ok_def)
qed

lemma sample_asked: "GetCheckedAuctionHouseForAuctioneer (sample_aenv t) (AskCreature (Some 12)) sample_bidder = Some sample_house"
  by (simp add: GetCheckedAuctionHouseForAuctioneer_def GetAuctionHouseEntry_def sample_aenv_def sample_store_def)

lemma sample_bid:
  "HandleAuctionPlaceBid (sample_aenv t) (AskCreature (Some 12)) 5 1 500 sample_ast = Some (place_bid (sample_aenv t) 5 0 500 sample_ast)"
proof -
  have p: "player_of 5 sample_ast = Some sample_bidder" by (simp add: player_of_def sample_ast_def)
  have "GetAuctionsMap sample_house sample_ast = Some 0" "GetAuction 1 (as_real sample_ast ! 0) = Some 0" "as_heap sample_ast 0 = sample_auction"
    by (simp_all add: GetAuctionsMap_def GetAuction_def sample_ast_def sample_house_def)
  then show ?thesis
    unfolding HandleAuctionPlaceBid_def Let_def p sample_asked option.case
    by (simp add: GetPlayer_def player_of_def GetPlayerAccountIdByGUID_def GetAuctionOutBid_def) (simp add: sample_defs sample_player_def)
qed

section \<open>Properties\<close>



text \<open>C10: a bid on an auction is accepted exactly when the bidder is neither the owner nor, the owner being away, of the owner's account, may trade, and offers at
  least the start price, more than the last bid by the increment or the buyout price, and no more than the purse; else nothing changes but the packets sent.
  Below the buyout price the auction then has the new bid and bidder, the bidder has paid the price, or the difference to the own last bid, and another last bidder gets exactly
  that bid back by mail. At the buyout price the auction, its row and its item are gone from the house, the profit is mailed to the owner and the item to the
  buyer, if they can receive mail.\<close>

theorem PlaceBid_outcome:
  assumes "sound_env store e" "auctions_ok store s" "player_of me s = Some p"
    and "GetCheckedAuctionHouseForAuctioneer e npc p = Some he" "GetAuctionsMap he s = Some h" "GetAuction i (as_real s ! h) = Some q"
  shows "\<exists>s'. HandleAuctionPlaceBid e npc me i price s = Some s' \<and>
    (if \<not> may_bid e s me p i (as_heap s q) price then quiet s s'
     else if price < au_buyout (as_heap s q) \<or> au_buyout (as_heap s q) = 0
     then bid_placed e me (pl_money (ap_player p)) i q price s s'
     else bought_out e me (pl_money (ap_player p)) h i q s s')"
proof -
  have h: "h < length (as_real s)" using house_asked [OF assms(1,2,4)] assms(5) by auto
  note iq = GetAuction_entry [OF assms(6)]
  show ?thesis
  proof (cases rule: PlaceBid_cases [OF assms, where price = price])
    case 1
    then show ?thesis by auto
  next
    case 2
    then show ?thesis using place_bid_ok [OF assms(1-3) h iq, of price] by (simp add: may_bid_def bid_placed_def)
  next
    case 3
    then have "au_buyout (as_heap s q) \<le> pl_money (ap_player p)" by (auto simp: may_bid_def)
    then have "bought_out e me (pl_money (ap_player p)) h i q s (buyout_auction e me h q s)"
      using buyout_auction_ok [OF assms(1-3) h iq 3(3)] by (simp add: bought_out_def Let_def)
    then show ?thesis using 3 by (simp add: not_less [symmetric])
  qed
qed

theorem PlaceBid_outcome_witness:
  "\<exists>s'. HandleAuctionPlaceBid (sample_aenv 1000) (AskCreature (Some 12)) 5 1 500 sample_ast = Some s' \<and>
     bid_placed (sample_aenv 1000) 5 30000000 1 0 500 sample_ast s'"
proof -
  have f: "player_of 5 sample_ast = Some sample_bidder" "GetAuctionsMap sample_house sample_ast = Some 0"
    "GetAuction 1 (as_real sample_ast ! 0) = Some 0"
    by (simp_all add: player_of_def GetAuctionsMap_def GetAuction_def sample_ast_def sample_house_def)
  have a: "as_heap sample_ast 0 = sample_auction" "pl_money (ap_player sample_bidder) = 30000000" "au_buyout sample_auction = 1000"
    by (simp_all add: sample_ast_def sample_auction_def sample_bidder_def sample_player_def)
  have "may_bid (sample_aenv 1000) sample_ast 5 sample_bidder 1 sample_auction 500"
    by (simp add: may_bid_def GetPlayer_def player_of_def GetPlayerAccountIdByGUID_def) (simp add: sample_defs sample_player_def)
  then show ?thesis
    using PlaceBid_outcome [where e = "sample_aenv 1000" and price = 500, OF sample_sound sample_books_ok f(1) sample_asked f(2,3)] by (simp add: a)
qed

text \<open>C11: the update of a house settles exactly the auctions whose time is over, in the order of their ids: the winner gets the item and the owner the profit by
  mail, or the owner the item when nobody has bid; those who cannot receive mail get nothing. The auctions, their rows and their items are gone; all others, and the other
  houses, keep their auctions.\<close>

theorem House_Update_settles:
  assumes "sound_env store e" "auctions_ok store s" "h < length (as_real s)"
  shows "let s' = House_Update e h s; AM = ah_AuctionsMap (as_real s ! h); done = ended e s AM in
    ah_AuctionsMap (as_real s' ! h) = filter (\<lambda>(_, p). \<not> over e (as_heap s p)) AM \<and>
    (\<forall>k. k \<noteq> h \<longrightarrow> ah_AuctionsMap (as_real s' ! k) = ah_AuctionsMap (as_real s ! k)) \<and>
    (\<forall>q. unlocked (as_heap s' q) = unlocked (as_heap s q)) \<and>
    posted s' = posted s @ concat (map (settlement e s) done) \<and>
    parcels s' = parcels s @ concat (map (handover e s) done) \<and>
    as_aitems s' = (\<lambda>g. if g \<in> set (map au_itemGuidLow done) then None else as_aitems s g) \<and>
    as_t_auction s' = filter (\<lambda>r. ar_id r \<notin> set (map au_Id done)) (as_t_auction s)"
proof -
  let ?AM = "ah_AuctionsMap (as_real s ! h)"
  have "distinct ?AM" using house_okD(3) [of store s h] assms by (auto simp: auctions_ok_def distinct_map)
  note u = update_loop [OF assms this subset_refl, folded House_Update_def]
  moreover have "filter (\<lambda>x. x \<notin> set ?AM \<or> \<not> over e (as_heap s (snd x))) ?AM = filter (\<lambda>(_, p). \<not> over e (as_heap s p)) ?AM"
    by (rule filter_cong) auto
  ultimately show ?thesis by (simp add: Let_def)
qed

theorem House_Update_settles_witness:
  "ah_AuctionsMap (as_real (House_Update (sample_aenv 3000) 0 sample_ast) ! 0) = [] \<and>
   posted (House_Update (sample_aenv 3000) 0 sample_ast) = [(7, 0, True)] \<and>
   parcels (House_Update (sample_aenv 3000) 0 sample_ast) = [(7, 77)]"
proof -
  have h: "0 < length (as_real sample_ast)" by (simp add: sample_ast_def)
  have AM: "ah_AuctionsMap (as_real sample_ast ! 0) = [(1, 0)]" "as_heap sample_ast 0 = sample_auction" "posted sample_ast = []" "parcels sample_ast = []"
    by (simp_all add: sample_ast_def posted_def parcels_def)
  have o: "over (sample_aenv 3000) sample_auction" by (simp add: over_def sample_aenv_def sample_auction_def)
  have "willing (sample_aenv 3000) sample_ast 7"
    by (simp add: willing_def receiver_exists_def hardcore_now_def GetPlayer_def player_of_def GetPlayerAccountIdByGUID_def IsPlayerHardcore_def
        is_hardcore_def) (simp add: sample_ast_def sample_aenv_def IsPlayerHardcore_def is_hardcore_def)
  then have "settlement (sample_aenv 3000) sample_ast sample_auction = [(7, 0, True)]" "handover (sample_aenv 3000) sample_ast sample_auction = [(7, 77)]"
    by (simp_all add: settlement_def handover_def sample_auction_def)
  then show ?thesis using House_Update_settles [where e = "sample_aenv 3000", OF sample_sound sample_books_ok h] by (simp add: AM o ended_def Let_def)
qed

end
