(* ===== verification/Spec2Isabelle.thy ===== *)
theory Spec2Isabelle
  imports Prelude Event_Map Cpp_Strings Byte_Buffer Auth_Crypt Object_Guid Inventory Item_Storage Item_Storage_Props Inventory_View Inventory_Store Bank_Data Guild_Bank Bank_Admin Bank_Items Bank_Moves Bank_Stock Bank_Sync Bank_Move_Props Bank_Deposit_Props Bank_Withdraw_Props Bank_Run Utf8 Guild_Data Guild_Core Guild_Members Guild_Load Guild_Roster Guild_Handlers Guild_Session Guild_Inv Guild_Keep Guild_Run Guild_Life Guild_Sample Guild_Props Guild_Repair Guild_Log Load_Props Roster_Props Name_Check Charters Charter_Inv Charter_Run Charter_Life Charter_Found Charter_Props Charter_Reload Auction_Data Auction_Mgr Auction_Handlers Auction_Inv Auction_Keep Auction_Run Auction_End Auction_Bids Auction_Sell Auction_Props
begin

text \<open>
  A verification library for the game server under \<^verbatim>\<open>src/src\<close> (a server for a 1.12 client, written
  in C++). The server reads packets from clients, keeps the world in memory and writes
  changes to SQL tables. The library covers the guilds with their banks and charters, the auction houses, the items of
  players and the parts of the infrastructure these rest on.

  \<^bold>\<open>Infrastructure.\<close>
  \<^item> \<^theory_text>\<open>Event_Map\<close>: \<^verbatim>\<open>framework/Utilities/EventMap\<close>, the timer queue of creature scripts: a multimap from due
    times to a word that packs id, group and phases. The events stay ordered along every run of
    operations, and executing, cancelling, delaying and rescheduling are characterised.
  \<^item> \<^theory_text>\<open>Cpp_Strings\<close>: the standard-library string functions the code calls, number formatting and
    parsing, and the \<^verbatim>\<open>Tokenizer\<close> of \<^verbatim>\<open>shared/Util.cpp\<close> with its round trip.
  \<^item> \<^theory_text>\<open>Byte_Buffer\<close>: \<^verbatim>\<open>shared/ByteBuffer.h\<close>. The locale \<open>codec\<close> states what a writer and a reader
    promise each other; it is interpreted for the integers, booleans, strings, packed guids and
    vectors, and gives the round trip of whole packets. Reads never leave the storage.
  \<^item> \<^theory_text>\<open>Auth_Crypt\<close>: \<^verbatim>\<open>shared/Auth/AuthCrypt\<close>, the packet header cipher; the locale \<open>stream_cipher\<close> gives
    synchronisation over any sequence of packets.
  \<^item> \<^theory_text>\<open>Object_Guid\<close>: \<^verbatim>\<open>game/ObjectGuid\<close>, the 64-bit object names and the counters that hand them out;
    reachable counters never hand out a name twice.
  \<^item> \<^theory_text>\<open>Utf8\<close>: the conversions between UTF-8 and UTF-16 (\<^verbatim>\<open>dep/include/utf8cpp\<close>, \<^verbatim>\<open>shared/Util.cpp\<close>) are inverse to each
    other, and \<^verbatim>\<open>normalizePlayerName\<close> gives a normal form. \<^theory_text>\<open>Name_Check\<close>: which names a guild may have.

  \<^bold>\<open>Items.\<close>
  \<^item> \<^theory_text>\<open>Inventory\<close>, \<^theory_text>\<open>Item_Storage\<close>: items, bags and the inventory of a player (\<^verbatim>\<open>game/Objects/Item\<close>,
    \<^verbatim>\<open>Bag\<close>, \<^verbatim>\<open>Player\<close>): a heap of item records, 118 slots, bags as items with slots, money, the search
    for places \<^verbatim>\<open>CanStoreNewItem\<close>, \<^verbatim>\<open>StoreNewItem\<close> and \<^verbatim>\<open>DestroyItem\<close>. Effects outside of
    the inventory (auras, quests, packets) are recorded as events in order.
  \<^item> \<^theory_text>\<open>Item_Storage_Props\<close>: the answer of the search is a plan that fits; the purse saturates.
  \<^item> \<^theory_text>\<open>Inventory_View\<close>: the inventory as a map from places to stacks and the operations as updates of
    that map. \<^theory_text>\<open>Inventory_Store\<close>: storing follows the plan the search gave, exactly.

  \<^bold>\<open>The guild bank\<close> (\<^verbatim>\<open>game/GuildBank\<close>), driven by addon messages of players.
  \<^item> \<^theory_text>\<open>Bank_Data\<close>: the structures of \<^verbatim>\<open>GuildBank.h\<close>, the four tables with their keys and the
    transaction of \<^verbatim>\<open>SqlOperations.cpp\<close>: either all statements succeed or none has an effect.
  \<^item> \<^theory_text>\<open>Guild_Bank\<close>: saving, loading, the logs, access rights. \<^theory_text>\<open>Bank_Admin\<close>: unlocking, tabs, money.
    \<^theory_text>\<open>Bank_Items\<close>: deposits and withdrawals. \<^theory_text>\<open>Bank_Moves\<close>: moving, splitting, destroying and the
    message handler. The state threaded through is \<open>bank\<close>: the bank, the player who sent the message,
    the tables and the messages sent.
  \<^item> \<^theory_text>\<open>Bank_Stock\<close>: the bank as a heap of stacks with the well-formedness \<open>bank_ok\<close>.
    \<^theory_text>\<open>Bank_Sync\<close>: the tables, after the queued changes are applied, match the bank; saving makes them
    match. \<^theory_text>\<open>Bank_Move_Props\<close>: moves and splits keep every count.
    \<^theory_text>\<open>Bank_Deposit_Props\<close>, \<^theory_text>\<open>Bank_Withdraw_Props\<close>: deposits and withdrawals move items between bag
    and bank, none is lost and none is made. \<^theory_text>\<open>Bank_Run\<close>: the step relation \<open>bank_step\<close> of messages in any
    order; the locale \<open>conserving\<close> of the prelude, interpreted for it, lifts the single steps to runs.
    Money and the price of tabs.

  \<^bold>\<open>Guilds\<close> (\<^verbatim>\<open>game/Guild\<close>, \<^verbatim>\<open>game/Handlers/GuildHandler.cpp\<close>). The state is \<open>gs\<close>: the guild an operation works on
  (\<open>s_this\<close>), the maps of the manager, the connected players, the tables, the packets sent and the calls of module
  scripts, in order.
  \<^item> \<^theory_text>\<open>Guild_Data\<close>: records, opcodes, packets and tables; unordered maps as association lists whose order after an insertion is a
    parameter. \<^theory_text>\<open>Guild_Core\<close>: players, packets, broadcasts. \<^theory_text>\<open>Guild_Members\<close>: joining and leaving, ranks, leaders,
    the event log, founding and disbanding. \<^theory_text>\<open>Guild_Load\<close>: loading and its repairs. \<^theory_text>\<open>Guild_Roster\<close>: the roster packets.
    \<^theory_text>\<open>Guild_Handlers\<close>: the packet handlers. \<^theory_text>\<open>Guild_Session\<close>: guilds at login, logout, deletion, death, in chat,
    and the update of the manager, which saves the banks.
  \<^item> \<^theory_text>\<open>Guild_Inv\<close>, \<^theory_text>\<open>Guild_Keep\<close>: the part of the state that membership is about (\<open>score\<close>), how the operations act on
    it, and the invariant \<open>guilds_ok\<close>: one master per guild, who is the leader; five to ten ranks; index, table and connected
    players agree with the members. \<^theory_text>\<open>Guild_Run\<close>, \<^theory_text>\<open>Guild_Life\<close>: every handler keeps it; the step relation
    \<open>guild_step\<close> interprets \<open>conserving\<close>. \<^theory_text>\<open>Guild_Sample\<close>: a server for the witnesses.
  \<^item> \<^theory_text>\<open>Guild_Props\<close>: runs, who may change whom, deleted ranks. \<^theory_text>\<open>Guild_Repair\<close>: disbanding leaves nothing.
    \<^theory_text>\<open>Guild_Log\<close>: the event log is read back. \<^theory_text>\<open>Load_Props\<close>: a guild that loads is well formed whatever the rows
    say. \<^theory_text>\<open>Roster_Props\<close>: a roster fits the buffer of the client.

  \<^bold>\<open>Charters\<close> (\<^verbatim>\<open>game/Guild/GuildMgr.cpp\<close>, \<^verbatim>\<open>game/Handlers/PetitionsHandler.cpp\<close>), items that found guilds; here items, guilds
  and petitions meet.
  \<^item> \<^theory_text>\<open>Charters\<close>: petitions, signatures, their tables and the handlers.
  \<^item> \<^theory_text>\<open>Charter_Inv\<close>: the invariant \<open>charters_ok\<close>: the guilds are in order, a player has signed at most one charter and
    then is in no guild, a charter has at most nine signatures, an owner one charter. Operations on guilds that let no one in
    keep it because they only shrink the index (\<open>shrinks\<close>). \<^theory_text>\<open>Charter_Run\<close>: the handlers of charters keep it.
    \<^theory_text>\<open>Charter_Life\<close>: the steps of guilds keep it. \<^theory_text>\<open>Charter_Found\<close>: those who signed join the guild that is founded.
  \<^item> \<^theory_text>\<open>Charter_Props\<close>: the step relation \<open>charter_step\<close> of guild and charter packets, interpreted in \<open>conserving\<close>;
    what turning in gives. \<^theory_text>\<open>Charter_Reload\<close>: charters are read back, and a withdrawn signature comes back too,
    because its row is deleted by the wrong column.

  \<^bold>\<open>Auction houses\<close> (\<^verbatim>\<open>game/AuctionHouse\<close>, \<^verbatim>\<open>game/Handlers/AuctionHouseHandler.cpp\<close>, \<^verbatim>\<open>game/Mail/Mail.cpp\<close>). The state is
  \<open>ast\<close>: the houses with their three indexes into a heap of auctions, the items up for auction, the ids in use, the connected players with
  purse and mailbox, the tables, and the packets and script calls in order.
  \<^item> \<^theory_text>\<open>Auction_Data\<close>: records, ids, cut, deposit and increment, the indexes, the lookup of houses. \<^theory_text>\<open>Auction_Mgr\<close>: mails, notifications,
    the update that ends auctions, loading. \<^theory_text>\<open>Auction_Handlers\<close>: taking an item out of the inventory, the packet handlers, the pages of own auctions and bids.
  \<^item> \<^theory_text>\<open>Auction_Inv\<close>: the invariant \<open>auctions_ok\<close>: the indexes by price and by account hold exactly the auctions of their house, ids and items
    belong to one auction each, the items are with the manager, bids stay below the buyout price; and \<open>wealth\<close>, the gold in purses, bids, deposits and mails.
    \<^theory_text>\<open>Auction_Keep\<close>: what leaves them alone, and what a step posts (\<open>delivers\<close>). \<^theory_text>\<open>Auction_Run\<close>: adding and closing an auction.
    \<^theory_text>\<open>Auction_End\<close>: the loop of the update. \<^theory_text>\<open>Auction_Bids\<close>: bids, buyouts and cancelling. \<^theory_text>\<open>Auction_Sell\<close>: new auctions.
  \<^item> \<^theory_text>\<open>Auction_Props\<close>: the step relation \<open>auction_step\<close>, interpreted in the locale \<open>spending\<close> of the prelude: the books stay in order and no gold is
    made. When a bid is accepted and what it then does; which auctions the update settles and how.
  \<^item> Single-precision arithmetic is a record of its operations, \<open>float_ops\<close>. Of it, \<open>sound_env\<close> only asks that the cut of a sale is at most the bid, and of
    module scripts that they leave payments alone. The steps are those of the server with a fixed set of connected players; selling needs an id other than 0.

  \<^bold>\<open>Conventions.\<close> Integers keep their width as words. Pointers are natural numbers into a heap that is
  a function; \<open>pl_freed\<close> and the like record what was deleted. A function of the code that reads past
  a checked position has a partial result. \<open>DestroyItem_depth\<close> takes a depth: the code
  recurses only for the contents of equipped bags, where the inner calls find nothing, so two is enough.
  The mutual recursion of \<open>DepositItemInFreeSlot\<close> and \<open>DepositItemInSlot\<close> and the loop of \<open>Disband\<close> have termination proofs.
  What is not read from the sources is an argument of the operations: \<open>world\<close> (item prototypes, the clock, the hook of the
  money script, names), \<open>genv\<close> (the configuration, the cache of characters, the order of hash maps, the escaping of SQL text,
  dates and the rank that scripts give a new member), \<open>name_env\<close> and \<open>aenv\<close> (configuration, clocks and stores of the auction houses). \<open>env_ok\<close> says of them that a hash map keeps its keys
  and that scripts neither make a new member master nor demote the founder.

  \<^bold>\<open>Not modelled.\<close> Spells, movement, maps, scripts, chat commands and the network: floating-point
  geometry, content, or glue to libraries. Groups, loot and battlegrounds; of mail, all but the sending of
  auction mails; of the auction houses, the search, the loading of the items and the queue of list requests. The text of SQL statements and
  the connection: the tables are lists of typed rows. Concurrency: the handler of a session runs alone on the world
  thread, and the locks of the manager make its lookups single steps. Of the functions that are modelled: the end of feigned
  death, the notice of a new item and the saving of the inventory when a charter is bought, the shutdown when ids run out. Loading is
  proved to give well-formed guilds one by one, not to give \<open>guilds_ok\<close> for the whole server.
\<close>

end
